(* ===== verification/Prelude.thy ===== *)
theory Prelude
  imports Main "HOL-Library.Word"
begin

text \<open>
  Shared foundations of the development.

  \<^item> \<open>exn\<close>: the exceptions the service raises, as values.
  \<^item> \<open>('s, 'a) prog\<close>: a program that runs on an explicit state and either returns a value
    (\<open>Inr\<close>) or raises an exception (\<open>Inl\<close>), in both cases with the state it leaves. The
    combinators \<open>ret\<close>, \<open>raise\<close>, \<open>bnd\<close>, \<open>attempt\<close>, \<open>fold_prog\<close> stand for \<open>return\<close>,
    \<open>raise\<close>, sequencing, \<open>try/except Exception\<close> and a \<open>for\<close> loop that threads an accumulator.
  \<^item> \<open>wp\<close>: the weakest precondition of a program for a postcondition on normal return and one on
    exceptional return. Its equations are the simp collection \<open>wp_simps\<close>; component proofs unfold
    an operation and let the simplifier compute its \<open>wp\<close>.
  \<^item> list lemmas the components share.
\<close>

named_theorems wp_simps "equations that compute the wp of a program"

section \<open>Exceptions\<close>

text \<open>
  Two exceptions carry a stored row: the notes document and the source edit of the relational store (rows of
  \<open>conversation_notes\<close> and \<open>source_edits\<close>; a UUID is a 128-bit word).
\<close>

record note_row =
  nt_content :: string
  nt_version :: int
  nt_updated :: int

record edit_row =
  ed_owner :: "128 word"
  ed_conv :: "128 word"
  ed_msg :: "128 word"
  ed_block :: string
  ed_language :: string
  ed_format :: string
  ed_sha :: string
  ed_content :: string
  ed_version :: int
  ed_created :: int
  ed_updated :: int

datatype exn =
    DbError
  | RedisError
  | KafkaError
  | StorageError
  | RuntimeError
  | TypeError
  | KeyError
  | OverflowError
  | ValueError string
  | LookupError string
  | PermissionError string
  | HTTPException nat string
  | PendingResponseRegistrationError
  | CustomModeUnavailableError
  | CustomModeNotFoundError
  | CustomModeConflictError nat
  | CustomModeNameTakenError
  | CustomModeLimitError nat
  | InvalidDefaultModeError
  | PreferencesConflictError nat
  | UnknownCatalogItemError
  | ArtifactSpecError string
  | ArtifactNotFound
  | RetryLimitReached
  | RenderUnavailable
  | RenderRejected string
  | FileNotFoundError
  | NotesVersionConflict "note_row option"
  | SourceEditConflict "edit_row option"
  | SourceEditLimitReached
  | UnsafeArchivePath string
  | SourceMissing
  | ExportTooLarge
  | ExportLimitReached
  | PdfUnavailable

section \<open>Programs\<close>

type_synonym ('s, 'a) prog = "'s \<Rightarrow> (exn + 'a) \<times> 's"

definition ret :: "'a \<Rightarrow> ('s, 'a) prog" where
  "ret a = (\<lambda>s. (Inr a, s))"

definition raise :: "exn \<Rightarrow> ('s, 'a) prog" where
  "raise e = (\<lambda>s. (Inl e, s))"

definition bnd :: "('s, 'a) prog \<Rightarrow> ('a \<Rightarrow> ('s, 'b) prog) \<Rightarrow> ('s, 'b) prog" where
  "bnd m f = (\<lambda>s. case m s of (Inl e, s') \<Rightarrow> (Inl e, s') | (Inr a, s') \<Rightarrow> f a s')"

text \<open>\<open>attempt m h\<close> is \<open>try: m\<close> with \<open>except Exception as e: h e\<close>.\<close>

definition attempt :: "('s, 'a) prog \<Rightarrow> (exn \<Rightarrow> ('s, 'a) prog) \<Rightarrow> ('s, 'a) prog" where
  "attempt m h = (\<lambda>s. case m s of (Inl e, s') \<Rightarrow> h e s' | (Inr a, s') \<Rightarrow> (Inr a, s'))"

definition getting :: "('s \<Rightarrow> 'a) \<Rightarrow> ('s, 'a) prog" where
  "getting f = (\<lambda>s. (Inr (f s), s))"

definition run :: "('s, 'a) prog \<Rightarrow> 's \<Rightarrow> (exn + 'a) \<times> 's" where
  "run m s = m s"

definition result :: "('s, 'a) prog \<Rightarrow> 's \<Rightarrow> exn + 'a" where
  "result m s = fst (m s)"

definition after :: "('s, 'a) prog \<Rightarrow> 's \<Rightarrow> 's" where
  "after m s = snd (m s)"

primrec fold_prog :: "('x \<Rightarrow> 'b \<Rightarrow> ('s, 'b) prog) \<Rightarrow> 'x list \<Rightarrow> 'b \<Rightarrow> ('s, 'b) prog" where
  "fold_prog f [] b = ret b"
| "fold_prog f (x # xs) b = bnd (f x b) (fold_prog f xs)"

lemmas prog_defs = ret_def raise_def bnd_def attempt_def getting_def

section \<open>Weakest preconditions\<close>

definition wp :: "('s, 'a) prog \<Rightarrow> ('a \<Rightarrow> 's \<Rightarrow> bool) \<Rightarrow> (exn \<Rightarrow> 's \<Rightarrow> bool) \<Rightarrow> 's \<Rightarrow> bool" where
  "wp m Q E s = (case m s of (Inl e, s') \<Rightarrow> E e s' | (Inr a, s') \<Rightarrow> Q a s')"

lemma wp_ret [wp_simps]: "wp (ret a) Q E = Q a"
  by (simp add: wp_def ret_def fun_eq_iff)

lemma wp_raise [wp_simps]: "wp (raise e) Q E = E e"
  by (simp add: wp_def raise_def fun_eq_iff)

lemma wp_getting [wp_simps]: "wp (getting f) Q E s = Q (f s) s"
  by (simp add: wp_def getting_def)

lemma wp_bnd [wp_simps]: "wp (bnd m f) Q E = wp m (\<lambda>a. wp (f a) Q E) E"
  by (simp add: wp_def bnd_def fun_eq_iff split: prod.splits sum.splits)

lemma wp_attempt [wp_simps]: "wp (attempt m h) Q E = wp m Q (\<lambda>e. wp (h e) Q E)"
  by (simp add: wp_def attempt_def fun_eq_iff split: prod.splits sum.splits)

lemma wp_if [wp_simps]:
  "wp (if b then m else n) Q E s = (if b then wp m Q E s else wp n Q E s)"
  by simp

lemma wp_Let [wp_simps]: "wp (Let t f) Q E s = wp (f t) Q E s"
  by (simp add: Let_def)

lemma wp_case_option [wp_simps]:
  "wp (case x of None \<Rightarrow> m | Some y \<Rightarrow> f y) Q E s =
     (case x of None \<Rightarrow> wp m Q E s | Some y \<Rightarrow> wp (f y) Q E s)"
  by (cases x) simp_all

lemma wp_case_sum [wp_simps]:
  "wp (case x of Inl a \<Rightarrow> g a | Inr y \<Rightarrow> f y) Q E s =
     (case x of Inl a \<Rightarrow> wp (g a) Q E s | Inr y \<Rightarrow> wp (f y) Q E s)"
  by (cases x) simp_all

lemma wp_case_prod [wp_simps]:
  "wp (case x of (a, b) \<Rightarrow> f a b) Q E s = (case x of (a, b) \<Rightarrow> wp (f a b) Q E s)"
  by (cases x) simp

lemma wp_case_list [wp_simps]:
  "wp (case x of [] \<Rightarrow> m | y # ys \<Rightarrow> f y ys) Q E s =
     (case x of [] \<Rightarrow> wp m Q E s | y # ys \<Rightarrow> wp (f y ys) Q E s)"
  by (cases x) simp_all

lemma wp_mono:
  assumes "wp m Q E s" and "\<And>a s'. Q a s' \<Longrightarrow> Q' a s'" and "\<And>e s'. E e s' \<Longrightarrow> E' e s'"
  shows "wp m Q' E' s"
  using assms by (auto simp: wp_def split: prod.splits sum.splits)

lemma wp_conj:
  assumes "wp m Q1 E1 s" and "wp m Q2 E2 s"
  shows "wp m (\<lambda>a s'. Q1 a s' \<and> Q2 a s') (\<lambda>e s'. E1 e s' \<and> E2 e s') s"
  using assms by (auto simp: wp_def split: prod.splits sum.splits)

lemma wp_result: "wp m Q E s \<Longrightarrow> m s = (Inr a, s') \<Longrightarrow> Q a s'"
  by (simp add: wp_def)

lemma wp_error: "wp m Q E s \<Longrightarrow> m s = (Inl e, s') \<Longrightarrow> E e s'"
  by (simp add: wp_def)

lemma wp_after: "wp m (\<lambda>_. P) (\<lambda>_. P) s \<longleftrightarrow> P (after m s)"
  by (auto simp: wp_def after_def split: prod.splits sum.splits)

text \<open>A loop keeps whatever one turn of it keeps, on normal and on exceptional exit.\<close>

lemma wp_fold_prog_inv:
  assumes step: "\<And>x b s. x \<in> set xs \<Longrightarrow> I s \<Longrightarrow> wp (f x b) (\<lambda>_. I) (\<lambda>_. I) s"
    and start: "I s"
  shows "wp (fold_prog f xs b) (\<lambda>_. I) (\<lambda>_. I) s"
  using step start
proof (induction xs arbitrary: b s)
  case Nil
  then show ?case by (simp add: wp_simps)
next
  case (Cons x xs)
  have "wp (f x b) (\<lambda>_. I) (\<lambda>_. I) s" using Cons.prems by simp
  then have "wp (f x b) (\<lambda>a. wp (fold_prog f xs a) (\<lambda>_. I) (\<lambda>_. I)) (\<lambda>_. I) s"
  proof (rule wp_mono)
    show "wp (fold_prog f xs a) (\<lambda>_. I) (\<lambda>_. I) s'" if "I s'" for a s'
      using that Cons.IH Cons.prems(1) by simp
  qed
  then show ?case by (simp add: wp_simps)
qed

lemma wp_True: "wp m (\<lambda>_ _. True) (\<lambda>_ _. True) s"
  by (simp add: wp_def split: prod.split sum.split)

text \<open>A loop keeps what every turn keeps of its accumulator.\<close>

lemma wp_fold_acc:
  assumes "\<And>x b s. x \<in> set xs \<Longrightarrow> J b \<Longrightarrow> wp (f x b) (\<lambda>b' _. J b') (\<lambda>_ _. True) s" and "J b"
  shows "wp (fold_prog f xs b) (\<lambda>b' _. J b') (\<lambda>_ _. True) s"
  using assms
proof (induction xs arbitrary: b s)
  case (Cons y ys b t)
  have "wp (f y b) (\<lambda>b' _. J b') (\<lambda>_ _. True) t" using Cons.prems by simp
  then show ?case unfolding fold_prog.simps wp_bnd by (rule wp_mono) (auto intro!: Cons.IH Cons.prems(1))
qed (simp add: wp_ret)

definition lift_result :: "exn + 'a \<Rightarrow> ('s, 'a) prog" where
  "lift_result r = (case r of Inl e \<Rightarrow> raise e | Inr a \<Rightarrow> ret a)"

lemma wp_lift_result [wp_simps]:
  "wp (lift_result r) Q E w = (case r of Inl e \<Rightarrow> E e w | Inr a \<Rightarrow> Q a w)"
  by (cases r) (simp_all add: lift_result_def wp_simps)

section \<open>Lists\<close>

lemma filter_length_le: "length (filter P xs) \<le> length xs"
  by simp

lemma set_takeD: "x \<in> set (take n xs) \<Longrightarrow> x \<in> set xs"
  by (rule in_set_takeD)

text \<open>\<open>dict.get\<close> on an association list, and removal of a key.\<close>

definition aget :: "('k \<times> 'v) list \<Rightarrow> 'k \<Rightarrow> 'v option" where
  "aget kvs k = map_of kvs k"

text \<open>Order-preserving removal of duplicates (the first occurrence stays), as the \<open>seen\<close> set loops do.\<close>

fun dedup :: "'a list \<Rightarrow> 'a list \<Rightarrow> 'a list" where
  "dedup seen [] = []"
| "dedup seen (x # xs) = (if x \<in> set seen then dedup seen xs else x # dedup (x # seen) xs)"

lemma set_dedup: "set (dedup seen xs) = set xs - set seen"
  by (induction seen xs rule: dedup.induct) auto

lemma distinct_dedup: "distinct (dedup seen xs)"
  by (induction seen xs rule: dedup.induct) (auto simp: set_dedup)

lemma dedup_id: "distinct xs \<Longrightarrow> set xs \<inter> set seen = {} \<Longrightarrow> dedup seen xs = xs"
  by (induction seen xs rule: dedup.induct) auto

end
