(* ===== verification/Py_Text.thy ===== *)
theory Py_Text
  imports Prelude "HOL-Library.AList"
begin

text \<open>
  The string operations of Python's standard library that the service uses, on \<open>string\<close>
  (a list of code points below 256), and the JSON values it reads and writes.

  A Python string is a list of code points; here the code points are the ones a \<open>char\<close> can
  hold (U+0000 to U+00FF). On these, NFC normalisation is the identity, \<open>str.isspace\<close> holds of the
  ten code points below, and UTF-8 uses one byte below 128 and two bytes above.
\<close>

section \<open>Characters\<close>

definition py_space :: "char \<Rightarrow> bool" where
  "py_space c = (let n = (of_char c :: nat) in
     (9 \<le> n \<and> n \<le> 13) \<or> (28 \<le> n \<and> n \<le> 32) \<or> n = 133 \<or> n = 160)"

definition is_digit :: "char \<Rightarrow> bool" where
  "is_digit c = (let n = (of_char c :: nat) in 48 \<le> n \<and> n \<le> 57)"

definition is_lower_az :: "char \<Rightarrow> bool" where
  "is_lower_az c = (let n = (of_char c :: nat) in 97 \<le> n \<and> n \<le> 122)"

definition is_upper_az :: "char \<Rightarrow> bool" where
  "is_upper_az c = (let n = (of_char c :: nat) in 65 \<le> n \<and> n \<le> 90)"

definition is_alnum_ascii :: "char \<Rightarrow> bool" where
  "is_alnum_ascii c = (is_digit c \<or> is_lower_az c \<or> is_upper_az c)"

text \<open>\<open>str.lower\<close> on one code point: A-Z, and U+00C0..U+00DE without the multiplication sign.\<close>

definition lower_char :: "char \<Rightarrow> char" where
  "lower_char c = (let n = (of_char c :: nat) in
     if (65 \<le> n \<and> n \<le> 90) \<or> (192 \<le> n \<and> n \<le> 222 \<and> n \<noteq> 215) then char_of (n + 32) else c)"

definition lower :: "string \<Rightarrow> string" where
  "lower s = map lower_char s"

lemma lower_char_idem [simp]: "lower_char (lower_char c) = lower_char c"
proof -
  let ?n = "of_char c :: nat"
  show ?thesis
  proof (cases "(65 \<le> ?n \<and> ?n \<le> 90) \<or> (192 \<le> ?n \<and> ?n \<le> 222 \<and> ?n \<noteq> 215)")
    case True
    then have "lower_char c = char_of (?n + 32)" by (simp add: lower_char_def Let_def)
    moreover have "(of_char (char_of (?n + 32) :: char) :: nat) = ?n + 32" using True by auto
    ultimately show ?thesis using True by (auto simp: lower_char_def Let_def)
  next
    case False
    then have "lower_char c = c" by (auto simp: lower_char_def Let_def)
    then show ?thesis by simp
  qed
qed

lemma lower_idem [simp]: "lower (lower s) = lower s"
  by (simp add: lower_def)

lemma length_lower [simp]: "length (lower s) = length s"
  by (simp add: lower_def)

section \<open>strip, prefixes, slices\<close>

definition lstrip :: "string \<Rightarrow> string" where
  "lstrip s = dropWhile py_space s"

definition rstrip :: "string \<Rightarrow> string" where
  "rstrip s = rev (dropWhile py_space (rev s))"

definition strip :: "string \<Rightarrow> string" where
  "strip s = rstrip (lstrip s)"

definition starts_with :: "string \<Rightarrow> string \<Rightarrow> bool" where
  "starts_with p s = (take (length p) s = p)"

lemma dropWhile_idem [simp]: "dropWhile P (dropWhile P xs) = dropWhile P xs"
  by (induction xs) auto

lemma rstrip_Nil [simp]: "rstrip [] = []"
  by (simp add: rstrip_def)

lemma strip_Nil [simp]: "strip [] = []"
  by (simp add: strip_def lstrip_def)

lemma rstrip_idem [simp]: "rstrip (rstrip s) = rstrip s"
  by (simp add: rstrip_def)

lemma rstrip_eq_Nil: "rstrip s = [] \<longleftrightarrow> (\<forall>c \<in> set s. py_space c)"
  by (auto simp: rstrip_def)

lemma rstrip_Cons:
  "rstrip (c # s) = (if py_space c \<and> rstrip s = [] then [] else c # rstrip s)"
  by (auto simp: rstrip_def dropWhile_append dropWhile_eq_Nil_conv dest: set_dropWhileD)

lemma hd_rstrip: "rstrip s \<noteq> [] \<Longrightarrow> hd (rstrip s) = hd s"
  by (cases s) (auto simp: rstrip_Cons split: if_splits)

lemma lstrip_id_iff: "lstrip s = s \<longleftrightarrow> s = [] \<or> \<not> py_space (hd s)"
proof (cases s)
  case (Cons c t)
  have "length (dropWhile py_space t) \<le> length t" by (rule length_dropWhile_le)
  then show ?thesis using Cons by (auto simp: lstrip_def)
qed (simp add: lstrip_def)

lemma strip_idem [simp]: "strip (strip s) = strip s"
proof (cases "strip s = []")
  case True
  then show ?thesis by simp
next
  case False
  then have ne: "rstrip (lstrip s) \<noteq> []" by (simp add: strip_def)
  then have "lstrip s \<noteq> []" by (auto simp: rstrip_def)
  then have "\<not> py_space (hd (lstrip s))" by (simp add: lstrip_def hd_dropWhile)
  then have "lstrip (rstrip (lstrip s)) = rstrip (lstrip s)"
    using ne by (simp add: lstrip_id_iff hd_rstrip)
  then show ?thesis by (simp add: strip_def)
qed

lemma length_strip: "length (strip s) \<le> length s"
proof -
  have "length (dropWhile py_space (rev t)) \<le> length t" for t
    by (metis length_dropWhile_le length_rev)
  then show ?thesis
    by (simp add: strip_def rstrip_def lstrip_def) (meson length_dropWhile_le order_trans)
qed

lemma dropWhile_none: "\<forall>c \<in> set s. \<not> P c \<Longrightarrow> dropWhile P s = s"
  by (cases s) auto

lemma strip_nonspace_id: "\<forall>c \<in> set s. \<not> py_space c \<Longrightarrow> strip s = s"
  by (simp add: strip_def rstrip_def lstrip_def dropWhile_none)

section \<open>Split and join on one separator character\<close>

fun split_on :: "char \<Rightarrow> string \<Rightarrow> string list" where
  "split_on c [] = [[]]"
| "split_on c (x # xs) =
     (if x = c then [] # split_on c xs
      else case split_on c xs of [] \<Rightarrow> [[x]] | w # ws \<Rightarrow> (x # w) # ws)"

lemma split_on_not_Nil [simp]: "split_on c s \<noteq> []"
  by (induction s) (auto split: list.splits)

lemma split_no_sep: "c \<notin> set s \<Longrightarrow> split_on c s = [s]"
  by (induction s) auto

lemma split_on_no_sep: "w \<in> set (split_on c s) \<Longrightarrow> c \<notin> set w"
  by (induction s arbitrary: w) (auto split: if_splits list.splits)

lemma split_on_subset: "w \<in> set (split_on c s) \<Longrightarrow> set w \<subseteq> set s"
  by (induction s arbitrary: w) (fastforce split: if_splits list.splits)+

section \<open>Decimal and hexadecimal digits\<close>

fun dec_of_nat :: "nat \<Rightarrow> string" where
  "dec_of_nat n = (if n < 10 then [char_of (48 + n)] else dec_of_nat (n div 10) @ [char_of (48 + n mod 10)])"

declare dec_of_nat.simps [simp del]

definition dec_of_int :: "int \<Rightarrow> string" where
  "dec_of_int i = (if i < 0 then CHR ''-'' # dec_of_nat (nat (- i)) else dec_of_nat (nat i))"

definition hex_digit :: "nat \<Rightarrow> char" where
  "hex_digit n = (if n < 10 then char_of (48 + n) else char_of (87 + n))"

definition hex_value :: "char \<Rightarrow> nat option" where
  "hex_value c = (let n = (of_char c :: nat) in
     if 48 \<le> n \<and> n \<le> 57 then Some (n - 48)
     else if 97 \<le> n \<and> n \<le> 102 then Some (n - 87)
     else if 65 \<le> n \<and> n \<le> 70 then Some (n - 55)
     else None)"

lemma hex_value_digit [simp]: "n < 16 \<Longrightarrow> hex_value (hex_digit n) = Some n"
  by (auto simp: hex_value_def hex_digit_def)

lemma hex_digit_not_dash [simp]: "n < 16 \<Longrightarrow> hex_digit n \<noteq> CHR ''-''"
proof
  assume "n < 16" and h: "hex_digit n = CHR ''-''"
  then have "hex_value (CHR ''-'') = Some n" by (metis hex_value_digit)
  then show False by (simp add: hex_value_def)
qed

section \<open>JSON values\<close>

text \<open>
  A parsed JSON document; an object is an association list with the keys in insertion order, a
  float is kept as its text (no code path computes with one).
\<close>

datatype json =
    JNull
  | JBool bool
  | JInt int
  | JFloat string
  | JStr string
  | JList "json list"
  | JObj "(string \<times> json) list"

text \<open>\<open>d.get(k)\<close> and \<open>d.get(k, default)\<close>.\<close>

definition jget_or :: "(string \<times> json) list \<Rightarrow> string \<Rightarrow> json \<Rightarrow> json" where
  "jget_or kvs k d = (case map_of kvs k of None \<Rightarrow> d | Some v \<Rightarrow> v)"

abbreviation jget :: "(string \<times> json) list \<Rightarrow> string \<Rightarrow> json" where
  "jget kvs k \<equiv> jget_or kvs k JNull"

text \<open>Python truthiness.\<close>

fun truthy :: "json \<Rightarrow> bool" where
  "truthy JNull = False"
| "truthy (JBool b) = b"
| "truthy (JInt i) = (i \<noteq> 0)"
| "truthy (JFloat s) = (s \<noteq> ''0.0'' \<and> s \<noteq> ''-0.0'')"
| "truthy (JStr s) = (s \<noteq> [])"
| "truthy (JList xs) = (xs \<noteq> [])"
| "truthy (JObj kvs) = (kvs \<noteq> [])"

text \<open>
  \<open>json.dumps(value, sort_keys=True, separators=(",", ":"), ensure_ascii=False)\<close>: the control
  characters, the quote and the backslash are escaped, everything else is written as it is.
\<close>

definition esc_char :: "char \<Rightarrow> string" where
  "esc_char c = (let n = (of_char c :: nat) in
     if n = 34 then [char_of (92::nat), char_of (34::nat)]
     else if n = 92 then [char_of (92::nat), char_of (92::nat)]
     else if n = 10 then [char_of (92::nat), CHR ''n'']
     else if n = 13 then [char_of (92::nat), CHR ''r'']
     else if n = 9 then [char_of (92::nat), CHR ''t'']
     else if n = 8 then [char_of (92::nat), CHR ''b'']
     else if n = 12 then [char_of (92::nat), CHR ''f'']
     else if n < 32 then [char_of (92::nat), CHR ''u'', CHR ''0'', CHR ''0'',
                          hex_digit (n div 16), hex_digit (n mod 16)]
     else [c])"

definition dump_str :: "string \<Rightarrow> string" where
  "dump_str s = [char_of (34::nat)] @ concat (map esc_char s) @ [char_of (34::nat)]"

fun str_le :: "string \<Rightarrow> string \<Rightarrow> bool" where
  "str_le [] _ = True"
| "str_le (_ # _) [] = False"
| "str_le (a # s) (b # t) =
     ((of_char a :: nat) < of_char b \<or> (a = b \<and> str_le s t))"

fun insert_key :: "(string \<times> 'a) \<Rightarrow> (string \<times> 'a) list \<Rightarrow> (string \<times> 'a) list" where
  "insert_key kv [] = [kv]"
| "insert_key kv (x # xs) = (if str_le (fst kv) (fst x) then kv # x # xs else x # insert_key kv xs)"

definition sort_keys :: "(string \<times> 'a) list \<Rightarrow> (string \<times> 'a) list" where
  "sort_keys kvs = foldr insert_key kvs []"

fun join :: "string \<Rightarrow> string list \<Rightarrow> string" where
  "join sep [] = []"
| "join sep [w] = w"
| "join sep (w # v # ws) = w @ sep @ join sep (v # ws)"

lemma set_insert_key [simp]: "set (insert_key kv kvs) = insert kv (set kvs)"
  by (induction kvs) auto

lemma set_sort_keys [simp]: "set (sort_keys kvs) = set kvs"
  by (induction kvs) (auto simp: sort_keys_def)

primrec dumps :: "json \<Rightarrow> string" where
  "dumps JNull = ''null''"
| "dumps (JBool b) = (if b then ''true'' else ''false'')"
| "dumps (JInt i) = dec_of_int i"
| "dumps (JFloat s) = s"
| "dumps (JStr s) = dump_str s"
| "dumps (JList xs) = ''['' @ join '','' (map dumps xs) @ '']''"
| "dumps (JObj kvs) =
     ''{'' @ join '','' (map (\<lambda>(k, t). dump_str k @ '':'' @ t) (sort_keys (map (map_prod id dumps) kvs))) @ ''}''"

text \<open>Length of the UTF-8 encoding.\<close>

definition utf8_len :: "string \<Rightarrow> nat" where
  "utf8_len s = sum_list (map (\<lambda>c. if (of_char c :: nat) < 128 then 1 else 2) s)"

section \<open>Instants\<close>

text \<open>
  \<open>datetime.isoformat()\<close> of a UTC instant given in microseconds since the epoch: the proleptic
  Gregorian date of the day, the time of day, and the microseconds unless they are zero.
\<close>

definition civil :: "int \<Rightarrow> int \<times> int \<times> int" where
  "civil day =
     (let z = day + 719468; era = z div 146097; doe = z mod 146097;
          yoe = (doe - doe div 1460 + doe div 36524 - doe div 146096) div 365;
          doy = doe - (365 * yoe + yoe div 4 - yoe div 100);
          mp = (5 * doy + 2) div 153;
          d = doy - (153 * mp + 2) div 5 + 1;
          m = (if mp < 10 then mp + 3 else mp - 9)
      in ((if m \<le> 2 then yoe + era * 400 + 1 else yoe + era * 400), m, d))"

definition padded :: "nat \<Rightarrow> int \<Rightarrow> string" where
  "padded k n = (let s = dec_of_int n in replicate (k - length s) (CHR ''0'') @ s)"

definition iso_utc :: "int \<Rightarrow> string" where
  "iso_utc t =
     (let day = t div 86400000000; us = t mod 86400000000; (y, m, d) = civil day;
          frac = us mod 1000000
      in padded 4 y @ ''-'' @ padded 2 m @ ''-'' @ padded 2 d @ ''T'' @
         padded 2 (us div 3600000000) @ '':'' @ padded 2 (us div 60000000 mod 60) @ '':'' @
         padded 2 (us div 1000000 mod 60) @
         (if frac = 0 then [] else ''.'' @ padded 6 frac) @ ''+00:00'')"

text \<open>Assignment to a key of a dict.\<close>

fun jset :: "string \<Rightarrow> json \<Rightarrow> json \<Rightarrow> json" where
  "jset k v (JObj kvs) = JObj (AList.update k v kvs)"
| "jset k v j = j"

end
