(* ===== verification/Uuids.thy ===== *)
theory Uuids
  imports Py_Text "HOL-Library.Product_Lexorder"
begin

text \<open>
  UUIDs (\<open>app/utils/helpers.py\<close> and the parts of \<open>uuid.UUID\<close> the service uses).

  A UUID is its 128-bit integer (\<open>UUID.int\<close>), so \<open>a.int > b.int\<close> is the order of words.
  \<open>uuidv7\<close> builds the 16 bytes exactly as the source does, from a millisecond clock reading and
  ten random bytes; \<open>uuidv7_after\<close> draws candidates from a stream. \<open>ckey\<close> is the order Cassandra
  gives a \<open>uuid\<close> clustering column (version first, then the bytes), and \<open>tkey\<close> the one of a
  \<open>timeuuid\<close> column (the 60-bit timestamp first).
\<close>

unbundle bit_operations_syntax

type_synonym uuid = "128 word"
type_synonym byte = "8 word"

section \<open>Fields and orders\<close>

definition uuid_version :: "uuid \<Rightarrow> nat" where
  "uuid_version u = unat u div 2 ^ 76 mod 16"

definition uuid_variant :: "uuid \<Rightarrow> nat" where
  "uuid_variant u = unat u div 2 ^ 62 mod 4"

definition uuid_ms :: "uuid \<Rightarrow> nat" where
  "uuid_ms u = unat u div 2 ^ 80"

definition uuid1_time :: "uuid \<Rightarrow> nat" where
  "uuid1_time u = unat u div 2 ^ 96 + unat u div 2 ^ 80 mod 2 ^ 16 * 2 ^ 32
     + unat u div 2 ^ 64 mod 2 ^ 12 * 2 ^ 48"

definition ckey :: "uuid \<Rightarrow> nat \<times> uuid" where
  "ckey u = (uuid_version u, u)"

definition tkey :: "uuid \<Rightarrow> nat \<times> uuid" where
  "tkey u = (uuid1_time u, u)"

lemma ckey_inj [simp]: "ckey u = ckey v \<longleftrightarrow> u = v"
  by (auto simp: ckey_def)

lemma tkey_inj [simp]: "tkey u = tkey v \<longleftrightarrow> u = v"
  by (auto simp: tkey_def)

lemma ckey_same_version: "uuid_version u = uuid_version v \<Longrightarrow> ckey u < ckey v \<longleftrightarrow> u < v"
  by (auto simp: ckey_def)

section \<open>Text form\<close>

fun nibbles :: "nat \<Rightarrow> nat \<Rightarrow> nat list" where
  "nibbles 0 n = []"
| "nibbles (Suc k) n = nibbles k (n div 16) @ [n mod 16]"

definition uuid_hex :: "uuid \<Rightarrow> string" where
  "uuid_hex u = map hex_digit (nibbles 32 (unat u))"

definition uuid_str :: "uuid \<Rightarrow> string" where
  "uuid_str u = (let h = uuid_hex u in
     take 8 h @ ''-'' @ take 4 (drop 8 h) @ ''-'' @ take 4 (drop 12 h) @ ''-'' @
     take 4 (drop 16 h) @ ''-'' @ drop 20 h)"

text \<open>\<open>s.replace(p, "")\<close>.\<close>

function remove_sub :: "string \<Rightarrow> string \<Rightarrow> string" where
  "remove_sub p [] = []"
| "remove_sub p (c # s) =
     (if p \<noteq> [] \<and> starts_with p (c # s) then remove_sub p (drop (length p) (c # s))
      else c # remove_sub p s)"
  by pat_completeness auto
termination
  by (relation "measure (\<lambda>(p, s). length s)") auto

definition strip_braces :: "string \<Rightarrow> string" where
  "strip_braces s = (let b = (\<lambda>c. c = CHR ''{'' \<or> c = CHR ''}'') in
     rev (dropWhile b (rev (dropWhile b s))))"

fun hex_nat :: "nat \<Rightarrow> string \<Rightarrow> nat option" where
  "hex_nat a [] = Some a"
| "hex_nat a (c # s) = (case hex_value c of None \<Rightarrow> None | Some d \<Rightarrow> hex_nat (16 * a + d) s)"

text \<open>
  \<open>int(s, 16)\<close> of a text without minus sign: surrounding space, one plus sign, the prefix \<open>0x\<close> and single underscores
  between digits are accepted.
\<close>

definition int16 :: "string \<Rightarrow> nat option" where
  "int16 s =
     (let t = strip s;
          t1 = (if starts_with ''+'' t then drop 1 t else t);
          prefixed = (starts_with ''0x'' t1 \<or> starts_with ''0X'' t1);
          t2 = (if prefixed then drop 2 t1 else t1);
          t3 = (if prefixed \<and> starts_with ''_'' t2 then drop 1 t2 else t2)
      in if [] \<in> set (split_on CHR ''_'' t3) then None else hex_nat 0 (filter (\<lambda>c. c \<noteq> CHR ''_'') t3))"

text \<open>\<open>UUID(s)\<close>; \<open>None\<close> is \<open>ValueError\<close>.\<close>

definition parse_uuid :: "string \<Rightarrow> uuid option" where
  "parse_uuid s =
     (let h = filter (\<lambda>c. c \<noteq> CHR ''-'')
                (strip_braces (remove_sub ''uuid:'' (remove_sub ''urn:'' s)))
      in if length h \<noteq> 32 then None else map_option word_of_nat (int16 h))"

lemma length_nibbles [simp]: "length (nibbles k n) = k"
  by (induction k arbitrary: n) auto

lemma nibbles_bound: "d \<in> set (nibbles k n) \<Longrightarrow> d < 16"
  by (induction k arbitrary: n) auto

lemma hex_nat_append: "hex_nat a (s @ t) = (case hex_nat a s of None \<Rightarrow> None | Some b \<Rightarrow> hex_nat b t)"
  by (induction s arbitrary: a) (auto split: option.splits)

lemma hex_nat_nibbles: "hex_nat a (map hex_digit (nibbles k n)) = Some (a * 16 ^ k + n mod 16 ^ k)"
proof (induction k arbitrary: n)
  case 0
  then show ?case by simp
next
  case (Suc k)
  have "n mod 16 ^ Suc k = 16 * (n div 16 mod 16 ^ k) + n mod 16"
    by (simp add: mod_mult2_eq)
  then show ?case by (simp add: hex_nat_append Suc.IH algebra_simps)
qed

lemma remove_sub_id: "p \<noteq> [] \<Longrightarrow> hd p \<notin> set s \<Longrightarrow> remove_sub p s = s"
  by (induction p s rule: remove_sub.induct) (auto simp: starts_with_def neq_Nil_conv)

lemma hex_valued_char:
  assumes "hex_value c = Some n"
  shows "c \<noteq> CHR ''+''" "c \<noteq> CHR ''_''" "c \<noteq> CHR ''x''" "c \<noteq> CHR ''X''" "\<not> py_space c"
proof -
  have "hex_value CHR ''+'' = None" "hex_value CHR ''_'' = None" "hex_value CHR ''x'' = None" "hex_value CHR ''X'' = None"
    by (simp_all add: hex_value_def)
  then show "c \<noteq> CHR ''+''" "c \<noteq> CHR ''_''" "c \<noteq> CHR ''x''" "c \<noteq> CHR ''X''" using assms by auto
  show "\<not> py_space c" using assms by (auto simp: hex_value_def py_space_def Let_def split: if_splits)
qed

lemma starts_with_chars: "starts_with p s \<Longrightarrow> set p \<subseteq> set s"
  by (metis set_take_subset starts_with_def)

lemma int16_digits:
  assumes "s \<noteq> []" and "\<forall>c \<in> set s. hex_value c \<noteq> None"
  shows "int16 s = hex_nat 0 s"
proof -
  have char: "c \<noteq> CHR ''+'' \<and> c \<noteq> CHR ''_'' \<and> c \<noteq> CHR ''x'' \<and> c \<noteq> CHR ''X'' \<and> \<not> py_space c" if "c \<in> set s" for c
  proof -
    obtain n where "hex_value c = Some n" using assms(2) \<open>c \<in> set s\<close> by auto
    from hex_valued_char [OF this] show ?thesis by simp
  qed
  then have "strip s = s" by (intro strip_nonspace_id) simp
  moreover have "\<not> starts_with ''+'' s" "\<not> starts_with ''0x'' s" "\<not> starts_with ''0X'' s"
    using char [of "CHR ''+''"] char [of "CHR ''x''"] char [of "CHR ''X''"] by (auto dest!: starts_with_chars)
  moreover have "split_on CHR ''_'' s = [s]" by (rule split_no_sep) (use char [of "CHR ''_''"] in auto)
  moreover have "filter (\<lambda>c. c \<noteq> CHR ''_'') s = s" using char by (auto simp: filter_id_conv)
  ultimately show ?thesis using assms(1) by (simp add: int16_def Let_def)
qed

lemma hex_digit_neq_letters:
  assumes "n < 16"
  shows "hex_digit n \<noteq> CHR ''u''" and "hex_digit n \<noteq> CHR ''{''" and "hex_digit n \<noteq> CHR ''}''"
proof -
  have "hex_value (hex_digit n) = Some n" using assms by simp
  moreover have "hex_value CHR ''u'' = None" "hex_value CHR ''{'' = None" "hex_value CHR ''}'' = None"
    by (simp_all add: hex_value_def)
  ultimately show "hex_digit n \<noteq> CHR ''u''" and "hex_digit n \<noteq> CHR ''{''"
    and "hex_digit n \<noteq> CHR ''}''" by force+
qed

lemma uuid_hex_char: "c \<in> set (uuid_hex u) \<Longrightarrow> \<exists>n < 16. c = hex_digit n"
  unfolding uuid_hex_def set_map by (blast dest: nibbles_bound)

lemma uuid_hex_chars [simp]:
  "CHR ''u'' \<notin> set (uuid_hex u)" "CHR ''{'' \<notin> set (uuid_hex u)"
  "CHR ''}'' \<notin> set (uuid_hex u)" "CHR ''-'' \<notin> set (uuid_hex u)"
  by (metis uuid_hex_char hex_digit_neq_letters hex_digit_not_dash)+

lemma uuid_str_subset: "set (uuid_str u) \<subseteq> insert (CHR ''-'') (set (uuid_hex u))"
proof -
  have "set (take n (drop m xs)) \<subseteq> set xs" "set (take n xs) \<subseteq> set xs" "set (drop n xs) \<subseteq> set xs"
    for n m and xs :: string
    by (meson order_trans set_drop_subset set_take_subset)+
  note part = this [THEN subset_trans, OF subset_insertI]
  show ?thesis
    unfolding uuid_str_def Let_def set_append Un_subset_iff by (simp add: part)
qed

lemma uuid_str_chars:
  "CHR ''u'' \<notin> set (uuid_str u)" "CHR ''{'' \<notin> set (uuid_str u)" "CHR ''}'' \<notin> set (uuid_str u)"
  using uuid_str_subset [of u] uuid_hex_chars [of u] by auto

lemma filter_uuid_str: "filter (\<lambda>c. c \<noteq> CHR ''-'') (uuid_str u) = uuid_hex u"
proof -
  let ?h = "uuid_hex u"
  have keep: "filter (\<lambda>c. c \<noteq> CHR ''-'') xs = xs" if "set xs \<subseteq> set ?h" for xs
    using that uuid_hex_chars(4) by (auto simp: filter_id_conv)
  have k: "filter (\<lambda>c. c \<noteq> CHR ''-'') (take n (drop m ?h)) = take n (drop m ?h)"
    "filter (\<lambda>c. c \<noteq> CHR ''-'') (drop m ?h) = drop m ?h"
    "filter (\<lambda>c. c \<noteq> CHR ''-'') (take n ?h) = take n ?h" for n m
    by (rule keep; meson order_trans set_drop_subset set_take_subset)+
  have "take 8 ?h @ take 4 (drop 8 ?h) = take 12 ?h"
    "take 12 ?h @ take 4 (drop 12 ?h) = take 16 ?h"
    "take 16 ?h @ take 4 (drop 16 ?h) = take 20 ?h"
    using take_add [of 8 4 ?h] take_add [of 12 4 ?h] take_add [of 16 4 ?h] by simp_all
  then have "take 8 ?h @ take 4 (drop 8 ?h) @ take 4 (drop 12 ?h) @ take 4 (drop 16 ?h) @ drop 20 ?h = ?h"
    by (metis append.assoc append_take_drop_id)
  then show ?thesis
    unfolding uuid_str_def Let_def filter_append k by simp
qed

text \<open>The text form of a UUID parses back to it, so \<open>str\<close> is injective on UUIDs.\<close>

lemma parse_uuid_str: "parse_uuid (uuid_str u) = Some u"
proof -
  have braces: "strip_braces (uuid_str u) = uuid_str u"
  proof -
    have "dropWhile (\<lambda>c. c = CHR ''{'' \<or> c = CHR ''}'') s = s" if "set s = set (uuid_str u)" for s
      by (rule dropWhile_none) (use that uuid_str_chars in auto)
    then show ?thesis by (simp add: strip_braces_def)
  qed
  have subs: "remove_sub ''urn:'' (uuid_str u) = uuid_str u" "remove_sub ''uuid:'' (uuid_str u) = uuid_str u"
    by (rule remove_sub_id; simp add: uuid_str_chars)+
  have "unat u < 16 ^ 32" using unsigned_less [of u] by simp
  then have "hex_nat 0 (uuid_hex u) = Some (unat u)"
    unfolding uuid_hex_def hex_nat_nibbles by (simp only: mod_less) simp
  moreover have len: "length (uuid_hex u) = 32" by (simp add: uuid_hex_def)
  moreover have "int16 (uuid_hex u) = hex_nat 0 (uuid_hex u)"
    by (rule int16_digits) (use len in \<open>auto dest!: uuid_hex_char\<close>)
  ultimately show ?thesis
    by (simp add: parse_uuid_def Let_def subs braces filter_uuid_str)
qed

lemma uuid_str_inj: "uuid_str u = uuid_str v \<longleftrightarrow> u = v"
  by (metis option.inject parse_uuid_str)

section \<open>Version 7\<close>

text \<open>\<open>int.from_bytes(bs, "big")\<close> and \<open>n.to_bytes(k, byteorder="big")\<close> (\<open>None\<close> is \<open>OverflowError\<close>).\<close>

definition be_val :: "byte list \<Rightarrow> nat" where
  "be_val bs = foldl (\<lambda>a b. a * 256 + unat b) 0 bs"

fun be_bytes :: "nat \<Rightarrow> nat \<Rightarrow> byte list" where
  "be_bytes 0 n = []"
| "be_bytes (Suc k) n = be_bytes k (n div 256) @ [word_of_nat (n mod 256)]"

definition to_bytes :: "nat \<Rightarrow> nat \<Rightarrow> byte list option" where
  "to_bytes k n = (if n < 256 ^ k then Some (be_bytes k n) else None)"

definition uuid_of_bytes :: "byte list \<Rightarrow> uuid" where
  "uuid_of_bytes bs = word_of_nat (be_val bs)"

text \<open>
  \<open>uuidv7()\<close> for a clock reading \<open>timestamp_ms\<close> and the ten bytes \<open>os.urandom(10)\<close> returned;
  \<open>None\<close> is the \<open>OverflowError\<close> of a timestamp that does not fit 48 bits.
\<close>

definition uuidv7 :: "nat \<Rightarrow> byte list \<Rightarrow> uuid option" where
  "uuidv7 timestamp_ms rand_bytes =
     (case to_bytes 6 timestamp_ms of
        None \<Rightarrow> None
      | Some ts_bytes \<Rightarrow>
          let v7_byte = (rand_bytes ! 0 AND 0x0F) OR 0x70;
              var_byte = (rand_bytes ! 1 AND 0x3F) OR 0x80
          in Some (uuid_of_bytes
               (ts_bytes @ [v7_byte] @ [rand_bytes ! 2] @ [var_byte] @ drop 3 rand_bytes)))"

text \<open>
  \<open>uuidv7_after(floor)\<close>: at most 64 draws \<open>cand 0, cand 1, \<dots>\<close> of \<open>uuidv7()\<close>, the first one above
  the floor, else the floor's successor (capped at the largest UUID).
\<close>

definition uuidv7_after :: "(nat \<Rightarrow> uuid) \<Rightarrow> uuid \<Rightarrow> uuid" where
  "uuidv7_after cand floor =
     (case find (\<lambda>u. floor < u) (map cand [0..<64]) of
        Some u \<Rightarrow> u
      | None \<Rightarrow> word_of_nat (min (unat floor + 1) (2 ^ 128 - 1)))"

lemma be_val_Nil [simp]: "be_val [] = 0"
  by (simp add: be_val_def)

lemma be_val_snoc [simp]: "be_val (bs @ [b]) = be_val bs * 256 + unat b"
  by (simp add: be_val_def)

lemma be_val_append: "be_val (xs @ ys) = be_val xs * 256 ^ length ys + be_val ys"
  by (induction ys rule: rev_induct) (simp_all flip: append_assoc add: algebra_simps)

lemma be_val_single [simp]: "be_val [b] = unat b"
  using be_val_snoc [of "[]" b] by simp

lemma be_val_less: "be_val bs < 256 ^ length bs"
proof (induction bs rule: rev_induct)
  case (snoc b bs)
  have "unat b < 256" using unsigned_less [of b] by simp
  then show ?case using snoc by simp
qed simp

lemma length_be_bytes [simp]: "length (be_bytes k n) = k"
  by (induction k arbitrary: n) auto

lemma be_val_be_bytes: "be_val (be_bytes k n) = n mod 256 ^ k"
proof (induction k arbitrary: n)
  case (Suc k)
  have "unat (word_of_nat (n mod 256) :: byte) = n mod 256"
    by (simp add: unat_of_nat take_bit_eq_mod)
  then show ?case using Suc by (simp add: mod_mult2_eq)
qed simp

lemma or_high_bits: "(r AND mask k) OR push_bit k c = take_bit k r + push_bit k c" for r :: byte
  unfolding take_bit_eq_mask by (rule disjunctive_add [symmetric]) (auto simp: bit_simps)

lemma unat_take_bit_byte: "unat (take_bit k r) = unat r mod 2 ^ k" for r :: byte
  unfolding unsigned_take_bit_eq by (simp add: take_bit_eq_mod)

lemma version_byte: "unat ((r AND 0x0F) OR 0x70 :: byte) = unat r mod 16 + 112"
proof -
  have "(r AND 0x0F) OR 0x70 = take_bit 4 r + 0x70"
    using or_high_bits [of r 4 7] by (simp add: mask_eq_exp_minus_1)
  then show ?thesis by (simp add: unat_word_ariths unat_take_bit_byte)
qed

lemma variant_byte: "unat ((r AND 0x3F) OR 0x80 :: byte) = unat r mod 64 + 128"
proof -
  have "(r AND 0x3F) OR 0x80 = take_bit 6 r + 0x80"
    using or_high_bits [of r 6 2] by (simp add: mask_eq_exp_minus_1)
  then show ?thesis by (simp add: unat_word_ariths unat_take_bit_byte)
qed

text \<open>The value of the sixteen bytes: the timestamp, then version, random, variant and random fields.\<close>

definition v7_value :: "nat \<Rightarrow> byte list \<Rightarrow> nat" where
  "v7_value ts r = ts * 2 ^ 80 + (unat (r ! 0) mod 16 + 112) * 2 ^ 72 + unat (r ! 2) * 2 ^ 64
     + (unat (r ! 1) mod 64 + 128) * 2 ^ 56 + be_val (drop 3 r)"

lemma uuidv7_value:
  assumes "ts < 2 ^ 48" and "length r = 10"
  shows "uuidv7 ts r = Some (word_of_nat (v7_value ts r))"
proof -
  have len: "length (drop 3 r) = 7" using assms(2) by simp
  have ts: "to_bytes 6 ts = Some (be_bytes 6 ts)" using assms(1) by (simp add: to_bytes_def)
  have "be_val (be_bytes 6 ts) = ts" using assms(1) by (simp add: be_val_be_bytes)
  then have "be_val (be_bytes 6 ts @ [(r ! 0 AND 0x0F) OR 0x70] @ [r ! 2]
      @ [(r ! 1 AND 0x3F) OR 0x80] @ drop 3 r) = v7_value ts r"
    using len by (simp add: be_val_append v7_value_def version_byte variant_byte algebra_simps
        del: append_Cons)
  then show ?thesis
    unfolding uuidv7_def ts uuid_of_bytes_def Let_def option.case by (simp only:)
qed

lemma v7_low:
  assumes "length r = 10"
  shows "be_val (drop 3 r) < 2 ^ 56"
  using be_val_less [of "drop 3 r"] assms by simp

lemma byte_less: "unat (b :: byte) < 256"
  using unsigned_less [of b] by simp

lemma unat_v7:
  assumes "ts < 2 ^ 48" and "length r = 10"
  shows "unat (word_of_nat (v7_value ts r) :: uuid) = v7_value ts r"
proof -
  have "v7_value ts r < 2 ^ 128"
    using v7_low [OF assms(2)] assms(1) byte_less [of "r ! 2"]
      mod_less_divisor [of 16 "unat (r ! 0)"] mod_less_divisor [of 64 "unat (r ! 1)"]
    unfolding v7_value_def by simp
  then show ?thesis by (simp add: unat_of_nat take_bit_eq_mod)
qed

text \<open>\<open>uuidv7\<close> carries version 7, the RFC variant and the millisecond clock it was minted at.\<close>

lemma uuidv7_fields:
  assumes "ts < 2 ^ 48" and "length r = 10"
  shows "\<exists>u. uuidv7 ts r = Some u \<and> uuid_version u = 7 \<and> uuid_variant u = 2 \<and> uuid_ms u = ts"
proof -
  let ?u = "word_of_nat (v7_value ts r) :: uuid"
  let ?a = "unat (r ! 0) mod 16" and ?b = "unat (r ! 1) mod 64" and ?c = "unat (r ! 2)"
    and ?d = "be_val (drop 3 r)"
  have bnd: "?a < 16" "?b < 64" "?c < 256" "?d < 2 ^ 56"
    using v7_low [OF assms(2)] byte_less [of "r ! 2"] by simp_all
  have quot: "c < b \<Longrightarrow> (a * b + c) div b = a" for a b c :: nat by simp
  have "v7_value ts r = (ts * 16 + 7) * 2 ^ 76 + (?a * 2 ^ 72 + ?c * 2 ^ 64 + (?b + 128) * 2 ^ 56 + ?d)"
    by (simp add: v7_value_def)
  moreover have "?a * 2 ^ 72 + ?c * 2 ^ 64 + (?b + 128) * 2 ^ 56 + ?d < 2 ^ 76"
    using bnd by simp
  ultimately have q76: "v7_value ts r div 2 ^ 76 = ts * 16 + 7" by (simp only: quot)
  have "v7_value ts r
      = ((ts * 2 ^ 16 + (?a + 112) * 2 ^ 8 + ?c) * 4 + 2) * 2 ^ 62 + (?b * 2 ^ 56 + ?d)"
    by (simp add: v7_value_def)
  moreover have "?b * 2 ^ 56 + ?d < 2 ^ 62" using bnd by simp
  ultimately have q62: "v7_value ts r div 2 ^ 62 = (ts * 2 ^ 16 + (?a + 112) * 2 ^ 8 + ?c) * 4 + 2"
    by (simp only: quot)
  have "v7_value ts r
      = ts * 2 ^ 80 + ((?a + 112) * 2 ^ 72 + ?c * 2 ^ 64 + (?b + 128) * 2 ^ 56 + ?d)"
    by (simp add: v7_value_def)
  moreover have "(?a + 112) * 2 ^ 72 + ?c * 2 ^ 64 + (?b + 128) * 2 ^ 56 + ?d < 2 ^ 80"
    using bnd by simp
  ultimately have q80: "v7_value ts r div 2 ^ 80 = ts" by (simp only: quot)
  have mods: "(a * 16 + 7) mod 16 = 7" "(a * 4 + 2) mod 4 = 2" for a :: nat by presburger+
  have "uuid_version ?u = 7" "uuid_variant ?u = 2" "uuid_ms ?u = ts"
    unfolding uuid_version_def uuid_variant_def uuid_ms_def unat_v7 [OF assms] q76 q62 q80 mods
    by (rule refl)+
  then show ?thesis using uuidv7_value [OF assms] by blast
qed

text \<open>A UUIDv7 minted in a later millisecond is larger, whatever the random bytes are.\<close>

lemma uuid_ms_less: "uuid_ms u < uuid_ms v \<Longrightarrow> u < v"
  unfolding uuid_ms_def by (metis div_le_mono not_le word_le_nat_alt)

section \<open>A response id sorts after the message it answers\<close>

lemma uuidv7_after_greater:
  assumes "unat floor < 2 ^ 128 - 1"
  shows "floor < uuidv7_after cand floor"
proof (cases "find (\<lambda>u. floor < u) (map cand [0..<64])")
  case None
  have "unat (word_of_nat (unat floor + 1) :: uuid) = unat floor + 1"
    unfolding unat_of_nat using assms by simp
  moreover have "min (unat floor + 1) (2 ^ 128 - 1) = unat floor + 1" using assms by simp
  ultimately show ?thesis
    unfolding uuidv7_after_def None option.case word_less_nat_alt by simp
next
  case (Some u)
  then have "floor < u" by (auto simp: find_Some_iff)
  then show ?thesis by (simp only: uuidv7_after_def Some option.case)
qed

text \<open>While the clock is not behind the floor, the result is one of the drawn UUIDv7 candidates.\<close>

lemma uuidv7_after_candidate:
  assumes "k < 64" and "floor < cand k"
  shows "\<exists>j < 64. uuidv7_after cand floor = cand j"
proof -
  have "find (\<lambda>u. floor < u) (map cand [0..<64]) \<noteq> None"
    using assms by (auto simp: find_None_iff)
  then obtain u where u: "find (\<lambda>u. floor < u) (map cand [0..<64]) = Some u" by blast
  then obtain j where "j < 64" "u = cand j" by (auto simp: find_Some_iff)
  then show ?thesis using u by (auto simp only: uuidv7_after_def option.case)
qed

end
