(* ===== verification/Citations.thy ===== *)
theory Citations
  imports Py_Text "HOL-Library.Sublist"
begin

text \<open>
  Answer-source citations (\<open>app/services/citations.py\<close>): the whitelist that cleans one citation
  of an event, the bounded de-duplicating sanitizer, and the stored form.

  A cleaned citation is the record of the keys the code emits; \<open>c_range\<close> holds \<open>start_seconds\<close> and
  \<open>end_seconds\<close>, which are present together or not at all. \<open>citation_json\<close> is the dict itself and
  \<open>dumps_citations\<close> its stored text.
\<close>

definition MAX_CITATIONS :: nat where "MAX_CITATIONS = 50"
definition MAX_FIELD_CHARS :: nat where "MAX_FIELD_CHARS = 300"
definition MAX_JSON_BYTES :: nat where "MAX_JSON_BYTES = 32000"
definition MAX_SECONDS :: int where "MAX_SECONDS = 9999999"

lemmas citation_limits = MAX_CITATIONS_def MAX_FIELD_CHARS_def MAX_JSON_BYTES_def MAX_SECONDS_def

record citation =
  c_file_id :: string
  c_source_name :: string
  c_page :: "int option"
  c_section :: "string option"
  c_range :: "(int \<times> int option) option"

section \<open>Cleaning one citation\<close>

definition is_file_id_char :: "char \<Rightarrow> bool" where
  "is_file_id_char c = (is_alnum_ascii c \<or> c = CHR ''_'' \<or> c = CHR ''-'')"

text \<open>
  \<open>re.compile(r"^[A-Za-z0-9_-]{1,64}$").match\<close>: without \<open>re.MULTILINE\<close>, \<open>$\<close> matches at the end
  and also just before one trailing newline.
\<close>

definition file_id_body :: "string \<Rightarrow> bool" where
  "file_id_body s = (s \<noteq> [] \<and> length s \<le> 64 \<and> list_all is_file_id_char s)"

definition FILE_ID_match :: "string \<Rightarrow> bool" where
  "FILE_ID_match s = (file_id_body s \<or>
     (s \<noteq> [] \<and> last s = char_of (10::nat) \<and> file_id_body (butlast s)))"

definition clean_text :: "json \<Rightarrow> string option" where
  "clean_text v = (case v of
     JStr s \<Rightarrow> (let t = take MAX_FIELD_CHARS (strip s) in if t = [] then None else Some t)
   | _ \<Rightarrow> None)"

text \<open>\<open>isinstance(value, bool)\<close> is excluded first: a JSON \<open>true\<close> is not the number 1 here.\<close>

definition clean_int :: "json \<Rightarrow> int \<Rightarrow> int option" where
  "clean_int v upper = (case v of
     JInt i \<Rightarrow> if 0 \<le> i \<and> i \<le> upper then Some i else None
   | _ \<Rightarrow> None)"

definition clean_end :: "int \<Rightarrow> int option \<Rightarrow> int option" where
  "clean_end start e = (case e of
     None \<Rightarrow> None
   | Some i \<Rightarrow> if start \<le> i then Some i else None)"

definition clean_fields :: "string \<Rightarrow> (string \<times> json) list \<Rightarrow> citation" where
  "clean_fields file_id kvs =
     \<lparr>c_file_id = file_id,
      c_source_name = (case clean_text (jget kvs ''source_name'') of None \<Rightarrow> [] | Some t \<Rightarrow> t),
      c_page = clean_int (jget kvs ''page_number'') 100000,
      c_section = clean_text (jget kvs ''section''),
      c_range =
        (case clean_int (jget kvs ''start_seconds'') MAX_SECONDS of
           None \<Rightarrow> None
         | Some s \<Rightarrow> Some (s, clean_end s (clean_int (jget kvs ''end_seconds'') MAX_SECONDS)))\<rparr>"

definition clean_one :: "json \<Rightarrow> citation option" where
  "clean_one raw = (case raw of
     JObj kvs \<Rightarrow>
       (case jget kvs ''file_id'' of
          JStr file_id \<Rightarrow> if FILE_ID_match file_id then Some (clean_fields file_id kvs) else None
        | _ \<Rightarrow> None)
   | _ \<Rightarrow> None)"

section \<open>The dict and its text\<close>

definition opt_int :: "int option \<Rightarrow> json" where
  "opt_int x = (case x of None \<Rightarrow> JNull | Some i \<Rightarrow> JInt i)"

definition opt_str :: "string option \<Rightarrow> json" where
  "opt_str x = (case x of None \<Rightarrow> JNull | Some s \<Rightarrow> JStr s)"

definition citation_json :: "citation \<Rightarrow> json" where
  "citation_json c = JObj
     ([(''file_id'', JStr (c_file_id c)),
       (''source_name'', JStr (c_source_name c)),
       (''page_number'', opt_int (c_page c)),
       (''section'', opt_str (c_section c))] @
      (case c_range c of
         None \<Rightarrow> []
       | Some (s, e) \<Rightarrow> [(''start_seconds'', JInt s), (''end_seconds'', opt_int e)]))"

definition dumps_citations :: "citation list \<Rightarrow> string" where
  "dumps_citations cs = dumps (JList (map citation_json cs))"

section \<open>The sanitizer\<close>

text \<open>
  The loop over the items: \<open>seen\<close> holds the serialized keys, \<open>acc\<close> the cleaned list in reverse. It
  stops as soon as \<open>MAX_CITATIONS\<close> entries are kept.
\<close>

fun clean_loop :: "json list \<Rightarrow> string list \<Rightarrow> citation list \<Rightarrow> citation list" where
  "clean_loop [] seen acc = rev acc"
| "clean_loop (item # items) seen acc =
     (case clean_one item of
        None \<Rightarrow> clean_loop items seen acc
      | Some c \<Rightarrow>
          (let key = dumps (citation_json c) in
           if key \<in> set seen then clean_loop items seen acc
           else if MAX_CITATIONS \<le> length acc + 1 then rev (c # acc)
           else clean_loop items (key # seen) (c # acc)))"

text \<open>\<open>while cleaned and len(dumps_citations(cleaned).encode("utf-8")) > MAX_JSON_BYTES: cleaned.pop()\<close>\<close>

function shrink :: "citation list \<Rightarrow> citation list" where
  "shrink cs = (if cs \<noteq> [] \<and> MAX_JSON_BYTES < utf8_len (dumps_citations cs)
                then shrink (butlast cs) else cs)"
  by pat_completeness auto
termination
  by (relation "measure length") auto

declare shrink.simps [simp del]

definition sanitize_citations :: "json \<Rightarrow> citation list" where
  "sanitize_citations raw = (case raw of
     JList items \<Rightarrow> shrink (clean_loop items [] [])
   | _ \<Rightarrow> [])"

text \<open>
  \<open>loads_citations\<close> on the stored column. The column holds the text of a JSON document
  (\<open>dumps_citations\<close>); the model keeps the document, so \<open>json.loads\<close> is reading it back.
\<close>

definition loads_citations :: "json option \<Rightarrow> citation list" where
  "loads_citations stored = (case stored of None \<Rightarrow> [] | Some j \<Rightarrow> sanitize_citations j)"

definition store_citations :: "citation list \<Rightarrow> json" where
  "store_citations cs = JList (map citation_json cs)"

section \<open>What a cleaned citation satisfies\<close>

definition bounded_text :: "string \<Rightarrow> bool" where
  "bounded_text t = (length t \<le> MAX_FIELD_CHARS)"

definition valid_citation :: "citation \<Rightarrow> bool" where
  "valid_citation c =
     (FILE_ID_match (c_file_id c) \<and> bounded_text (c_source_name c) \<and>
      (case c_section c of None \<Rightarrow> True | Some t \<Rightarrow> t \<noteq> [] \<and> bounded_text t) \<and>
      (case c_page c of None \<Rightarrow> True | Some p \<Rightarrow> 0 \<le> p \<and> p \<le> 100000) \<and>
      (case c_range c of None \<Rightarrow> True
       | Some (s, e) \<Rightarrow> 0 \<le> s \<and> s \<le> MAX_SECONDS \<and>
           (case e of None \<Rightarrow> True | Some i \<Rightarrow> s \<le> i \<and> i \<le> MAX_SECONDS)))"

lemma clean_text_bounded: "clean_text v = Some t \<Longrightarrow> t \<noteq> [] \<and> bounded_text t"
  by (auto simp: clean_text_def bounded_text_def Let_def split: json.splits if_splits)

lemma clean_int_range: "clean_int v u = Some i \<Longrightarrow> 0 \<le> i \<and> i \<le> u"
  by (auto simp: clean_int_def split: json.splits if_splits)

lemma clean_end_range: "clean_end st e = Some i \<Longrightarrow> e = Some i \<and> st \<le> i"
  by (auto simp: clean_end_def split: option.splits if_splits)

lemma clean_fields_valid: "FILE_ID_match f \<Longrightarrow> valid_citation (clean_fields f kvs)"
  by (auto simp: clean_fields_def valid_citation_def bounded_text_def split: option.splits
      dest!: clean_text_bounded clean_int_range clean_end_range)

lemma clean_one_SomeE:
  assumes "clean_one raw = Some c"
  obtains kvs f where "raw = JObj kvs" and "FILE_ID_match f" and "c = clean_fields f kvs"
  using assms by (cases raw) (auto simp: clean_one_def split: json.splits if_splits)

lemma clean_one_valid: "clean_one raw = Some c \<Longrightarrow> valid_citation c"
  by (auto elim: clean_one_SomeE clean_fields_valid)

definition citation_keys :: "citation list \<Rightarrow> string list" where
  "citation_keys cs = map (\<lambda>c. dumps (citation_json c)) cs"

definition loop_inv :: "string list \<Rightarrow> citation list \<Rightarrow> bool" where
  "loop_inv seen acc =
     (distinct (citation_keys acc) \<and> set (citation_keys acc) = set seen \<and>
      length acc < MAX_CITATIONS \<and> (\<forall>c \<in> set acc. valid_citation c))"

definition sanitized :: "citation list \<Rightarrow> bool" where
  "sanitized cs =
     (distinct (citation_keys cs) \<and> length cs \<le> MAX_CITATIONS \<and> (\<forall>c \<in> set cs. valid_citation c))"

lemma citation_keys_rev [simp]: "citation_keys (rev cs) = rev (citation_keys cs)"
  by (simp add: citation_keys_def rev_map)

lemma citation_keys_Cons [simp]:
  "citation_keys (c # cs) = dumps (citation_json c) # citation_keys cs" "citation_keys [] = []"
  by (simp_all add: citation_keys_def)

lemma loop_inv_sanitized: "loop_inv seen acc \<Longrightarrow> sanitized (rev acc)"
  by (simp add: loop_inv_def sanitized_def)

lemma loop_inv_full:
  "loop_inv seen acc \<Longrightarrow> valid_citation c \<Longrightarrow> dumps (citation_json c) \<notin> set seen \<Longrightarrow>
   sanitized (rev (c # acc))"
  unfolding loop_inv_def sanitized_def citation_keys_rev citation_keys_Cons by auto

lemma loop_inv_more:
  "loop_inv seen acc \<Longrightarrow> valid_citation c \<Longrightarrow> dumps (citation_json c) \<notin> set seen \<Longrightarrow>
   \<not> MAX_CITATIONS \<le> length acc + 1 \<Longrightarrow> loop_inv (dumps (citation_json c) # seen) (c # acc)"
  by (auto simp: loop_inv_def)

lemma clean_loop_sanitized: "loop_inv seen acc \<Longrightarrow> sanitized (clean_loop items seen acc)"
proof (induction items arbitrary: seen acc)
  case Nil
  then show ?case by (simp add: loop_inv_sanitized)
next
  case (Cons item items)
  show ?case
  proof (cases "clean_one item")
    case None
    then show ?thesis using Cons by simp
  next
    case (Some c)
    then have "valid_citation c" by (rule clean_one_valid)
    with Some Cons show ?thesis
      by (simp add: Let_def loop_inv_full [simplified] loop_inv_more)
  qed
qed

lemma shrink_prefix: "\<exists>n. shrink cs = take n cs"
proof (induction cs rule: shrink.induct)
  case (1 cs)
  show ?case
  proof (cases "cs \<noteq> [] \<and> MAX_JSON_BYTES < utf8_len (dumps_citations cs)")
    case True
    then obtain n where "shrink (butlast cs) = take n (butlast cs)" using 1 by blast
    then have "shrink cs = take (min n (length cs - 1)) cs"
      using True by (subst shrink.simps) (simp add: butlast_conv_take min.commute)
    then show ?thesis by blast
  next
    case False
    then have "shrink cs = take (length cs) cs" by (subst shrink.simps) auto
    then show ?thesis by blast
  qed
qed

lemma shrink_bytes: "shrink cs = [] \<or> utf8_len (dumps_citations (shrink cs)) \<le> MAX_JSON_BYTES"
proof (induction cs rule: shrink.induct)
  case (1 cs)
  then show ?case
    by (cases "cs \<noteq> [] \<and> MAX_JSON_BYTES < utf8_len (dumps_citations cs)")
       (auto simp: shrink.simps [of cs])
qed

lemma shrink_id: "utf8_len (dumps_citations cs) \<le> MAX_JSON_BYTES \<Longrightarrow> shrink cs = cs"
  by (subst shrink.simps) simp

lemma sanitized_take: "sanitized cs \<Longrightarrow> sanitized (take n cs)"
  by (auto simp: sanitized_def citation_keys_def simp flip: take_map dest: set_takeD)

lemma sanitize_sanitized: "sanitized (sanitize_citations raw)"
proof (cases raw)
  case (JList items)
  obtain n where n: "shrink (clean_loop items [] []) = take n (clean_loop items [] [])"
    using shrink_prefix by blast
  have "loop_inv [] []" by (simp add: loop_inv_def MAX_CITATIONS_def)
  then have "sanitized (clean_loop items [] [])" by (rule clean_loop_sanitized)
  then show ?thesis
    unfolding JList sanitize_citations_def json.case n by (rule sanitized_take)
qed (simp_all add: sanitize_citations_def sanitized_def)

text \<open>The kept citations are cleaned items of the event, in the event's order.\<close>

lemma clean_loop_subseq:
  "\<exists>ys. clean_loop items seen acc = rev acc @ ys \<and> subseq ys (List.map_filter clean_one items)"
proof (induction items arbitrary: seen acc)
  case Nil
  then show ?case by (simp add: List.map_filter_def)
next
  case (Cons item items)
  show ?case
  proof (cases "clean_one item")
    case None
    then show ?thesis using Cons.IH [of seen acc] by (simp add: List.map_filter_simps)
  next
    case (Some c)
    let ?k = "dumps (citation_json c)" and ?rest = "List.map_filter clean_one items"
    have mf: "List.map_filter clean_one (item # items) = c # ?rest"
      using Some by (simp add: List.map_filter_simps)
    have "\<exists>ys. clean_loop items seen acc = rev acc @ ys \<and> subseq ys (c # ?rest)"
      using Cons.IH [of seen acc] by (blast intro: list_emb_Cons)
    moreover have "\<exists>ys. clean_loop items (?k # seen) (c # acc) = rev acc @ ys \<and> subseq ys (c # ?rest)"
      using Cons.IH [of "?k # seen" "c # acc"] by force
    moreover have "\<exists>ys. rev (c # acc) = rev acc @ ys \<and> subseq ys (c # ?rest)"
      by force
    ultimately show ?thesis
      unfolding mf clean_loop.simps Some option.case Let_def by presburger
  qed
qed

lemma sanitize_subseq:
  "subseq (sanitize_citations (JList items)) (List.map_filter clean_one items)"
proof -
  obtain ys where "clean_loop items [] [] = ys" "subseq ys (List.map_filter clean_one items)"
    using clean_loop_subseq [of items "[]" "[]"] by auto
  moreover obtain n where "shrink (clean_loop items [] []) = take n (clean_loop items [] [])"
    using shrink_prefix by blast
  ultimately show ?thesis
    unfolding sanitize_citations_def json.case by (metis prefix_imp_subseq subseq_order.trans take_is_prefix)
qed

section \<open>Storing and reading back\<close>

text \<open>
  A text field is tidy when stripping it again changes nothing: always, unless the cut to
  \<open>MAX_FIELD_CHARS\<close> characters left white space at its end.
\<close>

definition tidy :: "citation \<Rightarrow> bool" where
  "tidy c = (strip (c_source_name c) = c_source_name c \<and>
     (case c_section c of None \<Rightarrow> True | Some t \<Rightarrow> strip t = t))"

lemma clean_text_tidy: "strip t = t \<Longrightarrow> t \<noteq> [] \<Longrightarrow> bounded_text t \<Longrightarrow> clean_text (JStr t) = Some t"
  by (simp add: clean_text_def bounded_text_def)

lemma clean_text_short:
  "clean_text (JStr s) = Some t \<Longrightarrow> length (strip s) \<le> MAX_FIELD_CHARS \<Longrightarrow> strip t = t"
  by (auto simp: clean_text_def Let_def split: if_splits)

lemma jget_citation_json:
  assumes "citation_json c = JObj kvs"
  shows "jget kvs ''file_id'' = JStr (c_file_id c)"
    and "jget kvs ''source_name'' = JStr (c_source_name c)"
    and "jget kvs ''page_number'' = opt_int (c_page c)"
    and "jget kvs ''section'' = opt_str (c_section c)"
    and "jget kvs ''start_seconds'' = (case c_range c of None \<Rightarrow> JNull | Some (s, e) \<Rightarrow> JInt s)"
    and "jget kvs ''end_seconds'' = (case c_range c of None \<Rightarrow> JNull | Some (s, e) \<Rightarrow> opt_int e)"
  using assms by (auto simp: citation_json_def jget_or_def split: option.splits)

lemma clean_int_opt: "(case x of None \<Rightarrow> True | Some p \<Rightarrow> 0 \<le> p \<and> p \<le> u) \<Longrightarrow> clean_int (opt_int x) u = x"
  by (auto simp: clean_int_def opt_int_def split: option.splits)

lemma clean_one_json:
  assumes "valid_citation c" and "tidy c"
  shows "clean_one (citation_json c) = Some c"
proof -
  obtain kvs where kvs: "citation_json c = JObj kvs" by (simp add: citation_json_def)
  note get = jget_citation_json [OF kvs]
  have name: "(case clean_text (JStr (c_source_name c)) of None \<Rightarrow> [] | Some t \<Rightarrow> t) = c_source_name c"
    using assms clean_text_tidy [of "c_source_name c"]
    by (cases "c_source_name c = []") (auto simp: valid_citation_def tidy_def clean_text_def)
  have sec: "clean_text (opt_str (c_section c)) = c_section c"
    using assms clean_text_tidy
    by (cases "c_section c") (auto simp: valid_citation_def tidy_def opt_str_def clean_text_def)
  have page: "clean_int (opt_int (c_page c)) 100000 = c_page c"
    by (rule clean_int_opt) (use assms in \<open>auto simp: valid_citation_def\<close>)
  have range: "(case clean_int (jget kvs ''start_seconds'') MAX_SECONDS of None \<Rightarrow> None
      | Some s \<Rightarrow> Some (s, clean_end s (clean_int (jget kvs ''end_seconds'') MAX_SECONDS))) = c_range c"
    using assms unfolding get
    by (auto simp: valid_citation_def clean_int_def opt_int_def clean_end_def split: option.splits)
  have "clean_fields (c_file_id c) kvs = c"
    unfolding clean_fields_def range unfolding get name sec page by simp
  then show ?thesis
    using assms kvs get(1) by (simp add: clean_one_def valid_citation_def)
qed

lemma clean_loop_json:
  assumes "distinct (citation_keys cs)" and "\<forall>c \<in> set cs. valid_citation c \<and> tidy c"
    and "set (citation_keys cs) \<inter> set seen = {}" and "length acc + length cs \<le> MAX_CITATIONS"
  shows "clean_loop (map citation_json cs) seen acc = rev acc @ cs"
  using assms
proof (induction cs arbitrary: seen acc)
  case (Cons c cs)
  have one: "clean_one (citation_json c) = Some c" using Cons.prems by (simp add: clean_one_json)
  have fresh: "dumps (citation_json c) \<notin> set seen" using Cons.prems by auto
  show ?case
  proof (cases "MAX_CITATIONS \<le> length acc + 1")
    case True
    then have "cs = []" using Cons.prems(4) by (cases cs) auto
    then show ?thesis using one fresh True by (simp add: Let_def)
  next
    case False
    then have "clean_loop (map citation_json (c # cs)) seen acc
      = clean_loop (map citation_json cs) (dumps (citation_json c) # seen) (c # acc)"
      using one fresh by (simp add: Let_def)
    then show ?thesis using Cons by auto
  qed
qed simp

lemma sanitize_store:
  assumes "\<forall>c \<in> set (sanitize_citations raw). tidy c"
  shows "loads_citations (Some (store_citations (sanitize_citations raw))) = sanitize_citations raw"
proof -
  let ?cs = "sanitize_citations raw"
  have loop: "clean_loop (map citation_json ?cs) [] [] = ?cs"
    using sanitize_sanitized [of raw] assms clean_loop_json [of ?cs "[]" "[]"]
    by (simp add: sanitized_def)
  have "shrink ?cs = ?cs"
  proof (cases raw)
    case (JList items)
    then show ?thesis
      using shrink_bytes [of "clean_loop items [] []"] shrink_id
      by (auto simp: sanitize_citations_def shrink.simps [of "[]"])
  qed (simp_all add: sanitize_citations_def shrink.simps [of "[]"])
  then show ?thesis
    by (simp add: loads_citations_def store_citations_def sanitize_citations_def [of "JList _"] loop)
qed

end
