(* ===== verification/Store.thy ===== *)
theory Store
  imports Uuids Citations
begin

text \<open>
  The state the service works on, and the calls that reach it.

  \<open>world\<close> holds the tables of \<open>app/db/schema.cql\<close> (one function from partition key to the rows of the
  partition, in clustering order), the Redis keys the service uses (one function per key family, each
  entry with its optional expiry time), the Kafka topics and the Pub/Sub channel as logs, the
  clock, and the schedule of faults.

  A call to Cassandra, Redis or Kafka may go wrong: \<open>ext\<close> takes the next element of the schedule.
  \<open>Okay\<close> is a normal call, \<open>Refused\<close> raises without effect, \<open>Lost\<close> has its effect and raises all
  the same (a time-out after the write). The empty schedule means no more faults. Every
  theorem about a handler therefore covers every pattern of failures of the calls it makes.

  Times are microseconds since the epoch; the clock does not move while a handler runs.
\<close>

section \<open>Domain entities\<close>

datatype message_status = PENDING | SENT | FAILED

record message =
  m_conv :: uuid
  m_id :: uuid
  m_sender :: "string option"
  m_content :: "string option"
  m_created :: "int option"
  m_status :: message_status
  m_files :: "uuid list"
  m_cites :: "citation list"
  m_response :: "uuid option"

datatype conv_status = ACTIVE | ARCHIVED | DELETED

record conversation =
  cv_id :: uuid
  cv_user :: uuid
  cv_title :: string
  cv_created :: int
  cv_updated :: int
  cv_status :: conv_status
  cv_parent :: "uuid option"
  cv_branch :: "uuid option"

fun status_value :: "message_status \<Rightarrow> string" where
  "status_value PENDING = ''pending''"
| "status_value SENT = ''sent''"
| "status_value FAILED = ''failed''"

text \<open>\<open>MessageStatus(s)\<close>; \<open>None\<close> is \<open>ValueError\<close>.\<close>

definition status_of :: "string option \<Rightarrow> message_status option" where
  "status_of s = (if s = Some ''pending'' then Some PENDING
     else if s = Some ''sent'' then Some SENT
     else if s = Some ''failed'' then Some FAILED else None)"

fun conv_status_value :: "conv_status \<Rightarrow> string" where
  "conv_status_value ACTIVE = ''active''"
| "conv_status_value ARCHIVED = ''archived''"
| "conv_status_value DELETED = ''deleted''"

definition conv_status_of :: "string \<Rightarrow> conv_status option" where
  "conv_status_of s = (if s = ''active'' then Some ACTIVE
     else if s = ''archived'' then Some ARCHIVED
     else if s = ''deleted'' then Some DELETED else None)"

lemma status_of_value [simp]: "status_of (Some (status_value s)) = Some s"
  by (cases s) (simp_all add: status_of_def)

lemma conv_status_of_value [simp]: "conv_status_of (conv_status_value s) = Some s"
  by (cases s) (simp_all add: conv_status_of_def)

section \<open>Table rows\<close>

text \<open>A null column is \<open>None\<close>. A CQL \<open>UPDATE\<close> of a missing row creates it with the other columns null.\<close>

record msg_row =
  mr_id :: uuid
  mr_sender :: "string option"
  mr_content :: "string option"
  mr_created :: "int option"
  mr_status :: "string option"
  mr_files :: "uuid list"
  mr_cites :: "json option"

record conv_row =
  cr_user :: uuid
  cr_title :: string
  cr_created :: int
  cr_updated :: int
  cr_status :: string
  cr_parent :: "uuid option"
  cr_branch :: "uuid option"

record cat_row =
  ct_updated :: int
  ct_conv :: uuid
  ct_title :: string
  ct_created :: int
  ct_status :: string
  ct_parent :: "uuid option"

record outbox_row =
  ob_id :: uuid
  ob_type :: string
  ob_payload :: json
  ob_published :: bool
  ob_created :: int

section \<open>Clustered partitions\<close>

text \<open>
  A partition is the list of its rows in clustering order; \<open>lt\<close> is that order on clustering keys.
  \<open>upsert\<close> is an \<open>INSERT\<close>/\<open>UPDATE\<close> of the columns \<open>f\<close> sets.
\<close>

fun upsert :: "('k \<Rightarrow> 'k \<Rightarrow> bool) \<Rightarrow> ('r \<Rightarrow> 'k) \<Rightarrow> 'r \<Rightarrow> ('r \<Rightarrow> 'r) \<Rightarrow> 'r list \<Rightarrow> 'r list" where
  "upsert lt key blank f [] = [f blank]"
| "upsert lt key blank f (r # rs) =
     (if key r = key blank then f r # rs
      else if lt (key blank) (key r) then f blank # r # rs
      else r # upsert lt key blank f rs)"

definition row_of :: "('r \<Rightarrow> 'k) \<Rightarrow> 'k \<Rightarrow> 'r list \<Rightarrow> 'r option" where
  "row_of key k rs = find (\<lambda>r. key r = k) rs"

definition drop_row :: "('r \<Rightarrow> 'k) \<Rightarrow> 'k \<Rightarrow> 'r list \<Rightarrow> 'r list" where
  "drop_row key k rs = filter (\<lambda>r. key r \<noteq> k) rs"

definition clustered :: "('k \<Rightarrow> 'k \<Rightarrow> bool) \<Rightarrow> ('r \<Rightarrow> 'k) \<Rightarrow> 'r list \<Rightarrow> bool" where
  "clustered lt key rs = sorted_wrt lt (map key rs)"

lemma row_of_Nil [simp]: "row_of key k [] = None"
  by (simp add: row_of_def)

lemma row_of_Cons [simp]: "row_of key k (r # rs) = (if key r = k then Some r else row_of key k rs)"
  by (simp add: row_of_def)

lemma row_of_key: "row_of key k rs = Some r \<Longrightarrow> key r = k \<and> r \<in> set rs"
  by (induction rs) (auto split: if_splits)

lemma row_of_None: "row_of key k rs = None \<longleftrightarrow> (\<forall>r \<in> set rs. key r \<noteq> k)"
  by (induction rs) auto

text \<open>Updating one row leaves every other row as it is.\<close>

lemma row_of_upsert_other:
  assumes "\<And>r. key r = key blank \<Longrightarrow> key (f r) = key r" and "k \<noteq> key blank"
  shows "row_of key k (upsert lt key blank f rs) = row_of key k rs"
  using assms by (induction rs) auto

lemma row_of_drop [simp]:
  "row_of key k (drop_row key k' rs) = (if k = k' then None else row_of key k rs)"
  by (induction rs) (auto simp: drop_row_def)

lemma clustered_drop [simp]: "clustered lt key rs \<Longrightarrow> clustered lt key (drop_row key k rs)"
proof (induction rs)
  case (Cons r rs)
  then show ?case by (auto simp: drop_row_def clustered_def)
qed (simp add: drop_row_def)

text \<open>A clustering order is a strict total order; in it, a partition never holds a key twice.\<close>

locale clustering =
  fixes lt :: "'k \<Rightarrow> 'k \<Rightarrow> bool" and key :: "'r \<Rightarrow> 'k"
  assumes irrefl: "\<not> lt k k"
    and trans: "lt a b \<Longrightarrow> lt b c \<Longrightarrow> lt a c"
    and total: "a \<noteq> b \<Longrightarrow> lt a b \<or> lt b a"
begin

lemma clustered_distinct: "clustered lt key rs \<Longrightarrow> distinct (map key rs)"
  by (induction rs) (auto simp: clustered_def irrefl)

lemma keys_upsert:
  assumes "\<And>r. key r = key blank \<Longrightarrow> key (f r) = key r"
  shows "key ` set (upsert lt key blank f rs) = insert (key blank) (key ` set rs)"
  using assms by (induction rs) auto

lemma clustered_upsert:
  assumes "\<And>r. key r = key blank \<Longrightarrow> key (f r) = key r" and "clustered lt key rs"
  shows "clustered lt key (upsert lt key blank f rs)"
  using assms(2)
proof (induction rs)
  case (Cons r rs)
  consider (same) "key r = key blank" | (before) "key r \<noteq> key blank" "lt (key blank) (key r)"
    | (later) "key r \<noteq> key blank" "lt (key r) (key blank)" using total by blast
  then show ?case
  proof cases
    case same
    then show ?thesis using Cons.prems assms(1) by (simp add: clustered_def)
  next
    case before
    then show ?thesis using Cons.prems assms(1) trans by (auto simp: clustered_def)
  next
    case later
    then have "\<not> lt (key blank) (key r)" using trans irrefl by blast
    moreover have "clustered lt key (upsert lt key blank f rs)"
      using Cons by (simp add: clustered_def)
    moreover have "key ` set (upsert lt key blank f rs) = insert (key blank) (key ` set rs)"
      by (rule keys_upsert) (rule assms(1))
    then have "\<forall>k \<in> key ` set (upsert lt key blank f rs). lt (key r) k"
      using Cons.prems later(2) by (simp add: clustered_def)
    ultimately show ?thesis using later(1) by (simp add: clustered_def)
  qed
qed (simp add: clustered_def)

lemma set_upsert_row:
  assumes "clustered lt key rs"
  shows "set (upsert lt key r (\<lambda>_. r) rs) = insert r {x \<in> set rs. key x \<noteq> key r}"
  using assms
proof (induction rs)
  case (Cons x rs)
  have after: "\<forall>y \<in> set rs. lt (key x) (key y)" and rest: "clustered lt key rs"
    using Cons.prems by (auto simp: clustered_def)
  consider (same) "key x = key r" | (before) "key x \<noteq> key r" "lt (key r) (key x)"
    | (later) "key x \<noteq> key r" "\<not> lt (key r) (key x)" by blast
  then show ?case
  proof cases
    case same
    then have "\<forall>y \<in> set rs. key y \<noteq> key r" using after irrefl by metis
    then show ?thesis using same by auto
  next
    case before
    then have "\<forall>y \<in> set rs. key y \<noteq> key r" using after irrefl trans by metis
    then show ?thesis using before by auto
  next
    case later
    then show ?thesis using Cons.IH [OF rest] by auto
  qed
qed simp

text \<open>An update of a row that is there changes that row in place.\<close>

lemma upsert_existing:
  assumes "clustered lt key rs" and "key blank \<in> key ` set rs"
  shows "upsert lt key blank f rs = map (\<lambda>r. if key r = key blank then f r else r) rs"
  using assms
proof (induction rs)
  case (Cons r rs)
  have order: "\<forall>r' \<in> set rs. lt (key r) (key r')" and rest: "clustered lt key rs"
    using Cons.prems(1) by (auto simp: clustered_def)
  show ?case
  proof (cases "key r = key blank")
    case True
    then have "\<forall>r' \<in> set rs. key r' \<noteq> key blank" using order irrefl by metis
    then have "map (\<lambda>r. if key r = key blank then f r else r) rs = rs" by (intro map_idI) auto
    then show ?thesis using True by simp
  next
    case False
    then have mem: "key blank \<in> key ` set rs" using Cons.prems(2) by auto
    then have "lt (key r) (key blank)" using order by auto
    then have "\<not> lt (key blank) (key r)" using trans irrefl by blast
    then show ?thesis using False Cons.IH [OF rest mem] by simp
  qed
qed simp

text \<open>Read after write.\<close>

lemma row_of_upsert_same:
  assumes "\<And>r. key r = key blank \<Longrightarrow> key (f r) = key r" and "clustered lt key rs"
  shows "row_of key (key blank) (upsert lt key blank f rs)
    = Some (f (case row_of key (key blank) rs of None \<Rightarrow> blank | Some r \<Rightarrow> r))"
  using assms(2)
proof (induction rs)
  case (Cons r rs)
  show ?case
  proof (cases "key r = key blank")
    case True
    then show ?thesis using assms(1) by simp
  next
    case False
    show ?thesis
    proof (cases "lt (key blank) (key r)")
      case True
      then have "\<forall>r' \<in> set rs. key r' \<noteq> key blank"
        using Cons.prems trans irrefl by (fastforce simp: clustered_def)
      then have "row_of key (key blank) rs = None" by (simp add: row_of_None)
      then show ?thesis using True False assms(1) by simp
    next
      case F: False
      have "clustered lt key rs" using Cons.prems by (simp add: clustered_def)
      then show ?thesis using F False Cons.IH by simp
    qed
  qed
qed (use assms(1) in simp)

end

text \<open>The clustering orders of the three clustered tables of \<open>schema.cql\<close>.\<close>

definition msg_lt :: "uuid \<Rightarrow> uuid \<Rightarrow> bool" where
  "msg_lt a b = (ckey b < ckey a)"

definition outbox_lt :: "uuid \<Rightarrow> uuid \<Rightarrow> bool" where
  "outbox_lt a b = (tkey a < tkey b)"

fun cat_lt :: "int \<times> uuid \<Rightarrow> int \<times> uuid \<Rightarrow> bool" where
  "cat_lt (t, c) (u, d) = (u < t \<or> (u = t \<and> ckey c < ckey d))"

definition cat_key :: "cat_row \<Rightarrow> int \<times> uuid" where
  "cat_key r = (ct_updated r, ct_conv r)"

lemma ckey_total: "u \<noteq> v \<Longrightarrow> ckey u < ckey v \<or> ckey v < ckey u"
  by (metis ckey_inj neq_iff)

lemma tkey_total: "u \<noteq> v \<Longrightarrow> tkey u < tkey v \<or> tkey v < tkey u"
  by (metis tkey_inj neq_iff)

interpretation msg_order: clustering msg_lt mr_id
  by unfold_locales (auto simp: msg_lt_def dest: ckey_total)

interpretation outbox_order: clustering outbox_lt ob_id
  by unfold_locales (auto simp: outbox_lt_def dest: tkey_total)

interpretation cat_order: clustering cat_lt cat_key
proof
  show "cat_lt a b \<or> cat_lt b a" if "a \<noteq> b" for a b
    using that ckey_total by (cases a; cases b) fastforce
qed auto

section \<open>The world\<close>

datatype fault = Okay | Refused | Lost

type_synonym stream_id = "nat \<times> nat"
type_synonym 'a entry = "'a \<times> int option"

text \<open>
  Keys of the inbox table: a UUID carried by an envelope event, or the \<open>uuid5\<close> derived from strings.
  The derivation is modelled as a free constructor (two different derivations are different keys).
\<close>

datatype inbox_key = EventId uuid | Derived "string list"

record world =
  w_now :: int
  w_sched :: "fault list"
  w_redis_on :: bool
  w_conv :: "uuid \<Rightarrow> conv_row option"
  w_catalog :: "uuid \<Rightarrow> cat_row list"
  w_msgs :: "uuid \<Rightarrow> msg_row list"
  w_outbox :: "nat \<Rightarrow> outbox_row list"
  w_inbox :: "inbox_key \<Rightarrow> int option"
  w_rconv :: "uuid \<Rightarrow> conversation entry option"
  w_rmsgs :: "uuid \<Rightarrow> message list entry option"
  w_pending :: "uuid \<Rightarrow> uuid entry option"
  w_zset :: "(uuid \<times> int) list"
  w_locks :: "string \<times> nat \<Rightarrow> string entry option"
  w_idem :: "string \<Rightarrow> json entry option"
  w_owner :: "uuid \<Rightarrow> string entry option"
  w_log :: "uuid \<Rightarrow> (stream_id \<times> json) list entry option"
  w_pub :: "(uuid \<times> json) list"
  w_kafka :: "(string \<times> string \<times> json) list"

text \<open>No rows, no keys, no failures to come; the clock shows \<open>t\<close> and Redis is configured.\<close>

definition empty_world :: "int \<Rightarrow> world" where
  "empty_world t = \<lparr>w_now = t, w_sched = [], w_redis_on = True, w_conv = (\<lambda>_. None),
     w_catalog = (\<lambda>_. []), w_msgs = (\<lambda>_. []), w_outbox = (\<lambda>_. []), w_inbox = (\<lambda>_. None),
     w_rconv = (\<lambda>_. None), w_rmsgs = (\<lambda>_. None), w_pending = (\<lambda>_. None), w_zset = [],
     w_locks = (\<lambda>_. None), w_idem = (\<lambda>_. None), w_owner = (\<lambda>_. None), w_log = (\<lambda>_. None),
     w_pub = [], w_kafka = []\<rparr>"

definition sec :: "int \<Rightarrow> int" where
  "sec n = n * 1000000"

text \<open>A CQL \<open>timestamp\<close> keeps milliseconds: the value a \<open>datetime\<close> has once stored.\<close>

definition db_time :: "int \<Rightarrow> int" where
  "db_time t = t div 1000 * 1000"

definition live :: "int \<Rightarrow> 'a entry option \<Rightarrow> 'a option" where
  "live now e = (case e of
     None \<Rightarrow> None
   | Some (v, None) \<Rightarrow> Some v
   | Some (v, Some t) \<Rightarrow> if now < t then Some v else None)"

text \<open>The expiry of a key that is still there (\<open>HSET\<close> and \<open>XADD\<close> keep it).\<close>

definition live_ttl :: "int \<Rightarrow> 'a entry option \<Rightarrow> int option" where
  "live_ttl now e = (case e of
     None \<Rightarrow> None
   | Some (v, None) \<Rightarrow> None
   | Some (v, Some t) \<Rightarrow> if now < t then Some t else None)"

text \<open>\<open>EXPIRE key ttl\<close>: sets the expiry of a key that exists.\<close>

definition expire_at :: "int \<Rightarrow> int \<Rightarrow> 'a entry option \<Rightarrow> 'a entry option" where
  "expire_at now t e = (case live now e of None \<Rightarrow> None | Some v \<Rightarrow> Some (v, Some t))"

lemma live_simps [simp]:
  "live now None = None" "live now (Some (v, None)) = Some v"
  "live now (Some (v, Some t)) = (if now < t then Some v else None)"
  by (simp_all add: live_def)

lemma live_expire_at [simp]:
  "live now (expire_at now t e) = (if now < t then live now e else None)"
  by (auto simp: expire_at_def split: option.splits)

section \<open>Calls that may fail\<close>

definition next_fault :: "world \<Rightarrow> fault" where
  "next_fault w = (case w_sched w of [] \<Rightarrow> Okay | b # _ \<Rightarrow> b)"

definition pop :: "world \<Rightarrow> world" where
  "pop w = w\<lparr>w_sched := tl (w_sched w)\<rparr>"

definition ext :: "exn \<Rightarrow> (world \<Rightarrow> 'a) \<Rightarrow> (world \<Rightarrow> world) \<Rightarrow> (world, 'a) prog" where
  "ext x v f = (\<lambda>w. case next_fault w of
     Okay \<Rightarrow> (Inr (v (pop w)), f (pop w))
   | Refused \<Rightarrow> (Inl x, pop w)
   | Lost \<Rightarrow> (Inl x, f (pop w)))"

text \<open>A query and a command of the database or of Redis.\<close>

abbreviation db_query :: "(world \<Rightarrow> 'a) \<Rightarrow> (world, 'a) prog" where
  "db_query v \<equiv> ext DbError v (\<lambda>w. w)"

abbreviation db_exec :: "(world \<Rightarrow> world) \<Rightarrow> (world, unit) prog" where
  "db_exec f \<equiv> ext DbError (\<lambda>_. ()) f"

abbreviation redis_query :: "(world \<Rightarrow> 'a) \<Rightarrow> (world, 'a) prog" where
  "redis_query v \<equiv> ext RedisError v (\<lambda>w. w)"

abbreviation redis_exec :: "(world \<Rightarrow> world) \<Rightarrow> (world, unit) prog" where
  "redis_exec f \<equiv> ext RedisError (\<lambda>_. ()) f"

lemma wp_ext [wp_simps]:
  "wp (ext x v f) Q E w = (case next_fault w of
     Okay \<Rightarrow> Q (v (pop w)) (f (pop w))
   | Refused \<Rightarrow> E x (pop w)
   | Lost \<Rightarrow> E x (f (pop w)))"
  by (simp add: wp_def ext_def split: fault.splits)

lemma pop_simps [simp]:
  "w_now (pop w) = w_now w" "w_redis_on (pop w) = w_redis_on w" "w_conv (pop w) = w_conv w"
  "w_catalog (pop w) = w_catalog w" "w_msgs (pop w) = w_msgs w" "w_outbox (pop w) = w_outbox w"
  "w_inbox (pop w) = w_inbox w" "w_rconv (pop w) = w_rconv w" "w_rmsgs (pop w) = w_rmsgs w"
  "w_pending (pop w) = w_pending w" "w_zset (pop w) = w_zset w" "w_locks (pop w) = w_locks w"
  "w_idem (pop w) = w_idem w" "w_owner (pop w) = w_owner w" "w_log (pop w) = w_log w"
  "w_pub (pop w) = w_pub w" "w_kafka (pop w) = w_kafka w" "w_sched (pop w) = tl (w_sched w)"
  by (simp_all add: pop_def)

text \<open>With the empty schedule every call succeeds.\<close>

definition calm :: "world \<Rightarrow> bool" where
  "calm w = (w_sched w = [])"

lemma calm_pop [simp]: "calm w \<Longrightarrow> pop w = w"
  by (simp add: calm_def pop_def)

lemma calm_upd [simp]:
  "calm (w\<lparr>w_now := a\<rparr>) = calm w"
  "calm (w\<lparr>w_redis_on := b\<rparr>) = calm w"
  "calm (w\<lparr>w_conv := c\<rparr>) = calm w"
  "calm (w\<lparr>w_catalog := d\<rparr>) = calm w"
  "calm (w\<lparr>w_msgs := e\<rparr>) = calm w"
  "calm (w\<lparr>w_outbox := f\<rparr>) = calm w"
  "calm (w\<lparr>w_inbox := g\<rparr>) = calm w"
  "calm (w\<lparr>w_rconv := h\<rparr>) = calm w"
  "calm (w\<lparr>w_rmsgs := i\<rparr>) = calm w"
  "calm (w\<lparr>w_pending := j\<rparr>) = calm w"
  "calm (w\<lparr>w_zset := k\<rparr>) = calm w"
  "calm (w\<lparr>w_locks := l\<rparr>) = calm w"
  "calm (w\<lparr>w_idem := m\<rparr>) = calm w"
  "calm (w\<lparr>w_owner := n\<rparr>) = calm w"
  "calm (w\<lparr>w_log := p\<rparr>) = calm w"
  "calm (w\<lparr>w_pub := q\<rparr>) = calm w"
  "calm (w\<lparr>w_kafka := r\<rparr>) = calm w"
  by (simp_all add: calm_def)

lemma calm_next [simp]: "calm w \<Longrightarrow> next_fault w = Okay"
  by (simp add: calm_def next_fault_def)

lemma wp_ext_calm: "calm w \<Longrightarrow> wp (ext x v f) Q E w = Q (v w) (f w)"
  by (simp add: wp_ext)

text \<open>What every call keeps: a call keeps an invariant its effect keeps and the schedule does not touch.\<close>

lemma wp_ext_inv:
  assumes "\<And>w. I w \<Longrightarrow> I (pop w)" and "\<And>w. I w \<Longrightarrow> I (f w)" and "I w"
  shows "wp (ext x v f) (\<lambda>_. I) (\<lambda>_. I) w"
  using assms by (simp add: wp_ext split: fault.split)

end
