(* ===== verification/Event_Repos.thy ===== *)
theory Event_Repos
  imports Store
begin

text \<open>
  \<open>app/repositories/outbox_repository.py\<close> and \<open>inbox_repository.py\<close>: the transactional outbox, 32
  partitions whose rows are ordered by their time-based event id, and the inbox of processed events,
  whose rows the table drops after seven days.
\<close>

definition put_outbox :: "nat \<Rightarrow> outbox_row \<Rightarrow> world \<Rightarrow> world" where
  "put_outbox b r w =
     w\<lparr>w_outbox := (w_outbox w)(b := upsert outbox_lt ob_id r (\<lambda>_. r) (w_outbox w b))\<rparr>"

definition bucket_of :: "uuid \<Rightarrow> nat" where
  "bucket_of cid = unat cid mod 32"

definition blank_outbox :: "uuid \<Rightarrow> outbox_row" where
  "blank_outbox i = \<lparr>ob_id = i, ob_type = [], ob_payload = JNull, ob_published = False, ob_created = 0\<rparr>"

definition outbox_save :: "nat \<Rightarrow> uuid \<Rightarrow> string \<Rightarrow> json \<Rightarrow> (world, outbox_row) prog" where
  "outbox_save bucket event_id event_type payload =
     bnd (getting w_now) (\<lambda>now.
     let r = \<lparr>ob_id = event_id, ob_type = event_type, ob_payload = payload, ob_published = False,
              ob_created = now\<rparr> in
     bnd (db_exec (put_outbox bucket (r\<lparr>ob_created := db_time now\<rparr>))) (\<lambda>_. ret r))"

definition outbox_fetch_unpublished :: "nat \<Rightarrow> nat \<Rightarrow> (world, outbox_row list) prog" where
  "outbox_fetch_unpublished bucket limit =
     db_query (\<lambda>w. take limit (filter (\<lambda>r. \<not> ob_published r) (w_outbox w bucket)))"

definition mark_row :: "nat \<Rightarrow> uuid \<Rightarrow> world \<Rightarrow> world" where
  "mark_row bucket event_id w =
     w\<lparr>w_outbox := (w_outbox w)(bucket :=
        upsert outbox_lt ob_id (blank_outbox event_id) (\<lambda>r. r\<lparr>ob_published := True\<rparr>)
          (w_outbox w bucket))\<rparr>"

definition outbox_mark_published :: "nat \<Rightarrow> uuid \<Rightarrow> (world, bool) prog" where
  "outbox_mark_published bucket event_id =
     bnd (db_exec (mark_row bucket event_id)) (\<lambda>_. ret True)"

text \<open>\<open>default_time_to_live = 604800\<close> of \<open>inbox_events\<close>.\<close>

definition inbox_save :: "inbox_key \<Rightarrow> (world, unit) prog" where
  "inbox_save k =
     db_exec (\<lambda>w. w\<lparr>w_inbox := (w_inbox w)(k := Some (w_now w + sec 604800))\<rparr>)"

definition inbox_has :: "world \<Rightarrow> inbox_key \<Rightarrow> bool" where
  "inbox_has w k = (case w_inbox w k of None \<Rightarrow> False | Some t \<Rightarrow> w_now w < t)"

definition inbox_exists :: "inbox_key \<Rightarrow> (world, bool) prog" where
  "inbox_exists k = db_query (\<lambda>w. inbox_has w k)"

section \<open>Effects\<close>

lemma put_outbox_simps [simp]:
  "w_outbox (put_outbox b r w) = (w_outbox w)(b := upsert outbox_lt ob_id r (\<lambda>_. r) (w_outbox w b))"
  "w_now (put_outbox b r w) = w_now w" "w_sched (put_outbox b r w) = w_sched w"
  "w_redis_on (put_outbox b r w) = w_redis_on w" "w_conv (put_outbox b r w) = w_conv w"
  "w_catalog (put_outbox b r w) = w_catalog w" "w_msgs (put_outbox b r w) = w_msgs w"
  "w_inbox (put_outbox b r w) = w_inbox w" "w_rconv (put_outbox b r w) = w_rconv w"
  "w_rmsgs (put_outbox b r w) = w_rmsgs w" "w_pending (put_outbox b r w) = w_pending w"
  "w_zset (put_outbox b r w) = w_zset w" "w_locks (put_outbox b r w) = w_locks w"
  "w_idem (put_outbox b r w) = w_idem w" "w_owner (put_outbox b r w) = w_owner w"
  "w_log (put_outbox b r w) = w_log w" "w_pub (put_outbox b r w) = w_pub w"
  "w_kafka (put_outbox b r w) = w_kafka w"
  by (simp_all add: put_outbox_def)

lemma blank_outbox_id [simp]: "ob_id (blank_outbox i) = i"
  by (simp add: blank_outbox_def)

lemma inbox_has_pop [simp]: "inbox_has (pop w) = inbox_has w"
  by (simp add: inbox_has_def fun_eq_iff split: option.splits)

definition outbox_ok :: "world \<Rightarrow> bool" where
  "outbox_ok w = (\<forall>b. clustered outbox_lt ob_id (w_outbox w b))"

lemma outbox_ok_pop [simp]: "outbox_ok (pop w) = outbox_ok w"
  by (simp add: outbox_ok_def)

lemma outbox_ok_put [simp]: "outbox_ok w \<Longrightarrow> outbox_ok (put_outbox b r w)"
  by (simp add: outbox_ok_def outbox_order.clustered_upsert)

lemma outbox_ok_mark [simp]: "outbox_ok w \<Longrightarrow> outbox_ok (mark_row b e w)"
  by (simp add: outbox_ok_def mark_row_def outbox_order.clustered_upsert)

end
