(* ===== verification/Message_Repo.thy ===== *)
theory Message_Repo
  imports Event_Repos
begin

text \<open>
  \<open>app/repositories/message_repository.py\<close>: the statements on \<open>messages_by_conversation\<close> and the
  batch that stages a message with its outbox event, and what each does to the partition of a
  conversation. A partition lists the rows newest first (\<open>message_id DESC\<close>).
\<close>

definition blank_msg :: "uuid \<Rightarrow> msg_row" where
  "blank_msg i = \<lparr>mr_id = i, mr_sender = None, mr_content = None, mr_created = None,
     mr_status = None, mr_files = [], mr_cites = None\<rparr>"

definition put_msg :: "uuid \<Rightarrow> uuid \<Rightarrow> (msg_row \<Rightarrow> msg_row) \<Rightarrow> world \<Rightarrow> world" where
  "put_msg cid mid f w =
     w\<lparr>w_msgs := (w_msgs w)(cid := upsert msg_lt mr_id (blank_msg mid) f (w_msgs w cid))\<rparr>"

definition msg_of :: "world \<Rightarrow> uuid \<Rightarrow> uuid \<Rightarrow> msg_row option" where
  "msg_of w cid mid = row_of mr_id mid (w_msgs w cid)"

section \<open>Rows as messages\<close>

definition message_of_row :: "uuid \<Rightarrow> msg_row \<Rightarrow> message_status \<Rightarrow> message" where
  "message_of_row cid r st =
     \<lparr>m_conv = cid, m_id = mr_id r, m_sender = mr_sender r, m_content = mr_content r,
      m_created = mr_created r, m_status = st, m_files = mr_files r,
      m_cites = loads_citations (mr_cites r), m_response = None\<rparr>"

text \<open>The loop of \<open>history\<close>: a deleted row is skipped, any other unknown status raises.\<close>

fun history_rows :: "uuid \<Rightarrow> msg_row list \<Rightarrow> exn + message list" where
  "history_rows cid [] = Inr []"
| "history_rows cid (r # rs) =
     (if mr_status r = Some ''deleted'' then history_rows cid rs
      else case status_of (mr_status r) of
        None \<Rightarrow> Inl (ValueError ''status'')
      | Some st \<Rightarrow>
          (case history_rows cid rs of
             Inl e \<Rightarrow> Inl e
           | Inr ms \<Rightarrow> Inr (message_of_row cid r st # ms)))"

text \<open>The loop of \<open>history_upto\<close>: every row whose status is not one of the enum is skipped.\<close>

definition upto_rows :: "uuid \<Rightarrow> msg_row list \<Rightarrow> message list" where
  "upto_rows cid rs =
     List.map_filter (\<lambda>r. map_option (message_of_row cid r) (status_of (mr_status r))) rs"

section \<open>Operations\<close>

definition msg_create_with_outbox ::
  "uuid \<Rightarrow> uuid \<Rightarrow> string \<Rightarrow> string \<Rightarrow> string \<Rightarrow> uuid \<Rightarrow> string \<Rightarrow> json \<Rightarrow> uuid list
   \<Rightarrow> (world, message) prog" where
  "msg_create_with_outbox cid mid sender content status event_id event_type payload files =
     bnd (getting w_now) (\<lambda>now.
     bnd (db_exec (\<lambda>w.
            put_outbox (bucket_of cid)
              \<lparr>ob_id = event_id, ob_type = event_type, ob_payload = payload,
               ob_published = False, ob_created = db_time now\<rparr>
              (put_msg cid mid (\<lambda>r. r\<lparr>mr_sender := Some sender, mr_content := Some content,
                 mr_created := Some (db_time now), mr_status := Some status, mr_files := files\<rparr>) w)))
       (\<lambda>_. case status_of (Some status) of
          None \<Rightarrow> raise (ValueError ''status'')
        | Some st \<Rightarrow> ret
            \<lparr>m_conv = cid, m_id = mid, m_sender = Some sender, m_content = Some content,
             m_created = Some now, m_status = st, m_files = files, m_cites = [],
             m_response = None\<rparr>))"

definition msg_history :: "uuid \<Rightarrow> nat \<Rightarrow> uuid option \<Rightarrow> (world, message list) prog" where
  "msg_history cid limit cursor =
     bnd (db_query (\<lambda>w. case cursor of
            Some c \<Rightarrow> take limit (filter (\<lambda>r. ckey (mr_id r) < ckey c) (w_msgs w cid))
          | None \<Rightarrow> take limit (w_msgs w cid)))
       (\<lambda>rows. lift_result (history_rows cid rows))"

definition msg_history_upto :: "uuid \<Rightarrow> uuid \<Rightarrow> nat \<Rightarrow> (world, message list) prog" where
  "msg_history_upto cid last_id limit =
     bnd (db_query (\<lambda>w. take limit (filter (\<lambda>r. ckey (mr_id r) \<le> ckey last_id) (w_msgs w cid))))
       (\<lambda>rows. ret (upto_rows cid rows))"

definition msg_get :: "uuid \<Rightarrow> uuid \<Rightarrow> (world, message option) prog" where
  "msg_get cid mid =
     bnd (db_query (\<lambda>w. msg_of w cid mid))
       (\<lambda>row. ret (case row of
          None \<Rightarrow> None
        | Some r \<Rightarrow> Some (message_of_row cid r
            (case status_of (mr_status r) of None \<Rightarrow> FAILED | Some st \<Rightarrow> st))))"

definition msg_delete :: "uuid \<Rightarrow> uuid \<Rightarrow> (world, bool) prog" where
  "msg_delete cid mid =
     bnd (db_exec (put_msg cid mid (\<lambda>r. r\<lparr>mr_status := Some ''deleted''\<rparr>))) (\<lambda>_. ret True)"

text \<open>Without citations the column is not written, so an older value of the row survives.\<close>

definition msg_create_direct ::
  "uuid \<Rightarrow> uuid \<Rightarrow> string \<Rightarrow> string \<Rightarrow> string \<Rightarrow> citation list \<Rightarrow> (world, message) prog" where
  "msg_create_direct cid mid sender content status citations =
     bnd (getting w_now) (\<lambda>now.
       let clean = (if citations = [] then [] else sanitize_citations (store_citations citations)) in
       bnd (db_exec (put_msg cid mid (\<lambda>r.
              let r' = r\<lparr>mr_sender := Some sender, mr_content := Some content,
                         mr_created := Some (db_time now), mr_status := Some status\<rparr>
              in if clean = [] then r' else r'\<lparr>mr_cites := Some (store_citations clean)\<rparr>)))
         (\<lambda>_. case status_of (Some status) of
            None \<Rightarrow> raise (ValueError ''status'')
          | Some st \<Rightarrow> ret
              \<lparr>m_conv = cid, m_id = mid, m_sender = Some sender, m_content = Some content,
               m_created = Some now, m_status = st, m_files = [], m_cites = clean,
               m_response = None\<rparr>))"

definition msg_delete_all :: "uuid \<Rightarrow> (world, bool) prog" where
  "msg_delete_all cid =
     bnd (db_exec (\<lambda>w. w\<lparr>w_msgs := (w_msgs w)(cid := [])\<rparr>)) (\<lambda>_. ret True)"

section \<open>Effects on a partition\<close>

definition msgs_ok :: "world \<Rightarrow> bool" where
  "msgs_ok w = (\<forall>cid. clustered msg_lt mr_id (w_msgs w cid))"

definition keeps_id :: "(msg_row \<Rightarrow> msg_row) \<Rightarrow> bool" where
  "keeps_id f = (\<forall>r. mr_id (f r) = mr_id r)"

lemma blank_msg_id [simp]: "mr_id (blank_msg i) = i"
  by (simp add: blank_msg_def)

lemma msgs_ok_pop [simp]: "msgs_ok (pop w) = msgs_ok w"
  by (simp add: msgs_ok_def)

lemma msg_of_pop [simp]: "msg_of (pop w) = msg_of w"
  by (simp add: msg_of_def fun_eq_iff)

lemma put_msg_simps [simp]:
  "w_msgs (put_msg cid mid f w) = (w_msgs w)(cid := upsert msg_lt mr_id (blank_msg mid) f (w_msgs w cid))"
  "w_now (put_msg cid mid f w) = w_now w" "w_sched (put_msg cid mid f w) = w_sched w"
  "w_redis_on (put_msg cid mid f w) = w_redis_on w" "w_conv (put_msg cid mid f w) = w_conv w"
  "w_catalog (put_msg cid mid f w) = w_catalog w" "w_outbox (put_msg cid mid f w) = w_outbox w"
  "w_inbox (put_msg cid mid f w) = w_inbox w" "w_rconv (put_msg cid mid f w) = w_rconv w"
  "w_rmsgs (put_msg cid mid f w) = w_rmsgs w" "w_pending (put_msg cid mid f w) = w_pending w"
  "w_zset (put_msg cid mid f w) = w_zset w" "w_locks (put_msg cid mid f w) = w_locks w"
  "w_idem (put_msg cid mid f w) = w_idem w" "w_owner (put_msg cid mid f w) = w_owner w"
  "w_log (put_msg cid mid f w) = w_log w" "w_pub (put_msg cid mid f w) = w_pub w"
  "w_kafka (put_msg cid mid f w) = w_kafka w"
  by (simp_all add: put_msg_def)

lemma msg_of_put_outbox [simp]: "msg_of (put_outbox b r w) = msg_of w"
  by (simp add: msg_of_def fun_eq_iff)

lemma msgs_ok_put_outbox [simp]: "msgs_ok (put_outbox b r w) = msgs_ok w"
  by (simp add: msgs_ok_def)

lemma msgs_ok_put [simp]: "keeps_id f \<Longrightarrow> msgs_ok w \<Longrightarrow> msgs_ok (put_msg cid mid f w)"
  by (simp add: msgs_ok_def keeps_id_def msg_order.clustered_upsert)

lemma msg_of_put:
  assumes "keeps_id f" and "msgs_ok w"
  shows "msg_of (put_msg cid mid f w) cid' mid' =
     (if cid' = cid \<and> mid' = mid
      then Some (f (case msg_of w cid mid of None \<Rightarrow> blank_msg mid | Some r \<Rightarrow> r))
      else msg_of w cid' mid')"
  using assms msg_order.row_of_upsert_same [where f = f and rs = "w_msgs w cid" and blank = "blank_msg mid"]
    row_of_upsert_other [where key = mr_id and f = f and blank = "blank_msg mid" and k = mid'
      and lt = msg_lt and rs = "w_msgs w cid"]
  by (auto simp: msg_of_def keeps_id_def msgs_ok_def)

lemma msg_of_put_other:
  assumes "keeps_id f" and "cid' \<noteq> cid \<or> mid' \<noteq> mid"
  shows "msg_of (put_msg cid mid f w) cid' mid' = msg_of w cid' mid'"
  using assms row_of_upsert_other [where key = mr_id and f = f and blank = "blank_msg mid" and k = mid'
      and lt = msg_lt and rs = "w_msgs w cid"]
  by (auto simp: msg_of_def keeps_id_def)

text \<open>The row updates the operations make all keep the key.\<close>

lemma keeps_id_updates [simp]:
  "keeps_id (\<lambda>r. r\<lparr>mr_status := s\<rparr>)"
  "keeps_id (\<lambda>r. r\<lparr>mr_sender := a, mr_content := c, mr_created := t, mr_status := s, mr_files := fs\<rparr>)"
  "keeps_id (\<lambda>r. let r' = r\<lparr>mr_sender := a, mr_content := c, mr_created := t, mr_status := s\<rparr>
             in if b then r' else r'\<lparr>mr_cites := j\<rparr>)"
  by (simp_all add: keeps_id_def Let_def)

section \<open>Reading\<close>

lemma history_rows_not_deleted:
  "history_rows cid rs = Inr ms \<Longrightarrow> m \<in> set ms \<Longrightarrow>
   \<exists>r \<in> set rs. mr_status r \<noteq> Some ''deleted'' \<and> m_id m = mr_id r \<and>
     (\<exists>st. status_of (mr_status r) = Some st \<and> m = message_of_row cid r st)"
  by (induction rs arbitrary: ms)
     (auto simp: message_of_row_def split: if_splits option.splits sum.splits)

lemma history_rows_length: "history_rows cid rs = Inr ms \<Longrightarrow> length ms \<le> length rs"
proof (induction rs arbitrary: ms)
  case (Cons r rs)
  then show ?case by (fastforce split: if_splits option.splits sum.splits)
qed simp

lemma upto_rows_within:
  "m \<in> set (upto_rows cid rs) \<Longrightarrow> \<exists>r \<in> set rs. m_id m = mr_id r \<and> m_conv m = cid"
  by (auto simp: upto_rows_def List.map_filter_def message_of_row_def split: option.splits)

text \<open>
  A history read returns at most \<open>limit\<close> messages of the conversation, none of them deleted, each
  one a stored row, and with a cursor only rows strictly older than it.
\<close>

lemma wp_msg_history:
  "wp (msg_history cid limit cursor)
     (\<lambda>ms w'. w' = pop w \<and> length ms \<le> limit \<and>
        (\<forall>m \<in> set ms. \<exists>r \<in> set (w_msgs w cid). m_id m = mr_id r \<and> mr_status r \<noteq> Some ''deleted'' \<and>
            (case cursor of None \<Rightarrow> True | Some c \<Rightarrow> ckey (m_id m) < ckey c)))
     (\<lambda>_ w'. w' = pop w) w"
proof -
  have res: "length ms \<le> length rs \<and>
      (\<forall>m \<in> set ms. \<exists>r \<in> set rs. m_id m = mr_id r \<and> mr_status r \<noteq> Some ''deleted'')"
    if "history_rows cid rs = Inr ms" for rs ms
    using history_rows_not_deleted [OF that] history_rows_length [OF that] by blast
  show ?thesis
  proof (cases cursor)
    case None
    show ?thesis
      by (auto simp: msg_history_def wp_simps None split: fault.splits sum.splits
          dest!: res dest: set_takeD)
  next
    case (Some c)
    have within: "\<exists>r \<in> set (w_msgs w cid). m_id m = mr_id r \<and> mr_status r \<noteq> Some ''deleted'' \<and>
        ckey (m_id m) < ckey c"
      if "\<exists>r \<in> set (take limit (filter (\<lambda>r. ckey (mr_id r) < ckey c) (w_msgs w cid))).
            m_id m = mr_id r \<and> mr_status r \<noteq> Some ''deleted''" for m
      using that by (auto dest!: set_takeD)
    show ?thesis
      by (auto simp: msg_history_def wp_simps Some split: fault.splits sum.splits
          dest!: res intro!: within)
  qed
qed

end
