(* ===== verification/Conversation_Repo.thy ===== *)
theory Conversation_Repo
  imports Event_Repos
begin

text \<open>
  \<open>app/repositories/conversation_repository.py\<close>: the statements on \<open>conversations\<close> and on the
  per-user catalog \<open>conversations_by_user\<close>. A logged batch is one call with one effect. All
  statements of a batch carry the same write time, so where a \<open>DELETE\<close> and an \<open>INSERT\<close> of a batch
  meet on the same primary key, the deletion wins: the effect removes the old catalog row last.
\<close>

definition conversation_of :: "uuid \<Rightarrow> conv_row \<Rightarrow> exn + conversation" where
  "conversation_of cid r = (case conv_status_of (cr_status r) of
     None \<Rightarrow> Inl (ValueError ''status'')
   | Some st \<Rightarrow> Inr \<lparr>cv_id = cid, cv_user = cr_user r, cv_title = cr_title r,
       cv_created = cr_created r, cv_updated = cr_updated r, cv_status = st,
       cv_parent = cr_parent r, cv_branch = cr_branch r\<rparr>)"

text \<open>The catalog row of a conversation.\<close>

definition cat_of :: "uuid \<Rightarrow> conv_row \<Rightarrow> cat_row" where
  "cat_of cid r = \<lparr>ct_updated = cr_updated r, ct_conv = cid, ct_title = cr_title r,
     ct_created = cr_created r, ct_status = cr_status r, ct_parent = cr_parent r\<rparr>"

definition put_cat :: "uuid \<Rightarrow> cat_row \<Rightarrow> world \<Rightarrow> world" where
  "put_cat user r w =
     w\<lparr>w_catalog := (w_catalog w)(user := upsert cat_lt cat_key r (\<lambda>_. r) (w_catalog w user))\<rparr>"

definition drop_cat :: "uuid \<Rightarrow> int \<times> uuid \<Rightarrow> world \<Rightarrow> world" where
  "drop_cat user k w =
     w\<lparr>w_catalog := (w_catalog w)(user := drop_row cat_key k (w_catalog w user))\<rparr>"

definition put_conv :: "uuid \<Rightarrow> conv_row option \<Rightarrow> world \<Rightarrow> world" where
  "put_conv cid r w = w\<lparr>w_conv := (w_conv w)(cid := r)\<rparr>"

section \<open>Operations\<close>

definition conv_create_with_outbox ::
  "uuid \<Rightarrow> uuid \<Rightarrow> string \<Rightarrow> string \<Rightarrow> uuid \<Rightarrow> string \<Rightarrow> json \<Rightarrow> uuid option \<Rightarrow> uuid option
   \<Rightarrow> (world, conversation) prog" where
  "conv_create_with_outbox cid user title status event_id event_type payload parent branch =
     bnd (getting w_now) (\<lambda>now.
     let r = \<lparr>cr_user = user, cr_title = title, cr_created = db_time now, cr_updated = db_time now,
              cr_status = status, cr_parent = parent, cr_branch = branch\<rparr> in
     bnd (db_exec (\<lambda>w.
            put_outbox (bucket_of cid)
              \<lparr>ob_id = event_id, ob_type = event_type, ob_payload = payload,
               ob_published = False, ob_created = db_time now\<rparr>
              (put_cat user (cat_of cid r) (put_conv cid (Some r) w))))
       (\<lambda>_. case conv_status_of status of
          None \<Rightarrow> raise (ValueError ''status'')
        | Some st \<Rightarrow> ret
            \<lparr>cv_id = cid, cv_user = user, cv_title = title, cv_created = now, cv_updated = now,
             cv_status = st, cv_parent = parent, cv_branch = branch\<rparr>))"

definition conv_get :: "uuid \<Rightarrow> (world, conversation option) prog" where
  "conv_get cid = bnd (db_query (\<lambda>w. w_conv w cid)) (\<lambda>row. case row of
     None \<Rightarrow> ret None
   | Some r \<Rightarrow> (case conversation_of cid r of Inl e \<Rightarrow> raise e | Inr c \<Rightarrow> ret (Some c)))"

text \<open>
  The batch that moves the catalog row of \<open>conv\<close> to its new update time. The conversation read
  before supplies the user, the old clustering key, the creation time and the parent.
\<close>

definition move_conv :: "uuid \<Rightarrow> conversation \<Rightarrow> string \<Rightarrow> string \<Rightarrow> int \<Rightarrow> world \<Rightarrow> world" where
  "move_conv cid conv title status now w =
     drop_cat (cv_user conv) (cv_updated conv, cid)
       (put_cat (cv_user conv)
         \<lparr>ct_updated = db_time now, ct_conv = cid, ct_title = title, ct_created = cv_created conv,
          ct_status = status, ct_parent = cv_parent conv\<rparr>
         (put_conv cid
           (map_option (\<lambda>r. r\<lparr>cr_title := title, cr_updated := db_time now, cr_status := status\<rparr>)
             (w_conv w cid)) w))"

definition conv_update_with_outbox ::
  "uuid \<Rightarrow> string \<Rightarrow> string \<Rightarrow> uuid \<Rightarrow> string \<Rightarrow> json \<Rightarrow> (world, conversation option) prog" where
  "conv_update_with_outbox cid title status event_id event_type payload =
     bnd (conv_get cid) (\<lambda>found. case found of
       None \<Rightarrow> ret None
     | Some conv \<Rightarrow>
         bnd (getting w_now) (\<lambda>now.
         bnd (db_exec (\<lambda>w.
                put_outbox (bucket_of cid)
                  \<lparr>ob_id = event_id, ob_type = event_type, ob_payload = payload,
                   ob_published = False, ob_created = db_time now\<rparr>
                  (move_conv cid conv title status now w)))
           (\<lambda>_. case conv_status_of status of
              None \<Rightarrow> raise (ValueError ''status'')
            | Some st \<Rightarrow> ret (Some
                \<lparr>cv_id = cid, cv_user = cv_user conv, cv_title = title,
                 cv_created = cv_created conv, cv_updated = now, cv_status = st,
                 cv_parent = cv_parent conv, cv_branch = None\<rparr>))))"

definition conv_delete_with_outbox ::
  "uuid \<Rightarrow> uuid \<Rightarrow> string \<Rightarrow> json \<Rightarrow> (world, bool) prog" where
  "conv_delete_with_outbox cid event_id event_type payload =
     bnd (conv_get cid) (\<lambda>found. case found of
       None \<Rightarrow> ret False
     | Some conv \<Rightarrow>
         bnd (conv_update_with_outbox cid (cv_title conv) ''deleted'' event_id event_type payload)
           (\<lambda>r. ret (r \<noteq> None)))"

fun list_rows :: "uuid \<Rightarrow> cat_row list \<Rightarrow> exn + conversation list" where
  "list_rows user [] = Inr []"
| "list_rows user (r # rs) =
     (if ct_status r = ''deleted'' then list_rows user rs
      else case conv_status_of (ct_status r) of
        None \<Rightarrow> Inl (ValueError ''status'')
      | Some st \<Rightarrow>
          (case list_rows user rs of
             Inl e \<Rightarrow> Inl e
           | Inr cs \<Rightarrow> Inr (\<lparr>cv_id = ct_conv r, cv_user = user, cv_title = ct_title r,
               cv_created = ct_created r, cv_updated = ct_updated r, cv_status = st,
               cv_parent = ct_parent r, cv_branch = None\<rparr> # cs)))"

definition conv_list :: "uuid \<Rightarrow> nat \<Rightarrow> int option \<Rightarrow> (world, conversation list) prog" where
  "conv_list user limit cursor =
     bnd (db_query (\<lambda>w. case cursor of
            Some c \<Rightarrow> take limit (filter (\<lambda>r. ct_updated r < db_time c) (w_catalog w user))
          | None \<Rightarrow> take limit (w_catalog w user)))
       (\<lambda>rows. lift_result (list_rows user rows))"

text \<open>
  The batch of \<open>update_title\<close>: the row of the conversation changes its title and update time only,
  the status the conversation was read with goes into the new catalog row.
\<close>

definition retitle_conv :: "uuid \<Rightarrow> conversation \<Rightarrow> string \<Rightarrow> int \<Rightarrow> world \<Rightarrow> world" where
  "retitle_conv cid conv title now w =
     drop_cat (cv_user conv) (cv_updated conv, cid)
       (put_cat (cv_user conv)
         \<lparr>ct_updated = db_time now, ct_conv = cid, ct_title = title, ct_created = cv_created conv,
          ct_status = conv_status_value (cv_status conv), ct_parent = cv_parent conv\<rparr>
         (put_conv cid
           (map_option (\<lambda>r. r\<lparr>cr_title := title, cr_updated := db_time now\<rparr>) (w_conv w cid)) w))"

definition conv_update_title :: "uuid \<Rightarrow> string \<Rightarrow> (world, bool) prog" where
  "conv_update_title cid title =
     bnd (conv_get cid) (\<lambda>found. case found of
       None \<Rightarrow> ret False
     | Some conv \<Rightarrow>
         bnd (getting w_now) (\<lambda>now.
         bnd (db_exec (retitle_conv cid conv title now)) (\<lambda>_. ret True)))"

definition conv_hard_delete :: "uuid \<Rightarrow> (world, bool) prog" where
  "conv_hard_delete cid =
     bnd (conv_get cid) (\<lambda>found. case found of
       None \<Rightarrow> ret False
     | Some conv \<Rightarrow>
         bnd (db_exec (\<lambda>w. put_conv cid None (drop_cat (cv_user conv) (cv_updated conv, cid) w)))
           (\<lambda>_. ret True))"

section \<open>The catalog mirrors the conversations\<close>

definition catalog_ok :: "world \<Rightarrow> bool" where
  "catalog_ok w = (\<forall>u. clustered cat_lt cat_key (w_catalog w u) \<and>
     (\<forall>x. x \<in> set (w_catalog w u) \<longleftrightarrow>
       (\<exists>r. w_conv w (ct_conv x) = Some r \<and> cr_user r = u \<and> x = cat_of (ct_conv x) r)))"

lemma cat_of_simps [simp]:
  "ct_conv (cat_of cid r) = cid" "ct_updated (cat_of cid r) = cr_updated r"
  "ct_title (cat_of cid r) = cr_title r" "ct_created (cat_of cid r) = cr_created r"
  "ct_status (cat_of cid r) = cr_status r" "ct_parent (cat_of cid r) = cr_parent r"
  by (simp_all add: cat_of_def)

lemma cat_key_cat_of [simp]: "cat_key (cat_of cid r) = (cr_updated r, cid)"
  by (simp add: cat_key_def)

lemma catalog_ok_pop [simp]: "catalog_ok (pop w) = catalog_ok w"
  by (simp add: catalog_ok_def)

lemma catalog_ok_outbox [simp]: "catalog_ok (put_outbox b r w) = catalog_ok w"
  by (simp add: catalog_ok_def)

lemma conv_frames [simp]:
  "w_conv (put_cat u r w) = w_conv w" "w_conv (drop_cat u k w) = w_conv w"
  "w_conv (put_conv cid x w) = (w_conv w)(cid := x)" "w_catalog (put_conv cid x w) = w_catalog w"
  "w_catalog (put_cat u r w) = (w_catalog w)(u := upsert cat_lt cat_key r (\<lambda>_. r) (w_catalog w u))"
  "w_catalog (drop_cat u k w) = (w_catalog w)(u := drop_row cat_key k (w_catalog w u))"
  by (simp_all add: put_cat_def drop_cat_def put_conv_def)

lemma set_drop_row [simp]: "set (drop_row key k rs) = {x \<in> set rs. key x \<noteq> k}"
  by (auto simp: drop_row_def)

lemma clustered_put_row: "clustered cat_lt cat_key rs \<Longrightarrow> clustered cat_lt cat_key (upsert cat_lt cat_key r (\<lambda>_. r) rs)"
  by (simp add: cat_order.clustered_upsert)

lemma catalog_okD:
  assumes "catalog_ok w"
  shows "clustered cat_lt cat_key (w_catalog w u)"
    and "x \<in> set (w_catalog w u) \<longleftrightarrow>
      (\<exists>r. w_conv w (ct_conv x) = Some r \<and> cr_user r = u \<and> x = cat_of (ct_conv x) r)"
  using assms by (simp_all add: catalog_ok_def)

lemma catalog_okI:
  assumes "\<And>u. clustered cat_lt cat_key (w_catalog w u)"
    and "\<And>u x. x \<in> set (w_catalog w u) \<longleftrightarrow>
      (\<exists>r. w_conv w (ct_conv x) = Some r \<and> cr_user r = u \<and> x = cat_of (ct_conv x) r)"
  shows "catalog_ok w"
  using assms by (simp add: catalog_ok_def)

lemma catalog_ok_create:
  assumes ok: "catalog_ok w" and new: "w_conv w cid = None"
  shows "catalog_ok (put_cat (cr_user r) (cat_of cid r) (put_conv cid (Some r) w))"
proof (rule catalog_okI)
  note cl = catalog_okD(1) [OF ok] and mem = catalog_okD(2) [OF ok]
  show "clustered cat_lt cat_key
      (w_catalog (put_cat (cr_user r) (cat_of cid r) (put_conv cid (Some r) w)) u)" for u
    by (simp add: cl clustered_put_row)
  show "x \<in> set (w_catalog (put_cat (cr_user r) (cat_of cid r) (put_conv cid (Some r) w)) u) \<longleftrightarrow>
      (\<exists>r'. w_conv (put_cat (cr_user r) (cat_of cid r) (put_conv cid (Some r) w)) (ct_conv x) = Some r' \<and>
        cr_user r' = u \<and> x = cat_of (ct_conv x) r')" for u x
    using new by (cases "ct_conv x = cid")
      (auto simp: cat_order.set_upsert_row [OF cl] mem cat_key_def)
qed

text \<open>
  The old catalog row leaves and the new one comes in, provided the stored update time changes: two
  updates of one conversation within a millisecond meet on the same catalog key and lose the row.
\<close>

lemma catalog_ok_move:
  assumes ok: "catalog_ok w" and row: "w_conv w cid = Some r" and conv: "conversation_of cid r = Inr conv"
    and time: "db_time now \<noteq> cr_updated r"
  shows "catalog_ok (move_conv cid conv title status now w)"
proof (rule catalog_okI)
  note cl = catalog_okD(1) [OF ok] and mem = catalog_okD(2) [OF ok]
  have c: "cv_user conv = cr_user r" "cv_updated conv = cr_updated r" "cv_created conv = cr_created r"
    "cv_parent conv = cr_parent r"
    using conv by (auto simp: conversation_of_def split: option.splits)
  show "clustered cat_lt cat_key (w_catalog (move_conv cid conv title status now w) u)" for u
    by (simp add: move_conv_def cl clustered_put_row)
  show "x \<in> set (w_catalog (move_conv cid conv title status now w) u) \<longleftrightarrow>
      (\<exists>r'. w_conv (move_conv cid conv title status now w) (ct_conv x) = Some r' \<and>
        cr_user r' = u \<and> x = cat_of (ct_conv x) r')" for u x
  proof (cases "ct_conv x = cid")
    case True
    then show ?thesis using row time
      by (cases x) (auto simp: move_conv_def c cat_order.set_upsert_row [OF cl] mem cat_key_def cat_of_def)
  next
    case False
    then show ?thesis using row
      by (auto simp: move_conv_def c cat_order.set_upsert_row [OF cl] mem cat_key_def)
  qed
qed

text \<open>While the row still has the status it was read with, a retitling is a move under that status.\<close>

lemma conv_status_value_of: "conv_status_of s = Some st \<Longrightarrow> conv_status_value st = s"
  by (auto simp: conv_status_of_def split: if_splits)

lemma retitle_conv_eq_move:
  assumes "w_conv w cid = Some r" and "conversation_of cid r = Inr conv"
  shows "retitle_conv cid conv title now w =
    move_conv cid conv title (conv_status_value (cv_status conv)) now w"
  using assms by (auto simp: retitle_conv_def move_conv_def conversation_of_def
      dest!: conv_status_value_of split: option.splits)

lemma catalog_ok_remove:
  assumes ok: "catalog_ok w" and row: "w_conv w cid = Some r"
  shows "catalog_ok (put_conv cid None (drop_cat (cr_user r) (cr_updated r, cid) w))"
proof (rule catalog_okI)
  note cl = catalog_okD(1) [OF ok] and mem = catalog_okD(2) [OF ok]
  let ?w = "put_conv cid None (drop_cat (cr_user r) (cr_updated r, cid) w)"
  show "clustered cat_lt cat_key (w_catalog ?w u)" for u by (simp add: cl)
  show "x \<in> set (w_catalog ?w u) \<longleftrightarrow>
      (\<exists>r'. w_conv ?w (ct_conv x) = Some r' \<and> cr_user r' = u \<and> x = cat_of (ct_conv x) r')" for u x
    using row by (cases "ct_conv x = cid") (auto simp: mem cat_key_def cat_of_def)
qed

section \<open>Every operation, under every failure\<close>

lemma wp_conv_get [wp_simps]:
  "wp (conv_get cid) Q E w =
     (if next_fault w = Okay
      then (case w_conv w cid of
              None \<Rightarrow> Q None (pop w)
            | Some r \<Rightarrow> (case conversation_of cid r of Inl e \<Rightarrow> E e (pop w) | Inr c \<Rightarrow> Q (Some c) (pop w)))
      else E DbError (pop w))"
  by (simp add: conv_get_def wp_simps split: fault.splits option.splits sum.splits)

lemma conversation_of_user:
  "conversation_of cid r = Inr c \<Longrightarrow> cv_user c = cr_user r \<and> cv_updated c = cr_updated r \<and> cv_id c = cid"
  by (auto simp: conversation_of_def split: option.splits)

lemma wp_conv_create_catalog:
  assumes "catalog_ok w" and "w_conv w cid = None"
  shows "wp (conv_create_with_outbox cid user title status e ty p parent branch)
    (\<lambda>_. catalog_ok) (\<lambda>_. catalog_ok) w"
proof -
  define r where "r = \<lparr>cr_user = user, cr_title = title, cr_created = db_time (w_now w),
    cr_updated = db_time (w_now w), cr_status = status, cr_parent = parent, cr_branch = branch\<rparr>"
  have "catalog_ok (put_cat (cr_user r) (cat_of cid r) (put_conv cid (Some r) (pop w)))"
    by (rule catalog_ok_create) (use assms in simp_all)
  then have "catalog_ok (put_cat user (cat_of cid r) (put_conv cid (Some r) (pop w)))"
    by (simp add: r_def)
  then show ?thesis
    using assms by (simp add: conv_create_with_outbox_def wp_simps r_def split: fault.splits option.splits)
qed

lemma wp_conv_update_catalog:
  assumes "catalog_ok w" and "\<And>r. w_conv w cid = Some r \<Longrightarrow> db_time (w_now w) \<noteq> cr_updated r"
  shows "wp (conv_update_with_outbox cid title status e ty p) (\<lambda>_. catalog_ok) (\<lambda>_. catalog_ok) w"
  using assms by (auto simp: conv_update_with_outbox_def wp_simps catalog_ok_move
      split: fault.splits option.splits sum.splits)

lemma wp_conv_delete_catalog:
  assumes "catalog_ok w" and "\<And>r. w_conv w cid = Some r \<Longrightarrow> db_time (w_now w) \<noteq> cr_updated r"
  shows "wp (conv_delete_with_outbox cid e ty p) (\<lambda>_. catalog_ok) (\<lambda>_. catalog_ok) w"
  using assms by (auto simp: conv_delete_with_outbox_def wp_simps
      split: option.splits sum.splits intro!: wp_mono [OF wp_conv_update_catalog])

lemma wp_conv_update_title_catalog:
  assumes "catalog_ok w" and "\<And>r. w_conv w cid = Some r \<Longrightarrow> db_time (w_now w) \<noteq> cr_updated r"
  shows "wp (conv_update_title cid title) (\<lambda>_. catalog_ok) (\<lambda>_. catalog_ok) w"
  using assms by (auto simp: conv_update_title_def wp_simps catalog_ok_move retitle_conv_eq_move
      split: fault.splits option.splits sum.splits)

lemma wp_conv_hard_delete_catalog:
  assumes "catalog_ok w"
  shows "wp (conv_hard_delete cid) (\<lambda>_. catalog_ok) (\<lambda>_. catalog_ok) w"
  using assms by (auto simp: conv_hard_delete_def wp_simps catalog_ok_remove
      split: fault.splits option.splits sum.splits dest!: conversation_of_user)

section \<open>Runs of the repository\<close>

datatype conv_op =
    CreateConv uuid uuid string string uuid string json "uuid option" "uuid option"
  | UpdateConv uuid string string uuid string json
  | DeleteConv uuid uuid string json
  | RetitleConv uuid string
  | EraseConv uuid
  | ListConv uuid nat "int option"

fun conv_op_prog :: "conv_op \<Rightarrow> (world, unit) prog" where
  "conv_op_prog (CreateConv cid u t st e ty p pa br) =
     bnd (conv_create_with_outbox cid u t st e ty p pa br) (\<lambda>_. ret ())"
| "conv_op_prog (UpdateConv cid t st e ty p) = bnd (conv_update_with_outbox cid t st e ty p) (\<lambda>_. ret ())"
| "conv_op_prog (DeleteConv cid e ty p) = bnd (conv_delete_with_outbox cid e ty p) (\<lambda>_. ret ())"
| "conv_op_prog (RetitleConv cid t) = bnd (conv_update_title cid t) (\<lambda>_. ret ())"
| "conv_op_prog (EraseConv cid) = bnd (conv_hard_delete cid) (\<lambda>_. ret ())"
| "conv_op_prog (ListConv u n c) = bnd (conv_list u n c) (\<lambda>_. ret ())"

text \<open>A run: each operation at its own time, under its own schedule of failures.\<close>

fun run_conv_ops :: "(int \<times> fault list \<times> conv_op) list \<Rightarrow> world \<Rightarrow> world" where
  "run_conv_ops [] w = w"
| "run_conv_ops ((t, fs, c) # steps) w =
     run_conv_ops steps (after (conv_op_prog c) (w\<lparr>w_now := t, w_sched := fs\<rparr>))"

fun created_ids :: "(int \<times> fault list \<times> conv_op) list \<Rightarrow> uuid list" where
  "created_ids [] = []"
| "created_ids ((t, fs, CreateConv cid u ti st e ty p pa br) # steps) = cid # created_ids steps"
| "created_ids (_ # steps) = created_ids steps"

definition stamps :: "(int \<times> fault list \<times> conv_op) list \<Rightarrow> int list" where
  "stamps steps = map (\<lambda>(t, _, _). db_time t) steps"

definition conv_bound :: "int \<Rightarrow> uuid set \<Rightarrow> world \<Rightarrow> bool" where
  "conv_bound T ids w = (\<forall>cid r. w_conv w cid = Some r \<longrightarrow> cr_updated r \<le> T \<and> cid \<in> ids)"

lemma conv_bound_pop [simp]: "conv_bound T ids (pop w) = conv_bound T ids w"
  by (simp add: conv_bound_def)

lemma conv_bound_move:
  "conv_bound T ids w \<Longrightarrow> db_time now \<le> T \<Longrightarrow> conv_bound T ids (put_outbox b x (move_conv cid c t st now w))"
  "conv_bound T ids w \<Longrightarrow> db_time now \<le> T \<Longrightarrow> conv_bound T ids (move_conv cid c t st now w)"
  by (auto simp: conv_bound_def move_conv_def)

lemma conv_bound_more: "conv_bound T ids w \<Longrightarrow> T \<le> T' \<Longrightarrow> ids \<subseteq> ids' \<Longrightarrow> conv_bound T' ids' w"
  by (fastforce simp: conv_bound_def)

lemma wp_conv_update_bound:
  assumes "conv_bound T ids w" and "db_time (w_now w) \<le> T"
  shows "wp (conv_update_with_outbox cid title status e ty p) (\<lambda>_. conv_bound T ids) (\<lambda>_. conv_bound T ids) w"
  using assms by (auto simp: conv_update_with_outbox_def wp_simps conv_bound_move
      split: fault.splits option.splits sum.splits)

lemma wp_conv_list [wp_simps]:
  "wp (conv_list u n c) (\<lambda>_. I) (\<lambda>_. I) w = I (pop w)"
  by (simp add: conv_list_def wp_simps split: fault.splits sum.splits)

lemma wp_conv_op_bound:
  assumes "conv_bound T ids w" and "db_time (w_now w) \<le> T"
  shows "wp (conv_op_prog c) (\<lambda>_. conv_bound T (ids \<union> set (created_ids [(t, fs, c)])))
    (\<lambda>_. conv_bound T (ids \<union> set (created_ids [(t, fs, c)]))) w"
proof (cases c)
  case (CreateConv cid u ti st e ty p pa br)
  then show ?thesis using assms
    by (auto simp: conv_create_with_outbox_def wp_simps conv_bound_def
        split: fault.splits option.splits)
next
  case (DeleteConv cid e ty p)
  then show ?thesis using assms
    by (auto simp: conv_delete_with_outbox_def wp_simps split: option.splits sum.splits
        intro!: wp_mono [OF wp_conv_update_bound])
next
  case (UpdateConv cid ti st e ty p)
  then show ?thesis using assms by (auto simp: wp_simps intro: wp_conv_update_bound)
next
  case (EraseConv cid)
  then show ?thesis using assms
    by (auto simp: conv_hard_delete_def wp_simps conv_bound_def split: fault.splits option.splits sum.splits)
qed (use assms in \<open>auto simp: conv_update_title_def wp_simps conv_bound_move retitle_conv_eq_move
        split: fault.splits option.splits sum.splits\<close>)

lemma wp_conv_op_catalog:
  assumes "catalog_ok w" and "conv_bound T ids w" and "T < db_time (w_now w)"
    and "set (created_ids [(t, fs, c)]) \<inter> ids = {}"
  shows "wp (conv_op_prog c) (\<lambda>_. catalog_ok) (\<lambda>_. catalog_ok) w"
proof -
  have later: "db_time (w_now w) \<noteq> cr_updated r" if "w_conv w cid = Some r" for cid r
    using that assms(2,3) by (force simp: conv_bound_def)
  have fresh: "w_conv w cid = None" if "cid \<notin> ids" for cid
    using that assms(2) by (cases "w_conv w cid") (auto simp: conv_bound_def)
  show ?thesis
    by (cases c) (use assms(1,4) later fresh in \<open>auto simp: wp_simps
        intro!: wp_conv_create_catalog wp_conv_update_catalog wp_conv_delete_catalog
          wp_conv_update_title_catalog wp_conv_hard_delete_catalog\<close>)
qed

lemma run_conv_ops_catalog:
  assumes "catalog_ok w" and "conv_bound T ids w"
    and "sorted_wrt (<) (T # stamps steps)" and "distinct (created_ids steps)"
    and "set (created_ids steps) \<inter> ids = {}"
  shows "catalog_ok (run_conv_ops steps w)"
  using assms
proof (induction steps arbitrary: w T ids)
  case (Cons step steps)
  obtain t fs c where step: "step = (t, fs, c)" by (cases step) auto
  let ?w = "w\<lparr>w_now := t, w_sched := fs\<rparr>" and ?ids = "ids \<union> set (created_ids [(t, fs, c)])"
  have split: "created_ids ((t, fs, c) # steps) = created_ids [(t, fs, c)] @ created_ids steps"
    by (cases c) simp_all
  have base: "catalog_ok ?w" "conv_bound T ids ?w" "T < db_time (w_now ?w)"
    using Cons.prems by (simp_all add: catalog_ok_def conv_bound_def stamps_def step)
  have "catalog_ok (after (conv_op_prog c) ?w)"
    using wp_conv_op_catalog [OF base, of t fs c] Cons.prems(5) by (auto simp: wp_after split step)
  moreover have "conv_bound (db_time t) ?ids (after (conv_op_prog c) ?w)"
    using wp_conv_op_bound [of "db_time t" ids ?w c t fs] conv_bound_more [OF base(2), of "db_time t" ids] base(3)
    by (simp add: wp_after)
  ultimately show ?case
    using Cons.prems(3-5) unfolding step split by (auto simp: stamps_def intro!: Cons.IH)
qed simp

text \<open>C1:
  The user catalog always mirrors the conversations: start from empty tables and run any sequence
  of creations, updates, soft and hard deletions, retitlings and listings, each under any pattern of
  refused or lost database calls. If creations use fresh ids and successive operations fall in different
  milliseconds, then at the end each user's catalog, in its clustering order, holds exactly one row per
  conversation of that user, equal to the conversation's own row.
\<close>

theorem catalog_mirrors_conversations:
  assumes "sorted_wrt (<) (db_time t0 # stamps steps)" and "distinct (created_ids steps)"
  shows "catalog_ok (run_conv_ops steps (empty_world t0))"
  by (rule run_conv_ops_catalog [where ids = "{}", OF _ _ assms])
     (simp_all add: catalog_ok_def conv_bound_def empty_world_def clustered_def)

theorem catalog_mirrors_conversations_witness:
  "catalog_ok (run_conv_ops
     [(1000, [], CreateConv 7 3 ''a'' ''active'' 11 ''conversation.created'' JNull None None),
      (2000, [Okay, Lost], UpdateConv 7 ''b'' ''active'' 12 ''conversation.updated'' JNull),
      (3000, [], DeleteConv 7 13 ''conversation.deleted'' JNull)] (empty_world 0))"
  by (rule catalog_mirrors_conversations) (simp_all add: stamps_def db_time_def)

end
