(* ===== verification/Cache.thy ===== *)
theory Cache
  imports Message_Repo Conversation_Repo
begin

text \<open>
  \<open>app/services/cache_service.py\<close>: the Redis copies of a conversation (a hash) and of the newest
  messages of a conversation (a list). Every operation swallows the exceptions of its Redis calls,
  so it never raises; its calls are separate, so a failure between them leaves the earlier ones
  done. A stored value is the entity itself: the text form of its fields (UUIDs, ISO times, JSON)
  reads back as the same values, the citations excepted, which a read sanitizes again.
\<close>

definition CACHE_TTL_SECONDS :: int where "CACHE_TTL_SECONDS = 3600"
definition CACHE_HISTORY_LIMIT :: nat where "CACHE_HISTORY_LIMIT = 50"

definition when_redis :: "'a \<Rightarrow> (world, 'a) prog \<Rightarrow> (world, 'a) prog" where
  "when_redis a m = bnd (getting w_redis_on) (\<lambda>on. if on then m else ret a)"

section \<open>Conversations\<close>

definition cache_get_conversation :: "uuid \<Rightarrow> (world, conversation option) prog" where
  "cache_get_conversation cid = when_redis None
     (attempt (redis_query (\<lambda>w. live (w_now w) (w_rconv w cid))) (\<lambda>_. ret None))"

definition hset_conv :: "conversation \<Rightarrow> world \<Rightarrow> world" where
  "hset_conv c w = w\<lparr>w_rconv := (w_rconv w)(cv_id c := Some (c, live_ttl (w_now w) (w_rconv w (cv_id c))))\<rparr>"

definition expire_conv :: "uuid \<Rightarrow> world \<Rightarrow> world" where
  "expire_conv cid w = w\<lparr>w_rconv := (w_rconv w)(cid :=
     expire_at (w_now w) (w_now w + sec CACHE_TTL_SECONDS) (w_rconv w cid))\<rparr>"

definition cache_set_conversation :: "conversation \<Rightarrow> (world, unit) prog" where
  "cache_set_conversation c = when_redis ()
     (attempt (bnd (redis_exec (hset_conv c)) (\<lambda>_. redis_exec (expire_conv (cv_id c)))) (\<lambda>_. ret ()))"

definition cache_delete_conversation :: "uuid \<Rightarrow> (world, unit) prog" where
  "cache_delete_conversation cid = when_redis ()
     (attempt (redis_exec (\<lambda>w. w\<lparr>w_rconv := (w_rconv w)(cid := None)\<rparr>)) (\<lambda>_. ret ()))"

section \<open>The newest messages\<close>

text \<open>\<open>LRANGE key 0 (limit - 1)\<close>; the bound \<open>-1\<close> is the whole list.\<close>

definition lrange :: "nat \<Rightarrow> 'a list \<Rightarrow> 'a list" where
  "lrange limit xs = (if limit = 0 then xs else take limit xs)"

definition cached_view :: "message \<Rightarrow> message" where
  "cached_view m = m\<lparr>m_cites := sanitize_citations (store_citations (m_cites m)), m_response := None\<rparr>"

definition cache_get_last_50 :: "uuid \<Rightarrow> nat \<Rightarrow> (world, message list option) prog" where
  "cache_get_last_50 cid limit = when_redis None
     (attempt
       (bnd (redis_query (\<lambda>w. case live (w_now w) (w_rmsgs w cid) of
               None \<Rightarrow> [] | Some ms \<Rightarrow> lrange limit ms))
         (\<lambda>items. ret (if items = [] then None else Some (map cached_view items))))
       (\<lambda>_. ret None))"

definition del_msgs :: "uuid \<Rightarrow> world \<Rightarrow> world" where
  "del_msgs cid w = w\<lparr>w_rmsgs := (w_rmsgs w)(cid := None)\<rparr>"

definition rpush_msgs :: "uuid \<Rightarrow> message list \<Rightarrow> world \<Rightarrow> world" where
  "rpush_msgs cid ms w = w\<lparr>w_rmsgs := (w_rmsgs w)(cid :=
     Some ((case live (w_now w) (w_rmsgs w cid) of None \<Rightarrow> [] | Some old \<Rightarrow> old) @ ms,
           live_ttl (w_now w) (w_rmsgs w cid)))\<rparr>"

definition expire_msgs :: "uuid \<Rightarrow> world \<Rightarrow> world" where
  "expire_msgs cid w = w\<lparr>w_rmsgs := (w_rmsgs w)(cid :=
     expire_at (w_now w) (w_now w + sec CACHE_TTL_SECONDS) (w_rmsgs w cid))\<rparr>"

text \<open>A message without a creation time cannot be written (\<open>None.isoformat()\<close> raises).\<close>

definition cache_set_last_50 :: "uuid \<Rightarrow> message list \<Rightarrow> (world, unit) prog" where
  "cache_set_last_50 cid ms = when_redis ()
     (if ms = [] then ret ()
      else attempt
        (if \<exists>m \<in> set ms. m_created m = None then raise TypeError
         else bnd (redis_exec (del_msgs cid)) (\<lambda>_.
              bnd (redis_exec (rpush_msgs cid ms)) (\<lambda>_. redis_exec (expire_msgs cid))))
        (\<lambda>_. ret ()))"

definition cache_delete_last_50 :: "uuid \<Rightarrow> (world, unit) prog" where
  "cache_delete_last_50 cid = when_redis () (attempt (redis_exec (del_msgs cid)) (\<lambda>_. ret ()))"

section \<open>What a cache operation can touch\<close>

text \<open>\<open>only_cache w w'\<close>: the two cache families and the schedule apart, \<open>w'\<close> is \<open>w\<close>.\<close>

definition only_cache :: "world \<Rightarrow> world \<Rightarrow> bool" where
  "only_cache w w' \<longleftrightarrow>
     w_now w' = w_now w \<and> w_redis_on w' = w_redis_on w \<and> w_conv w' = w_conv w \<and>
     w_catalog w' = w_catalog w \<and> w_msgs w' = w_msgs w \<and> w_outbox w' = w_outbox w \<and>
     w_inbox w' = w_inbox w \<and> w_pending w' = w_pending w \<and> w_zset w' = w_zset w \<and>
     w_locks w' = w_locks w \<and> w_idem w' = w_idem w \<and> w_owner w' = w_owner w \<and>
     w_log w' = w_log w \<and> w_pub w' = w_pub w \<and> w_kafka w' = w_kafka w"

lemma only_cache_refl [simp, intro]: "only_cache w w"
  by (simp add: only_cache_def)

lemma only_cache_trans [trans]: "only_cache w w' \<Longrightarrow> only_cache w' w'' \<Longrightarrow> only_cache w w''"
  by (simp add: only_cache_def)

lemma only_cacheD:
  assumes "only_cache w w'"
  shows "w_now w' = w_now w" "w_redis_on w' = w_redis_on w" "w_conv w' = w_conv w"
    "w_catalog w' = w_catalog w" "w_msgs w' = w_msgs w" "w_outbox w' = w_outbox w"
    "w_inbox w' = w_inbox w" "w_pending w' = w_pending w" "w_zset w' = w_zset w"
    "w_locks w' = w_locks w" "w_idem w' = w_idem w" "w_owner w' = w_owner w" "w_log w' = w_log w"
    "w_pub w' = w_pub w" "w_kafka w' = w_kafka w"
  using assms by (simp_all add: only_cache_def)

lemma only_cache_steps [simp]:
  "only_cache w' (hset_conv c w) = only_cache w' w" "only_cache w' (expire_conv cid w) = only_cache w' w"
  "only_cache w' (del_msgs cid w) = only_cache w' w" "only_cache w' (rpush_msgs cid ms w) = only_cache w' w"
  "only_cache w' (expire_msgs cid w) = only_cache w' w" "only_cache w' (pop w) = only_cache w' w"
  "only_cache w' (w\<lparr>w_rconv := rc\<rparr>) = only_cache w' w"
  by (simp_all add: only_cache_def hset_conv_def expire_conv_def del_msgs_def rpush_msgs_def expire_msgs_def)

lemma wp_when_redis [wp_simps]:
  "wp (when_redis a m) Q E w = (if w_redis_on w then wp m Q E w else Q a w)"
  by (simp add: when_redis_def wp_simps)

lemmas cache_defs = cache_get_conversation_def cache_set_conversation_def cache_delete_conversation_def
  cache_get_last_50_def cache_set_last_50_def cache_delete_last_50_def

text \<open>No cache operation raises, and each touches the cache only.\<close>

lemma cache_get_conversation_frame:
  "wp (cache_get_conversation cid) (\<lambda>_ w'. only_cache w w') (\<lambda>_ _. False) w"
  by (simp add: cache_defs wp_simps split: fault.splits)

lemma cache_set_conversation_frame:
  "wp (cache_set_conversation c) (\<lambda>_ w'. only_cache w w') (\<lambda>_ _. False) w"
  by (simp add: cache_defs wp_simps split: fault.splits)

lemma cache_delete_conversation_frame:
  "wp (cache_delete_conversation cid) (\<lambda>_ w'. only_cache w w') (\<lambda>_ _. False) w"
  by (simp add: cache_defs wp_simps split: fault.splits)

lemma cache_get_last_50_frame:
  "wp (cache_get_last_50 cid n) (\<lambda>_ w'. only_cache w w') (\<lambda>_ _. False) w"
  by (simp add: cache_defs wp_simps split: fault.splits)

lemma cache_set_last_50_frame:
  "wp (cache_set_last_50 cid ms) (\<lambda>_ w'. only_cache w w') (\<lambda>_ _. False) w"
  by (simp add: cache_defs wp_simps split: fault.splits)

lemma cache_delete_last_50_frame:
  "wp (cache_delete_last_50 cid) (\<lambda>_ w'. only_cache w w') (\<lambda>_ _. False) w"
  by (simp add: cache_defs wp_simps split: fault.splits)

text \<open>The rules component proofs use: the postcondition holds in every state the operation may leave.\<close>

lemma wp_frame:
  assumes "wp m (\<lambda>a w'. R a w') (\<lambda>_ _. False) w" and "\<And>a w'. R a w' \<Longrightarrow> Q a w'"
  shows "wp m Q E w"
  using assms by (auto elim: wp_mono)

lemmas wp_cache_get_conversation = wp_frame [OF cache_get_conversation_frame]
lemmas wp_cache_set_conversation = wp_frame [OF cache_set_conversation_frame]
lemmas wp_cache_delete_conversation = wp_frame [OF cache_delete_conversation_frame]
lemmas wp_cache_get_last_50 = wp_frame [OF cache_get_last_50_frame]
lemmas wp_cache_set_last_50 = wp_frame [OF cache_set_last_50_frame]
lemmas wp_cache_delete_last_50 = wp_frame [OF cache_delete_last_50_frame]

lemmas wp_cache = wp_cache_get_conversation wp_cache_set_conversation wp_cache_delete_conversation
  wp_cache_get_last_50 wp_cache_set_last_50 wp_cache_delete_last_50

section \<open>Cache-aside with no faults\<close>

text \<open>A written conversation reads back for an hour; a written list reads back up to the limit.\<close>

lemma cache_conversation_roundtrip:
  assumes "calm w" and "w_redis_on w"
  shows "wp (cache_set_conversation c)
     (\<lambda>_ w'. calm w' \<and> only_cache w w' \<and> live t (w_rconv w' (cv_id c))
         = (if t < w_now w + sec CACHE_TTL_SECONDS then Some c else None)) (\<lambda>_ _. False) w"
proof -
  have ttl: "0 < sec CACHE_TTL_SECONDS" by (simp add: CACHE_TTL_SECONDS_def sec_def)
  have calm_upd: "calm (hset_conv c w)" "calm (expire_conv (cv_id c) (hset_conv c w))"
    using assms(1) by (simp_all add: calm_def hset_conv_def expire_conv_def)
  have "live (w_now w) (Some (c, live_ttl (w_now w) e)) = Some c" for e :: "conversation entry option"
    by (auto simp: live_ttl_def live_def split: option.splits)
  then show ?thesis
    using assms ttl calm_upd
    by (simp add: cache_set_conversation_def wp_simps)
       (simp add: hset_conv_def expire_conv_def expire_at_def)
qed

lemma cache_last_50_roundtrip:
  assumes "calm w" and "w_redis_on w" and "ms \<noteq> []" and "\<forall>m \<in> set ms. m_created m \<noteq> None"
  shows "wp (cache_set_last_50 cid ms)
     (\<lambda>_ w'. calm w' \<and> only_cache w w' \<and> live t (w_rmsgs w' cid)
         = (if t < w_now w + sec CACHE_TTL_SECONDS then Some ms else None)) (\<lambda>_ _. False) w"
proof -
  have created: "\<not> (\<exists>m \<in> set ms. m_created m = None)" using assms(4) by blast
  have c: "calm (del_msgs cid w)" "calm (rpush_msgs cid ms (del_msgs cid w))"
    "calm (expire_msgs cid (rpush_msgs cid ms (del_msgs cid w)))"
    using assms(1) by (simp_all add: calm_def del_msgs_def rpush_msgs_def expire_msgs_def)
  show ?thesis
    unfolding cache_set_last_50_def if_not_P [OF created] using assms(1-3) c
    by (simp add: wp_simps)
      (simp add: del_msgs_def rpush_msgs_def expire_msgs_def expire_at_def live_ttl_def)
qed

end
