(* ===== verification/Conversation_Service.thy ===== *)
theory Conversation_Service
  imports Cache
begin

text \<open>
  \<open>app/services/conversation_service.py\<close>, with the event envelope of \<open>app/events/producers.py\<close> and
  the topic names of \<open>app/events/topics.py\<close>. The values the code draws (a new UUIDv7, a UUIDv1 event
  id, the request's correlation id) are arguments.
\<close>

definition CHAT_MESSAGE_CREATED :: string where "CHAT_MESSAGE_CREATED = ''chat.message.created''"
definition CHAT_RESPONSE_CHUNK :: string where "CHAT_RESPONSE_CHUNK = ''chat.response.chunk''"
definition CHAT_RESPONSE_GENERATED :: string where "CHAT_RESPONSE_GENERATED = ''chat.response.generated''"
definition CONVERSATION_CREATED :: string where "CONVERSATION_CREATED = ''conversation.created''"
definition CONVERSATION_UPDATED :: string where "CONVERSATION_UPDATED = ''conversation.updated''"
definition CONVERSATION_DELETED :: string where "CONVERSATION_DELETED = ''conversation.deleted''"
definition SUMMARY_GENERATED :: string where "SUMMARY_GENERATED = ''conversation.summary.generated''"
definition TITLE_GENERATED :: string where "TITLE_GENERATED = ''conversation.title.generated''"
definition CHAT_DLQ :: string where "CHAT_DLQ = ''chat.message.dlq''"

lemmas topic_defs = CHAT_MESSAGE_CREATED_def CHAT_RESPONSE_CHUNK_def CHAT_RESPONSE_GENERATED_def
  CONVERSATION_CREATED_def CONVERSATION_UPDATED_def CONVERSATION_DELETED_def SUMMARY_GENERATED_def
  TITLE_GENERATED_def CHAT_DLQ_def

definition opt_uuid :: "uuid option \<Rightarrow> json" where
  "opt_uuid u = (case u of None \<Rightarrow> JNull | Some x \<Rightarrow> JStr (uuid_str x))"

definition build_event_envelope ::
  "uuid \<Rightarrow> int \<Rightarrow> string \<Rightarrow> json \<Rightarrow> int \<Rightarrow> string option \<Rightarrow> string \<Rightarrow> json" where
  "build_event_envelope event_id now event_type payload version causation correlation =
     JObj [(''event_id'', JStr (uuid_str event_id)),
           (''event_type'', JStr event_type),
           (''event_version'', JInt version),
           (''occurred_at'', JStr (iso_utc now)),
           (''source_service'', JStr ''conversation-service''),
           (''correlation_id'', JStr correlation),
           (''causation_id'', JStr (case causation of
              None \<Rightarrow> uuid_str event_id
            | Some c \<Rightarrow> if c = [] then uuid_str event_id else c)),
           (''payload'', payload)]"

text \<open>An envelope under the event id of its outbox row.\<close>

definition conv_envelope :: "uuid \<Rightarrow> uuid \<Rightarrow> int \<Rightarrow> string \<Rightarrow> string \<Rightarrow> json \<Rightarrow> json" where
  "conv_envelope fresh event_id now corr event_type payload =
     jset ''event_id'' (JStr (uuid_str event_id))
       (build_event_envelope fresh now event_type payload 1 (Some (uuid_str event_id)) corr)"

section \<open>Operations\<close>

definition conv_service_get :: "uuid \<Rightarrow> (world, conversation option) prog" where
  "conv_service_get cid =
     bnd (cache_get_conversation cid) (\<lambda>hit. case hit of
       Some c \<Rightarrow> ret (Some c)
     | None \<Rightarrow>
         bnd (conv_get cid) (\<lambda>found. case found of
           None \<Rightarrow> ret None
         | Some c \<Rightarrow> bnd (cache_set_conversation c) (\<lambda>_. ret (Some c))))"

text \<open>
  The branch point: a given message must be one of the parent's; otherwise the parent's newest message
  is the boundary.
\<close>

definition branch_point :: "uuid \<Rightarrow> uuid option \<Rightarrow> (world, uuid option) prog" where
  "branch_point pid branch = (case branch of
     Some b \<Rightarrow>
       bnd (msg_get pid b) (\<lambda>m. case m of
         None \<Rightarrow> raise (ValueError ''branch_message_id is not a message of the parent conversation.'')
       | Some _ \<Rightarrow> ret (Some b))
   | None \<Rightarrow>
       bnd (msg_history pid 1 None) (\<lambda>latest.
         ret (case latest of [] \<Rightarrow> None | m # _ \<Rightarrow> Some (m_id m))))"

text \<open>
  The checks on a parent. \<open>with_repo\<close> says whether a message repository was passed; without one the
  given branch point is kept unchecked.
\<close>

definition check_parent ::
  "uuid \<Rightarrow> uuid option \<Rightarrow> uuid option \<Rightarrow> bool \<Rightarrow> (world, uuid option) prog" where
  "check_parent user parent branch with_repo = (case parent of
     None \<Rightarrow> ret None
   | Some pid \<Rightarrow>
       bnd (conv_service_get pid) (\<lambda>found. case found of
         None \<Rightarrow> raise (LookupError ''Parent conversation not found.'')
       | Some p \<Rightarrow>
           if cv_status p \<noteq> ACTIVE then raise (ValueError ''Parent conversation is not active.'')
           else if cv_user p \<noteq> user then raise (PermissionError ''Access to parent conversation denied.'')
           else if with_repo then branch_point pid branch
           else ret branch))"

definition conv_service_create ::
  "uuid \<Rightarrow> uuid \<Rightarrow> uuid \<Rightarrow> string \<Rightarrow> uuid \<Rightarrow> string \<Rightarrow> uuid option \<Rightarrow> uuid option \<Rightarrow> bool
   \<Rightarrow> (world, conversation) prog" where
  "conv_service_create new_id event_id fresh corr user title parent branch with_repo =
     bnd (check_parent user parent branch with_repo) (\<lambda>bp.
     bnd (getting w_now) (\<lambda>now.
     bnd (conv_create_with_outbox new_id user title ''active'' event_id CONVERSATION_CREATED
            (conv_envelope fresh event_id now corr CONVERSATION_CREATED
              (JObj [(''conversation_id'', JStr (uuid_str new_id)),
                     (''user_id'', JStr (uuid_str user)),
                     (''title'', JStr title),
                     (''status'', JStr ''ACTIVE''),
                     (''parent_conversation_id'', opt_uuid parent),
                     (''branch_message_id'', opt_uuid bp),
                     (''created_at'', JStr (iso_utc now))]))
            parent bp) (\<lambda>conv.
     bnd (cache_set_conversation conv) (\<lambda>_. ret conv))))"

definition status_payload :: "uuid \<Rightarrow> uuid \<Rightarrow> string \<Rightarrow> string \<Rightarrow> json" where
  "status_payload cid user title status =
     JObj [(''conversation_id'', JStr (uuid_str cid)), (''user_id'', JStr (uuid_str user)),
           (''title'', JStr title), (''status'', JStr status)]"

definition conv_service_rename ::
  "uuid \<Rightarrow> uuid \<Rightarrow> string \<Rightarrow> uuid \<Rightarrow> string \<Rightarrow> (world, conversation option) prog" where
  "conv_service_rename event_id fresh corr cid new_title =
     bnd (conv_service_get cid) (\<lambda>found. case found of
       None \<Rightarrow> ret None
     | Some conv \<Rightarrow>
         bnd (getting w_now) (\<lambda>now.
         bnd (conv_update_with_outbox cid new_title (conv_status_value (cv_status conv)) event_id
                CONVERSATION_UPDATED
                (conv_envelope fresh event_id now corr CONVERSATION_UPDATED
                  (status_payload cid (cv_user conv) new_title (conv_status_value (cv_status conv)))))
           (\<lambda>upd. case upd of
              None \<Rightarrow> ret None
            | Some c \<Rightarrow> bnd (cache_set_conversation c) (\<lambda>_. ret (Some c)))))"

definition conv_service_archive ::
  "uuid \<Rightarrow> uuid \<Rightarrow> string \<Rightarrow> uuid \<Rightarrow> (world, conversation option) prog" where
  "conv_service_archive event_id fresh corr cid =
     bnd (conv_service_get cid) (\<lambda>found. case found of
       None \<Rightarrow> ret None
     | Some conv \<Rightarrow>
         bnd (getting w_now) (\<lambda>now.
         bnd (conv_update_with_outbox cid (cv_title conv) ''archived'' event_id CONVERSATION_UPDATED
                (conv_envelope fresh event_id now corr CONVERSATION_UPDATED
                  (status_payload cid (cv_user conv) (cv_title conv) ''archived'')))
           (\<lambda>upd. case upd of
              None \<Rightarrow> ret None
            | Some c \<Rightarrow> bnd (cache_set_conversation c) (\<lambda>_. ret (Some c)))))"

definition conv_service_delete ::
  "uuid \<Rightarrow> uuid \<Rightarrow> string \<Rightarrow> uuid \<Rightarrow> (world, bool) prog" where
  "conv_service_delete event_id fresh corr cid =
     bnd (conv_service_get cid) (\<lambda>found. case found of
       None \<Rightarrow> ret False
     | Some conv \<Rightarrow>
         bnd (getting w_now) (\<lambda>now.
         bnd (conv_delete_with_outbox cid event_id CONVERSATION_DELETED
                (conv_envelope fresh event_id now corr CONVERSATION_DELETED
                  (status_payload cid (cv_user conv) (cv_title conv) ''deleted'')))
           (\<lambda>ok. if ok then bnd (cache_delete_conversation cid) (\<lambda>_. ret True) else ret False)))"

definition conv_service_list :: "uuid \<Rightarrow> nat \<Rightarrow> int option \<Rightarrow> (world, conversation list) prog" where
  "conv_service_list user limit cursor = conv_list user limit cursor"

definition conv_service_set_title :: "uuid \<Rightarrow> string \<Rightarrow> (world, bool) prog" where
  "conv_service_set_title cid title =
     bnd (conv_update_title cid title) (\<lambda>ok.
       if ok then bnd (cache_delete_conversation cid) (\<lambda>_. ret True) else ret False)"

section \<open>Reading through the cache\<close>

text \<open>
  A read touches the cache only and returns either the cached entry, or the conversation of the stored
  row. \<open>conv_fresh\<close> says that a live cache entry is the stored conversation.
\<close>

lemma conv_service_get_frame:
  "wp (conv_service_get cid) (\<lambda>found w'. only_cache w w' \<and>
       (case found of None \<Rightarrow> w_conv w cid = None
        | Some c \<Rightarrow> live (w_now w) (w_rconv w cid) = Some c \<or>
            (\<exists>r. w_conv w cid = Some r \<and> conversation_of cid r = Inr c)))
     (\<lambda>_ w'. only_cache w w') w"
proof -
  let ?Q = "\<lambda>found w'. only_cache w w' \<and>
       (case found of None \<Rightarrow> w_conv w cid = None
        | Some c \<Rightarrow> live (w_now w) (w_rconv w cid) = Some c \<or>
            (\<exists>r. w_conv w cid = Some r \<and> conversation_of cid r = Inr c))"
  have lookup: "wp (cache_get_conversation cid) (\<lambda>hit w'. only_cache w w' \<and>
      (hit = None \<or> hit = live (w_now w) (w_rconv w cid))) (\<lambda>_ _. False) w"
    by (simp add: cache_get_conversation_def wp_simps split: fault.splits)
  have read: "wp (bnd (conv_get cid) (\<lambda>found. case found of None \<Rightarrow> ret None
        | Some c \<Rightarrow> bnd (cache_set_conversation c) (\<lambda>_. ret (Some c)))) ?Q (\<lambda>_ w'. only_cache w w') w'"
    if "only_cache w w'" for w'
    using that only_cache_trans [of w "pop w'"]
    by (auto simp: wp_simps only_cacheD split: option.splits sum.splits
        intro!: wp_cache_set_conversation)
  show ?thesis
    unfolding conv_service_get_def
    by (subst wp_bnd, rule wp_mono [OF lookup])
       (auto split: option.split simp: wp_ret intro: read)
qed

lemmas wp_conv_service_get = wp_mono [OF conv_service_get_frame]

definition conv_fresh :: "world \<Rightarrow> uuid \<Rightarrow> bool" where
  "conv_fresh w cid = (\<forall>c. live (w_now w) (w_rconv w cid) = Some c \<longrightarrow>
     (\<exists>r. w_conv w cid = Some r \<and> conversation_of cid r = Inr c))"

definition all_fresh :: "world \<Rightarrow> bool" where
  "all_fresh w = (\<forall>cid. conv_fresh w cid)"

text \<open>The conversation a row stands for, if its status is a known one.\<close>

definition conv_at :: "world \<Rightarrow> uuid \<Rightarrow> conversation option" where
  "conv_at w cid = (case w_conv w cid of None \<Rightarrow> None
     | Some r \<Rightarrow> (case conversation_of cid r of Inl _ \<Rightarrow> None | Inr c \<Rightarrow> Some c))"

lemma conv_at_cache: "only_cache w w' \<Longrightarrow> conv_at w' = conv_at w"
  by (simp add: conv_at_def fun_eq_iff only_cacheD)

lemma conv_fresh_at: "conv_fresh w cid \<longleftrightarrow> (\<forall>c. live (w_now w) (w_rconv w cid) = Some c \<longrightarrow> conv_at w cid = Some c)"
  by (auto simp: conv_fresh_def conv_at_def split: option.splits sum.splits)

lemma all_fresh_pop [simp]: "all_fresh (pop w) = all_fresh w"
  by (simp add: all_fresh_def conv_fresh_def)

text \<open>Reading keeps a fresh cache fresh, and then returns the stored conversation.\<close>

lemma all_fresh_hset:
  assumes "all_fresh w" and "conv_at w (cv_id c) = Some c"
  shows "all_fresh (hset_conv c w)"
  using assms by (auto simp: all_fresh_def conv_fresh_at conv_at_def hset_conv_def live_def split: option.splits)

lemma all_fresh_expire: "all_fresh w \<Longrightarrow> all_fresh (expire_conv cid w)"
  by (auto simp: all_fresh_def conv_fresh_at conv_at_def expire_conv_def split: if_splits)

lemma conv_at_set [simp]: "conv_at (hset_conv c w) = conv_at w" "conv_at (pop w) = conv_at w"
  by (simp_all add: conv_at_def hset_conv_def fun_eq_iff)

lemma wp_cache_set_fresh:
  assumes "all_fresh w" and "conv_at w (cv_id c) = Some c"
  shows "wp (cache_set_conversation c) (\<lambda>_ w'. only_cache w w' \<and> all_fresh w') (\<lambda>_ _. False) w"
  using assms by (simp add: cache_set_conversation_def wp_simps all_fresh_hset all_fresh_expire split: fault.split)

lemma conv_service_get_fresh:
  assumes "all_fresh w"
  shows "wp (conv_service_get cid)
     (\<lambda>found w'. only_cache w w' \<and> all_fresh w' \<and> found = conv_at w cid \<and> (found = None \<longrightarrow> w_conv w cid = None))
     (\<lambda>_ w'. only_cache w w' \<and> all_fresh w') w"
proof -
  let ?Q = "\<lambda>found w'. only_cache w w' \<and> all_fresh w' \<and> found = conv_at w cid \<and> (found = None \<longrightarrow> w_conv w cid = None)"
    and ?E = "\<lambda>_ w'. only_cache w w' \<and> all_fresh w'"
  have lookup: "wp (cache_get_conversation cid) (\<lambda>hit w'. only_cache w w' \<and> all_fresh w' \<and>
      (hit = None \<or> hit = live (w_now w) (w_rconv w cid))) (\<lambda>_ _. False) w"
    using assms by (simp add: cache_get_conversation_def wp_simps split: fault.splits)
  have store: "wp (cache_set_conversation c) (\<lambda>_ w'. only_cache w w' \<and> all_fresh w') (\<lambda>_ _. False) (pop w1)"
    if "only_cache w w1" "all_fresh w1" "w_conv w cid = Some r" "conversation_of cid r = Inr c" for w1 r c
  proof -
    have "conv_at (pop w1) (cv_id c) = Some c"
      using that conversation_of_user [OF that(4)] by (simp add: conv_at_cache [OF that(1)]) (simp add: conv_at_def)
    then have "wp (cache_set_conversation c) (\<lambda>_ w'. only_cache (pop w1) w' \<and> all_fresh w') (\<lambda>_ _. False) (pop w1)"
      using that(2) by (intro wp_cache_set_fresh) simp_all
    then show ?thesis
      by (rule wp_mono) (use that(1) only_cache_trans [of w "pop w1"] in auto)
  qed
  have read: "wp (bnd (conv_get cid) (\<lambda>found. case found of None \<Rightarrow> ret None
        | Some c \<Rightarrow> bnd (cache_set_conversation c) (\<lambda>_. ret (Some c)))) ?Q ?E w1"
    if "only_cache w w1" "all_fresh w1" for w1
    using that by (auto simp: wp_simps only_cacheD conv_at_def split: option.splits sum.splits
        intro!: wp_mono [OF store])
  have hit: "live (w_now w) (w_rconv w cid) = Some c \<Longrightarrow> conv_at w cid = Some c" for c
    using assms by (simp add: all_fresh_def conv_fresh_at)
  show ?thesis
    unfolding conv_service_get_def
    by (subst wp_bnd, rule wp_mono [OF lookup])
       (auto split: option.split simp: wp_ret hit intro: read)
qed

section \<open>Creating a conversation\<close>

text \<open>What the stored state must show for \<open>user\<close> to branch off \<open>parent\<close>, and the boundary to freeze.\<close>

definition parent_ok :: "world \<Rightarrow> uuid \<Rightarrow> uuid option \<Rightarrow> bool" where
  "parent_ok w user parent = (case parent of None \<Rightarrow> True
     | Some pid \<Rightarrow> (case w_conv w pid of
         None \<Rightarrow> False
       | Some r \<Rightarrow> cr_status r = ''active'' \<and> cr_user r = user))"

definition frozen_at :: "world \<Rightarrow> uuid option \<Rightarrow> uuid option \<Rightarrow> uuid option \<Rightarrow> bool" where
  "frozen_at w parent branch bp = (case parent of
     None \<Rightarrow> bp = None
   | Some pid \<Rightarrow> (case branch of
       Some b \<Rightarrow> bp = Some b \<and> msg_of w pid b \<noteq> None
     | None \<Rightarrow> (case w_msgs w pid of
         [] \<Rightarrow> bp = None
       | r # _ \<Rightarrow> bp = (if mr_status r = Some ''deleted'' then None else Some (mr_id r)))))"

definition new_conv_row :: "int \<Rightarrow> uuid \<Rightarrow> string \<Rightarrow> uuid option \<Rightarrow> uuid option \<Rightarrow> conv_row" where
  "new_conv_row now user title parent bp =
     \<lparr>cr_user = user, cr_title = title, cr_created = db_time now, cr_updated = db_time now,
      cr_status = ''active'', cr_parent = parent, cr_branch = bp\<rparr>"

text \<open>The three effects of the batch: conversation row, catalog row and outbox event.\<close>

definition staged :: "world \<Rightarrow> world \<Rightarrow> uuid \<Rightarrow> uuid \<Rightarrow> conv_row \<Rightarrow> bool" where
  "staged w w' new_id event_id r \<longleftrightarrow>
     w_conv w' = (w_conv w)(new_id \<mapsto> r) \<and>
     cat_of new_id r \<in> set (w_catalog w' (cr_user r)) \<and>
     (\<exists>ob \<in> set (w_outbox w' (bucket_of new_id)).
        ob_id ob = event_id \<and> ob_type ob = CONVERSATION_CREATED \<and> \<not> ob_published ob)"

definition untouched :: "world \<Rightarrow> world \<Rightarrow> bool" where
  "untouched w w' \<longleftrightarrow> w_conv w' = w_conv w \<and> w_catalog w' = w_catalog w \<and> w_outbox w' = w_outbox w"

lemma conversation_of_active:
  "conversation_of cid r = Inr c \<Longrightarrow> cv_status c = ACTIVE \<longleftrightarrow> cr_status r = ''active''"
  by (auto simp: conversation_of_def conv_status_of_def split: if_splits)

lemma upsert_has: "f r \<in> set (upsert lt key r f rs) \<or> (\<exists>x \<in> set rs. key x = key r \<and> f x \<in> set (upsert lt key r f rs))"
  by (induction rs) auto

lemma upsert_const_has [simp]: "r \<in> set (upsert lt key r (\<lambda>_. r) rs)"
  using upsert_has [of "\<lambda>_. r" r lt key rs] by auto

lemma msg_of_cache: "only_cache w w' \<Longrightarrow> msg_of w' = msg_of w"
  by (simp add: msg_of_def fun_eq_iff only_cacheD)

lemma wp_check_parent:
  assumes "\<And>pid. parent = Some pid \<Longrightarrow> conv_fresh w pid"
  shows "wp (check_parent user parent branch True)
     (\<lambda>bp w'. only_cache w w' \<and> parent_ok w user parent \<and> frozen_at w parent branch bp)
     (\<lambda>_ w'. only_cache w w') w"
proof (cases parent)
  case None
  then show ?thesis by (simp add: check_parent_def parent_ok_def frozen_at_def wp_simps)
next
  case (Some pid)
  let ?Q = "\<lambda>bp w'. only_cache w w' \<and> parent_ok w user parent \<and> frozen_at w parent branch bp"
  have boundary: "wp (branch_point pid branch) ?Q (\<lambda>_ w'. only_cache w w') w'"
    if cw: "only_cache w w'" and p: "parent_ok w user parent" for w'
  proof (cases branch)
    case None
    have head: "frozen_at w parent None (case ms of [] \<Rightarrow> None | m # _ \<Rightarrow> Some (m_id m))"
      if "history_rows pid (take (Suc 0) (w_msgs w pid)) = Inr ms" for ms
      using that Some by (cases "w_msgs w pid")
        (auto simp: frozen_at_def message_of_row_def split: if_splits option.splits)
    show ?thesis using cw p None
      by (auto simp: branch_point_def msg_history_def wp_simps only_cacheD split: fault.splits sum.splits intro: head)
  next
    case b: (Some b)
    show ?thesis using cw p Some b
      by (auto simp: branch_point_def msg_get_def wp_simps msg_of_cache frozen_at_def split: fault.splits option.splits)
  qed
  have ok: "parent_ok w user parent"
    if hit: "live (w_now w) (w_rconv w pid) = Some c \<or> (\<exists>r. w_conv w pid = Some r \<and> conversation_of pid r = Inr c)"
      and c: "cv_status c = ACTIVE" "cv_user c = user" for c
  proof -
    obtain r where r: "w_conv w pid = Some r" "conversation_of pid r = Inr c"
      using hit assms [OF Some] by (auto simp: conv_fresh_def)
    then show ?thesis using c Some conversation_of_active [OF r(2)] conversation_of_user [OF r(2)]
      by (simp add: parent_ok_def)
  qed
  have step: "wp (case found of
         None \<Rightarrow> raise (LookupError ''Parent conversation not found.'')
       | Some p \<Rightarrow>
           if cv_status p \<noteq> ACTIVE then raise (ValueError ''Parent conversation is not active.'')
           else if cv_user p \<noteq> user then raise (PermissionError ''Access to parent conversation denied.'')
           else if True then branch_point pid branch else ret branch) ?Q (\<lambda>_ w'. only_cache w w') w'"
    if cw: "only_cache w w'" and found: "case found of None \<Rightarrow> w_conv w pid = None
        | Some c \<Rightarrow> live (w_now w) (w_rconv w pid) = Some c \<or>
            (\<exists>r. w_conv w pid = Some r \<and> conversation_of pid r = Inr c)" for found w'
    using cw boundary [OF cw] ok found by (cases found) (simp_all add: wp_simps)
  show ?thesis
    unfolding check_parent_def Some option.case wp_bnd
    by (rule wp_mono [OF conv_service_get_frame [of pid w]])
       (use Some step in \<open>simp_all split del: if_split\<close>)
qed

definition create_staged ::
  "world \<Rightarrow> world \<Rightarrow> uuid \<Rightarrow> string \<Rightarrow> uuid option \<Rightarrow> uuid option \<Rightarrow> uuid \<Rightarrow> uuid \<Rightarrow> bool" where
  "create_staged w w' user title parent branch new_id event_id \<longleftrightarrow>
     (\<exists>bp. parent_ok w user parent \<and> frozen_at w parent branch bp \<and>
        staged w w' new_id event_id (new_conv_row (w_now w) user title parent bp))"

text \<open>
  Under every schedule of failures: a returned conversation is the stored one, with its catalog row
  and its event; whatever happens, the three were written together or not at all, and nothing is
  written when the caller may not branch off the parent.
\<close>

lemma wp_conv_service_create:
  assumes fresh: "\<And>pid. parent = Some pid \<Longrightarrow> conv_fresh w pid"
  shows "wp (conv_service_create new_id event_id fresh_id corr user title parent branch True)
     (\<lambda>c w'. \<exists>bp. parent_ok w user parent \<and> frozen_at w parent branch bp \<and>
        c = \<lparr>cv_id = new_id, cv_user = user, cv_title = title, cv_created = w_now w,
             cv_updated = w_now w, cv_status = ACTIVE, cv_parent = parent, cv_branch = bp\<rparr> \<and>
        staged w w' new_id event_id (new_conv_row (w_now w) user title parent bp))
     (\<lambda>_ w'. untouched w w' \<or> create_staged w w' user title parent branch new_id event_id) w"
proof -
  have put: "staged w w' new_id event_id (new_conv_row (w_now w) user title parent bp)"
    if "only_cache (put_outbox (bucket_of new_id) ob
          (put_cat user (cat_of new_id (new_conv_row (w_now w) user title parent bp))
            (put_conv new_id (Some (new_conv_row (w_now w) user title parent bp)) (pop w1)))) w'"
      and "only_cache w w1" and "ob_id ob = event_id" "ob_type ob = CONVERSATION_CREATED"
        "\<not> ob_published ob" for w1 w' ob bp
    unfolding staged_def using that
    by (auto simp: only_cacheD new_conv_row_def intro!: bexI [of _ ob])
  have lost: "create_staged w (put_outbox (bucket_of new_id) ob
          (put_cat user (cat_of new_id (new_conv_row (w_now w) user title parent a))
            (put_conv new_id (Some (new_conv_row (w_now w) user title parent a)) (pop w1))))
        user title parent branch new_id event_id"
    if "parent_ok w user parent" "frozen_at w parent branch a" "only_cache w w1" "ob_id ob = event_id"
      "ob_type ob = CONVERSATION_CREATED" "\<not> ob_published ob" for a w1 ob
    unfolding create_staged_def using that put [OF only_cache_refl] by blast
  have none: "untouched w w1" "untouched w (pop w1)" if "only_cache w w1" for w1
    using that by (simp_all add: untouched_def only_cacheD)
  show ?thesis
    unfolding conv_service_create_def wp_bnd
    by (rule wp_mono [OF wp_check_parent [OF fresh]])
      (auto simp: wp_simps conv_create_with_outbox_def conv_status_of_def only_cacheD none
        new_conv_row_def [symmetric] lost split: fault.split
        intro!: wp_cache_set_conversation put)
qed

text \<open>C4:
  Creating a conversation, under every pattern of failing calls and with a cache that is not stale for
  the parent: success returns exactly the new conversation; its row, its catalog row and its
  unpublished conversation.created event are all stored; a parent, if given, is active and owned by the
  caller, and the branch point is the given message of the parent or else the parent's newest message; no
  branch point is recorded when there is no message, or when none is given and the newest one is deleted.
  On every error the three writes have happened together or none has, and never for a parent the caller
  may not branch off.
\<close>

theorem create_conversation_atomic:
  assumes "\<And>pid. parent = Some pid \<Longrightarrow> conv_fresh w pid"
  shows "wp (conv_service_create new_id event_id fresh_id corr user title parent branch True)
     (\<lambda>c w'. \<exists>bp. parent_ok w user parent \<and> frozen_at w parent branch bp \<and>
        c = \<lparr>cv_id = new_id, cv_user = user, cv_title = title, cv_created = w_now w,
             cv_updated = w_now w, cv_status = ACTIVE, cv_parent = parent, cv_branch = bp\<rparr> \<and>
        staged w w' new_id event_id (new_conv_row (w_now w) user title parent bp))
     (\<lambda>_ w'. untouched w w' \<or> create_staged w w' user title parent branch new_id event_id) w"
  by (rule wp_conv_service_create [OF assms])

theorem create_conversation_atomic_witness:
  "wp (conv_service_create 9 31 32 ''req'' 3 ''branch'' (Some 5) None True)
     (\<lambda>c w'. cv_parent c = Some 5 \<and> cv_branch c = None \<and> w_conv w' 9 \<noteq> None)
     (\<lambda>_ w'. w_conv w' = (\<lambda>_. None)(5 \<mapsto> new_conv_row 0 3 ''root'' None None) \<or> w_conv w' 9 \<noteq> None)
     ((empty_world 1000)\<lparr>w_conv := (\<lambda>_. None)(5 \<mapsto> new_conv_row 0 3 ''root'' None None)\<rparr>)"
  by (rule wp_mono [OF create_conversation_atomic])
     (auto simp: conv_fresh_def empty_world_def staged_def untouched_def create_staged_def frozen_at_def)

text \<open>
  The exception: the newest row of the parent is looked at, and when it is soft-deleted the branch is stored without a branch
  point, however many messages lie below it; nothing is frozen then.
\<close>

theorem deleted_newest_freezes_nothing:
  assumes "conv_fresh w pid" and "w_msgs w pid = r # rs" and "mr_status r = Some ''deleted''"
  shows "wp (conv_service_create new_id event_id fresh_id corr user title (Some pid) None True) (\<lambda>c _. cv_branch c = None) (\<lambda>_ _. True) w"
  by (rule wp_mono [OF wp_conv_service_create]) (use assms in \<open>auto simp: frozen_at_def\<close>)

section \<open>Renaming, archiving and branch points\<close>

text \<open>With no faults and a cold cache, a rename followed by a read.\<close>

lemma wp_rename_then_get:
  assumes "calm w" "w_redis_on w" "w_conv w cid = Some r" "conversation_of cid r = Inr c"
    and "w_rconv w cid = None"
  shows "wp (bnd (conv_service_rename e f corr cid t) (\<lambda>_. conv_service_get cid))
     (\<lambda>found w'. found = Some (c\<lparr>cv_title := t, cv_updated := w_now w, cv_branch := None\<rparr>) \<and>
        w_conv w' cid = Some (r\<lparr>cr_title := t, cr_updated := db_time (w_now w)\<rparr>)) (\<lambda>_ _. False) w"
proof -
  have val: "conv_status_value (cv_status c) = cr_status r" and id: "cv_id c = cid"
    and st: "conv_status_of (cr_status r) = Some (cv_status c)"
    using assms(4) by (auto simp: conversation_of_def conv_status_of_def split: if_splits)
  have upd: "\<lparr>cv_id = cid, cv_user = cv_user c, cv_title = t, cv_created = cv_created c, cv_updated = w_now w,
      cv_status = cv_status c, cv_parent = cv_parent c, cv_branch = None\<rparr>
    = c\<lparr>cv_title := t, cv_updated := w_now w, cv_branch := None\<rparr>"
    using id by (cases c) simp
  have ttl: "0 < sec CACHE_TTL_SECONDS" by (simp add: CACHE_TTL_SECONDS_def sec_def)
  show ?thesis
    using assms ttl
    by (simp add: conv_service_rename_def conv_service_get_def cache_defs conv_update_with_outbox_def
        wp_simps st upd id val hset_conv_def expire_conv_def expire_at_def live_ttl_def move_conv_def
        put_conv_def drop_cat_def put_cat_def put_outbox_def)
qed

text \<open>
  The repository returns the renamed conversation without its branch point, and that copy is what the
  cache serves: as long as it lives, the branch is read as one without a recorded branch point.
\<close>

text \<open>
  Renaming a branch leaves the branch point in its row but drops it from the copy every reader gets: with
  no failing call and a cold cache, the read after the rename returns the conversation without a branch
  point, so the legacy boundary (creation time) is used for it until the cache entry expires.
\<close>

theorem rename_hides_branch_point:
  assumes "calm w" "w_redis_on w" "w_conv w cid = Some r" "conversation_of cid r = Inr c"
    and "w_rconv w cid = None" and "cr_branch r = Some b"
  shows "wp (bnd (conv_service_rename e f corr cid t) (\<lambda>_. conv_service_get cid))
     (\<lambda>found w'. (\<exists>r'. w_conv w' cid = Some r' \<and> cr_branch r' = Some b) \<and>
        (\<exists>c'. found = Some c' \<and> cv_title c' = t \<and> cv_branch c' = None)) (\<lambda>_ _. False) w"
  by (rule wp_mono [OF wp_rename_then_get [OF assms(1-5)]]) (auto simp: assms(6))

theorem rename_hides_branch_point_witness:
  "wp (bnd (conv_service_rename 21 22 ''req'' 9 ''new'') (\<lambda>_. conv_service_get 9))
     (\<lambda>found w'. (\<exists>r'. w_conv w' 9 = Some r' \<and> cr_branch r' = Some 77) \<and>
        (\<exists>c'. found = Some c' \<and> cv_title c' = ''new'' \<and> cv_branch c' = None)) (\<lambda>_ _. False)
     ((empty_world 1000)\<lparr>w_conv := (\<lambda>_. None)(9 \<mapsto> new_conv_row 0 3 ''old'' (Some 5) (Some 77))\<rparr>)"
  by (rule rename_hides_branch_point [where c = "\<lparr>cv_id = 9, cv_user = 3, cv_title = ''old'', cv_created = 0,
        cv_updated = 0, cv_status = ACTIVE, cv_parent = Some 5, cv_branch = Some 77\<rparr>"
        and r = "new_conv_row 0 3 ''old'' (Some 5) (Some 77)"])
     (simp_all add: empty_world_def calm_def new_conv_row_def conversation_of_def conv_status_of_def db_time_def)

text \<open>
  Archiving does not look at the current status: with no failing call and a cold cache, archiving a
  soft-deleted conversation turns it into an archived one, which the catalog lists again.
\<close>

theorem archive_revives_deleted:
  assumes "calm w" "w_redis_on w" "w_conv w cid = Some r" "cr_status r = ''deleted''"
    and "w_rconv w cid = None"
  shows "wp (conv_service_archive e f corr cid)
     (\<lambda>res w'. \<exists>c. res = Some c \<and> cv_status c = ARCHIVED \<and>
        w_conv w' cid = Some (r\<lparr>cr_updated := db_time (w_now w), cr_status := ''archived''\<rparr>))
     (\<lambda>_ _. False) w"
proof -
  have c: "conversation_of cid r = Inr \<lparr>cv_id = cid, cv_user = cr_user r, cv_title = cr_title r,
       cv_created = cr_created r, cv_updated = cr_updated r, cv_status = DELETED,
       cv_parent = cr_parent r, cv_branch = cr_branch r\<rparr>"
    using assms(4) by (simp add: conversation_of_def conv_status_of_def)
  show ?thesis
    using assms c
    by (simp add: conv_service_archive_def conv_service_get_def cache_defs conv_update_with_outbox_def
        wp_simps hset_conv_def expire_conv_def move_conv_def put_conv_def drop_cat_def put_cat_def
        put_outbox_def conv_status_of_def)
qed

theorem archive_revives_deleted_witness:
  "wp (conv_service_archive 21 22 ''req'' 9)
     (\<lambda>res w'. \<exists>c. res = Some c \<and> cv_status c = ARCHIVED \<and>
        w_conv w' 9 = Some ((new_conv_row 0 3 ''x'' None None)\<lparr>cr_status := ''deleted'',
           cr_updated := db_time 5000, cr_status := ''archived''\<rparr>))
     (\<lambda>_ _. False)
     ((empty_world 5000)\<lparr>w_conv := (\<lambda>_. None)(9 \<mapsto> (new_conv_row 0 3 ''x'' None None)\<lparr>cr_status := ''deleted''\<rparr>)\<rparr>)"
  using archive_revives_deleted [where r = "(new_conv_row 0 3 ''x'' None None)\<lparr>cr_status := ''deleted''\<rparr>"
      and w = "(empty_world 5000)\<lparr>w_conv := (\<lambda>_. None)(9 \<mapsto>
      (new_conv_row 0 3 ''x'' None None)\<lparr>cr_status := ''deleted''\<rparr>)\<rparr>" and cid = 9]
  by (simp add: empty_world_def calm_def)

end
