(* ===== verification/Branch_Context.thy ===== *)
theory Branch_Context
  imports Conversation_Service
begin

text \<open>
  \<open>app/services/branch_context_service.py\<close>: the chain of ancestors a branch inherits from, each with
  its boundary, and what is read of them. The walk is bounded by \<open>MAX_LINEAGE_DEPTH\<close>: \<open>room\<close> is the number
  of segments that may still be added, so the recursion is structural.
\<close>

definition MAX_LINEAGE_DEPTH :: nat where "MAX_LINEAGE_DEPTH = 25"
definition INHERITED_MAX_MESSAGES :: nat where "INHERITED_MAX_MESSAGES = 16"
definition INHERITED_MAX_MESSAGE_CHARS :: nat where "INHERITED_MAX_MESSAGE_CHARS = 2000"
definition INHERITED_MAX_CHARS :: int where "INHERITED_MAX_CHARS = 12000"
definition SCAN_PER_SEGMENT :: nat where "SCAN_PER_SEGMENT = 200"
definition MAX_INHERITED_DOCUMENTS :: nat where "MAX_INHERITED_DOCUMENTS = 50"

lemmas branch_limits = MAX_LINEAGE_DEPTH_def INHERITED_MAX_MESSAGES_def INHERITED_MAX_MESSAGE_CHARS_def
  INHERITED_MAX_CHARS_def SCAN_PER_SEGMENT_def MAX_INHERITED_DOCUMENTS_def

record segment =
  sg_conv :: uuid
  sg_title :: string
  sg_upto :: "uuid option"
  sg_time :: "int option"

record lineage =
  ln_segments :: "segment list"
  ln_truncated :: "string option"

definition message_text :: "message \<Rightarrow> string" where
  "message_text m = strip (case m_content m of None \<Rightarrow> [] | Some c \<Rightarrow> c)"

definition usable :: "message \<Rightarrow> bool" where
  "usable m \<longleftrightarrow> (m_sender m = Some ''user'' \<or> m_sender m = Some ''assistant'') \<and>
     m_status m = SENT \<and> message_text m \<noteq> []"

section \<open>The lineage\<close>

definition segment_of :: "uuid \<Rightarrow> conversation \<Rightarrow> conversation \<Rightarrow> segment" where
  "segment_of pid parent cur =
     \<lparr>sg_conv = pid, sg_title = cv_title parent, sg_upto = cv_branch cur,
      sg_time = (if cv_branch cur = None then Some (cv_created cur) else None)\<rparr>"

text \<open>The chain is built nearest ancestor first and reversed at the end; here each segment is put in front.\<close>

primrec lineage_loop ::
  "nat \<Rightarrow> uuid \<Rightarrow> uuid list \<Rightarrow> conversation \<Rightarrow> segment list \<Rightarrow> (world, segment list \<times> string option) prog" where
  "lineage_loop 0 user seen cur chain = (case cv_parent cur of
     None \<Rightarrow> ret (chain, None)
   | Some pid \<Rightarrow> ret (chain, Some ''max_depth''))"
| "lineage_loop (Suc room) user seen cur chain = (case cv_parent cur of
     None \<Rightarrow> ret (chain, None)
   | Some pid \<Rightarrow>
       if pid \<in> set seen then ret (chain, Some ''cycle'')
       else bnd (conv_service_get pid) (\<lambda>found. case found of
         None \<Rightarrow> ret (chain, Some ''missing_ancestor'')
       | Some parent \<Rightarrow>
           if cv_user parent \<noteq> user then ret (chain, Some ''inaccessible_ancestor'')
           else if cv_status parent = DELETED then ret (chain, Some ''deleted_ancestor'')
           else lineage_loop room user (pid # seen) parent (segment_of pid parent cur # chain)))"

definition get_lineage :: "conversation \<Rightarrow> (world, lineage) prog" where
  "get_lineage conv =
     bnd (lineage_loop MAX_LINEAGE_DEPTH (cv_user conv) [cv_id conv] conv []) (\<lambda>(segs, why).
       ret \<lparr>ln_segments = segs, ln_truncated = why\<rparr>)"

section \<open>The messages of a segment\<close>

definition segment_messages :: "segment \<Rightarrow> nat \<Rightarrow> (world, message list) prog" where
  "segment_messages seg limit =
     bnd (case sg_upto seg of
            Some b \<Rightarrow> msg_history_upto (sg_conv seg) b limit
          | None \<Rightarrow>
              bnd (msg_history (sg_conv seg) limit None) (\<lambda>rows.
                case sg_time seg of
                  None \<Rightarrow> ret rows
                | Some t \<Rightarrow>
                    if \<exists>m \<in> set rows. m_created m = None then raise TypeError
                    else ret (filter (\<lambda>m. the (m_created m) \<le> t) rows)))
       (\<lambda>rows. ret (filter usable rows))"

definition ancestor_refs :: "lineage \<Rightarrow> json" where
  "ancestor_refs ln = JList (List.map_filter (\<lambda>s. map_option (\<lambda>b.
     JObj [(''conversation_id'', JStr (uuid_str (sg_conv s))), (''upto_message_id'', JStr (uuid_str b))])
     (sg_upto s)) (ln_segments ln))"

record inherited =
  ih_role :: "string option"
  ih_content :: string
  ih_conv :: uuid
  ih_msg :: uuid

definition inherited_text :: "message \<Rightarrow> string" where
  "inherited_text m = take INHERITED_MAX_MESSAGE_CHARS (message_text m)"

text \<open>The inner loop: picked messages (newest picked in front), remaining characters, whether it is full.\<close>

fun pick_loop :: "message list \<Rightarrow> message list \<times> int \<Rightarrow> (message list \<times> int) \<times> bool" where
  "pick_loop [] st = (st, False)"
| "pick_loop (m # ms) (picked, chars) =
     (if m_id m \<in> m_id ` set picked then pick_loop ms (picked, chars)
      else (let n = int (length (inherited_text m)) in
        if INHERITED_MAX_MESSAGES \<le> length picked \<or> (picked \<noteq> [] \<and> chars - n < 0)
        then ((picked, chars), True)
        else pick_loop ms (m # picked, chars - n)))"

primrec pick_segments :: "segment list \<Rightarrow> message list \<times> int \<Rightarrow> (world, message list) prog" where
  "pick_segments [] st = ret (fst st)"
| "pick_segments (seg # segs) st =
     bnd (segment_messages seg (INHERITED_MAX_MESSAGES * 2)) (\<lambda>ms.
       let (st', full) = pick_loop ms st in
       if full then ret (fst st') else pick_segments segs st')"

definition inherited_of :: "message \<Rightarrow> inherited" where
  "inherited_of m = \<lparr>ih_role = m_sender m, ih_content = inherited_text m, ih_conv = m_conv m, ih_msg = m_id m\<rparr>"

definition inherited_history :: "conversation \<Rightarrow> lineage option \<Rightarrow> (world, inherited list) prog" where
  "inherited_history conv given =
     attempt
       (bnd (case given of Some ln \<Rightarrow> ret ln | None \<Rightarrow> get_lineage conv) (\<lambda>ln.
        bnd (pick_segments (rev (ln_segments ln)) ([], INHERITED_MAX_CHARS)) (\<lambda>picked.
        ret (map inherited_of picked))))
       (\<lambda>_. ret [])"

definition event_context :: "conversation \<Rightarrow> (world, inherited list \<times> json) prog" where
  "event_context conv =
     bnd (attempt (bnd (get_lineage conv) (\<lambda>ln. ret (Some ln))) (\<lambda>_. ret None)) (\<lambda>r. case r of
       None \<Rightarrow> ret ([], JList [])
     | Some ln \<Rightarrow> bnd (inherited_history conv (Some ln)) (\<lambda>items. ret (items, ancestor_refs ln)))"

section \<open>The context shown to the client\<close>

text \<open>A document with the segment and the message it came from.\<close>

fun add_files :: "segment \<Rightarrow> uuid \<Rightarrow> uuid list \<Rightarrow> (uuid \<times> uuid \<times> uuid) list \<Rightarrow> (uuid \<times> uuid \<times> uuid) list" where
  "add_files seg mid [] docs = docs"
| "add_files seg mid (f # fs) docs =
     (if f \<in> fst ` set docs \<or> MAX_INHERITED_DOCUMENTS \<le> length docs then add_files seg mid fs docs
      else add_files seg mid fs (docs @ [(f, sg_conv seg, mid)]))"

fun add_messages :: "segment \<Rightarrow> message list \<Rightarrow> (uuid \<times> uuid \<times> uuid) list \<Rightarrow> (uuid \<times> uuid \<times> uuid) list" where
  "add_messages seg [] docs = docs"
| "add_messages seg (m # ms) docs =
     (if m_sender m \<noteq> Some ''user'' then add_messages seg ms docs
      else add_messages seg ms (add_files seg (m_id m) (m_files m) docs))"

definition inherited_documents :: "segment list \<Rightarrow> (world, (uuid \<times> uuid \<times> uuid) list) prog" where
  "inherited_documents segs =
     fold_prog (\<lambda>seg docs.
       bnd (segment_messages seg SCAN_PER_SEGMENT) (\<lambda>ms. ret (add_messages seg (rev ms) docs))) segs []"

definition branch_context :: "conversation \<Rightarrow> (world, json) prog" where
  "branch_context conv =
     bnd (get_lineage conv) (\<lambda>ln.
     bnd (inherited_documents (ln_segments ln)) (\<lambda>docs.
     let titles = map_of (rev (map (\<lambda>s. (sg_conv s, sg_title s)) (ln_segments ln))) in
     ret (JObj [
       (''conversation_id'', JStr (uuid_str (cv_id conv))),
       (''branch_message_id'', opt_uuid (cv_branch conv)),
       (''lineage'', JList (map (\<lambda>s. JObj [
          (''conversation_id'', JStr (uuid_str (sg_conv s))), (''title'', JStr (sg_title s)),
          (''upto_message_id'', opt_uuid (sg_upto s))]) (ln_segments ln))),
       (''truncated'', opt_str (ln_truncated ln)),
       (''documents'', JList (map (\<lambda>(f, c, m). JObj [
          (''document_id'', JStr (uuid_str f)), (''source_conversation_id'', JStr (uuid_str c)),
          (''source_title'', JStr (case titles c of None \<Rightarrow> [] | Some t \<Rightarrow> t)),
          (''source_message_id'', JStr (uuid_str m))]) docs))])))"

section \<open>The lineage is the chain of the caller's own ancestors\<close>

text \<open>
  \<open>linked w user c ls\<close>: \<open>ls\<close> (nearest first) follows the parent links from \<open>c\<close> over stored, not deleted
  conversations of \<open>user\<close>, each segment carrying the branch point of the conversation below it.
\<close>

fun linked :: "world \<Rightarrow> uuid \<Rightarrow> conversation \<Rightarrow> segment list \<Rightarrow> bool" where
  "linked w user c [] = True"
| "linked w user c (s # ls) =
     (cv_parent c = Some (sg_conv s) \<and> sg_upto s = cv_branch c \<and>
      sg_time s = (if cv_branch c = None then Some (cv_created c) else None) \<and>
      (case conv_at w (sg_conv s) of
         None \<Rightarrow> False
       | Some p \<Rightarrow> cv_user p = user \<and> cv_status p \<noteq> DELETED \<and> sg_title s = cv_title p \<and> linked w user p ls))"

text \<open>The last conversation of the chain.\<close>

fun chain_end :: "world \<Rightarrow> conversation \<Rightarrow> segment list \<Rightarrow> conversation" where
  "chain_end w c [] = c"
| "chain_end w c (s # ls) = (case conv_at w (sg_conv s) of None \<Rightarrow> c | Some p \<Rightarrow> chain_end w p ls)"

definition lineage_post ::
  "world \<Rightarrow> nat \<Rightarrow> uuid \<Rightarrow> uuid list \<Rightarrow> conversation \<Rightarrow> segment list \<Rightarrow> segment list \<times> string option \<Rightarrow> bool" where
  "lineage_post w room user seen cur chain res \<longleftrightarrow>
     (\<exists>ls. fst res = rev ls @ chain \<and> length ls \<le> room \<and> distinct (map sg_conv ls) \<and>
        sg_conv ` set ls \<inter> set seen = {} \<and> linked w user cur ls \<and>
        (snd res = None \<longleftrightarrow> cv_parent (chain_end w cur ls) = None))"

lemma lineage_post_stop:
  "why = None \<longleftrightarrow> cv_parent cur = None \<Longrightarrow> lineage_post w room user seen cur chain (chain, why)"
  unfolding lineage_post_def by (rule exI [of _ "[]"]) auto

lemma lineage_post_step:
  assumes "lineage_post w room user (pid # seen) p (segment_of pid p cur # chain) res"
    and "cv_parent cur = Some pid"
    and "conv_at w pid = Some p" "cv_user p = user" "cv_status p \<noteq> DELETED"
    and "pid \<notin> set seen"
  shows "lineage_post w (Suc room) user seen cur chain res"
proof -
  obtain ls where "fst res = rev ls @ segment_of pid p cur # chain" "length ls \<le> room" "distinct (map sg_conv ls)"
      "sg_conv ` set ls \<inter> set (pid # seen) = {}" "linked w user p ls"
      "snd res = None \<longleftrightarrow> cv_parent (chain_end w p ls) = None"
    using assms(1) by (auto simp: lineage_post_def)
  then show ?thesis unfolding lineage_post_def using assms(2-)
    by (intro exI [of _ "segment_of pid p cur # ls"]) (auto simp: segment_of_def)
qed

lemma wp_lineage_loop:
  assumes "all_fresh w"
  shows "wp (lineage_loop room user seen cur chain)
     (\<lambda>res w'. only_cache w w' \<and> all_fresh w' \<and> lineage_post w room user seen cur chain res)
     (\<lambda>_ w'. only_cache w w' \<and> all_fresh w') w"
  using assms
proof (induction room arbitrary: w seen cur chain)
  case 0
  then show ?case by (auto simp: wp_simps split: option.splits intro!: lineage_post_stop)
next
  case (Suc room)
  show ?case
  proof (cases "cv_parent cur")
    case None
    then show ?thesis using Suc.prems by (auto simp: wp_simps intro!: lineage_post_stop)
  next
    case (Some pid)
    show ?thesis
    proof (cases "pid \<in> set seen")
      case True
      then show ?thesis using Suc.prems Some by (auto simp: wp_simps intro!: lineage_post_stop)
    next
      case False
      let ?Q = "\<lambda>res w'. only_cache w w' \<and> all_fresh w' \<and> lineage_post w (Suc room) user seen cur chain res"
        and ?E = "\<lambda>_ w'. only_cache w w' \<and> all_fresh w'"
      have rest: "wp (lineage_loop room user (pid # seen) p (segment_of pid p cur # chain)) ?Q ?E w1"
        if w1: "only_cache w w1" "all_fresh w1" and p: "conv_at w pid = Some p" "cv_user p = user" "cv_status p \<noteq> DELETED"
        for w1 p
      proof (rule wp_mono [OF Suc.IH [OF w1(2)]])
        show "?Q res w'" if "only_cache w1 w' \<and> all_fresh w' \<and>
            lineage_post w1 room user (pid # seen) p (segment_of pid p cur # chain) res" for res w'
        proof -
          have same: "conv_at w1 = conv_at w" by (rule conv_at_cache [OF w1(1)])
          have linked: "linked w1 u c ls = linked w u c ls" and tip: "chain_end w1 c ls = chain_end w c ls" for u c ls
            by (induction ls arbitrary: c) (auto simp: same split: option.split)
          have "lineage_post w room user (pid # seen) p (segment_of pid p cur # chain) res"
            using that by (simp add: lineage_post_def linked tip)
          then have "lineage_post w (Suc room) user seen cur chain res"
            by (rule lineage_post_step) (use Some p False in simp_all)
          then show ?thesis using that only_cache_trans [OF w1(1)] by blast
        qed
        show "?E e w'" if "only_cache w1 w' \<and> all_fresh w'" for e w'
          using that only_cache_trans [OF w1(1)] by blast
      qed
      have step: "wp (case found of
           None \<Rightarrow> ret (chain, Some ''missing_ancestor'')
         | Some parent \<Rightarrow>
             if cv_user parent \<noteq> user then ret (chain, Some ''inaccessible_ancestor'')
             else if cv_status parent = DELETED then ret (chain, Some ''deleted_ancestor'')
             else lineage_loop room user (pid # seen) parent (segment_of pid parent cur # chain)) ?Q ?E w1"
        if "only_cache w w1" "all_fresh w1" "found = conv_at w pid" for found w1
      proof (cases "\<exists>p. found = Some p \<and> cv_user p = user \<and> cv_status p \<noteq> DELETED")
        case True
        then show ?thesis using that rest by auto
      next
        case no: False
        have stop: "lineage_post w (Suc room) user seen cur chain (chain, Some why)" for why
          by (rule lineage_post_stop) (simp add: Some)
        show ?thesis
        proof (cases found)
          case None
          then show ?thesis using that by (simp add: wp_ret stop)
        next
          case p: (Some p)
          then show ?thesis using that no by (cases "cv_user p = user") (simp_all add: wp_ret stop)
        qed
      qed
      show ?thesis
        unfolding lineage_loop.simps Some option.case if_not_P [OF False] wp_bnd
        by (rule wp_mono [OF conv_service_get_fresh [OF Suc.prems]]) (use step in blast)+
    qed
  qed
qed

text \<open>What \<open>lineage\<close> returns.\<close>

definition lineage_ok :: "world \<Rightarrow> conversation \<Rightarrow> lineage \<Rightarrow> bool" where
  "lineage_ok w conv ln \<longleftrightarrow>
     length (ln_segments ln) \<le> MAX_LINEAGE_DEPTH \<and> distinct (cv_id conv # map sg_conv (ln_segments ln)) \<and>
     linked w (cv_user conv) conv (rev (ln_segments ln)) \<and>
     (ln_truncated ln = None \<longleftrightarrow> cv_parent (chain_end w conv (rev (ln_segments ln))) = None)"

lemma wp_get_lineage:
  assumes "all_fresh w"
  shows "wp (get_lineage conv) (\<lambda>ln w'. only_cache w w' \<and> all_fresh w' \<and> lineage_ok w conv ln)
     (\<lambda>_ w'. only_cache w w' \<and> all_fresh w') w"
  unfolding get_lineage_def wp_bnd
  by (rule wp_mono [OF wp_lineage_loop [OF assms]])
     (auto simp: wp_simps lineage_post_def lineage_ok_def rev_map [symmetric])

section \<open>What is inherited\<close>

text \<open>\<open>m\<close> is a finished user or assistant message of the segment's conversation within its boundary.\<close>

definition in_scope :: "world \<Rightarrow> segment \<Rightarrow> message \<Rightarrow> bool" where
  "in_scope w s m \<longleftrightarrow> usable m \<and> m_conv m = sg_conv s \<and>
     (\<exists>r \<in> set (w_msgs w (sg_conv s)). mr_id r = m_id m \<and> mr_status r = Some ''sent'' \<and>
        mr_sender r = m_sender m \<and> mr_content r = m_content m) \<and>
     (case sg_upto s of
        Some b \<Rightarrow> ckey (m_id m) \<le> ckey b
      | None \<Rightarrow> (case sg_time s of None \<Rightarrow> True | Some t \<Rightarrow> (\<exists>c \<le> t. m_created m = Some c)))"

lemma status_sent: "status_of s = Some SENT \<longleftrightarrow> s = Some ''sent''"
  by (simp add: status_of_def)

lemma upto_rows_row:
  "m \<in> set (upto_rows cid rs) \<Longrightarrow> \<exists>r \<in> set rs. status_of (mr_status r) = Some (m_status m) \<and>
     m = message_of_row cid r (m_status m)"
  by (auto simp: upto_rows_def List.map_filter_def message_of_row_def split: option.splits)

lemma history_rows_row:
  "history_rows cid rs = Inr ms \<Longrightarrow> m \<in> set ms \<Longrightarrow> \<exists>r \<in> set rs. status_of (mr_status r) = Some (m_status m) \<and>
     m = message_of_row cid r (m_status m)"
  by (drule history_rows_not_deleted, assumption) (auto simp: message_of_row_def)

lemma in_scope_row:
  assumes "m = message_of_row (sg_conv s) r (m_status m)" "status_of (mr_status r) = Some (m_status m)"
    and "r \<in> set (w_msgs w (sg_conv s))" "usable m"
    and "case sg_upto s of Some b \<Rightarrow> ckey (m_id m) \<le> ckey b
      | None \<Rightarrow> (case sg_time s of None \<Rightarrow> True | Some t \<Rightarrow> (\<exists>c \<le> t. m_created m = Some c))"
  shows "in_scope w s m"
proof -
  have m: "m_conv m = sg_conv s" "m_id m = mr_id r" "m_sender m = mr_sender r" "m_content m = mr_content r"
    by (subst assms(1), simp add: message_of_row_def)+
  have "m_status m = SENT" using assms(4) by (simp add: usable_def)
  then have "mr_status r = Some ''sent''" using assms(2) by (simp add: status_sent)
  then show ?thesis unfolding in_scope_def using m assms(3-5) by (auto intro!: bexI [of _ r])
qed

lemma wp_segment_messages:
  "wp (segment_messages s n) (\<lambda>ms w'. only_cache w w' \<and> (\<forall>m \<in> set ms. in_scope w s m))
     (\<lambda>_ w'. only_cache w w') w"
proof (cases "sg_upto s")
  case (Some b)
  have "in_scope w s m" if m: "m \<in> set (upto_rows (sg_conv s)
      (take n (filter (\<lambda>r. ckey (mr_id r) \<le> ckey b) (w_msgs w (sg_conv s)))))" and u: "usable m" for m
  proof -
    obtain r where r: "r \<in> set (take n (filter (\<lambda>r. ckey (mr_id r) \<le> ckey b) (w_msgs w (sg_conv s))))"
      "status_of (mr_status r) = Some (m_status m)" "m = message_of_row (sg_conv s) r (m_status m)"
      using upto_rows_row [OF m] by blast
    have "m_id m = mr_id r" by (subst r(3)) (simp add: message_of_row_def)
    then show ?thesis using set_takeD [OF r(1)] r(2,3) u Some by (auto intro!: in_scope_row)
  qed
  then show ?thesis
    using Some by (auto simp: segment_messages_def msg_history_upto_def wp_simps split: fault.split)
next
  case None
  have "in_scope w s m" if "history_rows (sg_conv s) (take n (w_msgs w (sg_conv s))) = Inr ms" "m \<in> set ms"
    "usable m" "case sg_time s of None \<Rightarrow> True | Some t \<Rightarrow> (\<exists>c \<le> t. m_created m = Some c)" for m ms
    using history_rows_row [OF that(1,2)] that(3,4) None by (auto intro!: in_scope_row dest: set_takeD)
  then show ?thesis
    using None
    by (auto simp: segment_messages_def msg_history_def wp_simps split: fault.split sum.split option.split)
qed

definition picks_ok :: "(message \<Rightarrow> bool) \<Rightarrow> message list \<times> int \<Rightarrow> bool" where
  "picks_ok A st \<longleftrightarrow> (case st of (picked, chars) \<Rightarrow>
     distinct (map m_id picked) \<and> length picked \<le> INHERITED_MAX_MESSAGES \<and> 0 \<le> chars \<and>
     int (sum_list (map (\<lambda>m. length (inherited_text m)) picked)) + chars = INHERITED_MAX_CHARS \<and>
     (\<forall>m \<in> set picked. A m))"

lemma inherited_text_length: "length (inherited_text m) \<le> 2000"
  by (simp add: inherited_text_def branch_limits)

lemma pick_loop_inv:
  "picks_ok A st \<Longrightarrow> \<forall>m \<in> set ms. A m \<Longrightarrow> picks_ok A (fst (pick_loop ms st))"
proof (induction ms st rule: pick_loop.induct)
  case (2 m ms picked chars)
  let ?n = "int (length (inherited_text m))"
  show ?case
  proof (cases "m_id m \<in> m_id ` set picked \<or> INHERITED_MAX_MESSAGES \<le> length picked \<or> (picked \<noteq> [] \<and> chars - ?n < 0)")
    case True
    then show ?thesis using 2 by (auto simp: Let_def)
  next
    case False
    then have room: "m_id m \<notin> m_id ` set picked" "length picked < INHERITED_MAX_MESSAGES"
      "picked = [] \<or> 0 \<le> chars - ?n" by auto
    have "0 \<le> chars - ?n"
    proof (cases "picked = []")
      case True
      then have "chars = INHERITED_MAX_CHARS" using 2(3) by (simp add: picks_ok_def)
      then show ?thesis using inherited_text_length [of m] by (simp add: branch_limits)
    qed (use room in simp)
    then have "picks_ok A (m # picked, chars - ?n)" using 2(3,4) room by (simp add: picks_ok_def)
    then have "picks_ok A (fst (pick_loop ms (m # picked, chars - ?n)))" using 2(2,4) False by simp
    then show ?thesis using False by (auto simp: Let_def)
  qed
qed simp

lemma picks_ok_mono: "picks_ok A st \<Longrightarrow> (\<And>m. A m \<Longrightarrow> B m) \<Longrightarrow> picks_ok B st"
  by (auto simp: picks_ok_def)

lemma wp_pick_segments:
  assumes "picks_ok (\<lambda>m. \<exists>s \<in> S. in_scope w s m) st" and "set segs \<subseteq> S"
  shows "wp (pick_segments segs st)
     (\<lambda>picked w'. only_cache w w' \<and> (\<exists>chars. picks_ok (\<lambda>m. \<exists>s \<in> S. in_scope w s m) (picked, chars)))
     (\<lambda>_ w'. only_cache w w') w"
  using assms
proof (induction segs arbitrary: w st)
  case Nil
  then show ?case by (cases st) (auto simp: wp_simps)
next
  case (Cons s segs)
  let ?A = "\<lambda>w m. \<exists>s \<in> S. in_scope w s m"
  let ?Q = "\<lambda>picked w'. only_cache w w' \<and> (\<exists>chars. picks_ok (?A w) (picked, chars))"
  have step: "wp (let (st', full) = pick_loop ms st in if full then ret (fst st') else pick_segments segs st')
      ?Q (\<lambda>_ w'. only_cache w w') w1"
    if cw: "only_cache w w1" and ms: "\<forall>m \<in> set ms. in_scope w s m" for ms w1
  proof -
    obtain st' full where pl: "pick_loop ms st = (st', full)" by (cases "pick_loop ms st")
    have ok: "picks_ok (?A w) st'"
      using pick_loop_inv [OF Cons.prems(1), of ms] ms Cons.prems(2) by (auto simp: pl)
    have same: "in_scope w1 = in_scope w" by (simp add: in_scope_def fun_eq_iff only_cacheD [OF cw])
    have "wp (pick_segments segs st') ?Q (\<lambda>_ w'. only_cache w w') w1"
      by (rule wp_mono [OF Cons.IH]) (use ok Cons.prems(2) same only_cache_trans [OF cw] in auto)
    then show ?thesis using cw ok by (cases st') (auto simp: pl wp_simps)
  qed
  show ?case
    unfolding pick_segments.simps wp_bnd
    by (rule wp_mono [OF wp_segment_messages]) (use step in auto)
qed

text \<open>The bounds and the scope of an inherited history.\<close>

definition inherited_ok :: "world \<Rightarrow> segment list \<Rightarrow> inherited list \<Rightarrow> bool" where
  "inherited_ok w segs items \<longleftrightarrow>
     length items \<le> 16 \<and> distinct (map ih_msg items) \<and>
     sum_list (map (\<lambda>i. length (ih_content i)) items) \<le> 12000 \<and>
     (\<forall>i \<in> set items. length (ih_content i) \<le> 2000 \<and>
        (\<exists>s \<in> set segs. \<exists>m. in_scope w s m \<and> i = inherited_of m))"

lemma inherited_of_simps [simp]: "ih_msg (inherited_of m) = m_id m" "ih_content (inherited_of m) = inherited_text m"
  by (simp_all add: inherited_of_def)

lemma picks_inherited:
  assumes "picks_ok (\<lambda>m. \<exists>s \<in> set segs. in_scope w s m) (picked, chars)"
  shows "inherited_ok w segs (map inherited_of picked)"
proof -
  have "int (sum_list (map (\<lambda>m. length (inherited_text m)) picked)) \<le> 12000"
    using assms by (simp add: picks_ok_def branch_limits)
  then show ?thesis
    using assms inherited_text_length
    by (auto simp: inherited_ok_def picks_ok_def branch_limits comp_def) blast
qed

lemma wp_inherited_history:
  "wp (inherited_history conv (Some ln)) (\<lambda>items w'. only_cache w w' \<and> inherited_ok w (ln_segments ln) items)
     (\<lambda>_ _. False) w"
proof -
  let ?A = "\<lambda>m. \<exists>s \<in> set (ln_segments ln). in_scope w s m"
  have "picks_ok ?A ([], INHERITED_MAX_CHARS)" by (simp add: picks_ok_def branch_limits)
  from wp_pick_segments [OF this, of "rev (ln_segments ln)"]
  have "wp (pick_segments (rev (ln_segments ln)) ([], INHERITED_MAX_CHARS))
     (\<lambda>picked w'. only_cache w w' \<and> (\<exists>chars. picks_ok ?A (picked, chars))) (\<lambda>_ w'. only_cache w w') w"
    by simp
  then show ?thesis
    unfolding inherited_history_def option.case wp_attempt wp_bnd wp_ret
    by (rule wp_mono) (use picks_inherited in \<open>auto simp: wp_ret inherited_ok_def [of w _ "[]"]\<close>)
qed

lemma lineage_cache: "only_cache w w' \<Longrightarrow> inherited_ok w' = inherited_ok w"
  by (simp add: inherited_ok_def in_scope_def fun_eq_iff only_cacheD)

lemma inherited_Nil [simp]: "inherited_ok w segs []"
  by (simp add: inherited_ok_def)

section \<open>Properties\<close>

text \<open>C6:
  With a cache that is not stale, the lineage of a conversation, however the stored parent links run
  (cycles included), is the chain of its stored ancestors that follows the parent links up to a root, at
  most 25 long and without repetition, every ancestor owned by the same user and not deleted, each
  carrying the branch point recorded in the conversation below it; it is reported as truncated exactly
  when it ends at an ancestor that still has a parent. Under failing calls it raises and changes nothing
  but the cache.
\<close>

theorem lineage_follows_own_ancestors:
  assumes "all_fresh w"
  shows "wp (get_lineage conv) (\<lambda>ln w'. only_cache w w' \<and> all_fresh w' \<and> lineage_ok w conv ln)
     (\<lambda>_ w'. only_cache w w' \<and> all_fresh w') w"
  by (rule wp_get_lineage [OF assms])

definition branch_world :: world where
  "branch_world = (empty_world 9000000)\<lparr>
     w_conv := [5 \<mapsto> new_conv_row 0 3 ''root'' None None, 9 \<mapsto> new_conv_row 4000 3 ''branch'' (Some 5) (Some 50)],
     w_msgs := (\<lambda>_. [])(5 := [
       \<lparr>mr_id = 60, mr_sender = Some ''user'', mr_content = Some ''later'', mr_created = Some 6000,
        mr_status = Some ''sent'', mr_files = [], mr_cites = None\<rparr>,
       \<lparr>mr_id = 50, mr_sender = Some ''user'', mr_content = Some ''hello'', mr_created = Some 1000,
        mr_status = Some ''sent'', mr_files = [], mr_cites = None\<rparr>])\<rparr>"

definition branch_conv :: conversation where
  "branch_conv = \<lparr>cv_id = 9, cv_user = 3, cv_title = ''branch'', cv_created = 4000, cv_updated = 4000,
     cv_status = ACTIVE, cv_parent = Some 5, cv_branch = Some 50\<rparr>"

lemma branch_world_fresh: "all_fresh branch_world"
  by (simp add: all_fresh_def conv_fresh_def branch_world_def empty_world_def)

theorem lineage_follows_own_ancestors_witness:
  "wp (get_lineage branch_conv) (\<lambda>ln w'. only_cache branch_world w' \<and> all_fresh w' \<and> lineage_ok branch_world branch_conv ln)
     (\<lambda>_ w'. only_cache branch_world w' \<and> all_fresh w') branch_world"
  by (rule lineage_follows_own_ancestors [OF branch_world_fresh])

text \<open>C7:
  What a branch inherits never reaches past a branch point: with a cache that is not stale and under any
  failing calls, computing the inherited history never raises, and what it returns is empty or comes
  from the lineage: at most 16 distinct messages and 12000 characters in all, 2000 each, every one a
  finished user or assistant message of an ancestor, at or before the branch point recorded for that
  ancestor (for a branch without one, not newer than the branch itself).
\<close>

theorem inherited_history_in_scope:
  assumes "all_fresh w"
  shows "wp (inherited_history conv None)
     (\<lambda>items w'. only_cache w w' \<and>
        (items = [] \<or> (\<exists>ln. lineage_ok w conv ln \<and> inherited_ok w (ln_segments ln) items)))
     (\<lambda>_ _. False) w"
proof -
  let ?Q = "\<lambda>items w'. only_cache w w' \<and>
     (items = [] \<or> (\<exists>ln. lineage_ok w conv ln \<and> inherited_ok w (ln_segments ln) items))"
  have given: "wp (inherited_history conv (Some ln)) ?Q (\<lambda>_ _. False) w1"
    if "only_cache w w1" "lineage_ok w conv ln" for ln w1
    by (rule wp_mono [OF wp_inherited_history])
       (use that lineage_cache [OF that(1)] only_cache_trans [OF that(1)] in auto)
  show ?thesis
    unfolding inherited_history_def option.case wp_attempt wp_bnd
  proof (rule wp_mono [OF wp_get_lineage [OF assms]], goal_cases)
    case (1 ln w1)
    then show ?case
      using given [of w1 ln] unfolding inherited_history_def option.case wp_attempt wp_bnd wp_ret by blast
  next
    case (2 e w1)
    then show ?case by (simp add: wp_ret)
  qed
qed

theorem inherited_history_in_scope_witness:
  "wp (inherited_history branch_conv None)
     (\<lambda>items w'. only_cache branch_world w' \<and>
        (items = [] \<or> (\<exists>ln. lineage_ok branch_world branch_conv ln \<and> inherited_ok branch_world (ln_segments ln) items)))
     (\<lambda>_ _. False) branch_world"
  by (rule inherited_history_in_scope [OF branch_world_fresh])

end
