(* ===== verification/Postgres.thy ===== *)
theory Postgres
  imports Uuids
begin

text \<open>
  The relational store: the rows of \<open>app/models/sql_models.py\<close> and the calls of a request-scoped session
  (\<open>app/db/session.py\<close>). \<open>pg_down\<close> is the schedule of failures: \<open>True\<close> makes the next statement raise.
  Every statement is atomic, and \<open>transact\<close> is the request scope: it commits on a normal return and rolls back on any
  exception; the commit is one more statement that may fail. \<open>pg_enforced\<close> says whether the database has the widths, the
  CHECK constraints and the foreign key of \<open>app/db/migrations/versions\<close>: a database that has them refuses a row that breaks
  one, and one without them stores it.
\<close>

record mode_row =
  mo_id :: uuid
  mo_owner :: uuid
  mo_name :: string
  mo_key :: string
  mo_desc :: string
  mo_instr :: string
  mo_style :: string
  mo_status :: string
  mo_version :: int
  mo_created :: int
  mo_updated :: int
  mo_archived :: "int option"

record pref_row =
  pr_mode :: "string option"
  pr_custom :: "uuid option"
  pr_tools :: "string list"
  pr_length :: string
  pr_tone :: string
  pr_language :: string
  pr_instr :: string
  pr_cites :: string
  pr_doc :: string
  pr_version :: int
  pr_updated :: int

record pg =
  pg_now :: int
  pg_down :: "bool list"
  pg_enforced :: bool
  pg_modes :: "mode_row list"
  pg_prefs :: "uuid \<Rightarrow> pref_row option"
  pg_notes :: "uuid \<times> uuid \<Rightarrow> note_row option"
  pg_edits :: "edit_row list"

definition pg_fails :: "pg \<Rightarrow> bool" where
  "pg_fails s = (case pg_down s of [] \<Rightarrow> False | b # _ \<Rightarrow> b)"

definition pg_pop :: "pg \<Rightarrow> pg" where
  "pg_pop s = s\<lparr>pg_down := tl (pg_down s)\<rparr>"

definition sql :: "(pg \<Rightarrow> (exn + 'a) \<times> pg) \<Rightarrow> (pg, 'a) prog" where
  "sql stmt = (\<lambda>s. if pg_fails s then (Inl DbError, pg_pop s) else stmt (pg_pop s))"

text \<open>A query.\<close>

abbreviation select :: "(pg \<Rightarrow> 'a) \<Rightarrow> (pg, 'a) prog" where
  "select v \<equiv> sql (\<lambda>s. (Inr (v s), s))"

definition transact :: "(pg, 'a) prog \<Rightarrow> (pg, 'a) prog" where
  "transact m = (\<lambda>s. case m s of
     (Inl e, s') \<Rightarrow> (Inl e, s\<lparr>pg_down := pg_down s'\<rparr>)
   | (Inr a, s') \<Rightarrow> if pg_fails s' then (Inl DbError, s\<lparr>pg_down := tl (pg_down s')\<rparr>) else (Inr a, pg_pop s'))"

lemma wp_sql [wp_simps]:
  "wp (sql stmt) Q E s = (if pg_fails s then E DbError (pg_pop s) else wp stmt Q E (pg_pop s))"
  by (simp add: wp_def sql_def)

lemma wp_select [wp_simps]: "wp (\<lambda>s. (Inr (v s), s)) Q E s = Q (v s) s"
  by (simp add: wp_def)

lemma wp_transact [wp_simps]:
  "wp (transact m) Q E s =
     wp m (\<lambda>a s'. if pg_fails s' then E DbError (s\<lparr>pg_down := tl (pg_down s')\<rparr>) else Q a (pg_pop s'))
       (\<lambda>e s'. E e (s\<lparr>pg_down := pg_down s'\<rparr>)) s"
  by (auto simp: wp_def transact_def split: prod.splits sum.splits)

lemma pg_pop_simps [simp]:
  "pg_now (pg_pop s) = pg_now s" "pg_modes (pg_pop s) = pg_modes s" "pg_prefs (pg_pop s) = pg_prefs s"
  "pg_notes (pg_pop s) = pg_notes s" "pg_edits (pg_pop s) = pg_edits s"
  "pg_enforced (pg_pop s) = pg_enforced s"
  by (simp_all add: pg_pop_def)

definition pg_calm :: "pg \<Rightarrow> bool" where
  "pg_calm s = (pg_down s = [])"

lemma pg_calm_simps [simp]:
  "pg_calm s \<Longrightarrow> pg_fails s = False" "pg_calm s \<Longrightarrow> pg_pop s = s"
  by (simp_all add: pg_calm_def pg_fails_def pg_pop_def)

section \<open>The constraints of the tables\<close>

text \<open>
  A value too wide for its column is refused as a data error; a row that breaks a CHECK is refused as an integrity error. The
  columns and checks of a table are one predicate on its rows; \<open>btrim\<close> removes spaces only. The width of an integer column is
  not modelled.
\<close>

definition btrim :: "string \<Rightarrow> string" where
  "btrim s = (let sp = (\<lambda>c. c = CHR '' '') in rev (dropWhile sp (rev (dropWhile sp s))))"

definition mode_widths :: "mode_row \<Rightarrow> bool" where
  "mode_widths r \<longleftrightarrow> length (mo_name r) \<le> 120 \<and> length (mo_key r) \<le> 120 \<and> length (mo_style r) \<le> 16 \<and> length (mo_status r) \<le> 16"

definition mode_rules :: "mode_row \<Rightarrow> bool" where
  "mode_rules r \<longleftrightarrow> btrim (mo_name r) \<noteq> [] \<and> btrim (mo_instr r) \<noteq> [] \<and> mo_style r \<in> {''direct'', ''smart''} \<and>
     mo_status r \<in> {''active'', ''archived''} \<and> 1 \<le> mo_version r"

definition mode_checks :: "mode_row \<Rightarrow> bool" where
  "mode_checks r \<longleftrightarrow> mode_widths r \<and> mode_rules r"

definition pref_widths :: "pref_row \<Rightarrow> bool" where
  "pref_widths r \<longleftrightarrow> (case pr_mode r of None \<Rightarrow> True | Some m \<Rightarrow> length m \<le> 40) \<and> list_all (\<lambda>t. length t \<le> 64) (pr_tools r) \<and>
     length (pr_language r) \<le> 16"

definition pref_rules :: "pref_row \<Rightarrow> bool" where
  "pref_rules r \<longleftrightarrow> 1 \<le> pr_version r \<and>
     pr_length r \<in> {''concise'', ''balanced'', ''detailed''} \<and> pr_tone r \<in> {''professional'', ''friendly'', ''simple''} \<and>
     pr_cites r \<in> {''show'', ''hide''} \<and> pr_doc r \<in> {''conversation'', ''attached_only''} \<and>
     length (pr_instr r) \<le> 1000 \<and> (pr_mode r = None \<or> pr_custom r = None)"

definition pref_checks :: "pref_row \<Rightarrow> bool" where
  "pref_checks r \<longleftrightarrow> pref_widths r \<and> pref_rules r"

definition note_checks :: "note_row \<Rightarrow> bool" where
  "note_checks r \<longleftrightarrow> 1 \<le> nt_version r \<and> length (nt_content r) \<le> 200000"

definition edit_checks :: "edit_row \<Rightarrow> bool" where
  "edit_checks r \<longleftrightarrow> length (ed_block r) \<le> 80 \<and> length (ed_language r) \<le> 32 \<and> length (ed_sha r) \<le> 64 \<and>
     1 \<le> ed_version r \<and> length (ed_content r) \<le> 200000 \<and> ed_format r \<in> {''code'', ''text'', ''markdown''}"

end
