(* ===== verification/Custom_Modes.thy ===== *)
theory Custom_Modes
  imports Postgres
begin

text \<open>
  Custom modes: validation (\<open>app/models/custom_modes.py\<close>), the repository
  (\<open>app/repositories/pg_repositories.py\<close>, \<open>CustomModeRepository\<close>) and the service
  (\<open>app/services/custom_mode_service.py\<close>). The two Unicode transforms of \<open>normalize_name\<close>, NFKC
  normalisation and case folding, leave the code points of the model and are arguments.
\<close>

definition CUSTOM_MODE_MAX_PER_USER :: nat where "CUSTOM_MODE_MAX_PER_USER = 20"
definition CUSTOM_MODE_NAME_MAX_CHARS :: nat where "CUSTOM_MODE_NAME_MAX_CHARS = 60"
definition CUSTOM_MODE_DESCRIPTION_MAX_CHARS :: nat where "CUSTOM_MODE_DESCRIPTION_MAX_CHARS = 200"
definition CUSTOM_MODE_INSTRUCTIONS_MAX_CHARS :: nat where "CUSTOM_MODE_INSTRUCTIONS_MAX_CHARS = 4000"

section \<open>References and text\<close>

text \<open>The pattern \<open>8-4-4-4-12\<close> of hexadecimal digits.\<close>

definition uuid_shape :: "string \<Rightarrow> bool" where
  "uuid_shape s \<longleftrightarrow> length s = 36 \<and>
     list_all (\<lambda>i. if i \<in> {8, 13, 18, 23} then s ! i = CHR ''-'' else hex_value (s ! i) \<noteq> None) [0..<36]"

definition opt_text :: "string option \<Rightarrow> string" where
  "opt_text v = (case v of None \<Rightarrow> [] | Some s \<Rightarrow> s)"

definition parse_custom_ref :: "string option \<Rightarrow> uuid option" where
  "parse_custom_ref v = (let s = strip (opt_text v) in
     if starts_with ''custom:'' s \<and> uuid_shape (drop 7 s) then parse_uuid (drop 7 s) else None)"

definition is_custom_ref :: "string option \<Rightarrow> bool" where
  "is_custom_ref v = starts_with ''custom:'' (lower (strip (opt_text v)))"

definition custom_ref :: "uuid \<Rightarrow> string" where
  "custom_ref i = ''custom:'' @ uuid_str i"

text \<open>\<open>str.split()\<close>: the maximal runs of characters that are not white space.\<close>

function words :: "string \<Rightarrow> string list" where
  "words s = (let t = lstrip s in
     if t = [] then [] else takeWhile (\<lambda>c. \<not> py_space c) t # words (dropWhile (\<lambda>c. \<not> py_space c) t))"
  by pat_completeness auto
termination
proof (relation "measure length")
  fix s t :: string
  assume t: "t = lstrip s" "t \<noteq> []"
  then have "\<not> py_space (hd t)" by (simp add: lstrip_def hd_dropWhile)
  then have "length (dropWhile (\<lambda>c. \<not> py_space c) t) < length t"
    using t(2) by (cases t) (auto simp: le_imp_less_Suc length_dropWhile_le)
  moreover have "length t \<le> length s" by (simp add: t(1) lstrip_def length_dropWhile_le)
  ultimately show "(dropWhile (\<lambda>c. \<not> py_space c) t, s) \<in> measure length" by simp
qed simp

declare words.simps [simp del]

definition squeeze :: "string \<Rightarrow> string" where
  "squeeze s = join '' '' (words s)"

definition normalize_name :: "(string \<Rightarrow> string) \<Rightarrow> (string \<Rightarrow> string) \<Rightarrow> string \<Rightarrow> string" where
  "normalize_name nfkc casefold name = casefold (squeeze (nfkc name))"

text \<open>\<open>str.isprintable\<close> below U+0100: not the control characters, the no-break space and the soft hyphen.\<close>

definition is_printable :: "char \<Rightarrow> bool" where
  "is_printable c = (let n = (of_char c :: nat) in 32 \<le> n \<and> \<not> (127 \<le> n \<and> n \<le> 160) \<and> n \<noteq> 173)"

definition clean_mode_text :: "bool \<Rightarrow> string \<Rightarrow> string" where
  "clean_mode_text multiline s =
     strip (filter (\<lambda>c. is_printable c \<or> (multiline \<and> (c = CHR 10 \<or> c = CHR 9))) s)"

definition mode_name :: "string \<Rightarrow> exn + string" where
  "mode_name v = (let cleaned = squeeze (clean_mode_text False v) in
     if cleaned = [] then Inl (ValueError ''Name cannot be empty.'')
     else if CUSTOM_MODE_NAME_MAX_CHARS < length cleaned then Inl (ValueError ''Name is limited'')
     else Inr cleaned)"

definition mode_description :: "string \<Rightarrow> exn + string" where
  "mode_description v = (let cleaned = squeeze (clean_mode_text False v) in
     if CUSTOM_MODE_DESCRIPTION_MAX_CHARS < length cleaned then Inl (ValueError ''Description is limited'')
     else Inr cleaned)"

definition mode_instructions :: "string \<Rightarrow> exn + string" where
  "mode_instructions v = (let cleaned = clean_mode_text True v in
     if cleaned = [] then Inl (ValueError ''Instructions cannot be empty.'')
     else if CUSTOM_MODE_INSTRUCTIONS_MAX_CHARS < length cleaned then Inl (ValueError ''Instructions are limited'')
     else Inr cleaned)"

datatype execution_style = DIRECT | SMART

fun style_value :: "execution_style \<Rightarrow> string" where
  "style_value DIRECT = ''direct''"
| "style_value SMART = ''smart''"

text \<open>The bodies of \<open>POST\<close> and \<open>PATCH\<close>; validation gives a body with cleaned fields or raises.\<close>

record mode_create =
  mc_name :: string
  mc_desc :: string
  mc_instr :: string
  mc_style :: execution_style

record mode_update =
  mu_name :: "string option"
  mu_desc :: "string option"
  mu_instr :: "string option"
  mu_style :: "execution_style option"
  mu_version :: "int option"

definition validate_create :: "mode_create \<Rightarrow> exn + mode_create" where
  "validate_create b =
     (case mode_name (mc_name b) of Inl e \<Rightarrow> Inl e | Inr n \<Rightarrow>
     (case mode_description (mc_desc b) of Inl e \<Rightarrow> Inl e | Inr d \<Rightarrow>
     (case mode_instructions (mc_instr b) of Inl e \<Rightarrow> Inl e | Inr i \<Rightarrow>
        Inr (b\<lparr>mc_name := n, mc_desc := d, mc_instr := i\<rparr>))))"

definition opt_field :: "(string \<Rightarrow> exn + string) \<Rightarrow> string option \<Rightarrow> exn + string option" where
  "opt_field f v = (case v of None \<Rightarrow> Inr None
     | Some s \<Rightarrow> (case f s of Inl e \<Rightarrow> Inl e | Inr t \<Rightarrow> Inr (Some t)))"

definition validate_update :: "mode_update \<Rightarrow> exn + mode_update" where
  "validate_update b =
     (if (case mu_version b of None \<Rightarrow> False | Some v \<Rightarrow> v < 1) then Inl (ValueError ''version'') else
     (case opt_field mode_name (mu_name b) of Inl e \<Rightarrow> Inl e | Inr n \<Rightarrow>
     (case opt_field mode_description (mu_desc b) of Inl e \<Rightarrow> Inl e | Inr d \<Rightarrow>
     (case opt_field mode_instructions (mu_instr b) of Inl e \<Rightarrow> Inl e | Inr i \<Rightarrow>
        Inr (b\<lparr>mu_name := n, mu_desc := d, mu_instr := i\<rparr>)))))"

definition no_changes :: "mode_update \<Rightarrow> bool" where
  "no_changes b \<longleftrightarrow> mu_name b = None \<and> mu_desc b = None \<and> mu_instr b = None \<and> mu_style b = None"

section \<open>The repository\<close>

definition mode_active :: "mode_row \<Rightarrow> bool" where
  "mode_active r \<longleftrightarrow> mo_status r = ''active''"

definition active_of :: "uuid \<Rightarrow> mode_row list \<Rightarrow> mode_row list" where
  "active_of owner rows = filter (\<lambda>r. mo_owner r = owner \<and> mode_active r) rows"

text \<open>The unique index \<open>uq_custom_modes_owner_active_name\<close>: no two active rows share owner and key.\<close>

definition name_index :: "mode_row list \<Rightarrow> bool" where
  "name_index rows \<longleftrightarrow> distinct (map (\<lambda>r. (mo_owner r, mo_key r)) (filter mode_active rows))"

text \<open>
  The flush of an \<open>INSERT\<close>; an \<open>IntegrityError\<close> of the primary key, the index or a CHECK is reported as a taken name, a value
  too wide for its column is not.
\<close>

definition insert_mode :: "(int \<Rightarrow> mode_row) \<Rightarrow> pg \<Rightarrow> (exn + mode_row) \<times> pg" where
  "insert_mode f s = (let r = f (pg_now s) in
     if pg_enforced s \<and> \<not> mode_widths r then (Inl DbError, s)
     else if (pg_enforced s \<longrightarrow> mode_rules r) \<and> name_index (r # pg_modes s) \<and> mo_id r \<notin> mo_id ` set (pg_modes s)
     then (Inr r, s\<lparr>pg_modes := r # pg_modes s\<rparr>)
     else (Inl CustomModeNameTakenError, s))"

definition modes_create ::
  "(string \<Rightarrow> string) \<Rightarrow> (string \<Rightarrow> string) \<Rightarrow> uuid \<Rightarrow> uuid \<Rightarrow> string \<Rightarrow> string \<Rightarrow> string \<Rightarrow> string \<Rightarrow> nat
   \<Rightarrow> (pg, mode_row) prog" where
  "modes_create nfkc casefold new_id owner name description instr style max_per_user =
     bnd (sql (\<lambda>s. (Inr (), s))) (\<lambda>_.
     bnd (select (\<lambda>s. length (active_of owner (pg_modes s)))) (\<lambda>active.
     if max_per_user \<le> active then raise (CustomModeLimitError max_per_user)
     else bnd (sql (insert_mode (\<lambda>now.
              \<lparr>mo_id = new_id, mo_owner = owner, mo_name = name,
               mo_key = normalize_name nfkc casefold name, mo_desc = description, mo_instr = instr,
               mo_style = style, mo_status = ''active'', mo_version = 1, mo_created = now,
               mo_updated = now, mo_archived = None\<rparr>))) (\<lambda>r.
     bnd (sql (\<lambda>s. (Inr (), s))) (\<lambda>_. ret r))))"

definition find_mode :: "uuid \<Rightarrow> uuid \<Rightarrow> bool \<Rightarrow> pg \<Rightarrow> mode_row option" where
  "find_mode owner mode include_archived s =
     find (\<lambda>r. mo_id r = mode \<and> mo_owner r = owner \<and> (include_archived \<or> mode_active r)) (pg_modes s)"

definition modes_get :: "uuid \<Rightarrow> uuid \<Rightarrow> bool \<Rightarrow> (pg, mode_row option) prog" where
  "modes_get owner mode include_archived = select (find_mode owner mode include_archived)"

text \<open>\<open>ORDER BY updated_at DESC, mode_id LIMIT limit OFFSET offset\<close>, with the total count.\<close>

definition modes_list :: "uuid \<Rightarrow> bool \<Rightarrow> nat \<Rightarrow> nat \<Rightarrow> (pg, mode_row list \<times> nat) prog" where
  "modes_list owner include_archived limit offset =
     (let base = (\<lambda>s. filter (\<lambda>r. mo_owner r = owner \<and> (include_archived \<or> mode_active r)) (pg_modes s)) in
      bnd (select (\<lambda>s. length (base s))) (\<lambda>total.
      bnd (select (\<lambda>s. take limit (drop offset
             (sort_key (\<lambda>r. - mo_updated r) (sort_key mo_id (base s)))))) (\<lambda>rows.
      ret (rows, total))))"

definition apply_changes :: "(string \<Rightarrow> string) \<Rightarrow> (string \<Rightarrow> string) \<Rightarrow> mode_update \<Rightarrow> mode_row \<Rightarrow> mode_row" where
  "apply_changes nfkc casefold b r = r\<lparr>
     mo_name := (case mu_name b of None \<Rightarrow> mo_name r | Some n \<Rightarrow> n),
     mo_key := (case mu_name b of None \<Rightarrow> mo_key r | Some n \<Rightarrow> normalize_name nfkc casefold n),
     mo_desc := (case mu_desc b of None \<Rightarrow> mo_desc r | Some d \<Rightarrow> d),
     mo_instr := (case mu_instr b of None \<Rightarrow> mo_instr r | Some i \<Rightarrow> i),
     mo_style := (case mu_style b of None \<Rightarrow> mo_style r | Some x \<Rightarrow> style_value x)\<rparr>"

text \<open>One \<open>UPDATE ... WHERE ... RETURNING\<close> of the row a condition selects (\<open>mode_id\<close> is the primary key).\<close>

definition update_mode ::
  "(mode_row \<Rightarrow> bool) \<Rightarrow> (int \<Rightarrow> mode_row \<Rightarrow> mode_row) \<Rightarrow> pg \<Rightarrow> (exn + mode_row option) \<times> pg" where
  "update_mode sel f s = (case find sel (pg_modes s) of
     None \<Rightarrow> (Inr None, s)
   | Some r \<Rightarrow>
       (let rows = map (\<lambda>x. if sel x then f (pg_now s) x else x) (pg_modes s) in
        if pg_enforced s \<and> \<not> mode_widths (f (pg_now s) r) then (Inl DbError, s)
        else if (pg_enforced s \<longrightarrow> mode_rules (f (pg_now s) r)) \<and> name_index rows then (Inr (Some (f (pg_now s) r)), s\<lparr>pg_modes := rows\<rparr>)
        else (Inl CustomModeNameTakenError, s)))"

definition bump :: "int \<Rightarrow> mode_row \<Rightarrow> mode_row" where
  "bump now r = r\<lparr>mo_version := mo_version r + 1, mo_updated := now\<rparr>"

definition modes_update ::
  "(string \<Rightarrow> string) \<Rightarrow> (string \<Rightarrow> string) \<Rightarrow> uuid \<Rightarrow> uuid \<Rightarrow> mode_update \<Rightarrow> int option \<Rightarrow> (pg, mode_row) prog" where
  "modes_update nfkc casefold owner mode changes expected =
     bnd (sql (update_mode
            (\<lambda>r. mo_id r = mode \<and> mo_owner r = owner \<and> mode_active r \<and>
                 (case expected of None \<Rightarrow> True | Some v \<Rightarrow> mo_version r = v))
            (\<lambda>now r. bump now (apply_changes nfkc casefold changes r)))) (\<lambda>row. case row of
       Some r \<Rightarrow> ret r
     | None \<Rightarrow>
         bnd (modes_get owner mode False) (\<lambda>current. case current of
           None \<Rightarrow> raise CustomModeNotFoundError
         | Some c \<Rightarrow> raise (CustomModeConflictError (nat (mo_version c)))))"

definition modes_archive :: "uuid \<Rightarrow> uuid \<Rightarrow> (pg, mode_row) prog" where
  "modes_archive owner mode =
     bnd (modes_get owner mode True) (\<lambda>existing. case existing of
       None \<Rightarrow> raise CustomModeNotFoundError
     | Some e \<Rightarrow>
         if mo_status e = ''archived'' then ret e
         else bnd (sql (update_mode
                (\<lambda>r. mo_id r = mode \<and> mo_owner r = owner \<and> mode_active r)
                (\<lambda>now r. bump now (r\<lparr>mo_status := ''archived'', mo_archived := Some now\<rparr>)))) (\<lambda>row. case row of
             Some r \<Rightarrow> ret r
           | None \<Rightarrow>
               bnd (modes_get owner mode True) (\<lambda>again. case again of
                 Some r \<Rightarrow> ret r
               | None \<Rightarrow> raise TypeError)))"

section \<open>The service\<close>

definition mode_service_create ::
  "(string \<Rightarrow> string) \<Rightarrow> (string \<Rightarrow> string) \<Rightarrow> uuid \<Rightarrow> uuid \<Rightarrow> mode_create \<Rightarrow> (pg, mode_row) prog" where
  "mode_service_create nfkc casefold new_id owner body =
     modes_create nfkc casefold new_id owner (mc_name body) (mc_desc body) (mc_instr body)
       (style_value (mc_style body)) CUSTOM_MODE_MAX_PER_USER"

definition mode_service_get :: "uuid \<Rightarrow> uuid \<Rightarrow> (pg, mode_row) prog" where
  "mode_service_get owner mode =
     bnd (modes_get owner mode True) (\<lambda>r. case r of
       None \<Rightarrow> raise CustomModeNotFoundError | Some x \<Rightarrow> ret x)"

definition mode_service_list :: "uuid \<Rightarrow> bool \<Rightarrow> nat \<Rightarrow> nat \<Rightarrow> (pg, mode_row list \<times> nat) prog" where
  "mode_service_list owner include_archived limit offset = modes_list owner include_archived limit offset"

definition mode_service_update ::
  "(string \<Rightarrow> string) \<Rightarrow> (string \<Rightarrow> string) \<Rightarrow> uuid \<Rightarrow> uuid \<Rightarrow> mode_update \<Rightarrow> (pg, mode_row) prog" where
  "mode_service_update nfkc casefold owner mode body =
     (if no_changes body then mode_service_get owner mode
      else modes_update nfkc casefold owner mode body (mu_version body))"

definition mode_service_archive :: "uuid \<Rightarrow> uuid \<Rightarrow> (pg, mode_row) prog" where
  "mode_service_archive owner mode = modes_archive owner mode"

text \<open>The definition that travels with a request.\<close>

record snapshot =
  sn_id :: uuid
  sn_version :: int
  sn_name :: string
  sn_style :: string
  sn_instr :: string

definition snapshot_of :: "mode_row \<Rightarrow> snapshot" where
  "snapshot_of r = \<lparr>sn_id = mo_id r, sn_version = mo_version r, sn_name = mo_name r,
     sn_style = mo_style r, sn_instr = mo_instr r\<rparr>"

definition snapshot_json :: "snapshot \<Rightarrow> json" where
  "snapshot_json s = JObj [(''mode_id'', JStr (uuid_str (sn_id s))), (''version'', JInt (sn_version s)),
     (''name'', JStr (sn_name s)), (''execution_style'', JStr (sn_style s)),
     (''instructions'', JStr (sn_instr s))]"

definition snapshot_for_message :: "uuid \<Rightarrow> uuid \<Rightarrow> (pg, snapshot) prog" where
  "snapshot_for_message owner mode =
     bnd (modes_get owner mode False) (\<lambda>r. case r of
       None \<Rightarrow> raise CustomModeUnavailableError
     | Some x \<Rightarrow> if mo_status x \<noteq> ''active'' then raise CustomModeUnavailableError else ret (snapshot_of x))"

lemma uuid_str_shape: "uuid_shape (uuid_str u)"
proof -
  have len: "length (uuid_hex u) = 32" by (simp add: uuid_hex_def)
  have hex: "\<exists>d. hex_value (uuid_hex u ! k) = Some d" if "k < 32" for k
  proof -
    have "uuid_hex u ! k \<in> set (uuid_hex u)" using that len by simp
    then obtain n where "n < 16" "uuid_hex u ! k = hex_digit n" using uuid_hex_char by blast
    then show ?thesis by simp
  qed
  show ?thesis
    unfolding uuid_shape_def uuid_str_def Let_def
    by (simp add: len upt_rec nth_append nth_Cons' hex)
qed

lemma hex_digit_plain: "n < 16 \<Longrightarrow> \<not> py_space (hex_digit n) \<and> lower_char (hex_digit n) = hex_digit n"
  by (simp add: py_space_def lower_char_def hex_digit_def Let_def)

lemma uuid_str_plain: "c \<in> set (uuid_str u) \<Longrightarrow> \<not> py_space c \<and> lower_char c = c"
proof -
  assume "c \<in> set (uuid_str u)"
  then have "c = CHR ''-'' \<or> c \<in> set (uuid_hex u)" using uuid_str_subset by blast
  then show ?thesis
  proof
    assume "c = CHR ''-''"
    then show ?thesis by (simp add: py_space_def lower_char_def)
  next
    assume "c \<in> set (uuid_hex u)"
    then obtain n where "n < 16" "c = hex_digit n" using uuid_hex_char by blast
    then show ?thesis using hex_digit_plain by blast
  qed
qed
text \<open>The reference of a mode reads back as the mode, and stays so under the preference cleaner.\<close>

lemma custom_ref_plain: "c \<in> set (custom_ref u) \<Longrightarrow> \<not> py_space c \<and> lower_char c = c"
proof -
  have "\<forall>c \<in> set ''custom:''. \<not> py_space c \<and> lower_char c = c" by (simp add: py_space_def lower_char_def)
  then show "c \<in> set (custom_ref u) \<Longrightarrow> ?thesis" unfolding custom_ref_def set_append using uuid_str_plain by blast
qed

lemma strip_custom_ref [simp]: "strip (custom_ref u) = custom_ref u"
  by (rule strip_nonspace_id) (simp add: custom_ref_plain)

lemma lower_custom_ref [simp]: "lower (custom_ref u) = custom_ref u"
  unfolding lower_def by (rule map_idI) (simp add: custom_ref_plain)

lemma parse_custom_ref_of [simp]: "parse_custom_ref (Some (custom_ref u)) = Some u"
  by (simp add: parse_custom_ref_def opt_text_def)
     (simp add: custom_ref_def starts_with_def uuid_str_shape parse_uuid_str)

section \<open>The limit and the names\<close>

definition modes_ok :: "nat \<Rightarrow> pg \<Rightarrow> bool" where
  "modes_ok limit s \<longleftrightarrow>
     distinct (map mo_id (pg_modes s)) \<and> name_index (pg_modes s) \<and>
     (\<forall>owner. length (active_of owner (pg_modes s)) \<le> limit)"

lemma modes_ok_pop [simp]: "modes_ok n (pg_pop s) = modes_ok n s"
  by (simp add: modes_ok_def)

lemma wp_stmt [wp_simps]: "wp (\<lambda>s. (Inr (), s)) Q E s = Q () s"
  by (simp add: wp_def)

lemma length_active_Cons:
  "length (active_of o' (r # rows)) = length (active_of o' rows) + (if mo_owner r = o' \<and> mode_active r then 1 else 0)"
  by (simp add: active_of_def)

lemma wp_insert_mode:
  assumes "modes_ok limit s" and "length (active_of (mo_owner (f (pg_now s))) (pg_modes s)) < limit"
  shows "wp (insert_mode f) (\<lambda>r s'. r = f (pg_now s) \<and> modes_ok limit s' \<and> pg_modes s' = r # pg_modes s)
    (\<lambda>_. modes_ok limit) s"
  using assms by (auto simp: wp_def insert_mode_def Let_def modes_ok_def length_active_Cons Suc_le_eq)

lemma wp_modes_create:
  assumes "modes_ok limit s"
  shows "wp (modes_create nf cf i owner name d ins st limit)
    (\<lambda>r s'. modes_ok limit s' \<and> pg_modes s' = r # pg_modes s \<and> mo_owner r = owner \<and> mode_active r)
    (\<lambda>_ s'. modes_ok limit s') s"
  unfolding modes_create_def using assms
  by (auto simp: wp_simps mode_active_def not_le intro!: wp_mono [OF wp_insert_mode])

lemma active_of_map_le:
  assumes "\<And>r. mo_owner (g r) = mo_owner r \<and> (mode_active (g r) \<longrightarrow> mode_active r)"
  shows "length (active_of o' (map g rows)) \<le> length (active_of o' rows)"
  using assms by (induction rows) (auto simp: active_of_def)

lemma wp_update_mode:
  assumes ok: "modes_ok limit s"
    and keep: "\<And>now r. mo_id (f now r) = mo_id r \<and> mo_owner (f now r) = mo_owner r \<and> (mode_active (f now r) \<longrightarrow> mode_active r)"
  shows "wp (update_mode sel f) (\<lambda>_. modes_ok limit) (\<lambda>_. modes_ok limit) s"
proof -
  let ?g = "\<lambda>x. if sel x then f (pg_now s) x else x"
  have ids: "map mo_id (map ?g (pg_modes s)) = map mo_id (pg_modes s)" using keep by simp
  have "length (active_of o' (map ?g (pg_modes s))) \<le> length (active_of o' (pg_modes s))" for o'
    by (rule active_of_map_le) (use keep in simp)
  then have "length (active_of o' (map ?g (pg_modes s))) \<le> limit" for o'
    using ok unfolding modes_ok_def by (meson order_trans)
  then show ?thesis using ok ids
    by (auto simp: wp_def update_mode_def modes_ok_def Let_def simp del: map_map split: option.splits)
qed

lemma apply_changes_keep [simp]:
  "mo_id (bump now r) = mo_id r" "mo_owner (bump now r) = mo_owner r" "mode_active (bump now r) = mode_active r"
  "mo_id (apply_changes nf cf b r) = mo_id r" "mo_owner (apply_changes nf cf b r) = mo_owner r"
  "mode_active (apply_changes nf cf b r) = mode_active r"
  by (simp_all add: bump_def apply_changes_def mode_active_def)

lemma wp_modes_get_inv: "I (pg_pop s) \<Longrightarrow> wp (modes_get o' m b) (\<lambda>_. I) (\<lambda>_. I) s"
  by (simp add: modes_get_def wp_simps)

lemma wp_modes_update:
  assumes "modes_ok limit s"
  shows "wp (modes_update nf cf owner mode b v) (\<lambda>_. modes_ok limit) (\<lambda>_. modes_ok limit) s"
proof -
  have upd: "wp (update_mode sel (\<lambda>now r. bump now (apply_changes nf cf b r))) (\<lambda>_. modes_ok limit) (\<lambda>_. modes_ok limit) (pg_pop s)"
    for sel by (rule wp_update_mode) (use assms in simp_all)
  show ?thesis
    unfolding modes_update_def wp_bnd wp_sql
    by (auto simp: assms intro!: wp_mono [OF upd])
       (simp add: wp_simps modes_get_def split: option.split)
qed

lemma wp_modes_archive:
  assumes "modes_ok limit s"
  shows "wp (modes_archive owner mode) (\<lambda>_. modes_ok limit) (\<lambda>_. modes_ok limit) s"
proof -
  have upd: "wp (update_mode sel (\<lambda>now r. bump now (r\<lparr>mo_status := ''archived'', mo_archived := Some now\<rparr>)))
      (\<lambda>_. modes_ok limit) (\<lambda>_. modes_ok limit) (pg_pop (pg_pop s))"
    for sel by (rule wp_update_mode) (use assms in \<open>simp_all add: mode_active_def bump_def\<close>)
  show ?thesis
    unfolding modes_archive_def wp_bnd modes_get_def wp_sql wp_select
    by (auto simp: assms wp_simps modes_get_def split: option.split intro!: wp_mono [OF upd])
qed

text \<open>The requests of the custom-mode API that reach the store, each in its own transaction.\<close>

datatype mode_request =
    CreateMode uuid uuid mode_create
  | UpdateMode uuid uuid mode_update
  | ArchiveMode uuid uuid

fun mode_request_prog ::
  "(string \<Rightarrow> string) \<Rightarrow> (string \<Rightarrow> string) \<Rightarrow> mode_request \<Rightarrow> (pg, mode_row) prog" where
  "mode_request_prog nf cf (CreateMode i owner body) = transact (mode_service_create nf cf i owner body)"
| "mode_request_prog nf cf (UpdateMode owner mode body) = transact (mode_service_update nf cf owner mode body)"
| "mode_request_prog nf cf (ArchiveMode owner mode) = transact (mode_service_archive owner mode)"

fun run_modes ::
  "(string \<Rightarrow> string) \<Rightarrow> (string \<Rightarrow> string) \<Rightarrow> (int \<times> bool list \<times> mode_request) list \<Rightarrow> pg \<Rightarrow> pg" where
  "run_modes nf cf [] s = s"
| "run_modes nf cf ((t, down, req) # reqs) s =
     run_modes nf cf reqs (after (mode_request_prog nf cf req) (s\<lparr>pg_now := t, pg_down := down\<rparr>))"

definition empty_pg :: pg where
  "empty_pg = \<lparr>pg_now = 0, pg_down = [], pg_enforced = True, pg_modes = [], pg_prefs = (\<lambda>_. None),
     pg_notes = (\<lambda>_. None), pg_edits = []\<rparr>"

lemma modes_ok_clock [simp]: "modes_ok n (s\<lparr>pg_now := t\<rparr>) = modes_ok n s"
  "modes_ok n (s\<lparr>pg_now := t, pg_down := d\<rparr>) = modes_ok n s" "modes_ok n (s\<lparr>pg_down := d\<rparr>) = modes_ok n s"
  by (simp_all add: modes_ok_def)

lemma wp_transact_inv:
  assumes "wp m (\<lambda>_. modes_ok n) (\<lambda>_. modes_ok n) s" and "modes_ok n s"
  shows "wp (transact m) (\<lambda>_. modes_ok n) (\<lambda>_. modes_ok n) s"
  unfolding wp_transact by (rule wp_mono [OF assms(1)]) (use assms(2) in auto)

lemma wp_mode_request:
  assumes "modes_ok CUSTOM_MODE_MAX_PER_USER s"
  shows "wp (mode_request_prog nf cf req) (\<lambda>_. modes_ok CUSTOM_MODE_MAX_PER_USER)
     (\<lambda>_. modes_ok CUSTOM_MODE_MAX_PER_USER) s"
proof -
  have get: "wp (mode_service_get o' m) (\<lambda>_. modes_ok CUSTOM_MODE_MAX_PER_USER) (\<lambda>_. modes_ok CUSTOM_MODE_MAX_PER_USER) s" for o' m
    using assms by (simp add: mode_service_get_def modes_get_def wp_simps split: option.split)
  show ?thesis
    by (cases req)
       (auto simp: mode_service_create_def mode_service_update_def mode_service_archive_def
         intro!: wp_transact_inv assms wp_mono [OF wp_modes_create] wp_modes_update wp_modes_archive get)
qed

lemma run_modes_ok:
  "modes_ok CUSTOM_MODE_MAX_PER_USER s \<Longrightarrow> modes_ok CUSTOM_MODE_MAX_PER_USER (run_modes nf cf reqs s)"
proof (induction reqs arbitrary: s)
  case (Cons q reqs)
  obtain t d r where q: "q = (t, d, r)" by (cases q) auto
  show ?case using Cons.prems wp_mode_request [of "s\<lparr>pg_now := t, pg_down := d\<rparr>" nf cf r]
    by (simp add: q wp_after Cons.IH)
qed simp

section \<open>Compare and set\<close>

text \<open>
  An update that names a version takes effect exactly when the owner's active mode has that version,
  and then the version grows by one; otherwise no row changes.
\<close>

lemma find_iff: "find P xs = Some x \<Longrightarrow> P x \<and> x \<in> set xs"
  by (induction xs) (auto split: if_splits)

lemma wp_update_mode_stmt:
  "wp (update_mode sel f)
     (\<lambda>res s'. case res of None \<Rightarrow> s' = s
        | Some r \<Rightarrow> r \<in> set (pg_modes s') \<and> (\<exists>old \<in> set (pg_modes s). sel old \<and> r = f (pg_now s) old))
     (\<lambda>_ s'. s' = s) s"
  by (auto simp: wp_def update_mode_def Let_def split: option.split dest!: find_iff)

definition cas_done ::
  "(mode_row \<Rightarrow> mode_row) \<Rightarrow> uuid \<Rightarrow> uuid \<Rightarrow> int \<Rightarrow> pg \<Rightarrow> mode_row \<Rightarrow> pg \<Rightarrow> bool" where
  "cas_done change owner mode v s r s' \<longleftrightarrow>
     mo_version r = v + 1 \<and> r \<in> set (pg_modes s') \<and>
     (\<exists>old \<in> set (pg_modes s). mo_id old = mode \<and> mo_owner old = owner \<and> mode_active old \<and>
        mo_version old = v \<and> r = bump (pg_now s) (change old))"

lemma apply_changes_version [simp]: "mo_version (apply_changes nf cf b r) = mo_version r"
  by (simp add: apply_changes_def)

lemma bump_version [simp]: "mo_version (bump t r) = mo_version r + 1"
  by (simp add: bump_def)

lemma wp_update_cas:
  "wp (modes_update nf cf owner mode b (Some v))
     (\<lambda>r s'. cas_done (apply_changes nf cf b) owner mode v s r s') (\<lambda>e s'. pg_modes s' = pg_modes s) s"
  unfolding modes_update_def wp_bnd wp_sql
  by (auto intro!: wp_mono [OF wp_update_mode_stmt] simp: wp_simps modes_get_def cas_done_def split: option.splits)

section \<open>Properties\<close>

text \<open>The stored key is the key of the stored name, whatever was created, renamed or archived.\<close>

definition keys_current :: "(string \<Rightarrow> string) \<Rightarrow> (string \<Rightarrow> string) \<Rightarrow> pg \<Rightarrow> bool" where
  "keys_current nf cf s \<longleftrightarrow> (\<forall>r \<in> set (pg_modes s). mo_key r = normalize_name nf cf (mo_name r))"

lemma keys_current_frame [simp]: "keys_current nf cf (pg_pop s) = keys_current nf cf s"
  "keys_current nf cf (s\<lparr>pg_down := d\<rparr>) = keys_current nf cf s" "keys_current nf cf (s\<lparr>pg_now := t\<rparr>) = keys_current nf cf s"
  by (simp_all add: keys_current_def)

lemma wp_insert_mode_keys:
  assumes "keys_current nf cf s" and "\<And>t. mo_key (f t) = normalize_name nf cf (mo_name (f t))"
  shows "wp (insert_mode f) (\<lambda>_. keys_current nf cf) (\<lambda>_. keys_current nf cf) s"
  using assms by (auto simp: wp_def insert_mode_def Let_def keys_current_def)

lemma wp_update_mode_keys:
  assumes "keys_current nf cf s"
    and "\<And>t r. mo_key r = normalize_name nf cf (mo_name r) \<Longrightarrow> mo_key (f t r) = normalize_name nf cf (mo_name (f t r))"
  shows "wp (update_mode sel f) (\<lambda>_. keys_current nf cf) (\<lambda>_. keys_current nf cf) s"
  using assms by (auto simp: wp_def update_mode_def Let_def keys_current_def split: option.split)

lemma changes_key:
  "mo_key r = normalize_name nf cf (mo_name r) \<Longrightarrow>
     mo_key (bump t (apply_changes nf cf b r)) = normalize_name nf cf (mo_name (bump t (apply_changes nf cf b r)))"
  by (simp add: bump_def apply_changes_def split: option.split)

lemma wp_mode_request_keys:
  assumes "keys_current nf cf s"
  shows "wp (mode_request_prog nf cf req) (\<lambda>_. keys_current nf cf) (\<lambda>_. keys_current nf cf) s"
proof -
  let ?K = "keys_current nf cf"
  have tr: "wp (transact m) (\<lambda>_. ?K) (\<lambda>_. ?K) s" if "wp m (\<lambda>_. ?K) (\<lambda>_. ?K) s" for m :: "(pg, 'x) prog"
    unfolding wp_transact by (rule wp_mono [OF that]) (use assms in auto)
  have get: "wp (mode_service_get o' m) (\<lambda>_. ?K) (\<lambda>_. ?K) s" for o' m
    using assms by (simp add: mode_service_get_def modes_get_def wp_simps split: option.split)
  have create: "wp (modes_create nf cf i o' n d ins st mx) (\<lambda>_. ?K) (\<lambda>_. ?K) s" for i o' n d ins st mx
    unfolding modes_create_def using assms by (auto simp: wp_simps intro!: wp_mono [OF wp_insert_mode_keys])
  have upd: "wp (update_mode sel (\<lambda>now r. bump now (apply_changes nf cf b r))) (\<lambda>_. ?K) (\<lambda>_. ?K) (pg_pop s)" for sel b
    by (rule wp_update_mode_keys) (use assms changes_key in auto)
  have update: "wp (modes_update nf cf o' m b v) (\<lambda>_. ?K) (\<lambda>_. ?K) s" for o' m b v
    unfolding modes_update_def wp_bnd wp_sql
    by (auto simp: assms intro!: wp_mono [OF upd]) (simp add: wp_simps modes_get_def split: option.split)
  have arch: "wp (update_mode sel (\<lambda>now r. bump now (r\<lparr>mo_status := ''archived'', mo_archived := Some now\<rparr>))) (\<lambda>_. ?K) (\<lambda>_. ?K)
      (pg_pop (pg_pop s))" for sel
    by (rule wp_update_mode_keys) (use assms in \<open>simp_all add: bump_def\<close>)
  have archive: "wp (modes_archive o' m) (\<lambda>_. ?K) (\<lambda>_. ?K) s" for o' m
    unfolding modes_archive_def wp_bnd modes_get_def wp_sql wp_select
    by (auto simp: assms wp_simps modes_get_def split: option.split intro!: wp_mono [OF arch])
  show ?thesis
    by (cases req) (auto simp: mode_service_create_def mode_service_update_def mode_service_archive_def
        intro!: tr create update archive get)
qed

lemma run_modes_keys: "keys_current nf cf s \<Longrightarrow> keys_current nf cf (run_modes nf cf reqs s)"
proof (induction reqs arbitrary: s)
  case (Cons q reqs)
  obtain t d r where q: "q = (t, d, r)" by (cases q) auto
  show ?case using Cons.prems wp_mode_request_keys [of nf cf "s\<lparr>pg_now := t, pg_down := d\<rparr>" r]
    by (simp add: q wp_after Cons.IH)
qed simp

lemma index_names:
  assumes "name_index rows" and "r \<in> set rows" "r' \<in> set rows" and "mode_active r" "mode_active r'"
    and "mo_owner r = mo_owner r'" "mo_key r = mo_key r'"
  shows "r = r'"
  using assms unfolding name_index_def distinct_map by (auto dest!: inj_onD)

text \<open>The names of the active modes of an owner are pairwise different after normalisation, compared as names.\<close>

definition names_apart :: "(string \<Rightarrow> string) \<Rightarrow> (string \<Rightarrow> string) \<Rightarrow> mode_row list \<Rightarrow> bool" where
  "names_apart nf cf rows \<longleftrightarrow> (\<forall>r \<in> set rows. \<forall>r' \<in> set rows. mode_active r \<and> mode_active r' \<and> mo_owner r = mo_owner r' \<and>
     normalize_name nf cf (mo_name r) = normalize_name nf cf (mo_name r') \<longrightarrow> r = r')"

lemma names_apartI: "name_index (pg_modes s) \<Longrightarrow> keys_current nf cf s \<Longrightarrow> names_apart nf cf (pg_modes s)"
  unfolding names_apart_def keys_current_def using index_names by metis

text \<open>C8:
  Whatever requests to create, update and archive custom modes arrive, in whatever order, with whatever statements and
  commits failing: no user ever has more than 20 active modes, mode ids stay unique, the stored key of every mode is the
  normalised form of its stored name, and so the names of two active modes of a user differ even after normalisation.
\<close>

theorem custom_mode_limits_hold:
  "(\<forall>owner. length (active_of owner (pg_modes (run_modes nf cf reqs empty_pg))) \<le> 20) \<and>
   distinct (map mo_id (pg_modes (run_modes nf cf reqs empty_pg))) \<and>
   keys_current nf cf (run_modes nf cf reqs empty_pg) \<and>
   names_apart nf cf (pg_modes (run_modes nf cf reqs empty_pg))"
proof -
  let ?s = "run_modes nf cf reqs empty_pg"
  have "modes_ok CUSTOM_MODE_MAX_PER_USER ?s"
    by (rule run_modes_ok) (simp add: modes_ok_def empty_pg_def name_index_def active_of_def)
  moreover have "keys_current nf cf ?s" by (rule run_modes_keys) (simp add: keys_current_def empty_pg_def)
  ultimately show ?thesis using names_apartI [of ?s nf cf] by (simp add: modes_ok_def CUSTOM_MODE_MAX_PER_USER_def)
qed

text \<open>
  Updating a custom mode with the version of the last read is a compare-and-set: on success the owner's
  active mode had exactly that version and is now its changed copy one version later; on any error
  (stale version, archived, foreign or unknown mode, taken name, failing store) no row has changed.
\<close>

theorem custom_mode_update_compare_and_set:
  "wp (modes_update nf cf owner mode b (Some v))
     (\<lambda>r s'. cas_done (apply_changes nf cf b) owner mode v s r s')
     (\<lambda>e s'. pg_modes s' = pg_modes s) s"
  by (rule wp_update_cas)

end
