(* ===== verification/Preferences.thy ===== *)
theory Preferences
  imports Custom_Modes
begin

text \<open>
  User preferences: the documents and validators of \<open>app/models/preferences.py\<close>, the row store
  (\<open>PreferencesRepository\<close>), the catalog of built-in modes (\<open>app/services/mode_catalog.py\<close>) and the service
  (\<open>app/services/preferences_service.py\<close>): read, partial update with optimistic concurrency, reset, and
  resolution for a message. The live catalog of the LLM service is an argument.
\<close>

section \<open>Documents\<close>

datatype answer_length = CONCISE | BALANCED | DETAILED
datatype tone = PROFESSIONAL | FRIENDLY | SIMPLE
datatype citation_preference = SHOW | HIDE
datatype document_context = CONVERSATION | ATTACHED_ONLY

fun length_value :: "answer_length \<Rightarrow> string" where
  "length_value CONCISE = ''concise''" | "length_value BALANCED = ''balanced''" | "length_value DETAILED = ''detailed''"

fun tone_value :: "tone \<Rightarrow> string" where
  "tone_value PROFESSIONAL = ''professional''" | "tone_value FRIENDLY = ''friendly''" | "tone_value SIMPLE = ''simple''"

fun cites_value :: "citation_preference \<Rightarrow> string" where
  "cites_value SHOW = ''show''" | "cites_value HIDE = ''hide''"

fun doc_value :: "document_context \<Rightarrow> string" where
  "doc_value CONVERSATION = ''conversation''" | "doc_value ATTACHED_ONLY = ''attached_only''"

text \<open>The member of an enum with a given value.\<close>

definition enum_of :: "('e \<Rightarrow> string) \<Rightarrow> 'e list \<Rightarrow> string \<Rightarrow> 'e option" where
  "enum_of value members s = find (\<lambda>e. value e = s) members"

definition length_of :: "string \<Rightarrow> answer_length option" where
  "length_of = enum_of length_value [CONCISE, BALANCED, DETAILED]"
definition tone_of :: "string \<Rightarrow> tone option" where
  "tone_of = enum_of tone_value [PROFESSIONAL, FRIENDLY, SIMPLE]"
definition cites_of :: "string \<Rightarrow> citation_preference option" where
  "cites_of = enum_of cites_value [SHOW, HIDE]"
definition doc_of :: "string \<Rightarrow> document_context option" where
  "doc_of = enum_of doc_value [CONVERSATION, ATTACHED_ONLY]"

definition SUPPORTED_LANGUAGES :: "(string \<times> string) list" where
  "SUPPORTED_LANGUAGES = [
     (''auto'', ''Auto (match my message)''), (''en'', ''English''), (''hi'', ''Hindi''),
     (''hinglish'', ''Hinglish (Hindi in English script, mixed with English)''), (''bn'', ''Bengali''),
     (''mr'', ''Marathi''), (''ta'', ''Tamil''), (''te'', ''Telugu''), (''gu'', ''Gujarati''),
     (''kn'', ''Kannada''), (''ml'', ''Malayalam''), (''pa'', ''Punjabi''), (''ur'', ''Urdu''),
     (''es'', ''Spanish''), (''fr'', ''French''), (''de'', ''German''), (''pt'', ''Portuguese''),
     (''it'', ''Italian''), (''nl'', ''Dutch''), (''ru'', ''Russian''), (''ar'', ''Arabic''),
     (''tr'', ''Turkish''), (''zh'', ''Chinese''), (''ja'', ''Japanese''), (''ko'', ''Korean''),
     (''id'', ''Indonesian''), (''vi'', ''Vietnamese'')]"

definition supported :: "string \<Rightarrow> bool" where
  "supported l = (map_of SUPPORTED_LANGUAGES l \<noteq> None)"

definition PERSONAL_INSTRUCTIONS_MAX :: nat where "PERSONAL_INSTRUCTIONS_MAX = 1000"
definition MAX_DEFAULT_TOOLS :: nat where "MAX_DEFAULT_TOOLS = 10"

definition mode_id_char :: "char \<Rightarrow> bool" where
  "mode_id_char c \<longleftrightarrow> is_alnum_ascii c \<or> c = CHR ''_'' \<or> c = CHR ''-''"

definition MODE_ID_match :: "string \<Rightarrow> bool" where
  "MODE_ID_match s \<longleftrightarrow> 1 \<le> length s \<and> length s \<le> 32 \<and> list_all mode_id_char s"

definition tool_id_char :: "char \<Rightarrow> bool" where
  "tool_id_char c \<longleftrightarrow> mode_id_char c \<or> c = CHR ''.'' \<or> c = CHR '':''"

text \<open>The pattern is applied to a stripped name, so the \<open>$\<close> cannot match before a final newline.\<close>

definition TOOL_ID_match :: "string \<Rightarrow> bool" where
  "TOOL_ID_match s = (case s of [] \<Rightarrow> False
     | c # cs \<Rightarrow> is_alnum_ascii c \<and> length cs \<le> 63 \<and> list_all tool_id_char cs)"

definition is_control :: "char \<Rightarrow> bool" where
  "is_control c = (let n = (of_char c :: nat) in n \<le> 8 \<or> n = 11 \<or> n = 12 \<or> (14 \<le> n \<and> n \<le> 31) \<or> n = 127)"

section \<open>Validators\<close>

definition clean_mode :: "string option \<Rightarrow> exn + string option" where
  "clean_mode v = (case v of
     None \<Rightarrow> Inr None
   | Some raw \<Rightarrow>
       (let m = lower (strip raw) in
        if m \<in> {'''', ''auto'', ''default''} then Inr None
        else if starts_with ''custom:'' m
        then (if parse_custom_ref (Some m) = None then Inl (ValueError ''Invalid custom mode reference.'')
              else Inr (Some m))
        else if \<not> MODE_ID_match m then Inl (ValueError ''Invalid mode.'')
        else Inr (Some m)))"

fun clean_tools_loop :: "string list \<Rightarrow> string list \<Rightarrow> exn + string list" where
  "clean_tools_loop [] cleaned = Inr cleaned"
| "clean_tools_loop (raw # raws) cleaned =
     (let name = strip raw in
      if \<not> TOOL_ID_match name then Inl (ValueError ''Invalid tool id'')
      else clean_tools_loop raws (if name \<in> set cleaned then cleaned else cleaned @ [name]))"

definition clean_tools :: "string list option \<Rightarrow> exn + string list option" where
  "clean_tools v = (case v of
     None \<Rightarrow> Inr None
   | Some raws \<Rightarrow>
       (case clean_tools_loop raws [] of
          Inl e \<Rightarrow> Inl e
        | Inr cleaned \<Rightarrow>
            if MAX_DEFAULT_TOOLS < length cleaned then Inl (ValueError ''At most 10 tools can be selected.'')
            else Inr (Some cleaned)))"

definition clean_instructions :: "string option \<Rightarrow> exn + string option" where
  "clean_instructions v = (case v of
     None \<Rightarrow> Inr None
   | Some raw \<Rightarrow>
       (let t = strip (filter (\<lambda>c. \<not> is_control c) raw) in
        if PERSONAL_INSTRUCTIONS_MAX < length t then Inl (ValueError ''Personal instructions'')
        else Inr (Some t)))"

record preferences =
  pf_mode :: "string option"
  pf_tools :: "string list"
  pf_length :: answer_length
  pf_tone :: tone
  pf_language :: string
  pf_instr :: string
  pf_cites :: citation_preference
  pf_doc :: document_context

definition default_preferences :: preferences where
  "default_preferences = \<lparr>pf_mode = None, pf_tools = [], pf_length = BALANCED, pf_tone = PROFESSIONAL,
     pf_language = ''auto'', pf_instr = [], pf_cites = SHOW, pf_doc = CONVERSATION\<rparr>"

text \<open>The dict of \<open>PreferencesRepository._to_dict\<close>, field by field, and \<open>UserPreferences.from_row\<close>.\<close>

definition row_mode :: "pref_row \<Rightarrow> string option" where
  "row_mode r = (case pr_custom r of Some i \<Rightarrow> Some (custom_ref i) | None \<Rightarrow> pr_mode r)"

definition or_default :: "'a option \<Rightarrow> 'a \<Rightarrow> 'a" where
  "or_default v d = (case v of None \<Rightarrow> d | Some x \<Rightarrow> x)"

definition from_row :: "pref_row option \<Rightarrow> preferences" where
  "from_row row = (case row of
     None \<Rightarrow> default_preferences
   | Some r \<Rightarrow>
       \<lparr>pf_mode = (case clean_mode (row_mode r) of Inl _ \<Rightarrow> None | Inr m \<Rightarrow> m),
        pf_tools = (case clean_tools (Some (pr_tools r)) of Inr (Some ts) \<Rightarrow> ts | _ \<Rightarrow> []),
        pf_length = or_default (length_of (pr_length r)) BALANCED,
        pf_tone = or_default (tone_of (pr_tone r)) PROFESSIONAL,
        pf_language = (if supported (pr_language r) then pr_language r else ''auto''),
        pf_instr = (case clean_instructions (Some (pr_instr r)) of Inr (Some t) \<Rightarrow> t | _ \<Rightarrow> []),
        pf_cites = or_default (cites_of (pr_cites r)) SHOW,
        pf_doc = or_default (doc_of (pr_doc r)) CONVERSATION\<rparr>)"

text \<open>
  The PATCH body. Each field is absent (\<open>None\<close>), an explicit null (\<open>Some None\<close>) or a value. A sent
  \<open>default_mode\<close> has been cleaned: the empty string stands for Auto.
\<close>

record preferences_update =
  pu_version :: "int option"
  pu_mode :: "string option"
  pu_tools :: "string list option option"
  pu_length :: "answer_length option option"
  pu_tone :: "tone option option"
  pu_language :: "string option option"
  pu_instr :: "string option option"
  pu_cites :: "citation_preference option option"
  pu_doc :: "document_context option option"

definition keep_or :: "'a option \<Rightarrow> 'a \<Rightarrow> 'a" where
  "keep_or sent stored = (case sent of None \<Rightarrow> stored | Some v \<Rightarrow> v)"

definition non_null :: "'a option \<Rightarrow> bool" where
  "non_null v = (v \<noteq> None)"

text \<open>
  \<open>UserPreferences.model_validate({**prefs.model_dump(), **patch.changes()})\<close>: a null is accepted for the
  mode, the tools and the instructions, and a validation error for the other fields.
\<close>

definition merge_patch :: "preferences \<Rightarrow> preferences_update \<Rightarrow> exn + preferences" where
  "merge_patch p u =
     (let mode = (case pu_mode u of None \<Rightarrow> pf_mode p | Some m \<Rightarrow> if m = [] then None else Some m);
          tools = keep_or (pu_tools u) (Some (pf_tools p));
          len = keep_or (pu_length u) (Some (pf_length p));
          tn = keep_or (pu_tone u) (Some (pf_tone p));
          lang = keep_or (pu_language u) (Some (pf_language p));
          instr = keep_or (pu_instr u) (Some (pf_instr p));
          ct = keep_or (pu_cites u) (Some (pf_cites p));
          dc = keep_or (pu_doc u) (Some (pf_doc p)) in
      case (clean_mode mode, clean_tools tools, clean_instructions instr, len, tn, lang, ct, dc) of
        (Inr m, Inr ts, Inr ins, Some l, Some t, Some lg, Some c, Some d) \<Rightarrow>
          if supported lg
          then Inr \<lparr>pf_mode = m, pf_tools = or_default ts [], pf_length = l, pf_tone = t, pf_language = lg,
                    pf_instr = or_default ins [], pf_cites = c, pf_doc = d\<rparr>
          else Inl (ValueError ''Unsupported language.'')
      | _ \<Rightarrow> Inl (ValueError ''validation''))"

text \<open>The validators of the PATCH body itself.\<close>

definition validate_patch :: "string option option \<Rightarrow> preferences_update \<Rightarrow> exn + preferences_update" where
  "validate_patch sent_mode u =
     (if (case pu_version u of None \<Rightarrow> False | Some v \<Rightarrow> v < 0) then Inl (ValueError ''version'') else
      case (case sent_mode of None \<Rightarrow> Inr None
              | Some m \<Rightarrow> (case clean_mode m of Inl e \<Rightarrow> Inl e | Inr c \<Rightarrow> Inr (Some (opt_text c)))) of
        Inl e \<Rightarrow> Inl e
      | Inr m \<Rightarrow>
     (case (case pu_tools u of None \<Rightarrow> Inr None
              | Some t \<Rightarrow> (case clean_tools t of Inl e \<Rightarrow> Inl e | Inr c \<Rightarrow> Inr (Some c))) of
        Inl e \<Rightarrow> Inl e
      | Inr ts \<Rightarrow>
     (case (case pu_instr u of None \<Rightarrow> Inr None
              | Some t \<Rightarrow> (case clean_instructions t of Inl e \<Rightarrow> Inl e | Inr c \<Rightarrow> Inr (Some c))) of
        Inl e \<Rightarrow> Inl e
      | Inr ins \<Rightarrow>
     (if (case pu_language u of Some (Some l) \<Rightarrow> \<not> supported l | _ \<Rightarrow> False)
      then Inl (ValueError ''Unsupported language.'')
      else Inr (u\<lparr>pu_mode := m, pu_tools := ts, pu_instr := ins\<rparr>)))))"

definition generation_preferences :: "preferences \<Rightarrow> json" where
  "generation_preferences p = JObj [
     (''answer_length'', JStr (length_value (pf_length p))),
     (''tone'', JStr (tone_value (pf_tone p))),
     (''language'', JStr (pf_language p)),
     (''language_name'', JStr (if pf_language p = ''hinglish'' then ''Hinglish''
        else or_default (map_of SUPPORTED_LANGUAGES (pf_language p)) (pf_language p))),
     (''personal_instructions'', JStr (pf_instr p)),
     (''citations'', JStr (cites_value (pf_cites p)))]"

section \<open>The repository\<close>

definition prefs_get :: "uuid \<Rightarrow> (pg, pref_row option) prog" where
  "prefs_get user = select (\<lambda>s. pg_prefs s user)"

definition doc_row :: "preferences \<Rightarrow> uuid option \<Rightarrow> int \<Rightarrow> int \<Rightarrow> pref_row" where
  "doc_row p custom version now =
     \<lparr>pr_mode = (if custom = None then pf_mode p else None), pr_custom = custom, pr_tools = pf_tools p,
      pr_length = length_value (pf_length p), pr_tone = tone_value (pf_tone p), pr_language = pf_language p,
      pr_instr = pf_instr p, pr_cites = cites_value (pf_cites p), pr_doc = doc_value (pf_doc p),
      pr_version = version, pr_updated = now\<rparr>"

text \<open>
  \<open>INSERT ... ON CONFLICT DO NOTHING\<close> for version 0, else a conditional \<open>UPDATE\<close>. A database with the constraints checks the
  row of an insertion even when it is not inserted, and the foreign key of the custom mode when it is; an integrity error is
  reported as an invalid default.
\<close>

definition save_hits :: "int \<Rightarrow> pref_row option \<Rightarrow> bool" where
  "save_hits expected current = (case current of None \<Rightarrow> expected = 0 | Some r \<Rightarrow> expected \<noteq> 0 \<and> pr_version r = expected)"

definition custom_known :: "uuid option \<Rightarrow> pg \<Rightarrow> bool" where
  "custom_known custom s = (case custom of None \<Rightarrow> True | Some c \<Rightarrow> c \<in> mo_id ` set (pg_modes s))"

definition save_stmt :: "uuid \<Rightarrow> preferences \<Rightarrow> uuid option \<Rightarrow> int \<Rightarrow> pg \<Rightarrow> (exn + int option) \<times> pg" where
  "save_stmt user p custom expected s =
     (let r = doc_row p custom (expected + 1) (pg_now s);
          hit = save_hits expected (pg_prefs s user)
      in if pg_enforced s \<and> (expected = 0 \<or> hit) \<and> \<not> pref_widths r then (Inl DbError, s)
         else if pg_enforced s \<and> ((expected = 0 \<or> hit) \<and> \<not> pref_rules r \<or> hit \<and> \<not> custom_known custom s)
         then (Inl InvalidDefaultModeError, s)
         else if hit then (Inr (Some (expected + 1)), s\<lparr>pg_prefs := (pg_prefs s)(user \<mapsto> r)\<rparr>)
         else (Inr None, s))"

definition prefs_save :: "uuid \<Rightarrow> preferences \<Rightarrow> uuid option \<Rightarrow> int \<Rightarrow> (pg, int) prog" where
  "prefs_save user p custom expected =
     bnd (sql (save_stmt user p custom expected)) (\<lambda>v. case v of
       Some n \<Rightarrow> ret n
     | None \<Rightarrow>
         bnd (select (\<lambda>s. pg_prefs s user)) (\<lambda>cur. raise (PreferencesConflictError
           (case cur of None \<Rightarrow> 0 | Some r \<Rightarrow> nat (pr_version r)))))"

definition prefs_delete :: "uuid \<Rightarrow> (pg, unit) prog" where
  "prefs_delete user = sql (\<lambda>s. (Inr (), s\<lparr>pg_prefs := (pg_prefs s)(user := None)\<rparr>))"

section \<open>The catalog of built-in modes and tools\<close>

record catalog =
  ca_modes :: "string list"
  ca_tools :: "string list"

text \<open>
  \<open>ModeCatalog.get\<close>: the cached catalog with the time it was fetched; \<open>fetched\<close> is the answer of the LLM
  service, \<open>None\<close> when the call fails. Returns the catalog and the new cache.
\<close>

definition catalog_get ::
  "int \<Rightarrow> int \<Rightarrow> catalog option \<Rightarrow> catalog option \<times> int \<Rightarrow> catalog option \<times> (catalog option \<times> int)" where
  "catalog_get now ttl fetched st = (case st of (cached, at) \<Rightarrow>
     if cached \<noteq> None \<and> now - at < ttl then (cached, st)
     else (case fetched of
        Some c \<Rightarrow> (Some c, (Some c, now))
      | None \<Rightarrow> (cached, st)))"

text \<open>\<open>cat\<close> is \<open>None\<close> when the catalog is unknown.\<close>

definition validate_catalog :: "catalog option \<Rightarrow> preferences \<Rightarrow> preferences_update \<Rightarrow> exn + unit" where
  "validate_catalog cat merged u =
     (let needs_modes = (pu_mode u \<noteq> None \<and> pu_mode u \<noteq> Some [] \<and> \<not> is_custom_ref (pf_mode merged));
          needs_tools = (case pu_tools u of Some (Some _) \<Rightarrow> True | _ \<Rightarrow> False) in
      if \<not> (needs_modes \<or> needs_tools) then Inr ()
      else (case cat of
        None \<Rightarrow> Inr ()
      | Some c \<Rightarrow>
          if needs_modes \<and> (case pf_mode merged of None \<Rightarrow> True | Some m \<Rightarrow> m \<notin> set (ca_modes c))
          then Inl UnknownCatalogItemError
          else if needs_tools \<and> (\<exists>t \<in> set (pf_tools merged). t \<notin> set (ca_tools c))
          then Inl UnknownCatalogItemError
          else Inr ()))"

section \<open>The service\<close>

record preferences_response =
  rs_prefs :: preferences
  rs_version :: int
  rs_updated :: "int option"
  rs_available :: bool

definition prefs_load :: "uuid \<Rightarrow> (pg, preferences \<times> int \<times> int option) prog" where
  "prefs_load user = bnd (prefs_get user) (\<lambda>row. ret (from_row row,
     (case row of None \<Rightarrow> 0 | Some r \<Rightarrow> pr_version r), map_option pr_updated row))"

definition default_mode_available :: "uuid \<Rightarrow> preferences \<Rightarrow> (pg, bool) prog" where
  "default_mode_available user p = (case parse_custom_ref (pf_mode p) of
     None \<Rightarrow> ret True
   | Some m \<Rightarrow> bnd (modes_get user m False) (\<lambda>r. ret (r \<noteq> None)))"

definition prefs_service_get :: "uuid \<Rightarrow> (pg, preferences_response) prog" where
  "prefs_service_get user =
     bnd (prefs_load user) (\<lambda>(p, v, t).
     bnd (default_mode_available user p) (\<lambda>ok.
     ret \<lparr>rs_prefs = p, rs_version = v, rs_updated = t, rs_available = ok\<rparr>))"

text \<open>The custom mode a merged document refers to must be an active one of the user.\<close>

definition check_default_mode :: "uuid \<Rightarrow> preferences \<Rightarrow> (pg, uuid option) prog" where
  "check_default_mode user merged = (case parse_custom_ref (pf_mode merged) of
     None \<Rightarrow> ret None
   | Some m \<Rightarrow> bnd (modes_get user m False) (\<lambda>r.
       if r = None then raise InvalidDefaultModeError else ret (Some m)))"

text \<open>
  The attempts of an update. \<open>env k\<close> is what concurrent requests do to the store between the read and the
  write of the attempt with \<open>k\<close> attempts left after it.
\<close>

definition interfere :: "(pg \<Rightarrow> pg) \<Rightarrow> (pg, unit) prog" where
  "interfere f = (\<lambda>s. (Inr (), f s))"

primrec update_loop ::
  "(nat \<Rightarrow> pg \<Rightarrow> pg) \<Rightarrow> catalog option \<Rightarrow> uuid \<Rightarrow> preferences_update \<Rightarrow> nat \<Rightarrow> (pg, preferences_response) prog" where
  "update_loop env cat user u 0 = raise (PreferencesConflictError 0)"
| "update_loop env cat user u (Suc k) =
     bnd (prefs_load user) (\<lambda>(p, stored, _).
     if (case pu_version u of None \<Rightarrow> False | Some v \<Rightarrow> v \<noteq> stored)
     then raise (PreferencesConflictError (nat stored))
     else
       bnd (lift_result (merge_patch p u)) (\<lambda>merged.
       bnd (lift_result (validate_catalog cat merged u)) (\<lambda>_.
       bnd (check_default_mode user merged) (\<lambda>custom.
       bnd (interfere (env k)) (\<lambda>_.
       attempt (bnd (prefs_save user merged custom stored) (\<lambda>_. prefs_service_get user))
         (\<lambda>e. case e of
            PreferencesConflictError n \<Rightarrow> if k = 0 then raise e else update_loop env cat user u k
          | _ \<Rightarrow> raise e))))))"

definition prefs_service_update ::
  "(nat \<Rightarrow> pg \<Rightarrow> pg) \<Rightarrow> catalog option \<Rightarrow> uuid \<Rightarrow> preferences_update \<Rightarrow> (pg, preferences_response) prog" where
  "prefs_service_update env cat user u =
     update_loop env cat user u (if pu_version u = None then 3 else 1)"

definition prefs_service_reset :: "uuid \<Rightarrow> (pg, preferences_response) prog" where
  "prefs_service_reset user = bnd (prefs_delete user) (\<lambda>_. prefs_service_get user)"

section \<open>Resolution for a message\<close>

record resolved =
  rp_mode :: "string option"
  rp_tools :: "string list option"
  rp_mode_applied :: bool
  rp_tools_applied :: bool
  rp_generation :: json
  rp_version :: int
  rp_custom :: "snapshot option"

definition truthy_str :: "string option \<Rightarrow> bool" where
  "truthy_str v = (case v of None \<Rightarrow> False | Some s \<Rightarrow> s \<noteq> [])"

definition default_applies :: "preferences \<Rightarrow> string option \<Rightarrow> bool" where
  "default_applies p mode \<longleftrightarrow> mode = None \<and> truthy_str (pf_mode p)"

definition chosen_mode :: "preferences \<Rightarrow> string option \<Rightarrow> string option" where
  "chosen_mode p mode = (if default_applies p mode then pf_mode p else mode)"

definition tools_default :: "preferences \<Rightarrow> string list option \<Rightarrow> bool" where
  "tools_default p tools \<longleftrightarrow> tools = None \<and> pf_tools p \<noteq> []"

definition resolved_with ::
  "preferences \<Rightarrow> int \<Rightarrow> string list option \<Rightarrow> string option \<Rightarrow> bool \<Rightarrow> snapshot option \<Rightarrow> resolved" where
  "resolved_with p version tools mode applied snap =
     \<lparr>rp_mode = mode, rp_tools = (if tools_default p tools then Some (pf_tools p) else tools),
      rp_mode_applied = applied, rp_tools_applied = tools_default p tools,
      rp_generation = generation_preferences p, rp_version = version, rp_custom = snap\<rparr>"

text \<open>The event's mode is the built-in path a custom mode runs on.\<close>

definition resolve_custom ::
  "uuid option \<Rightarrow> uuid \<Rightarrow> bool \<Rightarrow> bool \<Rightarrow> (string option \<Rightarrow> bool \<Rightarrow> snapshot option \<Rightarrow> resolved) \<Rightarrow> (pg, resolved) prog" where
  "resolve_custom user i explicit applied mk = (case user of
     None \<Rightarrow> raise CustomModeUnavailableError
   | Some u \<Rightarrow>
       bnd (modes_get u i False) (\<lambda>r. case r of
         None \<Rightarrow> if explicit then raise CustomModeUnavailableError else ret (mk None False None)
       | Some x \<Rightarrow> ret (mk (Some (if mo_style x = ''smart'' then ''smart'' else ''default''))
                            applied (Some (snapshot_of x)))))"

definition resolve_for_message ::
  "uuid option \<Rightarrow> string option \<Rightarrow> string list option \<Rightarrow> (pg, resolved) prog" where
  "resolve_for_message user mode tools =
     bnd (case user of
            None \<Rightarrow> ret (default_preferences, 0)
          | Some u \<Rightarrow> attempt (bnd (prefs_load u) (\<lambda>(p, v, _). ret (p, v))) (\<lambda>_. ret (default_preferences, 0)))
     (\<lambda>(p, version).
     let m = chosen_mode p mode; ref = (if truthy_str m then parse_custom_ref m else None) in
     if truthy_str m \<and> is_custom_ref m \<and> ref = None then raise CustomModeUnavailableError
     else (case ref of
        None \<Rightarrow> ret (resolved_with p version tools m (default_applies p mode) None)
      | Some i \<Rightarrow> resolve_custom user i (mode \<noteq> None) (default_applies p mode) (resolved_with p version tools)))"

section \<open>No lost update\<close>

definition stored_version :: "pref_row option \<Rightarrow> int" where
  "stored_version row = (case row of None \<Rightarrow> 0 | Some r \<Rightarrow> pr_version r)"

lemma stored_version_simps [simp]: "stored_version None = 0" "stored_version (Some r) = pr_version r"
  by (simp_all add: stored_version_def)

lemma wp_lift [wp_simps]:
  "wp (lift_result r) Q E s = (case r of Inl e \<Rightarrow> E e s | Inr a \<Rightarrow> Q a s)"
  by (cases r) (simp_all add: lift_result_def wp_simps)

lemma wp_interfere [wp_simps]: "wp (interfere f) Q E = (\<lambda>s. Q () (f s))"
  by (simp add: wp_def interfere_def fun_eq_iff)

lemma wp_save_stmt:
  "wp (save_stmt user p c v)
     (\<lambda>res s'. case res of None \<Rightarrow> s' = s
        | Some n \<Rightarrow> n = v + 1 \<and> stored_version (pg_prefs s user) = v \<and>
            s' = s\<lparr>pg_prefs := (pg_prefs s)(user \<mapsto> doc_row p c (v + 1) (pg_now s))\<rparr>)
     (\<lambda>e s'. s' = s \<and> (e = DbError \<or> e = InvalidDefaultModeError)) s"
  by (auto simp: wp_def save_stmt_def save_hits_def Let_def split: option.splits)

text \<open>Reads change nothing but the schedule.\<close>

definition only_read :: "pg \<Rightarrow> pg \<Rightarrow> bool" where
  "only_read s s' \<longleftrightarrow> (\<exists>d. s' = s\<lparr>pg_down := d\<rparr>)"

lemma only_read_pop [simp, intro]: "only_read s s" "only_read s t \<Longrightarrow> only_read s (pg_pop t)"
  by (auto simp: only_read_def pg_pop_def intro: exI [of _ "pg_down s"])

lemma only_read_fields: "only_read s s' \<Longrightarrow> pg_prefs s' = pg_prefs s \<and> pg_now s' = pg_now s"
  by (auto simp: only_read_def)

lemma wp_prefs_service_get_read:
  assumes "only_read t s"
  shows "wp (prefs_service_get user) (\<lambda>_. only_read t) (\<lambda>e s'. e = DbError \<and> only_read t s') s"
  using assms
  by (auto simp: prefs_service_get_def prefs_load_def prefs_get_def default_mode_available_def modes_get_def wp_simps
      split: option.split)

lemma wp_check_default_mode_read:
  assumes "only_read t s"
  shows "wp (check_default_mode user m) (\<lambda>custom s'. custom = parse_custom_ref (pf_mode m) \<and> only_read t s') (\<lambda>_ _. True) s"
  using assms by (auto simp: check_default_mode_def modes_get_def wp_simps split: option.split)

lemma doc_row_version [simp]: "pr_version (doc_row p c v t) = v"
  by (simp add: doc_row_def)

text \<open>
  Concurrent requests that only ever write new versions: they may change or create the document, but a
  version they leave in place still names the same document.
\<close>

definition honest :: "(nat \<Rightarrow> pg \<Rightarrow> pg) \<Rightarrow> uuid \<Rightarrow> bool" where
  "honest env user \<longleftrightarrow> (\<forall>k s.
     (\<forall>r r'. pg_prefs s user = Some r \<longrightarrow> pg_prefs (env k s) user = Some r' \<longrightarrow>
        pr_version r' = pr_version r \<longrightarrow> r' = r) \<and>
     (\<forall>r'. pg_prefs (env k s) user = Some r' \<longrightarrow> 1 \<le> pr_version r'))"

text \<open>
  \<open>overtaken env n s k t\<close>: of an update that started on \<open>s\<close> with \<open>n\<close> attempts, \<open>t\<close> is a store in which the concurrent
  requests of the attempts down to the one with \<open>k\<close> left have all run, in this order, and the update itself has only read. The
  requests \<open>env\<close> are arbitrary, so they may leave a trace of their own at each step (in the clock, say): a base that is reached
  with fewer of them is another store.
\<close>

inductive overtaken :: "(nat \<Rightarrow> pg \<Rightarrow> pg) \<Rightarrow> nat \<Rightarrow> pg \<Rightarrow> nat \<Rightarrow> pg \<Rightarrow> bool" for env n s where
  overtaken_start: "overtaken env n s n s"
| overtaken_read: "overtaken env n s k t \<Longrightarrow> only_read t t' \<Longrightarrow> overtaken env n s k t'"
| overtaken_others: "overtaken env n s (Suc k) t \<Longrightarrow> overtaken env n s k (env k t)"

text \<open>
  What the write made of the store \<open>base\<close> it found: the whole store afterwards is \<open>base\<close> but for the document of the user,
  which is the patch merged into the document of \<open>base\<close>, under the next version.
\<close>

definition saved_on :: "pg \<Rightarrow> uuid \<Rightarrow> preferences_update \<Rightarrow> pg \<Rightarrow> bool" where
  "saved_on base user u s' \<longleftrightarrow> (\<exists>merged.
     merge_patch (from_row (pg_prefs base user)) u = Inr merged \<and>
     (case pu_version u of None \<Rightarrow> True | Some v \<Rightarrow> stored_version (pg_prefs base user) = v) \<and>
     only_read (base\<lparr>pg_prefs := (pg_prefs base)(user \<mapsto>
       doc_row merged (parse_custom_ref (pf_mode merged)) (stored_version (pg_prefs base user) + 1) (pg_now base))\<rparr>) s')"

definition atomic_at :: "(nat \<Rightarrow> pg \<Rightarrow> pg) \<Rightarrow> nat \<Rightarrow> pg \<Rightarrow> uuid \<Rightarrow> preferences_update \<Rightarrow> pg \<Rightarrow> bool" where
  "atomic_at env n s user u s' \<longleftrightarrow> (\<exists>k base. k < n \<and> overtaken env n s k base \<and> saved_on base user u s')"

definition positive_version :: "pg \<Rightarrow> uuid \<Rightarrow> bool" where
  "positive_version s user \<longleftrightarrow> (case pg_prefs s user of None \<Rightarrow> True | Some r \<Rightarrow> 1 \<le> pr_version r)"

lemma honest_base:
  assumes "honest env user" and "positive_version s user"
    and "stored_version (pg_prefs (env k s) user) = stored_version (pg_prefs s user)"
  shows "pg_prefs (env k s) user = pg_prefs s user"
  using assms unfolding honest_def positive_version_def
  by (cases "pg_prefs s user"; cases "pg_prefs (env k s) user") force+

lemma honest_positive: "honest env user \<Longrightarrow> positive_version (env k s) user"
  by (simp add: honest_def positive_version_def split: option.split)

lemma positive_read: "only_read s t \<Longrightarrow> positive_version t user = positive_version s user"
  by (simp add: positive_version_def only_read_fields)

text \<open>One attempt: \<open>s\<close> is the store it read, \<open>t\<close> the store after its reads, on which the concurrent requests then act.\<close>

lemma wp_save_and_get:
  assumes env: "honest env user" and pos: "positive_version s user" and read: "only_read s t"
    and t: "overtaken env n s0 (Suc k) t" "k < n"
    and merged: "merge_patch (from_row (pg_prefs s user)) u = Inr merged"
    and ver: "case pu_version u of None \<Rightarrow> True | Some v \<Rightarrow> v = stored_version (pg_prefs s user)"
  shows "wp (bnd (prefs_save user merged (parse_custom_ref (pf_mode merged)) (stored_version (pg_prefs s user))) (\<lambda>_. prefs_service_get user))
     (\<lambda>_. atomic_at env n s0 user u)
     (\<lambda>e s'. \<forall>m. e = PreferencesConflictError m \<longrightarrow> overtaken env n s0 k s' \<and> positive_version s' user) (env k t)"
proof -
  let ?v = "stored_version (pg_prefs s user)" and ?b = "pg_pop (env k t)"
  let ?E = "\<lambda>e s'. \<forall>m. e = PreferencesConflictError m \<longrightarrow> overtaken env n s0 k s' \<and> positive_version s' user"
  let ?row = "doc_row merged (parse_custom_ref (pf_mode merged)) (?v + 1) (pg_now ?b)"
  have at: "overtaken env n s0 k ?b" "positive_version ?b user"
    using overtaken_read [OF overtaken_others [OF t(1)]] honest_positive [OF env, of k t]
    by (simp_all add: positive_version_def)
  have conflict: "?E e s'" if "only_read ?b s'" for e s'
    using that overtaken_read [OF at(1)] at(2) by (simp add: positive_read)
  have popped: "overtaken env n s0 k (pg_pop ?b)" "positive_version (pg_pop ?b) user"
    using overtaken_read [OF at(1)] at(2) by (simp_all add: positive_version_def)
  have atomic: "atomic_at env n s0 user u s'"
    if "stored_version (pg_prefs ?b user) = ?v" and "only_read (?b\<lparr>pg_prefs := (pg_prefs ?b)(user \<mapsto> ?row)\<rparr>) s'" for s'
  proof -
    have "pg_prefs ?b user = pg_prefs s user"
      using honest_base [OF env, of t k] that(1) pos read by (simp add: positive_read only_read_fields)
    then have "saved_on ?b user u s'" using that merged ver by (auto simp: saved_on_def split: option.splits)
    then show ?thesis using at(1) t(2) by (auto simp: atomic_at_def)
  qed
  have get: "wp (prefs_service_get user) (\<lambda>_. atomic_at env n s0 user u) ?E s1"
    if "stored_version (pg_prefs ?b user) = ?v" and "s1 = ?b\<lparr>pg_prefs := (pg_prefs ?b)(user \<mapsto> ?row)\<rparr>" for s1
    by (rule wp_mono [OF wp_prefs_service_get_read [of s1 s1]]) (use that atomic in auto)
  have "wp (save_stmt user merged (parse_custom_ref (pf_mode merged)) ?v)
      (\<lambda>res. wp (case res of Some n \<Rightarrow> ret n | None \<Rightarrow> bnd (select (\<lambda>s. pg_prefs s user)) (\<lambda>cur.
           raise (PreferencesConflictError (case cur of None \<Rightarrow> 0 | Some r \<Rightarrow> nat (pr_version r)))))
        (\<lambda>_. wp (prefs_service_get user) (\<lambda>_. atomic_at env n s0 user u) ?E) ?E) ?E ?b"
  proof (rule wp_mono [OF wp_save_stmt], goal_cases)
    case (1 res s1)
    then show ?case using get popped by (cases res) (auto simp: wp_simps)
  qed (use conflict in auto)
  then show ?thesis
    unfolding wp_bnd prefs_save_def wp_sql using conflict by simp
qed

lemma wp_update_loop:
  assumes env: "honest env user"
  shows "m \<le> n \<Longrightarrow> overtaken env n s0 m s \<Longrightarrow> positive_version s user \<Longrightarrow>
    wp (update_loop env cat user u m) (\<lambda>_. atomic_at env n s0 user u) (\<lambda>_ _. True) s"
proof (induction m arbitrary: s)
  case 0
  then show ?case by (simp add: wp_simps)
next
  case (Suc k)
  let ?p = "from_row (pg_prefs s user)" and ?v = "stored_version (pg_prefs s user)"
  let ?Q = "\<lambda>_ :: preferences_response. atomic_at env n s0 user u"
  have tries: "wp (attempt (bnd (prefs_save user merged (parse_custom_ref (pf_mode merged)) ?v) (\<lambda>_. prefs_service_get user))
         (\<lambda>e. case e of PreferencesConflictError n \<Rightarrow> if k = 0 then raise e else update_loop env cat user u k
          | _ \<Rightarrow> raise e)) ?Q (\<lambda>_ _. True) (env k t)"
    if "merge_patch ?p u = Inr merged" "case pu_version u of None \<Rightarrow> True | Some v \<Rightarrow> v = ?v" "only_read s t"
    for merged t
    unfolding wp_attempt
    by (rule wp_mono [OF wp_save_and_get [OF env Suc.prems(3) that(3) overtaken_read [OF Suc.prems(2) that(3)] _ that(1,2)]])
       (use Suc.prems(1) Suc.IH in \<open>auto simp: wp_simps split: exn.split\<close>)
  have body: "wp (bnd (lift_result (merge_patch ?p u)) (\<lambda>merged.
       bnd (lift_result (validate_catalog cat merged u)) (\<lambda>_.
       bnd (check_default_mode user merged) (\<lambda>custom.
       bnd (interfere (env k)) (\<lambda>_.
       attempt (bnd (prefs_save user merged custom ?v) (\<lambda>_. prefs_service_get user))
         (\<lambda>e. case e of PreferencesConflictError n \<Rightarrow> if k = 0 then raise e else update_loop env cat user u k
          | _ \<Rightarrow> raise e)))))) ?Q (\<lambda>_ _. True) (pg_pop s)"
    if "case pu_version u of None \<Rightarrow> True | Some v \<Rightarrow> v = ?v"
  proof (cases "merge_patch ?p u")
    case (Inr merged)
    have "wp (check_default_mode user merged) (\<lambda>custom t. wp (attempt
         (bnd (prefs_save user merged custom ?v) (\<lambda>_. prefs_service_get user))
         (\<lambda>e. case e of PreferencesConflictError n \<Rightarrow> if k = 0 then raise e else update_loop env cat user u k
          | _ \<Rightarrow> raise e)) ?Q (\<lambda>_ _. True) (env k t)) (\<lambda>_ _. True) (pg_pop s)"
      by (rule wp_mono [OF wp_check_default_mode_read [of s]]) (use tries [OF Inr that] in auto)
    then show ?thesis by (simp add: Inr wp_bnd wp_lift wp_interfere split: sum.split)
  qed (simp add: wp_simps)
  then show ?case
    using body by (auto simp: prefs_load_def prefs_get_def wp_simps stored_version_def split: option.splits)
qed

section \<open>Resolution\<close>

lemma lower_char_colon: "lower_char c = CHR '':'' \<Longrightarrow> c = CHR '':''"
proof (rule ccontr)
  assume l: "lower_char c = CHR '':''" and "c \<noteq> CHR '':''"
  then have r: "(65 \<le> (of_char c :: nat) \<and> of_char c \<le> (90 :: nat)) \<or> (192 \<le> (of_char c :: nat) \<and> of_char c \<le> (222 :: nat))"
    and up: "lower_char c = char_of (of_char c + 32 :: nat)"
    by (auto simp: lower_char_def Let_def split: if_splits)
  have "(of_char (char_of (of_char c + 32 :: nat) :: char) :: nat) = of_char (CHR '':'')"
    by (rule arg_cong [of _ _ of_char]) (rule trans [OF up [symmetric] l])
  then show False using r by auto
qed

lemma set_strip: "set (strip s) \<subseteq> set s"
  unfolding strip_def rstrip_def lstrip_def by (auto dest!: set_dropWhileD)

lemma mode_id_no_colon: "list_all mode_id_char s \<Longrightarrow> CHR '':'' \<notin> set s"
  by (auto simp: list_all_iff mode_id_char_def is_alnum_ascii_def is_digit_def is_lower_az_def is_upper_az_def)

lemma not_custom_ref:
  assumes "MODE_ID_match m"
  shows "\<not> is_custom_ref (Some m)"
proof
  assume "is_custom_ref (Some m)"
  then have t: "take (length ''custom:'') (lower (strip m)) = ''custom:''"
    unfolding is_custom_ref_def opt_text_def starts_with_def option.case .
  have "CHR '':'' \<in> set (take (length ''custom:'') (lower (strip m)))" unfolding t by simp
  then have "CHR '':'' \<in> set (lower (strip m))" by (rule set_takeD)
  then obtain c where "c \<in> set (strip m)" "lower_char c = CHR '':''" by (auto simp: lower_def)
  then have "CHR '':'' \<in> set m" using lower_char_colon set_strip by blast
  then show False using assms mode_id_no_colon by (auto simp: MODE_ID_match_def)
qed

text \<open>A cleaned mode that is a custom reference always parses.\<close>

lemma clean_mode_ref: "clean_mode v = Inr (Some m) \<Longrightarrow> is_custom_ref (Some m) \<Longrightarrow> parse_custom_ref (Some m) \<noteq> None"
  using not_custom_ref by (auto simp: clean_mode_def Let_def split: option.splits if_splits)

lemma from_row_mode: "pf_mode (from_row row) = Some m \<Longrightarrow> \<exists>v. clean_mode v = Inr (Some m)"
  by (auto simp: from_row_def default_preferences_def split: option.splits sum.splits)

definition owned_snapshot :: "pg \<Rightarrow> uuid \<Rightarrow> snapshot option \<Rightarrow> bool" where
  "owned_snapshot s user snap = (case snap of None \<Rightarrow> True
     | Some x \<Rightarrow> (\<exists>row \<in> set (pg_modes s). mo_owner row = user \<and> mode_active row \<and> x = snapshot_of row))"

lemma find_mode_owned: "find_mode user i False s = Some row \<Longrightarrow> row \<in> set (pg_modes s) \<and> mo_owner row = user \<and> mode_active row"
  by (auto simp: find_mode_def dest!: find_iff)

lemma resolved_with_simps [simp]:
  "rp_custom (resolved_with p v ts m a snap) = snap" "rp_mode_applied (resolved_with p v ts m a snap) = a"
  "rp_tools_applied (resolved_with p v ts m a snap) = tools_default p ts"
  "rp_tools (resolved_with p v ts m a snap) = (if tools_default p ts then Some (pf_tools p) else ts)"
  by (simp_all add: resolved_with_def)

definition resolution_ok :: "pg \<Rightarrow> uuid \<Rightarrow> string option \<Rightarrow> string list option \<Rightarrow> resolved \<Rightarrow> bool" where
  "resolution_ok s user mode tools r \<longleftrightarrow>
     owned_snapshot s user (rp_custom r) \<and> (mode = None \<or> \<not> rp_mode_applied r) \<and>
     (tools = None \<or> (rp_tools r = tools \<and> \<not> rp_tools_applied r))"

lemma resolution_ok_with:
  "owned_snapshot s user snap \<Longrightarrow> mode = None \<or> \<not> a \<Longrightarrow> resolution_ok s user mode tools (resolved_with p v tools m a snap)"
  by (auto simp: resolution_ok_def tools_default_def)

lemma wp_resolve_custom:
  assumes "pg_modes t = pg_modes s" and "mode = None \<or> \<not> a"
  shows "wp (resolve_custom (Some user) i ex a (resolved_with p v tools))
     (\<lambda>r _. resolution_ok s user mode tools r) (\<lambda>e _. e = CustomModeUnavailableError \<or> e = DbError) t"
  using assms
  by (auto simp: resolve_custom_def modes_get_def wp_simps owned_snapshot_def find_mode_def
      split: option.split dest!: find_iff intro!: resolution_ok_with)

lemma wp_resolve_owned:
  "wp (resolve_for_message (Some user) mode tools)
     (\<lambda>r _. resolution_ok s user mode tools r) (\<lambda>e _. e = CustomModeUnavailableError \<or> e = DbError) s"
proof -
  have rest: "wp (let m = chosen_mode p mode; ref = (if truthy_str m then parse_custom_ref m else None) in
     if truthy_str m \<and> is_custom_ref m \<and> ref = None then raise CustomModeUnavailableError
     else (case ref of
        None \<Rightarrow> ret (resolved_with p version tools m (default_applies p mode) None)
      | Some i \<Rightarrow> resolve_custom (Some user) i (mode \<noteq> None) (default_applies p mode) (resolved_with p version tools)))
     (\<lambda>r _. resolution_ok s user mode tools r) (\<lambda>e _. e = CustomModeUnavailableError \<or> e = DbError) t"
    if "pg_modes t = pg_modes s" for p version t
  proof -
    have a: "mode = None \<or> \<not> default_applies p mode" by (auto simp: default_applies_def)
    have "resolution_ok s user mode tools (resolved_with p version tools m (default_applies p mode) None)" for m
      by (rule resolution_ok_with) (use a in \<open>simp_all add: owned_snapshot_def\<close>)
    then show ?thesis using wp_resolve_custom [OF that a]
      by (cases "if truthy_str (chosen_mode p mode) then parse_custom_ref (chosen_mode p mode) else None")
         (simp_all add: wp_simps Let_def)
  qed
  show ?thesis
    unfolding resolve_for_message_def option.case wp_bnd wp_attempt prefs_load_def prefs_get_def wp_sql wp_select
    by (auto simp: wp_bnd wp_ret wp_case_prod prefs_load_def rest)
qed

text \<open>With a working store and no explicit mode, resolution always succeeds and changes nothing.\<close>

lemma wp_resolve_total:
  assumes "pg_calm s"
  shows "wp (resolve_for_message (Some user) None tools) (\<lambda>_ s'. s' = s) (\<lambda>_ _. False) s"
proof -
  let ?p = "from_row (pg_prefs s user)"
  have ref: "is_custom_ref (pf_mode ?p) \<Longrightarrow> truthy_str (pf_mode ?p) \<Longrightarrow> parse_custom_ref (pf_mode ?p) \<noteq> None"
    using from_row_mode clean_mode_ref by (cases "pf_mode ?p") (fastforce simp: truthy_str_def)+
  have custom: "wp (resolve_custom (Some user) i False a res) (\<lambda>_ s'. s' = s) (\<lambda>_ _. False) s" for i a res
    using assms by (simp add: resolve_custom_def modes_get_def wp_simps split: option.split)
  show ?thesis
    unfolding resolve_for_message_def option.case wp_bnd wp_attempt prefs_load_def prefs_get_def wp_sql wp_select
    using assms ref
    by (cases "parse_custom_ref (pf_mode ?p)")
       (auto simp: wp_simps chosen_mode_def default_applies_def custom Let_def truthy_str_def)
qed

section \<open>Properties\<close>

text \<open>C9:
  A preference update is never lost and takes effect at one moment: it may run against any concurrent requests that only write
  new versions. If it returns, there is a moment among its attempts (three, or one when the client sent a version) such that the
  store it leaves is exactly the store that the concurrent requests had made by then, except that the user's document is
  now the patch merged into the document of that store, under the next version; when the client sent a version, it is that of
  the document replaced. So the write never goes over a document that it has not read.
\<close>

theorem preferences_update_not_lost:
  assumes "honest env user" and "positive_version s user"
  shows "wp (prefs_service_update env cat user u)
     (\<lambda>_ s'. \<exists>k base. k < (if pu_version u = None then 3 else 1) \<and>
        overtaken env (if pu_version u = None then 3 else 1) s k base \<and> saved_on base user u s') (\<lambda>_ _. True) s"
  using wp_update_loop [OF assms(1) le_refl overtaken_start assms(2)]
  unfolding prefs_service_update_def atomic_at_def by blast

definition tone_patch :: "int option \<Rightarrow> tone \<Rightarrow> preferences_update" where
  "tone_patch v t = \<lparr>pu_version = v, pu_mode = None, pu_tools = None, pu_length = None, pu_tone = Some (Some t),
     pu_language = None, pu_instr = None, pu_cites = None, pu_doc = None\<rparr>"

definition length_patch :: "int option \<Rightarrow> answer_length \<Rightarrow> preferences_update" where
  "length_patch v l = \<lparr>pu_version = v, pu_mode = None, pu_tools = None, pu_length = Some (Some l), pu_tone = None,
     pu_language = None, pu_instr = None, pu_cites = None, pu_doc = None\<rparr>"

text \<open>Another request saves a first document between the read and the write of the first attempt.\<close>

definition rival :: "nat \<Rightarrow> pg \<Rightarrow> pg" where
  "rival k s = (if k = 2 \<and> pg_prefs s 3 = None
     then s\<lparr>pg_prefs := (pg_prefs s)(3 \<mapsto> doc_row (default_preferences\<lparr>pf_length := CONCISE\<rparr>) None 1 0)\<rparr>
     else s\<lparr>pg_prefs := (\<lambda>u. case pg_prefs s u of None \<Rightarrow> None | Some r \<Rightarrow> if 1 \<le> pr_version r then Some r else None)\<rparr>)"

theorem preferences_update_not_lost_witness:
  "wp (prefs_service_update rival None 3 (tone_patch None FRIENDLY))
     (\<lambda>_ s'. \<exists>k base. k < 3 \<and> overtaken rival 3 empty_pg k base \<and> saved_on base 3 (tone_patch None FRIENDLY) s') (\<lambda>_ _. True) empty_pg"
proof -
  have "honest rival 3" by (auto simp: honest_def rival_def split: if_splits option.splits)
  moreover have "positive_version empty_pg 3" by (simp add: positive_version_def empty_pg_def)
  ultimately have "wp (prefs_service_update rival None 3 (tone_patch None FRIENDLY))
     (\<lambda>_ s'. \<exists>k base. k < (if pu_version (tone_patch None FRIENDLY) = None then 3 else 1) \<and>
        overtaken rival (if pu_version (tone_patch None FRIENDLY) = None then 3 else 1) empty_pg k base \<and>
        saved_on base 3 (tone_patch None FRIENDLY) s') (\<lambda>_ _. True) empty_pg"
    by (rule preferences_update_not_lost)
  then show ?thesis by (simp add: tone_patch_def)
qed

definition reset_story :: "(pg, preferences_response \<times> preferences_response \<times> preferences_response) prog" where
  "reset_story =
     bnd (prefs_service_update (\<lambda>_ s. s) None 3 (tone_patch None SIMPLE)) (\<lambda>seen.
     bnd (prefs_service_reset 3) (\<lambda>_.
     bnd (prefs_service_update (\<lambda>_ s. s) None 3 (tone_patch None FRIENDLY)) (\<lambda>newer.
     bnd (prefs_service_update (\<lambda>_ s. s) None 3 (length_patch (Some (rs_version seen)) CONCISE)) (\<lambda>final.
     ret (seen, newer, final)))))"

text \<open>
  Resetting restarts the version count, so an old version can name a new document. A client reads its
  preferences at version 1; they are reset and saved again elsewhere (friendly tone, version 1 again);
  the client's update sent with version 1 is accepted, although the document it was made against is gone.
\<close>

theorem reset_reuses_versions:
  "case fst (reset_story empty_pg) of
     Inl _ \<Rightarrow> False
   | Inr (seen, newer, final) \<Rightarrow> rs_version seen = rs_version newer \<and> rs_prefs seen \<noteq> rs_prefs newer \<and>
       rs_version final = 2"
  by code_simp

text \<open>
  Resolving the preferences of a message is owner scoped and respects explicit choices, whatever
  statements fail: the custom mode that travels with the message is an active mode of that user; an
  explicit tool list is kept as it is; an explicit mode is never flagged as a default; and the only
  errors are an unavailable custom mode and a failing store.
\<close>

theorem resolution_is_owner_scoped:
  "wp (resolve_for_message (Some user) mode tools)
     (\<lambda>r _. resolution_ok s user mode tools r) (\<lambda>e _. e = CustomModeUnavailableError \<or> e = DbError) s"
  by (rule wp_resolve_owned)

lemma clean_mode_custom_ref: "clean_mode (Some (custom_ref i)) = Inr (Some (custom_ref i))"
  by (simp add: clean_mode_def Let_def) (simp add: custom_ref_def starts_with_def)

text \<open>
  The resolution does fail because of a saved default, against its contract, when the store answers the
  first read and not the second: a user whose default is a custom mode cannot send any message without an
  explicit mode, although with the first read failing too the message would go out.
\<close>

theorem default_mode_read_failure_blocks_send:
  assumes "pg_prefs s user = Some r" and "pr_custom r = Some i"
  shows "wp (resolve_for_message (Some user) None tools) (\<lambda>_ _. False) (\<lambda>e _. e = DbError)
           (s\<lparr>pg_down := [False, True]\<rparr>) \<and>
         wp (resolve_for_message (Some user) None tools) (\<lambda>_ _. True) (\<lambda>_ _. False)
           (s\<lparr>pg_down := [True, True]\<rparr>)"
proof -
  have mode: "pf_mode (from_row (Some r)) = Some (custom_ref i)"
    using assms(2) by (simp add: from_row_def row_mode_def clean_mode_custom_ref)
  have "custom_ref i \<noteq> []" by (simp add: custom_ref_def)
  then show ?thesis
    using assms(1) mode
    by (simp add: resolve_for_message_def resolve_custom_def chosen_mode_def default_applies_def prefs_load_def
        prefs_get_def modes_get_def wp_simps pg_fails_def pg_pop_def truthy_str_def default_preferences_def)
qed

theorem default_mode_read_failure_blocks_send_witness:
  "wp (resolve_for_message (Some 3) None None) (\<lambda>_ _. False) (\<lambda>e _. e = DbError)
     (empty_pg\<lparr>pg_prefs := [3 \<mapsto> doc_row default_preferences (Some 8) 1 0], pg_down := [False, True]\<rparr>)"
  using default_mode_read_failure_blocks_send [of "empty_pg\<lparr>pg_prefs := [3 \<mapsto> doc_row default_preferences (Some 8) 1 0]\<rparr>"
      3 "doc_row default_preferences (Some 8) 1 0" 8 None]
  by (simp add: doc_row_def)

end
