(* ===== verification/Message_Service.thy ===== *)
theory Message_Service
  imports Branch_Context Preferences
begin

text \<open>
  \<open>app/services/message_service.py\<close>: sending and regenerating messages, the pending-response marker
  in Redis, history, and the terminal writes of the consumers. The preferences service runs on its own
  store, so its answer \<open>resolve\<close> is an argument (\<open>None\<close>: no service); fresh UUIDs and the correlation id
  are arguments too: \<open>cand\<close> lists the UUIDv7 candidates drawn for the response id.
\<close>

definition PENDING_RESPONSE_TIMEOUT_SECONDS :: int where "PENDING_RESPONSE_TIMEOUT_SECONDS = 120"
definition PENDING_RESPONSE_MARKER_GRACE_SECONDS :: int where "PENDING_RESPONSE_MARKER_GRACE_SECONDS = 300"
definition HISTORY_EVENT_MAX_MESSAGES :: nat where "HISTORY_EVENT_MAX_MESSAGES = 10"
definition HISTORY_EVENT_MAX_MESSAGE_CHARS :: nat where "HISTORY_EVENT_MAX_MESSAGE_CHARS = 2000"
definition HISTORY_EVENT_MAX_CHARS :: int where "HISTORY_EVENT_MAX_CHARS = 8000"

lemmas history_limits = HISTORY_EVENT_MAX_MESSAGES_def HISTORY_EVENT_MAX_MESSAGE_CHARS_def HISTORY_EVENT_MAX_CHARS_def
lemmas pending_limits = PENDING_RESPONSE_TIMEOUT_SECONDS_def PENDING_RESPONSE_MARKER_GRACE_SECONDS_def

type_synonym resolver = "(uuid option \<Rightarrow> string option \<Rightarrow> string list option \<Rightarrow> exn + resolved) option"

definition resolve_preferences ::
  "resolver \<Rightarrow> uuid option \<Rightarrow> string option \<Rightarrow> string list option \<Rightarrow> (world, resolved) prog" where
  "resolve_preferences prefs user mode tools = (case prefs of
     None \<Rightarrow> ret \<lparr>rp_mode = mode, rp_tools = tools, rp_mode_applied = False, rp_tools_applied = False,
                 rp_generation = JObj [], rp_version = 0, rp_custom = None\<rparr>
   | Some resolve \<Rightarrow> lift_result (resolve user mode tools))"

section \<open>The request event\<close>

text \<open>One turn of the history sent with a request: own turns carry their id, inherited ones their source.\<close>

record turn =
  tu_role :: "string option"
  tu_content :: string
  tu_msg :: "uuid option"
  tu_source :: "uuid option"

definition turn_json :: "turn \<Rightarrow> json" where
  "turn_json t = JObj ([(''role'', opt_str (tu_role t)), (''content'', JStr (tu_content t))] @
     (case tu_msg t of None \<Rightarrow> [] | Some m \<Rightarrow> [(''message_id'', JStr (uuid_str m))]) @
     (case tu_source t of None \<Rightarrow> []
      | Some c \<Rightarrow> [(''inherited'', JBool True), (''source_conversation_id'', JStr (uuid_str c))]))"

definition build_chat_message_created ::
  "int \<Rightarrow> string \<Rightarrow> uuid \<Rightarrow> uuid \<Rightarrow> uuid option \<Rightarrow> string option \<Rightarrow> resolved \<Rightarrow> uuid list \<Rightarrow> uuid option \<Rightarrow> json
   \<Rightarrow> turn list \<Rightarrow> json \<Rightarrow> snapshot option \<Rightarrow> bool \<Rightarrow> json" where
  "build_chat_message_created now corr cid mid user content r files response metadata history ancestors custom diagrams =
     JObj [
       (''event_type'', JStr ''chat.message.created''),
       (''schema_version'', JStr ''2.3''),
       (''message_id'', JStr (uuid_str mid)),
       (''response_message_id'', opt_uuid response),
       (''conversation_id'', JStr (uuid_str cid)),
       (''user_id'', JStr (case user of None \<Rightarrow> [] | Some u \<Rightarrow> uuid_str u)),
       (''content'', opt_str content),
       (''mode_hint'', opt_str (rp_mode r)),
       (''selected_tools'', JList (case rp_tools r of None \<Rightarrow> [] | Some ts \<Rightarrow> map JStr ts)),
       (''include_diagrams'', JBool diagrams),
       (''file_ids'', JList (map (\<lambda>f. JStr (uuid_str f)) files)),
       (''history'', JList (map turn_json history)),
       (''ancestors'', ancestors),
       (''custom_mode'', (case custom of None \<Rightarrow> JNull | Some s \<Rightarrow> snapshot_json s)),
       (''preferences'', rp_generation r),
       (''defaults_applied'', JObj [(''mode'', JBool (rp_mode_applied r)), (''tools'', JBool (rp_tools_applied r))]),
       (''metadata'', metadata),
       (''trace_context'', JObj [(''traceparent'', JStr corr), (''tracestate'', JStr [])]),
       (''timestamp'', JStr (iso_utc now))]"

text \<open>The loop of \<open>_format_history\<close>: newest first in, \<open>picked\<close> with the newest at its end.\<close>

fun format_loop :: "message list \<Rightarrow> turn list \<Rightarrow> int \<Rightarrow> turn list" where
  "format_loop [] picked budget = picked"
| "format_loop (m # ms) picked budget =
     (if m_sender m \<noteq> Some ''user'' \<and> m_sender m \<noteq> Some ''assistant'' then format_loop ms picked budget
      else if m_status m \<noteq> SENT \<or> message_text m = [] then format_loop ms picked budget
      else (let text = take HISTORY_EVENT_MAX_MESSAGE_CHARS (message_text m); n = int (length text) in
        if budget - n < 0 \<and> picked \<noteq> [] then picked
        else (let picked' = \<lparr>tu_role = m_sender m, tu_content = text, tu_msg = Some (m_id m), tu_source = None\<rparr> # picked in
          if HISTORY_EVENT_MAX_MESSAGES \<le> length picked' then picked'
          else format_loop ms picked' (budget - n))))"

definition format_history :: "message list \<Rightarrow> turn list" where
  "format_history ms = format_loop ms [] HISTORY_EVENT_MAX_CHARS"

section \<open>History\<close>

definition ms_history :: "uuid \<Rightarrow> nat \<Rightarrow> uuid option \<Rightarrow> (world, message list) prog" where
  "ms_history cid limit cursor =
     bnd (if cursor = None then cache_get_last_50 cid limit else ret None) (\<lambda>hit. case hit of
       Some ms \<Rightarrow> ret ms
     | None \<Rightarrow>
         bnd (msg_history cid limit cursor) (\<lambda>ms.
         bnd (if cursor = None \<and> ms \<noteq> [] then cache_set_last_50 cid ms else ret ()) (\<lambda>_.
         ret ms)))"

definition recent_history :: "uuid \<Rightarrow> (world, turn list) prog" where
  "recent_history cid =
     bnd (attempt (bnd (ms_history cid (HISTORY_EVENT_MAX_MESSAGES * 2) None) (\<lambda>ms. ret (Some ms))) (\<lambda>_. ret None))
       (\<lambda>r. ret (case r of None \<Rightarrow> [] | Some ms \<Rightarrow> format_history ms))"

definition branch_event_context :: "uuid \<Rightarrow> turn list \<Rightarrow> (world, turn list \<times> json) prog" where
  "branch_event_context cid own =
     attempt
       (bnd (conv_service_get cid) (\<lambda>found. case found of
          None \<Rightarrow> ret (own, JList [])
        | Some conv \<Rightarrow>
            if cv_parent conv = None then ret (own, JList [])
            else bnd (event_context conv) (\<lambda>(inherited, ancestors).
              ret (map (\<lambda>h. \<lparr>tu_role = ih_role h, tu_content = ih_content h, tu_msg = None,
                              tu_source = Some (ih_conv h)\<rparr>) inherited @ own, ancestors))))
       (\<lambda>_. ret (own, JList []))"

section \<open>The pending response\<close>

definition set_pending :: "uuid \<Rightarrow> uuid \<Rightarrow> world \<Rightarrow> world" where
  "set_pending mid cid w = w\<lparr>w_pending := (w_pending w)(mid := Some (cid,
     Some (w_now w + sec (PENDING_RESPONSE_TIMEOUT_SECONDS + PENDING_RESPONSE_MARKER_GRACE_SECONDS))))\<rparr>"

text \<open>The sorted set holds each member once; \<open>ZADD\<close> replaces its score.\<close>

definition zrem :: "uuid \<Rightarrow> world \<Rightarrow> world" where
  "zrem mid w = w\<lparr>w_zset := filter (\<lambda>(m, _). m \<noteq> mid) (w_zset w)\<rparr>"

definition zadd :: "uuid \<Rightarrow> int \<Rightarrow> world \<Rightarrow> world" where
  "zadd mid score w = (zrem mid w)\<lparr>w_zset := (mid, score) # w_zset (zrem mid w)\<rparr>"

definition del_pending :: "uuid \<Rightarrow> world \<Rightarrow> world" where
  "del_pending mid w = w\<lparr>w_pending := (w_pending w)(mid := None)\<rparr>"

text \<open>Without a Redis client \<open>self.cache.redis\<close> is \<open>None\<close> and the call on it raises, which is logged.\<close>

definition clear_pending_response :: "uuid \<Rightarrow> (world, unit) prog" where
  "clear_pending_response mid = when_redis ()
     (attempt (bnd (redis_exec (del_pending mid)) (\<lambda>_. redis_exec (zrem mid))) (\<lambda>_. ret ()))"

definition register_pending_response :: "uuid \<Rightarrow> uuid \<Rightarrow> (world, unit) prog" where
  "register_pending_response cid mid =
     bnd (getting w_redis_on) (\<lambda>on.
     if \<not> on then raise PendingResponseRegistrationError
     else attempt
       (bnd (redis_exec (set_pending mid cid)) (\<lambda>_.
        redis_exec (\<lambda>w. zadd mid (w_now w + sec PENDING_RESPONSE_TIMEOUT_SECONDS) w)))
       (\<lambda>_. bnd (clear_pending_response mid) (\<lambda>_. raise PendingResponseRegistrationError)))"

definition soft_delete_placeholder :: "uuid \<Rightarrow> uuid \<Rightarrow> (world, unit) prog" where
  "soft_delete_placeholder cid mid =
     attempt (bnd (msg_delete cid mid) (\<lambda>_. ret ())) (\<lambda>_. ret ())"

text \<open>Only the registration error is compensated for.\<close>

definition open_pending_response :: "uuid \<Rightarrow> uuid \<Rightarrow> (world, unit) prog" where
  "open_pending_response cid mid =
     bnd (msg_create_direct cid mid ''assistant'' [] ''pending'' []) (\<lambda>_.
     attempt (register_pending_response cid mid) (\<lambda>e. case e of
       PendingResponseRegistrationError \<Rightarrow>
         bnd (soft_delete_placeholder cid mid) (\<lambda>_. raise PendingResponseRegistrationError)
     | _ \<Rightarrow> raise e))"

definition discard_pending_response :: "uuid \<Rightarrow> uuid \<Rightarrow> (world, unit) prog" where
  "discard_pending_response cid mid =
     bnd (soft_delete_placeholder cid mid) (\<lambda>_. clear_pending_response mid)"

definition invalidate_cache :: "uuid \<Rightarrow> (world, unit) prog" where
  "invalidate_cache cid = cache_delete_last_50 cid"

section \<open>Sending\<close>

text \<open>The staging half of \<open>send\<close> and \<open>regenerate\<close>: one batch, undone placeholder on failure.\<close>

definition stage_request ::
  "uuid \<Rightarrow> uuid option \<Rightarrow> uuid \<Rightarrow> string \<Rightarrow> string \<Rightarrow> string \<Rightarrow> uuid \<Rightarrow> json \<Rightarrow> uuid list \<Rightarrow> (world, message) prog" where
  "stage_request cid response mid sender content status event_id payload files =
     attempt
       (msg_create_with_outbox cid mid sender content status event_id CHAT_MESSAGE_CREATED payload files)
       (\<lambda>e. case response of
          None \<Rightarrow> raise e
        | Some r \<Rightarrow> bnd (discard_pending_response cid r) (\<lambda>_. raise e))"

text \<open>Everything \<open>send\<close> does before it writes, as one program.\<close>

definition prepare ::
  "resolver \<Rightarrow> bool \<Rightarrow> uuid \<Rightarrow> bool \<Rightarrow> uuid option \<Rightarrow> string option \<Rightarrow> string list option
   \<Rightarrow> (world, turn list \<times> json \<times> resolved \<times> int) prog" where
  "prepare prefs is_user cid branching user mode tools =
     bnd (if is_user then recent_history cid else ret []) (\<lambda>own.
     bnd (if is_user \<and> branching then branch_event_context cid own else ret (own, JList [])) (\<lambda>(history, ancestors).
     bnd (resolve_preferences prefs user mode tools) (\<lambda>r.
     bnd (getting w_now) (\<lambda>now. ret (history, ancestors, r, now)))))"

text \<open>The writing half: placeholder and marker first, then the batch, then the cache.\<close>

definition dispatch ::
  "uuid \<Rightarrow> uuid option \<Rightarrow> uuid \<Rightarrow> string \<Rightarrow> string \<Rightarrow> uuid \<Rightarrow> json \<Rightarrow> uuid list \<Rightarrow> (world, message) prog" where
  "dispatch cid response mid sender content event_id payload files =
     bnd (case response of None \<Rightarrow> ret () | Some rid \<Rightarrow> open_pending_response cid rid) (\<lambda>_.
     bnd (stage_request cid response mid sender content ''sent'' event_id payload files) (\<lambda>msg.
     bnd (invalidate_cache cid) (\<lambda>_.
     ret (msg\<lparr>m_response := response\<rparr>))))"

definition ms_send ::
  "(nat \<Rightarrow> uuid) \<Rightarrow> uuid \<Rightarrow> string \<Rightarrow> resolver \<Rightarrow> bool \<Rightarrow> uuid \<Rightarrow> uuid \<Rightarrow> string \<Rightarrow> string \<Rightarrow> uuid option
   \<Rightarrow> string option \<Rightarrow> string list option \<Rightarrow> uuid list \<Rightarrow> bool \<Rightarrow> (world, message) prog" where
  "ms_send cand event_id corr prefs branching cid mid sender content user mode tools files diagrams =
     (let response = (if sender = ''user'' then Some (uuidv7_after cand mid) else None) in
      bnd (prepare prefs (sender = ''user'') cid branching user mode tools) (\<lambda>(history, ancestors, r, now).
      let payload = build_chat_message_created now corr cid mid user (Some content) r files response (JObj [])
                      history ancestors (rp_custom r) diagrams in
      dispatch cid response mid sender content event_id payload files))"

definition ms_delete :: "uuid \<Rightarrow> uuid \<Rightarrow> (world, bool) prog" where
  "ms_delete cid mid =
     bnd (msg_delete cid mid) (\<lambda>ok.
       if ok then bnd (invalidate_cache cid) (\<lambda>_. ret True) else ret False)"

section \<open>Regenerating\<close>

text \<open>The target, its prompt (the next older message) and what is older than the prompt.\<close>

fun find_target :: "uuid \<Rightarrow> message list \<Rightarrow> (message \<times> message option \<times> message list) option" where
  "find_target mid [] = None"
| "find_target mid (m # ms) =
     (if m_id m = mid then Some (m, (case ms of [] \<Rightarrow> None | p # _ \<Rightarrow> Some p), drop 1 ms)
      else find_target mid ms)"

definition replace_answer :: "uuid \<Rightarrow> message \<Rightarrow> uuid \<Rightarrow> (world, unit) prog" where
  "replace_answer cid target mid =
     (if m_sender target = Some ''assistant'' then
        attempt (bnd (msg_delete cid mid) (\<lambda>_. ret ())) (\<lambda>_. ret ())
      else ret ())"

definition ms_regenerate ::
  "(nat \<Rightarrow> uuid) \<Rightarrow> uuid \<Rightarrow> uuid \<Rightarrow> string \<Rightarrow> resolver \<Rightarrow> uuid \<Rightarrow> uuid \<Rightarrow> uuid option \<Rightarrow> (world, message option) prog" where
  "ms_regenerate cand request_id event_id corr prefs cid mid user =
     bnd (msg_history cid CACHE_HISTORY_LIMIT None) (\<lambda>msgs. case find_target mid msgs of
       None \<Rightarrow> ret None
     | Some (target, prompt, older) \<Rightarrow>
         let response = uuidv7_after cand (case prompt of None \<Rightarrow> m_id target | Some p \<Rightarrow> m_id p) in
         bnd (resolve_preferences prefs user None None) (\<lambda>r.
         bnd (getting w_now) (\<lambda>now.
         let payload = build_chat_message_created now corr cid request_id user
               (case prompt of None \<Rightarrow> Some [] | Some p \<Rightarrow> m_content p) r
               (case prompt of None \<Rightarrow> [] | Some p \<Rightarrow> m_files p) (Some response)
               (JObj [(''regeneration'', JBool True),
                      (''prompt_message_id'', opt_uuid (map_option m_id prompt)),
                      (''replaces_message_id'', JStr (uuid_str mid))])
               (format_history older) (JList []) None False in
         bnd (open_pending_response cid response) (\<lambda>_.
         bnd (stage_request cid (Some response) response ''assistant'' [] ''pending'' event_id payload []) (\<lambda>_.
         bnd (replace_answer cid target mid) (\<lambda>_.
         bnd (invalidate_cache cid) (\<lambda>_.
         ret (Some (target\<lparr>m_response := Some response\<rparr>)))))))))"

section \<open>Terminal writes\<close>

definition is_writable_assistant_row :: "uuid \<Rightarrow> uuid \<Rightarrow> (world, bool) prog" where
  "is_writable_assistant_row cid mid =
     bnd (msg_get cid mid) (\<lambda>m. ret (case m of None \<Rightarrow> True | Some x \<Rightarrow> m_sender x = Some ''assistant''))"

definition finalize_assistant_message ::
  "uuid \<Rightarrow> uuid \<Rightarrow> string \<Rightarrow> citation list \<Rightarrow> (world, message option) prog" where
  "finalize_assistant_message cid mid content citations =
     bnd (is_writable_assistant_row cid mid) (\<lambda>ok.
     if \<not> ok then ret None
     else bnd (msg_create_direct cid mid ''assistant'' content ''sent'' citations) (\<lambda>msg.
          bnd (invalidate_cache cid) (\<lambda>_. ret (Some msg))))"

definition already_answered :: "message option \<Rightarrow> bool" where
  "already_answered m = (case m of None \<Rightarrow> False
     | Some x \<Rightarrow> m_sender x = Some ''assistant'' \<and> m_status x = SENT \<and> truthy_str (m_content x))"

definition fail_assistant_message :: "uuid \<Rightarrow> uuid \<Rightarrow> string \<Rightarrow> (world, message option) prog" where
  "fail_assistant_message cid mid error_message =
     bnd (is_writable_assistant_row cid mid) (\<lambda>ok.
     if \<not> ok then ret None
     else bnd (msg_get cid mid) (\<lambda>existing.
       if already_answered existing then ret existing
       else bnd (msg_create_direct cid mid ''assistant'' error_message ''failed'' []) (\<lambda>msg.
            bnd (invalidate_cache cid) (\<lambda>_. ret (Some msg)))))"

definition attach_summary :: "uuid \<Rightarrow> uuid \<Rightarrow> string \<Rightarrow> (world, message) prog" where
  "attach_summary summary_id cid summary =
     bnd (msg_create_direct cid summary_id ''system'' (''Summary: '' @ summary) ''sent'' []) (\<lambda>msg.
     bnd (invalidate_cache cid) (\<lambda>_. ret msg))"

section \<open>Reading before sending touches the cache only\<close>

lemma wp_msg_history_frame:
  "wp (msg_history cid n c) (\<lambda>_ w'. only_cache w w') (\<lambda>_ w'. only_cache w w') w"
  by (rule wp_mono [OF wp_msg_history]) simp_all

lemma ms_history_frame:
  "wp (ms_history cid n c) (\<lambda>_ w'. only_cache w w') (\<lambda>_ w'. only_cache w w') w"
proof -
  have set: "wp (cache_set_last_50 cid ms) (\<lambda>_ w'. only_cache w w') E w1" if "only_cache w w1" for ms w1 E
    by (rule wp_cache_set_last_50) (rule only_cache_trans [OF that])
  have read: "wp (bnd (msg_history cid n c) (\<lambda>ms.
         bnd (if c = None \<and> ms \<noteq> [] then cache_set_last_50 cid ms else ret ()) (\<lambda>_. ret ms)))
      (\<lambda>_ w'. only_cache w w') (\<lambda>_ w'. only_cache w w') w1" if "only_cache w w1" for w1
    unfolding wp_bnd
    by (rule wp_mono [OF wp_msg_history_frame]) (use only_cache_trans [OF that] set in \<open>auto simp: wp_simps\<close>)
  have "wp (if c = None then cache_get_last_50 cid n else ret None) (\<lambda>_ w'. only_cache w w') (\<lambda>_ _. False) w"
    by (simp add: wp_ret cache_get_last_50_frame)
  then show ?thesis
    unfolding ms_history_def wp_bnd [of "if c = None then cache_get_last_50 cid n else ret None"]
    by (rule wp_mono) (auto simp: wp_ret read split: option.split)
qed

lemma recent_history_frame: "wp (recent_history cid) (\<lambda>_ w'. only_cache w w') (\<lambda>_ _. False) w"
  unfolding recent_history_def wp_bnd wp_attempt
  by (rule wp_mono [OF ms_history_frame]) (simp_all add: wp_simps)

lemma lineage_loop_frame:
  "wp (lineage_loop room user seen cur chain) (\<lambda>_ w'. only_cache w w') (\<lambda>_ w'. only_cache w w') w"
proof (induction room arbitrary: w seen cur chain)
  case 0
  show ?case by (simp add: wp_simps split: option.split)
next
  case (Suc room)
  have deeper: "wp (lineage_loop room user s c ch) (\<lambda>_ w'. only_cache w w') (\<lambda>_ w'. only_cache w w') w1"
    if "only_cache w w1" for s c ch w1
    by (rule wp_mono [OF Suc.IH]) (use only_cache_trans [OF that] in auto)
  have get: "wp (conv_service_get pid) (\<lambda>found w1. wp (case found of
         None \<Rightarrow> ret (chain, Some ''missing_ancestor'')
       | Some parent \<Rightarrow>
           if cv_user parent \<noteq> user then ret (chain, Some ''inaccessible_ancestor'')
           else if cv_status parent = DELETED then ret (chain, Some ''deleted_ancestor'')
           else lineage_loop room user (pid # seen) parent (segment_of pid parent cur # chain))
      (\<lambda>_ w'. only_cache w w') (\<lambda>_ w'. only_cache w w') w1) (\<lambda>_ w'. only_cache w w') w" for pid
    by (rule wp_mono [OF conv_service_get_frame]) (auto simp: wp_ret deeper split: option.split)
  then show ?case by (auto simp: wp_ret wp_bnd split: option.split)
qed

lemma event_context_frame:
  "wp (event_context conv) (\<lambda>_ w'. only_cache w w') (\<lambda>_ _. False) w"
proof -
  have inh: "wp (inherited_history conv (Some ln)) (\<lambda>_ w'. only_cache w w') (\<lambda>_ _. False) w1"
    if "only_cache w w1" for ln w1
    by (rule wp_mono [OF wp_inherited_history]) (use only_cache_trans [OF that] in auto)
  have "wp (get_lineage conv) (\<lambda>_ w'. only_cache w w') (\<lambda>_ w'. only_cache w w') w"
    unfolding get_lineage_def wp_bnd by (rule wp_mono [OF lineage_loop_frame]) (auto simp: wp_ret)
  then show ?thesis
    unfolding event_context_def wp_bnd wp_attempt
    by (rule wp_mono) (auto simp: wp_ret wp_bnd split: option.split intro!: wp_mono [OF inh])
qed

lemma branch_event_context_frame:
  "wp (branch_event_context cid own) (\<lambda>_ w'. only_cache w w') (\<lambda>_ _. False) w"
proof -
  have ev: "wp (event_context conv) (\<lambda>_ w'. only_cache w w') E w1" if "only_cache w w1" for conv w1 E
    by (rule wp_mono [OF event_context_frame]) (use only_cache_trans [OF that] in auto)
  show ?thesis
    unfolding branch_event_context_def wp_attempt wp_bnd
    by (rule wp_mono [OF conv_service_get_frame])
       (auto simp: wp_ret wp_bnd split: option.split intro!: wp_mono [OF ev])
qed

lemma prepare_frame:
  "wp (prepare prefs is_user cid branching user mode tools)
     (\<lambda>(_, _, _, now) w'. only_cache w w' \<and> now = w_now w) (\<lambda>_ w'. only_cache w w') w"
proof -
  have res: "wp (resolve_preferences prefs user mode tools) (\<lambda>r. wp (bnd (getting w_now) (\<lambda>now. ret (h, a, r, now)))
      (\<lambda>(_, _, _, now) w'. only_cache w w' \<and> now = w_now w) (\<lambda>_ w'. only_cache w w')) (\<lambda>_ w'. only_cache w w') w1"
    if "only_cache w w1" for h a w1
    using that by (simp add: resolve_preferences_def wp_simps only_cacheD split: option.split sum.split)
  have br: "wp (if is_user \<and> branching then branch_event_context cid own else ret (own, JList [])) (\<lambda>_ w'. only_cache w w') E w1"
    if "only_cache w w1" for own w1 E
    using that by (auto simp: wp_ret intro!: wp_mono [OF branch_event_context_frame] only_cache_trans [OF that])
  have rh: "wp (if is_user then recent_history cid else ret []) (\<lambda>_ w'. only_cache w w') (\<lambda>_ _. False) w"
    by (simp add: wp_ret recent_history_frame)
  show ?thesis
    unfolding prepare_def wp_bnd [of "if is_user then recent_history cid else ret []"]
  proof (rule wp_mono [OF rh], goal_cases)
    case (1 own w1)
    show ?case unfolding wp_bnd [of "if is_user \<and> branching then branch_event_context cid own else ret (own, JList [])"]
      by (rule wp_mono [OF br [OF 1]]) (auto simp: wp_bnd [of "resolve_preferences prefs user mode tools"] intro!: res)
  qed simp
qed

section \<open>The write half of a send\<close>

definition plain_update :: "string \<Rightarrow> string \<Rightarrow> int \<Rightarrow> string \<Rightarrow> msg_row \<Rightarrow> msg_row" where
  "plain_update sender content now status r =
     r\<lparr>mr_sender := Some sender, mr_content := Some content, mr_created := Some (db_time now), mr_status := Some status\<rparr>"

lemma plain_update_simps [simp]:
  "mr_sender (plain_update a c t s r) = Some a" "mr_content (plain_update a c t s r) = Some c"
  "mr_status (plain_update a c t s r) = Some s" "mr_id (plain_update a c t s r) = mr_id r"
  by (simp_all add: plain_update_def)

lemma keeps_id_plain [simp]: "keeps_id (plain_update a c t s)"
  by (simp add: keeps_id_def)

lemma wp_create_plain:
  assumes "status_of (Some st) = Some x"
  shows "wp (msg_create_direct cid mid sender content st []) Q E w =
    (case next_fault w of
       Okay \<Rightarrow> Q \<lparr>m_conv = cid, m_id = mid, m_sender = Some sender, m_content = Some content,
                 m_created = Some (w_now w), m_status = x, m_files = [], m_cites = [], m_response = None\<rparr>
              (put_msg cid mid (plain_update sender content (w_now w) st) (pop w))
     | Refused \<Rightarrow> E DbError (pop w)
     | Lost \<Rightarrow> E DbError (put_msg cid mid (plain_update sender content (w_now w) st) (pop w)))"
proof -
  have f: "(\<lambda>r. r\<lparr>mr_sender := Some sender, mr_content := Some content, mr_created := Some (db_time (w_now w)),
      mr_status := Some st\<rparr>) = plain_update sender content (w_now w) st"
    by (simp add: plain_update_def fun_eq_iff)
  show ?thesis using assms by (simp add: msg_create_direct_def wp_simps f split: fault.split)
qed

text \<open>
  \<open>beside cid rid w w'\<close>: the row of the response and the caches apart, the tables of \<open>w'\<close> are those of \<open>w\<close>.
\<close>

definition beside :: "uuid \<Rightarrow> uuid \<Rightarrow> world \<Rightarrow> world \<Rightarrow> bool" where
  "beside cid rid w w' \<longleftrightarrow> msgs_ok w' \<and> w_outbox w' = w_outbox w \<and> w_now w' = w_now w \<and>
     w_redis_on w' = w_redis_on w \<and>
     (\<forall>c m. c \<noteq> cid \<or> m \<noteq> rid \<longrightarrow> msg_of w' c m = msg_of w c m)"

definition pending_row :: "world \<Rightarrow> uuid \<Rightarrow> uuid \<Rightarrow> bool" where
  "pending_row w cid rid \<longleftrightarrow> (case msg_of w cid rid of None \<Rightarrow> False
     | Some r \<Rightarrow> mr_sender r = Some ''assistant'' \<and> mr_content r = Some [] \<and> mr_status r = Some ''pending'')"

definition marked :: "world \<Rightarrow> uuid \<Rightarrow> uuid \<Rightarrow> bool" where
  "marked w cid rid \<longleftrightarrow>
     w_pending w rid = Some (cid, Some (w_now w + sec (PENDING_RESPONSE_TIMEOUT_SECONDS + PENDING_RESPONSE_MARKER_GRACE_SECONDS))) \<and>
     (rid, w_now w + sec PENDING_RESPONSE_TIMEOUT_SECONDS) \<in> set (w_zset w)"

lemma beside_refl: "msgs_ok w \<Longrightarrow> beside cid rid w w"
  by (simp add: beside_def)

lemma beside_cache: "only_cache w w' \<Longrightarrow> msgs_ok w \<Longrightarrow> beside cid rid w w'"
  by (simp add: beside_def msgs_ok_def msg_of_def only_cacheD)

lemma beside_trans: "beside cid rid w w' \<Longrightarrow> beside cid rid w' w'' \<Longrightarrow> beside cid rid w w''"
  by (auto simp: beside_def)

lemma marker_frames [simp]:
  "w_msgs (set_pending m c w) = w_msgs w" "w_outbox (set_pending m c w) = w_outbox w"
  "w_now (set_pending m c w) = w_now w" "w_redis_on (set_pending m c w) = w_redis_on w"
  "w_msgs (zrem m w) = w_msgs w" "w_outbox (zrem m w) = w_outbox w" "w_now (zrem m w) = w_now w"
  "w_redis_on (zrem m w) = w_redis_on w" "w_pending (zrem m w) = w_pending w"
  "w_msgs (zadd m t w) = w_msgs w" "w_outbox (zadd m t w) = w_outbox w" "w_now (zadd m t w) = w_now w"
  "w_redis_on (zadd m t w) = w_redis_on w" "w_pending (zadd m t w) = w_pending w"
  "w_msgs (del_pending m w) = w_msgs w" "w_outbox (del_pending m w) = w_outbox w"
  "w_now (del_pending m w) = w_now w" "w_redis_on (del_pending m w) = w_redis_on w"
  "w_zset (set_pending m c w) = w_zset w" "w_zset (del_pending m w) = w_zset w"
  by (simp_all add: set_pending_def zrem_def zadd_def del_pending_def)

lemma beside_steps [simp]:
  "beside cid rid w' (pop w) = beside cid rid w' w"
  "beside cid rid w' (set_pending m c w) = beside cid rid w' w"
  "beside cid rid w' (zrem m w) = beside cid rid w' w"
  "beside cid rid w' (zadd m t w) = beside cid rid w' w"
  "beside cid rid w' (del_pending m w) = beside cid rid w' w"
  "beside cid rid w' (del_msgs c w) = beside cid rid w' w"
  by (simp_all add: beside_def msgs_ok_def msg_of_def del_msgs_def)

lemma beside_put [simp]:
  "keeps_id f \<Longrightarrow> beside cid rid w' w \<Longrightarrow> beside cid rid w' (put_msg cid rid f w)"
  by (auto simp: beside_def msg_of_put_other)

lemma clear_pending_beside:
  "beside cid rid w0 w \<Longrightarrow> wp (clear_pending_response m) (\<lambda>_. beside cid rid w0) (\<lambda>_ _. False) w"
  by (simp add: clear_pending_response_def wp_simps split: fault.split)

lemma soft_delete_beside:
  "beside cid rid w0 w \<Longrightarrow> wp (soft_delete_placeholder cid rid) (\<lambda>_. beside cid rid w0) (\<lambda>_ _. False) w"
  by (simp add: soft_delete_placeholder_def msg_delete_def wp_simps split: fault.split)

lemma discard_beside:
  "beside cid rid w0 w \<Longrightarrow> wp (discard_pending_response cid rid) (\<lambda>_. beside cid rid w0) (\<lambda>_ _. False) w"
  unfolding discard_pending_response_def wp_bnd
  by (rule wp_mono [OF soft_delete_beside]) (auto intro: clear_pending_beside)

lemma msg_of_marker [simp]:
  "msg_of (set_pending m c w) = msg_of w" "msg_of (zrem m w) = msg_of w" "msg_of (zadd m t w) = msg_of w"
  "msg_of (del_pending m w) = msg_of w" "msg_of (del_msgs c w) = msg_of w"
  by (simp_all add: msg_of_def fun_eq_iff del_msgs_def)

lemma msgs_ok_marker [simp]:
  "msgs_ok (set_pending m c w) = msgs_ok w" "msgs_ok (zrem m w) = msgs_ok w" "msgs_ok (zadd m t w) = msgs_ok w"
  "msgs_ok (del_pending m w) = msgs_ok w" "msgs_ok (del_msgs c w) = msgs_ok w"
  by (simp_all add: msgs_ok_def del_msgs_def)

lemma pending_row_put:
  "msgs_ok w \<Longrightarrow> pending_row (put_msg cid rid (plain_update ''assistant'' [] t ''pending'') w) cid rid"
  by (simp add: pending_row_def msg_of_put)

lemma marked_set: "marked (zadd rid (w_now w + sec PENDING_RESPONSE_TIMEOUT_SECONDS) (pop (set_pending rid cid w))) cid rid"
  by (simp add: marked_def set_pending_def zadd_def zrem_def)

lemma open_pending_spec:
  assumes "beside cid rid w0 w"
  shows "wp (open_pending_response cid rid)
     (\<lambda>_ w'. beside cid rid w0 w' \<and> pending_row w' cid rid \<and> marked w' cid rid)
     (\<lambda>_ w'. beside cid rid w0 w') w"
proof -
  let ?Q = "\<lambda>_ w'. beside cid rid w0 w' \<and> pending_row w' cid rid \<and> marked w' cid rid"
    and ?E = "\<lambda>_. beside cid rid w0"
  have st: "status_of (Some ''pending'') = Some PENDING" by (simp add: status_of_def)
  have clear: "wp (clear_pending_response rid) (\<lambda>_. wp (raise PendingResponseRegistrationError) Q'
       (\<lambda>e. wp (case e of PendingResponseRegistrationError \<Rightarrow>
         bnd (soft_delete_placeholder cid rid) (\<lambda>_. raise PendingResponseRegistrationError) | _ \<Rightarrow> raise e) ?Q ?E)) E' w1"
    if "beside cid rid w0 w1" for w1 Q' E'
    by (rule wp_mono [OF clear_pending_beside [OF that]])
       (auto simp: wp_ret wp_raise wp_bnd intro!: wp_mono [OF soft_delete_beside])
  have reg: "wp (register_pending_response cid rid) (\<lambda>_. ?Q ())
       (\<lambda>e. wp (case e of PendingResponseRegistrationError \<Rightarrow>
         bnd (soft_delete_placeholder cid rid) (\<lambda>_. raise PendingResponseRegistrationError) | _ \<Rightarrow> raise e) ?Q ?E) w1"
    if b: "beside cid rid w0 w1" and r: "pending_row w1 cid rid" for w1
  proof (cases "w_redis_on w1")
    case False
    then show ?thesis using b
      by (auto simp: register_pending_response_def wp_simps intro!: wp_mono [OF soft_delete_beside])
  next
    case True
    have p: "pending_row (zadd rid t (pop (set_pending rid cid (pop w1)))) cid rid" for t
      using r by (simp add: pending_row_def)
    show ?thesis
      unfolding register_pending_response_def using True b p marked_set [of rid "pop w1" cid]
      by (simp add: wp_bnd wp_getting wp_if wp_attempt wp_ext clear split: fault.split)
  qed
  have ok: "msgs_ok w" using assms by (simp add: beside_def)
  show ?thesis
    unfolding open_pending_response_def wp_bnd wp_create_plain [OF st] wp_attempt
    using assms ok by (auto simp: pending_row_put split: fault.split intro!: reg)
qed

text \<open>The two rows of the batch: the request's message, and its event naming the response.\<close>

definition has_message :: "world \<Rightarrow> uuid \<Rightarrow> uuid \<Rightarrow> string \<Rightarrow> string \<Rightarrow> string \<Rightarrow> uuid list \<Rightarrow> bool" where
  "has_message w cid mid sender content status files \<longleftrightarrow> (case msg_of w cid mid of None \<Rightarrow> False
     | Some r \<Rightarrow> mr_sender r = Some sender \<and> mr_content r = Some content \<and> mr_status r = Some status \<and>
         mr_files r = files)"

definition has_event :: "world \<Rightarrow> uuid \<Rightarrow> uuid \<Rightarrow> json \<Rightarrow> bool" where
  "has_event w cid event_id payload \<longleftrightarrow> (\<exists>ob \<in> set (w_outbox w (bucket_of cid)).
     ob_id ob = event_id \<and> ob_type ob = CHAT_MESSAGE_CREATED \<and> ob_payload ob = payload \<and> \<not> ob_published ob)"

definition batch_done :: "world \<Rightarrow> uuid \<Rightarrow> uuid \<Rightarrow> string \<Rightarrow> string \<Rightarrow> string \<Rightarrow> uuid \<Rightarrow> json \<Rightarrow> uuid list \<Rightarrow> bool" where
  "batch_done w cid mid sender content status event_id payload files \<longleftrightarrow>
     has_message w cid mid sender content status files \<and> has_event w cid event_id payload"

text \<open>The effect of the batch, as a state.\<close>

definition put_request ::
  "uuid \<Rightarrow> uuid \<Rightarrow> string \<Rightarrow> string \<Rightarrow> string \<Rightarrow> uuid \<Rightarrow> json \<Rightarrow> uuid list \<Rightarrow> int \<Rightarrow> world \<Rightarrow> world" where
  "put_request cid mid sender content status event_id payload files now w =
     put_outbox (bucket_of cid)
       \<lparr>ob_id = event_id, ob_type = CHAT_MESSAGE_CREATED, ob_payload = payload,
        ob_published = False, ob_created = db_time now\<rparr>
       (put_msg cid mid (\<lambda>r. r\<lparr>mr_sender := Some sender, mr_content := Some content,
          mr_created := Some (db_time now), mr_status := Some status, mr_files := files\<rparr>) w)"

lemma wp_create_with_outbox:
  assumes "status_of (Some st) = Some x"
  shows "wp (msg_create_with_outbox cid mid sender content st e CHAT_MESSAGE_CREATED payload files) Q E w =
    (case next_fault w of
       Okay \<Rightarrow> Q \<lparr>m_conv = cid, m_id = mid, m_sender = Some sender, m_content = Some content,
                 m_created = Some (w_now w), m_status = x, m_files = files, m_cites = [], m_response = None\<rparr>
              (put_request cid mid sender content st e payload files (w_now w) (pop w))
     | Refused \<Rightarrow> E DbError (pop w)
     | Lost \<Rightarrow> E DbError (put_request cid mid sender content st e payload files (w_now w) (pop w)))"
  using assms by (simp add: msg_create_with_outbox_def wp_simps put_request_def split: fault.split)

lemma put_request_batch:
  "msgs_ok w \<Longrightarrow> batch_done (put_request cid mid sender content st e payload files now w) cid mid sender content st e payload files"
  by (simp add: batch_done_def has_message_def has_event_def put_request_def msg_of_put)
     (rule bexI [OF _ upsert_const_has], simp)

lemma put_request_other:
  "c \<noteq> cid \<or> m \<noteq> mid \<Longrightarrow> msg_of (put_request cid mid sender content st e payload files now w) c m = msg_of w c m"
  by (simp add: put_request_def msg_of_put_other)

lemma put_request_frames [simp]:
  "w_now (put_request cid mid s c st e p fs n w) = w_now w"
  "w_pending (put_request cid mid s c st e p fs n w) = w_pending w"
  "w_zset (put_request cid mid s c st e p fs n w) = w_zset w"
  "w_redis_on (put_request cid mid s c st e p fs n w) = w_redis_on w"
  "msgs_ok w \<Longrightarrow> msgs_ok (put_request cid mid s c st e p fs n w)"
  by (simp_all add: put_request_def)

text \<open>What a compensation leaves: all but the response row, its marker and the caches stays.\<close>

lemma batch_done_beside:
  assumes "beside cid rid w w'" and "batch_done w cid mid sender content st e payload files" and "mid \<noteq> rid"
  shows "batch_done w' cid mid sender content st e payload files"
  using assms by (simp add: batch_done_def has_message_def has_event_def beside_def)

lemma stage_request_spec:
  assumes w: "beside cid rid w0 w" "pending_row w cid rid" "marked w cid rid" and "mid \<noteq> rid"
    and st: "status_of (Some st) = Some x"
  shows "wp (stage_request cid (Some rid) mid sender content st e payload files)
     (\<lambda>msg w'. batch_done w' cid mid sender content st e payload files \<and> pending_row w' cid rid \<and> marked w' cid rid \<and>
        m_id msg = mid \<and> m_conv msg = cid)
     (\<lambda>_ w'. beside cid rid w0 w' \<or> batch_done w' cid mid sender content st e payload files) w"
proof -
  let ?p = "put_request cid mid sender content st e payload files (w_now w) (pop w)"
  have ok: "msgs_ok w" using w(1) by (simp add: beside_def)
  have bd: "batch_done ?p cid mid sender content st e payload files" using ok by (simp add: put_request_batch)
  have "pending_row ?p cid rid" "marked ?p cid rid"
    using w(2,3) assms(4) by (simp_all add: pending_row_def marked_def put_request_other)
  moreover have "wp (discard_pending_response cid rid) (\<lambda>_ w'. batch_done w' cid mid sender content st e payload files)
      (\<lambda>_ _. False) ?p"
    by (rule wp_mono [OF discard_beside [OF beside_refl]])
       (use ok bd batch_done_beside [OF _ bd assms(4)] in auto)
  moreover have "wp (discard_pending_response cid rid) (\<lambda>_. beside cid rid w0) (\<lambda>_ _. False) (pop w)"
    by (rule discard_beside) (use w(1) in simp)
  ultimately show ?thesis
    unfolding stage_request_def wp_attempt wp_create_with_outbox [OF st] option.case wp_bnd wp_raise
    using bd by (auto split: fault.split elim!: wp_mono)
qed

section \<open>A sent turn\<close>

text \<open>
  \<open>turn_staged w cid mid rid\<close>: the user's message and its event are stored, and the placeholder and the
  timeout marker of the response \<open>rid\<close> the event names.
\<close>

definition names_response :: "json \<Rightarrow> uuid \<Rightarrow> uuid \<Rightarrow> bool" where
  "names_response payload mid rid \<longleftrightarrow> (case payload of
     JObj kvs \<Rightarrow> jget kvs ''response_message_id'' = JStr (uuid_str rid) \<and> jget kvs ''message_id'' = JStr (uuid_str mid)
   | _ \<Rightarrow> False)"

definition turn_staged :: "world \<Rightarrow> uuid \<Rightarrow> uuid \<Rightarrow> uuid \<Rightarrow> string \<Rightarrow> uuid \<Rightarrow> uuid list \<Rightarrow> bool" where
  "turn_staged w cid mid rid content event_id files \<longleftrightarrow>
     (\<exists>payload. batch_done w cid mid ''user'' content ''sent'' event_id payload files \<and> names_response payload mid rid) \<and>
     pending_row w cid rid \<and> marked w cid rid"

definition request_stored :: "world \<Rightarrow> uuid \<Rightarrow> uuid \<Rightarrow> uuid \<Rightarrow> string \<Rightarrow> uuid \<Rightarrow> uuid list \<Rightarrow> bool" where
  "request_stored w cid mid rid content event_id files \<longleftrightarrow>
     (\<exists>payload. batch_done w cid mid ''user'' content ''sent'' event_id payload files \<and> names_response payload mid rid)"

text \<open>Only the response's own row may differ from before: no message, no event.\<close>

definition nothing_sent :: "world \<Rightarrow> world \<Rightarrow> uuid \<Rightarrow> uuid \<Rightarrow> bool" where
  "nothing_sent w w' cid rid \<longleftrightarrow> w_outbox w' = w_outbox w \<and>
     (\<forall>c m. c \<noteq> cid \<or> m \<noteq> rid \<longrightarrow> msg_of w' c m = msg_of w c m)"

lemma names_response_payload:
  "names_response (build_chat_message_created now corr cid mid user content r files (Some rid) meta h a cu d) mid rid"
  by (simp add: names_response_def build_chat_message_created_def opt_uuid_def jget_or_def)

lemma turn_staged_cache:
  assumes "only_cache w w'"
  shows "turn_staged w' cid mid rid c e fs = turn_staged w cid mid rid c e fs"
  using assms by (simp add: turn_staged_def batch_done_def has_message_def has_event_def pending_row_def marked_def
      msg_of_def only_cacheD)

lemma beside_nothing: "beside cid rid w w' \<Longrightarrow> nothing_sent w w' cid rid"
  by (simp add: beside_def nothing_sent_def)

lemma wp_ms_send_user:
  assumes ok: "msgs_ok w" and mid: "mid \<noteq> uuidv7_after cand mid"
  shows "wp (ms_send cand e corr prefs branching cid mid ''user'' content user mode tools files diagrams)
     (\<lambda>msg w'. m_id msg = mid \<and> m_conv msg = cid \<and> m_response msg = Some (uuidv7_after cand mid) \<and>
        turn_staged w' cid mid (uuidv7_after cand mid) content e files)
     (\<lambda>_ w'. nothing_sent w w' cid (uuidv7_after cand mid) \<or>
        request_stored w' cid mid (uuidv7_after cand mid) content e files) w"
proof -
  define rid where "rid = uuidv7_after cand mid"
  let ?Q = "\<lambda>msg w'. m_id msg = mid \<and> m_conv msg = cid \<and> m_response msg = Some rid \<and> turn_staged w' cid mid rid content e files"
    and ?E = "\<lambda>_ w'. nothing_sent w w' cid rid \<or> request_stored w' cid mid rid content e files"
  have st: "status_of (Some ''sent'') = Some SENT" by (simp add: status_of_def)
  have sends: "wp (dispatch cid (Some rid) mid ''user'' content e payload files) ?Q ?E w1"
    if cw: "only_cache w w1" and p: "names_response payload mid rid" for payload w1
  proof -
    have staged: "wp (stage_request cid (Some rid) mid ''user'' content ''sent'' e payload files)
        (\<lambda>msg. wp (bnd (invalidate_cache cid) (\<lambda>_. ret (msg\<lparr>m_response := Some rid\<rparr>))) ?Q ?E) ?E w2"
      if "beside cid rid w w2" "pending_row w2 cid rid" "marked w2 cid rid" for w2
    proof (rule wp_mono [OF stage_request_spec [OF that mid [folded rid_def] st]], goal_cases)
      case (1 msg w3)
      then have "turn_staged w3 cid mid rid content e files" using p by (auto simp: turn_staged_def)
      then show ?case using 1
        by (auto simp: wp_bnd invalidate_cache_def wp_ret turn_staged_cache intro!: wp_cache_delete_last_50)
    next
      case (2 x w3)
      then show ?case using p beside_nothing by (auto simp: request_stored_def)
    qed
    show ?thesis
      unfolding dispatch_def option.case wp_bnd [of "open_pending_response cid rid"]
        wp_bnd [of "stage_request cid (Some rid) mid ''user'' content ''sent'' e payload files"]
      by (rule wp_mono [OF open_pending_spec [OF beside_cache [OF cw ok]]])
         (auto intro: staged dest: beside_nothing)
  qed
  have quiet: "nothing_sent w w' cid rid" if "only_cache w w'" for w'
    using beside_nothing [OF beside_cache [OF that ok]] .
  show ?thesis
    unfolding ms_send_def Let_def rid_def [symmetric] if_P [OF refl] option.case
      wp_bnd [of "prepare prefs (''user'' = ''user'') cid branching user mode tools"]
    by (rule wp_mono [OF prepare_frame])
       (auto simp: quiet intro!: sends names_response_payload)
qed

section \<open>Properties of sending\<close>

text \<open>C10:
  Sending a user message, under every pattern of failing database and Redis calls, any preference
  service and with or without branch context: on success the message and its request event are stored, the
  event names the response id and no other, the pending assistant row exists under that id and the
  timeout marker is registered for it (key and deadline), and the returned message carries it. On every
  error either nothing was sent (no event, no message row), or the message and the event are both stored
  (the batch was applied although its call failed): never an event without its message.
\<close>

theorem send_stages_whole_turn:
  assumes "msgs_ok w" and "unat mid < 2 ^ 128 - 1"
  shows "wp (ms_send cand e corr prefs branching cid mid ''user'' content user mode tools files diagrams)
     (\<lambda>msg w'. m_id msg = mid \<and> m_conv msg = cid \<and> m_response msg = Some (uuidv7_after cand mid) \<and>
        mid < uuidv7_after cand mid \<and> turn_staged w' cid mid (uuidv7_after cand mid) content e files)
     (\<lambda>_ w'. nothing_sent w w' cid (uuidv7_after cand mid) \<or>
        request_stored w' cid mid (uuidv7_after cand mid) content e files) w"
proof -
  have less: "mid < uuidv7_after cand mid" by (rule uuidv7_after_greater [OF assms(2)])
  show ?thesis
    by (rule wp_mono [OF wp_ms_send_user [OF assms(1)]]) (use less in auto)
qed

theorem send_stages_whole_turn_witness:
  "wp (ms_send (\<lambda>i. of_nat (40 + i)) 77 ''req'' None True 9 41 ''user'' ''hello'' (Some 3) None None [] False)
     (\<lambda>msg w'. m_id msg = 41 \<and> m_conv msg = 9 \<and> m_response msg = Some (uuidv7_after (\<lambda>i. of_nat (40 + i)) 41) \<and>
        41 < uuidv7_after (\<lambda>i. of_nat (40 + i)) 41 \<and>
        turn_staged w' 9 41 (uuidv7_after (\<lambda>i. of_nat (40 + i)) 41) ''hello'' 77 [])
     (\<lambda>_ w'. nothing_sent branch_world w' 9 (uuidv7_after (\<lambda>i. of_nat (40 + i)) 41) \<or>
        request_stored w' 9 41 (uuidv7_after (\<lambda>i. of_nat (40 + i)) 41) ''hello'' 77 []) branch_world"
  by (rule send_stages_whole_turn)
     (simp_all add: msgs_ok_def branch_world_def empty_world_def clustered_def msg_lt_def ckey_def uuid_version_def)

section \<open>A failed send leaves no trace\<close>

text \<open>At most one call fails, and it fails without effect.\<close>

definition one_refusal :: "world \<Rightarrow> bool" where
  "one_refusal w \<longleftrightarrow> Lost \<notin> set (w_sched w) \<and> length (filter (\<lambda>f. f = Refused) (w_sched w)) \<le> 1"

definition steady :: "world \<Rightarrow> bool" where
  "steady w \<longleftrightarrow> set (w_sched w) \<subseteq> {Okay}"

lemma one_refusalE:
  assumes "one_refusal w"
  obtains (okay) "next_fault w = Okay" "one_refusal (pop w)" | (refused) "next_fault w = Refused" "steady (pop w)"
proof (cases "w_sched w")
  case Nil
  then show thesis using assms by (intro okay) (simp_all add: next_fault_def one_refusal_def)
next
  case (Cons f fs)
  show thesis
  proof (cases f)
    case Okay
    then show thesis using assms Cons by (intro okay) (auto simp: next_fault_def one_refusal_def)
  next
    case Refused
    then have "Refused \<notin> set fs" "Lost \<notin> set fs" using assms Cons by (auto simp: one_refusal_def filter_empty_conv)
    then have "f' = Okay" if "f' \<in> set fs" for f' using that by (cases f') auto
    then show thesis using Refused Cons by (intro refused) (auto simp: next_fault_def steady_def)
  next
    case Lost
    then show thesis using assms Cons by (simp add: one_refusal_def)
  qed
qed

lemma steady_next [simp]: "steady w \<Longrightarrow> next_fault w = Okay"
  by (cases "w_sched w") (auto simp: steady_def next_fault_def)

lemma steady_pop [simp]: "steady w \<Longrightarrow> steady (pop w)"
  by (cases "w_sched w") (auto simp: steady_def)

definition no_trace :: "world \<Rightarrow> uuid \<Rightarrow> uuid \<Rightarrow> bool" where
  "no_trace w cid rid \<longleftrightarrow>
     (case msg_of w cid rid of None \<Rightarrow> True | Some r \<Rightarrow> mr_status r = Some ''deleted'') \<and>
     w_pending w rid = None \<and> rid \<notin> fst ` set (w_zset w)"

lemma sched_frames [simp]:
  "w_sched (set_pending m c w) = w_sched w" "w_sched (zrem m w) = w_sched w" "w_sched (zadd m t w) = w_sched w"
  "w_sched (del_pending m w) = w_sched w" "w_sched (put_request cid mid s ct st e p fs n w) = w_sched w"
  by (simp_all add: set_pending_def zrem_def zadd_def del_pending_def put_request_def)

lemma fault_frames:
  assumes "w_sched w' = w_sched w"
  shows "steady w' = steady w" "one_refusal w' = one_refusal w"
  using assms by (simp_all add: steady_def one_refusal_def)

lemma deleted_row:
  "msgs_ok w \<Longrightarrow> (case msg_of (put_msg cid rid (\<lambda>r. r\<lparr>mr_status := Some ''deleted''\<rparr>) w) cid rid of
     None \<Rightarrow> True | Some r \<Rightarrow> mr_status r = Some ''deleted'')"
  by (simp add: msg_of_put)

text \<open>What the compensation reaches when nothing fails any more.\<close>

definition unmarked :: "world \<Rightarrow> uuid \<Rightarrow> bool" where
  "unmarked w rid \<longleftrightarrow> w_pending w rid = None \<and> rid \<notin> fst ` set (w_zset w)"

lemma unmarked_del [simp]: "unmarked (zrem rid (pop (del_pending rid w))) rid"
  by (auto simp: unmarked_def zrem_def del_pending_def)

lemma unmarked_frames [simp]:
  "unmarked (pop w) rid = unmarked w rid" "unmarked (put_msg c m f w) rid = unmarked w rid"
  "unmarked (put_request cid mid s ct st e p fs n w) rid = unmarked w rid"
  by (simp_all add: unmarked_def put_request_def)

lemma fault_put [simp]:
  "steady (put_msg c m f w) = steady w" "one_refusal (put_msg c m f w) = one_refusal w"
  "steady (zrem m w) = steady w" "steady (del_pending m w) = steady w"
  "one_refusal (set_pending m c w) = one_refusal w" "one_refusal (zadd m t w) = one_refusal w"
  "steady (set_pending m c w) = steady w"
  "one_refusal (put_request cid mid s ct st e p fs n w) = one_refusal w"
  by (rule fault_frames; simp)+

lemma clear_steady:
  assumes "steady w" and "w_redis_on w"
  shows "wp (clear_pending_response rid)
    (\<lambda>_ w'. steady w' \<and> unmarked w' rid \<and> (\<forall>w0. beside cid rid w0 w \<longrightarrow> beside cid rid w0 w') \<and> msg_of w' = msg_of w)
    (\<lambda>_ _. False) w"
  using assms by (simp add: clear_pending_response_def wp_simps)

lemma no_traceI:
  assumes "msgs_ok w" and "unmarked w rid"
  shows "no_trace (put_msg cid rid (\<lambda>r. r\<lparr>mr_status := Some ''deleted''\<rparr>) w) cid rid"
  using assms deleted_row [OF assms(1)] by (simp add: no_trace_def unmarked_def)

lemma soft_delete_steady:
  assumes "steady w" and "unmarked w rid" and "beside cid rid w0 w"
  shows "wp (soft_delete_placeholder cid rid)
    (\<lambda>_ w'. steady w' \<and> no_trace w' cid rid \<and> beside cid rid w0 w') (\<lambda>_ _. False) w"
proof -
  have "msgs_ok (pop w)" using assms(3) by (simp add: beside_def)
  then show ?thesis using assms
    by (simp add: soft_delete_placeholder_def msg_delete_def wp_simps no_traceI)
qed

lemma discard_steady:
  assumes "steady w" and "w_redis_on w" and "beside cid rid w0 w"
  shows "wp (discard_pending_response cid rid)
    (\<lambda>_ w'. no_trace w' cid rid \<and> beside cid rid w0 w') (\<lambda>_ _. False) w"
proof -
  have "msgs_ok w" using assms(3) by (simp add: beside_def)
  then show ?thesis
    using assms deleted_row
    by (simp add: discard_pending_response_def soft_delete_placeholder_def msg_delete_def
        clear_pending_response_def wp_simps no_trace_def)
       (auto simp: zrem_def del_pending_def)
qed

text \<open>\<open>fresh_response\<close>: nothing is known of the response id yet, and at most one call will be refused.\<close>

definition fresh_response :: "world \<Rightarrow> uuid \<Rightarrow> uuid \<Rightarrow> bool" where
  "fresh_response w cid rid \<longleftrightarrow>
     one_refusal w \<and> w_redis_on w \<and> msgs_ok w \<and> msg_of w cid rid = None \<and> unmarked w rid"

lemma one_refusal_steady: "one_refusal w \<Longrightarrow> next_fault w = Refused \<Longrightarrow> steady (pop w)"
  by (rule one_refusalE) auto

lemma one_refusal_next: "one_refusal w \<Longrightarrow> next_fault w = Okay \<and> one_refusal (pop w) \<or> next_fault w = Refused"
  by (rule one_refusalE) auto

lemma one_refusal_not_lost [simp]: "one_refusal w \<Longrightarrow> next_fault w \<noteq> Lost"
  by (rule one_refusalE) auto

lemma beside_redis: "beside cid rid w0 w \<Longrightarrow> w_redis_on w = w_redis_on w0"
  by (simp add: beside_def)

lemma register_one:
  assumes "one_refusal w" and "w_redis_on w" and "unmarked w rid" and "beside cid rid w0 w"
  shows "wp (register_pending_response cid rid)
    (\<lambda>_ w'. one_refusal w' \<and> beside cid rid w0 w')
    (\<lambda>x w'. x = PendingResponseRegistrationError \<and> steady w' \<and> unmarked w' rid \<and> beside cid rid w0 w') w"
proof -
  have clear: "wp (bnd (clear_pending_response rid) (\<lambda>_. raise PendingResponseRegistrationError)) Q
      (\<lambda>x w'. x = PendingResponseRegistrationError \<and> steady w' \<and> unmarked w' rid \<and> beside cid rid w0 w') w1"
    if "steady w1" "w_redis_on w1" "beside cid rid w0 w1" for w1 Q
    unfolding wp_bnd by (rule wp_mono [OF clear_steady [OF that(1,2)]]) (use that in \<open>auto simp: wp_raise\<close>)
  have first: "next_fault w = Okay \<and> one_refusal (pop w) \<or> next_fault w = Refused \<and> steady (pop w)"
    using assms(1) by (rule one_refusalE) auto
  define w1 where "w1 = set_pending rid cid (pop w)"
  have w1: "w_redis_on w1" "beside cid rid w0 w1" "one_refusal (pop w) \<Longrightarrow> one_refusal w1"
    using assms by (simp_all add: w1_def)
  have second: "wp (redis_exec (\<lambda>w. zadd rid (w_now w + sec PENDING_RESPONSE_TIMEOUT_SECONDS) w))
      (\<lambda>_ w'. one_refusal w' \<and> beside cid rid w0 w')
      (\<lambda>_ w'. steady w' \<and> w_redis_on w' \<and> beside cid rid w0 w') w1" if "one_refusal w1"
    using that by (rule one_refusalE) (use w1 in \<open>simp_all add: wp_ext\<close>)
  have second': "wp (redis_exec (\<lambda>w. zadd rid (w_now w + sec PENDING_RESPONSE_TIMEOUT_SECONDS) w))
      (\<lambda>_ w'. one_refusal w' \<and> beside cid rid w0 w')
      (\<lambda>_. wp (bnd (clear_pending_response rid) (\<lambda>_. raise PendingResponseRegistrationError))
         (\<lambda>_ w'. one_refusal w' \<and> beside cid rid w0 w')
         (\<lambda>x w'. x = PendingResponseRegistrationError \<and> steady w' \<and> unmarked w' rid \<and> beside cid rid w0 w')) w1"
    if "one_refusal w1"
    by (rule wp_mono [OF second [OF that]]) (auto intro: clear)
  show ?thesis
    unfolding register_pending_response_def wp_bnd [of "getting w_redis_on"] wp_getting
    using assms(2) first clear [of "pop w"] assms(4) second' w1(3)
    by (auto simp: wp_attempt wp_bnd [of "redis_exec (set_pending rid cid)"] wp_ext [of _ _ "set_pending rid cid"]
        simp flip: w1_def)
qed

lemma open_pending_one:
  assumes "fresh_response w cid rid" and "beside cid rid w0 w"
  shows "wp (open_pending_response cid rid)
    (\<lambda>_ w'. one_refusal w' \<and> w_redis_on w' \<and> beside cid rid w0 w')
    (\<lambda>_ w'. no_trace w' cid rid \<and> beside cid rid w0 w') w"
proof -
  have st: "status_of (Some ''pending'') = Some PENDING" by (simp add: status_of_def)
  have w: "one_refusal w" "w_redis_on w" "msg_of w cid rid = None" "unmarked w rid"
    using assms(1) by (simp_all add: fresh_response_def)
  have on0: "w_redis_on w0" using w(2) beside_redis [OF assms(2)] by simp
  have reg: "wp (register_pending_response cid rid)
      (\<lambda>_ w'. one_refusal w' \<and> w_redis_on w' \<and> beside cid rid w0 w')
      (\<lambda>e. wp (case e of PendingResponseRegistrationError \<Rightarrow>
           bnd (soft_delete_placeholder cid rid) (\<lambda>_. raise PendingResponseRegistrationError) | _ \<Rightarrow> raise e)
         (\<lambda>_ w'. one_refusal w' \<and> w_redis_on w' \<and> beside cid rid w0 w')
         (\<lambda>_ w'. no_trace w' cid rid \<and> beside cid rid w0 w')) w1"
    if "one_refusal w1" "unmarked w1 rid" "beside cid rid w0 w1" for w1
  proof (rule wp_mono [OF register_one [OF that(1) _ that(2,3)]], goal_cases)
    case 1
    show ?case using on0 beside_redis [OF that(3)] by simp
  next
    case (2 a w2)
    then show ?case using on0 beside_redis by auto
  next
    case (3 e w2)
    then show ?case by (auto simp: wp_bnd wp_raise intro!: wp_mono [OF soft_delete_steady])
  qed
  have quiet: "no_trace (pop w) cid rid" using w(3,4) by (simp add: no_trace_def unmarked_def)
  show ?thesis
    unfolding open_pending_response_def wp_bnd wp_create_plain [OF st] wp_attempt
    by (rule one_refusalE [OF w(1)]) (use w(4) assms(2) quiet in \<open>auto intro!: reg\<close>)
qed

lemma stage_request_one:
  assumes "one_refusal w" and "w_redis_on w" and "beside cid rid w0 w" and st: "status_of (Some st) = Some x"
  shows "wp (stage_request cid (Some rid) mid sender content st e payload files)
    (\<lambda>_ _. True) (\<lambda>_ w'. no_trace w' cid rid \<and> beside cid rid w0 w') w"
  unfolding stage_request_def wp_attempt wp_create_with_outbox [OF st] option.case wp_bnd wp_raise
  by (rule one_refusalE [OF assms(1)]) (use assms in \<open>auto intro!: wp_mono [OF discard_steady]\<close>)

lemma dispatch_one:
  assumes "fresh_response w cid rid"
  shows "wp (dispatch cid (Some rid) mid sender content e payload files)
    (\<lambda>_ _. True) (\<lambda>_ w'. no_trace w' cid rid \<and> nothing_sent w w' cid rid) w"
proof -
  have ok: "msgs_ok w" using assms by (simp add: fresh_response_def)
  have st: "status_of (Some ''sent'') = Some SENT" by (simp add: status_of_def)
  have sent: "wp (bnd (stage_request cid (Some rid) mid sender content ''sent'' e payload files) (\<lambda>msg.
        bnd (invalidate_cache cid) (\<lambda>_. ret (msg\<lparr>m_response := Some rid\<rparr>))))
      (\<lambda>_ _. True) (\<lambda>_ w'. no_trace w' cid rid \<and> nothing_sent w w' cid rid) w1"
    if "one_refusal w1" "w_redis_on w1" "beside cid rid w w1" for w1
    unfolding wp_bnd [of "stage_request cid (Some rid) mid sender content ''sent'' e payload files"]
    by (rule wp_mono [OF stage_request_one [OF that st]])
       (auto simp: wp_bnd invalidate_cache_def wp_ret beside_nothing intro!: wp_cache_delete_last_50)
  show ?thesis
    unfolding dispatch_def option.case wp_bnd [of "open_pending_response cid rid"]
    by (rule wp_mono [OF open_pending_one [OF assms beside_refl [OF ok]]]) (auto intro: sent dest: beside_nothing)
qed

text \<open>C11:
  When at most one of the calls is refused, a send that fails in its writing half leaves no trace: no
  event and no message, the placeholder of the response is gone (never written, or soft-deleted) and no
  timeout marker of it is left in Redis, neither the key nor the deadline. Redis is configured and the
  response id is fresh.
\<close>

theorem failed_dispatch_leaves_no_trace:
  assumes "fresh_response w cid rid"
  shows "wp (dispatch cid (Some rid) mid sender content e payload files)
    (\<lambda>_ _. True) (\<lambda>_ w'. no_trace w' cid rid \<and> nothing_sent w w' cid rid) w"
  by (rule dispatch_one [OF assms])

lemma fresh_response_branch_world:
  "fresh_response (branch_world\<lparr>w_sched := [Okay, Okay, Okay, Refused]\<rparr>) 9 50"
  by (simp add: fresh_response_def branch_world_def empty_world_def one_refusal_def msgs_ok_def clustered_def
      msg_lt_def ckey_def uuid_version_def msg_of_def row_of_def unmarked_def)

theorem failed_dispatch_leaves_no_trace_witness:
  "wp (dispatch 9 (Some 50) 41 ''user'' ''hello'' 77 JNull [])
    (\<lambda>_ _. True) (\<lambda>_ w'. no_trace w' 9 50 \<and> nothing_sent (branch_world\<lparr>w_sched := [Okay, Okay, Okay, Refused]\<rparr>) w' 9 50)
    (branch_world\<lparr>w_sched := [Okay, Okay, Okay, Refused]\<rparr>)"
  by (rule failed_dispatch_leaves_no_trace [OF fresh_response_branch_world])

section \<open>Regenerating keeps the old answer until the new request is staged\<close>

definition rows_beside :: "uuid \<Rightarrow> uuid \<Rightarrow> world \<Rightarrow> world \<Rightarrow> bool" where
  "rows_beside cid rid w w' \<longleftrightarrow> msgs_ok w' \<and>
     (\<forall>c m. c \<noteq> cid \<or> m \<noteq> rid \<longrightarrow> msg_of w' c m = msg_of w c m)"

lemma rows_beside_beside: "beside cid rid w w' \<Longrightarrow> rows_beside cid rid w w'"
  by (simp add: beside_def rows_beside_def)

lemma rows_beside_trans: "rows_beside cid rid w w' \<Longrightarrow> rows_beside cid rid w' w'' \<Longrightarrow> rows_beside cid rid w w''"
  by (auto simp: rows_beside_def)

lemma rows_beside_request:
  "rows_beside cid rid w0 w \<Longrightarrow> rows_beside cid rid w0 (put_request cid rid s ct st e p fs n w)"
  by (auto simp: rows_beside_def put_request_other)

text \<open>Staging the request of a regeneration rewrites the placeholder in the same batch as the event.\<close>

lemma stage_regeneration:
  assumes w: "rows_beside cid rid w0 w" "marked w cid rid" and st: "status_of (Some st) = Some x"
  shows "wp (stage_request cid (Some rid) rid sender content st e payload files)
     (\<lambda>_ w'. batch_done w' cid rid sender content st e payload files \<and> marked w' cid rid \<and> rows_beside cid rid w0 w')
     (\<lambda>_. rows_beside cid rid w0) w"
proof -
  let ?p = "put_request cid rid sender content st e payload files (w_now w) (pop w)"
  have ok: "msgs_ok w" using w(1) by (simp add: rows_beside_def)
  have pop: "rows_beside cid rid w0 (pop w)" using w(1) by (simp add: rows_beside_def)
  have p: "rows_beside cid rid w0 ?p" using rows_beside_request [OF pop] .
  have discard: "wp (discard_pending_response cid rid) (\<lambda>_. rows_beside cid rid w0) (\<lambda>_ _. False) w1"
    if "rows_beside cid rid w0 w1" for w1
  proof (rule wp_mono [OF discard_beside [OF beside_refl]])
    show "msgs_ok w1" using that by (simp add: rows_beside_def)
    show "rows_beside cid rid w0 w'" if "beside cid rid w1 w'" for w'
      using rows_beside_trans [OF \<open>rows_beside cid rid w0 w1\<close> rows_beside_beside [OF that]] .
  qed simp
  have "batch_done ?p cid rid sender content st e payload files" using ok by (simp add: put_request_batch)
  moreover have "marked ?p cid rid" using w(2) by (simp add: marked_def)
  ultimately show ?thesis
    unfolding stage_request_def wp_attempt wp_create_with_outbox [OF st] option.case wp_bnd wp_raise
    using p pop by (auto split: fault.split intro!: wp_mono [OF discard])
qed

lemma find_target_mem:
  "find_target mid ms = Some (t, p, old) \<Longrightarrow> t \<in> set ms \<and> m_id t = mid \<and> (\<forall>q. p = Some q \<longrightarrow> q \<in> set ms)"
proof (induction ms)
  case (Cons m ms)
  then show ?case by (cases "m_id m = mid"; cases ms) auto
qed simp

lemma uuidv7_after_first: "floor < cand 0 \<Longrightarrow> uuidv7_after cand floor = cand 0"
  by (simp add: uuidv7_after_def upt_conv_Cons)

text \<open>What is left of the answer that is replaced: the row as it was, or the same row marked deleted.\<close>

definition kept_or_deleted :: "msg_row option \<Rightarrow> msg_row option \<Rightarrow> bool" where
  "kept_or_deleted old new \<longleftrightarrow> new = old \<or>
     (case new of None \<Rightarrow> False | Some r \<Rightarrow> mr_status r = Some ''deleted'')"

definition regeneration_staged :: "world \<Rightarrow> world \<Rightarrow> uuid \<Rightarrow> uuid \<Rightarrow> uuid \<Rightarrow> uuid \<Rightarrow> uuid \<Rightarrow> bool" where
  "regeneration_staged w w' cid mid request_id event_id rid \<longleftrightarrow>
     (\<exists>payload. batch_done w' cid rid ''assistant'' [] ''pending'' event_id payload [] \<and>
        names_response payload request_id rid) \<and> marked w' cid rid \<and>
     kept_or_deleted (msg_of w cid mid) (msg_of w' cid mid) \<and>
     (\<forall>c m. (c, m) \<noteq> (cid, rid) \<and> (c, m) \<noteq> (cid, mid) \<longrightarrow> msg_of w' c m = msg_of w c m)"


lemma regenerate_writes:
  assumes ok: "msgs_ok w" and new: "rid \<noteq> mid" and p: "names_response payload request_id rid"
    and resp: "m_id target = mid"
  shows "wp (bnd (open_pending_response cid rid) (\<lambda>_.
         bnd (stage_request cid (Some rid) rid ''assistant'' [] ''pending'' event_id payload []) (\<lambda>_.
         bnd (replace_answer cid target mid) (\<lambda>_.
         bnd (invalidate_cache cid) (\<lambda>_.
         ret (Some (target\<lparr>m_response := Some rid\<rparr>)))))))
    (\<lambda>res w'. (case res of None \<Rightarrow> False
       | Some msg \<Rightarrow> m_response msg = Some rid \<and> m_id msg = mid \<and> regeneration_staged w w' cid mid request_id event_id rid))
    (\<lambda>_. rows_beside cid rid w) w"
proof -
  have st: "status_of (Some ''pending'') = Some PENDING" by (simp add: status_of_def)
  let ?Q = "\<lambda>res w'. (case res of None \<Rightarrow> False
       | Some msg \<Rightarrow> m_response msg = Some rid \<and> m_id msg = mid \<and> regeneration_staged w w' cid mid request_id event_id rid)"
    and ?E = "\<lambda>_. rows_beside cid rid w"
  have staged: "regeneration_staged w w1 cid mid request_id event_id rid"
    if "batch_done w1 cid rid ''assistant'' [] ''pending'' event_id payload []" "marked w1 cid rid" "rows_beside cid rid w w1" for w1
    using that p new by (auto simp: regeneration_staged_def rows_beside_def kept_or_deleted_def)
  have popped: "regeneration_staged w (pop w1) cid mid request_id event_id rid"
    if "regeneration_staged w w1 cid mid request_id event_id rid" for w1
    using that by (simp add: regeneration_staged_def batch_done_def has_message_def has_event_def marked_def)
  have deleted: "regeneration_staged w (put_msg cid mid (\<lambda>r. r\<lparr>mr_status := Some ''deleted''\<rparr>) w1) cid mid request_id event_id rid"
    if "regeneration_staged w w1 cid mid request_id event_id rid" "msgs_ok w1" for w1
    using that new by (auto simp: regeneration_staged_def batch_done_def has_message_def has_event_def marked_def
        kept_or_deleted_def msg_of_put)
  have cached: "regeneration_staged w w2 cid mid request_id event_id rid"
    if "only_cache w1 w2" "regeneration_staged w w1 cid mid request_id event_id rid" for w1 w2
    using that by (simp add: regeneration_staged_def batch_done_def has_message_def has_event_def marked_def
        msg_of_def only_cacheD)
  have finish: "wp (bnd (invalidate_cache cid) (\<lambda>_. ret (Some (target\<lparr>m_response := Some rid\<rparr>)))) ?Q ?E w1"
    if "regeneration_staged w w1 cid mid request_id event_id rid" for w1
    unfolding wp_bnd invalidate_cache_def
    by (rule wp_cache_delete_last_50) (simp add: wp_ret resp cached [OF _ that])
  have swap: "wp (replace_answer cid target mid) (\<lambda>_. wp (bnd (invalidate_cache cid) (\<lambda>_. ret (Some (target\<lparr>m_response := Some rid\<rparr>)))) ?Q ?E) ?E w1"
    if "regeneration_staged w w1 cid mid request_id event_id rid" "msgs_ok w1" for w1
    using that by (auto simp: replace_answer_def msg_delete_def wp_attempt wp_ext wp_ret
        wp_bnd [of "ext _ _ _"] wp_bnd [of "bnd _ _"] split: fault.split intro!: finish deleted popped)
  have stage: "wp (bnd (stage_request cid (Some rid) rid ''assistant'' [] ''pending'' event_id payload []) (\<lambda>_.
         bnd (replace_answer cid target mid) (\<lambda>_.
         bnd (invalidate_cache cid) (\<lambda>_. ret (Some (target\<lparr>m_response := Some rid\<rparr>)))))) ?Q ?E w1"
    if "beside cid rid w w1" "marked w1 cid rid" for w1
    unfolding wp_bnd [of "stage_request cid (Some rid) rid ''assistant'' [] ''pending'' event_id payload []"]
      wp_bnd [of "replace_answer cid target mid"]
    by (rule wp_mono [OF stage_regeneration [OF rows_beside_beside [OF that(1)] that(2) st]])
       (auto intro!: swap staged simp: rows_beside_def)
  show ?thesis
    unfolding wp_bnd [of "open_pending_response cid rid"]
    by (rule wp_mono [OF open_pending_spec [OF beside_refl [OF ok]]]) (auto intro: stage rows_beside_beside)
qed

text \<open>C12:
  Regenerating an answer, under every pattern of failing calls and any preference service, with the clock
  ahead of the ids the conversation holds: on every error all rows of all conversations other than the new
  response's own are as before, so the user's existing answer survives; when the message is found and the
  call returns, the new response's pending row, its timeout marker and the request event (which names the new
  response and the new request id) are stored, the replaced row is unchanged or marked deleted, and no
  other message is touched; when it is not among the newest messages (or not stored at all) nothing is written, in any table,
  cache or queue.
\<close>

theorem regenerate_keeps_old_answer:
  assumes "msgs_ok w" and "\<forall>r \<in> set (w_msgs w cid). mr_id r < cand 0"
  shows "wp (ms_regenerate cand request_id event_id corr prefs cid mid user)
    (\<lambda>res w'. (case res of None \<Rightarrow> w' = pop w
       | Some msg \<Rightarrow> m_response msg = Some (cand 0) \<and> m_id msg = mid \<and>
           regeneration_staged w w' cid mid request_id event_id (cand 0)))
    (\<lambda>_ w'. \<forall>c m. c \<noteq> cid \<or> m \<noteq> cand 0 \<longrightarrow> msg_of w' c m = msg_of w c m) w"
proof -
  define Q :: "message option \<Rightarrow> world \<Rightarrow> bool" where "Q = (\<lambda>res w'. case res of None \<Rightarrow> w' = pop w
       | Some msg \<Rightarrow> m_response msg = Some (cand 0) \<and> m_id msg = mid \<and>
           regeneration_staged w w' cid mid request_id event_id (cand 0))"
  define E :: "exn \<Rightarrow> world \<Rightarrow> bool" where
    "E = (\<lambda>_ w'. \<forall>c m. c \<noteq> cid \<or> m \<noteq> cand 0 \<longrightarrow> msg_of w' c m = msg_of w c m)"
  have quiet: "E x (pop w)" for x by (simp add: E_def)
  have popped: "regeneration_staged (pop w) w' cid mid request_id event_id (cand 0)
      = regeneration_staged w w' cid mid request_id event_id (cand 0)" for w'
    by (simp add: regeneration_staged_def)
  have writes: "wp (bnd (open_pending_response cid (cand 0)) (\<lambda>_.
         bnd (stage_request cid (Some (cand 0)) (cand 0) ''assistant'' [] ''pending'' event_id payload []) (\<lambda>_.
         bnd (replace_answer cid target mid) (\<lambda>_.
         bnd (invalidate_cache cid) (\<lambda>_.
         ret (Some (target\<lparr>m_response := Some (cand 0)\<rparr>))))))) Q E (pop w)"
    if "cand 0 \<noteq> mid" "names_response payload request_id (cand 0)" "m_id target = mid" for payload target
    by (rule wp_mono [OF regenerate_writes [OF _ that]])
       (use assms(1) in \<open>auto simp: Q_def E_def popped rows_beside_def split: option.splits\<close>)
  have found: "wp (case find_target mid ms of
       None \<Rightarrow> ret None
     | Some (target, prompt, older) \<Rightarrow>
         let response = uuidv7_after cand (case prompt of None \<Rightarrow> m_id target | Some p \<Rightarrow> m_id p) in
         bnd (resolve_preferences prefs user None None) (\<lambda>r.
         bnd (getting w_now) (\<lambda>now.
         let payload = build_chat_message_created now corr cid request_id user
               (case prompt of None \<Rightarrow> Some [] | Some p \<Rightarrow> m_content p) r
               (case prompt of None \<Rightarrow> [] | Some p \<Rightarrow> m_files p) (Some response)
               (JObj [(''regeneration'', JBool True),
                      (''prompt_message_id'', opt_uuid (map_option m_id prompt)),
                      (''replaces_message_id'', JStr (uuid_str mid))])
               (format_history older) (JList []) None False in
         bnd (open_pending_response cid response) (\<lambda>_.
         bnd (stage_request cid (Some response) response ''assistant'' [] ''pending'' event_id payload []) (\<lambda>_.
         bnd (replace_answer cid target mid) (\<lambda>_.
         bnd (invalidate_cache cid) (\<lambda>_.
         ret (Some (target\<lparr>m_response := Some response\<rparr>))))))))) Q E (pop w)"
    if ms: "\<forall>m \<in> set ms. \<exists>r \<in> set (w_msgs w cid). m_id m = mr_id r" for ms
  proof (cases "find_target mid ms")
    case None
    then show ?thesis by (simp add: wp_ret Q_def)
  next
    case (Some found)
    obtain target prompt older where f: "found = (target, prompt, older)" by (cases found)
    have mem: "target \<in> set ms" "m_id target = mid" "\<And>q. prompt = Some q \<Longrightarrow> q \<in> set ms"
      using find_target_mem Some f by blast+
    have below: "m_id m < cand 0" if "m \<in> set ms" for m using ms assms(2) that by fastforce
    have new: "cand 0 \<noteq> mid" using below [OF mem(1)] mem(2) by auto
    have resp: "uuidv7_after cand (case prompt of None \<Rightarrow> m_id target | Some p \<Rightarrow> m_id p) = cand 0"
      by (rule uuidv7_after_first) (use below mem in \<open>auto split: option.split\<close>)
    show ?thesis
      unfolding Some f option.case prod.case Let_def resp
      by (auto simp: resolve_preferences_def wp_bnd [of "lift_result _"] wp_bnd [of "getting _"] wp_bnd [of "ret _"]
          wp_ret wp_getting wp_lift_result mem(2) quiet split: option.split sum.split
          intro!: writes [OF new] names_response_payload)
  qed
  show ?thesis
    unfolding ms_regenerate_def wp_bnd [of "msg_history cid CACHE_HISTORY_LIMIT None"] Q_def [symmetric] E_def [symmetric]
    by (rule wp_mono [OF wp_msg_history]) (auto intro: found simp: quiet)
qed

lemma regenerate_witness_world:
  "msgs_ok branch_world" "\<forall>r \<in> set (w_msgs branch_world 5). mr_id r < 70"
  by (simp_all add: msgs_ok_def branch_world_def empty_world_def clustered_def msg_lt_def ckey_def uuid_version_def)

theorem regenerate_keeps_old_answer_witness:
  "wp (ms_regenerate (\<lambda>_. 70) 65 77 ''req'' None 5 60 (Some 3))
    (\<lambda>res w'. (case res of None \<Rightarrow> w' = pop branch_world
       | Some msg \<Rightarrow> m_response msg = Some 70 \<and> m_id msg = 60 \<and> regeneration_staged branch_world w' 5 60 65 77 70))
    (\<lambda>_ w'. \<forall>c m. c \<noteq> 5 \<or> m \<noteq> 70 \<longrightarrow> msg_of w' c m = msg_of branch_world c m) branch_world"
  by (rule regenerate_keeps_old_answer [where cand = "\<lambda>_. 70" and w = branch_world and cid = 5 and mid = 60])
     (rule regenerate_witness_world)+

section \<open>An applied but unacknowledged placeholder\<close>

text \<open>
  The compensation of a failed send covers the registration of the marker, not the write of the placeholder
  itself: when that write is applied but reported as failed (a timeout of the database), the call raises and
  the pending row stays behind, with no timeout marker that would ever fail it and no event that would ever
  complete it.
\<close>

theorem lost_placeholder_is_stranded:
  assumes "msgs_ok w" and "next_fault w = Lost" and "unmarked w rid"
  shows "wp (open_pending_response cid rid) (\<lambda>_ _. False)
    (\<lambda>_ w'. pending_row w' cid rid \<and> unmarked w' rid \<and> w_outbox w' = w_outbox w) w"
proof -
  have st: "status_of (Some ''pending'') = Some PENDING" by (simp add: status_of_def)
  show ?thesis unfolding open_pending_response_def wp_bnd wp_create_plain [OF st]
    using assms by (simp add: pending_row_put)
qed

theorem lost_placeholder_is_stranded_witness:
  "wp (open_pending_response 9 50) (\<lambda>_ _. False)
    (\<lambda>_ w'. pending_row w' 9 50 \<and> unmarked w' 50 \<and> w_outbox w' = w_outbox (empty_world 7)) ((empty_world 7)\<lparr>w_sched := [Lost]\<rparr>)"
  using lost_placeholder_is_stranded [of "(empty_world 7)\<lparr>w_sched := [Lost]\<rparr>" 50 9]
  by (simp add: msgs_ok_def empty_world_def clustered_def next_fault_def unmarked_def)

section \<open>Terminal writes\<close>

text \<open>A row that holds a finished reply, and one that is not an assistant's at all.\<close>

definition answered_row :: "msg_row \<Rightarrow> bool" where
  "answered_row r \<longleftrightarrow> mr_sender r = Some ''assistant'' \<and> mr_status r = Some ''sent'' \<and> truthy_str (mr_content r)"

definition foreign_row :: "msg_row option \<Rightarrow> bool" where
  "foreign_row r \<longleftrightarrow> (case r of None \<Rightarrow> False | Some x \<Rightarrow> mr_sender x \<noteq> Some ''assistant'')"

lemma wp_writable:
  "wp (is_writable_assistant_row cid mid) (\<lambda>ok w'. w' = pop w \<and> ok = (\<not> foreign_row (msg_of w cid mid)))
     (\<lambda>_ w'. w' = pop w) w"
  by (auto simp: is_writable_assistant_row_def msg_get_def wp_simps foreign_row_def message_of_row_def
      split: fault.split option.splits)

lemma already_answered_row:
  "already_answered (map_option (\<lambda>r. message_of_row cid r
     (case status_of (mr_status r) of None \<Rightarrow> FAILED | Some st \<Rightarrow> st)) row)
   = (case row of None \<Rightarrow> False | Some r \<Rightarrow> answered_row r)"
  by (auto simp: already_answered_def answered_row_def message_of_row_def status_of_def split: option.splits if_splits)

text \<open>
  \<open>terminal_ok w w' cid mid\<close>: nothing but the row of the response and the caches changed, a row of another
  sender not at all, and no row became another sender's.
\<close>

definition terminal_ok :: "world \<Rightarrow> world \<Rightarrow> uuid \<Rightarrow> uuid \<Rightarrow> bool" where
  "terminal_ok w w' cid mid \<longleftrightarrow> beside cid mid w w' \<and> w_pending w' = w_pending w \<and> w_zset w' = w_zset w \<and>
     (foreign_row (msg_of w cid mid) \<longrightarrow> msg_of w' cid mid = msg_of w cid mid) \<and>
     (\<not> foreign_row (msg_of w cid mid) \<longrightarrow> \<not> foreign_row (msg_of w' cid mid))"

lemma terminal_ok_cache: "only_cache w1 w2 \<Longrightarrow> terminal_ok w w1 cid mid \<Longrightarrow> terminal_ok w w2 cid mid"
  by (simp add: terminal_ok_def beside_def msgs_ok_def msg_of_def only_cacheD)

text \<open>The update \<open>create_message_direct\<close> makes, with citations when any are left.\<close>

definition reply_update :: "string \<Rightarrow> string \<Rightarrow> int \<Rightarrow> string \<Rightarrow> citation list \<Rightarrow> msg_row \<Rightarrow> msg_row" where
  "reply_update sender content now status cites r =
     (let r' = plain_update sender content now status r;
          clean = (if cites = [] then [] else sanitize_citations (store_citations cites))
      in if clean = [] then r' else r'\<lparr>mr_cites := Some (store_citations clean)\<rparr>)"

lemma keeps_id_reply [simp]: "keeps_id (reply_update a c t s cs)"
  by (simp add: keeps_id_def reply_update_def Let_def)

lemma wp_create_direct:
  assumes "status_of (Some st) = Some x"
  shows "wp (msg_create_direct cid mid sender content st cites) Q E w =
    (case next_fault w of
       Okay \<Rightarrow> Q \<lparr>m_conv = cid, m_id = mid, m_sender = Some sender, m_content = Some content,
                 m_created = Some (w_now w), m_status = x, m_files = [],
                 m_cites = (if cites = [] then [] else sanitize_citations (store_citations cites)), m_response = None\<rparr>
              (put_msg cid mid (reply_update sender content (w_now w) st cites) (pop w))
     | Refused \<Rightarrow> E DbError (pop w)
     | Lost \<Rightarrow> E DbError (put_msg cid mid (reply_update sender content (w_now w) st cites) (pop w)))"
proof -
  have f: "(\<lambda>r. let r' = r\<lparr>mr_sender := Some sender, mr_content := Some content, mr_created := Some (db_time (w_now w)),
        mr_status := Some st\<rparr> in if clean = [] then r' else r'\<lparr>mr_cites := Some (store_citations clean)\<rparr>)
      = reply_update sender content (w_now w) st cites"
    if "clean = (if cites = [] then [] else sanitize_citations (store_citations cites))" for clean
    using that by (simp add: reply_update_def plain_update_def fun_eq_iff Let_def)
  show ?thesis using assms unfolding msg_create_direct_def Let_def [of "if cites = [] then _ else _"]
    by (simp add: wp_bnd wp_getting wp_ext wp_ret f [OF refl, unfolded Let_def] Let_def wp_case_option split: fault.split)
qed

lemma terminal_ok_refl: "msgs_ok w \<Longrightarrow> terminal_ok w w cid mid"
  by (simp add: terminal_ok_def beside_refl)

lemma terminal_ok_pop [simp]: "terminal_ok w (pop w') cid mid = terminal_ok w w' cid mid"
  by (simp add: terminal_ok_def)

lemma terminal_ok_put:
  "terminal_ok w w' cid mid \<Longrightarrow> \<not> foreign_row (msg_of w cid mid) \<Longrightarrow> keeps_id f \<Longrightarrow>
   (\<And>r. mr_sender (f r) = Some ''assistant'') \<Longrightarrow> terminal_ok w (put_msg cid mid f w') cid mid"
  by (simp add: terminal_ok_def msg_of_put beside_def msg_of_put_other foreign_row_def)

lemma reply_update_simps [simp]:
  "mr_sender (reply_update a c t s cs r) = Some a" "mr_content (reply_update a c t s cs r) = Some c"
  "mr_status (reply_update a c t s cs r) = Some s"
  by (simp_all add: reply_update_def Let_def)

definition holds_reply :: "world \<Rightarrow> uuid \<Rightarrow> uuid \<Rightarrow> string \<Rightarrow> string \<Rightarrow> bool" where
  "holds_reply w cid mid content status \<longleftrightarrow> (case msg_of w cid mid of None \<Rightarrow> False
     | Some r \<Rightarrow> mr_sender r = Some ''assistant'' \<and> mr_content r = Some content \<and> mr_status r = Some status)"

lemma holds_reply_put:
  "msgs_ok w \<Longrightarrow> holds_reply (put_msg cid mid (reply_update ''assistant'' c t s cs) w) cid mid c s"
  by (simp add: holds_reply_def msg_of_put)

text \<open>Both terminal writes end the same way: one row, then the cache.\<close>

lemma write_reply:
  assumes ok: "msgs_ok w1" and t: "terminal_ok w w1 cid mid" and own: "\<not> foreign_row (msg_of w cid mid)"
    and st: "status_of (Some st) = Some x"
  shows "wp (bnd (msg_create_direct cid mid ''assistant'' content st cites) (\<lambda>msg.
          bnd (invalidate_cache cid) (\<lambda>_. ret (Some msg))))
    (\<lambda>res w'. terminal_ok w w' cid mid \<and> holds_reply w' cid mid content st \<and>
       (case res of None \<Rightarrow> False | Some m \<Rightarrow> m_id m = mid))
    (\<lambda>_ w'. terminal_ok w w' cid mid) w1"
proof -
  have done': "wp (invalidate_cache cid) (\<lambda>_. wp (ret (Some msg))
      (\<lambda>res w'. terminal_ok w w' cid mid \<and> holds_reply w' cid mid content st \<and>
         (case res of None \<Rightarrow> False | Some m \<Rightarrow> m_id m = mid)) E) E w2"
    if "terminal_ok w w2 cid mid" "holds_reply w2 cid mid content st" "m_id msg = mid" for msg w2 E
    unfolding invalidate_cache_def
    by (rule wp_cache_delete_last_50)
       (use that in \<open>simp add: wp_ret terminal_ok_cache holds_reply_def msg_of_cache\<close>)
  show ?thesis
    unfolding wp_bnd wp_create_direct [OF st]
    using t own ok by (auto split: fault.split intro!: done' terminal_ok_put holds_reply_put)
qed

lemma wp_finalize:
  assumes "msgs_ok w"
  shows "wp (finalize_assistant_message cid mid content cites)
    (\<lambda>res w'. terminal_ok w w' cid mid \<and>
       (case res of None \<Rightarrow> foreign_row (msg_of w cid mid)
        | Some m \<Rightarrow> m_id m = mid \<and> holds_reply w' cid mid content ''sent''))
    (\<lambda>_ w'. terminal_ok w w' cid mid) w"
  unfolding finalize_assistant_message_def wp_bnd [of "is_writable_assistant_row cid mid"]
proof (rule wp_mono [OF wp_writable], goal_cases)
  case (1 ok w1)
  have st: "status_of (Some ''sent'') = Some SENT" by (simp add: status_of_def)
  have t: "msgs_ok w1" "terminal_ok w w1 cid mid" using 1 assms by (simp_all add: terminal_ok_refl)
  show ?case
  proof (cases "foreign_row (msg_of w cid mid)")
    case True
    then show ?thesis using 1 t by (simp add: wp_ret)
  next
    case False
    have okT: "ok = True" using 1 False by simp
    show ?thesis unfolding okT not_True_eq_False if_False
      by (rule wp_mono [OF write_reply [OF t False st]]) (auto split: option.splits)
  qed
next
  case (2 x w1)
  then show ?case using assms by (simp add: terminal_ok_refl)
qed

text \<open>C13:
  Storing a finished reply, under any failing calls: no row of another sender is ever touched (then nothing is
  written and the answer is None), no other message, event or marker changes, and when the call returns a
  message, the row of the response holds the content with status sent.
\<close>

theorem finalize_stores_reply:
  assumes "msgs_ok w"
  shows "wp (finalize_assistant_message cid mid content cites)
    (\<lambda>res w'. terminal_ok w w' cid mid \<and>
       (case res of None \<Rightarrow> foreign_row (msg_of w cid mid)
        | Some m \<Rightarrow> m_id m = mid \<and> holds_reply w' cid mid content ''sent''))
    (\<lambda>_ w'. terminal_ok w w' cid mid) w"
  by (rule wp_finalize [OF assms])

theorem finalize_stores_reply_witness:
  "wp (finalize_assistant_message 5 60 ''hi'' [])
    (\<lambda>res w'. terminal_ok branch_world w' 5 60 \<and>
       (case res of None \<Rightarrow> foreign_row (msg_of branch_world 5 60)
        | Some m \<Rightarrow> m_id m = 60 \<and> holds_reply w' 5 60 ''hi'' ''sent''))
    (\<lambda>_ w'. terminal_ok branch_world w' 5 60) branch_world"
  by (rule finalize_stores_reply [OF regenerate_witness_world(1)])

lemma wp_fail:
  assumes "msgs_ok w"
  shows "wp (fail_assistant_message cid mid error_message)
    (\<lambda>res w'. terminal_ok w w' cid mid \<and>
       (case msg_of w cid mid of None \<Rightarrow> res \<noteq> None \<and> holds_reply w' cid mid error_message ''failed''
        | Some r \<Rightarrow> if foreign_row (Some r) then res = None
            else if answered_row r then res \<noteq> None \<and> msg_of w' cid mid = Some r
            else res \<noteq> None \<and> holds_reply w' cid mid error_message ''failed''))
    (\<lambda>_ w'. terminal_ok w w' cid mid \<and>
       (case msg_of w cid mid of None \<Rightarrow> True | Some r \<Rightarrow> answered_row r \<longrightarrow> msg_of w' cid mid = Some r)) w"
  unfolding fail_assistant_message_def wp_bnd [of "is_writable_assistant_row cid mid"]
proof (rule wp_mono [OF wp_writable], goal_cases)
  case (1 ok w1)
  have st: "status_of (Some ''failed'') = Some FAILED" by (simp add: status_of_def)
  have t: "msgs_ok w1" "terminal_ok w w1 cid mid" "msgs_ok (pop w1)" "terminal_ok w (pop w1) cid mid"
    using 1 assms by (simp_all add: terminal_ok_refl)
  have row: "msg_of w1 = msg_of w" using 1 by simp
  have sender: "\<not> foreign_row (Some r) \<Longrightarrow> answered_row r = (mr_status r = Some ''sent'' \<and> truthy_str (mr_content r))" for r
    by (simp add: answered_row_def foreign_row_def)
  let ?Q = "\<lambda>res w'. terminal_ok w w' cid mid \<and>
       (case msg_of w cid mid of None \<Rightarrow> res \<noteq> None \<and> holds_reply w' cid mid error_message ''failed''
        | Some r \<Rightarrow> if foreign_row (Some r) then res = None
            else if answered_row r then res \<noteq> None \<and> msg_of w' cid mid = Some r
            else res \<noteq> None \<and> holds_reply w' cid mid error_message ''failed'')"
    and ?E = "\<lambda>_ w'. terminal_ok w w' cid mid \<and>
       (case msg_of w cid mid of None \<Rightarrow> True | Some r \<Rightarrow> answered_row r \<longrightarrow> msg_of w' cid mid = Some r)"
  show ?case
  proof (cases "foreign_row (msg_of w cid mid)")
    case True
    then show ?thesis using 1 t by (auto simp: wp_ret foreign_row_def split: option.splits)
  next
    case False
    have get: "wp (msg_get cid mid) Q E w1 = (case next_fault w1 of
        Okay \<Rightarrow> Q (map_option (\<lambda>r. message_of_row cid r (case status_of (mr_status r) of None \<Rightarrow> FAILED | Some st \<Rightarrow> st))
               (msg_of w cid mid)) (pop w1)
      | _ \<Rightarrow> E DbError (pop w1))" for Q E
      by (auto simp: msg_get_def wp_simps row split: fault.split option.split)
    have okT: "ok = True" using 1 False by simp
    have answered: "already_answered (map_option (\<lambda>r. message_of_row cid r
        (case status_of (mr_status r) of None \<Rightarrow> FAILED | Some st \<Rightarrow> st)) (msg_of w cid mid))
      = (case msg_of w cid mid of None \<Rightarrow> False | Some r \<Rightarrow> answered_row r)" by (rule already_answered_row)
    have reply: "wp (bnd (msg_create_direct cid mid ''assistant'' error_message ''failed'' []) (\<lambda>msg.
            bnd (invalidate_cache cid) (\<lambda>_. ret (Some msg)))) ?Q ?E (pop w1)"
      if "\<not> (case msg_of w cid mid of None \<Rightarrow> False | Some r \<Rightarrow> answered_row r)"
      by (rule wp_mono [OF write_reply [OF t(3,4) False st]]) (use that False in \<open>auto split: option.splits\<close>)
    have row': "msg_of (pop w1) = msg_of w" using row by simp
    show ?thesis
      unfolding okT not_True_eq_False if_False wp_bnd [of "msg_get cid mid"] get wp_if answered
      using t False row' by (auto simp: wp_ret split: fault.split option.splits intro!: wp_mono [OF reply])
  qed
next
  case (2 x w1)
  then show ?case using assms by (auto simp: terminal_ok_refl split: option.split)
qed

text \<open>
  Failing a response, under any failing calls: a reply that is already stored (assistant row, sent, not
  empty) is never overwritten, nor is the row of any other sender, nothing else changes, and otherwise, when the
  call returns a message, the row holds the error text with status failed.
\<close>

theorem fail_never_overwrites_reply:
  assumes "msgs_ok w"
  shows "wp (fail_assistant_message cid mid error_message)
    (\<lambda>res w'. terminal_ok w w' cid mid \<and>
       (case msg_of w cid mid of None \<Rightarrow> res \<noteq> None \<and> holds_reply w' cid mid error_message ''failed''
        | Some r \<Rightarrow> if foreign_row (Some r) then res = None
            else if answered_row r then res \<noteq> None \<and> msg_of w' cid mid = Some r
            else res \<noteq> None \<and> holds_reply w' cid mid error_message ''failed''))
    (\<lambda>_ w'. terminal_ok w w' cid mid \<and>
       (case msg_of w cid mid of None \<Rightarrow> True | Some r \<Rightarrow> answered_row r \<longrightarrow> msg_of w' cid mid = Some r)) w"
  by (rule wp_fail [OF assms])

theorem fail_never_overwrites_reply_witness:
  "wp (fail_assistant_message 5 60 ''timeout'')
    (\<lambda>res w'. terminal_ok branch_world w' 5 60 \<and>
       (case msg_of branch_world 5 60 of None \<Rightarrow> res \<noteq> None \<and> holds_reply w' 5 60 ''timeout'' ''failed''
        | Some r \<Rightarrow> if foreign_row (Some r) then res = None
            else if answered_row r then res \<noteq> None \<and> msg_of w' 5 60 = Some r
            else res \<noteq> None \<and> holds_reply w' 5 60 ''timeout'' ''failed''))
    (\<lambda>_ w'. terminal_ok branch_world w' 5 60 \<and>
       (case msg_of branch_world 5 60 of None \<Rightarrow> True | Some r \<Rightarrow> answered_row r \<longrightarrow> msg_of w' 5 60 = Some r)) branch_world"
  by (rule fail_never_overwrites_reply [OF regenerate_witness_world(1)])

section \<open>The history an event carries\<close>

text \<open>\<open>turn_of\<close>: the turn a message contributes; \<open>usable_turn\<close>: the messages that contribute one.\<close>

definition turn_of :: "message \<Rightarrow> turn" where
  "turn_of m = \<lparr>tu_role = m_sender m, tu_content = take HISTORY_EVENT_MAX_MESSAGE_CHARS (message_text m),
     tu_msg = Some (m_id m), tu_source = None\<rparr>"

definition usable_turn :: "message \<Rightarrow> bool" where
  "usable_turn m \<longleftrightarrow> (m_sender m = Some ''user'' \<or> m_sender m = Some ''assistant'') \<and> m_status m = SENT \<and> message_text m \<noteq> []"

definition turns_size :: "turn list \<Rightarrow> int" where
  "turns_size ts = (\<Sum>t\<leftarrow>ts. int (length (tu_content t)))"

text \<open>The loop takes a prefix of the usable_turn messages, newest first, and puts it in chronological order.\<close>

lemma format_loop_prefix:
  "\<exists>k. format_loop ms picked budget = rev (map turn_of (take k (filter usable_turn ms))) @ picked"
proof (induction ms picked budget rule: format_loop.induct)
  case (1 picked budget)
  show ?case by simp
next
  case (2 m ms picked budget)
  let ?text = "take HISTORY_EVENT_MAX_MESSAGE_CHARS (message_text m)"
  let ?n = "int (length ?text)"
  show ?case
  proof (cases "usable_turn m")
    case False
    then show ?thesis using 2(1,2) by (auto simp: usable_turn_def)
  next
    case True
    then have u: "\<not> (m_sender m \<noteq> Some ''user'' \<and> m_sender m \<noteq> Some ''assistant'')" "\<not> (m_status m \<noteq> SENT \<or> message_text m = [])"
      by (auto simp: usable_turn_def)
    let ?p = "turn_of m # picked"
    have step: "format_loop (m # ms) picked budget =
        (if budget - ?n < 0 \<and> picked \<noteq> [] then picked
         else if HISTORY_EVENT_MAX_MESSAGES \<le> length ?p then ?p else format_loop ms ?p (budget - ?n))"
      using u by (auto simp: Let_def turn_of_def)
    consider (stop) "budget - ?n < 0 \<and> picked \<noteq> []" | (full) "\<not> (budget - ?n < 0 \<and> picked \<noteq> [])" "HISTORY_EVENT_MAX_MESSAGES \<le> length ?p"
      | (more) "\<not> (budget - ?n < 0 \<and> picked \<noteq> [])" "\<not> HISTORY_EVENT_MAX_MESSAGES \<le> length ?p" by blast
    then show ?thesis
    proof cases
      case stop
      then have "format_loop (m # ms) picked budget = rev (map turn_of (take 0 (filter usable_turn (m # ms)))) @ picked"
        unfolding step if_P [OF stop] by simp
      then show ?thesis by blast
    next
      case full
      then have "format_loop (m # ms) picked budget = rev (map turn_of (take 1 (filter usable_turn (m # ms)))) @ picked"
        unfolding step if_not_P [OF full(1)] if_P [OF full(2)] using True by simp
      then show ?thesis by blast
    next
      case more
      from 2(3) [OF u refl refl more(1) refl] more(2)
      obtain k where "format_loop ms ?p (budget - ?n) = rev (map turn_of (take k (filter usable_turn ms))) @ ?p"
        unfolding turn_of_def by blast
      then have "format_loop (m # ms) picked budget = rev (map turn_of (take (Suc k) (filter usable_turn (m # ms)))) @ picked"
        unfolding step if_not_P [OF more(1)] if_not_P [OF more(2)] using True by simp
      then show ?thesis by blast
    qed
  qed
qed

lemma format_loop_bounds:
  assumes "length picked < HISTORY_EVENT_MAX_MESSAGES" and "picked = [] \<Longrightarrow> 2000 \<le> budget"
    and "picked \<noteq> [] \<Longrightarrow> 0 \<le> budget"
  shows "length (format_loop ms picked budget) \<le> HISTORY_EVENT_MAX_MESSAGES \<and>
    turns_size (format_loop ms picked budget) \<le> turns_size picked + budget"
  using assms
proof (induction ms picked budget rule: format_loop.induct)
  case (1 picked budget)
  then show ?case by (cases "picked = []") auto
next
  case (2 m ms picked budget)
  let ?n = "int (length (take HISTORY_EVENT_MAX_MESSAGE_CHARS (message_text m)))"
  have small: "?n \<le> 2000" by (simp add: HISTORY_EVENT_MAX_MESSAGE_CHARS_def)
  show ?case
  proof (cases "usable_turn m")
    case False
    then show ?thesis using 2 by (auto simp: usable_turn_def)
  next
    case True
    then have u: "\<not> (m_sender m \<noteq> Some ''user'' \<and> m_sender m \<noteq> Some ''assistant'')" "\<not> (m_status m \<noteq> SENT \<or> message_text m = [])"
      by (auto simp: usable_turn_def)
    let ?p = "turn_of m # picked"
    have step: "format_loop (m # ms) picked budget =
        (if budget - ?n < 0 \<and> picked \<noteq> [] then picked
         else if HISTORY_EVENT_MAX_MESSAGES \<le> length ?p then ?p else format_loop ms ?p (budget - ?n))"
      using u by (auto simp: Let_def turn_of_def)
    have size: "turns_size ?p = ?n + turns_size picked" by (simp add: turns_size_def turn_of_def)
    show ?thesis
    proof (cases "budget - ?n < 0 \<and> picked \<noteq> []")
      case True
      then show ?thesis unfolding step if_P [OF True] using 2(4,6) by auto
    next
      case False
      then have nonneg: "0 \<le> budget - ?n" using 2(5) small by (cases "picked = []") auto
      show ?thesis
      proof (cases "HISTORY_EVENT_MAX_MESSAGES \<le> length ?p")
        case True
        then show ?thesis unfolding step if_not_P [OF False] if_P [OF True] using 2(4) nonneg size by simp
      next
        case more: False
        have "length (format_loop ms ?p (budget - ?n)) \<le> HISTORY_EVENT_MAX_MESSAGES \<and>
            turns_size (format_loop ms ?p (budget - ?n)) \<le> turns_size ?p + (budget - ?n)"
          using 2(3) [OF u refl refl False refl] more nonneg unfolding turn_of_def by simp
        then show ?thesis unfolding step if_not_P [OF False] if_not_P [OF more] using size by simp
      qed
    qed
  qed
qed

text \<open>
  The history sent with a request is bounded and in order: it is the chronological list of the newest usable_turn
  messages (finished user or assistant messages with text), at most 10 turns of 2000 characters and 8000
  characters in all, with the newest usable_turn message always included.
\<close>

theorem format_history_bounded:
  "\<exists>k. format_history ms = rev (map turn_of (take k (filter usable_turn ms))) \<and>
     length (format_history ms) \<le> 10 \<and> turns_size (format_history ms) \<le> 8000 \<and>
     (filter usable_turn ms = [] \<or> 0 < k)"
proof -
  obtain k where k: "format_history ms = rev (map turn_of (take k (filter usable_turn ms)))"
    using format_loop_prefix [of ms "[]" HISTORY_EVENT_MAX_CHARS] by (auto simp: format_history_def)
  have bounds: "length (format_history ms) \<le> 10" "turns_size (format_history ms) \<le> 8000"
    using format_loop_bounds [of "[]" HISTORY_EVENT_MAX_CHARS ms]
    by (simp_all add: format_history_def history_limits turns_size_def)
  have "format_loop ms [] b \<noteq> []" if "filter usable_turn ms \<noteq> []" for b
    using that
  proof (induction ms)
    case (Cons m ms)
    have grows: "format_loop ms (t # p) b' \<noteq> []" for t p b'
      using format_loop_prefix [of ms "t # p" b'] by auto
    show ?case
    proof (cases "usable_turn m")
      case True
      then show ?thesis using grows by (auto simp: usable_turn_def Let_def)
    next
      case False
      then show ?thesis using Cons by (auto simp: usable_turn_def)
    qed
  qed simp
  then have "filter usable_turn ms \<noteq> [] \<longrightarrow> 0 < k" using k by (auto simp: format_history_def intro!: gr0I)
  then show ?thesis using k bounds by blast
qed

end
