(* ===== verification/Stream_Service.thy ===== *)
theory Stream_Service
  imports Message_Service
begin

text \<open>
  \<open>app/services/stream_service.py\<close>: ownership keys, the replay log (a Redis stream) with its Pub/Sub
  channel, and what a subscriber is sent. An approximate \<open>MAXLEN\<close> lets the server keep more entries than
  the limit: \<open>slack\<close> is how many more. A subscription is run against the list of what its polls of the
  channel return, each with the time of the poll; frames are kept as values, the text of a frame is not
  modelled.
\<close>

definition STREAM_OWNERSHIP_TTL_SECONDS :: int where "STREAM_OWNERSHIP_TTL_SECONDS = 60"
definition STREAM_EVENT_LOG_MAXLEN :: nat where "STREAM_EVENT_LOG_MAXLEN = 2000"
definition STREAM_EVENT_LOG_TTL_SECONDS :: int where "STREAM_EVENT_LOG_TTL_SECONDS = 900"
definition STREAM_MAX_CONNECTION_SECONDS :: int where "STREAM_MAX_CONNECTION_SECONDS = 600"

type_synonym event = "(string \<times> json) list"

section \<open>Ownership\<close>

definition register_ownership :: "string \<Rightarrow> uuid \<Rightarrow> (world, unit) prog" where
  "register_ownership pod cid = when_redis () (attempt
     (redis_exec (\<lambda>w. w\<lparr>w_owner := (w_owner w)(cid := Some (pod, Some (w_now w + sec STREAM_OWNERSHIP_TTL_SECONDS)))\<rparr>))
     (\<lambda>_. ret ()))"

definition renew_ownership :: "uuid \<Rightarrow> (world, unit) prog" where
  "renew_ownership cid = when_redis () (attempt
     (redis_exec (\<lambda>w. w\<lparr>w_owner := (w_owner w)(cid :=
        expire_at (w_now w) (w_now w + sec STREAM_OWNERSHIP_TTL_SECONDS) (w_owner w cid))\<rparr>))
     (\<lambda>_. ret ()))"

definition release_ownership :: "string \<Rightarrow> uuid \<Rightarrow> (world, unit) prog" where
  "release_ownership pod cid = when_redis () (attempt
     (bnd (redis_query (\<lambda>w. live (w_now w) (w_owner w cid))) (\<lambda>owner.
      if owner = Some pod then redis_exec (\<lambda>w. w\<lparr>w_owner := (w_owner w)(cid := None)\<rparr>) else ret ()))
     (\<lambda>_. ret ()))"

section \<open>Event ids\<close>

definition sid_str :: "stream_id \<Rightarrow> string" where
  "sid_str i = dec_of_nat (fst i) @ ''-'' @ dec_of_nat (snd i)"

text \<open>\<open>int(s)\<close> of Python: surrounding space, a sign, digits with single underscores between them.\<close>

definition digit_value :: "char \<Rightarrow> nat" where
  "digit_value c = of_char c - 48"

fun int_digits :: "bool \<Rightarrow> nat \<Rightarrow> string \<Rightarrow> nat option" where
  "int_digits ok acc [] = (if ok then Some acc else None)"
| "int_digits ok acc (c # cs) =
     (if is_digit c then int_digits True (acc * 10 + digit_value c) cs
      else if c = CHR ''_'' \<and> ok then int_digits False acc cs else None)"

definition py_int :: "string \<Rightarrow> int option" where
  "py_int s = (case strip s of
     [] \<Rightarrow> None
   | c # cs \<Rightarrow> if c = CHR ''-'' then map_option (\<lambda>n. - int n) (int_digits False 0 cs)
              else if c = CHR ''+'' then map_option int (int_digits False 0 cs)
              else map_option int (int_digits False 0 (c # cs)))"

text \<open>\<open>s.partition("-")\<close>, without the separator.\<close>

definition partition_dash :: "string \<Rightarrow> string \<times> string" where
  "partition_dash s = (takeWhile (\<lambda>c. c \<noteq> CHR ''-'') s, drop 1 (dropWhile (\<lambda>c. c \<noteq> CHR ''-'') s))"

definition id_key :: "string \<Rightarrow> int \<times> int" where
  "id_key s = (let (ms, sq) = partition_dash s in
     case (py_int ms, if sq = [] then Some 0 else py_int sq) of
       (Some a, Some b) \<Rightarrow> (a, b) | _ \<Rightarrow> (-1, -1))"

definition event_id_key :: "json \<Rightarrow> int \<times> int" where
  "event_id_key j = (case j of JStr s \<Rightarrow> id_key s | JInt i \<Rightarrow> id_key (dec_of_int i) | _ \<Rightarrow> (-1, -1))"

definition key_le :: "int \<times> int \<Rightarrow> int \<times> int \<Rightarrow> bool" where
  "key_le a b \<longleftrightarrow> fst a < fst b \<or> (fst a = fst b \<and> snd a \<le> snd b)"

definition key_max :: "int \<times> int \<Rightarrow> int \<times> int \<Rightarrow> int \<times> int" where
  "key_max a b = (if key_le a b then b else a)"

section \<open>Publishing\<close>

definition log_of :: "world \<Rightarrow> uuid \<Rightarrow> (stream_id \<times> json) list" where
  "log_of w cid = (case live (w_now w) (w_log w cid) of None \<Rightarrow> [] | Some l \<Rightarrow> l)"

text \<open>The id \<open>XADD key *\<close> assigns: the server's milliseconds, never behind the last entry.\<close>

definition xadd_id :: "world \<Rightarrow> uuid \<Rightarrow> stream_id" where
  "xadd_id w cid = (let ms = nat (w_now w div 1000) in
     if log_of w cid = [] then (ms, 0)
     else (let (lm, ls) = fst (last (log_of w cid)) in if lm < ms then (ms, 0) else (lm, ls + 1)))"

definition xadd :: "nat \<Rightarrow> uuid \<Rightarrow> json \<Rightarrow> world \<Rightarrow> world" where
  "xadd slack cid d w =
     (let l = log_of w cid @ [(xadd_id w cid, d)] in
      w\<lparr>w_log := (w_log w)(cid := Some (drop (length l - (STREAM_EVENT_LOG_MAXLEN + slack)) l,
         live_ttl (w_now w) (w_log w cid)))\<rparr>)"

definition expire_log :: "uuid \<Rightarrow> world \<Rightarrow> world" where
  "expire_log cid w = w\<lparr>w_log := (w_log w)(cid :=
     expire_at (w_now w) (w_now w + sec STREAM_EVENT_LOG_TTL_SECONDS) (w_log w cid))\<rparr>"

definition with_id :: "stream_id \<Rightarrow> event \<Rightarrow> event" where
  "with_id i e = AList.update ''event_id'' (JStr (sid_str i)) e"

definition publish :: "uuid \<Rightarrow> event \<Rightarrow> world \<Rightarrow> world" where
  "publish cid e w = w\<lparr>w_pub := w_pub w @ [(cid, JObj e)]\<rparr>"

definition publish_token :: "nat \<Rightarrow> uuid \<Rightarrow> event \<Rightarrow> (world, unit) prog" where
  "publish_token slack cid chunk = when_redis ()
     (bnd (attempt
        (bnd (ext RedisError (\<lambda>w. xadd_id w cid) (xadd slack cid (JObj chunk))) (\<lambda>i.
         bnd (redis_exec (expire_log cid)) (\<lambda>_. ret (with_id i chunk))))
        (\<lambda>_. ret chunk)) (\<lambda>payload.
      attempt (redis_exec (publish cid payload)) (\<lambda>_. ret ())))"

section \<open>Replay\<close>

text \<open>A range bound as Redis reads it; \<open>None\<close> is an error reply.\<close>

fun u64_digits :: "nat \<Rightarrow> string \<Rightarrow> nat option" where
  "u64_digits acc [] = (if acc < 2 ^ 64 then Some acc else None)"
| "u64_digits acc (c # cs) = (if is_digit c then u64_digits (acc * 10 + digit_value c) cs else None)"

definition range_id :: "string \<Rightarrow> stream_id option" where
  "range_id s = (let (ms, sq) = partition_dash s in
     if ms = [] \<or> (CHR ''-'' \<in> set s \<and> sq = []) then None
     else case (u64_digits 0 ms, if sq = [] then Some 0 else u64_digits 0 sq) of
       (Some a, Some b) \<Rightarrow> if (a, b) = (2 ^ 64 - 1, 2 ^ 64 - 1) then None else Some (a, b) | _ \<Rightarrow> None)"

definition sid_lt :: "stream_id \<Rightarrow> stream_id \<Rightarrow> bool" where
  "sid_lt a b \<longleftrightarrow> fst a < fst b \<or> (fst a = fst b \<and> snd a < snd b)"

definition above :: "string option \<Rightarrow> (stream_id \<Rightarrow> bool) option" where
  "above since = (case since of
     None \<Rightarrow> Some (\<lambda>_. True)
   | Some s \<Rightarrow> if s = [] \<or> s = ''0'' then Some (\<lambda>_. True) else map_option sid_lt (range_id s))"

definition pick_row :: "string \<Rightarrow> stream_id \<times> json \<Rightarrow> event option" where
  "pick_row mid r = (case snd r of
     JObj e \<Rightarrow> if jget e ''message_id'' = JStr mid then Some (with_id (fst r) e) else None
   | _ \<Rightarrow> None)"

definition is_object :: "json \<Rightarrow> bool" where
  "is_object j = (case j of JObj _ \<Rightarrow> True | _ \<Rightarrow> False)"

definition has_status :: "string \<Rightarrow> event \<Rightarrow> bool" where
  "has_status s e \<longleftrightarrow> jget e ''status'' = JStr s"

definition drop_superseded :: "event list \<Rightarrow> event list" where
  "drop_superseded es = (if \<exists>e \<in> set es. has_status ''completed'' e
     then filter (\<lambda>e. \<not> has_status ''failed'' e) es else es)"

text \<open>A logged value that is not an object has no \<open>get\<close>.\<close>

definition replay :: "uuid \<Rightarrow> string \<Rightarrow> string option \<Rightarrow> (world, event list) prog" where
  "replay cid mid since = when_redis []
     (bnd (attempt
        (case above since of
           None \<Rightarrow> bnd (redis_query (\<lambda>_. ())) (\<lambda>_. raise RedisError)
         | Some P \<Rightarrow> redis_query (\<lambda>w. filter (\<lambda>r. P (fst r)) (log_of w cid)))
        (\<lambda>_. ret [])) (\<lambda>rows.
      if \<exists>r \<in> set rows. \<not> is_object (snd r) then raise TypeError
      else ret (drop_superseded (List.map_filter (pick_row mid) rows))))"

section \<open>Subscribing\<close>

datatype frame = Offline | Connected | Heartbeat | Event event

datatype recv = Nothing | Got json | Broken

definition ends_stream :: "event \<Rightarrow> bool" where
  "ends_stream e \<longleftrightarrow> truthy (jget e ''is_final'') \<or> has_status ''completed'' e"

text \<open>The replay phase: frames, the newest key delivered, and whether the stream ended in it.\<close>

fun replay_phase :: "event list \<Rightarrow> int \<times> int \<Rightarrow> frame list \<times> (int \<times> int) \<times> bool" where
  "replay_phase [] key = ([], key, False)"
| "replay_phase (e # es) key =
     (let key' = key_max key (event_id_key (jget e ''event_id'')) in
      if ends_stream e then ([Event e], key', True)
      else (let (fs, k, ended) = replay_phase es key' in (Event e # fs, k, ended)))"

text \<open>The live loop over the polls that follow; an event of another turn or one delivered already is skipped.\<close>

fun live_phase :: "string option \<Rightarrow> int \<Rightarrow> int \<times> int \<Rightarrow> (int \<times> recv) list \<Rightarrow> frame list" where
  "live_phase mid deadline key [] = []"
| "live_phase mid deadline key ((t, r) # rest) =
     (if mid \<noteq> None \<and> deadline < t then []
      else case r of
        Nothing \<Rightarrow> Heartbeat # live_phase mid deadline key rest
      | Broken \<Rightarrow> live_phase mid deadline key rest
      | Got d \<Rightarrow> (case d of
          JObj e \<Rightarrow>
            (case mid of
               None \<Rightarrow> if ends_stream e then [Event e] else Event e # live_phase mid deadline key rest
             | Some m \<Rightarrow>
                 if jget e ''message_id'' \<noteq> JStr m then live_phase mid deadline key rest
                 else (let k = event_id_key (jget e ''event_id'') in
                   if truthy (jget e ''event_id'') \<and> key_le k key then live_phase mid deadline key rest
                   else if ends_stream e then [Event e]
                   else Event e # live_phase mid deadline (key_max key k) rest))
        | _ \<Rightarrow> live_phase mid deadline key rest))"

definition sse_frames :: "string option \<Rightarrow> int \<Rightarrow> event list \<Rightarrow> (int \<times> recv) list \<Rightarrow> frame list" where
  "sse_frames mid deadline replayed polls =
     (let (fs, key, ended) = replay_phase replayed (-1, -1) in
      Connected # fs @ (if ended then [] else live_phase mid deadline key polls))"

text \<open>The generator, run to its end; \<open>finally\<close> unsubscribes before it gives up the ownership.\<close>

definition subscribe ::
  "string \<Rightarrow> uuid \<Rightarrow> string option \<Rightarrow> string option \<Rightarrow> int \<Rightarrow> (int \<times> recv) list \<Rightarrow> (world, frame list) prog" where
  "subscribe pod cid mid since start polls =
     bnd (getting w_redis_on) (\<lambda>on. if \<not> on then ret [Offline]
     else bnd (redis_query (\<lambda>_. ())) (\<lambda>_.
          bnd (register_ownership pod cid) (\<lambda>_.
          bnd (attempt
                 (case mid of None \<Rightarrow> ret [] | Some m \<Rightarrow> if m = [] then ret [] else replay cid m since)
                 (\<lambda>e. bnd (redis_query (\<lambda>_. ())) (\<lambda>_. bnd (release_ownership pod cid) (\<lambda>_. raise e)))) (\<lambda>replayed.
          bnd (redis_query (\<lambda>_. ())) (\<lambda>_.
          bnd (release_ownership pod cid) (\<lambda>_.
          ret (sse_frames (if mid = Some [] then None else mid)
                 (start + sec STREAM_MAX_CONNECTION_SECONDS) replayed polls)))))))"

section \<open>Ids read back\<close>

lemma char_digit: "d < 10 \<Longrightarrow> is_digit (char_of (48 + d)) \<and> digit_value (char_of (48 + d)) = d"
  by (simp add: is_digit_def digit_value_def)

lemma dec_of_nat_digits: "c \<in> set (dec_of_nat n) \<Longrightarrow> is_digit c"
  by (induction n rule: dec_of_nat.induct)
     (subst (asm) (2) dec_of_nat.simps, auto simp: char_digit split: if_splits)

lemma dec_of_nat_not_Nil [simp]: "dec_of_nat n \<noteq> []"
  by (subst dec_of_nat.simps) simp

definition digits_value :: "nat \<Rightarrow> string \<Rightarrow> nat" where
  "digits_value acc s = foldl (\<lambda>a c. a * 10 + digit_value c) acc s"

lemma dec_of_nat_value: "digits_value 0 (dec_of_nat n) = n"
proof (induction n rule: dec_of_nat.induct)
  case (1 n)
  show ?case
  proof (cases "n < 10")
    case True
    then show ?thesis by (subst dec_of_nat.simps) (simp add: digits_value_def char_digit)
  next
    case False
    then show ?thesis using 1 by (subst dec_of_nat.simps) (simp add: digits_value_def char_digit)
  qed
qed

lemma int_digits_all: "\<forall>c \<in> set s. is_digit c \<Longrightarrow>
    int_digits ok acc s = (if ok \<or> s \<noteq> [] then Some (digits_value acc s) else None)"
  by (induction s arbitrary: ok acc) (auto simp: digits_value_def)

lemma digit_chars: "is_digit c \<Longrightarrow> \<not> py_space c \<and> c \<noteq> CHR ''-'' \<and> c \<noteq> CHR ''+''"
  by (auto simp: is_digit_def py_space_def Let_def)

lemma py_int_dec [simp]: "py_int (dec_of_nat n) = Some (int n)"
proof -
  have d: "\<forall>c \<in> set (dec_of_nat n). is_digit c" using dec_of_nat_digits by blast
  then have s: "strip (dec_of_nat n) = dec_of_nat n" using digit_chars by (intro strip_nonspace_id) blast
  obtain c cs where c: "dec_of_nat n = c # cs" by (cases "dec_of_nat n") auto
  then have "is_digit c" using d by simp
  then have n: "c \<noteq> CHR ''-''" "c \<noteq> CHR ''+''" using digit_chars by blast+
  have "int_digits False 0 (c # cs) = Some n"
    unfolding c [symmetric] using int_digits_all [OF d, of False 0] dec_of_nat_value by simp
  then show ?thesis unfolding py_int_def s unfolding c by (simp add: n)
qed

lemma partition_sid: "partition_dash (sid_str i) = (dec_of_nat (fst i), dec_of_nat (snd i))"
proof -
  have "\<forall>c \<in> set (dec_of_nat (fst i)). c \<noteq> CHR ''-''" using dec_of_nat_digits digit_chars by blast
  then show ?thesis by (simp add: partition_dash_def sid_str_def takeWhile_append dropWhile_append3)
qed

definition sid_key :: "stream_id \<Rightarrow> int \<times> int" where
  "sid_key i = (int (fst i), int (snd i))"

lemma id_key_sid [simp]: "id_key (sid_str i) = sid_key i"
  by (simp add: id_key_def partition_sid sid_key_def)

lemma sid_str_not_Nil [simp]: "sid_str i \<noteq> []"
  by (simp add: sid_str_def)

lemma key_le_sid: "key_le (sid_key a) (sid_key b) \<longleftrightarrow> a = b \<or> sid_lt a b"
  by (cases a; cases b) (auto simp: key_le_def sid_key_def sid_lt_def)

lemma key_le_start [simp]: "\<not> key_le (sid_key a) (-1, -1)" "key_max (-1, -1) (sid_key a) = sid_key a"
  by (auto simp: key_max_def key_le_def sid_key_def)

lemma sid_lt_trans: "sid_lt a b \<Longrightarrow> sid_lt b c \<Longrightarrow> sid_lt a c"
  by (auto simp: sid_lt_def)

lemma sid_lt_irrefl [simp]: "\<not> sid_lt a a"
  by (simp add: sid_lt_def)

lemma sid_str_inj: "sid_str a = sid_str b \<longleftrightarrow> a = b"
  by (metis id_key_sid key_le_sid sid_lt_irrefl sid_lt_trans)

section \<open>Delivery\<close>

lemma jget_with_id [simp]:
  "jget (with_id i e) ''event_id'' = JStr (sid_str i)"
  "k \<noteq> ''event_id'' \<Longrightarrow> jget (with_id i e) k = jget e k"
  by (simp_all add: with_id_def jget_or_def update_conv')

lemma ends_stream_with_id [simp]: "ends_stream (with_id i e) = ends_stream e"
  by (simp add: ends_stream_def has_status_def)

text \<open>The events up to and including the first one that ends the stream.\<close>

fun upto_end :: "event list \<Rightarrow> event list" where
  "upto_end [] = []"
| "upto_end (e # es) = (if ends_stream e then [e] else e # upto_end es)"

text \<open>The events of a turn in a stretch of the log, as a client is to see them.\<close>

definition turn_events :: "string \<Rightarrow> (stream_id \<times> event) list \<Rightarrow> event list" where
  "turn_events mid rows = map (\<lambda>(i, e). with_id i e) (filter (\<lambda>(i, e). jget e ''message_id'' = JStr mid) rows)"

definition logged :: "(stream_id \<times> event) list \<Rightarrow> (stream_id \<times> json) list" where
  "logged rows = map (\<lambda>(i, e). (i, JObj e)) rows"

definition events_in :: "frame list \<Rightarrow> event list" where
  "events_in fs = List.map_filter (\<lambda>f. case f of Event e \<Rightarrow> Some e | _ \<Rightarrow> None) fs"

lemma events_in_simps [simp]:
  "events_in [] = []" "events_in (Event e # fs) = e # events_in fs" "events_in (Heartbeat # fs) = events_in fs"
  "events_in (Connected # fs) = events_in fs" "events_in (fs @ gs) = events_in fs @ events_in gs"
  by (simp_all add: events_in_def List.map_filter_def)

text \<open>\<open>carries polls rows\<close>: the polls deliver the published form of \<open>rows\<close>, in order, with any idle or broken polls between.\<close>

fun received :: "(int \<times> recv) list \<Rightarrow> json list" where
  "received [] = []"
| "received ((t, Got d) # rest) = d # received rest"
| "received ((t, _) # rest) = received rest"

definition carries :: "(int \<times> recv) list \<Rightarrow> (stream_id \<times> event) list \<Rightarrow> bool" where
  "carries polls rows \<longleftrightarrow> received polls = map (\<lambda>(i, e). JObj (with_id i e)) rows"

definition in_time :: "int \<Rightarrow> (int \<times> recv) list \<Rightarrow> bool" where
  "in_time deadline polls \<longleftrightarrow> (\<forall>p \<in> set polls. fst p \<le> deadline)"

lemma turn_events_simps [simp]:
  "turn_events mid [] = []"
  "turn_events mid ((i, e) # rows) =
     (if jget e ''message_id'' = JStr mid then with_id i e # turn_events mid rows else turn_events mid rows)"
  "turn_events mid (xs @ ys) = turn_events mid xs @ turn_events mid ys"
  by (simp_all add: turn_events_def)

lemma key_le_total: "\<not> key_le a b \<Longrightarrow> key_le b a"
  by (auto simp: key_le_def)

lemma key_le_trans: "key_le a b \<Longrightarrow> key_le b c \<Longrightarrow> key_le a c"
  by (auto simp: key_le_def)

lemma live_phase_delivers:
  assumes "carries polls rows" and "in_time deadline polls" and "sorted_wrt sid_lt (map fst rows)"
  shows "events_in (live_phase (Some mid) deadline key polls)
    = upto_end (turn_events mid (filter (\<lambda>(i, e). \<not> key_le (sid_key i) key) rows))"
  using assms
proof (induction polls arbitrary: rows key)
  case Nil
  then show ?case by (simp add: carries_def turn_events_def)
next
  case (Cons p polls)
  obtain t r where p: "p = (t, r)" by (cases p)
  have time: "\<not> deadline < t" "in_time deadline polls" using Cons.prems(2) p by (auto simp: in_time_def)
  show ?case
  proof (cases r)
    case (Got d)
    then obtain i e rows' where rows: "rows = (i, e) # rows'" and d: "d = JObj (with_id i e)"
      and c: "carries polls rows'" using Cons.prems(1) p by (cases rows) (auto simp: carries_def)
    have s: "sorted_wrt sid_lt (map fst rows')" and later: "\<forall>(j, _) \<in> set rows'. sid_lt i j"
      using Cons.prems(3) by (auto simp: rows)
    note IH = Cons.IH [OF c time(2) s]
    have next_key: "filter (\<lambda>(j, e). \<not> key_le (sid_key j) (sid_key i)) rows' = filter (\<lambda>(j, e). \<not> key_le (sid_key j) key) rows'"
      if "\<not> key_le (sid_key i) key"
    proof (rule filter_cong [OF refl], clarify)
      fix j e'
      assume "(j, e') \<in> set rows'"
      then have "sid_lt i j" using later by auto
      then show "(\<not> key_le (sid_key j) (sid_key i)) = (\<not> key_le (sid_key j) key)"
        using that sid_lt_trans key_le_trans by (metis key_le_sid sid_lt_irrefl)
    qed
    consider (other) "jget e ''message_id'' \<noteq> JStr mid" | (old) "jget e ''message_id'' = JStr mid" "key_le (sid_key i) key"
      | (new) "jget e ''message_id'' = JStr mid" "\<not> key_le (sid_key i) key" by blast
    then show ?thesis
    proof cases
      case new
      then have "key_max key (sid_key i) = sid_key i" by (simp add: key_max_def key_le_total)
      then show ?thesis using time(1) IH [of "sid_key i"] next_key [OF new(2)] new
        by (simp add: p Got d rows event_id_key_def Let_def)
    qed (use time(1) IH [of key] in \<open>simp_all add: p Got d rows event_id_key_def Let_def\<close>)
  qed (use Cons time p in \<open>auto simp: carries_def\<close>)
qed

lemma replay_phase_events:
  "events_in (fst (replay_phase es key)) = upto_end es \<and>
   (snd (snd (replay_phase es key)) \<longleftrightarrow> (\<exists>e \<in> set es. ends_stream e))"
proof (induction es arbitrary: key)
  case (Cons e es)
  obtain fs k ended where rest: "replay_phase es (key_max key (event_id_key (jget e ''event_id''))) = (fs, k, ended)"
    by (metis prod_cases3)
  then show ?case using Cons.IH [of "key_max key (event_id_key (jget e ''event_id''))"] by (simp add: Let_def)
qed simp

lemma key_max_le: "key_le a (key_max a b)" "key_le b (key_max a b)"
  by (auto simp: key_max_def key_le_def)

text \<open>The key the live phase starts from bounds every replayed id and is one of them (or the start).\<close>

lemma replay_phase_key:
  assumes "\<forall>e \<in> set (turn_events mid rows). \<not> ends_stream e"
    and "replay_phase (turn_events mid rows) key = (fs, k, ended)"
  shows "key_le key k \<and> (\<forall>(i, e) \<in> set rows. jget e ''message_id'' = JStr mid \<longrightarrow> key_le (sid_key i) k) \<and>
    (k = key \<or> (\<exists>(i, e) \<in> set rows. k = sid_key i))"
  using assms
proof (induction rows arbitrary: key fs k ended)
  case Nil
  then show ?case by (simp add: key_le_def)
next
  case (Cons r rows)
  obtain i e where r: "r = (i, e)" by (cases r)
  show ?case
  proof (cases "jget e ''message_id'' = JStr mid")
    case False
    then show ?thesis using Cons.IH [of key fs k ended] Cons.prems r by auto
  next
    case True
    obtain fs' k' ended' where rest: "replay_phase (turn_events mid rows) (key_max key (sid_key i)) = (fs', k', ended')"
      by (metis prod_cases3)
    have k: "k' = k" using Cons.prems True r rest by (simp add: event_id_key_def Let_def)
    have IH: "key_le (key_max key (sid_key i)) k \<and>
        (\<forall>(i, e) \<in> set rows. jget e ''message_id'' = JStr mid \<longrightarrow> key_le (sid_key i) k) \<and>
        (k = key_max key (sid_key i) \<or> (\<exists>(i, e) \<in> set rows. k = sid_key i))"
      using Cons.IH [OF _ rest] Cons.prems(1) True r k by simp
    have "key_le key k" "key_le (sid_key i) k" using IH key_max_le key_le_trans by blast+
    moreover have "k = key \<or> (\<exists>(i, e) \<in> set ((i, e) # rows). k = sid_key i)"
      using IH by (auto simp: key_max_def split: if_splits)
    ultimately show ?thesis using IH r by auto
  qed
qed

lemma upto_end_append:
  "upto_end (xs @ ys) = (if \<exists>e \<in> set xs. ends_stream e then upto_end xs else xs @ upto_end ys)"
  by (induction xs) auto

lemma upto_end_id: "\<forall>e \<in> set xs. \<not> ends_stream e \<Longrightarrow> upto_end xs = xs"
  by (induction xs) auto

lemma sse_frames_exact:
  assumes sorted: "sorted_wrt sid_lt (map fst (a @ b @ c))"
    and live: "carries polls (b @ c)" "in_time deadline polls"
    and newer: "\<forall>(i, e) \<in> set b. P i"
  shows "events_in (sse_frames (Some mid) deadline
      (drop_superseded (turn_events mid (filter (\<lambda>r. P (fst r)) (a @ b)))) polls)
    = upto_end (drop_superseded (turn_events mid (filter (\<lambda>r. P (fst r)) (a @ b))) @ turn_events mid c)"
proof -
  let ?rows = "filter (\<lambda>r. P (fst r)) (a @ b)"
  let ?es = "drop_superseded (turn_events mid ?rows)"
  obtain fs k ended where rp: "replay_phase ?es (-1, -1) = (fs, k, ended)" by (metis prod_cases3)
  have fs: "events_in fs = upto_end ?es" and ended: "ended \<longleftrightarrow> (\<exists>e \<in> set ?es. ends_stream e)"
    using replay_phase_events [of ?es "(-1, -1)"] rp by simp_all
  show ?thesis
  proof (cases ended)
    case True
    then have "\<exists>e \<in> set ?es. ends_stream e" using ended by simp
    then show ?thesis unfolding sse_frames_def rp Let_def prod.case upto_end_append using fs True by simp
  next
    case False
    then have none: "\<forall>e \<in> set ?es. \<not> ends_stream e" using ended by blast
    have "\<not> (\<exists>e \<in> set (turn_events mid ?rows). has_status ''completed'' e)"
    proof
      assume h: "\<exists>e \<in> set (turn_events mid ?rows). has_status ''completed'' e"
      then obtain e where e: "e \<in> set (turn_events mid ?rows)" "has_status ''completed'' e" by blast
      then have "e \<in> set ?es" using h by (auto simp: drop_superseded_def has_status_def)
      then show False using none e(2) by (simp add: ends_stream_def)
    qed
    then have es: "?es = turn_events mid ?rows" by (simp add: drop_superseded_def)
    have key: "(\<forall>(i, e) \<in> set ?rows. jget e ''message_id'' = JStr mid \<longrightarrow> key_le (sid_key i) k) \<and>
        (k = (-1, -1) \<or> (\<exists>(i, e) \<in> set ?rows. k = sid_key i))"
      using replay_phase_key [of mid ?rows "(-1, -1)" fs k ended] none es rp by simp
    have "turn_events mid (filter (\<lambda>(i, e). \<not> key_le (sid_key i) k) b) = []"
    proof -
      have "key_le (sid_key i) k" if "(i, e) \<in> set b" "jget e ''message_id'' = JStr mid" for i e
        using key newer that by (force simp: split_beta)
      then show ?thesis unfolding turn_events_def by (auto simp: filter_empty_conv simp del: split_paired_Ex)
    qed
    moreover have "filter (\<lambda>(i, e). \<not> key_le (sid_key i) k) c = c"
    proof (rule filter_True, clarify)
      fix i e assume ic: "(i, e) \<in> set c" and le: "key_le (sid_key i) k"
      then obtain j f where j: "(j, f) \<in> set (a @ b)" "k = sid_key j" using key by auto
      have "\<forall>x \<in> set (map fst (a @ b)). \<forall>y \<in> set (map fst c). sid_lt x y"
        using sorted sorted_wrt_append [of sid_lt "map fst (a @ b)" "map fst c"] by simp
      moreover have "j \<in> set (map fst (a @ b))" "i \<in> set (map fst c)" using j(1) ic by (auto intro: rev_image_eqI)
      ultimately have "sid_lt j i" by blast
      then show False using le j(2) by (metis key_le_sid sid_lt_irrefl sid_lt_trans)
    qed
    moreover have "sorted_wrt sid_lt (map fst (b @ c))" using sorted by (simp add: sorted_wrt_append)
    ultimately have "events_in (live_phase (Some mid) deadline k polls) = upto_end (turn_events mid c)"
      using live_phase_delivers [OF live, of mid k] by simp
    moreover have "\<not> (\<exists>e \<in> set ?es. ends_stream e)" using none by blast
    ultimately show ?thesis unfolding sse_frames_def rp Let_def prod.case upto_end_append
      using fs False upto_end_id [OF none] by simp
  qed
qed

section \<open>Frames of the operations\<close>

text \<open>\<open>only_stream w w'\<close>: the replay logs, the channel, the ownership keys and the schedule apart, \<open>w'\<close> is \<open>w\<close>.\<close>

definition only_stream :: "world \<Rightarrow> world \<Rightarrow> bool" where
  "only_stream w w' \<longleftrightarrow>
     w_now w' = w_now w \<and> w_redis_on w' = w_redis_on w \<and> w_conv w' = w_conv w \<and>
     w_catalog w' = w_catalog w \<and> w_msgs w' = w_msgs w \<and> w_outbox w' = w_outbox w \<and>
     w_inbox w' = w_inbox w \<and> w_rconv w' = w_rconv w \<and> w_rmsgs w' = w_rmsgs w \<and>
     w_pending w' = w_pending w \<and> w_zset w' = w_zset w \<and> w_locks w' = w_locks w \<and> w_idem w' = w_idem w \<and>
     w_kafka w' = w_kafka w"

lemma only_stream_refl [simp, intro]: "only_stream w w"
  by (simp add: only_stream_def)

lemma only_stream_steps [simp]:
  "only_stream w (xadd slack cid d w') = only_stream w w'" "only_stream w (expire_log cid w') = only_stream w w'"
  "only_stream w (publish cid e w') = only_stream w w'" "only_stream w (pop w') = only_stream w w'"
  "only_stream w (w'\<lparr>w_owner := ow\<rparr>) = only_stream w w'"
  by (simp_all add: only_stream_def xadd_def expire_log_def publish_def Let_def)

lemma only_streamD:
  assumes "only_stream w w'"
  shows "w_now w' = w_now w" "w_redis_on w' = w_redis_on w" "w_conv w' = w_conv w"
    "w_catalog w' = w_catalog w" "w_msgs w' = w_msgs w" "w_outbox w' = w_outbox w"
    "w_inbox w' = w_inbox w" "w_rconv w' = w_rconv w" "w_rmsgs w' = w_rmsgs w" "w_pending w' = w_pending w"
    "w_zset w' = w_zset w" "w_locks w' = w_locks w" "w_idem w' = w_idem w" "w_kafka w' = w_kafka w"
  using assms by (simp_all add: only_stream_def)

lemma publish_token_frame:
  "wp (publish_token slack cid chunk) (\<lambda>_ w'. only_stream w w' \<and> (\<forall>c. c \<noteq> cid \<longrightarrow> w_log w' c = w_log w c)) (\<lambda>_ _. False) w"
  by (simp add: publish_token_def wp_simps split: fault.split)
     (simp add: xadd_def expire_log_def publish_def Let_def)

lemmas wp_publish_token = wp_frame [OF publish_token_frame]

lemma ownership_frames:
  "wp (register_ownership pod cid) (\<lambda>_ w'. only_stream w w' \<and> w_log w' = w_log w) (\<lambda>_ _. False) w"
  "wp (renew_ownership cid) (\<lambda>_ w'. only_stream w w' \<and> w_log w' = w_log w) (\<lambda>_ _. False) w"
  "wp (release_ownership pod cid) (\<lambda>_ w'. only_stream w w' \<and> w_log w' = w_log w) (\<lambda>_ _. False) w"
  by (simp_all add: register_ownership_def renew_ownership_def release_ownership_def wp_simps split: fault.split)

text \<open>
  Releasing the ownership of a stream removes the key only when it names this pod: under any failing calls it
  never raises, and a key that names another pod is kept as it is.
\<close>

theorem release_keeps_other_owner:
  "wp (release_ownership pod cid)
    (\<lambda>_ w'. only_stream w w' \<and>
       (w_owner w' = w_owner w \<or> (live (w_now w) (w_owner w cid) = Some pod \<and> w_owner w' = (w_owner w)(cid := None))))
    (\<lambda>_ _. False) w"
  by (simp add: release_ownership_def wp_simps split: fault.split)

section \<open>The replay log\<close>

definition log_ok :: "world \<Rightarrow> bool" where
  "log_ok w \<longleftrightarrow> (\<forall>cid. sorted_wrt sid_lt (map fst (log_of w cid)) \<and> (\<forall>r \<in> set (log_of w cid). is_object (snd r)))"

lemma log_of_pop [simp]: "log_of (pop w) = log_of w"
  by (simp add: log_of_def fun_eq_iff)

lemma log_ok_pop [simp]: "log_ok (pop w) = log_ok w"
  by (simp add: log_ok_def)

lemma log_of_publish [simp]: "log_of (publish cid e w) = log_of w"
  by (simp add: log_of_def publish_def fun_eq_iff)

lemma live_keep_ttl: "live now (Some (v, live_ttl now e)) = Some v"
  by (auto simp: live_ttl_def split: option.splits)

lemma log_of_xadd: "log_of (xadd slack cid d w) =
    (log_of w)(cid := drop (Suc (length (log_of w cid)) - (STREAM_EVENT_LOG_MAXLEN + slack)) (log_of w cid @ [(xadd_id w cid, d)]))"
  by (auto simp: fun_eq_iff xadd_def Let_def log_of_def [of "_\<lparr>w_log := _\<rparr>"] live_keep_ttl)
     (simp add: log_of_def)

lemma log_of_expire: "log_of (expire_log cid w) = log_of w"
  by (auto simp: fun_eq_iff log_of_def expire_log_def STREAM_EVENT_LOG_TTL_SECONDS_def sec_def)

lemma xadd_id_newest: "sorted_wrt sid_lt (map fst (log_of w cid)) \<Longrightarrow> r \<in> set (log_of w cid) \<Longrightarrow> sid_lt (fst r) (xadd_id w cid)"
proof -
  assume s: "sorted_wrt sid_lt (map fst (log_of w cid))" and r: "r \<in> set (log_of w cid)"
  then have ne: "log_of w cid \<noteq> []" by auto
  then obtain l where l: "log_of w cid = butlast (log_of w cid) @ [l]" by (metis append_butlast_last_id)
  then have last: "last (log_of w cid) = l" by (metis last_snoc)
  obtain ls where ls: "log_of w cid = ls @ [l]" using l by blast
  have "fst r = fst l \<or> sid_lt (fst r) (fst l)" using s r unfolding ls by (auto simp: sorted_wrt_append)
  moreover have "sid_lt (fst l) (xadd_id w cid)"
    using ne last by (auto simp: xadd_id_def sid_lt_def Let_def split: prod.splits)
  ultimately show "sid_lt (fst r) (xadd_id w cid)" using sid_lt_trans by metis
qed

lemma log_ok_xadd: "log_ok w \<Longrightarrow> is_object d \<Longrightarrow> log_ok (xadd slack cid d w)"
  unfolding log_ok_def log_of_xadd
proof (intro allI)
  fix c
  assume ok: "\<forall>cid. sorted_wrt sid_lt (map fst (log_of w cid)) \<and> (\<forall>r \<in> set (log_of w cid). is_object (snd r))" and d: "is_object d"
  have s: "sorted_wrt sid_lt (map fst (log_of w cid @ [(xadd_id w cid, d)]))"
    using ok xadd_id_newest [of w cid] by (auto simp: sorted_wrt_append)
  then have "sorted_wrt sid_lt (map fst (drop n (log_of w cid @ [(xadd_id w cid, d)])))" for n
    unfolding drop_map [symmetric] by (rule sorted_wrt_drop)
  moreover have "\<forall>r \<in> set (drop n (log_of w cid @ [(xadd_id w cid, d)])). is_object (snd r)" for n
    using ok d by (auto dest: in_set_dropD)
  ultimately show "sorted_wrt sid_lt (map fst (((log_of w)(cid := drop (Suc (length (log_of w cid)) - (STREAM_EVENT_LOG_MAXLEN + slack))
      (log_of w cid @ [(xadd_id w cid, d)]))) c)) \<and>
      (\<forall>r \<in> set (((log_of w)(cid := drop (Suc (length (log_of w cid)) - (STREAM_EVENT_LOG_MAXLEN + slack))
      (log_of w cid @ [(xadd_id w cid, d)]))) c). is_object (snd r))"
    using ok by (cases "c = cid") (simp_all del: drop_append)
qed

lemma log_bound: "length (drop (Suc (length l) - (STREAM_EVENT_LOG_MAXLEN + slack)) (l @ [x])) \<le> STREAM_EVENT_LOG_MAXLEN + slack"
  by (simp add: STREAM_EVENT_LOG_MAXLEN_def)

lemma last_log: "last (drop (Suc (length l) - (STREAM_EVENT_LOG_MAXLEN + slack)) (l @ [x])) = x"
  by (simp add: STREAM_EVENT_LOG_MAXLEN_def)

lemma log_of_after:
  "log_of (publish cid e (pop w)) = log_of w" "log_of (expire_log cid (pop w)) = log_of w"
  by (simp_all add: log_of_expire)

text \<open>
  Publishing an event never raises, whatever Redis does, and touches nothing but the replay log of the
  conversation and the channel: every log stays in strictly increasing id order, the log either is unchanged or
  got the event at its end under a fresh, greatest id, its older entries trimmed to at most the bound, and the
  channel got nothing, the event itself, or the event with the id it has in the log.
\<close>

theorem publish_token_spec:
  assumes "log_ok w"
  shows "wp (publish_token slack cid chunk)
    (\<lambda>_ w'. only_stream w w' \<and> log_ok w' \<and> (\<forall>c. c \<noteq> cid \<longrightarrow> log_of w' c = log_of w c) \<and>
      (let i = xadd_id w cid; appended = (last (log_of w' cid) = (i, JObj chunk) \<and>
           (\<forall>r \<in> set (log_of w cid). sid_lt (fst r) i) \<and>
           length (log_of w' cid) \<le> STREAM_EVENT_LOG_MAXLEN + slack) in
       (log_of w' cid = log_of w cid \<or> appended) \<and>
       (w_pub w' = w_pub w \<or> w_pub w' = w_pub w @ [(cid, JObj chunk)] \<or>
        (w_pub w' = w_pub w @ [(cid, JObj (with_id i chunk))] \<and> appended))))
    (\<lambda>_ _. False) w"
proof -
  let ?i = "xadd_id w cid"
  have i: "xadd_id (pop w) cid = ?i" unfolding xadd_id_def log_of_pop pop_simps ..
  have x: "xadd slack cid (JObj chunk) (pop w) = pop (xadd slack cid (JObj chunk) w)"
    unfolding xadd_def Let_def i log_of_pop pop_simps by (simp add: pop_def)
  define w1 where "w1 = xadd slack cid (JObj chunk) w"
  have l1: "log_of w1 = (log_of w)(cid := drop (Suc (length (log_of w cid)) - (STREAM_EVENT_LOG_MAXLEN + slack))
      (log_of w cid @ [(?i, JObj chunk)]))" by (simp only: w1_def log_of_xadd)
  have ok1: "log_ok w1" using log_ok_xadd [OF assms] by (simp add: w1_def is_object_def)
  have app: "last (log_of w1 cid) = (?i, JObj chunk)" "\<forall>r \<in> set (log_of w cid). sid_lt (fst r) ?i"
    "length (log_of w1 cid) \<le> STREAM_EVENT_LOG_MAXLEN + slack" "\<forall>c. c \<noteq> cid \<longrightarrow> log_of w1 c = log_of w c"
    using last_log log_bound xadd_id_newest assms by (auto simp: l1 log_ok_def simp del: drop_append)
  have f1: "only_stream w w1" "w_pub w1 = w_pub w" "w_redis_on w1 = w_redis_on w" by (simp_all add: w1_def xadd_def Let_def only_stream_def)
  have e1: "log_of (expire_log cid (pop (pop w1))) = log_of w1" "log_ok (expire_log cid (pop (pop w1))) = log_ok w1"
    "w_pub (expire_log cid v) = w_pub v" for v
    by (simp_all add: log_of_expire log_ok_def) (simp add: expire_log_def)
  have pub: "w_pub (publish cid e v) = w_pub v @ [(cid, JObj e)]" "log_ok (publish cid e v) = log_ok v" for e v
    by (simp_all add: publish_def log_ok_def log_of_def)
  show ?thesis
    unfolding publish_token_def wp_when_redis wp_bnd wp_attempt wp_ext wp_ret i x w1_def [symmetric]
    using assms ok1 app f1 by (auto simp: e1 pub Let_def wp_ext wp_ret split: fault.split)
qed

theorem publish_token_spec_witness:
  "wp (publish_token 0 9 [(''message_id'', JStr ''m'')])
    (\<lambda>_ w'. only_stream (empty_world 5000) w' \<and> log_ok w' \<and> (\<forall>c. c \<noteq> 9 \<longrightarrow> log_of w' c = log_of (empty_world 5000) c) \<and>
      (let i = xadd_id (empty_world 5000) 9; appended = (last (log_of w' 9) = (i, JObj [(''message_id'', JStr ''m'')]) \<and>
           (\<forall>r \<in> set (log_of (empty_world 5000) 9). sid_lt (fst r) i) \<and>
           length (log_of w' 9) \<le> STREAM_EVENT_LOG_MAXLEN + 0) in
       (log_of w' 9 = log_of (empty_world 5000) 9 \<or> appended) \<and>
       (w_pub w' = w_pub (empty_world 5000) \<or> w_pub w' = w_pub (empty_world 5000) @ [(9, JObj [(''message_id'', JStr ''m'')])] \<or>
        (w_pub w' = w_pub (empty_world 5000) @ [(9, JObj (with_id i [(''message_id'', JStr ''m'')]))] \<and> appended))))
    (\<lambda>_ _. False) (empty_world 5000)"
  by (rule publish_token_spec) (simp add: log_ok_def log_of_def empty_world_def)

section \<open>Resuming a stream\<close>

lemma pick_logged: "List.map_filter (pick_row mid) (logged rows) = turn_events mid rows"
proof (induction rows)
  case (Cons r rows)
  then show ?case
    by (cases r) (simp add: logged_def pick_row_def map_filter_simps)
qed (simp add: logged_def map_filter_simps)

lemma filter_logged: "filter (\<lambda>r. P (fst r)) (logged rows) = logged (filter (\<lambda>r. P (fst r)) rows)"
  by (induction rows) (auto simp: logged_def)

text \<open>C14:
  A resumed subscription delivers a turn exactly once and in order. The log holds the events a and b, the
  subscription was made between them and so receives b and the later c, each with its id and with idle or broken
  polls in between; the client asks for what is above a position before b. Then, with Redis answering and
  the connection young enough, the events sent are those of the turn above the position in a, b and c, none
  twice and none missing, up to the first that ends the turn; a failed event the log shows to be superseded by a
  completed one is left out.
\<close>

theorem resume_exactly_once:
  assumes "calm w" and "w_redis_on w" and "mid \<noteq> []"
    and log: "log_of w cid = logged (a @ b)" and sorted: "sorted_wrt sid_lt (map fst (a @ b @ c))"
    and since: "above since = Some P" and newer: "\<forall>(i, e) \<in> set b. P i"
    and live: "carries polls (b @ c)" "in_time (start + sec STREAM_MAX_CONNECTION_SECONDS) polls"
  shows "wp (subscribe pod cid (Some mid) since start polls)
    (\<lambda>fs w'. events_in fs = upto_end (drop_superseded (turn_events mid (filter (\<lambda>r. P (fst r)) (a @ b))) @ turn_events mid c))
    (\<lambda>_ _. False) w"
proof -
  let ?rows = "filter (\<lambda>r. P (fst r)) (a @ b)"
  have obj: "\<forall>r \<in> set (logged xs). is_object (snd r)" for xs by (auto simp: logged_def is_object_def)
  define w1 where "w1 = w\<lparr>w_owner := (w_owner w)(cid := Some (pod, Some (w_now w + sec STREAM_OWNERSHIP_TTL_SECONDS)))\<rparr>"
  have w1: "calm w1" "w_redis_on w1" "log_of w1 cid = logged (a @ b)"
    using assms(1,2) log by (simp_all add: w1_def log_of_def)
  have reg: "wp (register_ownership pod cid) Q E w = Q () w1" for Q E
    using assms(1,2) by (simp add: register_ownership_def wp_simps w1_def)
  have rep: "wp (replay cid mid since) Q E w1 = Q (drop_superseded (turn_events mid ?rows)) w1" for Q E
    using w1 obj since
    by (simp add: replay_def wp_simps wp_ext_calm filter_logged pick_logged del: filter_append)
  have release: "wp (release_ownership pod cid) (\<lambda>_. Q) E w1" if "\<And>v. Q v" for Q E
    by (rule wp_frame [OF ownership_frames(3)]) (rule that)
  have frames: "events_in (sse_frames (Some mid) (start + sec STREAM_MAX_CONNECTION_SECONDS)
      (drop_superseded (turn_events mid ?rows)) polls)
    = upto_end (drop_superseded (turn_events mid ?rows) @ turn_events mid c)"
    by (rule sse_frames_exact [OF sorted live newer])
  show ?thesis
    unfolding subscribe_def using assms(1-3) w1(1)
    by (simp add: wp_bnd wp_getting wp_if wp_ext_calm reg rep wp_attempt wp_ret del: filter_append)
       (rule release, rule frames)
qed

definition resume_events :: "(stream_id \<times> event) list" where
  "resume_events = [((4, 0), [(''message_id'', JStr ''m''), (''content'', JStr ''one'')]),
     ((5, 0), [(''message_id'', JStr ''m''), (''content'', JStr ''two'')]),
     ((5, 1), [(''message_id'', JStr ''m''), (''status'', JStr ''completed'')])]"

definition resume_world :: world where
  "resume_world = (empty_world 6000)\<lparr>w_log := [9 \<mapsto> (logged (take 2 resume_events), Some 900000000)]\<rparr>"

definition resume_polls :: "(int \<times> recv) list" where
  "resume_polls = [(1, Got (JObj (with_id (5, 0) (snd (resume_events ! 1))))), (2, Nothing),
     (3, Got (JObj (with_id (5, 1) (snd (resume_events ! 2)))))]"

theorem resume_exactly_once_witness:
  "wp (subscribe ''pod'' 9 (Some ''m'') None 0 resume_polls)
    (\<lambda>fs w'. events_in fs = upto_end (drop_superseded (turn_events ''m'' (filter (\<lambda>r. True) (take 1 resume_events @ [resume_events ! 1])))
       @ turn_events ''m'' [resume_events ! 2]))
    (\<lambda>_ _. False) resume_world"
  by (rule resume_exactly_once [where P = "\<lambda>_. True"])
     (simp_all add: resume_world_def resume_events_def resume_polls_def empty_world_def log_of_def logged_def above_def
        carries_def in_time_def sid_lt_def calm_def STREAM_MAX_CONNECTION_SECONDS_def sec_def)

section \<open>A published event the log kept without telling\<close>

text \<open>
  When the log entry is written but the call that renews the log's expiry fails, the event is published
  live without the id it has in the log, so the de-duplication cannot recognise it: a subscriber that
  replays the log and then reads the channel is sent the same event twice.
\<close>

theorem failed_expire_duplicates:
  assumes "w_sched w = [Okay, Refused]" and "w_redis_on w" and "log_of w cid = []"
    and "jget chunk ''message_id'' = JStr mid" and "jget chunk ''event_id'' = JNull" and "\<not> ends_stream chunk"
  shows "wp (publish_token slack cid chunk)
    (\<lambda>_ w'. log_of w' cid = logged [(xadd_id w cid, chunk)] \<and> w_pub w' = w_pub w @ [(cid, JObj chunk)] \<and>
       events_in (sse_frames (Some mid) 600 (turn_events mid [(xadd_id w cid, chunk)]) [(0, Got (JObj chunk))])
         = [with_id (xadd_id w cid) chunk, chunk])
    (\<lambda>_ _. False) w"
proof -
  have i: "xadd_id (pop w) cid = xadd_id w cid" unfolding xadd_id_def log_of_pop pop_simps ..
  have s: "next_fault w = Okay" "next_fault (xadd slack cid (JObj chunk) (pop w)) = Refused"
    "next_fault (pop (xadd slack cid (JObj chunk) (pop w))) = Okay"
    using assms(1) by (simp_all add: next_fault_def pop_def xadd_def Let_def)
  have l: "log_of (xadd slack cid (JObj chunk) (pop w)) cid = [(xadd_id w cid, JObj chunk)]"
    using assms(3) by (simp add: log_of_xadd i STREAM_EVENT_LOG_MAXLEN_def)
  have r: "w_redis_on (xadd slack cid (JObj chunk) (pop w))" "w_pub (xadd slack cid (JObj chunk) v) = w_pub v" for v
    using assms(2) by (simp_all add: xadd_def Let_def)
  have "events_in (sse_frames (Some mid) 600 (turn_events mid [(j, chunk)]) [(0, Got (JObj chunk))]) = [with_id j chunk, chunk]" for j
    using assms(4-6) by (simp add: sse_frames_def Let_def)
  then show ?thesis
    using assms(2) s l r by (simp add: publish_token_def wp_simps publish_def logged_def) (simp add: log_of_def)
qed

theorem failed_expire_duplicates_witness:
  "wp (publish_token 0 9 [(''message_id'', JStr ''m'')])
    (\<lambda>_ w'. log_of w' 9 = logged [(xadd_id ((empty_world 5000)\<lparr>w_sched := [Okay, Refused]\<rparr>) 9, [(''message_id'', JStr ''m'')])] \<and>
       w_pub w' = w_pub ((empty_world 5000)\<lparr>w_sched := [Okay, Refused]\<rparr>) @ [(9, JObj [(''message_id'', JStr ''m'')])] \<and>
       events_in (sse_frames (Some ''m'') 600
          (turn_events ''m'' [(xadd_id ((empty_world 5000)\<lparr>w_sched := [Okay, Refused]\<rparr>) 9, [(''message_id'', JStr ''m'')])])
          [(0, Got (JObj [(''message_id'', JStr ''m'')]))])
         = [with_id (xadd_id ((empty_world 5000)\<lparr>w_sched := [Okay, Refused]\<rparr>) 9) [(''message_id'', JStr ''m'')], [(''message_id'', JStr ''m'')]])
    (\<lambda>_ _. False) ((empty_world 5000)\<lparr>w_sched := [Okay, Refused]\<rparr>)"
  by (rule failed_expire_duplicates)
     (simp_all add: empty_world_def log_of_def jget_or_def ends_stream_def has_status_def)

end
