(* ===== verification/Consumers.thy ===== *)
theory Consumers
  imports Stream_Service
begin

text \<open>
  \<open>app/events/consumers.py\<close>: the Kafka consumer. A record is its topic and the parsed value (\<open>None\<close>: the
  value is not JSON). The text Python gives a list or a dict (\<open>str\<close>) is only ever used to fail to parse as a
  UUID or as a part of a de-duplication key; the JSON text stands for it. The key itself,
  a UUID derived from its parts, is a free constructor.
\<close>

section \<open>Parts of an event\<close>

definition py_str :: "json \<Rightarrow> string" where
  "py_str j = (case j of JStr s \<Rightarrow> s | JInt i \<Rightarrow> dec_of_int i | JFloat s \<Rightarrow> s | JNull \<Rightarrow> ''None''
     | JBool b \<Rightarrow> if b then ''True'' else ''False'' | _ \<Rightarrow> dumps j)"

definition response_message_id :: "event \<Rightarrow> uuid option" where
  "response_message_id ev = (let raw = jget ev ''response_message_id'' in
     if truthy raw then parse_uuid (py_str raw) else None)"

text \<open>\<open>UUID(x)\<close> on a JSON value; a value that is not a string has no \<open>replace\<close>.\<close>

definition uuid_arg :: "json \<Rightarrow> (world, uuid) prog" where
  "uuid_arg j = (case j of
     JStr s \<Rightarrow> (case parse_uuid s of None \<Rightarrow> raise (ValueError ''uuid'') | Some u \<Rightarrow> ret u)
   | _ \<Rightarrow> raise TypeError)"

definition chunk_key :: "uuid \<Rightarrow> event \<Rightarrow> inbox_key" where
  "chunk_key rid ev = Derived [''chat.response.chunk'', uuid_str rid, py_str (jget ev ''sequence_number'')]"

definition generated_key :: "uuid \<Rightarrow> inbox_key" where
  "generated_key rid = Derived [''chat.response.generated'', uuid_str rid]"

definition or_json :: "json \<Rightarrow> json \<Rightarrow> json" where
  "or_json a b = (if truthy a then a else b)"

section \<open>Chunks\<close>

definition chunk_event :: "event \<Rightarrow> uuid \<Rightarrow> event" where
  "chunk_event ev rid =
     [(''conversation_id'', jget ev ''conversation_id''),
      (''message_id'', JStr (uuid_str rid)),
      (''request_message_id'', jget ev ''message_id''),
      (''sender'', JStr ''assistant''),
      (''content'', jget_or ev ''content'' (JStr [])),
      (''sequence_number'', jget ev ''sequence_number''),
      (''is_final'', JBool False)]"

definition handle_chunk :: "nat \<Rightarrow> event \<Rightarrow> (world, unit) prog" where
  "handle_chunk slack ev = (case response_message_id ev of
     None \<Rightarrow> ret ()
   | Some rid \<Rightarrow>
       let conv = jget ev ''conversation_id'' in
       if \<not> truthy conv then ret ()
       else bnd (inbox_exists (chunk_key rid ev)) (\<lambda>dup.
         if dup then ret ()
         else bnd (uuid_arg conv) (\<lambda>cid.
              bnd (publish_token slack cid (chunk_event ev rid)) (\<lambda>_.
              inbox_save (chunk_key rid ev)))))"

section \<open>Finished replies\<close>

definition base_payload :: "event \<Rightarrow> uuid \<Rightarrow> event" where
  "base_payload ev rid =
     [(''conversation_id'', jget ev ''conversation_id''),
      (''message_id'', JStr (uuid_str rid)),
      (''request_message_id'', or_json (jget ev ''request_message_id'') (jget ev ''message_id'')),
      (''sender'', JStr ''assistant''),
      (''is_final'', JBool True)]"

text \<open>A content that is not text cannot be bound to the statement that writes the row.\<close>

definition finalize_json :: "uuid \<Rightarrow> uuid \<Rightarrow> json \<Rightarrow> citation list \<Rightarrow> (world, message option) prog" where
  "finalize_json cid rid content cites = (case content of
     JStr s \<Rightarrow> finalize_assistant_message cid rid s cites
   | _ \<Rightarrow> bnd (is_writable_assistant_row cid rid) (\<lambda>ok. if ok then raise TypeError else ret None))"

definition fail_json :: "uuid \<Rightarrow> uuid \<Rightarrow> json \<Rightarrow> (world, message option) prog" where
  "fail_json cid rid content = (case content of
     JStr s \<Rightarrow> fail_assistant_message cid rid s
   | _ \<Rightarrow> bnd (is_writable_assistant_row cid rid) (\<lambda>ok.
       if \<not> ok then ret None
       else bnd (msg_get cid rid) (\<lambda>existing. if already_answered existing then ret existing else raise TypeError)))"

definition settle :: "nat \<Rightarrow> uuid \<Rightarrow> uuid \<Rightarrow> event \<Rightarrow> message option \<Rightarrow> (world, unit) prog" where
  "settle slack cid rid out written = (case written of
     None \<Rightarrow> ret ()
   | Some _ \<Rightarrow>
       bnd (clear_pending_response rid) (\<lambda>_.
       bnd (publish_token slack cid out) (\<lambda>_.
       inbox_save (generated_key rid))))"

definition apply_generated :: "nat \<Rightarrow> event \<Rightarrow> uuid \<Rightarrow> uuid \<Rightarrow> (world, unit) prog" where
  "apply_generated slack ev rid cid =
     (if jget_or ev ''status'' (JStr ''success'') = JStr ''success'' then
        (let content = or_json (jget ev ''full_content'') (JStr []);
             cites = sanitize_citations (jget ev ''citations'') in
         bnd (finalize_json cid rid content cites) (\<lambda>written.
         settle slack cid rid (base_payload ev rid @
           [(''content'', JStr []), (''status'', JStr ''completed''), (''citations'', store_citations cites),
            (''full_content'', content)]) written))
      else
        (let err = or_json (jget ev ''error_message'') (JStr ''Generation failed.'') in
         bnd (fail_json cid rid err) (\<lambda>written.
         settle slack cid rid (base_payload ev rid @
           [(''content'', err), (''status'', JStr ''failed'')]) written)))"

definition handle_generated :: "nat \<Rightarrow> event \<Rightarrow> (world, unit) prog" where
  "handle_generated slack ev = (case response_message_id ev of
     None \<Rightarrow> ret ()
   | Some rid \<Rightarrow>
       let conv = jget ev ''conversation_id'' in
       if \<not> truthy conv then ret ()
       else bnd (inbox_exists (generated_key rid)) (\<lambda>dup.
         if dup then ret () else bnd (uuid_arg conv) (apply_generated slack ev rid)))"

section \<open>The loop\<close>

definition field :: "json \<Rightarrow> string \<Rightarrow> (world, json) prog" where
  "field j k = (case j of
     JObj kvs \<Rightarrow> (case map_of kvs k of None \<Rightarrow> raise KeyError | Some v \<Rightarrow> ret v)
   | _ \<Rightarrow> raise TypeError)"

text \<open>A title that is not text cannot be bound either; the rows of the model have no null title, so a null counts as one.\<close>

definition handle_envelope :: "string \<Rightarrow> event \<Rightarrow> (world, unit) prog" where
  "handle_envelope topic ev =
     (let raw = jget ev ''event_id''; inner = jget_or ev ''payload'' (JObj []) in
      if \<not> truthy raw then ret ()
      else bnd (uuid_arg raw) (\<lambda>event_id.
           bnd (inbox_exists (EventId event_id)) (\<lambda>dup.
           if dup then ret ()
           else bnd (if topic = TITLE_GENERATED then
                       bnd (field inner ''conversation_id'') (\<lambda>c.
                       bnd (uuid_arg c) (\<lambda>cid.
                       bnd (field inner ''title'') (\<lambda>t. case t of
                         JStr title \<Rightarrow> bnd (conv_service_set_title cid title) (\<lambda>_. ret ())
                       | _ \<Rightarrow> bnd (conv_get cid) (\<lambda>found. if found = None then ret () else raise TypeError))))
                     else ret ())
                (\<lambda>_. inbox_save (EventId event_id)))))"

definition route :: "nat \<Rightarrow> string \<Rightarrow> json option \<Rightarrow> (world, unit) prog" where
  "route slack topic body = (case body of
     None \<Rightarrow> raise (ValueError ''json'')
   | Some (JObj ev) \<Rightarrow>
       if topic = CHAT_RESPONSE_CHUNK then handle_chunk slack ev
       else if topic = CHAT_RESPONSE_GENERATED then handle_generated slack ev
       else handle_envelope topic ev
   | Some _ \<Rightarrow> raise TypeError)"

text \<open>
  One record: routed, then committed; whether the commit reached the broker. Every exception is
  logged and the loop goes on with the next record.
\<close>

definition process_record :: "nat \<Rightarrow> string \<times> json option \<Rightarrow> (world, bool) prog" where
  "process_record slack r = attempt
     (bnd (route slack (fst r) (snd r)) (\<lambda>_.
      bnd (getting next_fault) (\<lambda>f.
      bnd (attempt (ext KafkaError (\<lambda>_. ()) (\<lambda>w. w)) (\<lambda>_. ret ())) (\<lambda>_.
      ret (f \<noteq> Refused)))))
     (\<lambda>_. ret False)"

text \<open>The records of a partition from offset \<open>pos\<close> on; a commit stores the offset after the record just read.\<close>

fun consume :: "nat \<Rightarrow> nat \<Rightarrow> nat \<Rightarrow> (string \<times> json option) list \<Rightarrow> (world, nat) prog" where
  "consume slack pos committed [] = ret committed"
| "consume slack pos committed (r # rs) =
     bnd (process_record slack r) (\<lambda>ok. consume slack (Suc pos) (if ok then Suc pos else committed) rs)"

section \<open>What handling an event can touch\<close>

text \<open>
  \<open>reply_frame w w' cid rid\<close>: of the messages only the row of the response may differ, and a row of another
  sender under that id does not; no outbox event is written.
\<close>

definition reply_frame :: "world \<Rightarrow> world \<Rightarrow> uuid \<Rightarrow> uuid \<Rightarrow> bool" where
  "reply_frame w w' cid rid \<longleftrightarrow> beside cid rid w w' \<and>
     (foreign_row (msg_of w cid rid) \<longrightarrow> msg_of w' cid rid = msg_of w cid rid) \<and>
     (\<not> foreign_row (msg_of w cid rid) \<longrightarrow> \<not> foreign_row (msg_of w' cid rid))"

lemma reply_frame_refl: "msgs_ok w \<Longrightarrow> reply_frame w w cid rid"
  by (simp add: reply_frame_def beside_refl)

lemma terminal_reply_frame: "terminal_ok w w' cid rid \<Longrightarrow> reply_frame w w' cid rid"
  by (simp add: terminal_ok_def reply_frame_def)

lemma reply_frame_trans: "reply_frame w w' cid rid \<Longrightarrow> reply_frame w' w'' cid rid \<Longrightarrow> reply_frame w w'' cid rid"
  by (auto simp: reply_frame_def intro: beside_trans split: if_splits)

lemma reply_frame_stream: "only_stream w w' \<Longrightarrow> reply_frame w0 w cid rid \<Longrightarrow> reply_frame w0 w' cid rid"
  by (simp add: reply_frame_def beside_def msgs_ok_def msg_of_def only_streamD)

lemma reply_frame_steps [simp]:
  "reply_frame w0 (pop w) cid rid = reply_frame w0 w cid rid"
  "reply_frame w0 (w\<lparr>w_inbox := ib\<rparr>) cid rid = reply_frame w0 w cid rid"
  "reply_frame w0 (del_pending m w) cid rid = reply_frame w0 w cid rid"
  "reply_frame w0 (zrem m w) cid rid = reply_frame w0 w cid rid"
  by (simp_all add: reply_frame_def beside_def msgs_ok_def msg_of_def)

text \<open>The rows and the inbox after the marker is cleared and after an event is published.\<close>

definition same_rows :: "world \<Rightarrow> world \<Rightarrow> bool" where
  "same_rows w w' \<longleftrightarrow> w_msgs w' = w_msgs w \<and> w_inbox w' = w_inbox w \<and> w_now w' = w_now w \<and> w_redis_on w' = w_redis_on w \<and>
     w_outbox w' = w_outbox w"

lemma clear_pending_frame: "wp (clear_pending_response m) (\<lambda>_ w'. same_rows w w' \<and>
    (\<forall>k. k \<noteq> m \<longrightarrow> w_pending w' k = w_pending w k)) (\<lambda>_ _. False) w"
  by (simp add: clear_pending_response_def wp_simps same_rows_def split: fault.split) (simp add: del_pending_def zrem_def)

lemma same_rows_stream: "only_stream w1 w2 \<Longrightarrow> same_rows w w1 \<Longrightarrow> same_rows w w2"
  by (simp add: same_rows_def only_streamD)

lemma same_rows_reply: "same_rows w1 w2 \<Longrightarrow> reply_frame w w1 cid rid \<Longrightarrow> reply_frame w w2 cid rid"
  by (simp add: reply_frame_def beside_def msgs_ok_def msg_of_def same_rows_def)

text \<open>\<open>settled k w w'\<close>: the rows are as before, and the inbox is, or has got the key \<open>k\<close>.\<close>

definition settled :: "inbox_key \<Rightarrow> world \<Rightarrow> world \<Rightarrow> bool" where
  "settled k w w' \<longleftrightarrow> w_msgs w' = w_msgs w \<and> w_now w' = w_now w \<and> w_redis_on w' = w_redis_on w \<and>
     w_outbox w' = w_outbox w \<and>
     (w_inbox w' = w_inbox w \<or> (\<exists>t. w_now w < t \<and> w_inbox w' = (w_inbox w)(k := Some t)))"

lemma settled_same: "same_rows w w' \<Longrightarrow> settled k w w'"
  by (simp add: same_rows_def settled_def)

lemma settled_reply: "settled k w1 w2 \<Longrightarrow> reply_frame w w1 cid rid \<Longrightarrow> reply_frame w w2 cid rid"
  by (simp add: reply_frame_def beside_def msgs_ok_def msg_of_def settled_def)

lemma inbox_save_settled:
  "same_rows w w2 \<Longrightarrow> wp (inbox_save k) (\<lambda>_. settled k w) (\<lambda>_. settled k w) w2"
proof -
  have "\<exists>t. w_now w < t \<and> (w_inbox w)(k := Some (w_now w + 604800000000)) = (w_inbox w)(k := Some t)"
    by (intro exI [of _ "w_now w + 604800000000"]) simp
  then show "same_rows w w2 \<Longrightarrow> wp (inbox_save k) (\<lambda>_. settled k w) (\<lambda>_. settled k w) w2"
    by (simp add: inbox_save_def wp_ext settled_def same_rows_def sec_def split: fault.split)
qed

lemma settle_spec:
  "wp (settle slack cid rid out written)
    (\<lambda>_ w'. settled (generated_key rid) w w' \<and> (written = None \<longrightarrow> w_inbox w' = w_inbox w))
    (\<lambda>_ w'. settled (generated_key rid) w w' \<and> written \<noteq> None) w"
proof (cases written)
  case None
  then show ?thesis by (simp add: settle_def wp_ret settled_def)
next
  case (Some m)
  let ?P = "settled (generated_key rid) w"
  have pub: "wp (publish_token slack cid out) (\<lambda>_. wp (inbox_save (generated_key rid)) (\<lambda>_. ?P) (\<lambda>_. ?P)) (\<lambda>_. ?P) w2"
    if "same_rows w w2" for w2
    by (rule wp_publish_token) (auto intro!: inbox_save_settled same_rows_stream [OF _ that])
  show ?thesis
    unfolding Some settle_def option.case wp_bnd
    by (simp, rule wp_mono [OF clear_pending_frame]) (auto intro!: pub)
qed

text \<open>With no more failures settling writes the key.\<close>

lemma settle_calm:
  assumes "calm w" and "written \<noteq> None"
  shows "wp (settle slack cid rid out written)
    (\<lambda>_ w'. w_msgs w' = w_msgs w \<and> inbox_has w' (generated_key rid)) (\<lambda>_ _. False) w"
proof -
  obtain m where m: "written = Some m" using assms(2) by auto
  have calm': "wp (clear_pending_response rid) (\<lambda>_ w'. calm w' \<and> same_rows w w') (\<lambda>_ _. False) w"
    using assms(1) by (simp add: clear_pending_response_def wp_simps same_rows_def)
      (simp add: calm_def zrem_def del_pending_def)
  have pub: "wp (publish_token slack cid out) (\<lambda>_ w'. calm w' \<and> same_rows w w') (\<lambda>_ _. False) w1"
    if "calm w1" "same_rows w w1" for w1
    using that by (simp add: publish_token_def wp_simps) (simp add: calm_def same_rows_def xadd_def expire_log_def publish_def Let_def)
  have save: "wp (inbox_save (generated_key rid)) (\<lambda>_ w'. w_msgs w' = w_msgs w \<and> inbox_has w' (generated_key rid)) (\<lambda>_ _. False) w1"
    if "calm w1" "same_rows w w1" for w1
    using that by (simp add: inbox_save_def wp_ext_calm same_rows_def inbox_has_def sec_def)
  show ?thesis unfolding m settle_def option.case wp_bnd
    by (rule wp_mono [OF calm'], rule wp_mono [OF pub]) (auto intro: save)
qed

section \<open>One finished reply\<close>

definition reply_event :: "event \<Rightarrow> uuid \<Rightarrow> uuid \<Rightarrow> bool" where
  "reply_event ev cid rid \<longleftrightarrow> response_message_id ev = Some rid \<and>
     (case jget ev ''conversation_id'' of JStr s \<Rightarrow> parse_uuid s = Some cid | _ \<Rightarrow> False)"

lemma parse_uuid_Nil [simp]: "parse_uuid [] = None"
  by (simp add: parse_uuid_def strip_braces_def)

lemma reply_event_conv:
  assumes "reply_event ev cid rid"
  obtains s where "jget ev ''conversation_id'' = JStr s" "s \<noteq> []" "parse_uuid s = Some cid"
proof (cases "jget ev ''conversation_id''")
  case (JStr s)
  then have "parse_uuid s = Some cid" using assms by (simp add: reply_event_def)
  moreover from this have "s \<noteq> []" by auto
  ultimately show thesis using that JStr by blast
qed (use assms in \<open>simp_all add: reply_event_def\<close>)

lemma wp_finalize_json:
  assumes "msgs_ok w"
  shows "wp (finalize_json cid rid content cites)
    (\<lambda>res w'. reply_frame w w' cid rid \<and> w_now w' = w_now w \<and>
       (case res of None \<Rightarrow> foreign_row (msg_of w cid rid)
        | Some m \<Rightarrow> (case content of JStr s \<Rightarrow> holds_reply w' cid rid s ''sent'' | _ \<Rightarrow> False)))
    (\<lambda>_ w'. reply_frame w w' cid rid \<and> w_now w' = w_now w) w"
proof -
  have now: "terminal_ok w w' cid rid \<Longrightarrow> w_now w' = w_now w" for w' by (simp add: terminal_ok_def beside_def)
  have other: "wp (bnd (is_writable_assistant_row cid rid) (\<lambda>ok. if ok then raise TypeError else ret None))
    (\<lambda>res w'. reply_frame w w' cid rid \<and> w_now w' = w_now w \<and>
       (case res of None \<Rightarrow> foreign_row (msg_of w cid rid) | Some m \<Rightarrow> X w'))
    (\<lambda>_ w'. reply_frame w w' cid rid \<and> w_now w' = w_now w) w" for X :: "world \<Rightarrow> bool"
    unfolding wp_bnd by (rule wp_mono [OF wp_writable]) (auto simp: wp_raise wp_ret reply_frame_refl assms)
  show ?thesis
  proof (cases content)
    case (JStr s)
    show ?thesis unfolding finalize_json_def JStr json.case
      by (rule wp_mono [OF wp_finalize [OF assms]]) (auto simp: terminal_reply_frame now split: option.splits)
  qed (simp_all only: finalize_json_def json.case other)
qed

lemma wp_fail_json:
  assumes "msgs_ok w"
  shows "wp (fail_json cid rid content) (\<lambda>res w'. reply_frame w w' cid rid) (\<lambda>_ w'. reply_frame w w' cid rid) w"
proof -
  have other: "wp (bnd (is_writable_assistant_row cid rid) (\<lambda>ok.
       if \<not> ok then ret None
       else bnd (msg_get cid rid) (\<lambda>existing. if already_answered existing then ret existing else raise TypeError)))
     (\<lambda>res w'. reply_frame w w' cid rid) (\<lambda>_ w'. reply_frame w w' cid rid) w"
    unfolding wp_bnd by (rule wp_mono [OF wp_writable])
      (auto simp: wp_raise wp_ret wp_bnd msg_get_def wp_ext reply_frame_refl assms split: fault.split)
  show ?thesis
  proof (cases content)
    case (JStr s)
    show ?thesis unfolding fail_json_def JStr json.case
      by (rule wp_mono [OF wp_fail [OF assms]]) (auto intro: terminal_reply_frame)
  qed (use other in \<open>simp_all add: fail_json_def\<close>)
qed

lemma wp_settle_frame:
  assumes "reply_frame w w1 cid rid"
  shows "wp (settle slack cid rid out written) (\<lambda>_ w'. reply_frame w w' cid rid) (\<lambda>_ w'. reply_frame w w' cid rid) w1"
  by (rule wp_mono [OF settle_spec]) (auto intro: settled_reply [OF _ assms])

lemma handle_generated_unfold:
  assumes "reply_event ev cid rid"
  shows "handle_generated slack ev =
    bnd (inbox_exists (generated_key rid)) (\<lambda>dup. if dup then ret () else apply_generated slack ev rid cid)"
proof -
  obtain s where s: "jget ev ''conversation_id'' = JStr s" "s \<noteq> []" "parse_uuid s = Some cid"
    by (rule reply_event_conv [OF assms])
  have uu: "bnd (uuid_arg (JStr s)) f = f cid" for f :: "uuid \<Rightarrow> (world, unit) prog"
    by (simp add: uuid_arg_def s bnd_def ret_def fun_eq_iff)
  have rid: "response_message_id ev = Some rid" using assms by (simp add: reply_event_def)
  have t: "truthy (JStr s) = True" using s(2) by simp
  show ?thesis unfolding handle_generated_def rid option.case Let_def s(1) t uu by simp
qed

text \<open>
  Handling a chat.response.generated event, under any failing calls, any content, status and citations: of all
  messages only the row of the response it names may change, and not if that row belongs to the user or the
  system; no event is staged.
\<close>

theorem reply_touches_own_row_only:
  assumes "msgs_ok w" and "reply_event ev cid rid"
  shows "wp (handle_generated slack ev) (\<lambda>_ w'. reply_frame w w' cid rid) (\<lambda>_ w'. reply_frame w w' cid rid) w"
proof -
  have ok: "msgs_ok (pop w)" "reply_frame w (pop w) cid rid" using assms(1) by (simp_all add: reply_frame_refl)
  have step: "wp (bnd m (settle slack cid rid out)) (\<lambda>_ w'. reply_frame w w' cid rid) (\<lambda>_ w'. reply_frame w w' cid rid) (pop w)"
    if "wp m (\<lambda>res w'. reply_frame (pop w) w' cid rid) (\<lambda>_ w'. reply_frame (pop w) w' cid rid) (pop w)" for m out
    unfolding wp_bnd
    by (rule wp_mono [OF that]) (auto intro!: wp_settle_frame reply_frame_trans [OF ok(2)])
  have fin: "wp (finalize_json cid rid c cites) (\<lambda>res w'. reply_frame (pop w) w' cid rid) (\<lambda>_ w'. reply_frame (pop w) w' cid rid) (pop w)"
    for c cites by (rule wp_mono [OF wp_finalize_json [OF ok(1)]]) auto
  have "wp (apply_generated slack ev rid cid) (\<lambda>_ w'. reply_frame w w' cid rid) (\<lambda>_ w'. reply_frame w w' cid rid) (pop w)"
    unfolding apply_generated_def Let_def wp_if using wp_fail_json [OF ok(1)] by (auto intro!: step fin)
  then show ?thesis
    using ok by (simp add: handle_generated_unfold [OF assms(2)] wp_bnd inbox_exists_def wp_ext wp_ret split: fault.split)
qed

definition sample_reply :: event where
  "sample_reply = [(''response_message_id'', JStr (uuid_str 60)), (''conversation_id'', JStr (uuid_str 5)),
     (''full_content'', JStr ''answer'')]"

lemma uuid_str_not_Nil [simp]: "uuid_str u \<noteq> []"
  by (metis parse_uuid_Nil parse_uuid_str option.distinct(1))

lemma sample_reply_event: "reply_event sample_reply 5 60"
  by (simp add: reply_event_def sample_reply_def jget_or_def response_message_id_def parse_uuid_str py_str_def)

theorem reply_touches_own_row_only_witness:
  "wp (handle_generated 0 sample_reply) (\<lambda>_ w'. reply_frame branch_world w' 5 60) (\<lambda>_ w'. reply_frame branch_world w' 5 60) branch_world"
  by (rule reply_touches_own_row_only [OF regenerate_witness_world(1) sample_reply_event])

section \<open>Redelivery\<close>

lemma inbox_has_cong: "w_inbox w' = w_inbox w \<Longrightarrow> w_now w' = w_now w \<Longrightarrow> inbox_has w' = inbox_has w"
  by (auto simp: inbox_has_def fun_eq_iff split: option.split)

text \<open>What any attempt leaves: the key is in the inbox only when the reply is stored.\<close>

definition attempted :: "world \<Rightarrow> uuid \<Rightarrow> uuid \<Rightarrow> string \<Rightarrow> bool" where
  "attempted w cid rid content \<longleftrightarrow> msgs_ok w \<and> \<not> foreign_row (msg_of w cid rid) \<and>
     (inbox_has w (generated_key rid) \<longrightarrow> holds_reply w cid rid content ''sent'')"

definition success_event :: "event \<Rightarrow> uuid \<Rightarrow> uuid \<Rightarrow> string \<Rightarrow> bool" where
  "success_event ev cid rid content \<longleftrightarrow> reply_event ev cid rid \<and>
     jget_or ev ''status'' (JStr ''success'') = JStr ''success'' \<and>
     or_json (jget ev ''full_content'') (JStr []) = JStr content"

lemma attempted_settled:
  assumes "settled (generated_key rid) w1 w2" and "msgs_ok w1" and "\<not> foreign_row (msg_of w1 cid rid)"
    and "holds_reply w1 cid rid content ''sent''"
  shows "attempted w2 cid rid content"
  using assms by (simp add: attempted_def settled_def msgs_ok_def msg_of_def holds_reply_def)

lemma apply_success:
  assumes "success_event ev cid rid content" and ok: "msgs_ok w" and own: "\<not> foreign_row (msg_of w cid rid)"
    and fresh: "\<not> inbox_has w (generated_key rid)"
  shows "wp (apply_generated slack ev rid cid) (\<lambda>_ w'. attempted w' cid rid content) (\<lambda>_ w'. attempted w' cid rid content) w"
proof -
  have ev: "jget_or ev ''status'' (JStr ''success'') = JStr ''success''" "or_json (jget ev ''full_content'') (JStr []) = JStr content"
    using assms(1) by (simp_all add: success_event_def)
  let ?out = "base_payload ev rid @
           [(''content'', JStr []), (''status'', JStr ''completed''), (''citations'', store_citations (sanitize_citations (jget ev ''citations''))),
            (''full_content'', JStr content)]"
  have kept: "attempted w' cid rid content" if "terminal_ok w w' cid rid" "w_inbox w' = w_inbox w" for w'
  proof -
    have "w_now w' = w_now w" "msgs_ok w'" using that(1) by (simp_all add: terminal_ok_def beside_def)
    moreover from this have "inbox_has w' = inbox_has w" using that(2) by (intro inbox_has_cong)
    ultimately show ?thesis using that own fresh by (simp add: attempted_def terminal_ok_def)
  qed
  have settle: "wp (settle slack cid rid ?out res) (\<lambda>_ w'. attempted w' cid rid content) (\<lambda>_ w'. attempted w' cid rid content) w1"
    if "terminal_ok w w1 cid rid" "holds_reply w1 cid rid content ''sent''" for w1 res
    by (rule wp_mono [OF settle_spec])
       (use that own in \<open>auto intro!: attempted_settled [of rid w1] simp: terminal_ok_def beside_def\<close>)
  have inbox: "wp (finalize_assistant_message cid rid content cites) (\<lambda>_ w'. w_inbox w' = w_inbox w) (\<lambda>_ w'. w_inbox w' = w_inbox w) w" for cites
  proof -
    have inv: "wp (invalidate_cache cid) (\<lambda>_ w'. w_inbox w' = w_inbox w) E w1" if "w_inbox w1 = w_inbox w" for w1 E
      unfolding invalidate_cache_def by (rule wp_cache_delete_last_50) (use that in \<open>simp add: only_cacheD\<close>)
    have st: "status_of (Some ''sent'') = Some SENT" by (simp add: status_of_def)
    show ?thesis
      unfolding finalize_assistant_message_def wp_bnd [of "is_writable_assistant_row cid rid"]
      by (rule wp_mono [OF wp_writable])
         (auto simp: wp_ret wp_bnd wp_create_direct [OF st] intro!: inv split: fault.split)
  qed
  show ?thesis
    unfolding apply_generated_def ev if_P [OF refl] Let_def finalize_json_def json.case wp_bnd
  proof (rule wp_mono [OF wp_conj [OF wp_finalize [OF ok, of cid rid content] inbox]], goal_cases)
    case (1 res w1)
    then have "holds_reply w1 cid rid content ''sent''" using own by (cases res) auto
    then show ?case using 1 by (intro settle) simp_all
  next
    case (2 x w1)
    then show ?case by (intro kept) simp_all
  qed
qed

lemma apply_calm:
  assumes "success_event ev cid rid content" and "calm w" and ok: "msgs_ok w" and own: "\<not> foreign_row (msg_of w cid rid)"
  shows "wp (apply_generated slack ev rid cid)
    (\<lambda>_ w'. holds_reply w' cid rid content ''sent'' \<and> inbox_has w' (generated_key rid)) (\<lambda>_ _. False) w"
proof -
  have ev: "jget_or ev ''status'' (JStr ''success'') = JStr ''success''" "or_json (jget ev ''full_content'') (JStr []) = JStr content"
    using assms(1) by (simp_all add: success_event_def)
  have st: "status_of (Some ''sent'') = Some SENT" by (simp add: status_of_def)
  have final: "wp (finalize_assistant_message cid rid content cites) (\<lambda>res w'. calm w' \<and> res \<noteq> None) (\<lambda>_ _. False) w" for cites
  proof -
    have wr: "wp (is_writable_assistant_row cid rid) Q E w = Q True w" for Q E
      using assms(2) own by (auto simp: is_writable_assistant_row_def msg_get_def wp_bnd wp_ext_calm wp_ret foreign_row_def
          message_of_row_def split: option.splits)
    have c: "calm (put_msg cid rid f w)" for f using assms(2) by (simp add: calm_def)
    show ?thesis using assms(2) c
      by (simp add: finalize_assistant_message_def wp_bnd wr wp_create_direct [OF st] invalidate_cache_def
          cache_delete_last_50_def wp_simps del_msgs_def)
  qed
  have settle: "wp (settle slack cid rid out res)
      (\<lambda>_ w'. holds_reply w' cid rid content ''sent'' \<and> inbox_has w' (generated_key rid)) (\<lambda>_ _. False) w1"
    if "calm w1" "res \<noteq> None" "holds_reply w1 cid rid content ''sent''" for w1 res out
    by (rule wp_mono [OF settle_calm [OF that(1,2)]]) (use that in \<open>auto simp: holds_reply_def msg_of_def\<close>)
  have both: "wp (finalize_assistant_message cid rid content cites)
      (\<lambda>res w'. calm w' \<and> res \<noteq> None \<and> holds_reply w' cid rid content ''sent'') (\<lambda>_ _. False) w" for cites
    by (rule wp_mono [OF wp_conj [OF wp_finalize [OF ok, of cid rid content] final]])
       (use own in \<open>auto split: option.splits\<close>)
  show ?thesis
    unfolding apply_generated_def ev if_P [OF refl] Let_def finalize_json_def json.case wp_bnd
    by (rule wp_mono [OF both]) (auto intro!: settle)
qed

text \<open>C15:
  At-least-once delivery loses no reply and stores it once: handle a successful chat.response.generated event under
  any failing calls, and when the failures are over handle it again (the offset was not committed). Whatever the
  first attempt got done, the second returns, the row of the response then holds the content with status sent, and
  the event is recorded in the inbox.
\<close>

theorem reply_survives_redelivery:
  assumes "msgs_ok w" and "success_event ev cid rid content" and "\<not> foreign_row (msg_of w cid rid)"
    and "\<not> inbox_has w (generated_key rid)"
  shows "let again = (\<lambda>w'. wp (handle_generated slack ev)
      (\<lambda>_ v. holds_reply v cid rid content ''sent'' \<and> inbox_has v (generated_key rid)) (\<lambda>_ _. False) (w'\<lparr>w_sched := []\<rparr>))
    in wp (handle_generated slack ev) (\<lambda>_. again) (\<lambda>_. again) w"
proof -
  have ev: "reply_event ev cid rid" using assms(2) by (simp add: success_event_def)
  have again: "wp (handle_generated slack ev)
      (\<lambda>_ v. holds_reply v cid rid content ''sent'' \<and> inbox_has v (generated_key rid)) (\<lambda>_ _. False) (w'\<lparr>w_sched := []\<rparr>)"
    if "attempted w' cid rid content" for w'
  proof -
    let ?v = "w'\<lparr>w_sched := []\<rparr>"
    have v: "calm ?v" "msgs_ok ?v" "\<not> foreign_row (msg_of ?v cid rid)" "inbox_has ?v = inbox_has w'"
      using that by (simp_all add: calm_def attempted_def msgs_ok_def msg_of_def) (rule inbox_has_cong; simp)
    have held: "inbox_has ?v (generated_key rid) \<Longrightarrow> holds_reply ?v cid rid content ''sent''"
      using that v(4) by (simp add: attempted_def holds_reply_def msg_of_def)
    show ?thesis
      unfolding handle_generated_unfold [OF ev] wp_bnd inbox_exists_def wp_ext_calm [OF v(1)]
      using held apply_calm [OF assms(2) v(1-3)] by (simp add: wp_ret)
  qed
  have first: "attempted (pop w) cid rid content" using assms by (simp add: attempted_def)
  have "wp (handle_generated slack ev) (\<lambda>_ w'. attempted w' cid rid content) (\<lambda>_ w'. attempted w' cid rid content) w"
    using first assms(4) apply_success [OF assms(2), of "pop w" slack] assms(1,3)
    by (simp add: handle_generated_unfold [OF ev] wp_bnd inbox_exists_def wp_ext wp_ret split: fault.split)
  then show ?thesis unfolding Let_def by (rule wp_mono) (rule again, assumption)+
qed

definition new_reply :: event where
  "new_reply = [(''response_message_id'', JStr (uuid_str 70)), (''conversation_id'', JStr (uuid_str 5)),
     (''full_content'', JStr ''answer'')]"

lemma new_reply_event: "success_event new_reply 5 70 ''answer''"
  by (simp add: success_event_def reply_event_def new_reply_def jget_or_def response_message_id_def parse_uuid_str py_str_def or_json_def)

theorem reply_survives_redelivery_witness:
  "let again = (\<lambda>w'. wp (handle_generated 0 new_reply)
      (\<lambda>_ v. holds_reply v 5 70 ''answer'' ''sent'' \<and> inbox_has v (generated_key 70)) (\<lambda>_ _. False) (w'\<lparr>w_sched := []\<rparr>))
    in wp (handle_generated 0 new_reply) (\<lambda>_. again) (\<lambda>_. again) (branch_world\<lparr>w_sched := [Okay, Okay, Lost]\<rparr>)"
proof (rule reply_survives_redelivery [OF _ new_reply_event])
  show "msgs_ok (branch_world\<lparr>w_sched := [Okay, Okay, Lost]\<rparr>)"
    using regenerate_witness_world(1) by (simp add: msgs_ok_def)
qed (simp_all add: branch_world_def empty_world_def msg_of_def foreign_row_def inbox_has_def)

text \<open>
  The loop does not stop at a record it failed on: when the handling of a reply fails and the next record is handled,
  the offset committed is the one after both, so the broker will not deliver the failed reply again although nothing of
  it was stored.
\<close>

theorem commit_skips_failed_record:
  assumes "reply_event ev cid rid" and "w_sched w = [Refused]"
  shows "wp (consume slack 0 0 [(CHAT_RESPONSE_GENERATED, Some (JObj ev)), (CHAT_RESPONSE_CHUNK, Some (JObj []))])
    (\<lambda>committed w'. committed = 2 \<and> w_msgs w' = w_msgs w \<and> w_inbox w' = w_inbox w) (\<lambda>_ _. False) w"
proof -
  have f: "next_fault w = Refused" and c: "calm (pop w)" using assms(2) by (simp_all add: next_fault_def calm_def)
  have t: "CHAT_RESPONSE_GENERATED \<noteq> CHAT_RESPONSE_CHUNK" by (simp add: topic_defs)
  have first: "wp (process_record slack (CHAT_RESPONSE_GENERATED, Some (JObj ev))) Q E w = Q False (pop w)" for Q E
    using f t by (simp add: process_record_def route_def handle_generated_unfold [OF assms(1)] wp_simps inbox_exists_def)
  have second: "wp (process_record slack (CHAT_RESPONSE_CHUNK, Some (JObj []))) Q E (pop w) = Q True (pop w)" for Q E
    using c by (simp add: process_record_def route_def handle_chunk_def response_message_id_def jget_or_def wp_simps)
  show ?thesis by (simp add: wp_bnd first second wp_ret)
qed

theorem commit_skips_failed_record_witness:
  "wp (consume 0 0 0 [(CHAT_RESPONSE_GENERATED, Some (JObj new_reply)), (CHAT_RESPONSE_CHUNK, Some (JObj []))])
    (\<lambda>committed w'. committed = 2 \<and> w_msgs w' = w_msgs (branch_world\<lparr>w_sched := [Refused]\<rparr>) \<and>
       w_inbox w' = w_inbox (branch_world\<lparr>w_sched := [Refused]\<rparr>)) (\<lambda>_ _. False) (branch_world\<lparr>w_sched := [Refused]\<rparr>)"
  using commit_skips_failed_record [of new_reply 5 70 "branch_world\<lparr>w_sched := [Refused]\<rparr>" 0] new_reply_event
  by (simp add: success_event_def)

end
