(* ===== verification/Timeout_Worker.thy ===== *)
theory Timeout_Worker
  imports Consumers "HOL-Library.Multiset"
begin

text \<open>
  \<open>app/workers/pending_timeout_worker.py\<close>: one pass over the registered deadlines. The scores are kept in
  microseconds; \<open>ZRANGEBYSCORE\<close> returns the members by score and, among equal scores, by their text, which for
  UUIDs is their numeric order.
\<close>

definition TIMEOUT_MESSAGE :: string where
  "TIMEOUT_MESSAGE = ''Generation timed out: no response from the AI service.''"

definition expired_ids :: "int \<Rightarrow> world \<Rightarrow> uuid list" where
  "expired_ids now w = map fst (filter (\<lambda>(_, score). 0 \<le> score \<and> score \<le> now)
     (sort_key snd (sort_key (unat \<circ> fst) (w_zset w))))"

definition is_completed :: "message option \<Rightarrow> bool" where
  "is_completed m = (case m of None \<Rightarrow> False | Some x \<Rightarrow> m_sender x = Some ''assistant'' \<and> m_status x = SENT)"

definition timeout_event :: "uuid \<Rightarrow> uuid \<Rightarrow> event" where
  "timeout_event cid mid =
     [(''conversation_id'', JStr (uuid_str cid)), (''message_id'', JStr (uuid_str mid)),
      (''sender'', JStr ''assistant''), (''content'', JStr TIMEOUT_MESSAGE),
      (''is_final'', JBool True), (''status'', JStr ''failed'')]"

text \<open>One entry; \<open>True\<close> when it was failed. Every exception is logged and the pass goes on.\<close>

definition drop_marker :: "uuid \<Rightarrow> (world, unit) prog" where
  "drop_marker mid = bnd (redis_exec (del_pending mid)) (\<lambda>_. redis_exec (zrem mid))"

definition process_entry :: "nat \<Rightarrow> uuid \<Rightarrow> (world, bool) prog" where
  "process_entry slack mid = attempt
     (bnd (redis_query (\<lambda>w. live (w_now w) (w_pending w mid))) (\<lambda>conv. case conv of
        None \<Rightarrow> bnd (redis_exec (zrem mid)) (\<lambda>_. ret False)
      | Some cid \<Rightarrow>
          bnd (msg_get cid mid) (\<lambda>existing.
          if is_completed existing then bnd (drop_marker mid) (\<lambda>_. ret False)
          else
            bnd (msg_create_direct cid mid ''assistant'' TIMEOUT_MESSAGE ''failed'' []) (\<lambda>_.
            bnd (cache_delete_last_50 cid) (\<lambda>_.
            bnd (publish_token slack cid (timeout_event cid mid)) (\<lambda>_.
            bnd (drop_marker mid) (\<lambda>_. ret True)))))))
     (\<lambda>_. ret False)"

definition process_expired_pending :: "nat \<Rightarrow> int \<Rightarrow> (world, nat) prog" where
  "process_expired_pending slack now =
     bnd (attempt (bnd (redis_query (expired_ids now)) (\<lambda>ids. ret (Some ids))) (\<lambda>_. ret None)) (\<lambda>found.
     case found of
       None \<Rightarrow> ret 0
     | Some ids \<Rightarrow> fold_prog (\<lambda>mid failed. bnd (process_entry slack mid) (\<lambda>ok. ret (if ok then failed + 1 else failed))) ids 0)"

text \<open>One turn of the worker's loop; without Redis it waits for the next one.\<close>

definition timeout_turn :: "nat \<Rightarrow> int \<Rightarrow> (world, unit) prog" where
  "timeout_turn slack now =
     bnd (getting w_redis_on) (\<lambda>on. if on then bnd (process_expired_pending slack now) (\<lambda>_. ret ()) else ret ())"

text \<open>The loop never ends by an exception of a turn.\<close>

lemma fold_never_raises:
  "(\<And>x b s. wp (f x b) (\<lambda>_ _. True) (\<lambda>_ _. False) s) \<Longrightarrow> wp (fold_prog f xs b) (\<lambda>_ _. True) (\<lambda>_ _. False) s"
proof (induction xs arbitrary: b s)
  case (Cons y ys b t)
  have "wp (f y b) (\<lambda>a u. wp (fold_prog f ys a) (\<lambda>_ _. True) (\<lambda>_ _. False) u) (\<lambda>_ _. False) t"
    by (rule wp_mono [OF Cons.prems]) (auto intro: Cons.IH Cons.prems)
  then show ?case by (simp add: wp_bnd)
qed (simp add: wp_ret)

lemma timeout_turn_returns: "wp (timeout_turn slack now) (\<lambda>_ _. True) (\<lambda>_ _. False) w"
proof -
  have entry: "wp (process_entry slack mid) (\<lambda>_ _. True) (\<lambda>_ _. False) v" for mid v
    unfolding process_entry_def wp_attempt wp_ret by (rule wp_True)
  have pass: "wp (fold_prog (\<lambda>mid failed. bnd (process_entry slack mid) (\<lambda>ok. ret (if ok then failed + 1 else failed))) ids (n::nat))
      (\<lambda>_ _. True) (\<lambda>_ _. False) v" for ids n v
    by (rule fold_never_raises) (use entry in \<open>simp add: wp_bnd wp_ret\<close>)
  show ?thesis unfolding timeout_turn_def process_expired_pending_def
    by (simp add: wp_simps pass split: fault.split option.split)
qed

section \<open>A pass fails expired, unanswered responses only\<close>

text \<open>The rows a pass may fail: expired, their marker still registered, no finished reply in them.\<close>

definition completed_row :: "msg_row option \<Rightarrow> bool" where
  "completed_row r = (case r of None \<Rightarrow> False | Some x \<Rightarrow> mr_sender x = Some ''assistant'' \<and> mr_status x = Some ''sent'')"

definition may_fail :: "int \<Rightarrow> world \<Rightarrow> uuid \<Rightarrow> uuid \<Rightarrow> bool" where
  "may_fail now w cid mid \<longleftrightarrow> mid \<in> set (expired_ids now w) \<and> live (w_now w) (w_pending w mid) = Some cid \<and>
     \<not> completed_row (msg_of w cid mid)"

definition pass_inv :: "int \<Rightarrow> world \<Rightarrow> world \<Rightarrow> bool" where
  "pass_inv now w w' \<longleftrightarrow> w_now w' = w_now w \<and> w_outbox w' = w_outbox w \<and>
     (\<forall>m. w_pending w' m = w_pending w m \<or> w_pending w' m = None) \<and>
     (\<forall>c m. msg_of w' c m = msg_of w c m \<or> may_fail now w c m)"

lemma pass_inv_steps [simp]:
  "pass_inv now w (pop w') = pass_inv now w w'"
  "pass_inv now w (zrem m w') = pass_inv now w w'"
  "pass_inv now w w' \<Longrightarrow> pass_inv now w (del_pending m w')"
  by (simp_all add: pass_inv_def) (simp_all add: zrem_def del_pending_def)

lemma pass_inv_cache: "only_cache w1 w2 \<Longrightarrow> pass_inv now w w1 \<Longrightarrow> pass_inv now w w2"
  by (simp add: pass_inv_def msg_of_def only_cacheD)

lemma pass_inv_stream: "only_stream w1 w2 \<Longrightarrow> pass_inv now w w1 \<Longrightarrow> pass_inv now w w2"
  by (simp add: pass_inv_def msg_of_def only_streamD)

lemma pass_inv_put:
  "pass_inv now w w' \<Longrightarrow> keeps_id f \<Longrightarrow> may_fail now w cid mid \<Longrightarrow> pass_inv now w (put_msg cid mid f w')"
  unfolding pass_inv_def by (metis msg_of_put_other put_msg_simps(2,7,11))

lemma is_completed_row:
  "is_completed (map_option (\<lambda>r. message_of_row cid r (case status_of (mr_status r) of None \<Rightarrow> FAILED | Some st \<Rightarrow> st)) row)
   = completed_row row"
  by (auto simp: is_completed_def completed_row_def message_of_row_def status_of_def split: option.splits if_splits)

lemma wp_msg_get:
  "wp (msg_get cid mid) Q E w = (case next_fault w of
     Okay \<Rightarrow> Q (map_option (\<lambda>r. message_of_row cid r (case status_of (mr_status r) of None \<Rightarrow> FAILED | Some st \<Rightarrow> st))
            (msg_of w cid mid)) (pop w)
   | _ \<Rightarrow> E DbError (pop w))"
  by (auto simp: msg_get_def wp_simps split: fault.split option.split)

lemma drop_marker_inv: "pass_inv now w w1 \<Longrightarrow> wp (drop_marker mid) (\<lambda>_. pass_inv now w) (\<lambda>_. pass_inv now w) w1"
  by (simp add: drop_marker_def wp_simps split: fault.split)

lemma process_entry_inv:
  assumes inv: "pass_inv now w w1" and mid: "mid \<in> set (expired_ids now w)"
  shows "wp (process_entry slack mid) (\<lambda>_. pass_inv now w) (\<lambda>_. pass_inv now w) w1"
proof -
  let ?I = "pass_inv now w"
  have finish: "wp (bnd (drop_marker mid) (\<lambda>_. ret b)) (\<lambda>_. ?I) (\<lambda>_. ?I) w2" if "?I w2" for b :: bool and w2
    unfolding wp_bnd by (rule wp_mono [OF drop_marker_inv [OF that]]) (simp_all add: wp_ret)
  have announce: "wp (bnd (cache_delete_last_50 cid) (\<lambda>_. bnd (publish_token slack cid (timeout_event cid mid)) (\<lambda>_.
      bnd (drop_marker mid) (\<lambda>_. ret True)))) (\<lambda>_. ?I) (\<lambda>_. ?I) w2" if "?I w2" for cid w2
    unfolding wp_bnd [of "cache_delete_last_50 cid"] wp_bnd [of "publish_token _ _ _"]
    by (rule wp_cache_delete_last_50, rule wp_publish_token, rule finish)
       (metis that pass_inv_cache pass_inv_stream)
  have st: "status_of (Some ''failed'') = Some FAILED" by (simp add: status_of_def)
  have entry: "wp (bnd (msg_get cid mid) (\<lambda>existing.
          if is_completed existing then bnd (drop_marker mid) (\<lambda>_. ret False)
          else
            bnd (msg_create_direct cid mid ''assistant'' TIMEOUT_MESSAGE ''failed'' []) (\<lambda>_.
            bnd (cache_delete_last_50 cid) (\<lambda>_.
            bnd (publish_token slack cid (timeout_event cid mid)) (\<lambda>_.
            bnd (drop_marker mid) (\<lambda>_. ret True))))))
      (\<lambda>_. ?I) (\<lambda>_. ?I) w2"
    if "?I w2" "live (w_now w2) (w_pending w2 mid) = Some cid" for cid w2
  proof -
    have pend: "live (w_now w) (w_pending w mid) = Some cid"
      using that by (auto simp: pass_inv_def) (metis live_simps(1) option.distinct(1))
    have may: "may_fail now w cid mid" if "\<not> completed_row (msg_of w2 cid mid)"
      using \<open>?I w2\<close> that pend mid unfolding pass_inv_def may_fail_def by metis
    show ?thesis
      unfolding wp_bnd [of "msg_get cid mid"] wp_msg_get wp_if is_completed_row wp_bnd [of "msg_create_direct _ _ _ _ _ _"]
        wp_create_plain [OF st]
      using that(1) may by (auto simp: wp_ret split: fault.split intro!: finish announce pass_inv_put)
  qed
  have I: "?I (pop w1)" using inv by simp
  have first: "wp (redis_query (\<lambda>w. live (w_now w) (w_pending w mid)))
      (\<lambda>conv w2. ?I w2 \<and> (\<forall>cid. conv = Some cid \<longrightarrow> live (w_now w2) (w_pending w2 mid) = Some cid)) (\<lambda>_. ?I) w1"
    using I by (simp add: wp_ext split: fault.split)
  have drop: "wp (bnd (redis_exec (zrem mid)) (\<lambda>_. ret False)) (\<lambda>_. ?I) (\<lambda>_. ?I) w2" if "?I w2" for w2
    using that by (simp add: wp_simps split: fault.split)
  show ?thesis
    unfolding process_entry_def wp_attempt wp_ret wp_bnd [of "redis_query _"]
    by (rule wp_mono [OF first]) (auto intro: entry drop split: option.split)
qed

lemma process_expired_inv:
  "wp (process_expired_pending slack now) (\<lambda>_. pass_inv now w) (\<lambda>_. pass_inv now w) w"
proof -
  have start: "pass_inv now w (pop w)" by (simp add: pass_inv_def)
  have loop: "wp (fold_prog (\<lambda>mid failed. bnd (process_entry slack mid) (\<lambda>ok. ret (if ok then failed + 1 else failed))) (expired_ids now w) (0::nat))
      (\<lambda>_. pass_inv now w) (\<lambda>_. pass_inv now w) (pop w)"
    by (rule wp_fold_prog_inv [where I = "pass_inv now w", OF _ start]) (auto simp: wp_bnd wp_ret intro!: wp_mono [OF process_entry_inv])
  have e: "expired_ids now (pop w) = expired_ids now w" by (simp add: expired_ids_def)
  show ?thesis
    unfolding process_expired_pending_def using loop start by (simp add: wp_simps e split: fault.split)
qed

text \<open>C16:
  One pass of the timeout worker, under any failing calls, changes the row of a message only if it is a registered
  pending response (its marker names that conversation), its deadline has passed and it holds no finished reply:
  completed replies, answered turns and all other messages of all conversations keep their rows, no marker
  is added and no event is staged.
\<close>

theorem timeout_fails_only_expired_pending:
  "wp (process_expired_pending slack now) (\<lambda>_. pass_inv now w) (\<lambda>_. pass_inv now w) w"
  by (rule process_expired_inv)

section \<open>A pass with no failures leaves nobody waiting\<close>

definition given_up :: "world \<Rightarrow> world \<Rightarrow> uuid \<Rightarrow> bool" where
  "given_up w w' m \<longleftrightarrow> m \<notin> fst ` set (w_zset w') \<and> live (w_now w') (w_pending w' m) = None \<and>
     (\<forall>c. live (w_now w) (w_pending w m) = Some c \<longrightarrow>
        completed_row (msg_of w' c m) \<or> holds_reply w' c m TIMEOUT_MESSAGE ''failed'')"

text \<open>\<open>aside ids w w'\<close>: the entries other than \<open>ids\<close> are as before, and none was added.\<close>

definition aside :: "uuid set \<Rightarrow> world \<Rightarrow> world \<Rightarrow> bool" where
  "aside ids w w' \<longleftrightarrow> calm w' \<and> msgs_ok w' \<and> w_now w' = w_now w \<and> set (w_zset w') \<subseteq> set (w_zset w) \<and>
     (\<forall>m. m \<notin> ids \<longrightarrow> w_pending w' m = w_pending w m \<and> (\<forall>c. msg_of w' c m = msg_of w c m))"

lemma calm_marker [simp]:
  "calm (del_pending m w) = calm w" "calm (zrem m w) = calm w" "calm (put_msg c m f w) = calm w"
  by (simp_all add: calm_def del_pending_def zrem_def)

lemma publish_calm:
  "calm w \<Longrightarrow> wp (publish_token slack cid e) (\<lambda>_ w'. calm w' \<and> only_stream w w') (\<lambda>_ _. False) w"
  by (simp add: publish_token_def wp_simps)
     (simp add: calm_def only_stream_def xadd_def expire_log_def publish_def Let_def)

lemma cache_drop_calm:
  "calm w \<Longrightarrow> wp (cache_delete_last_50 cid) (\<lambda>_ w'. calm w' \<and> only_cache w w') (\<lambda>_ _. False) w"
  by (simp add: cache_delete_last_50_def wp_simps) (simp add: del_msgs_def)

lemma drop_marker_calm: "calm w \<Longrightarrow> wp (drop_marker mid) Q E w = Q () (zrem mid (del_pending mid w))"
  by (simp add: drop_marker_def wp_simps wp_ext_calm)

lemma aside_drop:
  "calm w' \<Longrightarrow> aside {mid} w w' \<Longrightarrow> aside {mid} w (zrem mid (del_pending mid w'))"
  by (auto simp: aside_def zrem_def del_pending_def msg_of_def msgs_ok_def)

lemma process_entry_calm:
  assumes calm: "calm w" and ok: "msgs_ok w"
  shows "wp (process_entry slack mid) (\<lambda>_ w'. aside {mid} w w' \<and> given_up w w' mid) (\<lambda>_ _. False) w"
proof -
  let ?Q = "\<lambda>_ w'. aside {mid} w w' \<and> given_up w w' mid"
  have gone: "given_up w (zrem mid (del_pending mid w')) mid"
    if "\<And>c. live (w_now w) (w_pending w mid) = Some c \<Longrightarrow> completed_row (msg_of w' c mid) \<or> holds_reply w' c mid TIMEOUT_MESSAGE ''failed''" for w'
    using that by (auto simp: given_up_def holds_reply_def) (auto simp: zrem_def del_pending_def)
  have st: "status_of (Some ''failed'') = Some FAILED" by (simp add: status_of_def)
  show ?thesis
  proof (cases "live (w_now w) (w_pending w mid)")
    case None
    have "?Q () (zrem mid w)" using None calm ok
      by (auto simp: aside_def given_up_def) (auto simp: zrem_def)
    then show ?thesis using calm None by (simp add: process_entry_def wp_simps wp_ext_calm)
  next
    case (Some cid)
    have same: "aside {mid} w w" using calm ok by (simp add: aside_def)
    define w1 where "w1 = put_msg cid mid (plain_update ''assistant'' TIMEOUT_MESSAGE (w_now w) ''failed'') w"
    have w1: "calm w1" "aside {mid} w w1" "holds_reply w1 cid mid TIMEOUT_MESSAGE ''failed''"
      using calm ok by (simp_all add: w1_def aside_def msg_of_put holds_reply_def)
    have announce: "wp (bnd (cache_delete_last_50 cid) (\<lambda>_. bnd (publish_token slack cid (timeout_event cid mid)) (\<lambda>_.
        bnd (drop_marker mid) (\<lambda>_. ret True)))) ?Q E w1" for E
    proof -
      have last: "?Q True (zrem mid (del_pending mid w3))" if "calm w3" "only_stream w2 w3" "only_cache w1 w2" for w2 w3
      proof -
        have r: "msg_of w3 = msg_of w1" "aside {mid} w w3" "holds_reply w3 cid mid TIMEOUT_MESSAGE ''failed''"
          using that w1 by (simp_all add: msg_of_def only_cacheD only_streamD fun_eq_iff aside_def msgs_ok_def holds_reply_def)
        then show ?thesis using that(1) Some by (auto intro!: aside_drop gone)
      qed
      show ?thesis
        unfolding wp_bnd
        by (rule wp_frame [OF cache_drop_calm [OF w1(1)]], elim conjE, rule wp_frame [OF publish_calm], assumption)
           (use last in \<open>auto simp: drop_marker_calm wp_ret\<close>)
    qed
    have done1: "?Q False (zrem mid (del_pending mid w))" if "completed_row (msg_of w cid mid)"
      using that Some same calm by (auto intro!: aside_drop gone)
    show ?thesis
      using calm Some announce done1
      by (simp add: process_entry_def wp_attempt wp_bnd [of "redis_query _"] wp_ext_calm wp_bnd [of "msg_get _ _"] wp_msg_get
          wp_if is_completed_row wp_bnd [of "msg_create_direct _ _ _ _ _ _"] wp_create_plain [OF st] drop_marker_calm wp_ret
          wp_bnd [of "drop_marker mid"] w1_def [symmetric])
  qed
qed

lemma aside_trans:
  "aside s w w' \<Longrightarrow> aside t w' w'' \<Longrightarrow> aside (s \<union> t) w w''"
  by (auto simp: aside_def)

lemma given_up_later:
  assumes "given_up w w' m" and "aside t w' w''" and "m \<notin> t"
  shows "given_up w w'' m"
proof -
  have "m \<notin> fst ` set (w_zset w'')" using assms by (auto simp: given_up_def aside_def)
  then show ?thesis using assms by (simp add: given_up_def aside_def holds_reply_def)
qed

lemma given_up_before:
  assumes "aside t w w'" and "m \<notin> t" and "given_up w' w'' m"
  shows "given_up w w'' m"
  using assms by (simp add: given_up_def aside_def)

lemma pass_calm:
  assumes "calm w" and "msgs_ok w" and "distinct ids"
  shows "wp (fold_prog (\<lambda>mid failed. bnd (process_entry slack mid) (\<lambda>ok. ret (if ok then failed + 1 else failed))) ids (n::nat))
     (\<lambda>_ w'. aside (set ids) w w' \<and> (\<forall>m \<in> set ids. given_up w w' m)) (\<lambda>_ _. False) w"
  using assms
proof (induction ids arbitrary: w n)
  case Nil
  then show ?case by (simp add: wp_ret aside_def)
next
  case (Cons mid ids)
  let ?f = "\<lambda>mid failed. bnd (process_entry slack mid) (\<lambda>ok. ret (if ok then failed + 1 else failed :: nat))"
  have rest: "wp (fold_prog ?f ids k) (\<lambda>_ w'. aside (set (mid # ids)) w w' \<and> (\<forall>m \<in> set (mid # ids). given_up w w' m)) (\<lambda>_ _. False) w1"
    if a: "aside {mid} w w1" and g: "given_up w w1 mid" for w1 k
  proof (rule wp_mono [OF Cons.IH])
    show "calm w1" "msgs_ok w1" "distinct ids" using a Cons.prems(3) by (simp_all add: aside_def)
    fix w' assume h: "aside (set ids) w1 w' \<and> (\<forall>m \<in> set ids. given_up w1 w' m)"
    have "given_up w w' m" if "m \<in> set (mid # ids)" for m
      using that h given_up_later [OF g, of "set ids" w'] given_up_before [OF a, of m w'] Cons.prems(3) by auto
    then show "aside (set (mid # ids)) w w' \<and> (\<forall>m \<in> set (mid # ids). given_up w w' m)"
      using aside_trans [OF a, of "set ids" w'] h by simp
  qed simp
  show ?case
    unfolding fold_prog.simps wp_bnd
    by (rule wp_mono [OF process_entry_calm [OF Cons.prems(1,2)]]) (auto simp: wp_ret intro!: rest [simplified])
qed

text \<open>C17:
  With no failures, one pass of the timeout worker settles every entry whose deadline has passed: its member and its
  marker are gone, and the response the marker named is finished or failed with the timeout message, so no
  registered response stays pending for ever. The sorted set holds each member once.
\<close>

theorem timeout_pass_settles_all:
  assumes "calm w" and "msgs_ok w" and "distinct (map fst (w_zset w))"
  shows "wp (process_expired_pending slack now) (\<lambda>_ w'. \<forall>(m, deadline) \<in> set (w_zset w). 0 \<le> deadline \<and> deadline \<le> now \<longrightarrow> given_up w w' m)
    (\<lambda>_ _. False) w"
proof -
  have sorted: "distinct (map fst (sort_key snd (sort_key (unat \<circ> fst) (w_zset w))))"
  proof -
    have "mset (map fst (sort_key snd (sort_key (unat \<circ> fst) (w_zset w)))) = mset (map fst (w_zset w))"
      by (simp only: mset_map mset_sort)
    then show ?thesis using assms(3) by (metis mset_eq_imp_distinct_iff)
  qed
  have d: "distinct (expired_ids now w)"
    unfolding expired_ids_def using sorted by (rule distinct_map_filter)
  have mem: "m \<in> set (expired_ids now w)" if "(m, t) \<in> set (w_zset w)" "0 \<le> t" "t \<le> now" for m t
    using that by (force simp: expired_ids_def)
  show ?thesis
    unfolding process_expired_pending_def using assms(1)
    by (simp add: wp_bnd wp_attempt wp_ext_calm wp_ret)
       (rule wp_mono [OF pass_calm [OF assms(1,2) d]], use mem in auto)
qed

definition timeout_world :: world where
  "timeout_world = branch_world\<lparr>w_pending := [70 \<mapsto> (5, Some 500000000)], w_zset := [(70, 8000000)]\<rparr>"

theorem timeout_pass_settles_all_witness:
  "wp (process_expired_pending 0 9000000) (\<lambda>_ w'. \<forall>(m, deadline) \<in> set (w_zset timeout_world). 0 \<le> deadline \<and> deadline \<le> 9000000 \<longrightarrow> given_up timeout_world w' m)
    (\<lambda>_ _. False) timeout_world"
proof (rule timeout_pass_settles_all)
  show "msgs_ok timeout_world" using regenerate_witness_world(1) by (simp add: timeout_world_def msgs_ok_def)
qed (simp_all add: timeout_world_def branch_world_def empty_world_def calm_def)

end
