(* ===== verification/Outbox_Worker.thy ===== *)
theory Outbox_Worker
  imports Timeout_Worker
begin

text \<open>
  \<open>app/workers/outbox_worker.py\<close>, \<open>app/workers/retry_worker.py\<close> and \<open>app/clients/kafka_producer.py\<close>: the lease
  locks on the outbox buckets, the publication of a bucket in order, and the reconciliation of stale events.
  The lock keys of the two workers differ, so a lock is named by its family and its bucket. A worker's own
  \<open>locked_buckets\<close> is passed in and out. The buckets of a round are independent; a round runs them in order.
\<close>

definition OUTBOX_BUCKETS :: nat where "OUTBOX_BUCKETS = 32"
definition OUTBOX_LOCK_TTL_SECONDS :: int where "OUTBOX_LOCK_TTL_SECONDS = 10"
definition OUTBOX_STALE_THRESHOLD_SECONDS :: int where "OUTBOX_STALE_THRESHOLD_SECONDS = 30"

section \<open>Lease locks\<close>

definition lock_holder :: "string \<Rightarrow> world \<Rightarrow> nat \<Rightarrow> string option" where
  "lock_holder family w b = live (w_now w) (w_locks w (family, b))"

text \<open>\<open>SET key worker NX EX ttl\<close>.\<close>

definition set_nx_lock :: "string \<Rightarrow> string \<Rightarrow> nat \<Rightarrow> world \<Rightarrow> world" where
  "set_nx_lock family me b w = (if lock_holder family w b = None
     then w\<lparr>w_locks := (w_locks w)((family, b) := Some (me, Some (w_now w + sec OUTBOX_LOCK_TTL_SECONDS)))\<rparr> else w)"

definition acquire_lock :: "string \<Rightarrow> string \<Rightarrow> nat \<Rightarrow> nat set \<Rightarrow> (world, bool \<times> nat set) prog" where
  "acquire_lock family me b held = when_redis (False, held)
     (attempt
       (bnd (ext RedisError (\<lambda>w. lock_holder family w b = None) (set_nx_lock family me b)) (\<lambda>acquired.
        ret (if acquired then (True, insert b held) else (False, held))))
       (\<lambda>_. ret (False, held)))"

definition renew_lock :: "string \<Rightarrow> string \<Rightarrow> nat \<Rightarrow> nat set \<Rightarrow> (world, nat set) prog" where
  "renew_lock family me b held =
     attempt
       (bnd (redis_query (\<lambda>w. lock_holder family w b)) (\<lambda>owner.
        if owner = Some me then
          bnd (redis_exec (\<lambda>w. w\<lparr>w_locks := (w_locks w)((family, b) :=
             expire_at (w_now w) (w_now w + sec OUTBOX_LOCK_TTL_SECONDS) (w_locks w (family, b)))\<rparr>)) (\<lambda>_. ret held)
        else ret (held - {b})))
       (\<lambda>_. ret held)"

definition release_lock :: "string \<Rightarrow> string \<Rightarrow> nat \<Rightarrow> nat set \<Rightarrow> (world, nat set) prog" where
  "release_lock family me b held = when_redis held
     (attempt
       (bnd (redis_query (\<lambda>w. lock_holder family w b)) (\<lambda>owner.
        if owner = Some me then
          bnd (redis_exec (\<lambda>w. w\<lparr>w_locks := (w_locks w)((family, b) := None)\<rparr>)) (\<lambda>_. ret (held - {b}))
        else ret held))
       (\<lambda>_. ret held))"

text \<open>What a client of a lease relies on.\<close>

locale lease =
  fixes holder :: "world \<Rightarrow> nat \<Rightarrow> string option"
    and acquire :: "string \<Rightarrow> nat \<Rightarrow> nat set \<Rightarrow> (world, bool \<times> nat set) prog"
    and release :: "string \<Rightarrow> nat \<Rightarrow> nat set \<Rightarrow> (world, nat set) prog"
  assumes acquire_law: "wp (acquire me b held) (\<lambda>(ok, held') w'.
      (ok \<longrightarrow> holder w b = None \<and> holder w' b = Some me \<and> held' = insert b held) \<and>
      (\<not> ok \<longrightarrow> held' = held) \<and> (holder w b \<noteq> None \<longrightarrow> holder w' b = holder w b) \<and>
      (\<forall>c. c \<noteq> b \<longrightarrow> holder w' c = holder w c)) (\<lambda>_ _. False) w"
    and release_law: "wp (release me b held) (\<lambda>held' w'.
      (holder w' b = holder w b \<or> (holder w b = Some me \<and> holder w' b = None)) \<and>
      (\<forall>c. c \<noteq> b \<longrightarrow> holder w' c = holder w c) \<and> held - {b} \<subseteq> held') (\<lambda>_ _. False) w"
begin

lemma exclusive:
  "wp (acquire one b held) (\<lambda>(ok, _) w1. ok \<longrightarrow>
     wp (acquire two b held') (\<lambda>(ok', _) w2. \<not> ok' \<and> holder w2 b = Some one) (\<lambda>_ _. False) w1) (\<lambda>_ _. False) w"
proof (rule wp_mono [OF acquire_law], goal_cases)
  case (1 r w1)
  have "wp (acquire two b held') (\<lambda>(ok', _) w2. \<not> ok' \<and> holder w2 b = Some one) (\<lambda>_ _. False) w1"
    if "holder w1 b = Some one"
    by (rule wp_mono [OF acquire_law]) (use that in auto)
  then show ?case using 1 by (auto split: prod.splits)
qed

lemma foreign_release:
  assumes "holder w b = Some one" and "one \<noteq> two"
  shows "wp (release two b held) (\<lambda>_ w'. holder w' b = Some one) (\<lambda>_ _. False) w"
  by (rule wp_mono [OF release_law]) (use assms in auto)

end

lemma acquire_lock_law:
  "wp (acquire_lock family me b held) (\<lambda>(ok, held') w'.
      (ok \<longrightarrow> lock_holder family w b = None \<and> lock_holder family w' b = Some me \<and> held' = insert b held) \<and>
      (\<not> ok \<longrightarrow> held' = held) \<and> (lock_holder family w b \<noteq> None \<longrightarrow> lock_holder family w' b = lock_holder family w b) \<and>
      (\<forall>c. c \<noteq> b \<longrightarrow> lock_holder family w' c = lock_holder family w c)) (\<lambda>_ _. False) w"
  by (auto simp: acquire_lock_def wp_simps set_nx_lock_def lock_holder_def OUTBOX_LOCK_TTL_SECONDS_def sec_def
      split: fault.split)

lemma release_lock_law:
  "wp (release_lock family me b held) (\<lambda>held' w'.
      (lock_holder family w' b = lock_holder family w b \<or> (lock_holder family w b = Some me \<and> lock_holder family w' b = None)) \<and>
      (\<forall>c. c \<noteq> b \<longrightarrow> lock_holder family w' c = lock_holder family w c) \<and> held - {b} \<subseteq> held') (\<lambda>_ _. False) w"
  by (auto simp: release_lock_def wp_simps lock_holder_def split: fault.split)

interpretation outbox_lease: lease "lock_holder ''outbox''" "acquire_lock ''outbox''" "release_lock ''outbox''"
  by unfold_locales (rule acquire_lock_law, rule release_lock_law)

text \<open>The retry worker has the same three methods over lock keys of its own.\<close>

definition retry_acquire_lock :: "string \<Rightarrow> nat \<Rightarrow> nat set \<Rightarrow> (world, bool \<times> nat set) prog" where
  "retry_acquire_lock = acquire_lock ''retry''"

definition retry_renew_locks :: "string \<Rightarrow> nat list \<Rightarrow> nat set \<Rightarrow> (world, nat set) prog" where
  "retry_renew_locks me buckets held =
     (if held = {} then ret held
      else bnd (getting w_redis_on) (\<lambda>on. if on then fold_prog (renew_lock ''retry'' me) buckets held else ret held))"

definition retry_release_lock :: "string \<Rightarrow> nat \<Rightarrow> nat set \<Rightarrow> (world, nat set) prog" where
  "retry_release_lock = release_lock ''retry''"

interpretation retry_lease: lease "lock_holder ''retry''" retry_acquire_lock retry_release_lock
  by unfold_locales (simp_all only: retry_acquire_lock_def retry_release_lock_def acquire_lock_law release_lock_law)

section \<open>Publishing a bucket\<close>

definition routing_key :: "outbox_row \<Rightarrow> event \<Rightarrow> string" where
  "routing_key r payload = (let c = jget payload ''conversation_id'' in
     if truthy c then py_str c else uuid_str (ob_id r))"

definition kafka_publish :: "string \<Rightarrow> string \<Rightarrow> json \<Rightarrow> (world, unit) prog" where
  "kafka_publish topic key value =
     ext KafkaError (\<lambda>_. ()) (\<lambda>w. w\<lparr>w_kafka := w_kafka w @ [(topic, key, value)]\<rparr>)"

definition publish_row :: "nat \<Rightarrow> outbox_row \<Rightarrow> (world, unit) prog" where
  "publish_row b r = (case ob_payload r of
     JObj payload \<Rightarrow>
       bnd (kafka_publish (ob_type r) (routing_key r payload) (JObj payload)) (\<lambda>_.
       bnd (outbox_mark_published b (ob_id r)) (\<lambda>_. ret ()))
   | _ \<Rightarrow> raise TypeError)"

text \<open>The loop of the worker stops at the first event that fails.\<close>

fun publish_rows :: "nat \<Rightarrow> outbox_row list \<Rightarrow> (world, unit) prog" where
  "publish_rows b [] = ret ()"
| "publish_rows b (r # rs) =
     bnd (attempt (bnd (publish_row b r) (\<lambda>_. ret True)) (\<lambda>_. ret False)) (\<lambda>ok.
     if ok then publish_rows b rs else ret ())"

definition process_bucket :: "nat \<Rightarrow> (world, unit) prog" where
  "process_bucket b = attempt (bnd (outbox_fetch_unpublished b 200) (publish_rows b)) (\<lambda>_. ret ())"

definition process_with_lease :: "string \<Rightarrow> nat \<Rightarrow> nat set \<Rightarrow> (world, nat set) prog" where
  "process_with_lease me b held =
     (if b \<in> held then bnd (process_bucket b) (\<lambda>_. ret held)
      else bnd (acquire_lock ''outbox'' me b held) (\<lambda>(ok, held').
           if ok then bnd (process_bucket b) (\<lambda>_. ret held') else ret held'))"

definition worker_round :: "string \<Rightarrow> nat set \<Rightarrow> (world, nat set) prog" where
  "worker_round me held = fold_prog (process_with_lease me) [0..<OUTBOX_BUCKETS] held"

text \<open>
  The renewal task and the shutdown take the held buckets in any order: \<open>list(self.locked_buckets)\<close> is an argument.
\<close>

definition renew_locks :: "string \<Rightarrow> string \<Rightarrow> nat list \<Rightarrow> nat set \<Rightarrow> (world, nat set) prog" where
  "renew_locks family me buckets held =
     (if held = {} then ret held
      else bnd (getting w_redis_on) (\<lambda>on. if on then fold_prog (renew_lock family me) buckets held else ret held))"

definition release_locks :: "string \<Rightarrow> string \<Rightarrow> nat list \<Rightarrow> nat set \<Rightarrow> (world, nat set) prog" where
  "release_locks family me buckets held = fold_prog (release_lock family me) buckets held"

section \<open>Reconciling stale events\<close>

definition retry_row :: "int \<Rightarrow> nat \<Rightarrow> outbox_row \<Rightarrow> (world, unit) prog" where
  "retry_row now b r =
     (if now - ob_created r < sec OUTBOX_STALE_THRESHOLD_SECONDS then ret ()
      else attempt (publish_row b r) (\<lambda>_. ret ()))"

definition retry_bucket :: "nat \<Rightarrow> int \<Rightarrow> (world, unit) prog" where
  "retry_bucket b now =
     attempt (bnd (outbox_fetch_unpublished b 100) (\<lambda>rows. fold_prog (\<lambda>r _. retry_row now b r) rows ())) (\<lambda>_. ret ())"

definition retry_with_lease :: "string \<Rightarrow> int \<Rightarrow> nat \<Rightarrow> nat set \<Rightarrow> (world, nat set) prog" where
  "retry_with_lease me now b held =
     (if b \<in> held then bnd (retry_bucket b now) (\<lambda>_. ret held)
      else bnd (retry_acquire_lock me b held) (\<lambda>(ok, held').
           if ok then bnd (retry_bucket b now) (\<lambda>_. ret held') else ret held'))"

definition retry_round :: "string \<Rightarrow> int \<Rightarrow> nat set \<Rightarrow> (world, nat set) prog" where
  "retry_round me now held = fold_prog (retry_with_lease me now) [0..<OUTBOX_BUCKETS] held"

section \<open>A bucket is published in order\<close>

definition kafka_record :: "outbox_row \<Rightarrow> string \<times> string \<times> json" where
  "kafka_record r = (ob_type r, (case ob_payload r of JObj payload \<Rightarrow> routing_key r payload | _ \<Rightarrow> []), ob_payload r)"

definition mark_rows :: "uuid set \<Rightarrow> outbox_row list \<Rightarrow> outbox_row list" where
  "mark_rows ids rows = map (\<lambda>r. if ob_id r \<in> ids then r\<lparr>ob_published := True\<rparr> else r) rows"

definition pending_rows :: "nat \<Rightarrow> nat \<Rightarrow> world \<Rightarrow> outbox_row list" where
  "pending_rows b limit w = take limit (filter (\<lambda>r. \<not> ob_published r) (w_outbox w b))"

text \<open>
  \<open>progress b rs k j w w'\<close>: of the rows \<open>rs\<close> of bucket \<open>b\<close> the first \<open>k\<close> went to Kafka, in order, and the first
  \<open>j\<close> are marked; every other field of the world, the schedule of failures apart, is what it was.
\<close>

definition progress :: "nat \<Rightarrow> outbox_row list \<Rightarrow> nat \<Rightarrow> nat \<Rightarrow> world \<Rightarrow> world \<Rightarrow> bool" where
  "progress b rs k j w w' \<longleftrightarrow>
     w_kafka w' = w_kafka w @ map kafka_record (take k rs) \<and>
     w_outbox w' = (w_outbox w)(b := mark_rows (ob_id ` set (take j rs)) (w_outbox w b)) \<and>
     w_now w' = w_now w \<and> w_redis_on w' = w_redis_on w \<and> w_conv w' = w_conv w \<and> w_catalog w' = w_catalog w \<and> w_msgs w' = w_msgs w \<and>
     w_inbox w' = w_inbox w \<and> w_rconv w' = w_rconv w \<and> w_rmsgs w' = w_rmsgs w \<and> w_pending w' = w_pending w \<and> w_zset w' = w_zset w \<and>
     w_locks w' = w_locks w \<and> w_idem w' = w_idem w \<and> w_owner w' = w_owner w \<and> w_log w' = w_log w \<and> w_pub w' = w_pub w"

lemma mark_rows_simps [simp]:
  "mark_rows {} rows = rows" "mark_rows s (mark_rows t rows) = mark_rows (s \<union> t) rows"
  by (auto simp: mark_rows_def)

lemma ob_id_mark [simp]: "map ob_id (mark_rows s rows) = map ob_id rows"
  by (simp add: mark_rows_def)

lemma mark_row_existing:
  assumes "outbox_ok w" and "i \<in> ob_id ` set (w_outbox w b)"
  shows "w_outbox (mark_row b i w) = (w_outbox w)(b := mark_rows {i} (w_outbox w b))"
proof -
  have "clustered outbox_lt ob_id (w_outbox w b)" using assms(1) by (simp add: outbox_ok_def)
  moreover have "ob_id (blank_outbox i) \<in> ob_id ` set (w_outbox w b)" using assms(2) by simp
  ultimately show ?thesis
    by (simp add: mark_row_def mark_rows_def outbox_order.upsert_existing)
qed

lemma mark_row_frames [simp]:
  "w_kafka (mark_row b i w) = w_kafka w" "w_sched (mark_row b i w) = w_sched w" "w_now (mark_row b i w) = w_now w"
  "w_redis_on (mark_row b i w) = w_redis_on w" "w_conv (mark_row b i w) = w_conv w" "w_catalog (mark_row b i w) = w_catalog w"
  "w_msgs (mark_row b i w) = w_msgs w" "w_inbox (mark_row b i w) = w_inbox w" "w_rconv (mark_row b i w) = w_rconv w"
  "w_rmsgs (mark_row b i w) = w_rmsgs w" "w_pending (mark_row b i w) = w_pending w" "w_zset (mark_row b i w) = w_zset w"
  "w_locks (mark_row b i w) = w_locks w" "w_idem (mark_row b i w) = w_idem w" "w_owner (mark_row b i w) = w_owner w"
  "w_log (mark_row b i w) = w_log w" "w_pub (mark_row b i w) = w_pub w"
  by (simp_all add: mark_row_def)

lemma progress_stop: "progress b rs 0 0 w w"
  by (simp add: progress_def)

lemma progress_pop [simp]: "progress b rs k j w (pop w') = progress b rs k j w w'"
  by (simp add: progress_def)

lemma progress_step:
  assumes "progress b [r] 1 1 w w1" and "progress b rs k j w1 w'"
  shows "progress b (r # rs) (Suc k) (Suc j) w w'"
  using assms by (simp add: progress_def)

definition sent :: "outbox_row \<Rightarrow> world \<Rightarrow> world" where
  "sent r w = w\<lparr>w_kafka := w_kafka w @ [kafka_record r]\<rparr>"

lemma sent_frames [simp]:
  "outbox_ok (sent r w) = outbox_ok w" "w_outbox (sent r w) = w_outbox w" "w_sched (sent r w) = w_sched w"
  by (simp_all add: sent_def outbox_ok_def)

lemma progress_sent: "progress b (r # rs) (Suc 0) 0 w (sent r w)"
  by (simp add: progress_def sent_def)

lemma progress_marked:
  assumes "outbox_ok w" and "r \<in> set (w_outbox w b)"
  shows "progress b (r # rs) (Suc 0) (Suc 0) w (mark_row b (ob_id r) (sent r w))"
  using mark_row_existing [of "sent r w" "ob_id r" b] assms by (simp add: progress_def) (simp add: sent_def)

lemma wp_publish_row:
  "wp (publish_row b r) Q E w = (case ob_payload r of
     JObj payload \<Rightarrow>
       (case next_fault w of
          Okay \<Rightarrow> (let v = sent r (pop w) in case next_fault v of
              Okay \<Rightarrow> Q () (mark_row b (ob_id r) (pop v)) | Refused \<Rightarrow> E DbError (pop v) | Lost \<Rightarrow> E DbError (mark_row b (ob_id r) (pop v)))
        | Refused \<Rightarrow> E KafkaError (pop w)
        | Lost \<Rightarrow> E KafkaError (sent r (pop w)))
   | _ \<Rightarrow> E TypeError w)"
  by (auto simp: publish_row_def kafka_publish_def outbox_mark_published_def wp_simps sent_def kafka_record_def Let_def
      split: fault.split json.split)

text \<open>Rows still to publish: rows of the bucket, each once.\<close>

definition to_publish :: "nat \<Rightarrow> outbox_row list \<Rightarrow> world \<Rightarrow> bool" where
  "to_publish b rs w \<longleftrightarrow> outbox_ok w \<and> set rs \<subseteq> set (w_outbox w b) \<and> distinct (map ob_id rs)"

lemma outbox_ok_marked:
  assumes "progress b rs k j w w'" and "outbox_ok w"
  shows "outbox_ok w'"
  using assms by (auto simp: progress_def outbox_ok_def clustered_def)

lemma to_publish_next:
  assumes "to_publish b (r # rs) w" and "progress b [r] 1 1 w w1"
  shows "to_publish b rs w1"
proof -
  have out: "w_outbox w1 b = mark_rows {ob_id r} (w_outbox w b)" using assms(2) by (simp add: progress_def)
  have "x \<in> set (w_outbox w1 b)" if "x \<in> set rs" for x
  proof -
    have "ob_id x \<in> ob_id ` set rs" "ob_id r \<notin> ob_id ` set rs"
      using assms(1) that by (simp_all add: to_publish_def)
    then have "ob_id x \<noteq> ob_id r" by metis
    moreover have "x \<in> set (w_outbox w b)" using assms(1) that by (auto simp: to_publish_def)
    ultimately show ?thesis unfolding out mark_rows_def by (auto intro!: rev_image_eqI [of x])
  qed
  moreover have "outbox_ok w1" using outbox_ok_marked [OF assms(2)] assms(1) by (simp add: to_publish_def)
  ultimately show ?thesis using assms(1) by (auto simp: to_publish_def)
qed

lemma publish_rows_progress:
  assumes "to_publish b rs w"
  shows "wp (publish_rows b rs) (\<lambda>_ w'. \<exists>k j. j \<le> k \<and> k \<le> Suc j \<and> k \<le> length rs \<and> progress b rs k j w w') (\<lambda>_ _. False) w"
  using assms
proof (induction rs arbitrary: w)
  case Nil
  then show ?case using progress_stop by (force simp: wp_ret)
next
  case (Cons r rs)
  let ?Q = "\<lambda>w'. \<exists>k j. j \<le> k \<and> k \<le> Suc j \<and> k \<le> length (r # rs) \<and> progress b (r # rs) k j w w'"
  have mem: "outbox_ok w" "r \<in> set (w_outbox w b)" using Cons.prems by (auto simp: to_publish_def)
  have stop: "?Q (pop w)" "?Q w" using progress_stop [of b "r # rs" w] by (force, force)
  have sent_only: "?Q (sent r (pop w))" "?Q (pop (sent r (pop w)))"
  proof -
    have p: "progress b (r # rs) (Suc 0) 0 w (sent r (pop w))"
      using progress_sent [of b r rs w] by (simp add: progress_def sent_def)
    show "?Q (sent r (pop w))" by (intro exI [of _ "Suc 0"] exI [of _ 0]) (simp add: p)
    show "?Q (pop (sent r (pop w)))" by (intro exI [of _ "Suc 0"] exI [of _ 0]) (simp add: p)
  qed
  let ?m = "mark_row b (ob_id r) (pop (sent r (pop w)))"
  have marked: "progress b (r # xs) (Suc 0) (Suc 0) w ?m" for xs
    using progress_marked [of "pop w" r b xs] mem mark_row_existing [of "pop (sent r (pop w))" "ob_id r" b]
    by (simp add: progress_def outbox_ok_def [of "pop _"] outbox_ok_def [of "sent _ _"])
  have done1: "?Q ?m" by (intro exI [of _ "Suc 0"]) (simp add: marked)
  have more: "wp (publish_rows b rs) (\<lambda>_. ?Q) (\<lambda>_ _. False) ?m"
  proof (rule wp_mono [OF Cons.IH [OF to_publish_next [OF Cons.prems]]])
    show "progress b [r] 1 1 w ?m" using marked by simp
    fix w' assume "\<exists>k j. j \<le> k \<and> k \<le> Suc j \<and> k \<le> length rs \<and> progress b rs k j ?m w'"
    then obtain k j where kj: "j \<le> k" "k \<le> Suc j" "k \<le> length rs" "progress b rs k j ?m w'" by blast
    have "progress b (r # rs) (Suc k) (Suc j) w w'"
      by (rule progress_step [OF _ kj(4)]) (use marked in simp)
    then show "?Q w'" using kj(1-3) by (intro exI [of _ "Suc k"] exI [of _ "Suc j"]) simp
  qed simp
  show ?case
    unfolding publish_rows.simps wp_bnd [of "attempt _ _"] wp_attempt wp_bnd [of "publish_row b r"] wp_publish_row
    using stop sent_only done1 more by (auto simp: Let_def wp_ret split: fault.split json.split)
qed

lemma to_publish_pending:
  assumes "outbox_ok w"
  shows "to_publish b (pending_rows b n w) w"
proof -
  have "distinct (map ob_id (w_outbox w b))"
    using assms by (simp add: outbox_ok_def outbox_order.clustered_distinct)
  then have "distinct (map ob_id (filter (\<lambda>r. \<not> ob_published r) (w_outbox w b)))" by (rule distinct_map_filter)
  then have "distinct (map ob_id (pending_rows b n w))" unfolding pending_rows_def take_map [symmetric] by (rule distinct_take)
  then show ?thesis using assms by (auto simp: to_publish_def pending_rows_def dest: in_set_takeD)
qed

lemma fetch_pending: "wp (outbox_fetch_unpublished b n) Q E w = (case next_fault w of Okay \<Rightarrow> Q (pending_rows b n w) (pop w) | _ \<Rightarrow> E DbError (pop w))"
  by (simp add: outbox_fetch_unpublished_def wp_ext pending_rows_def split: fault.split)

text \<open>C18:
  Publishing a bucket, under any failing calls, never raises and keeps the order of the outbox: of the pending
  events (the oldest 200 in event-id order) a prefix goes to Kafka, each once and in that order, and of these all but
  perhaps the last are marked published; no event is marked that was not sent, and nothing else is changed.
\<close>

theorem bucket_published_in_order:
  assumes "outbox_ok w"
  shows "wp (process_bucket b)
    (\<lambda>_ w'. outbox_ok w' \<and> (\<exists>k j. j \<le> k \<and> k \<le> Suc j \<and> k \<le> length (pending_rows b 200 w) \<and>
        progress b (pending_rows b 200 w) k j w w'))
    (\<lambda>_ _. False) w"
proof -
  let ?P = "pending_rows b 200 w"
  let ?Q = "\<lambda>w'. outbox_ok w' \<and> (\<exists>k j. j \<le> k \<and> k \<le> Suc j \<and> k \<le> length ?P \<and> progress b ?P k j w w')"
  have none: "?Q (pop w)" using assms progress_stop [of b ?P w] by force
  have tp: "to_publish b ?P (pop w)" using to_publish_pending [OF assms, of b 200] by (simp add: to_publish_def)
  have run: "wp (publish_rows b ?P) (\<lambda>_. ?Q) (\<lambda>_ _. False) (pop w)"
  proof (rule wp_mono [OF publish_rows_progress [OF tp]])
    fix w' assume "\<exists>k j. j \<le> k \<and> k \<le> Suc j \<and> k \<le> length ?P \<and> progress b ?P k j (pop w) w'"
    moreover have "progress b ?P k j (pop w) w' = progress b ?P k j w w'" for k j by (simp add: progress_def)
    ultimately show "?Q w'" using outbox_ok_marked [OF _ assms] by auto
  qed simp
  show ?thesis
    unfolding process_bucket_def wp_attempt wp_bnd fetch_pending
    using none run by (auto simp: wp_ret split: fault.split elim!: wp_mono)
qed

theorem bucket_published_in_order_witness:
  "wp (process_bucket 1)
    (\<lambda>_ w'. outbox_ok w' \<and> (\<exists>k j. j \<le> k \<and> k \<le> Suc j \<and> k \<le> length (pending_rows 1 200 (empty_world 5)) \<and>
        progress 1 (pending_rows 1 200 (empty_world 5)) k j (empty_world 5) w'))
    (\<lambda>_ _. False) (empty_world 5)"
  by (rule bucket_published_in_order) (simp add: outbox_ok_def empty_world_def clustered_def)

section \<open>With no failures a bucket drains\<close>

lemma publish_rows_calm:
  assumes "to_publish b rs w" and "calm w" and "\<forall>r \<in> set rs. is_object (ob_payload r)"
  shows "wp (publish_rows b rs) (\<lambda>_ w'. calm w' \<and> progress b rs (length rs) (length rs) w w') (\<lambda>_ _. False) w"
  using assms
proof (induction rs arbitrary: w)
  case Nil
  then show ?case by (simp add: wp_ret progress_def)
next
  case (Cons r rs)
  let ?m = "mark_row b (ob_id r) (sent r w)"
  have mem: "outbox_ok w" "r \<in> set (w_outbox w b)" using Cons.prems(1) by (auto simp: to_publish_def)
  have calm: "calm (sent r w)" "calm ?m" using Cons.prems(2) by (simp_all add: calm_def)
  have marked: "progress b [r] 1 1 w ?m" using progress_marked [OF mem] by simp
  obtain payload where p: "ob_payload r = JObj payload" using Cons.prems(3) by (auto simp: is_object_def split: json.splits)
  have "wp (publish_rows b rs) (\<lambda>_ w'. calm w' \<and> progress b (r # rs) (length (r # rs)) (length (r # rs)) w w') (\<lambda>_ _. False) ?m"
    by (rule wp_mono [OF Cons.IH [OF to_publish_next [OF Cons.prems(1) marked] calm(2)]])
       (use Cons.prems(3) progress_step [OF marked] in auto)
  then show ?case
    using Cons.prems(2) calm(1) by (simp add: wp_bnd wp_attempt wp_publish_row p Let_def wp_ret)
qed

text \<open>C19:
  With no failures one pass over a bucket empties its backlog: every pending event (up to 200, and payloads that are
  objects, as all the events the service stages) reaches Kafka, and afterwards none of them is unpublished.
\<close>

theorem bucket_drains:
  assumes "outbox_ok w" and "calm w" and "\<forall>r \<in> set (w_outbox w b). is_object (ob_payload r)"
    and "length (filter (\<lambda>r. \<not> ob_published r) (w_outbox w b)) \<le> 200"
  shows "wp (process_bucket b)
    (\<lambda>_ w'. pending_rows b 200 w' = [] \<and>
       w_kafka w' = w_kafka w @ map kafka_record (filter (\<lambda>r. \<not> ob_published r) (w_outbox w b)))
    (\<lambda>_ _. False) w"
proof -
  let ?P = "filter (\<lambda>r. \<not> ob_published r) (w_outbox w b)"
  have P: "pending_rows b 200 w = ?P" using assms(4) by (simp add: pending_rows_def)
  have tp: "to_publish b ?P w" using to_publish_pending [OF assms(1), of b 200] by (simp add: P)
  have fin: "pending_rows b 200 w' = [] \<and> w_kafka w' = w_kafka w @ map kafka_record ?P"
    if "progress b ?P (length ?P) (length ?P) w w'" for w'
  proof -
    have "w_outbox w' b = mark_rows (ob_id ` set ?P) (w_outbox w b)" using that by (simp add: progress_def)
    then have "filter (\<lambda>r. \<not> ob_published r) (w_outbox w' b) = []"
      by (auto simp: mark_rows_def filter_empty_conv)
    then show ?thesis using that by (simp add: pending_rows_def progress_def)
  qed
  have obj: "\<forall>r \<in> set ?P. is_object (ob_payload r)" using assms(3) by simp
  have run: "wp (publish_rows b ?P) (\<lambda>_ w'. pending_rows b 200 w' = [] \<and> w_kafka w' = w_kafka w @ map kafka_record ?P) (\<lambda>_ _. False) w"
    by (rule wp_mono [OF publish_rows_calm [OF tp assms(2) obj]]) (use fin in auto)
  show ?thesis
    unfolding process_bucket_def wp_attempt wp_bnd fetch_pending P
    using assms(2) by (simp, intro wp_mono [OF run]) auto
qed

definition backlog_row :: outbox_row where
  "backlog_row = \<lparr>ob_id = 7, ob_type = CONVERSATION_CREATED, ob_payload = JObj [], ob_published = False, ob_created = 0\<rparr>"

theorem bucket_drains_witness:
  "wp (process_bucket 1)
    (\<lambda>_ w'. pending_rows 1 200 w' = [] \<and>
       w_kafka w' = w_kafka ((empty_world 5)\<lparr>w_outbox := (\<lambda>_. [])(1 := [backlog_row])\<rparr>) @
         map kafka_record (filter (\<lambda>r. \<not> ob_published r) (w_outbox ((empty_world 5)\<lparr>w_outbox := (\<lambda>_. [])(1 := [backlog_row])\<rparr>) 1)))
    (\<lambda>_ _. False) ((empty_world 5)\<lparr>w_outbox := (\<lambda>_. [])(1 := [backlog_row])\<rparr>)"
  by (rule bucket_drains) (auto simp: outbox_ok_def empty_world_def clustered_def calm_def backlog_row_def is_object_def)

section \<open>Leases\<close>

text \<open>
  A bucket lock is exclusive and only its owner gives it up: right after one worker has acquired the lock of
  a bucket, no worker (itself included) acquires it again, whatever calls fail, and another worker's release leaves
  the key with its owner. The same holds for the lock family of the retry worker.
\<close>

theorem bucket_lock_exclusive:
  "wp (acquire_lock ''outbox'' one b held) (\<lambda>(ok, _) w1. if ok then
     wp (acquire_lock ''outbox'' two b held') (\<lambda>(ok', _) w2. \<not> ok' \<and> lock_holder ''outbox'' w2 b = Some one) (\<lambda>_ _. False) w1 \<and>
     (if one = two then True
      else wp (release_lock ''outbox'' two b held') (\<lambda>_ w2. lock_holder ''outbox'' w2 b = Some one) (\<lambda>_ _. False) w1)
     else True) (\<lambda>_ _. False) w"
  by (rule wp_mono [OF wp_conj [OF outbox_lease.exclusive outbox_lease.acquire_law]])
     (auto intro: outbox_lease.foreign_release)

text \<open>Time passes, and the calls that follow go as \<open>fs\<close> says.\<close>

definition elapse :: "int \<Rightarrow> fault list \<Rightarrow> (world, unit) prog" where
  "elapse t fs = (\<lambda>w. (Inr (), w\<lparr>w_now := w_now w + t, w_sched := fs\<rparr>))"

lemma wp_elapse [wp_simps]: "wp (elapse t fs) Q E w = Q () (w\<lparr>w_now := w_now w + t, w_sched := fs\<rparr>)"
  by (simp add: wp_def elapse_def)

definition lost_lease :: "string \<Rightarrow> string \<Rightarrow> nat \<Rightarrow> (world, nat set \<times> nat set) prog" where
  "lost_lease one two b =
     bnd (acquire_lock ''outbox'' one b {}) (\<lambda>(_, mine).
     bnd (elapse (sec OUTBOX_LOCK_TTL_SECONDS) [Refused]) (\<lambda>_.
     bnd (renew_lock ''outbox'' one b mine) (\<lambda>mine'.
     bnd (acquire_lock ''outbox'' two b {}) (\<lambda>(_, theirs). ret (mine', theirs)))))"

text \<open>
  A lease that cannot be renewed is not given up: when every Redis call of the renewals fails, the worker keeps
  the bucket in its own list, and once the key has expired another worker acquires the lock, so both consider the
  bucket theirs and the next round of the first publishes it without asking again.
\<close>

theorem failed_renewal_keeps_bucket:
  assumes "calm w" and "w_redis_on w" and "lock_holder ''outbox'' w b = None"
  shows "wp (lost_lease one two b) (\<lambda>(mine, theirs) w'. b \<in> mine \<and> b \<in> theirs \<and> lock_holder ''outbox'' w' b = Some two)
    (\<lambda>_ _. False) w"
  using assms
  by (simp add: lost_lease_def acquire_lock_def renew_lock_def set_nx_lock_def lock_holder_def wp_simps next_fault_def
      calm_def OUTBOX_LOCK_TTL_SECONDS_def sec_def)

theorem failed_renewal_keeps_bucket_witness:
  "wp (lost_lease ''a'' ''b'' 3) (\<lambda>(mine, theirs) w'. 3 \<in> mine \<and> 3 \<in> theirs \<and> lock_holder ''outbox'' w' 3 = Some ''b'')
    (\<lambda>_ _. False) (empty_world 5)"
  by (rule failed_renewal_keeps_bucket) (simp_all add: calm_def empty_world_def lock_holder_def)

end
