(* ===== verification/Api.thy ===== *)
theory Api
  imports Outbox_Worker
begin

text \<open>
  The HTTP routes of \<open>app/api/v1\<close> (messages, conversations, preferences, custom modes), the ownership
  dependency of \<open>app/security/dependencies.py\<close>, the request validators of \<open>app/schemas\<close> and the idempotency
  service. A stored idempotency value and a decoded cursor are kept as JSON values; the times in them are
  numbers instead of ISO texts. The authenticated user is an argument (the token is checked outside the model).
\<close>

definition IDEMPOTENCY_TTL_SECONDS :: int where "IDEMPOTENCY_TTL_SECONDS = 86400"
definition MAX_SELECTED_TOOLS :: nat where "MAX_SELECTED_TOOLS = 5"

section \<open>Idempotency keys\<close>

definition processing :: json where "processing = JStr ''processing''"

definition put_idem :: "string \<Rightarrow> json \<Rightarrow> world \<Rightarrow> world" where
  "put_idem key v w = w\<lparr>w_idem := (w_idem w)(key := Some (v, Some (w_now w + sec IDEMPOTENCY_TTL_SECONDS)))\<rparr>"

definition idem_of :: "world \<Rightarrow> string \<Rightarrow> json option" where
  "idem_of w key = live (w_now w) (w_idem w key)"

definition claim_key :: "string \<Rightarrow> (world, json option) prog" where
  "claim_key key = when_redis None
     (attempt
       (bnd (ext RedisError (\<lambda>w. idem_of w key = None) (\<lambda>w. if idem_of w key = None then put_idem key processing w else w)) (\<lambda>acquired.
        if acquired then ret None else redis_query (\<lambda>w. idem_of w key)))
       (\<lambda>_. ret None))"

definition save_response :: "string \<Rightarrow> json \<Rightarrow> (world, unit) prog" where
  "save_response key v = when_redis () (attempt (redis_exec (put_idem key v)) (\<lambda>_. ret ()))"

definition remove_lock :: "string \<Rightarrow> (world, unit) prog" where
  "remove_lock key = when_redis () (attempt (redis_exec (\<lambda>w. w\<lparr>w_idem := (w_idem w)(key := None)\<rparr>)) (\<lambda>_. ret ()))"

section \<open>Request bodies\<close>

record create_message =
  rq_content :: string
  rq_mode :: "string option"
  rq_tools :: "string list option"
  rq_diagrams :: bool
  rq_files :: "uuid list option"

definition validate_content :: "string \<Rightarrow> exn + string" where
  "validate_content v = (if length v < 1 \<or> 8000 < length v then Inl (ValueError ''content'')
     else if strip v = [] then Inl (ValueError ''Message content cannot be empty or whitespace.'') else Inr (strip v))"

definition validate_mode :: "string option \<Rightarrow> exn + string option" where
  "validate_mode v = (case v of
     None \<Rightarrow> Inr None
   | Some raw \<Rightarrow>
       (let m = strip raw in
        if starts_with ''custom:'' (lower m)
        then (if parse_custom_ref (Some m) = None then Inl (ValueError ''Invalid custom mode reference.'') else Inr (Some (lower m)))
        else if m \<noteq> [] \<and> \<not> MODE_ID_match m then Inl (ValueError ''Invalid mode.'')
        else Inr (if m = [] then None else Some m)))"

definition validate_selected_tools :: "string list option \<Rightarrow> exn + string list option" where
  "validate_selected_tools v = (case v of
     None \<Rightarrow> Inr None
   | Some raws \<Rightarrow>
       (case clean_tools_loop raws [] of
          Inl e \<Rightarrow> Inl e
        | Inr cleaned \<Rightarrow>
            if MAX_SELECTED_TOOLS < length cleaned then Inl (ValueError ''At most 5 tools can be selected.'')
            else Inr (Some cleaned)))"

definition validate_message :: "create_message \<Rightarrow> exn + create_message" where
  "validate_message rq = (case validate_content (rq_content rq) of
     Inl e \<Rightarrow> Inl e
   | Inr content \<Rightarrow> (case validate_mode (rq_mode rq) of
       Inl e \<Rightarrow> Inl e
     | Inr mode \<Rightarrow> (case validate_selected_tools (rq_tools rq) of
         Inl e \<Rightarrow> Inl e
       | Inr tools \<Rightarrow> Inr (rq\<lparr>rq_content := content, rq_mode := mode, rq_tools := tools\<rparr>))))"

definition validate_title :: "string \<Rightarrow> exn + string" where
  "validate_title v = (if length v < 1 \<or> 255 < length v then Inl (ValueError ''title'')
     else if strip v = [] then Inl (ValueError ''Conversation title cannot be empty or whitespace.'') else Inr (strip v))"

section \<open>Ownership\<close>

definition require_owner :: "uuid \<Rightarrow> uuid \<Rightarrow> (world, conversation) prog" where
  "require_owner user cid =
     bnd (conv_service_get cid) (\<lambda>found. case found of
       None \<Rightarrow> raise (HTTPException 404 ''Conversation not found'')
     | Some conv \<Rightarrow>
         if cv_user conv \<noteq> user then raise (HTTPException 403 ''Forbidden: You do not own this conversation'')
         else ret conv)"

section \<open>Messages\<close>

definition response_data :: "message \<Rightarrow> json" where
  "response_data m = JObj
     [(''message_id'', JStr (uuid_str (m_id m))), (''conversation_id'', JStr (uuid_str (m_conv m))),
      (''sender'', opt_str (m_sender m)), (''content'', opt_str (m_content m)),
      (''created_at'', case m_created m of None \<Rightarrow> JNull | Some t \<Rightarrow> JInt t),
      (''status'', JStr (status_value (m_status m))),
      (''file_ids'', JList (map (\<lambda>f. JStr (uuid_str f)) (m_files m))),
      (''response_message_id'', opt_uuid (m_response m))]"

definition text_of :: "json \<Rightarrow> string option" where
  "text_of j = (case j of JStr s \<Rightarrow> Some s | _ \<Rightarrow> None)"

definition uuid_of_json :: "json \<Rightarrow> uuid option" where
  "uuid_of_json j = (case j of JStr s \<Rightarrow> parse_uuid s | _ \<Rightarrow> None)"

fun all_some :: "'a option list \<Rightarrow> 'a list option" where
  "all_some [] = Some []"
| "all_some (x # xs) = (case x of None \<Rightarrow> None | Some a \<Rightarrow> map_option (Cons a) (all_some xs))"

text \<open>The answer rebuilt from a stored value; \<open>None\<close> when a field is missing or malformed.\<close>

definition cached_message :: "json \<Rightarrow> message option" where
  "cached_message j = (case j of
     JObj kvs \<Rightarrow>
       (case (uuid_of_json (jget kvs ''message_id''), uuid_of_json (jget kvs ''conversation_id''),
              text_of (jget kvs ''sender''), text_of (jget kvs ''content''), jget kvs ''created_at'',
              status_of (text_of (jget kvs ''status''))) of
          (Some mid, Some cid, Some sender, Some content, JInt t, Some st) \<Rightarrow>
            (case all_some (map uuid_of_json (case jget_or kvs ''file_ids'' (JList []) of JList xs \<Rightarrow> xs | _ \<Rightarrow> [JNull])) of
               None \<Rightarrow> None
             | Some files \<Rightarrow>
                 (let r = jget kvs ''response_message_id'' in
                  if truthy r then
                    map_option (\<lambda>u. \<lparr>m_conv = cid, m_id = mid, m_sender = Some sender, m_content = Some content,
                      m_created = Some t, m_status = st, m_files = files, m_cites = [], m_response = Some u\<rparr>) (uuid_of_json r)
                  else Some \<lparr>m_conv = cid, m_id = mid, m_sender = Some sender, m_content = Some content,
                      m_created = Some t, m_status = st, m_files = files, m_cites = [], m_response = None\<rparr>))
        | _ \<Rightarrow> None)
   | _ \<Rightarrow> None)"

definition send_error :: "exn \<Rightarrow> exn" where
  "send_error e = (case e of
     CustomModeUnavailableError \<Rightarrow> HTTPException 422 ''custom_mode_unavailable''
   | PendingResponseRegistrationError \<Rightarrow>
       HTTPException 503 ''Could not register the response for tracking; message not sent. Please retry.''
   | _ \<Rightarrow> e)"

text \<open>\<open>if x_idempotency_key:\<close> an empty key counts as none.\<close>

definition keyed :: "string option \<Rightarrow> (string \<Rightarrow> (world, unit) prog) \<Rightarrow> (world, unit) prog" where
  "keyed key act = (case key of None \<Rightarrow> ret () | Some k \<Rightarrow> if k = [] then ret () else act k)"

definition with_key :: "string option \<Rightarrow> (world, message) prog \<Rightarrow> (world, message) prog" where
  "with_key key send = (case key of
     None \<Rightarrow> send
   | Some k \<Rightarrow>
       if k = [] then send
       else if parse_uuid k = None then raise (HTTPException 400 ''X-Idempotency-Key must be a valid UUIDv4'')
       else bnd (claim_key k) (\<lambda>lock. case lock of
              None \<Rightarrow> send
            | Some v \<Rightarrow>
                if v = processing then
                  raise (HTTPException 409 ''A concurrent request with this idempotency key is already in progress'')
                else (case cached_message v of None \<Rightarrow> raise KeyError | Some m \<Rightarrow> ret m)))"

text \<open>
  \<open>POST /{conversation_id}/messages\<close>. \<open>mid\<close> is the fresh message id; the other drawn values are those of
  \<open>ms_send\<close>.
\<close>

definition api_create_message ::
  "(nat \<Rightarrow> uuid) \<Rightarrow> uuid \<Rightarrow> string \<Rightarrow> resolver \<Rightarrow> bool \<Rightarrow> uuid \<Rightarrow> uuid \<Rightarrow> uuid \<Rightarrow> create_message \<Rightarrow> string option
   \<Rightarrow> (world, message) prog" where
  "api_create_message cand event_id corr prefs branching mid user cid rq key =
     bnd (require_owner user cid) (\<lambda>conv.
     with_key key
       (bnd (attempt
              (ms_send cand event_id corr prefs branching cid mid ''user'' (rq_content rq) (Some (cv_user conv))
                 (rq_mode rq) (rq_tools rq) (case rq_files rq of None \<Rightarrow> [] | Some fs \<Rightarrow> fs) (rq_diagrams rq))
              (\<lambda>e. bnd (keyed key remove_lock) (\<lambda>_. raise (send_error e))))
         (\<lambda>msg. bnd (keyed key (\<lambda>k. save_response k (response_data msg))) (\<lambda>_. ret msg))))"

definition page_cursor :: "nat \<Rightarrow> message list \<Rightarrow> event option" where
  "page_cursor limit items = (if length items = limit \<and> items \<noteq> []
     then Some [(''message_id'', JStr (uuid_str (m_id (last items))))] else None)"

text \<open>\<open>GET\<close>: the items, the next cursor, \<open>has_more\<close>. A cursor that does not decode is refused; the limit is 1 to 100.\<close>

definition api_history ::
  "uuid \<Rightarrow> uuid \<Rightarrow> nat \<Rightarrow> event option option \<Rightarrow> (world, message list \<times> event option \<times> bool) prog" where
  "api_history user cid limit cursor =
     bnd (require_owner user cid) (\<lambda>_.
     bnd (case cursor of
            None \<Rightarrow> ret None
          | Some None \<Rightarrow> raise (HTTPException 400 ''Invalid pagination cursor format'')
          | Some (Some payload) \<Rightarrow>
              if truthy (jget payload ''message_id'') then bnd (uuid_arg (jget payload ''message_id'')) (\<lambda>u. ret (Some u)) else ret None)
       (\<lambda>from. bnd (ms_history cid limit from) (\<lambda>items.
     ret (items, page_cursor limit items, page_cursor limit items \<noteq> None))))"

definition api_regenerate ::
  "(nat \<Rightarrow> uuid) \<Rightarrow> uuid \<Rightarrow> uuid \<Rightarrow> string \<Rightarrow> resolver \<Rightarrow> uuid \<Rightarrow> uuid \<Rightarrow> uuid \<Rightarrow> (world, message) prog" where
  "api_regenerate cand request_id event_id corr prefs user cid mid =
     bnd (require_owner user cid) (\<lambda>conv.
     bnd (attempt (ms_regenerate cand request_id event_id corr prefs cid mid (Some (cv_user conv)))
       (\<lambda>e. raise (if e = PendingResponseRegistrationError
          then HTTPException 503 ''Could not register the response for tracking; regeneration not started. Please retry.'' else e)))
       (\<lambda>res. case res of
          None \<Rightarrow> raise (HTTPException 404 ''Target assistant message not found in history'')
        | Some m \<Rightarrow> ret m))"

definition api_delete_message :: "uuid \<Rightarrow> uuid \<Rightarrow> uuid \<Rightarrow> (world, unit) prog" where
  "api_delete_message user cid mid =
     bnd (require_owner user cid) (\<lambda>_.
     bnd (ms_delete cid mid) (\<lambda>ok.
     if ok then ret () else raise (HTTPException 404 ''Message not found'')))"

section \<open>Conversations\<close>

definition create_error :: "exn \<Rightarrow> exn" where
  "create_error e = (case e of
     LookupError s \<Rightarrow> HTTPException 404 s
   | KeyError \<Rightarrow> HTTPException 404 []
   | PermissionError s \<Rightarrow> HTTPException 403 s
   | ValueError s \<Rightarrow> HTTPException 400 s
   | _ \<Rightarrow> e)"

definition api_create_conversation ::
  "uuid \<Rightarrow> uuid \<Rightarrow> uuid \<Rightarrow> string \<Rightarrow> uuid \<Rightarrow> string \<Rightarrow> uuid option \<Rightarrow> uuid option \<Rightarrow> (world, conversation) prog" where
  "api_create_conversation new_id event_id fresh corr user title parent branch =
     (if branch \<noteq> None \<and> parent = None then raise (HTTPException 400 ''branch_message_id requires parent_conversation_id.'')
      else attempt (conv_service_create new_id event_id fresh corr user title parent branch True)
             (\<lambda>e. raise (create_error e)))"

definition list_cursor :: "nat \<Rightarrow> conversation list \<Rightarrow> event option" where
  "list_cursor limit items = (if length items = limit \<and> items \<noteq> []
     then Some [(''updated_at'', JInt (cv_updated (last items))), (''conversation_id'', JStr (uuid_str (cv_id (last items))))] else None)"

definition api_list_conversations ::
  "uuid \<Rightarrow> nat \<Rightarrow> event option option \<Rightarrow> (world, conversation list \<times> event option \<times> bool) prog" where
  "api_list_conversations user limit cursor =
     bnd (case cursor of
            None \<Rightarrow> ret None
          | Some None \<Rightarrow> raise (HTTPException 400 ''Invalid pagination cursor format'')
          | Some (Some payload) \<Rightarrow>
              (case jget payload ''updated_at'' of
                 JInt t \<Rightarrow> ret (Some t)
               | j \<Rightarrow> if truthy j then raise (ValueError ''isoformat'') else ret None))
       (\<lambda>from. bnd (conv_service_list user limit from) (\<lambda>items.
     ret (items, list_cursor limit items, list_cursor limit items \<noteq> None)))"

definition api_branch_context :: "uuid \<Rightarrow> uuid \<Rightarrow> (world, json) prog" where
  "api_branch_context user cid = bnd (require_owner user cid) branch_context"

definition api_rename :: "uuid \<Rightarrow> uuid \<Rightarrow> string \<Rightarrow> uuid \<Rightarrow> uuid \<Rightarrow> string \<Rightarrow> (world, conversation option) prog" where
  "api_rename event_id fresh corr user cid title =
     bnd (require_owner user cid) (\<lambda>_. conv_service_rename event_id fresh corr cid title)"

definition api_archive :: "uuid \<Rightarrow> uuid \<Rightarrow> string \<Rightarrow> uuid \<Rightarrow> uuid \<Rightarrow> (world, conversation option) prog" where
  "api_archive event_id fresh corr user cid =
     bnd (require_owner user cid) (\<lambda>_. conv_service_archive event_id fresh corr cid)"

definition api_delete_conversation :: "uuid \<Rightarrow> uuid \<Rightarrow> string \<Rightarrow> uuid \<Rightarrow> uuid \<Rightarrow> (world, unit) prog" where
  "api_delete_conversation event_id fresh corr user cid =
     bnd (require_owner user cid) (\<lambda>_. bnd (conv_service_delete event_id fresh corr cid) (\<lambda>_. ret ()))"

section \<open>Preferences and custom modes\<close>

definition preferences_error :: "exn \<Rightarrow> exn" where
  "preferences_error e = (case e of
     PreferencesConflictError _ \<Rightarrow> HTTPException 409 ''Your settings were changed elsewhere. Reload and try again.''
   | UnknownCatalogItemError \<Rightarrow> HTTPException 422 ''invalid_preference''
   | InvalidDefaultModeError \<Rightarrow> HTTPException 422 ''invalid_preference''
   | _ \<Rightarrow> e)"

definition mode_error :: "exn \<Rightarrow> exn" where
  "mode_error e = (case e of
     CustomModeNameTakenError \<Rightarrow> HTTPException 409 ''name_taken''
   | CustomModeLimitError _ \<Rightarrow> HTTPException 409 ''limit_reached''
   | CustomModeNotFoundError \<Rightarrow> HTTPException 404 ''not_found''
   | CustomModeConflictError _ \<Rightarrow> HTTPException 409 ''version_conflict''
   | _ \<Rightarrow> e)"

text \<open>The routes: the request scope commits a normal answer and rolls back an exception.\<close>

definition pg_route :: "(exn \<Rightarrow> exn) \<Rightarrow> (pg, 'a) prog \<Rightarrow> (pg, 'a) prog" where
  "pg_route err m = transact (attempt m (\<lambda>e. raise (err e)))"

definition api_get_preferences :: "uuid \<Rightarrow> (pg, preferences_response) prog" where
  "api_get_preferences user = transact (prefs_service_get user)"

definition api_update_preferences ::
  "(nat \<Rightarrow> pg \<Rightarrow> pg) \<Rightarrow> catalog option \<Rightarrow> uuid \<Rightarrow> preferences_update \<Rightarrow> (pg, preferences_response) prog" where
  "api_update_preferences env cat user patch = pg_route preferences_error (prefs_service_update env cat user patch)"

definition api_reset_preferences :: "uuid \<Rightarrow> (pg, preferences_response) prog" where
  "api_reset_preferences user = transact (prefs_service_reset user)"

definition api_create_custom_mode ::
  "(string \<Rightarrow> string) \<Rightarrow> (string \<Rightarrow> string) \<Rightarrow> uuid \<Rightarrow> uuid \<Rightarrow> mode_create \<Rightarrow> (pg, mode_row) prog" where
  "api_create_custom_mode nfkc casefold new_id user body =
     pg_route mode_error (mode_service_create nfkc casefold new_id user body)"

definition api_list_custom_modes :: "uuid \<Rightarrow> bool \<Rightarrow> nat \<Rightarrow> nat \<Rightarrow> (pg, mode_row list \<times> nat) prog" where
  "api_list_custom_modes user include_archived limit offset =
     transact (mode_service_list user include_archived limit offset)"

definition api_get_custom_mode :: "uuid \<Rightarrow> uuid \<Rightarrow> (pg, mode_row) prog" where
  "api_get_custom_mode user mode = pg_route mode_error (mode_service_get user mode)"

definition api_update_custom_mode ::
  "(string \<Rightarrow> string) \<Rightarrow> (string \<Rightarrow> string) \<Rightarrow> uuid \<Rightarrow> uuid \<Rightarrow> mode_update \<Rightarrow> (pg, mode_row) prog" where
  "api_update_custom_mode nfkc casefold user mode body =
     pg_route mode_error (mode_service_update nfkc casefold user mode body)"

definition api_archive_custom_mode :: "uuid \<Rightarrow> uuid \<Rightarrow> (pg, mode_row) prog" where
  "api_archive_custom_mode user mode = pg_route mode_error (mode_service_archive user mode)"

section \<open>A stored answer reads back\<close>

lemma all_some_map: "all_some (map (\<lambda>x. f (g x)) xs) = Some xs" if "\<And>x. f (g x) = Some x"
  using that by (induction xs) simp_all

text \<open>What a client can see of a message in the answer of the send route: everything but the citations.\<close>

definition answer_view :: "message \<Rightarrow> message" where
  "answer_view m = m\<lparr>m_cites := []\<rparr>"

definition answerable :: "message \<Rightarrow> bool" where
  "answerable m \<longleftrightarrow> m_sender m \<noteq> None \<and> m_content m \<noteq> None \<and> m_created m \<noteq> None"

lemma cached_response:
  assumes "answerable m"
  shows "cached_message (response_data m) = Some (answer_view m)"
proof -
  have files: "all_some (map (uuid_of_json \<circ> (\<lambda>f. JStr (uuid_str f))) fs) = Some fs" for fs
    by (induction fs) (simp_all add: uuid_of_json_def parse_uuid_str)
  show ?thesis using assms
    by (cases m) (auto simp: answerable_def answer_view_def cached_message_def response_data_def jget_or_def opt_str_def
      opt_uuid_def text_of_def uuid_of_json_def [of "JStr _"] parse_uuid_str files split: option.splits)
qed

lemma response_not_processing [simp]: "response_data m \<noteq> processing"
  by (simp add: response_data_def processing_def)

section \<open>Ownership of a conversation\<close>

lemma require_owner_law:
  assumes "all_fresh w"
  shows "wp (require_owner user cid)
     (\<lambda>c w'. only_cache w w' \<and> all_fresh w' \<and> conv_at w cid = Some c \<and> cv_user c = user)
     (\<lambda>e w'. only_cache w w' \<and> all_fresh w') w"
  unfolding require_owner_def wp_bnd
  by (rule wp_mono [OF conv_service_get_fresh [OF assms]]) (auto simp: wp_simps split: option.splits)

lemma cache_set_conversation_calm:
  assumes "calm w"
  shows "wp (cache_set_conversation c) (\<lambda>_ w'. only_cache w w' \<and> calm w') (\<lambda>_ _. False) w"
  using assms by (simp add: cache_set_conversation_def when_redis_def wp_simps)
    (simp add: hset_conv_def expire_conv_def only_cache_def)

lemma conv_service_get_calm:
  assumes "calm w" and "all_fresh w" and "conv_at w cid = Some c"
  shows "wp (conv_service_get cid) (\<lambda>found w'. found = Some c \<and> only_cache w w' \<and> calm w') (\<lambda>_ _. False) w"
proof -
  obtain r where r: "w_conv w cid = Some r" "conversation_of cid r = Inr c"
    using assms(3) by (auto simp: conv_at_def split: option.splits sum.splits)
  have miss: "wp (bnd (conv_get cid) (\<lambda>found. case found of None \<Rightarrow> ret None
        | Some c \<Rightarrow> bnd (cache_set_conversation c) (\<lambda>_. ret (Some c))))
      (\<lambda>found w'. found = Some c \<and> only_cache w w' \<and> calm w') (\<lambda>_ _. False) w"
    using assms(1) r by (simp add: wp_simps wp_mono [OF cache_set_conversation_calm])
  have hit: "live (w_now w) (w_rconv w cid) \<in> {None, Some c}"
    using assms(2,3) by (cases "live (w_now w) (w_rconv w cid)") (auto simp: all_fresh_def conv_fresh_at)
  have "wp (cache_get_conversation cid) (\<lambda>h w'. w' = w \<and> h \<in> {None, Some c}) (\<lambda>_ _. False) w"
    using assms(1) hit by (auto simp: cache_get_conversation_def when_redis_def wp_simps)
  then show ?thesis unfolding conv_service_get_def wp_bnd
    by (rule wp_mono) (use miss assms(1) in \<open>auto simp: wp_simps\<close>)
qed

lemma require_owner_calm:
  assumes "calm w" and "all_fresh w" and "conv_at w cid = Some c"
  shows "wp (require_owner (cv_user c) cid) (\<lambda>r w'. r = c \<and> only_cache w w' \<and> calm w') (\<lambda>_ _. False) w"
  unfolding require_owner_def wp_bnd
  by (rule wp_mono [OF conv_service_get_calm [OF assms]]) (auto simp: wp_simps)

text \<open>Neither the cached copy nor the stored row of the conversation names the user as its owner.\<close>

definition stranger :: "uuid \<Rightarrow> uuid \<Rightarrow> world \<Rightarrow> bool" where
  "stranger user cid w \<longleftrightarrow>
     (case live (w_now w) (w_rconv w cid) of None \<Rightarrow> True | Some c \<Rightarrow> cv_user c \<noteq> user) \<and>
     (case w_conv w cid of None \<Rightarrow> True | Some r \<Rightarrow> cr_user r \<noteq> user)"

lemma stranger_refused:
  assumes "stranger user cid w"
  shows "wp (bnd (require_owner user cid) f) (\<lambda>_ _. False) (\<lambda>_ w'. only_cache w w') w"
  unfolding require_owner_def wp_bnd
  by (rule wp_mono [OF conv_service_get_frame])
     (use assms in \<open>auto simp: wp_simps stranger_def dest: conversation_of_user split: option.splits\<close>)

lemma stored_key_answers:
  assumes "calm w" and "w_redis_on w" and "parse_uuid k \<noteq> None" and "idem_of w k = Some (response_data m)" and "answerable m"
  shows "wp (with_key (Some k) send) (\<lambda>r w'. r = answer_view m \<and> w' = w) (\<lambda>_ _. False) w"
proof -
  have "k \<noteq> []" using assms(3) by auto
  then show ?thesis
    using assms by (simp add: with_key_def claim_key_def when_redis_def wp_simps cached_response)
qed

section \<open>Properties\<close>

text \<open>C21:
  Routes are owner-scoped: in a conversation that is missing or whose owner is someone else, no user can send,
  read, regenerate or delete messages, read the branch, rename, archive or delete the conversation. Every such request
  ends with an error and changes nothing but caches, whatever calls fail.
\<close>

theorem stranger_changes_nothing:
  assumes "stranger user cid w"
  shows "wp (api_create_message cand event_id corr prefs branching mid user cid rq key) (\<lambda>_ _. False) (\<lambda>_ w'. only_cache w w') w \<and>
    wp (api_history user cid limit cursor) (\<lambda>_ _. False) (\<lambda>_ w'. only_cache w w') w \<and>
    wp (api_regenerate cand request_id event_id corr prefs user cid mid) (\<lambda>_ _. False) (\<lambda>_ w'. only_cache w w') w \<and>
    wp (api_delete_message user cid mid) (\<lambda>_ _. False) (\<lambda>_ w'. only_cache w w') w \<and>
    wp (api_branch_context user cid) (\<lambda>_ _. False) (\<lambda>_ w'. only_cache w w') w \<and>
    wp (api_rename event_id fresh corr user cid title) (\<lambda>_ _. False) (\<lambda>_ w'. only_cache w w') w \<and>
    wp (api_archive event_id fresh corr user cid) (\<lambda>_ _. False) (\<lambda>_ w'. only_cache w w') w \<and>
    wp (api_delete_conversation event_id fresh corr user cid) (\<lambda>_ _. False) (\<lambda>_ w'. only_cache w w') w"
  unfolding api_create_message_def api_history_def api_regenerate_def api_delete_message_def api_branch_context_def
    api_rename_def api_archive_def api_delete_conversation_def
  by (intro conjI stranger_refused [OF assms])

definition foreign_conv_world :: world where
  "foreign_conv_world = (empty_world 5)\<lparr>w_conv := [2 \<mapsto> \<lparr>cr_user = 3, cr_title = ''t'', cr_created = 0, cr_updated = 0,
     cr_status = ''active'', cr_parent = None, cr_branch = None\<rparr>]\<rparr>"

theorem stranger_changes_nothing_witness:
  "wp (api_delete_message 1 2 7) (\<lambda>_ _. False) (\<lambda>_ w'. only_cache foreign_conv_world w') foreign_conv_world \<and>
   wp (api_rename 8 9 [] 1 2 ''mine'') (\<lambda>_ _. False) (\<lambda>_ w'. only_cache foreign_conv_world w') foreign_conv_world"
  using stranger_changes_nothing [of 1 2 foreign_conv_world _ 8 "[]" None True 7 _ None 0 None 0 9 "''mine''"]
  by (simp add: stranger_def foreign_conv_world_def empty_world_def)

text \<open>
  The answer stored under an idempotency key is the answer that was given: reading it back yields the same message (a
  sent message has no citations, and they are not stored).
\<close>

theorem stored_answer_reads_back:
  assumes "answerable m"
  shows "cached_message (response_data m) = Some (answer_view m)"
  by (rule cached_response) (rule assms)

definition sent_once :: message where
  "sent_once = \<lparr>m_conv = 2, m_id = 7, m_sender = Some ''user'', m_content = Some ''hi'', m_created = Some 5, m_status = SENT,
     m_files = [4, 6], m_cites = [], m_response = Some 8\<rparr>"

theorem stored_answer_reads_back_witness:
  "cached_message (response_data sent_once) = Some sent_once"
  using stored_answer_reads_back [of sent_once] by (simp add: sent_once_def answerable_def answer_view_def)

text \<open>
  A repeated idempotency key sends nothing: once an answer is stored under the key, a request with it gets that answer back
  and no message, event, pending entry or log record is added. The hypotheses tie the stored answer to the key alone:
  a request with another body, in another conversation or by another user is answered with it just the same.
\<close>

theorem repeated_key_repeats_answer:
  assumes "calm w" and "w_redis_on w" and "all_fresh w" and "conv_at w cid = Some c"
    and "parse_uuid k \<noteq> None" and "idem_of w k = Some (response_data m)" and "answerable m"
  shows "wp (api_create_message cand event_id corr prefs branching mid (cv_user c) cid rq (Some k))
    (\<lambda>r w'. r = answer_view m \<and> only_cache w w') (\<lambda>_ _. False) w"
  unfolding api_create_message_def wp_bnd
proof (rule wp_mono [OF require_owner_calm [OF assms(1,3,4)]], goal_cases)
  case (1 r w')
  then show ?case
    using assms by (intro wp_mono [OF stored_key_answers]) (auto simp: idem_of_def only_cacheD)
qed simp

definition replay_key :: string where
  "replay_key = uuid_str 5"

definition keyed_world :: world where
  "keyed_world = foreign_conv_world\<lparr>w_idem := [replay_key \<mapsto> (response_data sent_once, None)]\<rparr>"

definition foreign_conv :: conversation where
  "foreign_conv = \<lparr>cv_id = 2, cv_user = 3, cv_title = ''t'', cv_created = 0, cv_updated = 0,
      cv_status = ACTIVE, cv_parent = None, cv_branch = None\<rparr>"

theorem repeated_key_repeats_answer_witness:
  "wp (api_create_message (\<lambda>_. 1) 8 [] None True 9 (cv_user foreign_conv) 2 \<lparr>rq_content = ''other'', rq_mode = None,
       rq_tools = None, rq_diagrams = True, rq_files = None\<rparr> (Some replay_key))
    (\<lambda>r w'. r = answer_view sent_once \<and> only_cache keyed_world w') (\<lambda>_ _. False) keyed_world"
proof (rule repeated_key_repeats_answer)
  show "conv_at keyed_world 2 = Some foreign_conv"
    by (simp add: conv_at_def keyed_world_def foreign_conv_world_def conversation_of_def conv_status_of_def foreign_conv_def)
  show "parse_uuid replay_key \<noteq> None" by (simp add: replay_key_def parse_uuid_str)
qed (simp_all add: keyed_world_def foreign_conv_world_def empty_world_def calm_def all_fresh_def conv_fresh_def idem_of_def
    sent_once_def answerable_def)

end
