(* ===== verification/Fingerprint.thy ===== *)
theory Fingerprint
  imports Consumers
begin

text \<open>
  \<open>app/artifacts/fingerprint.py\<close>: the canonical text of a diagram or animation, its fingerprint, and the id and object
  keys derived from it. SHA-256 and the UUID derivation \<open>uuid5\<close> (SHA-1) are parameters: the code passes their results on
  and compares them, it does not compute with them. NFC is the identity on the characters modelled.
\<close>

definition SPEC_VERSION :: string where "SPEC_VERSION = ''1.0''"

fun normalise :: "nat \<Rightarrow> json \<Rightarrow> exn + json"
  and normalise_list :: "nat \<Rightarrow> json list \<Rightarrow> exn + json list"
  and normalise_items :: "nat \<Rightarrow> (string \<times> json) list \<Rightarrow> exn + (string \<times> json) list" where
  "normalise depth j =
     (if 12 < depth then Inl (ArtifactSpecError ''the specification is nested too deeply'')
      else case j of
        JObj kvs \<Rightarrow> (case normalise_items (depth + 1) kvs of Inl e \<Rightarrow> Inl e | Inr r \<Rightarrow> Inr (JObj (sort_keys r)))
      | JList xs \<Rightarrow> (case normalise_list (depth + 1) xs of Inl e \<Rightarrow> Inl e | Inr r \<Rightarrow> Inr (JList r))
      | _ \<Rightarrow> Inr j)"
| "normalise_list depth [] = Inr []"
| "normalise_list depth (x # xs) = (case normalise depth x of
     Inl e \<Rightarrow> Inl e
   | Inr y \<Rightarrow> (case normalise_list depth xs of Inl e \<Rightarrow> Inl e | Inr ys \<Rightarrow> Inr (y # ys)))"
| "normalise_items depth [] = Inr []"
| "normalise_items depth ((k, x) # kvs) = (case normalise depth x of
     Inl e \<Rightarrow> Inl e
   | Inr y \<Rightarrow> (case normalise_items depth kvs of Inl e \<Rightarrow> Inl e | Inr r \<Rightarrow> Inr ((k, y) # r)))"

definition ALLOWED_KEYS :: "string set" where
  "ALLOWED_KEYS = {''schema_version'', ''template'', ''title'', ''params''}"

definition canonical_manim_spec :: "json \<Rightarrow> nat \<Rightarrow> exn + string" where
  "canonical_manim_spec spec max_chars = (case spec of
     JObj kvs \<Rightarrow>
       if \<not> fst ` set kvs \<subseteq> ALLOWED_KEYS then Inl (ArtifactSpecError ''unknown field(s) in the specification'')
       else (case jget kvs ''template'' of
         JStr template \<Rightarrow>
           if strip template = [] then Inl (ArtifactSpecError ''the specification needs a template'')
           else (case jget_or kvs ''params'' (JObj []) of
             JObj params \<Rightarrow>
               (case jget_or kvs ''title'' (JStr []) of
                 JStr title \<Rightarrow>
                   (case normalise 0 (JObj params) of
                      Inl e \<Rightarrow> Inl e
                    | Inr p \<Rightarrow>
                        (let text = dumps (JObj
                               [(''schema_version'', JStr (py_str (jget_or kvs ''schema_version'' (JStr SPEC_VERSION)))),
                                (''template'', JStr (strip template)),
                                (''title'', JStr (squeeze title)), (''params'', p)])
                         in if max_chars < length text then Inl (ArtifactSpecError ''the specification is too large'')
                            else Inr text))
               | _ \<Rightarrow> Inl (ArtifactSpecError ''title must be text''))
           | _ \<Rightarrow> Inl (ArtifactSpecError ''params must be an object''))
       | _ \<Rightarrow> Inl (ArtifactSpecError ''the specification needs a template''))
   | _ \<Rightarrow> Inl (ArtifactSpecError ''the specification must be a JSON object''))"

text \<open>\<open>replace("\r\n", "\n").replace("\r", "\n")\<close>.\<close>

fun unify_newlines :: "string \<Rightarrow> string" where
  "unify_newlines [] = []"
| "unify_newlines (c # s) =
     (if c = CHR 13 then
        (case s of d # t \<Rightarrow> if d = CHR 10 then CHR 10 # unify_newlines t else CHR 10 # unify_newlines s
         | [] \<Rightarrow> [CHR 10])
      else c # unify_newlines s)"

definition strip_newlines :: "string \<Rightarrow> string" where
  "strip_newlines s = (let nl = (\<lambda>c. c = CHR 10) in rev (dropWhile nl (rev (dropWhile nl s))))"

definition tidy_lines :: "string \<Rightarrow> string" where
  "tidy_lines s = strip_newlines (join [CHR 10] (map rstrip (split_on (CHR 10) (unify_newlines s))))"

definition canonical_mermaid_source :: "json \<Rightarrow> nat \<Rightarrow> exn + string" where
  "canonical_mermaid_source source max_chars = (case source of
     JStr s \<Rightarrow>
       if strip s = [] then Inl (ArtifactSpecError ''the diagram source is empty'')
       else (let text = tidy_lines s in
         if strip text = [] then Inl (ArtifactSpecError ''the diagram source is empty'')
         else if max_chars < length text then Inl (ArtifactSpecError ''the diagram source is too large'')
         else Inr text)
   | _ \<Rightarrow> Inl (ArtifactSpecError ''the diagram source is empty''))"

definition compute_fingerprint :: "(string \<Rightarrow> string) \<Rightarrow> string \<Rightarrow> string \<Rightarrow> string \<Rightarrow> string \<Rightarrow> string" where
  "compute_fingerprint sha256 type canonical renderer quality =
     (let (rv, q) = (if type = ''mermaid'' then ([], []) else (renderer, quality))
      in sha256 (join [CHR 0x00] [''fp1'', type, rv, q, canonical]))"

definition artifact_id_for :: "(string \<Rightarrow> uuid) \<Rightarrow> uuid \<Rightarrow> string \<Rightarrow> string \<Rightarrow> uuid" where
  "artifact_id_for uuid5 owner type fp = uuid5 (uuid_str owner @ '':'' @ type @ '':'' @ fp)"

definition video_object_key :: "uuid \<Rightarrow> string" where
  "video_object_key i = ''artifacts/'' @ uuid_str i @ ''/video.mp4''"

definition thumbnail_object_key :: "uuid \<Rightarrow> string" where
  "thumbnail_object_key i = ''artifacts/'' @ uuid_str i @ ''/thumb.png''"

text \<open>
  The title. The code reads the animation's title back out of the canonical JSON text, which is the title
  \<open>canonical_manim_spec\<close> wrote into it; here it is an argument, \<open>None\<close> when the text does not parse.
\<close>

definition title_for :: "string \<Rightarrow> string \<Rightarrow> string option \<Rightarrow> string option \<Rightarrow> string" where
  "title_for type canonical spec_title supplied =
     (if supplied \<noteq> None \<and> strip (the supplied) \<noteq> [] then take 200 (squeeze (the supplied))
      else if type = ''manim'' then
        (case spec_title of None \<Rightarrow> ''Animation'' | Some t \<Rightarrow> take 200 (if t = [] then ''Animation'' else t))
      else
        (let lines = filter (\<lambda>l. l \<noteq> [] \<and> \<not> starts_with ''%%'' l) (map strip (split_on (CHR 10) canonical));
             kind = (case lines of [] \<Rightarrow> ''diagram'' | l # _ \<Rightarrow> hd (words l))
         in take 200 (''Mermaid '' @ kind)))"

definition spec_title_of :: "json \<Rightarrow> string option" where
  "spec_title_of spec = (case spec of
     JObj kvs \<Rightarrow> (case jget_or kvs ''title'' (JStr []) of JStr t \<Rightarrow> Some (squeeze t) | _ \<Rightarrow> None)
   | _ \<Rightarrow> None)"

section \<open>Canonical diagrams\<close>

lemma unify_no_cr: "CHR 13 \<notin> set (unify_newlines s)"
  by (induction s rule: unify_newlines.induct) (auto split: list.splits)

lemma unify_id: "CHR 13 \<notin> set s \<Longrightarrow> unify_newlines s = s"
  by (induction s rule: unify_newlines.induct) auto

end
