(* ===== verification/Media.thy ===== *)
theory Media
  imports Uuids
begin

text \<open>
  \<open>app/artifacts/media.py\<close>: the check a rendered video must pass before it is stored or served. The file is the list of
  its bytes; sizes are read from it big-endian, as \<open>struct.unpack\<close> does. SHA-256 is a parameter of the model: the code
  only passes the digest on.
\<close>

definition MIN_MP4_BYTES :: nat where "MIN_MP4_BYTES = 1024"

section \<open>The boxes of a file\<close>

text \<open>The header at \<open>pos\<close>: the size of the box, the least size its form allows, its type.\<close>

definition box_header :: "byte list \<Rightarrow> nat \<Rightarrow> string + nat \<times> nat \<times> byte list" where
  "box_header f pos =
     (let header = take 8 (drop pos f) in
      if length header < 8 then Inl ''truncated box header''
      else let n = be_val (take 4 header); t = drop 4 header in
        if n = 1 then
          (let ext = take 8 (drop (pos + 8) f) in
           if length ext < 8 then Inl ''truncated box header'' else Inr (be_val ext, 16, t))
        else if n = 0 then Inr (length f - pos, 8, t)
        else Inr (n, 8, t))"

lemma box_header_least: "box_header f pos = Inr (sz, least, t) \<Longrightarrow> 0 < least"
  by (auto simp: box_header_def Let_def split: if_splits)

function walk_boxes :: "byte list \<Rightarrow> nat \<Rightarrow> byte list list \<Rightarrow> string + byte list list" where
  "walk_boxes f pos seen =
     (if length f \<le> pos then Inr seen
      else case box_header f pos of
        Inl e \<Rightarrow> Inl e
      | Inr (sz, least, t) \<Rightarrow>
          if sz < least \<or> length f < pos + sz then Inl ''box exceeds file bounds''
          else walk_boxes f (pos + sz) (seen @ [t]))"
  by pat_completeness auto

termination
proof (relation "measure (\<lambda>(f, pos, _). length f - pos)", goal_cases)
  case (2 f pos seen r sz q least t)
  then show ?case using box_header_least [of f pos sz least t] by auto
qed simp

declare walk_boxes.simps [simp del]

definition ascii :: "string \<Rightarrow> byte list" where
  "ascii s = map (\<lambda>c. word_of_nat (of_char c)) s"

definition boxes_of :: "byte list \<Rightarrow> string + byte list list" where
  "boxes_of f = (case walk_boxes f 0 [] of
     Inl e \<Rightarrow> Inl e
   | Inr seen \<Rightarrow> if seen = [] \<or> hd seen \<noteq> ascii ''ftyp'' then Inl ''not an MP4 (missing ftyp)'' else Inr seen)"

record media_info =
  mi_size :: nat
  mi_sha :: string

definition validate_mp4 :: "(byte list \<Rightarrow> string) \<Rightarrow> nat \<Rightarrow> byte list option \<Rightarrow> string + media_info" where
  "validate_mp4 sha256 max_bytes file = (case file of
     None \<Rightarrow> Inl ''unreadable''
   | Some f \<Rightarrow>
       if length f < MIN_MP4_BYTES then Inl ''too small''
       else if max_bytes < length f then Inl ''too large''
       else case boxes_of f of
         Inl e \<Rightarrow> Inl e
       | Inr boxes \<Rightarrow>
           if ascii ''moov'' \<notin> set boxes \<or> ascii ''mdat'' \<notin> set boxes then Inl ''missing moov/mdat''
           else Inr \<lparr>mi_size = length f, mi_sha = sha256 f\<rparr>)"

section \<open>Big-endian numbers\<close>

lemma be_val_bytes: "n < 256 ^ k \<Longrightarrow> be_val (be_bytes k n) = n"
  by (simp add: be_val_be_bytes)

lemma be_bytes_val: "be_bytes (length bs) (be_val bs) = bs"
proof (induction bs rule: rev_induct)
  case (snoc b bs)
  have "unat b < 256" using unsigned_less [of b] by simp
  then have "(256 * be_val bs + unat b) div 256 = be_val bs" by simp
  moreover have "unat (word_of_nat (256 * be_val bs + unat b) :: byte) = (256 * be_val bs + unat b) mod 2 ^ LENGTH(8)"
    by (rule unat_of_nat)
  then have "(word_of_nat (256 * be_val bs + unat b) :: byte) = b"
    using \<open>unat b < 256\<close> by (intro word_unat_eq_iff [THEN iffD2]) (simp del: of_nat_add of_nat_mult)
  ultimately show ?case using snoc by simp
qed simp

section \<open>The file format\<close>

text \<open>
  A box has a type of four bytes and a payload. Its size field holds its length, or 1 when eight more bytes hold it, or 0
  when the box is the rest of the file. A file is a sequence of boxes.
\<close>

datatype box = Short "byte list" "byte list" | Long "byte list" "byte list" | Rest "byte list" "byte list"

fun box_type :: "box \<Rightarrow> byte list" where
  "box_type (Short t p) = t"
| "box_type (Long t p) = t"
| "box_type (Rest t p) = t"

fun encode_box :: "box \<Rightarrow> byte list" where
  "encode_box (Short t p) = be_bytes 4 (8 + length p) @ t @ p"
| "encode_box (Long t p) = be_bytes 4 1 @ t @ be_bytes 8 (16 + length p) @ p"
| "encode_box (Rest t p) = be_bytes 4 0 @ t @ p"

fun box_ok :: "box \<Rightarrow> bool" where
  "box_ok (Short t p) = (length t = 4 \<and> 8 + length p < 256 ^ 4)"
| "box_ok (Long t p) = (length t = 4 \<and> 16 + length p < 256 ^ 8)"
| "box_ok (Rest t p) = (length t = 4)"

fun is_rest :: "box \<Rightarrow> bool" where
  "is_rest (Rest t p) = True"
| "is_rest b = False"

fun file_ok :: "box list \<Rightarrow> bool" where
  "file_ok [] = True"
| "file_ok (b # bs) = (box_ok b \<and> (is_rest b \<longrightarrow> bs = []) \<and> file_ok bs)"

definition encode_file :: "box list \<Rightarrow> byte list" where
  "encode_file bs = concat (map encode_box bs)"

lemma encode_file_simps [simp]: "encode_file [] = []" "encode_file (b # bs) = encode_box b @ encode_file bs"
  by (simp_all add: encode_file_def)

lemma encode_box_length: "box_ok b \<Longrightarrow> 8 \<le> length (encode_box b)"
  by (cases b) auto

text \<open>Reading the header of an encoded box.\<close>

lemma header_of_box:
  assumes "drop pos f = encode_box b @ rest" and "box_ok b" and "is_rest b \<Longrightarrow> rest = []"
  shows "\<exists>least. box_header f pos = Inr (length (encode_box b), least, box_type b) \<and> least \<le> length (encode_box b)"
proof (cases b)
  case (Short t p)
  then have "be_val (be_bytes 4 (8 + length p)) = 8 + length p" using assms(2) by (intro be_val_bytes) simp
  then show ?thesis using assms by (simp add: Short box_header_def Let_def)
next
  case (Long t p)
  have "be_val (be_bytes 8 (16 + length p)) = 16 + length p" using assms(2) by (intro be_val_bytes) (simp add: Long)
  moreover have "be_val (be_bytes 4 1) = 1" by (rule be_val_bytes) simp
  moreover have "drop 8 (drop pos f) = be_bytes 8 (16 + length p) @ p @ rest"
    unfolding assms(1) using assms(2) by (simp add: Long)
  then have "drop (pos + 8) f = be_bytes 8 (16 + length p) @ p @ rest" by (simp add: add.commute)
  ultimately show ?thesis using assms(1,2) by (simp add: Long box_header_def Let_def)
next
  case (Rest t p)
  have "be_val (be_bytes 4 0) = 0" by (rule be_val_bytes) simp
  moreover have "length f - pos = length (encode_box b)" using arg_cong [OF assms(1), of length] assms(3) Rest by simp
  ultimately show ?thesis using assms by (simp add: Rest box_header_def Let_def)
qed

lemma walk_encoded:
  assumes "drop pos f = encode_file bs" and "pos \<le> length f" and "file_ok bs"
  shows "walk_boxes f pos seen = Inr (seen @ map box_type bs)"
  using assms
proof (induction bs arbitrary: pos seen)
  case Nil
  then show ?case by (simp add: walk_boxes.simps)
next
  case (Cons b bs)
  have d: "drop pos f = encode_box b @ encode_file bs" using Cons.prems(1) by simp
  obtain least where h: "box_header f pos = Inr (length (encode_box b), least, box_type b)" "least \<le> length (encode_box b)"
    using header_of_box [OF d] Cons.prems(3) by auto
  have len: "pos + length (encode_box b) + length (encode_file bs) = length f"
    using arg_cong [OF d, of length] Cons.prems(2) by simp
  moreover have "drop (pos + length (encode_box b)) f = encode_file bs"
    by (subst add.commute) (simp add: d flip: drop_drop)
  moreover have "8 \<le> length (encode_box b)" using Cons.prems(3) by (intro encode_box_length) simp
  ultimately show ?case using Cons.IH [of "pos + length (encode_box b)"] Cons.prems(3) h
    by (subst walk_boxes.simps) simp
qed

text \<open>Every accepted header starts an encoded box.\<close>

lemma box_of_header:
  assumes "box_header f pos = Inr (sz, least, t)" and "least \<le> sz" and "pos + sz \<le> length f"
  obtains b where "box_ok b" and "take sz (drop pos f) = encode_box b" and "box_type b = t"
    and "is_rest b \<Longrightarrow> pos + sz = length f"
proof -
  define header where "header = take 8 (drop pos f)"
  have len: "length header = 8" using assms(1) by (auto simp: box_header_def header_def Let_def split: if_splits)
  have t: "t = drop 4 header" using assms(1) by (auto simp: box_header_def header_def Let_def split: if_splits)
  have t4: "length t = 4" using len t by simp
  define n where "n = be_val (take 4 header)"
  have n: "be_bytes 4 n = take 4 header" using be_bytes_val [of "take 4 header"] len by (simp add: n_def)
  have split8: "drop pos f = be_bytes 4 n @ t @ drop (pos + 8) f"
    using append_take_drop_id [of 8 "drop pos f"] append_take_drop_id [of 4 header]
    by (simp add: n t add.commute flip: header_def append_assoc)
  define body where "body = take (sz - 8) (drop (pos + 8) f)"
  have size8: "8 \<le> sz" using assms(1,2) by (auto simp: box_header_def Let_def split: if_splits)
  have whole: "take sz (drop pos f) = be_bytes 4 n @ t @ body" and body: "length body = sz - 8"
    using size8 t4 assms(3) by (simp_all add: split8 body_def)
  consider (long) "n = 1" | (rest) "n = 0" | (short) "n \<noteq> 0" "n \<noteq> 1" by blast
  then show ?thesis
  proof cases
    case long
    define ext where "ext = take 8 (drop (pos + 8) f)"
    have e: "length ext = 8" "be_val ext = sz" "least = 16"
      using assms(1) long by (auto simp: box_header_def Let_def ext_def n_def header_def split: if_splits)
    have "be_bytes 8 sz = ext" using be_bytes_val [of ext] e by simp
    moreover have "body = ext @ drop 8 body"
      using append_take_drop_id [of 8 body] assms(2) e(3) by (simp add: body_def ext_def min_absorb1)
    moreover have "16 + length (drop 8 body) = sz" using assms(2) e(3) body by simp
    ultimately have "take sz (drop pos f) = encode_box (Long t (drop 8 body))" using whole long by simp
    moreover have "sz < 256 ^ 8" using be_val_less [of ext] e by simp
    then have "box_ok (Long t (drop 8 body))" using t4 \<open>16 + length (drop 8 body) = sz\<close> by simp
    ultimately show ?thesis using that [of "Long t (drop 8 body)"] by simp
  next
    case rest
    then have "sz = length f - pos" using assms(1) by (auto simp: box_header_def Let_def n_def header_def split: if_splits)
    then show ?thesis using that [of "Rest t body"] whole rest t4 assms(3) by simp
  next
    case short
    then have "sz = n" using assms(1) by (auto simp: box_header_def Let_def n_def header_def split: if_splits)
    moreover have "n < 256 ^ 4" using be_val_less [of "take 4 header"] len by (simp add: n_def)
    ultimately show ?thesis using that [of "Short t body"] whole t4 body size8 by simp
  qed
qed

lemma encoded_of_walk:
  assumes "walk_boxes f pos seen = Inr ts" and "pos \<le> length f"
  shows "\<exists>bs. file_ok bs \<and> drop pos f = encode_file bs \<and> ts = seen @ map box_type bs"
  using assms
proof (induction f pos seen rule: walk_boxes.induct)
  case (1 f pos seen)
  show ?case
  proof (cases "pos = length f")
    case True
    then show ?thesis using 1(2) by (intro exI [of _ "[]"]) (simp add: walk_boxes.simps)
  next
    case False
    then have more: "\<not> length f \<le> pos" using 1(3) by simp
    obtain sz least t where h: "box_header f pos = Inr (sz, least, t)" and fits: "\<not> (sz < least \<or> length f < pos + sz)"
      and rec: "walk_boxes f (pos + sz) (seen @ [t]) = Inr ts"
      using 1(2) more by (subst (asm) walk_boxes.simps) (auto split: sum.splits prod.splits if_splits)
    obtain b where b: "box_ok b" "take sz (drop pos f) = encode_box b" "box_type b = t" "is_rest b \<Longrightarrow> pos + sz = length f"
      using box_of_header [OF h] fits by auto
    obtain bs where bs: "file_ok bs" "drop (pos + sz) f = encode_file bs" "ts = (seen @ [t]) @ map box_type bs"
      using 1(1) [OF more h refl refl fits rec] fits by auto
    have "bs = []" if "is_rest b"
      using bs(1,2) b(4) [OF that] encode_box_length by (cases bs) fastforce+
    moreover have "drop pos f = encode_box b @ encode_file bs"
      using append_take_drop_id [of sz "drop pos f"] b(2) bs(2) by (simp add: add.commute)
    ultimately show ?thesis using b bs by (intro exI [of _ "b # bs"]) simp
  qed
qed

lemma walk_iff:
  "walk_boxes f 0 [] = Inr ts \<longleftrightarrow> (\<exists>bs. file_ok bs \<and> f = encode_file bs \<and> ts = map box_type bs)"
  using encoded_of_walk [of f 0 "[]" ts] walk_encoded [of 0 f _ "[]"] by auto

lemma boxes_of_encoded:
  "file_ok bs \<Longrightarrow> bs \<noteq> [] \<Longrightarrow> box_type (hd bs) = ascii ''ftyp'' \<Longrightarrow> boxes_of (encode_file bs) = Inr (map box_type bs)"
  using walk_encoded [of 0 "encode_file bs" bs "[]"] by (simp add: boxes_of_def hd_map)

text \<open>A smallest video: 1024 bytes in three boxes.\<close>

definition small_boxes :: "box list" where
  "small_boxes = [Short (ascii ''ftyp'') (replicate 1000 0), Short (ascii ''moov'') [], Short (ascii ''mdat'') []]"

definition small_video :: "byte list" where
  "small_video = encode_file small_boxes"

lemma length_small_video: "length small_video = 1024"
  by (simp add: small_video_def small_boxes_def ascii_def)

lemma small_video_valid:
  "1024 \<le> n \<Longrightarrow> validate_mp4 sha n (Some small_video) = Inr \<lparr>mi_size = 1024, mi_sha = sha small_video\<rparr>"
proof -
  assume n: "1024 \<le> n"
  have "boxes_of small_video = Inr (map box_type small_boxes)"
    unfolding small_video_def by (rule boxes_of_encoded) (simp_all add: small_boxes_def ascii_def)
  then show ?thesis using n
    by (simp add: validate_mp4_def length_small_video MIN_MP4_BYTES_def) (simp add: small_boxes_def)
qed

text \<open>C22:
  The check accepts exactly the well-formed videos: a file of 1024 to max_bytes bytes that is a sequence of complete
  boxes, each with the size its header declares, of which the first is ftyp and some are moov and mdat. Every
  other file (truncated, garbage, of the wrong size) is refused, and the walk over the boxes always ends.
\<close>

theorem validate_mp4_accepts_exactly:
  "validate_mp4 sha256 max_bytes (Some f) = Inr info \<longleftrightarrow>
     (\<exists>bs. file_ok bs \<and> f = encode_file bs \<and> bs \<noteq> [] \<and> box_type (hd bs) = ascii ''ftyp'' \<and>
        ascii ''moov'' \<in> set (map box_type bs) \<and> ascii ''mdat'' \<in> set (map box_type bs)) \<and>
     1024 \<le> length f \<and> length f \<le> max_bytes \<and> info = \<lparr>mi_size = length f, mi_sha = sha256 f\<rparr>"
proof -
  have read: "boxes_of f = Inr ts \<longleftrightarrow> (\<exists>bs. file_ok bs \<and> f = encode_file bs \<and> bs \<noteq> [] \<and> box_type (hd bs) = ascii ''ftyp'' \<and>
      ts = map box_type bs)" for ts
    using walk_iff [of f ts] by (auto simp: boxes_of_def hd_map split: sum.split)
  have "(\<exists>bs. file_ok bs \<and> f = encode_file bs \<and> bs \<noteq> [] \<and> box_type (hd bs) = ascii ''ftyp'' \<and>
        ascii ''moov'' \<in> set (map box_type bs) \<and> ascii ''mdat'' \<in> set (map box_type bs)) \<longleftrightarrow>
      (\<exists>ts. boxes_of f = Inr ts \<and> ascii ''moov'' \<in> set ts \<and> ascii ''mdat'' \<in> set ts)"
    unfolding read by blast
  then show ?thesis
    by (cases "boxes_of f") (auto simp: validate_mp4_def MIN_MP4_BYTES_def not_less)
qed

end
