(* ===== verification/Artifacts.thy ===== *)
theory Artifacts
  imports Fingerprint Media "HOL-Library.Sublist"
begin

text \<open>
  \<open>app/artifacts/service.py\<close>: the artifact registry and the render lifecycle. The state \<open>studio\<close> holds the tables of
  \<open>app/models/artifact_models.py\<close> (artifacts, their references, and the export jobs of \<open>app/exports\<close>), the object store, the clock, the schedule of failing calls (as for \<open>world\<close>),
  and the answers the render backend is going to give, one per call (\<open>app/artifacts/render_backend.py\<close> turns a response of
  the llm-service into one of them; no more answers means it is unavailable). A database transaction is one call.
  \<open>st_checks\<close> says whether the database has the column widths and checks of the migrations: then it refuses a row that breaks
  one of them. Without them it takes any value, so what the service writes by itself can be told from what the database refuses.
\<close>

definition ARTIFACT_LEASE_SECONDS :: int where "ARTIFACT_LEASE_SECONDS = 60"
definition ARTIFACT_MAX_AUTO_ATTEMPTS :: nat where "ARTIFACT_MAX_AUTO_ATTEMPTS = 3"
definition ARTIFACT_MAX_MANUAL_RETRIES :: nat where "ARTIFACT_MAX_MANUAL_RETRIES = 5"
definition ARTIFACT_MAX_ACTIVE_SECONDS :: int where "ARTIFACT_MAX_ACTIVE_SECONDS = 900"
definition ARTIFACT_MAX_VIDEO_BYTES :: nat where "ARTIFACT_MAX_VIDEO_BYTES = 52428800"
definition ARTIFACT_MAX_MANIM_SPEC_CHARS :: nat where "ARTIFACT_MAX_MANIM_SPEC_CHARS = 4000"
definition ARTIFACT_MAX_MERMAID_CHARS :: nat where "ARTIFACT_MAX_MERMAID_CHARS = 8000"
definition ARTIFACT_RENDER_QUALITY :: string where "ARTIFACT_RENDER_QUALITY = ''l''"
definition MAX_THUMBNAIL_BYTES :: nat where "MAX_THUMBNAIL_BYTES = 2097152"
definition BACKOFF_SECONDS :: int where "BACKOFF_SECONDS = 10"

definition TERMINAL :: "string list" where "TERMINAL = [''ready'', ''failed'']"
definition ACTIVE_STATES :: "string list" where "ACTIVE_STATES = [''pending'', ''queued'', ''rendering'', ''uploading'']"

section \<open>The state\<close>

record artifact =
  ar_id :: uuid
  ar_owner :: uuid
  ar_type :: string
  ar_title :: string
  ar_fp :: string
  ar_spec :: string
  ar_status :: string
  ar_job :: "string option"
  ar_key :: "string option"
  ar_thumb :: "string option"
  ar_mime :: "string option"
  ar_size :: "nat option"
  ar_sha :: "string option"
  ar_renderer :: string
  ar_failure :: "string option"
  ar_attempts :: nat
  ar_retries :: nat
  ar_lease :: "int option"
  ar_conv :: uuid
  ar_msg :: uuid
  ar_created :: int
  ar_updated :: int

record artifact_ref =
  af_id :: uuid
  af_conv :: uuid
  af_msg :: uuid
  af_block :: string
  af_owner :: uuid
  af_created :: int

record stored_object =
  so_bytes :: "byte list"
  so_type :: string
  so_modified :: int

record export_job =
  xj_id :: uuid
  xj_owner :: uuid
  xj_conv :: uuid
  xj_scope :: string
  xj_format :: string
  xj_media :: bool
  xj_request :: string
  xj_snapshot :: "(string \<times> string) list"
  xj_status :: string
  xj_done :: nat
  xj_total :: nat
  xj_object :: "string option"
  xj_file :: "string option"
  xj_type :: "string option"
  xj_size :: "nat option"
  xj_sha :: "string option"
  xj_failure :: "string option"
  xj_attempts :: nat
  xj_lease :: "int option"
  xj_expires :: "int option"
  xj_created :: int
  xj_updated :: int

datatype reply =
    JobIs string string "string option"
  | NoJob
  | Bytes "byte list"
  | NoFile
  | Rejected string
  | Unavailable

record studio =
  st_now :: int
  st_sched :: "fault list"
  st_replies :: "reply list"
  st_renderer :: string
  st_rows :: "artifact list"
  st_refs :: "artifact_ref list"
  st_jobs :: "export_job list"
  st_objs :: "string \<Rightarrow> stored_object option"
  st_checks :: bool

definition st_fault :: "studio \<Rightarrow> fault" where
  "st_fault s = (case st_sched s of [] \<Rightarrow> Okay | f # _ \<Rightarrow> f)"

definition st_pop :: "studio \<Rightarrow> studio" where
  "st_pop s = s\<lparr>st_sched := tl (st_sched s)\<rparr>"

text \<open>A transaction of the database, and a call of the object store.\<close>

definition txn :: "(studio \<Rightarrow> (exn + 'a) \<times> studio) \<Rightarrow> (studio, 'a) prog" where
  "txn body = (\<lambda>s. case st_fault s of
     Okay \<Rightarrow> body (st_pop s)
   | Refused \<Rightarrow> (Inl DbError, st_pop s)
   | Lost \<Rightarrow> (Inl DbError, snd (body (st_pop s))))"

definition store_call :: "(studio \<Rightarrow> (exn + 'a) \<times> studio) \<Rightarrow> (studio, 'a) prog" where
  "store_call body = (\<lambda>s. case st_fault s of
     Okay \<Rightarrow> body (st_pop s)
   | Refused \<Rightarrow> (Inl StorageError, st_pop s)
   | Lost \<Rightarrow> (Inl StorageError, snd (body (st_pop s))))"

text \<open>A call of the render backend takes the next answer.\<close>

definition ask_backend :: "(reply \<Rightarrow> exn + 'a) \<Rightarrow> (studio, 'a) prog" where
  "ask_backend f = (\<lambda>s. (f (case st_replies s of [] \<Rightarrow> Unavailable | r # _ \<Rightarrow> r), s\<lparr>st_replies := tl (st_replies s)\<rparr>))"

section \<open>The object store\<close>

definition store_stat :: "string \<Rightarrow> (studio, nat option) prog" where
  "store_stat key = store_call (\<lambda>s. (Inr (map_option (\<lambda>o'. length (so_bytes o')) (st_objs s key)), s))"

definition store_get :: "string \<Rightarrow> (studio, byte list) prog" where
  "store_get key = store_call (\<lambda>s. (case st_objs s key of None \<Rightarrow> Inl FileNotFoundError | Some o' \<Rightarrow> Inr (so_bytes o'), s))"

definition store_put :: "string \<Rightarrow> byte list \<Rightarrow> string \<Rightarrow> (studio, unit) prog" where
  "store_put key bytes type = store_call (\<lambda>s. (Inr (),
     s\<lparr>st_objs := (st_objs s)(key \<mapsto> \<lparr>so_bytes = bytes, so_type = type, so_modified = st_now s\<rparr>)\<rparr>))"

definition store_delete :: "string \<Rightarrow> (studio, unit) prog" where
  "store_delete key = store_call (\<lambda>s. (Inr (), s\<lparr>st_objs := (st_objs s)(key := None)\<rparr>))"

section \<open>The render backend\<close>

definition backend_submit :: "(studio, string) prog" where
  "backend_submit = ask_backend (\<lambda>r. case r of
     JobIs job state failure \<Rightarrow> Inr job | Rejected code \<Rightarrow> Inl (RenderRejected code) | _ \<Rightarrow> Inl RenderUnavailable)"

definition backend_status :: "(studio, (string \<times> string option) option) prog" where
  "backend_status = ask_backend (\<lambda>r. case r of
     JobIs job state failure \<Rightarrow> Inr (Some (state, failure)) | NoJob \<Rightarrow> Inr None | _ \<Rightarrow> Inl RenderUnavailable)"

definition backend_download :: "(studio, byte list) prog" where
  "backend_download = ask_backend (\<lambda>r. case r of
     Bytes bs \<Rightarrow> if ARTIFACT_MAX_VIDEO_BYTES < length bs then Inl (RenderRejected ''resource_limit'') else Inr bs
   | NoFile \<Rightarrow> Inl FileNotFoundError | _ \<Rightarrow> Inl RenderUnavailable)"

definition backend_thumbnail :: "(studio, byte list option) prog" where
  "backend_thumbnail = ask_backend (\<lambda>r. case r of
     Bytes bs \<Rightarrow> Inr (if MAX_THUMBNAIL_BYTES < length bs then None else Some bs) | _ \<Rightarrow> Inr None)"

section \<open>Registration and reads\<close>

definition find_artifact :: "uuid \<Rightarrow> studio \<Rightarrow> artifact option" where
  "find_artifact i s = find (\<lambda>r. ar_id r = i) (st_rows s)"

text \<open>The widths of the columns and the check constraints of the table.\<close>

definition fits :: "nat \<Rightarrow> string option \<Rightarrow> bool" where
  "fits n t = (case t of None \<Rightarrow> True | Some s \<Rightarrow> length s \<le> n)"

definition row_checks :: "artifact \<Rightarrow> bool" where
  "row_checks a \<longleftrightarrow> ar_type a \<in> {''mermaid'', ''manim''} \<and> ar_status a \<in> set (ACTIVE_STATES @ TERMINAL) \<and>
     length (ar_title a) \<le> 200 \<and> length (ar_fp a) = 64 \<and> length (ar_spec a) \<le> 20000 \<and>
     fits 64 (ar_job a) \<and> fits 255 (ar_key a) \<and> fits 255 (ar_thumb a) \<and> fits 64 (ar_mime a) \<and> fits 64 (ar_sha a) \<and>
     length (ar_renderer a) \<le> 64 \<and> fits 48 (ar_failure a) \<and>
     (ar_type a = ''manim'' \<and> ar_status a = ''ready'' \<longrightarrow>
        ar_key a \<noteq> None \<and> ar_sha a \<noteq> None \<and> (case ar_size a of None \<Rightarrow> False | Some n \<Rightarrow> 0 < n))"

text \<open>
  The transaction of \<open>register\<close>: the row is inserted unless its id or its (owner, type, fingerprint) is taken, the
  reference unless it exists; then the row is read back by its id (when there is none, the foreign key of the
  reference is broken, and where no constraint notices, the reading back fails).
\<close>

definition taken_by :: "artifact \<Rightarrow> artifact \<Rightarrow> bool" where
  "taken_by a r \<longleftrightarrow> ar_id r = ar_id a \<or> (ar_owner r = ar_owner a \<and> ar_type r = ar_type a \<and> ar_fp r = ar_fp a)"

definition same_ref :: "artifact_ref \<Rightarrow> artifact_ref \<Rightarrow> bool" where
  "same_ref f g \<longleftrightarrow> af_id f = af_id g \<and> af_conv f = af_conv g \<and> af_msg f = af_msg g \<and> af_block f = af_block g"

definition register_txn :: "artifact \<Rightarrow> artifact_ref \<Rightarrow> studio \<Rightarrow> (exn + artifact \<times> bool) \<times> studio" where
  "register_txn a ref s =
     (let taken = list_ex (taken_by a) (st_rows s);
          rows = (if taken then st_rows s else st_rows s @ [a]);
          refs = (if list_ex (same_ref ref) (st_refs s) then st_refs s else st_refs s @ [ref])
      in if st_checks s \<and> \<not> row_checks a then (Inl DbError, s)
         else case find (\<lambda>r. ar_id r = ar_id a) rows of
           None \<Rightarrow> (Inl (if st_checks s then DbError else LookupError ''No row was found when one was required''), s)
         | Some row \<Rightarrow> (Inr (row, \<not> taken), s\<lparr>st_rows := rows, st_refs := refs\<rparr>))"

definition canonical_content :: "string \<Rightarrow> json \<Rightarrow> exn + string" where
  "canonical_content type content =
     (if type = ''mermaid'' then canonical_mermaid_source content ARTIFACT_MAX_MERMAID_CHARS
      else if type = ''manim'' then canonical_manim_spec content ARTIFACT_MAX_MANIM_SPEC_CHARS
      else Inl (ArtifactSpecError ''unsupported artifact type''))"

definition register ::
  "(string \<Rightarrow> string) \<Rightarrow> (string \<Rightarrow> uuid) \<Rightarrow> uuid \<Rightarrow> uuid \<Rightarrow> uuid \<Rightarrow> string \<Rightarrow> json \<Rightarrow> string \<Rightarrow> string option
   \<Rightarrow> (studio, artifact \<times> bool) prog" where
  "register sha256 uuid5 owner cid mid type content block title =
     bnd (lift_result (canonical_content type content)) (\<lambda>canonical.
     bnd (getting st_renderer) (\<lambda>version.
     bnd (getting st_now) (\<lambda>now.
     let rv = (if type = ''mermaid'' then [] else version);
         quality = (if type = ''mermaid'' then [] else ARTIFACT_RENDER_QUALITY);
         fp = compute_fingerprint sha256 type canonical rv quality;
         i = artifact_id_for uuid5 owner type fp
     in txn (register_txn
          \<lparr>ar_id = i, ar_owner = owner, ar_type = type, ar_title = title_for type canonical (spec_title_of content) title,
           ar_fp = fp, ar_spec = canonical, ar_status = (if type = ''mermaid'' then ''ready'' else ''pending''),
           ar_job = None, ar_key = None, ar_thumb = None, ar_mime = None, ar_size = None, ar_sha = None,
           ar_renderer = (if rv = [] then [] else rv @ '':'' @ quality), ar_failure = None, ar_attempts = 0,
           ar_retries = 0, ar_lease = None, ar_conv = cid, ar_msg = mid, ar_created = now, ar_updated = now\<rparr>
          \<lparr>af_id = i, af_conv = cid, af_msg = mid, af_block = take 64 block, af_owner = owner, af_created = now\<rparr>))))"

definition artifact_get :: "uuid \<Rightarrow> uuid \<Rightarrow> (studio, artifact option) prog" where
  "artifact_get owner i = txn (\<lambda>s. (Inr (find (\<lambda>r. ar_id r = i \<and> ar_owner r = owner) (st_rows s)), s))"

definition artifact_lookup ::
  "(string \<Rightarrow> string) \<Rightarrow> uuid \<Rightarrow> string \<Rightarrow> string \<Rightarrow> string \<Rightarrow> string \<Rightarrow> (studio, artifact option) prog" where
  "artifact_lookup sha256 owner type canonical version quality =
     (let fp = compute_fingerprint sha256 type canonical version quality in
      txn (\<lambda>s. (Inr (find (\<lambda>r. ar_owner r = owner \<and> ar_type r = type \<and> ar_fp r = fp) (st_rows s)), s)))"

text \<open>
  \<open>list_for_conversations\<close>: per artifact and conversation the first reference by time and message, newest artifacts first.
\<close>

definition ilike :: "string \<Rightarrow> string \<Rightarrow> bool" where
  "ilike title query = sublist (lower query) (lower title)"

definition wanted :: "uuid \<Rightarrow> string option \<Rightarrow> string option \<Rightarrow> artifact \<Rightarrow> bool" where
  "wanted owner type query a \<longleftrightarrow> ar_owner a = owner \<and>
     (case type of None \<Rightarrow> True | Some t \<Rightarrow> t = [] \<or> ar_type a = t) \<and>
     (case query of None \<Rightarrow> True | Some q \<Rightarrow> q = [] \<or> ilike (ar_title a) q)"

definition first_ref :: "uuid \<Rightarrow> uuid \<Rightarrow> uuid \<Rightarrow> studio \<Rightarrow> artifact_ref option" where
  "first_ref owner i cid s =
     (case sort_key (\<lambda>f. (af_created f, af_msg f))
             (filter (\<lambda>f. af_id f = i \<and> af_conv f = cid \<and> af_owner f = owner) (st_refs s)) of
        [] \<Rightarrow> None | f # _ \<Rightarrow> Some f)"

definition list_for_conversations ::
  "uuid \<Rightarrow> uuid list \<Rightarrow> string option \<Rightarrow> string option \<Rightarrow> nat \<Rightarrow> (studio, (artifact \<times> artifact_ref) list) prog" where
  "list_for_conversations owner cids type query limit =
     (if cids = [] then ret []
      else txn (\<lambda>s.
        (let rows = concat (map (\<lambda>a. concat (map (\<lambda>c. case first_ref owner (ar_id a) c s of None \<Rightarrow> [] | Some f \<Rightarrow> [(a, f)])
                      (dedup [] cids))) (filter (wanted owner type query) (st_rows s)))
         in (Inr (take limit (rev (sort_key (\<lambda>(a, f). (ar_created a, ar_id a)) rows))), s))))"

section \<open>Compare and set\<close>

definition set_row :: "uuid \<Rightarrow> (artifact \<Rightarrow> artifact) \<Rightarrow> studio \<Rightarrow> studio" where
  "set_row i f s = s\<lparr>st_rows := map (\<lambda>r. if ar_id r = i then f r else r) (st_rows s)\<rparr>"

definition artifact_cas :: "uuid \<Rightarrow> string list \<Rightarrow> (artifact \<Rightarrow> artifact) \<Rightarrow> (studio, artifact option) prog" where
  "artifact_cas i from f = txn (\<lambda>s. case find_artifact i s of
     None \<Rightarrow> (Inr None, s)
   | Some r \<Rightarrow>
       if ar_status r \<in> set from then
         (let r' = (f r)\<lparr>ar_updated := st_now s\<rparr> in
          if st_checks s \<longrightarrow> row_checks r' then (Inr (Some r'), set_row i (\<lambda>_. r') s) else (Inl DbError, s))
       else (Inr None, s))"

definition artifact_release :: "uuid \<Rightarrow> (studio, unit) prog" where
  "artifact_release i = txn (\<lambda>s. (Inr (), set_row i (\<lambda>r. r\<lparr>ar_lease := None\<rparr>) s))"

definition artifact_backoff :: "uuid \<Rightarrow> (studio, unit) prog" where
  "artifact_backoff i = txn (\<lambda>s. (Inr (), set_row i (\<lambda>r. r\<lparr>ar_lease := Some (st_now s + sec BACKOFF_SECONDS)\<rparr>) s))"

definition artifact_fail :: "uuid \<Rightarrow> string \<Rightarrow> (studio, unit) prog" where
  "artifact_fail i code =
     bnd (artifact_cas i ACTIVE_STATES (\<lambda>r. r\<lparr>ar_status := ''failed'', ar_failure := Some (take 48 code), ar_lease := None\<rparr>))
       (\<lambda>_. ret ())"

definition artifact_retry :: "uuid \<Rightarrow> uuid \<Rightarrow> (studio, artifact option \<times> bool) prog" where
  "artifact_retry owner i =
     bnd (artifact_get owner i) (\<lambda>found. case found of
       None \<Rightarrow> raise ArtifactNotFound
     | Some row \<Rightarrow>
         if ar_status row \<noteq> ''failed'' \<or> ar_type row \<noteq> ''manim'' then ret (Some row, False)
         else if ARTIFACT_MAX_MANUAL_RETRIES \<le> ar_retries row then raise RetryLimitReached
         else bnd (artifact_cas i [''failed''] (\<lambda>r. r\<lparr>ar_status := ''pending'', ar_failure := None, ar_attempts := 0,
                     ar_retries := ar_retries row + 1, ar_job := None, ar_lease := None\<rparr>)) (\<lambda>updated.
              case updated of
                Some r \<Rightarrow> ret (Some r, True)
              | None \<Rightarrow> bnd (artifact_get owner i) (\<lambda>again. ret (again, False))))"

definition mark_object_missing :: "uuid \<Rightarrow> (studio, unit) prog" where
  "mark_object_missing i =
     bnd (artifact_cas i [''ready''] (\<lambda>r. r\<lparr>ar_status := ''pending'', ar_key := None, ar_sha := None, ar_size := None,
            ar_mime := None, ar_job := None, ar_attempts := 0, ar_failure := None, ar_lease := None\<rparr>)) (\<lambda>_. ret ())"

section \<open>The lifecycle\<close>

definition artifact_claim :: "uuid \<Rightarrow> (studio, artifact option) prog" where
  "artifact_claim i = txn (\<lambda>s. case find_artifact i s of
     None \<Rightarrow> (Inr None, s)
   | Some r \<Rightarrow>
       if ar_status r \<in> set ACTIVE_STATES \<and> (case ar_lease r of None \<Rightarrow> True | Some t \<Rightarrow> t < st_now s) then
         (let r' = r\<lparr>ar_lease := Some (st_now s + sec ARTIFACT_LEASE_SECONDS)\<rparr>
          in (Inr (Some r'), set_row i (\<lambda>_. r') s))
       else (Inr None, s))"

text \<open>\<open>ready\<close> with a stored video.\<close>

definition ready_row :: "string \<Rightarrow> string option \<Rightarrow> media_info \<Rightarrow> artifact \<Rightarrow> artifact" where
  "ready_row key thumb info r = r\<lparr>ar_status := ''ready'', ar_key := Some key, ar_thumb := thumb, ar_mime := Some ''video/mp4'',
     ar_size := Some (mi_size info), ar_sha := Some (mi_sha info), ar_failure := None, ar_lease := None\<rparr>"

definition adopt_existing_object :: "(byte list \<Rightarrow> string) \<Rightarrow> artifact \<Rightarrow> (studio, artifact option) prog" where
  "adopt_existing_object sha row =
     (let key = video_object_key (ar_id row); thumb = thumbnail_object_key (ar_id row) in
      bnd (store_stat key) (\<lambda>st. case st of
        None \<Rightarrow> ret None
      | Some _ \<Rightarrow>
          bnd (store_get key) (\<lambda>bytes. case validate_mp4 sha ARTIFACT_MAX_VIDEO_BYTES (Some bytes) of
            Inl _ \<Rightarrow> bnd (store_delete key) (\<lambda>_. ret None)
          | Inr info \<Rightarrow>
              bnd (store_stat thumb) (\<lambda>th.
              artifact_cas (ar_id row) ACTIVE_STATES
                (ready_row key (if th = None then None else Some thumb) info)))))"

definition artifact_dispatch :: "(byte list \<Rightarrow> string) \<Rightarrow> artifact \<Rightarrow> (studio, artifact option) prog" where
  "artifact_dispatch sha row =
     bnd (adopt_existing_object sha row) (\<lambda>adopted. case adopted of
       Some r \<Rightarrow> ret (Some r)
     | None \<Rightarrow>
         if ARTIFACT_MAX_AUTO_ATTEMPTS \<le> ar_attempts row then
           bnd (artifact_fail (ar_id row) ''attempts_exhausted'') (\<lambda>_. ret None)
         else
           bnd (attempt (bnd backend_submit (\<lambda>job. ret (Inr job)))
                 (\<lambda>e. case e of RenderRejected code \<Rightarrow> ret (Inl code) | _ \<Rightarrow> raise e)) (\<lambda>res. case res of
             Inl code \<Rightarrow> bnd (artifact_fail (ar_id row) code) (\<lambda>_. ret None)
           | Inr job \<Rightarrow>
               artifact_cas (ar_id row) [''pending''] (\<lambda>r. r\<lparr>ar_status := ''queued'', ar_job := Some job,
                 ar_attempts := ar_attempts row + 1, ar_failure := None\<rparr>)))"

definition artifact_poll :: "artifact \<Rightarrow> (studio, artifact option) prog" where
  "artifact_poll row =
     bnd (getting st_now) (\<lambda>now.
     bnd backend_status (\<lambda>job. case job of
       None \<Rightarrow>
         if ARTIFACT_MAX_AUTO_ATTEMPTS \<le> ar_attempts row then
           bnd (artifact_fail (ar_id row) ''render_job_lost'') (\<lambda>_. ret None)
         else artifact_cas (ar_id row) [''queued'', ''rendering''] (\<lambda>r. r\<lparr>ar_status := ''pending'', ar_job := None\<rparr>)
     | Some (state, failure) \<Rightarrow>
         if state = ''ready'' then
           artifact_cas (ar_id row) [''queued'', ''rendering''] (\<lambda>r. r\<lparr>ar_status := ''uploading''\<rparr>)
         else if state \<in> {''failed'', ''cancelled'', ''expired''} then
           bnd (artifact_fail (ar_id row) (case failure of None \<Rightarrow> state | Some c \<Rightarrow> if c = [] then state else c)) (\<lambda>_. ret None)
         else if sec ARTIFACT_MAX_ACTIVE_SECONDS < now - ar_updated row then
           bnd (artifact_fail (ar_id row) ''timed_out'') (\<lambda>_. ret None)
         else
           (let goal = (if state = ''pending'' then ''queued'' else ''rendering'') in
            if ar_status row \<noteq> goal then artifact_cas (ar_id row) [''queued'', ''rendering''] (\<lambda>r. r\<lparr>ar_status := goal\<rparr>)
            else ret (Some row))))"

definition PNG_MAGIC :: "byte list" where
  "PNG_MAGIC = [0x89, 0x50, 0x4E, 0x47, 0x0D, 0x0A, 0x1A, 0x0A]"

definition store_thumbnail :: "artifact \<Rightarrow> (studio, string option) prog" where
  "store_thumbnail row = attempt
     (bnd backend_thumbnail (\<lambda>data. case data of
        None \<Rightarrow> ret None
      | Some bytes \<Rightarrow>
          if take 8 bytes \<noteq> PNG_MAGIC \<or> MAX_THUMBNAIL_BYTES < length bytes then ret None
          else (let key = thumbnail_object_key (ar_id row) in
                bnd (store_put key bytes ''image/png'') (\<lambda>_. ret (Some key)))))
     (\<lambda>_. ret None)"

datatype download = Got_file "byte list" | Lost_file | Refused_file string

definition download_file :: "(studio, download) prog" where
  "download_file = attempt (bnd backend_download (\<lambda>bs. ret (Got_file bs)))
     (\<lambda>e. case e of FileNotFoundError \<Rightarrow> ret Lost_file | RenderRejected code \<Rightarrow> ret (Refused_file code) | _ \<Rightarrow> raise e)"

definition artifact_upload :: "(byte list \<Rightarrow> string) \<Rightarrow> artifact \<Rightarrow> (studio, artifact option) prog" where
  "artifact_upload sha row =
     bnd (adopt_existing_object sha row) (\<lambda>adopted. case adopted of
       Some r \<Rightarrow> ret (Some r)
     | None \<Rightarrow>
         (let key = video_object_key (ar_id row) in
          bnd download_file (\<lambda>file. case file of
            Lost_file \<Rightarrow>
              if ARTIFACT_MAX_AUTO_ATTEMPTS \<le> ar_attempts row then
                bnd (artifact_fail (ar_id row) ''render_job_lost'') (\<lambda>_. ret None)
              else artifact_cas (ar_id row) [''uploading''] (\<lambda>r. r\<lparr>ar_status := ''pending'', ar_job := None\<rparr>)
          | Refused_file code \<Rightarrow> bnd (artifact_fail (ar_id row) code) (\<lambda>_. ret None)
          | Got_file bytes \<Rightarrow>
              (case validate_mp4 sha ARTIFACT_MAX_VIDEO_BYTES (Some bytes) of
                 Inl _ \<Rightarrow> bnd (artifact_fail (ar_id row) ''invalid_output'') (\<lambda>_. ret None)
               | Inr info \<Rightarrow>
                   bnd (store_put key bytes ''video/mp4'') (\<lambda>_.
                   bnd (store_stat key) (\<lambda>stored.
                   if stored \<noteq> Some (mi_size info) then raise StorageError
                   else bnd (store_thumbnail row) (\<lambda>thumb.
                        artifact_cas (ar_id row) [''uploading'', ''pending'', ''queued'', ''rendering'']
                          (ready_row key thumb info))))))))"

definition artifact_step :: "(byte list \<Rightarrow> string) \<Rightarrow> artifact \<Rightarrow> (studio, artifact option) prog" where
  "artifact_step sha row =
     (if ar_status row = ''pending'' then artifact_dispatch sha row
      else if ar_status row \<in> {''queued'', ''rendering''} then artifact_poll row
      else if ar_status row = ''uploading'' then artifact_upload sha row
      else ret None)"

primrec advance_loop :: "(byte list \<Rightarrow> string) \<Rightarrow> nat \<Rightarrow> artifact \<Rightarrow> (studio, unit) prog" where
  "advance_loop sha 0 row = ret ()"
| "advance_loop sha (Suc n) row =
     bnd (artifact_step sha row) (\<lambda>res. case res of
       None \<Rightarrow> ret ()
     | Some r \<Rightarrow> if ar_status r \<in> set TERMINAL \<or> ar_status r = ar_status row then ret () else advance_loop sha n r)"

text \<open>
  \<open>try ... except ... finally\<close>: after an exception the lease is kept for the pause; when the pause itself cannot be
  written, \<open>finally\<close> still gives the lease up and the exception goes on.
\<close>

definition artifact_advance :: "(byte list \<Rightarrow> string) \<Rightarrow> uuid \<Rightarrow> (studio, unit) prog" where
  "artifact_advance sha i =
     bnd (artifact_claim i) (\<lambda>claimed. case claimed of
       None \<Rightarrow> ret ()
     | Some row \<Rightarrow>
         bnd (attempt (bnd (advance_loop sha 5 row) (\<lambda>_. ret False))
               (\<lambda>_. attempt (bnd (artifact_backoff i) (\<lambda>_. ret True))
                  (\<lambda>e. bnd (artifact_release i) (\<lambda>_. raise e)))) (\<lambda>keep_lease.
         if keep_lease then ret () else artifact_release i))"

section \<open>The worker\<close>

definition active_ids :: "nat \<Rightarrow> (studio, uuid list) prog" where
  "active_ids limit = txn (\<lambda>s. (Inr (take limit (map ar_id (sort_key ar_updated
     (filter (\<lambda>r. ar_status r \<in> set ACTIVE_STATES \<and> (case ar_lease r of None \<Rightarrow> True | Some t \<Rightarrow> t < st_now s))
       (st_rows s))))), s))"

definition run_once :: "(byte list \<Rightarrow> string) \<Rightarrow> (studio, nat) prog" where
  "run_once sha =
     bnd (active_ids 25) (\<lambda>ids.
     bnd (fold_prog (\<lambda>i _. attempt (artifact_advance sha i) (\<lambda>_. ret ())) ids ()) (\<lambda>_. ret (length ids)))"

text \<open>
  The janitor. \<open>keys\<close> are the names in the bucket, of which the store lists those under \<open>artifacts/\<close>; an object is removed when it is old and its
  key names no registered artifact.
\<close>

definition delete_orphan :: "int \<Rightarrow> string \<Rightarrow> int \<Rightarrow> (studio, int) prog" where
  "delete_orphan cutoff key removed =
     bnd (getting (\<lambda>s. st_objs s key)) (\<lambda>info. case info of
       None \<Rightarrow> ret removed
     | Some o' \<Rightarrow>
         (case split_on CHR ''/'' key of
            [_, part, _] \<Rightarrow>
              if cutoff < so_modified o' then ret removed
              else (case parse_uuid part of
                  None \<Rightarrow> ret removed
                | Some i \<Rightarrow>
                    bnd (txn (\<lambda>s. (Inr (find_artifact i s), s))) (\<lambda>known.
                    if known = None then bnd (store_delete key) (\<lambda>_. ret (removed + 1)) else ret removed))
          | _ \<Rightarrow> ret removed))"

definition delete_orphan_objects :: "string list \<Rightarrow> int \<Rightarrow> (studio, int) prog" where
  "delete_orphan_objects keys grace =
     bnd (getting (\<lambda>s. st_now s - sec grace)) (\<lambda>cutoff. fold_prog (delete_orphan cutoff) (filter (starts_with ''artifacts/'') keys) 0)"

end
