(* ===== verification/Artifact_Lifecycle.thy ===== *)
theory Artifact_Lifecycle
  imports Artifacts
begin

text \<open>
  Correctness of the artifact registry: the invariant \<open>studio_ok\<close> of the tables and the object store, kept by every
  operation of \<open>ArtifactService\<close> whatever calls fail and whatever the render backend answers, and the lease.
\<close>

section \<open>The invariant\<close>

definition VALID_STATES :: "string list" where
  "VALID_STATES = ACTIVE_STATES @ TERMINAL"

text \<open>A ready animation is backed by a stored object that passes the check and has the recorded size and digest.\<close>

definition backed :: "(byte list \<Rightarrow> string) \<Rightarrow> (string \<Rightarrow> stored_object option) \<Rightarrow> artifact \<Rightarrow> bool" where
  "backed sha objs a \<longleftrightarrow> (\<exists>ob info. objs (video_object_key (ar_id a)) = Some ob \<and>
     validate_mp4 sha ARTIFACT_MAX_VIDEO_BYTES (Some (so_bytes ob)) = Inr info \<and>
     ar_key a = Some (video_object_key (ar_id a)) \<and> ar_size a = Some (mi_size info) \<and> ar_sha a = Some (mi_sha info))"

definition ready_video :: "artifact \<Rightarrow> bool" where
  "ready_video a \<longleftrightarrow> ar_type a = ''manim'' \<and> ar_status a = ''ready''"

definition within_bounds :: "artifact \<Rightarrow> bool" where
  "within_bounds a \<longleftrightarrow> ar_status a \<in> set VALID_STATES \<and> ar_attempts a \<le> ARTIFACT_MAX_AUTO_ATTEMPTS \<and>
     ar_retries a \<le> ARTIFACT_MAX_MANUAL_RETRIES"

definition identity :: "artifact \<Rightarrow> uuid \<times> string \<times> string" where
  "identity a = (ar_owner a, ar_type a, ar_fp a)"

definition rows_ok :: "(byte list \<Rightarrow> string) \<Rightarrow> (string \<Rightarrow> stored_object option) \<Rightarrow> artifact list \<Rightarrow> bool" where
  "rows_ok sha objs rows \<longleftrightarrow> distinct (map ar_id rows) \<and> distinct (map identity rows) \<and>
     (\<forall>a \<in> set rows. within_bounds a \<and> (ready_video a \<longrightarrow> backed sha objs a))"

definition studio_ok :: "(byte list \<Rightarrow> string) \<Rightarrow> studio \<Rightarrow> bool" where
  "studio_ok sha s = rows_ok sha (st_objs s) (st_rows s)"

definition not_ready :: "uuid \<Rightarrow> studio \<Rightarrow> bool" where
  "not_ready i s \<longleftrightarrow> (\<forall>r \<in> set (st_rows s). ar_id r = i \<longrightarrow> ar_status r \<noteq> ''ready'')"

section \<open>Calls\<close>

lemma st_pop_simps [simp]:
  "st_rows (st_pop s) = st_rows s" "st_objs (st_pop s) = st_objs s" "st_now (st_pop s) = st_now s"
  "st_refs (st_pop s) = st_refs s" "st_jobs (st_pop s) = st_jobs s" "st_checks (st_pop s) = st_checks s"
  by (simp_all add: st_pop_def)

lemma studio_frame [simp]:
  "studio_ok sha (st_pop s) = studio_ok sha s" "not_ready i (st_pop s) = not_ready i s"
  "studio_ok sha (s\<lparr>st_replies := rs\<rparr>) = studio_ok sha s" "not_ready i (s\<lparr>st_replies := rs\<rparr>) = not_ready i s"
  "studio_ok sha (s\<lparr>st_refs := fs\<rparr>) = studio_ok sha s"
  "studio_ok sha (s\<lparr>st_jobs := js\<rparr>) = studio_ok sha s"
  "not_ready i (s\<lparr>st_objs := os\<rparr>) = not_ready i s"
  "find_artifact i (st_pop s) = find_artifact i s"
  by (simp_all add: studio_ok_def not_ready_def find_artifact_def)

lemma wp_txn:
  assumes "wp body Q E (st_pop s)" and "E DbError (st_pop s)" and "E DbError (snd (body (st_pop s)))"
  shows "wp (txn body) Q E s"
  using assms by (simp add: wp_def txn_def split: fault.split)

text \<open>A transaction that keeps an invariant as a step keeps it also when its answer is lost.\<close>

lemma wp_txn_inv:
  assumes "wp body (\<lambda>a s'. I s' \<and> Q a s') (\<lambda>_. I) (st_pop s)" and "I (st_pop s)"
  shows "wp (txn body) (\<lambda>a s'. I s' \<and> Q a s') (\<lambda>_. I) s"
  using assms by (auto simp: wp_def txn_def split: fault.split prod.splits sum.splits)

lemma wp_txn_step:
  assumes "I (st_pop s)" and "I (f (st_pop s))"
  shows "wp (txn (\<lambda>s. (Inr (v s), f s))) (\<lambda>_. I) (\<lambda>_. I) s"
  using assms by (simp add: wp_def txn_def split: fault.split)

lemma wp_store_stat:
  "wp (store_stat key) (\<lambda>n s'. s' = st_pop s \<and> n = map_option (\<lambda>ob. length (so_bytes ob)) (st_objs s key)) (\<lambda>_ s'. s' = st_pop s) s"
  by (simp add: wp_def store_stat_def store_call_def split: fault.split)

lemma wp_store_get:
  "wp (store_get key) (\<lambda>bs s'. s' = st_pop s \<and> (\<exists>ob. st_objs s key = Some ob \<and> bs = so_bytes ob)) (\<lambda>_ s'. s' = st_pop s) s"
  by (auto simp: wp_def store_get_def store_call_def split: fault.split option.split)

definition put_object :: "string \<Rightarrow> byte list \<Rightarrow> string \<Rightarrow> studio \<Rightarrow> studio" where
  "put_object key bytes type s =
     s\<lparr>st_objs := (st_objs s)(key \<mapsto> \<lparr>so_bytes = bytes, so_type = type, so_modified = st_now s\<rparr>)\<rparr>"

lemma wp_store_put:
  "wp (store_put key bs type) (\<lambda>_ s'. s' = put_object key bs type (st_pop s))
     (\<lambda>_ s'. s' = st_pop s \<or> s' = put_object key bs type (st_pop s)) s"
  by (simp add: wp_def store_put_def store_call_def put_object_def split: fault.split)

lemma wp_store_delete:
  "wp (store_delete key) (\<lambda>_ s'. s' = st_pop s\<lparr>st_objs := (st_objs s)(key := None)\<rparr>)
     (\<lambda>_ s'. s' = st_pop s \<or> s' = st_pop s\<lparr>st_objs := (st_objs s)(key := None)\<rparr>) s"
  by (simp add: wp_def store_delete_def store_call_def split: fault.split)

lemma wp_ask_backend [wp_simps]:
  "wp (ask_backend f) Q E s = (case f (case st_replies s of [] \<Rightarrow> Unavailable | r # _ \<Rightarrow> r) of
     Inl e \<Rightarrow> E e (s\<lparr>st_replies := tl (st_replies s)\<rparr>) | Inr a \<Rightarrow> Q a (s\<lparr>st_replies := tl (st_replies s)\<rparr>))"
  by (simp add: wp_def ask_backend_def split: sum.split)

section \<open>Keys\<close>

lemma video_key_inj [simp]: "video_object_key i = video_object_key j \<longleftrightarrow> i = j"
  by (auto simp: video_object_key_def dest: arg_cong [of _ _ parse_uuid] simp: parse_uuid_str)

lemma thumb_not_video [simp]: "thumbnail_object_key i \<noteq> video_object_key j"
proof
  assume "thumbnail_object_key i = video_object_key j"
  then have "last (thumbnail_object_key i) = last (video_object_key j)" by simp
  then show False by (simp add: thumbnail_object_key_def video_object_key_def)
qed

section \<open>Objects that no ready row needs\<close>

lemma object_change:
  assumes "studio_ok sha s" and "\<And>a. a \<in> set (st_rows s) \<Longrightarrow> ready_video a \<Longrightarrow> video_object_key (ar_id a) \<noteq> key"
  shows "studio_ok sha (s\<lparr>st_objs := (st_objs s)(key := ob)\<rparr>)"
  using assms by (auto simp: studio_ok_def rows_ok_def backed_def)

lemma own_object_change:
  assumes "studio_ok sha s" and "not_ready i s"
  shows "studio_ok sha (s\<lparr>st_objs := (st_objs s)(video_object_key i := ob)\<rparr>)"
  by (rule object_change [OF assms(1)]) (use assms(2) in \<open>auto simp: not_ready_def ready_video_def\<close>)

lemma thumb_change:
  "studio_ok sha s \<Longrightarrow> studio_ok sha (s\<lparr>st_objs := (st_objs s)(thumbnail_object_key i := ob)\<rparr>)"
  by (rule object_change) (auto dest: sym)

lemma put_ok:
  "studio_ok sha s \<Longrightarrow> not_ready i s \<Longrightarrow> studio_ok sha (put_object (video_object_key i) bs t s)"
  "studio_ok sha s \<Longrightarrow> studio_ok sha (put_object (thumbnail_object_key i) bs t s)"
  "not_ready j (put_object k bs t s) = not_ready j s"
  by (simp_all add: put_object_def own_object_change thumb_change)

section \<open>Compare and set\<close>

lemma identity_lease [simp]:
  "identity (r\<lparr>ar_lease := l\<rparr>) = identity r" "identity (r\<lparr>ar_updated := t\<rparr>) = identity r"
  by (simp_all add: identity_def)

lemma set_row_ok:
  assumes ok: "studio_ok sha s" and r: "find_artifact i s = Some r"
    and new: "ar_id r' = i" "identity r' = identity r" "within_bounds r'" "ready_video r' \<Longrightarrow> backed sha (st_objs s) r'"
  shows "studio_ok sha (set_row i (\<lambda>_. r') s)"
proof -
  have mem: "r \<in> set (st_rows s)" "ar_id r = i" using r by (auto simp: find_artifact_def dest: find_iff)
  have same: "x = r" if "x \<in> set (st_rows s)" "ar_id x = i" for x
    using that mem ok by (auto simp: studio_ok_def rows_ok_def distinct_map inj_on_def)
  have "map ar_id (map (\<lambda>r. if ar_id r = i then r' else r) (st_rows s)) = map ar_id (st_rows s)"
    using new(1) by simp
  moreover have "map identity (map (\<lambda>r. if ar_id r = i then r' else r) (st_rows s)) = map identity (st_rows s)"
    using new(2) same by (auto intro!: map_cong [OF refl] simp: comp_def)
  moreover have rows: "st_rows (set_row i (\<lambda>_. r') s) = map (\<lambda>r. if ar_id r = i then r' else r) (st_rows s)"
    by (simp add: set_row_def)
  ultimately have "distinct (map ar_id (st_rows (set_row i (\<lambda>_. r') s)))" "distinct (map identity (st_rows (set_row i (\<lambda>_. r') s)))"
    using ok unfolding studio_ok_def rows_ok_def by metis+
  then show ?thesis
    using ok new(3,4) unfolding studio_ok_def rows_ok_def by (auto simp: set_row_def)
qed

lemma set_row_not_ready: "ar_status r' \<noteq> ''ready'' \<Longrightarrow> ar_id r' = i \<Longrightarrow> not_ready i (set_row i (\<lambda>_. r') s)"
  by (auto simp: not_ready_def set_row_def)

text \<open>The change \<open>f\<close> is a good one for the rows in the states \<open>from\<close>.\<close>

definition good_change :: "(byte list \<Rightarrow> string) \<Rightarrow> (string \<Rightarrow> stored_object option) \<Rightarrow> string list \<Rightarrow> (artifact \<Rightarrow> artifact) \<Rightarrow> uuid \<Rightarrow> bool" where
  "good_change sha objs from f i \<longleftrightarrow> (\<forall>r. ar_id (f r) = ar_id r \<and> identity (f r) = identity r \<and>
     (within_bounds r \<longrightarrow> within_bounds (f r)) \<and>
     (ar_id r = i \<and> ready_video (f r) \<longrightarrow> backed sha objs (f r)))"

lemma backed_updated [simp]: "backed sha objs (r\<lparr>ar_updated := t\<rparr>) = backed sha objs r"
  "backed sha objs (r\<lparr>ar_lease := l\<rparr>) = backed sha objs r"
  by (simp_all add: backed_def)

lemma within_updated [simp]: "within_bounds (r\<lparr>ar_updated := t\<rparr>) = within_bounds r"
  "within_bounds (r\<lparr>ar_lease := l\<rparr>) = within_bounds r"
  "ready_video (r\<lparr>ar_updated := t\<rparr>) = ready_video r" "ready_video (r\<lparr>ar_lease := l\<rparr>) = ready_video r"
  by (simp_all add: within_bounds_def ready_video_def)

definition moved :: "uuid \<Rightarrow> artifact option \<Rightarrow> studio \<Rightarrow> bool" where
  "moved i res s \<longleftrightarrow> (case res of None \<Rightarrow> True
     | Some r \<Rightarrow> ar_id r = i \<and> (ar_status r \<noteq> ''ready'' \<longrightarrow> not_ready i s))"

definition unmoved :: "studio \<Rightarrow> artifact option \<Rightarrow> studio \<Rightarrow> bool" where
  "unmoved s res s' \<longleftrightarrow> (res = None \<longrightarrow> st_rows s' = st_rows s)"

lemma not_ready_rows: "st_rows s' = st_rows s \<Longrightarrow> not_ready i s' = not_ready i s"
  by (simp add: not_ready_def)

lemma wp_cas:
  assumes "studio_ok sha s" and "good_change sha (st_objs s) from f i"
  shows "wp (artifact_cas i from f) (\<lambda>res s'. studio_ok sha s' \<and> moved i res s' \<and> unmoved s res s') (\<lambda>_ s'. studio_ok sha s') s"
  unfolding artifact_cas_def
proof (rule wp_txn_inv)
  show "studio_ok sha (st_pop s)" using assms(1) by simp
  have "studio_ok sha (set_row i (\<lambda>_. (f r)\<lparr>ar_updated := t\<rparr>) (st_pop s))" if "find_artifact i s = Some r" for r t
  proof (rule set_row_ok [of sha "st_pop s" i r])
    have r: "r \<in> set (st_rows s)" "ar_id r = i" using that by (auto simp: find_artifact_def dest: find_iff)
    then have "within_bounds r" using assms(1) by (auto simp: studio_ok_def rows_ok_def)
    then show "within_bounds ((f r)\<lparr>ar_updated := t\<rparr>)" using assms(2) by (simp add: good_change_def)
    show "ar_id ((f r)\<lparr>ar_updated := t\<rparr>) = i" using assms(2) r by (simp add: good_change_def)
    show "backed sha (st_objs (st_pop s)) ((f r)\<lparr>ar_updated := t\<rparr>)" if "ready_video ((f r)\<lparr>ar_updated := t\<rparr>)"
      using assms(2) r that by (simp add: good_change_def)
  qed (use assms that in \<open>simp_all add: good_change_def\<close>)
  moreover have "moved i (Some ((f r)\<lparr>ar_updated := t\<rparr>)) (set_row i (\<lambda>_. (f r)\<lparr>ar_updated := t\<rparr>) (st_pop s))"
    if "find_artifact i s = Some r" for r t
  proof -
    have "ar_id (f r) = i" using that assms(2) by (auto simp: find_artifact_def good_change_def dest: find_iff)
    then show ?thesis by (simp add: moved_def set_row_not_ready)
  qed
  ultimately show "wp (\<lambda>s. case find_artifact i s of None \<Rightarrow> (Inr None, s)
      | Some r \<Rightarrow> if ar_status r \<in> set from
          then let r' = (f r)\<lparr>ar_updated := st_now s\<rparr>
            in if st_checks s \<longrightarrow> row_checks r' then (Inr (Some r'), set_row i (\<lambda>_. r') s) else (Inl DbError, s)
          else (Inr None, s)) (\<lambda>a s'. studio_ok sha s' \<and> moved i a s' \<and> unmoved s a s') (\<lambda>_. studio_ok sha) (st_pop s)"
    using assms(1) by (auto simp: wp_def Let_def moved_def unmoved_def split: option.split)
qed

text \<open>The changes the service makes.\<close>

lemma identity_changes [simp]:
  "identity (r\<lparr>ar_status := x\<rparr>) = identity r" "identity (r\<lparr>ar_job := j\<rparr>) = identity r"
  "identity (r\<lparr>ar_attempts := n\<rparr>) = identity r" "identity (r\<lparr>ar_retries := n\<rparr>) = identity r"
  "identity (r\<lparr>ar_failure := e\<rparr>) = identity r" "identity (r\<lparr>ar_key := k\<rparr>) = identity r"
  "identity (r\<lparr>ar_sha := h\<rparr>) = identity r" "identity (r\<lparr>ar_size := z\<rparr>) = identity r"
  "identity (r\<lparr>ar_mime := m\<rparr>) = identity r" "identity (r\<lparr>ar_thumb := u\<rparr>) = identity r"
  by (simp_all add: identity_def)

lemmas change_defs = good_change_def within_bounds_def ready_video_def VALID_STATES_def ACTIVE_STATES_def TERMINAL_def

lemma good_changes:
  "good_change sha objs from (\<lambda>r. r\<lparr>ar_status := ''failed'', ar_failure := c, ar_lease := l\<rparr>) i"
  "good_change sha objs from (\<lambda>r. r\<lparr>ar_status := ''pending'', ar_job := j\<rparr>) i"
  "good_change sha objs from (\<lambda>r. r\<lparr>ar_status := ''uploading''\<rparr>) i"
  "x \<in> {''queued'', ''rendering''} \<Longrightarrow> good_change sha objs from (\<lambda>r. r\<lparr>ar_status := x\<rparr>) i"
  "n \<le> ARTIFACT_MAX_AUTO_ATTEMPTS \<Longrightarrow>
     good_change sha objs from (\<lambda>r. r\<lparr>ar_status := ''queued'', ar_job := j, ar_attempts := n, ar_failure := c\<rparr>) i"
  "n \<le> ARTIFACT_MAX_MANUAL_RETRIES \<Longrightarrow>
     good_change sha objs from (\<lambda>r. r\<lparr>ar_status := ''pending'', ar_failure := c, ar_attempts := 0, ar_retries := n,
       ar_job := j, ar_lease := l\<rparr>) i"
  "good_change sha objs from (\<lambda>r. r\<lparr>ar_status := ''pending'', ar_key := k, ar_sha := h, ar_size := z, ar_mime := m,
     ar_job := j, ar_attempts := 0, ar_failure := c, ar_lease := l\<rparr>) i"
  by (auto simp: change_defs)

lemma good_ready:
  assumes "objs (video_object_key i) = Some ob"
    and "validate_mp4 sha ARTIFACT_MAX_VIDEO_BYTES (Some (so_bytes ob)) = Inr info"
  shows "good_change sha objs from (ready_row (video_object_key i) thumb info) i"
  using assms by (auto simp: change_defs ready_row_def identity_def backed_def)

section \<open>The operations keep the invariant\<close>

lemma wp_artifact_fail:
  "studio_ok sha s \<Longrightarrow> wp (artifact_fail i code) (\<lambda>_ s'. studio_ok sha s') (\<lambda>_ s'. studio_ok sha s') s"
  unfolding artifact_fail_def wp_bnd
  by (rule wp_mono [OF wp_cas]) (auto simp: wp_simps good_changes)

text \<open>A step of the lifecycle: from a row that is not ready it ends in nothing or in the row it moved.\<close>

abbreviation step_keeps :: "(byte list \<Rightarrow> string) \<Rightarrow> uuid \<Rightarrow> (studio, artifact option) prog \<Rightarrow> studio \<Rightarrow> bool" where
  "step_keeps sha i m s \<equiv> wp m (\<lambda>res s'. studio_ok sha s' \<and> moved i res s') (\<lambda>_ s'. studio_ok sha s') s"

lemma fail_step: "studio_ok sha s \<Longrightarrow> step_keeps sha i (bnd (artifact_fail i code) (\<lambda>_. ret None)) s"
  unfolding wp_bnd by (rule wp_mono [OF wp_artifact_fail]) (auto simp: wp_simps moved_def)

lemma cas_step:
  "studio_ok sha s \<Longrightarrow> good_change sha (st_objs s) from f i \<Longrightarrow> step_keeps sha i (artifact_cas i from f) s"
  by (rule wp_mono [OF wp_cas]) auto

lemma adopt_object:
  assumes "studio_ok sha s" and "not_ready i s" and "st_objs s (video_object_key i) = Some ob"
  shows "wp (case validate_mp4 sha ARTIFACT_MAX_VIDEO_BYTES (Some (so_bytes ob)) of
       Inl _ \<Rightarrow> bnd (store_delete (video_object_key i)) (\<lambda>_. ret None)
     | Inr info \<Rightarrow> bnd (store_stat th) (\<lambda>found. artifact_cas i ACTIVE_STATES (ready_row (video_object_key i) (f found) info)))
     (\<lambda>res s'. studio_ok sha s' \<and> moved i res s' \<and> (res = None \<longrightarrow> not_ready i s')) (\<lambda>_ s'. studio_ok sha s') s"
proof (cases "validate_mp4 sha ARTIFACT_MAX_VIDEO_BYTES (Some (so_bytes ob))")
  case (Inl e)
  have "studio_ok sha (st_pop s\<lparr>st_objs := (st_objs s)(video_object_key i := None)\<rparr>)"
    using own_object_change [of sha "st_pop s" i None] assms by simp
  then show ?thesis unfolding Inl sum.case wp_bnd
    by (intro wp_mono [OF wp_store_delete]) (use assms in \<open>auto simp: wp_simps moved_def\<close>)
next
  case (Inr info)
  have "wp (artifact_cas i ACTIVE_STATES (ready_row (video_object_key i) t info))
     (\<lambda>res s'. studio_ok sha s' \<and> moved i res s' \<and> (res = None \<longrightarrow> not_ready i s')) (\<lambda>_ s'. studio_ok sha s') (st_pop s)" for t
  proof -
    have "studio_ok sha (st_pop s)" using assms(1) by simp
    moreover have "good_change sha (st_objs (st_pop s)) ACTIVE_STATES (ready_row (video_object_key i) t info) i"
      by (rule good_ready [OF _ Inr]) (simp add: assms(3))
    ultimately show ?thesis
      by (rule wp_mono [OF wp_cas]) (use assms(2) in \<open>auto simp: unmoved_def not_ready_def\<close>)
  qed
  then show ?thesis unfolding Inr sum.case wp_bnd
    by (intro wp_mono [OF wp_store_stat]) (use assms in auto)
qed

lemma wp_adopt:
  assumes "studio_ok sha s" and "not_ready (ar_id row) s"
  shows "wp (adopt_existing_object sha row)
     (\<lambda>res s'. studio_ok sha s' \<and> moved (ar_id row) res s' \<and> (res = None \<longrightarrow> not_ready (ar_id row) s'))
     (\<lambda>_ s'. studio_ok sha s') s"
proof -
  define Q where "Q = (\<lambda>res s'. studio_ok sha s' \<and> moved (ar_id row) res s' \<and> (res = None \<longrightarrow> not_ready (ar_id row) s'))"
  define E where "E = (\<lambda>(_::exn) s'. studio_ok sha s')"
  have get: "wp (bnd (store_get (video_object_key (ar_id row)))
      (\<lambda>bytes. case validate_mp4 sha ARTIFACT_MAX_VIDEO_BYTES (Some bytes) of
         Inl _ \<Rightarrow> bnd (store_delete (video_object_key (ar_id row))) (\<lambda>_. ret None)
       | Inr info \<Rightarrow> bnd (store_stat (thumbnail_object_key (ar_id row))) (\<lambda>th. artifact_cas (ar_id row) ACTIVE_STATES
           (ready_row (video_object_key (ar_id row)) (if th = None then None else Some (thumbnail_object_key (ar_id row))) info))))
      Q E (st_pop s)"
    unfolding wp_bnd [of "store_get _"]
  proof (rule wp_mono [OF wp_store_get], goal_cases)
    case (1 bytes s')
    then obtain ob where "st_objs s (video_object_key (ar_id row)) = Some ob" "bytes = so_bytes ob" by auto
    then show ?case unfolding Q_def E_def using adopt_object [of sha "s'" "ar_id row" ob "thumbnail_object_key (ar_id row)"
        "\<lambda>th. if th = None then None else Some (thumbnail_object_key (ar_id row))"] assms 1 by simp
  qed (use assms in \<open>simp add: E_def\<close>)
  have "wp (adopt_existing_object sha row) Q E s"
    unfolding adopt_existing_object_def Let_def wp_bnd [of "store_stat _"]
    by (rule wp_mono [OF wp_store_stat]) (use get assms in \<open>auto simp: wp_simps Q_def E_def moved_def split: option.split\<close>)
  then show ?thesis by (simp add: Q_def E_def)
qed

lemma after_adopt:
  assumes "studio_ok sha s" and "not_ready (ar_id row) s"
    and "\<And>s'. studio_ok sha s' \<Longrightarrow> not_ready (ar_id row) s' \<Longrightarrow> step_keeps sha (ar_id row) m s'"
  shows "step_keeps sha (ar_id row)
     (bnd (adopt_existing_object sha row) (\<lambda>adopted. case adopted of Some r \<Rightarrow> ret (Some r) | None \<Rightarrow> m)) s"
  unfolding wp_bnd
  by (rule wp_mono [OF wp_adopt [OF assms(1,2)]]) (auto simp: wp_simps assms(3) split: option.split)

lemma step_dispatch:
  assumes "studio_ok sha s" and "not_ready (ar_id row) s"
  shows "step_keeps sha (ar_id row) (artifact_dispatch sha row) s"
  unfolding artifact_dispatch_def
proof (rule after_adopt [OF assms], goal_cases)
  case (1 s')
  show ?case
  proof (cases "ARTIFACT_MAX_AUTO_ATTEMPTS \<le> ar_attempts row")
    case True
    then show ?thesis using fail_step 1 by simp
  next
    case False
    have cas: "step_keeps sha (ar_id row) (artifact_cas (ar_id row) [''pending''] (\<lambda>r. r\<lparr>ar_status := ''queued'', ar_job := Some job,
        ar_attempts := ar_attempts row + 1, ar_failure := None\<rparr>)) (s'\<lparr>st_replies := rs\<rparr>)" for job rs
      by (rule cas_step, use 1 in simp, rule good_changes(5), use False in simp)
    have fails: "step_keeps sha (ar_id row) (bnd (artifact_fail (ar_id row) code) (\<lambda>_. ret None)) (s'\<lparr>st_replies := rs\<rparr>)" for code rs
      using 1 by (intro fail_step) simp
    show ?thesis unfolding if_not_P [OF False] backend_submit_def wp_bnd [of "attempt _ _"] wp_attempt
      using cas fails 1 by (auto simp: wp_bnd [of "ask_backend _"] wp_ask_backend wp_ret wp_raise split: reply.split)
  qed
qed

lemma step_poll:
  assumes "studio_ok sha s" and "not_ready (ar_id row) s"
  shows "step_keeps sha (ar_id row) (artifact_poll row) s"
proof -
  define t where "t = s\<lparr>st_replies := tl (st_replies s)\<rparr>"
  have t: "studio_ok sha t" "not_ready (ar_id row) t" using assms by (simp_all add: t_def)
  have same: "step_keeps sha (ar_id row) (ret (Some row)) t" using t by (simp add: wp_ret moved_def)
  note cases = cas_step [OF t(1) good_changes(2)] cas_step [OF t(1) good_changes(3)] cas_step [OF t(1) good_changes(4)]
    fail_step [OF t(1)] same
  show ?thesis
    unfolding artifact_poll_def backend_status_def wp_bnd [of "getting _"] wp_getting wp_bnd [of "ask_backend _"] wp_ask_backend
      t_def [symmetric]
    using t cases by (auto simp: Let_def split: reply.split)
qed

lemma step_thumbnail:
  assumes "studio_ok sha s"
  shows "wp (store_thumbnail row) (\<lambda>_ s'. studio_ok sha s' \<and> st_rows s' = st_rows s \<and>
      st_objs s' (video_object_key i) = st_objs s (video_object_key i)) (\<lambda>_ _. False) s"
proof -
  have put: "wp (store_put (thumbnail_object_key (ar_id row)) bs ''image/png'') (\<lambda>_ s'. studio_ok sha s' \<and> st_rows s' = st_rows s \<and>
      st_objs s' (video_object_key i) = st_objs s (video_object_key i))
     (\<lambda>_ s'. studio_ok sha s' \<and> st_rows s' = st_rows s \<and>
      st_objs s' (video_object_key i) = st_objs s (video_object_key i)) (s\<lparr>st_replies := rs\<rparr>)" for bs rs
    by (rule wp_mono [OF wp_store_put])
      (use assms put_ok(2) [of sha "st_pop (s\<lparr>st_replies := rs\<rparr>)"] in \<open>auto simp: put_object_def thumb_not_video [symmetric]\<close>)
  show ?thesis
    unfolding store_thumbnail_def backend_thumbnail_def wp_attempt
    using assms put by (auto simp: wp_bnd wp_ask_backend wp_ret wp_if Let_def split: reply.split)
qed

text \<open>Storing a checked file and declaring the artifact ready.\<close>

lemma store_and_finish:
  assumes "studio_ok sha s" and "not_ready (ar_id row) s"
    and "validate_mp4 sha ARTIFACT_MAX_VIDEO_BYTES (Some bytes) = Inr info"
  shows "step_keeps sha (ar_id row)
     (bnd (store_put (video_object_key (ar_id row)) bytes ''video/mp4'') (\<lambda>_.
      bnd (store_stat (video_object_key (ar_id row))) (\<lambda>stored.
      if stored \<noteq> Some (mi_size info) then raise StorageError
      else bnd (store_thumbnail row) (\<lambda>thumb.
           artifact_cas (ar_id row) from (ready_row (video_object_key (ar_id row)) thumb info))))) s"
proof -
  define key where "key = video_object_key (ar_id row)"
  define good where "good = (\<lambda>s'. studio_ok sha s' \<and> (\<exists>ob. st_objs s' key = Some ob \<and> so_bytes ob = bytes))"
  have finish: "step_keeps sha (ar_id row) (artifact_cas (ar_id row) from (ready_row key thumb info)) s'" if "good s'" for s' thumb
  proof -
    obtain ob where ob: "studio_ok sha s'" "st_objs s' key = Some ob" "so_bytes ob = bytes" using \<open>good s'\<close> by (auto simp: good_def)
    show ?thesis using ob(1) unfolding key_def
      by (rule cas_step, intro good_ready [OF _ assms(3) [folded ob(3)]]) (use ob(2) in \<open>simp add: key_def\<close>)
  qed
  have thumb: "step_keeps sha (ar_id row) (bnd (store_thumbnail row) (\<lambda>thumb.
      artifact_cas (ar_id row) from (ready_row key thumb info))) s'" if "good s'" for s'
    unfolding wp_bnd [of "store_thumbnail _"]
    by (rule wp_mono [OF step_thumbnail [where i = "ar_id row" and sha = sha]])
      (use that finish in \<open>auto simp: good_def key_def\<close>)
  have stat: "step_keeps sha (ar_id row) (bnd (store_stat key) (\<lambda>stored. if stored \<noteq> Some (mi_size info) then raise StorageError
      else bnd (store_thumbnail row) (\<lambda>thumb. artifact_cas (ar_id row) from (ready_row key thumb info)))) s'" if "good s'" for s'
    unfolding wp_bnd [of "store_stat _"]
  proof (rule wp_mono [OF wp_store_stat], goal_cases)
    case (1 n s'')
    then have "good s''" using that by (simp add: good_def)
    then show ?case using thumb by (cases "n \<noteq> Some (mi_size info)") (simp_all add: wp_raise good_def)
  qed (use that in \<open>simp add: good_def\<close>)
  have ok: "studio_ok sha (put_object key bytes ''video/mp4'' (st_pop s))"
    unfolding key_def by (rule put_ok(1)) (use assms in simp_all)
  then have "good (put_object key bytes ''video/mp4'' (st_pop s))" by (simp add: good_def put_object_def)
  then show ?thesis unfolding key_def [symmetric] wp_bnd [of "store_put _ _ _"]
    by (intro wp_mono [OF wp_store_put]) (use stat ok assms(1) in auto)
qed

lemma step_upload:
  assumes "studio_ok sha s" and "not_ready (ar_id row) s"
  shows "step_keeps sha (ar_id row) (artifact_upload sha row) s"
  unfolding artifact_upload_def
proof (rule after_adopt [OF assms], goal_cases)
  case (1 s')
  define t where "t = s'\<lparr>st_replies := tl (st_replies s')\<rparr>"
  have t: "studio_ok sha t" "not_ready (ar_id row) t" using 1 by (simp_all add: t_def)
  have "wp download_file (\<lambda>_ s''. s'' = t) (\<lambda>_ s''. s'' = t) s'"
    by (auto simp: download_file_def backend_download_def wp_attempt wp_bnd wp_ask_backend wp_ret wp_raise t_def split: reply.split)
  then show ?case unfolding Let_def wp_bnd [of download_file]
  proof (rule wp_mono, goal_cases)
    case (1 got s'')
    then show ?case
      using fail_step [OF t(1)] cas_step [OF t(1) good_changes(2)] store_and_finish [OF t]
      by (cases got) (auto split: sum.split)
  qed (use t in simp)
qed

lemma step_any:
  assumes "studio_ok sha s" and "not_ready (ar_id row) s"
  shows "step_keeps sha (ar_id row) (artifact_step sha row) s"
  using step_dispatch [OF assms] step_poll [OF assms] step_upload [OF assms] assms(1)
  by (simp add: artifact_step_def wp_ret moved_def)

lemma wp_advance_loop:
  assumes "studio_ok sha s" and "not_ready (ar_id row) s"
  shows "wp (advance_loop sha n row) (\<lambda>_ s'. studio_ok sha s') (\<lambda>_ s'. studio_ok sha s') s"
  using assms
proof (induction n arbitrary: row s)
  case 0
  then show ?case by (simp add: wp_ret)
next
  case (Suc n)
  show ?case unfolding advance_loop.simps wp_bnd
  proof (rule wp_mono [OF step_any [OF Suc.prems]], goal_cases)
    case (1 res s')
    show ?case
    proof (cases res)
      case (Some r)
      show ?thesis
      proof (cases "ar_status r \<in> set TERMINAL \<or> ar_status r = ar_status row")
        case False
        then have "ar_status r \<noteq> ''ready''" by (auto simp: TERMINAL_def)
        then show ?thesis using 1 Some False Suc.IH [of s' r] by (simp add: moved_def)
      qed (use 1 Some in \<open>simp add: wp_ret\<close>)
    qed (use 1 in \<open>simp add: wp_ret\<close>)
  qed
qed

abbreviation keeps_ok :: "(byte list \<Rightarrow> string) \<Rightarrow> (studio, 'a) prog \<Rightarrow> studio \<Rightarrow> bool" where
  "keeps_ok sha m s \<equiv> wp m (\<lambda>_ s'. studio_ok sha s') (\<lambda>_ s'. studio_ok sha s') s"

lemma set_lease_ok: "studio_ok sha s \<Longrightarrow> studio_ok sha (set_row i (\<lambda>r. r\<lparr>ar_lease := l\<rparr>) s)"
proof -
  assume ok: "studio_ok sha s"
  have ids: "map ar_id (st_rows (set_row i (\<lambda>r. r\<lparr>ar_lease := l\<rparr>) s)) = map ar_id (st_rows s)"
    "map identity (st_rows (set_row i (\<lambda>r. r\<lparr>ar_lease := l\<rparr>) s)) = map identity (st_rows s)"
    by (simp_all add: set_row_def)
  have "\<forall>a \<in> set (st_rows (set_row i (\<lambda>r. r\<lparr>ar_lease := l\<rparr>) s)). within_bounds a \<and> (ready_video a \<longrightarrow> backed sha (st_objs s) a)"
    using ok by (auto simp: set_row_def studio_ok_def rows_ok_def)
  then show ?thesis using ok unfolding studio_ok_def rows_ok_def ids by (simp add: set_row_def)
qed

lemma wp_lease_ops:
  assumes "studio_ok sha s"
  shows "keeps_ok sha (artifact_release i) s" and "keeps_ok sha (artifact_backoff i) s"
  unfolding artifact_release_def artifact_backoff_def
  by (rule wp_txn_step; use assms in \<open>simp add: set_lease_ok\<close>)+

lemma wp_claim:
  assumes "studio_ok sha s"
  shows "wp (artifact_claim i) (\<lambda>res s'. studio_ok sha s' \<and> (case res of None \<Rightarrow> True | Some r \<Rightarrow> ar_id r = i \<and> not_ready i s'))
     (\<lambda>_ s'. studio_ok sha s') s"
  unfolding artifact_claim_def
proof (rule wp_txn_inv)
  have ok: "studio_ok sha (set_row i (\<lambda>_. r\<lparr>ar_lease := l\<rparr>) (st_pop s))" if "find_artifact i s = Some r" for r l
    by (rule set_row_ok) (use assms that find_iff [OF that [unfolded find_artifact_def]] in \<open>auto simp: studio_ok_def rows_ok_def\<close>)
  have nr: "ar_id r = i \<and> not_ready i (set_row i (\<lambda>_. r\<lparr>ar_lease := l\<rparr>) (st_pop s))"
    if "find_artifact i s = Some r" "ar_status r \<in> set ACTIVE_STATES" for r l
  proof -
    have "ar_id r = i" using that(1) by (auto simp: find_artifact_def dest: find_iff)
    moreover have "ar_status r \<noteq> ''ready''" using that(2) by (auto simp: ACTIVE_STATES_def)
    ultimately show ?thesis using set_row_not_ready [of "r\<lparr>ar_lease := l\<rparr>" i] by simp
  qed
  show "wp (\<lambda>s. case find_artifact i s of None \<Rightarrow> (Inr None, s)
      | Some r \<Rightarrow> if ar_status r \<in> set ACTIVE_STATES \<and> (case ar_lease r of None \<Rightarrow> True | Some t \<Rightarrow> t < st_now s)
          then let r' = r\<lparr>ar_lease := Some (st_now s + sec ARTIFACT_LEASE_SECONDS)\<rparr>
            in (Inr (Some r'), set_row i (\<lambda>_. r') s)
          else (Inr None, s))
     (\<lambda>res s'. studio_ok sha s' \<and> (case res of None \<Rightarrow> True | Some r \<Rightarrow> ar_id r = i \<and> not_ready i s')) (\<lambda>_. studio_ok sha) (st_pop s)"
    using assms ok nr by (auto simp: wp_def Let_def split: option.split)
qed (use assms in simp)

lemma wp_advance:
  assumes "studio_ok sha s"
  shows "keeps_ok sha (artifact_advance sha i) s"
  unfolding artifact_advance_def wp_bnd [of "artifact_claim _"]
proof (rule wp_mono [OF wp_claim [OF assms]], goal_cases)
  case (1 res s')
  show ?case
  proof (cases res)
    case (Some r)
    have clean: "keeps_ok sha (attempt (bnd (artifact_backoff i) (\<lambda>_. ret True)) (\<lambda>e. bnd (artifact_release i) (\<lambda>_. raise e))) t"
      if "studio_ok sha t" for t :: studio
      unfolding wp_attempt wp_bnd
      by (rule wp_mono [OF wp_lease_ops(2) [OF that]]) (auto simp: wp_ret wp_raise intro: wp_mono [OF wp_lease_ops(1)])
    have "keeps_ok sha (attempt (bnd (advance_loop sha 5 r) (\<lambda>_. ret False))
        (\<lambda>_. attempt (bnd (artifact_backoff i) (\<lambda>_. ret True)) (\<lambda>e. bnd (artifact_release i) (\<lambda>_. raise e)))) s'"
      unfolding wp_attempt [of "bnd (advance_loop _ _ _) _"] wp_bnd [of "advance_loop _ _ _"]
      by (rule wp_mono [OF wp_advance_loop]) (use 1 Some clean in \<open>auto simp: wp_ret\<close>)
    then show ?thesis unfolding Some option.case wp_bnd [of "attempt _ _"]
      by (rule wp_mono) (auto simp: wp_ret wp_lease_ops)
  qed (use 1 in \<open>simp add: wp_ret\<close>)
qed simp

lemma wp_retry:
  assumes "studio_ok sha s"
  shows "keeps_ok sha (artifact_retry owner i) s"
proof -
  have get: "wp (artifact_get owner i) (\<lambda>_ s'. studio_ok sha s') (\<lambda>_ s'. studio_ok sha s') t" if "studio_ok sha t" for t
    unfolding artifact_get_def by (rule wp_txn_step) (use that in simp_all)
  show ?thesis unfolding artifact_retry_def wp_bnd [of "artifact_get _ _"]
  proof (rule wp_mono [OF get [OF assms]], goal_cases)
    case (1 found s')
    show ?case
    proof (cases found)
      case (Some row)
      have "keeps_ok sha (bnd (artifact_cas i [''failed''] (\<lambda>r. r\<lparr>ar_status := ''pending'', ar_failure := None, ar_attempts := 0,
           ar_retries := ar_retries row + 1, ar_job := None, ar_lease := None\<rparr>)) (\<lambda>updated. case updated of
             Some r \<Rightarrow> ret (Some r, True) | None \<Rightarrow> bnd (artifact_get owner i) (\<lambda>again. ret (again, False)))) s'"
        if "\<not> ARTIFACT_MAX_MANUAL_RETRIES \<le> ar_retries row"
        unfolding wp_bnd [of "artifact_cas _ _ _"]
      proof (rule wp_mono [OF cas_step [OF 1 good_changes(6)]], goal_cases)
        case (2 upd s'')
        then show ?case by (cases upd) (auto simp: wp_ret wp_bnd intro: wp_mono [OF get])
      qed (use that in simp_all)
      then show ?thesis using 1 Some by (simp add: wp_ret wp_raise)
    qed (use 1 in \<open>simp add: wp_raise\<close>)
  qed simp
qed

lemma wp_mark_missing:
  "studio_ok sha s \<Longrightarrow> keeps_ok sha (mark_object_missing i) s"
  unfolding mark_object_missing_def wp_bnd
  by (rule wp_mono [OF cas_step [OF _ good_changes(7)]]) (auto simp: wp_ret)

lemma wp_register:
  assumes "studio_ok sha s"
  shows "keeps_ok sha (register sha256 uuid5 owner cid mid type content block title) s"
proof (cases "canonical_content type content")
  case (Inl e)
  then show ?thesis using assms by (simp add: register_def wp_bnd wp_lift_result)
next
  case (Inr canonical)
  have fresh_row: "studio_ok sha (t\<lparr>st_rows := st_rows t @ [a], st_refs := fs\<rparr>)"
    if ok: "studio_ok sha t" and free: "\<not> list_ex (taken_by a) (st_rows t)" and a: "within_bounds a" "\<not> ready_video a" for t a fs
    using ok free a by (auto simp: studio_ok_def rows_ok_def list_ex_iff taken_by_def identity_def)
  have txn_ok: "keeps_ok sha (txn (register_txn a ref)) s" if a: "within_bounds a" "\<not> ready_video a" for a ref
  proof (rule wp_mono)
    have same: "studio_ok sha (st_pop s\<lparr>st_rows := st_rows s\<rparr>)" using assms by (simp add: studio_ok_def)
    show "wp (txn (register_txn a ref)) (\<lambda>_ s'. studio_ok sha s' \<and> True) (\<lambda>_. studio_ok sha) s"
      by (intro wp_txn_inv)
        (use assms a same fresh_row [of "st_pop s" a] in \<open>auto simp: wp_def register_txn_def Let_def split: option.split\<close>)
  qed auto
  have type: "type = ''mermaid'' \<or> type = ''manim''" using Inr by (auto simp: canonical_content_def split: if_splits)
  show ?thesis unfolding register_def Inr wp_bnd wp_lift_result wp_getting sum.case Let_def
    by (rule txn_ok) (use type in \<open>auto simp: within_bounds_def ready_video_def VALID_STATES_def ACTIVE_STATES_def TERMINAL_def\<close>)
qed

lemma split_on_none: "c \<notin> set w \<Longrightarrow> split_on c w = [w]"
  by (induction w) auto

lemma split_on_first: "c \<notin> set w \<Longrightarrow> split_on c (w @ c # s) = w # split_on c s"
  by (induction w) auto

lemma uuid_str_no_slash: "CHR ''/'' \<notin> set (uuid_str i)"
proof
  assume "CHR ''/'' \<in> set (uuid_str i)"
  then have "CHR ''/'' \<in> set (uuid_hex i)" using uuid_str_subset [of i] by auto
  then obtain n where n: "n < 16" "CHR ''/'' = hex_digit n" using uuid_hex_char by blast
  then have "hex_value CHR ''/'' = Some n" by (simp only: hex_value_digit)
  then show False by (simp add: hex_value_def)
qed

lemma split_video_key: "split_on CHR ''/'' (video_object_key i) = [''artifacts'', uuid_str i, ''video.mp4'']"
proof -
  have "video_object_key i = ''artifacts'' @ CHR ''/'' # uuid_str i @ CHR ''/'' # ''video.mp4''"
    by (simp add: video_object_key_def)
  then show ?thesis by (simp add: split_on_first split_on_none uuid_str_no_slash)
qed

lemma wp_delete_orphan:
  assumes "studio_ok sha s"
  shows "keeps_ok sha (delete_orphan cutoff key n) s"
proof -
  have delete: "keeps_ok sha (bnd (store_delete key) (\<lambda>_. ret (n + 1))) t"
    if ok: "studio_ok sha t" and rows: "\<And>a. a \<in> set (st_rows t) \<Longrightarrow> video_object_key (ar_id a) \<noteq> key" for t
  proof -
    have "studio_ok sha (st_pop t\<lparr>st_objs := (st_objs t)(key := None)\<rparr>)"
      using object_change [of sha "st_pop t" key None] ok rows by simp
    then show ?thesis unfolding wp_bnd by (intro wp_mono [OF wp_store_delete]) (use ok in \<open>auto simp: wp_ret\<close>)
  qed
  have check: "keeps_ok sha (bnd (txn (\<lambda>s. (Inr (find_artifact i s), s))) (\<lambda>known.
      if known = None then bnd (store_delete key) (\<lambda>_. ret (n + 1)) else ret n)) s"
    if key: "split_on CHR ''/'' key = [x, part, y]" and part: "parse_uuid part = Some i" for x part y i
  proof -
    have other: "video_object_key (ar_id a) \<noteq> key" if "find_artifact i s = None" "a \<in> set (st_rows s)" for a
    proof
      assume "video_object_key (ar_id a) = key"
      then have "part = uuid_str (ar_id a)" using key split_video_key [of "ar_id a"] by simp
      then have "ar_id a = i" using part by (simp add: parse_uuid_str)
      then show False using that by (auto simp: find_artifact_def find_None_iff)
    qed
    have "wp (txn (\<lambda>s. (Inr (find_artifact i s), s))) (\<lambda>known t. t = st_pop s \<and> known = find_artifact i s) (\<lambda>_ t. t = st_pop s) s"
      by (simp add: wp_def txn_def split: fault.split)
    then show ?thesis unfolding wp_bnd [of "txn _"]
      by (rule wp_mono) (use assms delete [of "st_pop s"] other in \<open>auto simp: wp_ret\<close>)
  qed
  show ?thesis unfolding delete_orphan_def wp_bnd [of "getting _"] wp_getting
    using assms check by (auto simp: wp_ret split: option.split list.split)
qed

section \<open>Runs\<close>

datatype request =
    Register uuid uuid uuid string json string "string option"
  | Retry uuid uuid
  | Advance uuid
  | Worker_pass
  | Object_missing uuid
  | Janitor "string list" int

fun serve :: "(byte list \<Rightarrow> string) \<Rightarrow> (string \<Rightarrow> string) \<Rightarrow> (string \<Rightarrow> uuid) \<Rightarrow> request \<Rightarrow> (studio, unit) prog" where
  "serve sha sha256 uuid5 (Register owner cid mid type content block title) =
     bnd (register sha256 uuid5 owner cid mid type content block title) (\<lambda>_. ret ())"
| "serve sha sha256 uuid5 (Retry owner i) = bnd (artifact_retry owner i) (\<lambda>_. ret ())"
| "serve sha sha256 uuid5 (Advance i) = artifact_advance sha i"
| "serve sha sha256 uuid5 Worker_pass = bnd (run_once sha) (\<lambda>_. ret ())"
| "serve sha sha256 uuid5 (Object_missing i) = mark_object_missing i"
| "serve sha sha256 uuid5 (Janitor keys grace) = bnd (delete_orphan_objects keys grace) (\<lambda>_. ret ())"

text \<open>Each request comes with the time, the failures to come and the answers of the backend.\<close>

fun run_requests ::
  "(byte list \<Rightarrow> string) \<Rightarrow> (string \<Rightarrow> string) \<Rightarrow> (string \<Rightarrow> uuid) \<Rightarrow> (int \<times> fault list \<times> reply list \<times> string \<times> request) list
   \<Rightarrow> studio \<Rightarrow> studio" where
  "run_requests sha sha256 uuid5 [] s = s"
| "run_requests sha sha256 uuid5 ((t, fs, rs, v, q) # qs) s =
     run_requests sha sha256 uuid5 qs
       (after (serve sha sha256 uuid5 q) (s\<lparr>st_now := t, st_sched := fs, st_replies := rs, st_renderer := v\<rparr>))"

definition empty_studio :: studio where
  "empty_studio = \<lparr>st_now = 0, st_sched = [], st_replies = [], st_renderer = [], st_rows = [], st_refs = [], st_jobs = [], st_objs = (\<lambda>_. None),
    st_checks = True\<rparr>"

lemma wp_run_once:
  assumes "studio_ok sha s"
  shows "keeps_ok sha (run_once sha) s"
proof -
  have ids: "keeps_ok sha (active_ids 25) s"
    unfolding active_ids_def by (rule wp_txn_step) (use assms in simp_all)
  have pass: "keeps_ok sha (fold_prog (\<lambda>i _. attempt (artifact_advance sha i) (\<lambda>_. ret ())) is ()) t" if "studio_ok sha t" for t "is"
    by (rule wp_fold_prog_inv [where I = "studio_ok sha", OF _ that]) (simp add: wp_attempt wp_ret wp_advance)
  show ?thesis unfolding run_once_def wp_bnd
    by (rule wp_mono [OF ids]) (auto simp: wp_ret intro: wp_mono [OF pass])
qed

lemma wp_serve:
  assumes "studio_ok sha s"
  shows "keeps_ok sha (serve sha sha256 uuid5 q) s"
proof (cases q)
  case (Janitor keys grace)
  have "keeps_ok sha (fold_prog (delete_orphan cutoff) names n) s" for cutoff names n
    by (rule wp_fold_prog_inv [where I = "studio_ok sha", OF _ assms]) (rule wp_delete_orphan)
  then show ?thesis by (simp add: Janitor delete_orphan_objects_def wp_bnd wp_getting wp_ret)
qed (use wp_register [OF assms] wp_retry [OF assms] wp_advance [OF assms] wp_run_once [OF assms] wp_mark_missing [OF assms]
  in \<open>auto simp: wp_bnd wp_ret\<close>)

lemma run_requests_ok: "studio_ok sha s \<Longrightarrow> studio_ok sha (run_requests sha sha256 uuid5 qs s)"
proof (induction qs arbitrary: s)
  case (Cons x qs)
  obtain t fs rs v q where x: "x = (t, fs, rs, v, q)" by (cases x)
  have "studio_ok sha (s\<lparr>st_now := t, st_sched := fs, st_replies := rs, st_renderer := v\<rparr>)"
    using Cons.prems by (simp add: studio_ok_def)
  then have "studio_ok sha (after (serve sha sha256 uuid5 q) (s\<lparr>st_now := t, st_sched := fs, st_replies := rs, st_renderer := v\<rparr>))"
    using wp_serve by (simp add: wp_after)
  then show ?case by (simp add: x Cons.IH)
qed simp

section \<open>Properties\<close>

text \<open>
  Whatever requests and worker passes run, with whatever calls failing and whatever the render backend answers: an
  animation shown as ready has a stored video that passes the MP4 check and has the recorded size and digest; there is one
  artifact per id and per owner, type and fingerprint; no artifact begins more than 3 automatic renders or 5 retries.
\<close>

theorem ready_animations_are_verified:
  "studio_ok sha (run_requests sha sha256 uuid5 qs empty_studio)"
  by (rule run_requests_ok) (simp add: studio_ok_def rows_ok_def empty_studio_def)

text \<open>Two workers of which the first is slow: its lease runs out before it gives it up.\<close>

definition let_pass :: "int \<Rightarrow> (studio, unit) prog" where
  "let_pass t = (\<lambda>s. (Inr (), s\<lparr>st_now := st_now s + t\<rparr>))"

definition slow_worker :: "uuid \<Rightarrow> (studio, bool \<times> bool \<times> bool) prog" where
  "slow_worker i =
     bnd (artifact_claim i) (\<lambda>first.
     bnd (let_pass (sec ARTIFACT_LEASE_SECONDS + 1)) (\<lambda>_.
     bnd (artifact_claim i) (\<lambda>second.
     bnd (artifact_release i) (\<lambda>_.
     bnd (artifact_claim i) (\<lambda>third. ret (first \<noteq> None, second \<noteq> None, third \<noteq> None))))))"

lemma wp_let_pass: "wp (let_pass t) Q E s = Q () (s\<lparr>st_now := st_now s + t\<rparr>)"
  by (simp add: wp_def let_pass_def)

lemma find_set_row:
  assumes "\<And>r. ar_id (f r) = ar_id r"
  shows "find_artifact i (set_row i f s) = map_option f (find_artifact i s)"
proof -
  have "find (\<lambda>r. ar_id r = i) (map (\<lambda>r. if ar_id r = i then f r else r) rows) = map_option f (find (\<lambda>r. ar_id r = i) rows)" for rows
    using assms by (induction rows) auto
  then show ?thesis by (simp add: find_artifact_def set_row_def)
qed

lemma find_set_row_const:
  assumes "ar_id r' = i"
  shows "find_artifact i (set_row i (\<lambda>_. r') s) = map_option (\<lambda>_. r') (find_artifact i s)"
proof -
  have "find (\<lambda>r. ar_id r = i) (map (\<lambda>r. if ar_id r = i then r' else r) rows) = map_option (\<lambda>_. r') (find (\<lambda>r. ar_id r = i) rows)" for rows
    using assms by (induction rows) auto
  then show ?thesis by (simp add: find_artifact_def set_row_def)
qed

definition claimable :: "uuid \<Rightarrow> studio \<Rightarrow> bool" where
  "claimable i s \<longleftrightarrow> st_sched s = [] \<and> (\<exists>r. find_artifact i s = Some r \<and> ar_status r \<in> set ACTIVE_STATES \<and>
     (case ar_lease r of None \<Rightarrow> True | Some t \<Rightarrow> t < st_now s))"

definition leased_until :: "uuid \<Rightarrow> int \<Rightarrow> studio \<Rightarrow> bool" where
  "leased_until i t s \<longleftrightarrow> st_sched s = [] \<and> (\<exists>r. find_artifact i s = Some r \<and> ar_status r \<in> set ACTIVE_STATES \<and> ar_lease r = Some t)"

lemma claim_claimable:
  assumes "claimable i s"
  shows "wp (artifact_claim i) (\<lambda>res s'. res \<noteq> None \<and> leased_until i (st_now s + sec ARTIFACT_LEASE_SECONDS) s' \<and> st_now s' = st_now s)
     (\<lambda>_ _. False) s"
proof -
  obtain r where r: "find_artifact i s = Some r" "ar_status r \<in> set ACTIVE_STATES" "case ar_lease r of None \<Rightarrow> True | Some t \<Rightarrow> t < st_now s"
    and calm: "st_sched s = []" using assms by (auto simp: claimable_def)
  have "ar_id r = i" using r(1) by (auto simp: find_artifact_def dest: find_iff)
  moreover have "st_now (set_row i f s) = st_now s" "st_sched (set_row i f s) = st_sched s" for f
    by (simp_all add: set_row_def)
  moreover have "st_pop s = s" using calm by (simp add: st_pop_def)
  ultimately show ?thesis using r calm
    by (cases "ar_lease r") (simp_all add: artifact_claim_def txn_def st_fault_def wp_def Let_def leased_until_def find_set_row_const)
qed

lemma release_leased:
  assumes "leased_until i t s"
  shows "wp (artifact_release i) (\<lambda>_ s'. claimable i s' \<and> st_now s' = st_now s) (\<lambda>_ _. False) s"
proof -
  obtain r where r: "find_artifact i s = Some r" "ar_status r \<in> set ACTIVE_STATES" and calm: "st_sched s = []"
    using assms by (auto simp: leased_until_def)
  have "st_now (set_row i f s) = st_now s" "st_sched (set_row i f s) = st_sched s" for f by (simp_all add: set_row_def)
  moreover have "st_pop s = s" using calm by (simp add: st_pop_def)
  ultimately show ?thesis using r calm
    by (simp add: artifact_release_def txn_def st_fault_def wp_def claimable_def find_set_row)
qed

lemma expired_claimable:
  "leased_until i t s \<Longrightarrow> t < st_now s + d \<Longrightarrow> claimable i (s\<lparr>st_now := st_now s + d\<rparr>)"
  by (auto simp: leased_until_def claimable_def find_artifact_def)

lemma slow_worker_law:
  assumes "claimable i s"
  shows "wp (slow_worker i) (\<lambda>(first, second, third) s'. first \<and> second \<and> third \<and>
     st_now s' = st_now s + sec ARTIFACT_LEASE_SECONDS + 1) (\<lambda>_ _. False) s"
  unfolding slow_worker_def wp_bnd
proof (rule wp_mono [OF claim_claimable [OF assms]], goal_cases)
  case (1 first s1)
  define s2 where "s2 = s1\<lparr>st_now := st_now s1 + (sec ARTIFACT_LEASE_SECONDS + 1)\<rparr>"
  have c2: "claimable i s2" unfolding s2_def by (rule expired_claimable) (use 1 in auto)
  have now2: "st_now s2 = st_now s + sec ARTIFACT_LEASE_SECONDS + 1" using 1 by (simp add: s2_def)
  have third: "wp (artifact_claim i) (\<lambda>res s'. res \<noteq> None \<and> st_now s' = st_now s4) (\<lambda>_ _. False) s4" if "claimable i s4" for s4
    by (rule wp_mono [OF claim_claimable [OF that]]) auto
  have "wp (artifact_claim i) (\<lambda>second. wp (artifact_release i) (\<lambda>_. wp (artifact_claim i)
      (\<lambda>third s'. second \<noteq> None \<and> third \<noteq> None \<and> st_now s' = st_now s2) (\<lambda>_ _. False)) (\<lambda>_ _. False)) (\<lambda>_ _. False) s2"
    by (rule wp_mono [OF claim_claimable [OF c2]])
      (auto intro!: wp_mono [OF release_leased] wp_mono [OF third])
  moreover have "s1\<lparr>st_now := st_now s + (sec ARTIFACT_LEASE_SECONDS + 1)\<rparr> = s2" using 1 by (simp add: s2_def)
  ultimately show ?case using 1 by (simp add: wp_ret wp_let_pass now2)
qed simp

text \<open>
  The lease does not keep the workers apart: the lease is given up by id alone, so a worker whose lease ran out
  while it worked frees the artifact under the worker that has taken it over, and a third worker then claims it at the very
  moment the second one has just been granted it for 60 seconds.
\<close>

theorem late_release_frees_foreign_lease:
  assumes "claimable i s"
  shows "wp (slow_worker i) (\<lambda>(first, second, third) s'. first \<and> second \<and> third \<and>
     st_now s' = st_now s + sec ARTIFACT_LEASE_SECONDS + 1) (\<lambda>_ _. False) s"
  by (rule slow_worker_law) (rule assms)

definition queued_artifact :: artifact where
  "queued_artifact = \<lparr>ar_id = 4, ar_owner = 1, ar_type = ''manim'', ar_title = [], ar_fp = [], ar_spec = [], ar_status = ''queued'',
     ar_job = Some ''j'', ar_key = None, ar_thumb = None, ar_mime = None, ar_size = None, ar_sha = None, ar_renderer = [],
     ar_failure = None, ar_attempts = 1, ar_retries = 0, ar_lease = None, ar_conv = 2, ar_msg = 3, ar_created = 0, ar_updated = 0\<rparr>"

theorem late_release_frees_foreign_lease_witness:
  "wp (slow_worker 4) (\<lambda>(first, second, third) s'. first \<and> second \<and> third \<and>
     st_now s' = st_now (empty_studio\<lparr>st_rows := [queued_artifact]\<rparr>) + sec ARTIFACT_LEASE_SECONDS + 1)
     (\<lambda>_ _. False) (empty_studio\<lparr>st_rows := [queued_artifact]\<rparr>)"
  by (rule late_release_frees_foreign_lease)
    (simp add: claimable_def empty_studio_def find_artifact_def queued_artifact_def ACTIVE_STATES_def)

end
