(* ===== verification/Documents.thy ===== *)
theory Documents
  imports Outbox_Worker "HOL-Library.Char_ord" "HOL-Library.List_Lexorder"
begin

text \<open>
  \<open>app/repositories/notes_repository.py\<close>, \<open>app/repositories/source_edit_repository.py\<close> and their routes
  \<open>app/api/v1/notes.py\<close>, \<open>app/api/v1/source_edits.py\<close>: documents with a version, saved by compare-and-set.

  The abstract specification is the register \<open>cas\<close>; the locale \<open>cas_documents\<close> states that a repository
  implements it, and is interpreted on both repositories. The conversation is read from the Cassandra side
  (\<open>world\<close>), the document from PostgreSQL (\<open>pg\<close>): a route runs on the pair. An exception \<open>NotesVersionConflict\<close> or
  \<open>SourceEditConflict\<close> that leaves a route stands for the 409 answer built from the row it carries.
\<close>

definition NOTES_MAX_CHARS :: nat where "NOTES_MAX_CHARS = 100000"
definition NOTES_DB_MAX_CHARS :: nat where "NOTES_DB_MAX_CHARS = 200000"
definition SOURCE_EDIT_MAX_CHARS :: nat where "SOURCE_EDIT_MAX_CHARS = 100000"
definition SOURCE_EDIT_DB_MAX_CHARS :: nat where "SOURCE_EDIT_DB_MAX_CHARS = 200000"
definition SOURCE_EDIT_MAX_PER_CONVERSATION :: nat where "SOURCE_EDIT_MAX_PER_CONVERSATION = 200"

section \<open>Notes\<close>

definition notes_get :: "uuid \<Rightarrow> uuid \<Rightarrow> (pg, note_row option) prog" where
  "notes_get owner cid = select (\<lambda>s. pg_notes s (owner, cid))"

text \<open>\<open>INSERT ... ON CONFLICT DO NOTHING RETURNING\<close> and \<open>UPDATE ... WHERE version = :exp ... RETURNING\<close>.\<close>

definition insert_note :: "uuid \<times> uuid \<Rightarrow> string \<Rightarrow> pg \<Rightarrow> (exn + note_row option) \<times> pg" where
  "insert_note k content s =
     (if pg_enforced s \<and> NOTES_DB_MAX_CHARS < length content then (Inl DbError, s)
      else case pg_notes s k of
        Some _ \<Rightarrow> (Inr None, s)
      | None \<Rightarrow> (let r = \<lparr>nt_content = content, nt_version = 1, nt_updated = pg_now s\<rparr>
                 in (Inr (Some r), s\<lparr>pg_notes := (pg_notes s)(k \<mapsto> r)\<rparr>)))"

definition update_note :: "uuid \<times> uuid \<Rightarrow> string \<Rightarrow> int \<Rightarrow> pg \<Rightarrow> (exn + note_row option) \<times> pg" where
  "update_note k content expected s = (case pg_notes s k of
     None \<Rightarrow> (Inr None, s)
   | Some old \<Rightarrow>
       if nt_version old = expected \<and> nt_content old \<noteq> content then
         if pg_enforced s \<and> NOTES_DB_MAX_CHARS < length content then (Inl DbError, s)
         else (let r = \<lparr>nt_content = content, nt_version = nt_version old + 1, nt_updated = pg_now s\<rparr>
               in (Inr (Some r), s\<lparr>pg_notes := (pg_notes s)(k \<mapsto> r)\<rparr>))
       else (Inr None, s))"

definition notes_save :: "uuid \<Rightarrow> uuid \<Rightarrow> string \<Rightarrow> int \<Rightarrow> (pg, note_row \<times> bool) prog" where
  "notes_save owner cid content expected =
     bnd (sql (if expected = 0 then insert_note (owner, cid) content else update_note (owner, cid) content expected)) (\<lambda>row.
     case row of
       Some r \<Rightarrow> ret (r, True)
     | None \<Rightarrow>
         bnd (notes_get owner cid) (\<lambda>current. case current of
           None \<Rightarrow> raise (NotesVersionConflict None)
         | Some cur \<Rightarrow> if nt_content cur = content then ret (cur, False) else raise (NotesVersionConflict (Some cur))))"

section \<open>Source edits\<close>

type_synonym edit_key = "uuid \<times> uuid \<times> uuid \<times> string"

definition edit_key :: "edit_row \<Rightarrow> edit_key" where
  "edit_key r = (ed_owner r, ed_conv r, ed_msg r, ed_block r)"

definition find_edit :: "edit_key \<Rightarrow> pg \<Rightarrow> edit_row option" where
  "find_edit k s = find (\<lambda>r. edit_key r = k) (pg_edits s)"

definition edits_of :: "uuid \<Rightarrow> uuid \<Rightarrow> pg \<Rightarrow> edit_row list" where
  "edits_of owner cid s = filter (\<lambda>r. ed_owner r = owner \<and> ed_conv r = cid) (pg_edits s)"

text \<open>\<open>ORDER BY created_at, block_id\<close> (the collation of the block ids is the order of their characters).\<close>

definition edits_list :: "uuid \<Rightarrow> uuid \<Rightarrow> uuid option \<Rightarrow> (pg, edit_row list) prog" where
  "edits_list owner cid mid = select (\<lambda>s.
     sort_key (\<lambda>r. ed_created r) (sort_key ed_block
       (filter (\<lambda>r. case mid of None \<Rightarrow> True | Some m \<Rightarrow> ed_msg r = m) (edits_of owner cid s))))"

definition edits_get :: "edit_key \<Rightarrow> (pg, edit_row option) prog" where
  "edits_get k = select (find_edit k)"

definition insert_edit ::
  "edit_key \<Rightarrow> string \<Rightarrow> string \<Rightarrow> string \<Rightarrow> string \<Rightarrow> nat \<Rightarrow> pg \<Rightarrow> (exn + edit_row option) \<times> pg" where
  "insert_edit k content language format sha cap s = (case k of (owner, cid, mid, block) \<Rightarrow>
     (let r = \<lparr>ed_owner = owner, ed_conv = cid, ed_msg = mid, ed_block = block, ed_language = language,
          ed_format = format, ed_sha = sha, ed_content = content, ed_version = 1,
          ed_created = pg_now s, ed_updated = pg_now s\<rparr>
      in if cap \<le> length (edits_of owner cid s) then (Inr None, s)
         else if pg_enforced s \<and> \<not> edit_checks r then (Inl DbError, s)
         else if find_edit k s \<noteq> None then (Inr None, s)
         else (Inr (Some r), s\<lparr>pg_edits := pg_edits s @ [r]\<rparr>)))"

definition update_edit :: "edit_key \<Rightarrow> string \<Rightarrow> int \<Rightarrow> pg \<Rightarrow> (exn + edit_row option) \<times> pg" where
  "update_edit k content expected s = (case find_edit k s of
     None \<Rightarrow> (Inr None, s)
   | Some old \<Rightarrow>
       if ed_version old = expected \<and> ed_content old \<noteq> content then
         (let new = (\<lambda>r. r\<lparr>ed_content := content, ed_version := ed_version r + 1, ed_updated := pg_now s\<rparr>)
          in if pg_enforced s \<and> \<not> edit_checks (new old) then (Inl DbError, s)
             else (Inr (Some (new old)), s\<lparr>pg_edits := map (\<lambda>r. if edit_key r = k then new r else r) (pg_edits s)\<rparr>))
       else (Inr None, s))"

definition edits_save ::
  "edit_key \<Rightarrow> string \<Rightarrow> int \<Rightarrow> string \<Rightarrow> string \<Rightarrow> string \<Rightarrow> nat \<Rightarrow> (pg, edit_row \<times> bool) prog" where
  "edits_save k content expected language format sha cap =
     bnd (sql (if expected = 0 then insert_edit k content language format sha cap else update_edit k content expected)) (\<lambda>row.
     case row of
       Some r \<Rightarrow> ret (r, True)
     | None \<Rightarrow>
         bnd (edits_get k) (\<lambda>current. case current of
           None \<Rightarrow> if expected = 0 then raise SourceEditLimitReached else raise (SourceEditConflict None)
         | Some cur \<Rightarrow> if ed_content cur = content then ret (cur, False) else raise (SourceEditConflict (Some cur))))"

definition delete_edit :: "edit_key \<Rightarrow> int \<Rightarrow> pg \<Rightarrow> (exn + bool) \<times> pg" where
  "delete_edit k expected s = (case find_edit k s of
     None \<Rightarrow> (Inr False, s)
   | Some old \<Rightarrow>
       if ed_version old = expected then (Inr True, s\<lparr>pg_edits := filter (\<lambda>r. edit_key r \<noteq> k) (pg_edits s)\<rparr>)
       else (Inr False, s))"

definition edits_delete :: "edit_key \<Rightarrow> int \<Rightarrow> (pg, bool) prog" where
  "edits_delete k expected =
     bnd (sql (delete_edit k expected)) (\<lambda>gone.
     if gone then ret True
     else bnd (edits_get k) (\<lambda>current. case current of
            None \<Rightarrow> ret False
          | Some cur \<Rightarrow> raise (SourceEditConflict (Some cur))))"

section \<open>Routes\<close>

text \<open>A request that uses both stores.\<close>

definition on_world :: "(world, 'a) prog \<Rightarrow> (world \<times> 's, 'a) prog" where
  "on_world m = (\<lambda>(w, s). case m w of (r, w') \<Rightarrow> (r, (w', s)))"

definition on_other :: "('s, 'a) prog \<Rightarrow> (world \<times> 's, 'a) prog" where
  "on_other m = (\<lambda>(w, s). case m s of (r, s') \<Rightarrow> (r, (w, s')))"

lemma wp_on_world [wp_simps]:
  "wp (on_world m) Q E (w, s) = wp m (\<lambda>a w'. Q a (w', s)) (\<lambda>e w'. E e (w', s)) w"
  by (simp add: wp_def on_world_def split: prod.splits sum.splits)

lemma wp_on_other [wp_simps]:
  "wp (on_other m) Q E (w, s) = wp m (\<lambda>a s'. Q a (w, s')) (\<lambda>e s'. E e (w, s')) s"
  by (simp add: wp_def on_other_def split: prod.splits sum.splits)

definition active_owned_conversation :: "uuid \<Rightarrow> uuid \<Rightarrow> (world, conversation) prog" where
  "active_owned_conversation user cid =
     bnd (attempt (conv_service_get cid) (\<lambda>_. raise (HTTPException 503 ''conversation_unavailable''))) (\<lambda>found.
     case found of
       None \<Rightarrow> raise (HTTPException 404 ''Conversation not found'')
     | Some conv \<Rightarrow>
         if cv_user conv \<noteq> user \<or> cv_status conv = DELETED then raise (HTTPException 404 ''Conversation not found'')
         else ret conv)"

record notes_update =
  nu_content :: string
  nu_version :: int

definition no_nul :: "string \<Rightarrow> bool" where
  "no_nul v = (CHR 0x00 \<notin> set v)"

definition validate_notes :: "notes_update \<Rightarrow> exn + notes_update" where
  "validate_notes b =
     (if NOTES_MAX_CHARS < length (nu_content b) \<or> nu_version b < 0 then Inl (ValueError ''notes'')
      else if \<not> no_nul (nu_content b) then Inl (ValueError ''notes cannot contain NUL characters'')
      else Inr b)"

record notes_document =
  nd_conv :: uuid
  nd_content :: string
  nd_version :: int
  nd_updated :: "int option"

definition notes_doc :: "uuid \<Rightarrow> note_row option \<Rightarrow> notes_document" where
  "notes_doc cid row = (case row of
     None \<Rightarrow> \<lparr>nd_conv = cid, nd_content = [], nd_version = 0, nd_updated = None\<rparr>
   | Some r \<Rightarrow> \<lparr>nd_conv = cid, nd_content = nt_content r, nd_version = nt_version r, nd_updated = Some (nt_updated r)\<rparr>)"

definition api_get_notes :: "uuid \<Rightarrow> uuid \<Rightarrow> (world \<times> pg, notes_document) prog" where
  "api_get_notes user cid =
     bnd (on_world (active_owned_conversation user cid)) (\<lambda>conv.
     on_other (transact (bnd (notes_get user (cv_id conv)) (\<lambda>row. ret (notes_doc (cv_id conv) row)))))"

definition api_put_notes :: "uuid \<Rightarrow> uuid \<Rightarrow> notes_update \<Rightarrow> (world \<times> pg, notes_document) prog" where
  "api_put_notes user cid body =
     bnd (on_world (active_owned_conversation user cid)) (\<lambda>conv.
     on_other (transact (bnd (notes_save user (cv_id conv) (nu_content body) (nu_version body)) (\<lambda>(row, written).
       ret (notes_doc (cv_id conv) (Some row))))))"

record edit_update =
  eu_content :: string
  eu_version :: int
  eu_language :: string
  eu_format :: string
  eu_sha :: string

definition language_char :: "char \<Rightarrow> bool" where
  "language_char c = (is_lower_az c \<or> is_digit c \<or> c \<in> set ''+#._-'')"

definition block_char :: "char \<Rightarrow> bool" where
  "block_char c = (is_lower_az c \<or> is_upper_az c \<or> is_digit c \<or> c \<in> set ''._:-'')"

definition valid_block :: "string \<Rightarrow> bool" where
  "valid_block b = (b \<noteq> [] \<and> length b \<le> 80 \<and> list_all block_char b)"

definition validate_edit :: "edit_update \<Rightarrow> exn + edit_update" where
  "validate_edit b =
     (if SOURCE_EDIT_MAX_CHARS < length (eu_content b) \<or> eu_version b < 0
         \<or> 32 < length (eu_language b) \<or> \<not> list_all language_char (eu_language b)
         \<or> eu_format b \<notin> {''code'', ''text'', ''markdown''}
         \<or> length (eu_sha b) \<noteq> 64 \<or> \<not> list_all (\<lambda>c. is_digit c \<or> c \<in> set ''abcdef'') (eu_sha b)
      then Inl (ValueError ''source edit'')
      else if \<not> no_nul (eu_content b) then Inl (ValueError ''source cannot contain NUL characters'')
      else Inr b)"

definition api_list_edits :: "uuid \<Rightarrow> uuid \<Rightarrow> uuid option \<Rightarrow> (world \<times> pg, edit_row list) prog" where
  "api_list_edits user cid mid =
     bnd (on_world (active_owned_conversation user cid)) (\<lambda>conv. on_other (transact (edits_list user (cv_id conv) mid)))"

definition api_put_edit ::
  "uuid \<Rightarrow> uuid \<Rightarrow> uuid \<Rightarrow> string \<Rightarrow> edit_update \<Rightarrow> (world \<times> pg, edit_row) prog" where
  "api_put_edit user cid mid block body =
     bnd (on_world (active_owned_conversation user cid)) (\<lambda>conv.
     on_other (transact (attempt
       (bnd (edits_save (user, cv_id conv, mid, block) (eu_content body) (eu_version body) (eu_language body)
              (eu_format body) (eu_sha body) SOURCE_EDIT_MAX_PER_CONVERSATION) (\<lambda>(row, written). ret row))
       (\<lambda>e. raise (if e = SourceEditLimitReached then HTTPException 422 ''too_many_edits'' else e)))))"

definition api_delete_edit :: "uuid \<Rightarrow> uuid \<Rightarrow> uuid \<Rightarrow> string \<Rightarrow> int \<Rightarrow> (world \<times> pg, unit) prog" where
  "api_delete_edit user cid mid block version =
     bnd (on_world (active_owned_conversation user cid)) (\<lambda>conv.
     on_other (transact (bnd (edits_delete (user, cv_id conv, mid, block) version) (\<lambda>_. ret ()))))"

section \<open>The register\<close>

text \<open>
  \<open>cas doc content version\<close>: the document after a save and how the save ends. A document is its text and its
  version; no document has version 0.
\<close>

datatype outcome = Written | Unchanged | Stale

fun cas :: "(string \<times> int) option \<Rightarrow> string \<Rightarrow> int \<Rightarrow> (string \<times> int) option \<times> outcome" where
  "cas None content expected =
     (if expected = 0 then (Some (content, 1), Written) else (None, Stale))"
| "cas (Some (old, n)) content expected =
     (if old = content then (Some (old, n), Unchanged)
      else if expected = n \<and> expected \<noteq> 0 then (Some (content, n + 1), Written)
      else (Some (old, n), Stale))"

locale cas_documents =
  fixes doc :: "'k \<Rightarrow> pg \<Rightarrow> (string \<times> int) option"
    and save :: "'k \<Rightarrow> string \<Rightarrow> int \<Rightarrow> (pg, 'r \<times> bool) prog"
    and text_of_row :: "'r \<Rightarrow> string \<times> int"
  assumes save_law: "wp (save k c v)
      (\<lambda>(r, written) s'. cas (doc k s) c v = (doc k s', if written then Written else Unchanged) \<and>
         doc k s' = Some (text_of_row r) \<and> (\<forall>j. j \<noteq> k \<longrightarrow> doc j s' = doc j s))
      (\<lambda>e s'. \<forall>j. doc j s' = doc j s) s"
begin

text \<open>Two writers that read the same version: the second one with another text is refused.\<close>

lemma one_writer:
  assumes "c \<noteq> d" and "v \<noteq> 0 \<or> doc k s = None" and "0 \<le> v"
  shows "wp (save k c v) (\<lambda>(r, written) s1. written \<longrightarrow>
     wp (save k d v) (\<lambda>_ _. False) (\<lambda>_ s2. doc k s2 = Some (c, v + 1)) s1) (\<lambda>_ _. True) s"
proof (rule wp_mono [OF save_law], goal_cases)
  case (1 r s1)
  have "wp (save k d v) (\<lambda>_ _. False) (\<lambda>_ s2. doc k s2 = Some (c, v + 1)) s1" if "doc k s1 = Some (c, v + 1)"
    by (rule wp_mono [OF save_law]) (use that assms in \<open>auto split: if_splits\<close>)
  moreover have "doc k s1 = Some (c, v + 1)" if "cas (doc k s) c v = (doc k s1, Written)"
    using that by (cases "(doc k s, c, v)" rule: cas.cases) (auto split: if_splits)
  ultimately show ?case using 1 by auto
qed simp

text \<open>A repeated save, whatever happened to the first one, ends with the text stored once.\<close>

lemma retry_after_lost_answer:
  "wp (save k c v) (\<lambda>(r, written) s1.
     wp (save k c v) (\<lambda>(r', written') s2. \<not> written' \<and> text_of_row r' = text_of_row r \<and> doc k s2 = doc k s1)
       (\<lambda>_ s2. doc k s2 = doc k s1) s1) (\<lambda>_ s1. doc k s1 = doc k s) s"
proof (rule wp_mono [OF save_law], goal_cases)
  case (1 p s1)
  obtain r w where p: "p = (r, w)" by (cases p)
  have "\<exists>n. doc k s1 = Some (c, n)"
    using 1 by (cases "(doc k s, c, v)" rule: cas.cases) (auto simp: p split: if_splits dest!: sym [of "(_, _)"])
  then obtain n where n: "doc k s1 = Some (c, n)" ..
  show ?case unfolding p prod.case
    by (rule wp_mono [OF save_law]) (use 1 n p in \<open>auto split: if_splits\<close>)
qed simp

end

section \<open>The repositories implement it\<close>

definition note_doc :: "uuid \<times> uuid \<Rightarrow> pg \<Rightarrow> (string \<times> int) option" where
  "note_doc k s = map_option (\<lambda>r. (nt_content r, nt_version r)) (pg_notes s k)"

definition edit_doc :: "edit_key \<Rightarrow> pg \<Rightarrow> (string \<times> int) option" where
  "edit_doc k s = map_option (\<lambda>r. (ed_content r, ed_version r)) (find_edit k s)"

lemma note_doc_pop [simp]: "note_doc k (pg_pop s) = note_doc k s"
  by (simp add: note_doc_def)

lemma find_edit_pop [simp]: "find_edit k (pg_pop s) = find_edit k s" "edit_doc k (pg_pop s) = edit_doc k s"
  by (simp_all add: edit_doc_def find_edit_def)

lemma wp_insert_note:
  "wp (insert_note k c)
     (\<lambda>row s'. case row of
        None \<Rightarrow> s' = s \<and> pg_notes s k \<noteq> None
      | Some r \<Rightarrow> pg_notes s k = None \<and> nt_content r = c \<and> nt_version r = 1 \<and>
          pg_notes s' = (pg_notes s)(k \<mapsto> r)) (\<lambda>_ s'. s' = s) s"
  by (auto simp: wp_def insert_note_def Let_def split: option.splits)

lemma wp_update_note:
  "wp (update_note k c v)
     (\<lambda>row s'. case row of
        None \<Rightarrow> s' = s \<and> \<not> (\<exists>old. pg_notes s k = Some old \<and> nt_version old = v \<and> nt_content old \<noteq> c)
      | Some r \<Rightarrow> (\<exists>old. pg_notes s k = Some old \<and> nt_version old = v \<and> nt_content old \<noteq> c) \<and>
          nt_content r = c \<and> nt_version r = v + 1 \<and>
          pg_notes s' = (pg_notes s)(k \<mapsto> r)) (\<lambda>_ s'. s' = s) s"
  by (auto simp: wp_def update_note_def Let_def split: option.splits)

lemma notes_save_law:
  "wp (notes_save (fst k) (snd k) c v)
      (\<lambda>(r, written) s'. cas (note_doc k s) c v = (note_doc k s', if written then Written else Unchanged) \<and>
         note_doc k s' = Some (nt_content r, nt_version r) \<and> (\<forall>j. j \<noteq> k \<longrightarrow> note_doc j s' = note_doc j s))
      (\<lambda>e s'. \<forall>j. note_doc j s' = note_doc j s) s"
proof (cases "v = 0")
  case True
  then show ?thesis unfolding notes_save_def wp_bnd wp_sql
    by (auto intro!: wp_mono [OF wp_insert_note] simp: wp_simps notes_get_def note_doc_def split: option.splits)
next
  case False
  then show ?thesis unfolding notes_save_def wp_bnd wp_sql
    by (auto intro!: wp_mono [OF wp_update_note] simp: wp_simps notes_get_def note_doc_def split: option.splits)
qed

interpretation note_register: cas_documents note_doc "\<lambda>k. notes_save (fst k) (snd k)" "\<lambda>r. (nt_content r, nt_version r)"
  by unfold_locales (rule notes_save_law)

lemma find_append_new:
  "find P xs = None \<Longrightarrow> find P (xs @ [x]) = (if P x then Some x else None)"
  by (induction xs) auto

lemma find_append_other: "\<not> P x \<Longrightarrow> find P (xs @ [x]) = find P xs"
  by (induction xs) auto

lemma edit_key_update [simp]:
  "edit_key (r\<lparr>ed_content := c, ed_version := n, ed_updated := t\<rparr>) = edit_key r"
  by (simp add: edit_key_def)

lemma find_edit_updated:
  assumes "\<And>r. edit_key (f r) = edit_key r"
  shows "find (\<lambda>r. edit_key r = j) (map (\<lambda>r. if edit_key r = k then f r else r) xs)
    = (if j = k then map_option f (find (\<lambda>r. edit_key r = k) xs) else find (\<lambda>r. edit_key r = j) xs)"
  using assms by (induction xs) auto

lemma find_edit_deleted:
  "find (\<lambda>r. edit_key r = j) (filter (\<lambda>r. edit_key r \<noteq> k) xs)
    = (if j = k then None else find (\<lambda>r. edit_key r = j) xs)"
  by (induction xs) auto

lemma wp_insert_edit:
  "wp (insert_edit k c lang fmt sha cap)
     (\<lambda>row s'. case row of
        None \<Rightarrow> s' = s
      | Some r \<Rightarrow> find_edit k s = None \<and> find_edit k s' = Some r \<and> ed_content r = c \<and> ed_version r = 1 \<and>
          (\<forall>j. j \<noteq> k \<longrightarrow> find_edit j s' = find_edit j s)) (\<lambda>_ s'. s' = s) s"
  by (cases k) (auto simp: wp_def insert_edit_def Let_def find_edit_def edit_key_def find_append_new find_append_other)

lemma wp_update_edit:
  "wp (update_edit k c v)
     (\<lambda>row s'. case row of
        None \<Rightarrow> s' = s
      | Some r \<Rightarrow> (\<exists>old. find_edit k s = Some old \<and> ed_version old = v \<and> ed_content old \<noteq> c) \<and>
          find_edit k s' = Some r \<and> ed_content r = c \<and> ed_version r = v + 1 \<and>
          (\<forall>j. j \<noteq> k \<longrightarrow> find_edit j s' = find_edit j s)) (\<lambda>_ s'. s' = s) s"
  by (auto simp: wp_def update_edit_def Let_def find_edit_def find_edit_updated split: option.splits)

lemma edits_save_law:
  "wp (edits_save k c v lang fmt sha cap)
      (\<lambda>(r, written) s'. cas (edit_doc k s) c v = (edit_doc k s', if written then Written else Unchanged) \<and>
         edit_doc k s' = Some (ed_content r, ed_version r) \<and> (\<forall>j. j \<noteq> k \<longrightarrow> edit_doc j s' = edit_doc j s))
      (\<lambda>e s'. \<forall>j. edit_doc j s' = edit_doc j s) s"
proof (cases "v = 0")
  case True
  then show ?thesis unfolding edits_save_def wp_bnd wp_sql
    by (auto intro!: wp_mono [OF wp_insert_edit] simp: wp_simps edits_get_def edit_doc_def split: option.splits)
next
  case False
  then show ?thesis unfolding edits_save_def wp_bnd wp_sql
    by (auto intro!: wp_mono [OF wp_update_edit] simp: wp_simps edits_get_def edit_doc_def split: option.splits)
qed

interpretation edit_register: cas_documents edit_doc "\<lambda>k c v. edits_save k c v lang fmt sha cap"
  "\<lambda>r. (ed_content r, ed_version r)" for lang fmt sha cap
  by unfold_locales (rule edits_save_law)

section \<open>Exact behaviour without failures\<close>

lemma notes_save_exact:
  assumes "pg_calm s" and "length c \<le> NOTES_DB_MAX_CHARS"
  shows "wp (notes_save o' cid c v)
     (\<lambda>(r, written) s'. cas (note_doc (o', cid) s) c v = (note_doc (o', cid) s', if written then Written else Unchanged) \<and>
        pg_notes s' = (pg_notes s)((o', cid) \<mapsto> r))
     (\<lambda>e s'. cas (note_doc (o', cid) s) c v = (note_doc (o', cid) s', Stale) \<and> s' = s \<and>
        e = NotesVersionConflict (pg_notes s (o', cid))) s"
  using assms unfolding notes_save_def wp_bnd wp_sql
  by (cases "pg_notes s (o', cid)"; cases "v = 0")
     (auto simp: wp_def ret_def raise_def bnd_def sql_def notes_get_def insert_note_def update_note_def Let_def
       note_doc_def fun_upd_idem)

text \<open>C20:
  Saving notes implements the compare-and-set register: with a working store the save ends exactly as cas says.
  A written or already stored text is returned with the row the table then holds; a stale version raises the conflict
  with the stored row (so the client can show it) and changes nothing; no other document is ever touched.
\<close>

theorem notes_save_refines_register:
  assumes "pg_calm s" and "length c \<le> NOTES_DB_MAX_CHARS"
  shows "wp (notes_save o' cid c v)
     (\<lambda>(r, written) s'. cas (note_doc (o', cid) s) c v = (note_doc (o', cid) s', if written then Written else Unchanged) \<and>
        pg_notes s' = (pg_notes s)((o', cid) \<mapsto> r))
     (\<lambda>e s'. cas (note_doc (o', cid) s) c v = (note_doc (o', cid) s', Stale) \<and> s' = s \<and>
        e = NotesVersionConflict (pg_notes s (o', cid))) s"
  by (rule notes_save_exact) (use assms in auto)

theorem notes_save_refines_register_witness:
  "wp (notes_save 1 2 ''b'' 3)
     (\<lambda>(r, written) s'. cas (note_doc (1, 2) (empty_pg\<lparr>pg_notes := [(1, 2) \<mapsto> \<lparr>nt_content = ''a'', nt_version = 3, nt_updated = 0\<rparr>]\<rparr>)) ''b'' 3
          = (note_doc (1, 2) s', if written then Written else Unchanged) \<and>
        pg_notes s' = (pg_notes (empty_pg\<lparr>pg_notes := [(1, 2) \<mapsto> \<lparr>nt_content = ''a'', nt_version = 3, nt_updated = 0\<rparr>]\<rparr>))((1, 2) \<mapsto> r))
     (\<lambda>e s'. cas (note_doc (1, 2) (empty_pg\<lparr>pg_notes := [(1, 2) \<mapsto> \<lparr>nt_content = ''a'', nt_version = 3, nt_updated = 0\<rparr>]\<rparr>)) ''b'' 3
          = (note_doc (1, 2) s', Stale) \<and>
        s' = empty_pg\<lparr>pg_notes := [(1, 2) \<mapsto> \<lparr>nt_content = ''a'', nt_version = 3, nt_updated = 0\<rparr>]\<rparr> \<and>
        e = NotesVersionConflict (pg_notes (empty_pg\<lparr>pg_notes := [(1, 2) \<mapsto> \<lparr>nt_content = ''a'', nt_version = 3, nt_updated = 0\<rparr>]\<rparr>) (1, 2)))
     (empty_pg\<lparr>pg_notes := [(1, 2) \<mapsto> \<lparr>nt_content = ''a'', nt_version = 3, nt_updated = 0\<rparr>]\<rparr>)"
  by (rule notes_save_refines_register) (simp_all add: pg_calm_def empty_pg_def NOTES_DB_MAX_CHARS_def)

text \<open>
  Two clients that edit the same block from the same version cannot overwrite each other, whatever statements
  fail: once the first save has been written, the save of a different text with the same version is refused and the first text
  is still stored.
\<close>

theorem source_edit_second_writer_refused:
  assumes "c \<noteq> d" and "v \<noteq> 0 \<or> edit_doc k s = None" and "0 \<le> v"
  shows "wp (edits_save k c v lang fmt sha cap) (\<lambda>(r, written) s1. written \<longrightarrow>
     wp (edits_save k d v lang fmt sha cap) (\<lambda>_ _. False) (\<lambda>_ s2. edit_doc k s2 = Some (c, v + 1)) s1) (\<lambda>_ _. True) s"
  by (rule edit_register.one_writer) (use assms in auto)

theorem source_edit_second_writer_refused_witness:
  "wp (edits_save (1, 2, 3, ''b'') ''x'' 0 ''py'' ''code'' ''f'' 200) (\<lambda>(r, written) s1. written \<longrightarrow>
     wp (edits_save (1, 2, 3, ''b'') ''y'' 0 ''py'' ''code'' ''f'' 200) (\<lambda>_ _. False)
       (\<lambda>_ s2. edit_doc (1, 2, 3, ''b'') s2 = Some (''x'', 0 + 1)) s1) (\<lambda>_ _. True) empty_pg"
  by (rule source_edit_second_writer_refused) (simp_all add: edit_doc_def find_edit_def empty_pg_def)

section \<open>Only the owner of an active conversation\<close>

text \<open>The cached copy or the stored row gives the user an active conversation.\<close>

definition accessible :: "uuid \<Rightarrow> uuid \<Rightarrow> world \<Rightarrow> bool" where
  "accessible user cid w = (let ok = (\<lambda>c. case c of None \<Rightarrow> False
        | Some c \<Rightarrow> cv_user c = user \<and> cv_status c \<noteq> DELETED)
     in ok (live (w_now w) (w_rconv w cid)) \<or> ok (conv_at w cid))"

definition refusal :: "exn \<Rightarrow> bool" where
  "refusal e = (e = HTTPException 404 ''Conversation not found'' \<or> e = HTTPException 503 ''conversation_unavailable'')"

definition turned_away :: "world \<Rightarrow> pg \<Rightarrow> exn \<Rightarrow> world \<times> pg \<Rightarrow> bool" where
  "turned_away w s e end_state = (case end_state of (w', s') \<Rightarrow> only_cache w w' \<and> refusal e \<and> s' = s)"

lemma wp_active_owned:
  assumes "\<not> accessible user cid w"
  shows "wp (active_owned_conversation user cid) (\<lambda>_ _. False) (\<lambda>e w'. only_cache w w' \<and> refusal e) w"
  unfolding active_owned_conversation_def wp_bnd wp_attempt
  by (rule wp_mono [OF conv_service_get_frame])
     (use assms in \<open>auto simp: wp_simps accessible_def Let_def conv_at_def refusal_def split: option.splits sum.splits\<close>)

lemma refused_route:
  assumes "\<not> accessible user cid w"
  shows "wp (bnd (on_world (active_owned_conversation user cid)) f) (\<lambda>_ _. False) (turned_away w s) (w, s)"
  unfolding wp_bnd wp_on_world
  by (rule wp_mono [OF wp_active_owned [OF assms]]) (auto simp: turned_away_def)

text \<open>
  A user can read, save or discard neither notes nor source edits in a conversation that is missing, deleted or someone
  else's: every such request is answered 404 (503 when the catalog cannot be read), runs no statement on the documents and
  changes nothing but caches.
\<close>

theorem documents_need_active_owner:
  assumes "\<not> accessible user cid w"
  shows "wp (api_get_notes user cid) (\<lambda>_ _. False) (turned_away w s) (w, s) \<and>
    wp (api_put_notes user cid note) (\<lambda>_ _. False) (turned_away w s) (w, s) \<and>
    wp (api_list_edits user cid mid) (\<lambda>_ _. False) (turned_away w s) (w, s) \<and>
    wp (api_put_edit user cid m block edit) (\<lambda>_ _. False) (turned_away w s) (w, s) \<and>
    wp (api_delete_edit user cid m block v) (\<lambda>_ _. False) (turned_away w s) (w, s)"
  unfolding api_get_notes_def api_put_notes_def api_list_edits_def api_put_edit_def api_delete_edit_def
  by (intro conjI refused_route [OF assms])

theorem documents_need_active_owner_witness:
  "wp (api_get_notes 1 2) (\<lambda>_ _. False) (turned_away (empty_world 5) empty_pg) (empty_world 5, empty_pg) \<and>
    wp (api_put_notes 1 2 \<lparr>nu_content = ''a'', nu_version = 0\<rparr>) (\<lambda>_ _. False)
      (turned_away (empty_world 5) empty_pg) (empty_world 5, empty_pg) \<and>
    wp (api_list_edits 1 2 None) (\<lambda>_ _. False) (turned_away (empty_world 5) empty_pg) (empty_world 5, empty_pg) \<and>
    wp (api_put_edit 1 2 3 ''b'' \<lparr>eu_content = ''a'', eu_version = 0, eu_language = [], eu_format = ''code'', eu_sha = []\<rparr>)
      (\<lambda>_ _. False) (turned_away (empty_world 5) empty_pg) (empty_world 5, empty_pg) \<and>
    wp (api_delete_edit 1 2 3 ''b'' 1) (\<lambda>_ _. False) (turned_away (empty_world 5) empty_pg) (empty_world 5, empty_pg)"
  by (rule documents_need_active_owner)
     (simp add: accessible_def conv_at_def empty_world_def)

end
