(* ===== verification/Hierarchy.thy ===== *)
theory Hierarchy
  imports Conversation_Service "HOL-Library.Char_ord" "HOL-Library.List_Lexorder"
    "HOL-Library.Product_Lexorder"
begin

text \<open>
  \<open>app/services/hierarchy_service.py\<close>: the tree a conversation belongs to, derived from the user's own
  catalog. The three walks carry the visited ids, so each is a total function even on cyclic data.
\<close>

record hierarchy =
  h_nodes :: "(uuid \<times> conversation) list"
  h_children :: "uuid \<Rightarrow> uuid list"

definition node_ids :: "(uuid \<times> conversation) list \<Rightarrow> uuid set" where
  "node_ids ns = fst ` set ns"

lemma node_ids_iff: "c \<in> node_ids ns \<longleftrightarrow> map_of ns c \<noteq> None"
  by (simp add: node_ids_def map_of_eq_None_iff)

lemma finite_node_ids [simp]: "finite (node_ids ns)"
  by (simp add: node_ids_def)

lemma visit_decreases:
  "c \<in> node_ids ns \<Longrightarrow> c \<notin> S \<Longrightarrow> card (node_ids ns - insert c S) < card (node_ids ns - S)"
  by (rule psubset_card_mono) auto

section \<open>The walks\<close>

text \<open>\<open>seen\<close> holds the nodes visited before \<open>cur\<close>.\<close>

function root_loop :: "(uuid \<times> conversation) list \<Rightarrow> uuid list \<Rightarrow> uuid \<Rightarrow> exn + (uuid \<times> uuid option)" where
  "root_loop ns seen cur = (case map_of ns cur of
     None \<Rightarrow> Inl KeyError
   | Some c \<Rightarrow> (case cv_parent c of
       None \<Rightarrow> Inr (cur, None)
     | Some p \<Rightarrow>
         if p \<notin> node_ids ns then Inr (cur, Some p)
         else if p \<in> set (cur # seen) then Inr (cur, Some p)
         else root_loop ns (cur # seen) p))"
  by pat_completeness auto
termination
  by (relation "measure (\<lambda>(ns, seen, cur). card (node_ids ns - set (cur # seen)))")
     (auto simp: visit_decreases simp del: card_Diff_insert)

declare root_loop.simps [simp del]

definition root_of :: "hierarchy \<Rightarrow> uuid \<Rightarrow> exn + (uuid \<times> uuid option)" where
  "root_of h cid = root_loop (h_nodes h) [] cid"

text \<open>The stack is kept with its top first, so the reversed push is a plain prefix.\<close>

function subtree_loop ::
  "(uuid \<times> conversation) list \<Rightarrow> (uuid \<Rightarrow> uuid list) \<Rightarrow> uuid list \<Rightarrow> uuid list \<Rightarrow> uuid list" where
  "subtree_loop ns ch order [] = order"
| "subtree_loop ns ch order (c # stack) =
     (if c \<in> set order \<or> c \<notin> node_ids ns then subtree_loop ns ch order stack
      else subtree_loop ns ch (order @ [c]) (ch c @ stack))"
  by pat_completeness auto
termination
  by (relation "measures [\<lambda>(ns, ch, order, stack). card (node_ids ns - set order),
                          \<lambda>(ns, ch, order, stack). length stack]")
     (auto simp: visit_decreases simp del: card_Diff_insert)

definition subtree :: "hierarchy \<Rightarrow> uuid \<Rightarrow> uuid list" where
  "subtree h root = subtree_loop (h_nodes h) (h_children h) [] [root]"

function depth_loop :: "(uuid \<times> conversation) list \<Rightarrow> uuid \<Rightarrow> nat \<Rightarrow> uuid list \<Rightarrow> uuid \<Rightarrow> exn + nat" where
  "depth_loop ns root depth seen cur =
     (if cur = root \<or> cur \<in> set seen then Inr depth
      else (case map_of ns cur of
        None \<Rightarrow> Inl KeyError
      | Some c \<Rightarrow> (case cv_parent c of
          None \<Rightarrow> Inr depth
        | Some p \<Rightarrow> if p \<notin> node_ids ns then Inr depth
                    else depth_loop ns root (depth + 1) (cur # seen) p)))"
  by pat_completeness auto
termination
  by (relation "measure (\<lambda>(ns, root, depth, seen, cur). card (node_ids ns - set seen))")
     (auto intro!: visit_decreases simp: node_ids_iff simp del: card_Diff_insert)

declare depth_loop.simps [simp del]

definition depth_of :: "hierarchy \<Rightarrow> uuid \<Rightarrow> uuid \<Rightarrow> exn + nat" where
  "depth_of h cid root = depth_loop (h_nodes h) root 0 [] cid"

definition sort_siblings :: "conversation list \<Rightarrow> conversation list" where
  "sort_siblings cs = sort_key (\<lambda>c. (cv_created c, uuid_str (cv_id c))) cs"

definition build_hierarchy :: "conversation list \<Rightarrow> hierarchy" where
  "build_hierarchy cs =
     (let ns = rev (map (\<lambda>c. (cv_id c, c)) cs) in
      \<lparr>h_nodes = ns,
       h_children = (\<lambda>p. map cv_id (filter (\<lambda>c. cv_parent c = Some p \<and> p \<in> node_ids ns \<and> p \<noteq> cv_id c)
                       (sort_siblings cs)))\<rparr>)"

definition MAX_CONVERSATIONS :: nat where "MAX_CONVERSATIONS = 2000"

definition hierarchy_load :: "uuid \<Rightarrow> nat \<Rightarrow> (world, hierarchy) prog" where
  "hierarchy_load user max_conversations =
     bnd (conv_service_list user max_conversations None)
       (\<lambda>items. ret (build_hierarchy (filter (\<lambda>c. cv_user c = user) items)))"

definition scope_ids :: "hierarchy \<Rightarrow> uuid \<Rightarrow> string \<Rightarrow> exn + uuid list" where
  "scope_ids h cid scope = (case map_of (h_nodes h) cid of
     None \<Rightarrow> Inr (if scope = ''self'' then [cid] else [])
   | Some c \<Rightarrow>
       (let sc = (if scope = ''auto'' then (if cv_parent c = None then ''hierarchy'' else ''self'') else scope)
        in if sc = ''self'' then Inr [cid]
           else case root_of h cid of Inl e \<Rightarrow> Inl e | Inr (root, _) \<Rightarrow> Inr (subtree h root)))"

section \<open>The tree walk\<close>

inductive descends :: "(uuid \<times> conversation) list \<Rightarrow> (uuid \<Rightarrow> uuid list) \<Rightarrow> uuid \<Rightarrow> uuid \<Rightarrow> bool"
  for ns ch root where
  root: "root \<in> node_ids ns \<Longrightarrow> descends ns ch root root"
| child: "descends ns ch root p \<Longrightarrow> c \<in> set (ch p) \<Longrightarrow> c \<in> node_ids ns \<Longrightarrow> descends ns ch root c"

inductive_cases descendsE: "descends ns ch root c"

text \<open>The loop invariant: visited and pending nodes.\<close>

definition walk_inv :: "(uuid \<times> conversation) list \<Rightarrow> (uuid \<Rightarrow> uuid list) \<Rightarrow> uuid \<Rightarrow> uuid list \<Rightarrow> uuid list \<Rightarrow> bool" where
  "walk_inv ns ch root order stack \<longleftrightarrow>
     distinct order \<and>
     (\<forall>c \<in> set order. descends ns ch root c) \<and>
     (\<forall>c \<in> set stack. c \<in> node_ids ns \<longrightarrow> descends ns ch root c) \<and>
     (root \<in> node_ids ns \<longrightarrow> root \<in> set order \<union> set stack) \<and>
     (\<forall>p \<in> set order. \<forall>c \<in> set (ch p). c \<in> node_ids ns \<longrightarrow> c \<in> set order \<union> set stack)"

lemma walk_inv_init: "walk_inv ns ch root [] [root]"
  by (simp add: walk_inv_def descends.root)

lemma walk_inv_skip:
  "walk_inv ns ch root order (c # stack) \<Longrightarrow> c \<in> set order \<or> c \<notin> node_ids ns \<Longrightarrow> walk_inv ns ch root order stack"
  by (auto simp: walk_inv_def)

lemma walk_inv_visit:
  assumes "walk_inv ns ch root order (c # stack)" and "c \<notin> set order" and "c \<in> node_ids ns"
  shows "walk_inv ns ch root (order @ [c]) (ch c @ stack)"
  using assms by (auto simp: walk_inv_def intro: descends.child)

lemma subtree_loop_inv: "walk_inv ns ch root order stack \<Longrightarrow> walk_inv ns ch root (subtree_loop ns ch order stack) []"
  by (induction ns ch order stack rule: subtree_loop.induct)
     (auto dest: walk_inv_skip walk_inv_visit split: if_splits)

lemma walk_inv_done:
  assumes "walk_inv ns ch root order []"
  shows "set order = {c. descends ns ch root c}"
proof -
  have start: "root \<in> node_ids ns \<Longrightarrow> root \<in> set order"
    and closed: "p \<in> set order \<Longrightarrow> c \<in> set (ch p) \<Longrightarrow> c \<in> node_ids ns \<Longrightarrow> c \<in> set order"
    and sound: "c \<in> set order \<Longrightarrow> descends ns ch root c" for p c
    using assms by (simp_all add: walk_inv_def)
  have "c \<in> set order" if "descends ns ch root c" for c
    using that
  proof induction
    case root
    then show ?case by (rule start)
  next
    case (child p c)
    then show ?case by (blast intro: closed)
  qed
  then show ?thesis using sound by blast
qed

lemma subtree_set: "set (subtree h root) = {c. descends (h_nodes h) (h_children h) root c}"
  unfolding subtree_def by (rule walk_inv_done) (rule subtree_loop_inv [OF walk_inv_init])

lemma subtree_distinct: "distinct (subtree h root)"
  using subtree_loop_inv [OF walk_inv_init, of "h_nodes h" "h_children h" root]
  by (simp add: subtree_def walk_inv_def)

text \<open>Parents come before their children: every visited node but the root is a child of an earlier one.\<close>

definition parent_first :: "(uuid \<Rightarrow> uuid list) \<Rightarrow> uuid \<Rightarrow> uuid list \<Rightarrow> bool" where
  "parent_first ch root order \<longleftrightarrow>
     (\<forall>i < length order. order ! i = root \<or> (\<exists>j < i. order ! i \<in> set (ch (order ! j))))"

lemma parent_first_snoc:
  assumes "parent_first ch root order" and "c = root \<or> (\<exists>p \<in> set order. c \<in> set (ch p))"
  shows "parent_first ch root (order @ [c])"
proof -
  have "c = root \<or> (\<exists>j < length order. c \<in> set (ch (order ! j)))"
    using assms(2) by (metis in_set_conv_nth)
  then show ?thesis using assms(1) by (force simp: parent_first_def nth_append less_Suc_eq)
qed

lemma subtree_loop_parent_first:
  assumes "parent_first ch root order" and "\<forall>c \<in> set stack. c = root \<or> (\<exists>p \<in> set order. c \<in> set (ch p))"
  shows "parent_first ch root (subtree_loop ns ch order stack)"
  using assms
proof (induction ns ch order stack rule: subtree_loop.induct)
  case (2 ns ch order c stack)
  then show ?case by (cases "c \<in> set order \<or> c \<notin> node_ids ns") (auto simp: parent_first_snoc)
qed simp

lemma subtree_parent_first: "parent_first (h_children h) root (subtree h root)"
  unfolding subtree_def by (rule subtree_loop_parent_first) (simp_all add: parent_first_def)

section \<open>The way up\<close>

inductive ancestor :: "(uuid \<times> conversation) list \<Rightarrow> uuid \<Rightarrow> uuid \<Rightarrow> bool" for ns where
  refl: "c \<in> node_ids ns \<Longrightarrow> ancestor ns c c"
| up: "map_of ns c = Some x \<Longrightarrow> cv_parent x = Some p \<Longrightarrow> p \<noteq> c \<Longrightarrow> ancestor ns p r \<Longrightarrow> ancestor ns c r"

text \<open>
  From a known conversation the walk up always ends at one of its ancestors: one without a parent, or
  one whose parent is missing or was already passed (and is then reported).
\<close>

lemma root_loop_spec:
  assumes "cur \<in> node_ids ns"
  shows "\<exists>r m. root_loop ns seen cur = Inr (r, m) \<and> ancestor ns cur r \<and>
     (\<exists>x. map_of ns r = Some x \<and> cv_parent x = m)"
  using assms
proof (induction ns seen cur rule: root_loop.induct)
  case (1 ns seen cur)
  then obtain c where c: "map_of ns cur = Some c" by (auto simp: node_ids_iff)
  show ?case
  proof (cases "\<exists>p. cv_parent c = Some p \<and> p \<in> node_ids ns \<and> p \<notin> set (cur # seen)")
    case True
    then obtain p where p: "cv_parent c = Some p" "p \<in> node_ids ns" "p \<notin> set (cur # seen)" by blast
    obtain r m where rm: "root_loop ns (cur # seen) p = Inr (r, m)" "ancestor ns p r"
      "\<exists>x. map_of ns r = Some x \<and> cv_parent x = m"
      using 1 c p by blast
    have "root_loop ns seen cur = Inr (r, m)"
      using c p rm(1) by (subst root_loop.simps) simp
    then show ?thesis using rm(2,3) ancestor.up [OF c p(1)] p(3) by auto
  next
    case False
    then have "root_loop ns seen cur = Inr (cur, cv_parent c)"
      using c by (subst root_loop.simps) (auto split: option.split)
    then show ?thesis using c ancestor.refl [of cur ns] 1(2) by blast
  qed
qed

lemma map_of_build:
  "map_of (h_nodes (build_hierarchy cs)) c = Some x \<Longrightarrow> x \<in> set cs \<and> cv_id x = c"
  by (auto simp: build_hierarchy_def Let_def dest!: map_of_SomeD)

lemma children_build:
  assumes "map_of (h_nodes (build_hierarchy cs)) c = Some x" and "cv_parent x = Some p"
    and "p \<in> node_ids (h_nodes (build_hierarchy cs))" and "p \<noteq> c"
  shows "c \<in> set (h_children (build_hierarchy cs) p)"
  using map_of_build [OF assms(1)] assms(2-4)
  by (auto simp: build_hierarchy_def sort_siblings_def Let_def)

lemma ancestor_known: "ancestor ns c r \<Longrightarrow> r \<in> node_ids ns \<and> c \<in> node_ids ns"
  by (induction rule: ancestor.induct) (auto simp: node_ids_iff)

lemma ancestor_descends:
  assumes "ancestor (h_nodes (build_hierarchy cs)) c r"
  shows "descends (h_nodes (build_hierarchy cs)) (h_children (build_hierarchy cs)) r c"
  using assms
proof (induction rule: ancestor.induct)
  case (refl c)
  then show ?case by (rule descends.root)
next
  case (up c x p r)
  then show ?case
    using children_build [OF up(1,2)] ancestor_known [OF up(4)]
    by (auto intro: descends.child simp: node_ids_iff)
qed

lemma depth_loop_bound:
  "depth_loop ns root d seen cur = Inr n \<Longrightarrow> n \<le> d + card (node_ids ns - set seen)"
proof (induction ns root d seen cur rule: depth_loop.induct)
  case (1 ns root d seen cur)
  show ?case
  proof (cases "cur = root \<or> cur \<in> set seen")
    case True
    then show ?thesis using 1(2) by (simp add: depth_loop.simps [of ns root d seen cur])
  next
    case False
    show ?thesis
    proof (cases "\<exists>c p. map_of ns cur = Some c \<and> cv_parent c = Some p \<and> p \<in> node_ids ns")
      case True
      then obtain c p where cp: "map_of ns cur = Some c" "cv_parent c = Some p" "p \<in> node_ids ns" by blast
      then have "depth_loop ns root (d + 1) (cur # seen) p = Inr n"
        using 1(2) False by (simp add: depth_loop.simps [of ns root d seen cur])
      then have "n \<le> d + 1 + card (node_ids ns - set (cur # seen))"
        using 1(1) [OF False cp(1,2)] cp(3) by blast
      moreover have "card (node_ids ns - set (cur # seen)) < card (node_ids ns - set seen)"
        using visit_decreases [of cur ns "set seen"] cp(1) False by (simp add: node_ids_iff)
      ultimately show ?thesis by simp
    next
      case none: False
      then show ?thesis using 1(2) False
        by (auto simp: depth_loop.simps [of ns root d seen cur] split: option.splits)
    qed
  qed
qed

section \<open>Properties\<close>

text \<open>C5:
  The tree walk terminates on any data, cycles included, and lists each conversation that can be reached
  from the root over known children exactly once, a parent always before its children.
\<close>

theorem subtree_exact:
  "distinct (subtree h root) \<and>
   set (subtree h root) = {c. descends (h_nodes h) (h_children h) root c} \<and>
   parent_first (h_children h) root (subtree h root)"
  by (simp add: subtree_distinct subtree_set subtree_parent_first)

lemma descends_known: "descends ns ch root c \<Longrightarrow> c \<in> node_ids ns"
  by (induction rule: descends.induct) auto

lemma scope_ids_hierarchy:
  assumes "cid \<in> node_ids (h_nodes (build_hierarchy cs))"
  shows "\<exists>r m. root_of (build_hierarchy cs) cid = Inr (r, m) \<and> cid \<in> set (subtree (build_hierarchy cs) r)"
proof -
  obtain r m where rm: "root_of (build_hierarchy cs) cid = Inr (r, m)"
    "ancestor (h_nodes (build_hierarchy cs)) cid r"
    using root_loop_spec [OF assms, of "[]"] by (auto simp: root_of_def)
  then show ?thesis using ancestor_descends [OF rm(2)] by (auto simp: subtree_set)
qed

text \<open>
  The scope of a conversation the caller's hierarchy knows is always computed, whatever the scope asked
  for and however the parent links run, contains the conversation itself, has no duplicates, and holds
  only conversations of that hierarchy; so a conversation is never dropped from its own tree.
\<close>

theorem scope_contains_conversation:
  assumes "cid \<in> node_ids (h_nodes (build_hierarchy cs))"
  shows "\<exists>ids. scope_ids (build_hierarchy cs) cid scope = Inr ids \<and> cid \<in> set ids \<and>
     distinct ids \<and> set ids \<subseteq> node_ids (h_nodes (build_hierarchy cs))"
proof -
  let ?h = "build_hierarchy cs"
  obtain r m where rm: "root_of ?h cid = Inr (r, m)" "cid \<in> set (subtree ?h r)"
    using scope_ids_hierarchy [OF assms] by blast
  have sub: "set (subtree ?h r) \<subseteq> node_ids (h_nodes ?h)"
    by (auto simp: subtree_set dest: descends_known)
  obtain c where c: "map_of (h_nodes ?h) cid = Some c" using assms by (auto simp: node_ids_iff)
  show ?thesis
    using rm sub c assms by (auto simp: scope_ids_def subtree_distinct Let_def)
qed

definition tiny_tree :: "conversation list" where
  "tiny_tree = map (\<lambda>(i, p). \<lparr>cv_id = i, cv_user = 3, cv_title = [], cv_created = 0, cv_updated = 0,
     cv_status = ACTIVE, cv_parent = p, cv_branch = None\<rparr>) [(1, Some 2), (2, Some 1), (4, Some 2)]"

theorem scope_contains_conversation_witness:
  "\<exists>ids. scope_ids (build_hierarchy tiny_tree) 4 ''hierarchy'' = Inr ids \<and> 4 \<in> set ids \<and>
     distinct ids \<and> set ids \<subseteq> node_ids (h_nodes (build_hierarchy tiny_tree))"
  by (rule scope_contains_conversation) (simp add: node_ids_def build_hierarchy_def tiny_tree_def Let_def)

lemma list_rows_user: "list_rows user rs = Inr cs \<Longrightarrow> c \<in> set cs \<Longrightarrow> cv_user c = user \<and> cv_status c \<noteq> DELETED"
proof (induction rs arbitrary: cs)
  case (Cons r rs)
  have "conv_status_of s = Some DELETED \<Longrightarrow> s = ''deleted''" for s
    by (auto simp: conv_status_of_def split: if_splits)
  then show ?case using Cons by (fastforce split: if_splits option.splits sum.splits)
qed simp

text \<open>What a loaded hierarchy holds: only the user's own, not deleted conversations.\<close>

lemma wp_hierarchy_load:
  "wp (hierarchy_load user n)
     (\<lambda>h w'. w' = pop w \<and> (\<forall>x \<in> set (h_nodes h). cv_user (snd x) = user \<and> cv_status (snd x) \<noteq> DELETED))
     (\<lambda>_ w'. w' = pop w) w"
  by (auto simp: hierarchy_load_def conv_service_list_def conv_list_def wp_simps build_hierarchy_def Let_def
      split: fault.splits sum.splits dest: list_rows_user)

end
