(* ===== verification/Artifact_Api.thy ===== *)
theory Artifact_Api
  imports Artifact_Lifecycle Documents Hierarchy
begin

text \<open>
  \<open>app/api/v1/artifacts.py\<close>: the artifact routes. A route runs on the Cassandra and Redis side (\<open>world\<close>) and the registry
  (\<open>studio\<close>). The background task that \<open>_wake\<close> starts after the answer is the \<open>Advance\<close> request of \<open>Artifact_Lifecycle\<close>:
  a route returns, beside its answer, the id it wakes.
\<close>

section \<open>Views\<close>

record artifact_view =
  av_id :: uuid
  av_type :: string
  av_title :: string
  av_status :: string
  av_ready :: bool
  av_active :: bool
  av_failure :: "string option"
  av_message :: "string option"
  av_retryable :: bool
  av_conv :: uuid
  av_msg :: uuid
  av_block :: "string option"
  av_mime :: "string option"
  av_size :: "nat option"
  av_media :: bool
  av_thumbnail :: bool
  av_source :: "string option"

definition FAILURE_MESSAGES :: "(string \<times> string) list" where
  "FAILURE_MESSAGES =
     [(''invalid_spec'', ''The animation specification was not valid.''),
      (''unsupported_template'', ''That kind of animation is not supported.''),
      (''disabled'', ''Animations are turned off.''),
      (''timeout'', ''The animation took too long to render.''),
      (''timed_out'', ''The animation took too long to render.''),
      (''resource_limit'', ''The animation was too large to render.''),
      (''invalid_output'', ''The rendered video could not be verified.''),
      (''render_error'', ''The animation could not be rendered.''),
      (''attempts_exhausted'', ''The animation could not be rendered after several attempts.''),
      (''render_job_lost'', ''The render was interrupted. You can retry it.''),
      (''budget_exhausted'', ''Too many animations in progress. Try again shortly.'')]"

definition failure_message :: "string option \<Rightarrow> string" where
  "failure_message code =
     (case map_of FAILURE_MESSAGES (case code of None \<Rightarrow> [] | Some c \<Rightarrow> c) of
        None \<Rightarrow> ''The animation could not be rendered.'' | Some t \<Rightarrow> t)"

definition has_text :: "string option \<Rightarrow> bool" where
  "has_text x = (x \<noteq> None \<and> x \<noteq> Some [])"

definition artifact_view_of :: "artifact \<Rightarrow> artifact_ref option \<Rightarrow> artifact_view" where
  "artifact_view_of a ref =
     \<lparr>av_id = ar_id a, av_type = ar_type a, av_title = ar_title a, av_status = ar_status a,
      av_ready = (ar_status a = ''ready''), av_active = (ar_status a \<in> set ACTIVE_STATES),
      av_failure = (if ar_status a = ''failed'' then ar_failure a else None),
      av_message = (if ar_status a = ''failed'' then Some (failure_message (ar_failure a)) else None),
      av_retryable = (ar_status a = ''failed'' \<and> ar_type a = ''manim'' \<and> ar_retries a < ARTIFACT_MAX_MANUAL_RETRIES),
      av_conv = (case ref of None \<Rightarrow> ar_conv a | Some f \<Rightarrow> af_conv f),
      av_msg = (case ref of None \<Rightarrow> ar_msg a | Some f \<Rightarrow> af_msg f),
      av_block = map_option af_block ref, av_mime = ar_mime a, av_size = ar_size a,
      av_media = (ar_type a = ''manim'' \<and> ar_status a = ''ready'' \<and> has_text (ar_key a)),
      av_thumbnail = has_text (ar_thumb a),
      av_source = (if ar_type a = ''mermaid'' then Some (ar_spec a) else None)\<rparr>"

section \<open>Routes\<close>

definition owned_conversation :: "uuid \<Rightarrow> uuid \<Rightarrow> (world, conversation) prog" where
  "owned_conversation user cid =
     bnd (conv_service_get cid) (\<lambda>found. case found of
       None \<Rightarrow> raise (HTTPException 404 ''Conversation not found'')
     | Some conv \<Rightarrow> if cv_user conv \<noteq> user then raise (HTTPException 404 ''Conversation not found'') else ret conv)"

definition spec_error :: "exn \<Rightarrow> exn" where
  "spec_error e = (case e of ArtifactSpecError s \<Rightarrow> HTTPException 422 s | _ \<Rightarrow> e)"

text \<open>The answer: the view, whether the row is new (201 or 200), the id to wake.\<close>

definition api_register_artifact ::
  "(string \<Rightarrow> string) \<Rightarrow> (string \<Rightarrow> uuid) \<Rightarrow> uuid \<Rightarrow> uuid \<Rightarrow> uuid \<Rightarrow> string \<Rightarrow> json \<Rightarrow> string \<Rightarrow> string option
   \<Rightarrow> (world \<times> studio, artifact_view \<times> bool \<times> uuid option) prog" where
  "api_register_artifact sha256 uuid5 user cid mid type content block title =
     bnd (on_world (owned_conversation user cid)) (\<lambda>_.
     bnd (on_world (msg_get cid mid)) (\<lambda>msg.
     if msg = None then raise (HTTPException 404 ''Message not found'')
     else bnd (on_other (attempt (register sha256 uuid5 user cid mid type content block title) (\<lambda>e. raise (spec_error e))))
            (\<lambda>(a, created). ret (artifact_view_of a None, created, if ar_status a = ''pending'' then Some (ar_id a) else None))))"

record artifact_group =
  ag_conv :: uuid
  ag_title :: string
  ag_parent :: "uuid option"
  ag_current :: bool
  ag_artifacts :: "artifact_view list"

definition group_of :: "hierarchy \<Rightarrow> conversation \<Rightarrow> (artifact \<times> artifact_ref) list \<Rightarrow> uuid \<Rightarrow> artifact_group" where
  "group_of h conv rows cid =
     (let node = map_of (h_nodes h) cid in
      \<lparr>ag_conv = cid, ag_title = (case node of None \<Rightarrow> cv_title conv | Some n \<Rightarrow> cv_title n),
       ag_parent = (case node of None \<Rightarrow> None | Some n \<Rightarrow> cv_parent n), ag_current = (cid = cv_id conv),
       ag_artifacts = map (\<lambda>(a, f). artifact_view_of a (Some f)) (filter (\<lambda>(a, f). af_conv f = cid) rows)\<rparr>)"

record artifact_listing =
  al_scope :: string
  al_root :: uuid
  al_conv :: uuid
  al_is_root :: bool
  al_groups :: "artifact_group list"
  al_total :: nat

definition EXPORT_MAX_CONVERSATIONS :: nat where "EXPORT_MAX_CONVERSATIONS = 500"

definition api_list_artifacts ::
  "uuid \<Rightarrow> uuid \<Rightarrow> string \<Rightarrow> string option \<Rightarrow> string option \<Rightarrow> (world \<times> studio, artifact_listing) prog" where
  "api_list_artifacts user cid scope type query =
     bnd (on_world (owned_conversation user cid)) (\<lambda>conv.
     bnd (on_world (hierarchy_load user (EXPORT_MAX_CONVERSATIONS * 4))) (\<lambda>h.
     bnd (on_world (lift_result (if map_of (h_nodes h) (cv_id conv) = None then Inr [cv_id conv]
                                 else scope_ids h (cv_id conv) scope))) (\<lambda>ids.
     bnd (on_other (list_for_conversations user ids type query 500)) (\<lambda>rows.
     let groups = map (group_of h conv rows) (filter (\<lambda>c. \<exists>x \<in> set rows. af_conv (snd x) = c) ids);
         resolved = (if scope \<noteq> ''auto'' then scope else if cv_parent conv \<noteq> None then ''self'' else ''hierarchy'')
     in bnd (on_world (lift_result (if map_of (h_nodes h) (cv_id conv) = None then Inr (cv_id conv)
                                    else case root_of h (cv_id conv) of Inl e \<Rightarrow> Inl e | Inr (r, _) \<Rightarrow> Inr r))) (\<lambda>root.
        ret \<lparr>al_scope = resolved, al_root = root, al_conv = cv_id conv, al_is_root = (cv_parent conv = None),
             al_groups = groups, al_total = sum_list (map (\<lambda>g. length (ag_artifacts g)) groups)\<rparr>)))))"

definition owned_artifact :: "uuid \<Rightarrow> uuid \<Rightarrow> (studio, artifact) prog" where
  "owned_artifact user i =
     bnd (artifact_get user i) (\<lambda>row. case row of
       None \<Rightarrow> raise (HTTPException 404 ''Artifact not found'') | Some a \<Rightarrow> ret a)"

definition api_get_artifact :: "uuid \<Rightarrow> uuid \<Rightarrow> (studio, artifact_view \<times> uuid option) prog" where
  "api_get_artifact user i =
     bnd (owned_artifact user i) (\<lambda>a.
     ret (artifact_view_of a None, if ar_status a \<in> set ACTIVE_STATES then Some (ar_id a) else None))"

definition api_retry_artifact :: "uuid \<Rightarrow> uuid \<Rightarrow> (studio, artifact_view \<times> uuid option) prog" where
  "api_retry_artifact user i =
     bnd (attempt (artifact_retry user i) (\<lambda>e. raise (case e of
            ArtifactNotFound \<Rightarrow> HTTPException 404 ''Artifact not found''
          | RetryLimitReached \<Rightarrow> HTTPException 409 ''retry_limit''
          | _ \<Rightarrow> e))) (\<lambda>(row, restarted). case row of
       None \<Rightarrow> raise TypeError
     | Some a \<Rightarrow> ret (artifact_view_of a None, if restarted then Some (ar_id a) else None))"

text \<open>\<open>re.sub("[^A-Za-z0-9._-]+", "-", title).strip("-.")[:60]\<close>.\<close>

definition name_char :: "char \<Rightarrow> bool" where
  "name_char c = (is_alnum_ascii c \<or> c \<in> set ''._-'')"

function dashed :: "string \<Rightarrow> string" where
  "dashed [] = []"
| "dashed (c # s) =
     (if name_char c then c # dashed s
      else CHR ''-'' # dashed (dropWhile (\<lambda>d. \<not> name_char d) s))"
  by pat_completeness auto
termination
  by (relation "measure length") (auto intro: le_imp_less_Suc length_dropWhile_le)

definition trim_dots :: "string \<Rightarrow> string" where
  "trim_dots s = (let edge = (\<lambda>c. c = CHR ''-'' \<or> c = CHR ''.'') in rev (dropWhile edge (rev (dropWhile edge s))))"

definition safe_filename :: "string \<Rightarrow> string \<Rightarrow> string \<Rightarrow> string" where
  "safe_filename title fallback extension =
     (let stem = take 60 (trim_dots (dashed title)) in (if stem = [] then fallback else stem) @ extension)"

record media_answer =
  ma_bytes :: "byte list"
  ma_length :: nat
  ma_filename :: "string option"

text \<open>
  The stored video. When the object is gone the artifact goes back into the lifecycle and is woken; the 404 of that
  case is \<open>Inr (Inr i)\<close> with the id to wake.
\<close>

definition api_get_media :: "uuid \<Rightarrow> uuid \<Rightarrow> bool \<Rightarrow> (studio, media_answer + uuid) prog" where
  "api_get_media user i download =
     bnd (owned_artifact user i) (\<lambda>a.
     if ar_type a \<noteq> ''manim'' \<or> ar_status a \<noteq> ''ready'' \<or> \<not> has_text (ar_key a)
     then raise (HTTPException 404 ''Media not available'')
     else let key = the (ar_key a) in
       bnd (store_stat key) (\<lambda>info. case info of
         None \<Rightarrow> bnd (mark_object_missing (ar_id a)) (\<lambda>_. ret (Inr (ar_id a)))
       | Some n \<Rightarrow> bnd (store_get key) (\<lambda>bytes.
           ret (Inl \<lparr>ma_bytes = bytes, ma_length = n,
             ma_filename = (if download then Some (safe_filename (ar_title a) ''animation'' ''.mp4'') else None)\<rparr>))))"

definition api_get_thumbnail :: "uuid \<Rightarrow> uuid \<Rightarrow> (studio, media_answer) prog" where
  "api_get_thumbnail user i =
     bnd (owned_artifact user i) (\<lambda>a.
     if ar_status a \<noteq> ''ready'' \<or> \<not> has_text (ar_thumb a) then raise (HTTPException 404 ''Thumbnail not available'')
     else let key = the (ar_thumb a) in
       bnd (store_stat key) (\<lambda>info. case info of
         None \<Rightarrow> raise (HTTPException 404 ''Thumbnail not available'')
       | Some n \<Rightarrow> bnd (store_get key) (\<lambda>bytes.
           ret \<lparr>ma_bytes = bytes, ma_length = n, ma_filename = None\<rparr>)))"

section \<open>Properties\<close>

text \<open>What the object store serves for a row of the registry.\<close>

lemma ready_row_backed:
  assumes "studio_ok sha s" and "find (\<lambda>r. ar_id r = i \<and> ar_owner r = user) (st_rows s) = Some a" and "ready_video a"
  shows "backed sha (st_objs s) a"
  using assms find_iff [OF assms(2)] by (auto simp: studio_ok_def rows_ok_def)

lemma wp_artifact_get:
  "wp (artifact_get user i) (\<lambda>r s'. s' = st_pop s \<and> r = find (\<lambda>r. ar_id r = i \<and> ar_owner r = user) (st_rows s))
     (\<lambda>_ s'. s' = st_pop s) s"
  by (simp add: artifact_get_def wp_def txn_def split: fault.split)

lemma wp_owned_artifact:
  "wp (owned_artifact user i) (\<lambda>a s'. s' = st_pop s \<and> ar_owner a = user \<and>
      find (\<lambda>r. ar_id r = i \<and> ar_owner r = user) (st_rows s) = Some a) (\<lambda>_ s'. s' = st_pop s) s"
  unfolding owned_artifact_def wp_bnd
  by (rule wp_mono [OF wp_artifact_get]) (auto simp: wp_ret wp_raise dest!: find_iff split: option.split)

text \<open>
  Only the owner is served an animation, and what is served is the verified video: when the registry is sound, the bytes
  of an answer pass the MP4 check, the announced length is theirs, and the artifact belongs to the user who asks.
\<close>

theorem served_video_is_verified:
  assumes "studio_ok sha s"
  shows "wp (api_get_media user i download)
     (\<lambda>r s'. case r of Inr _ \<Rightarrow> True
       | Inl m \<Rightarrow> (\<exists>a \<in> set (st_rows s). ar_id a = i \<and> ar_owner a = user) \<and> ma_length m = length (ma_bytes m) \<and>
           (\<exists>info. validate_mp4 sha ARTIFACT_MAX_VIDEO_BYTES (Some (ma_bytes m)) = Inr info))
     (\<lambda>_ s'. studio_ok sha s') s"
  unfolding api_get_media_def wp_bnd [of "owned_artifact _ _"]
proof (rule wp_mono [OF wp_owned_artifact], goal_cases)
  case (1 a s')
  show ?case
  proof (cases "ar_type a \<noteq> ''manim'' \<or> ar_status a \<noteq> ''ready'' \<or> \<not> has_text (ar_key a)")
    case False
    then have b: "backed sha (st_objs s) a" using 1 ready_row_backed [OF assms, of i user a] by (simp add: ready_video_def)
    then obtain ob info where ob: "ar_key a = Some (video_object_key (ar_id a))" "st_objs s (video_object_key (ar_id a)) = Some ob"
      "validate_mp4 sha ARTIFACT_MAX_VIDEO_BYTES (Some (so_bytes ob)) = Inr info" by (auto simp: backed_def)
    have mem: "a \<in> set (st_rows s)" "ar_id a = i" "ar_owner a = user" using 1 find_iff by fastforce+
    have get: "wp (bnd (store_get (video_object_key (ar_id a))) (\<lambda>bytes. ret (Inl \<lparr>ma_bytes = bytes, ma_length = length (so_bytes ob),
         ma_filename = f\<rparr>)))
       (\<lambda>r s'. case r of Inr _ \<Rightarrow> True
       | Inl m \<Rightarrow> (\<exists>a \<in> set (st_rows s). ar_id a = i \<and> ar_owner a = user) \<and> ma_length m = length (ma_bytes m) \<and>
           (\<exists>info. validate_mp4 sha ARTIFACT_MAX_VIDEO_BYTES (Some (ma_bytes m)) = Inr info))
       (\<lambda>_ s'. studio_ok sha s') (st_pop s')" for f
      unfolding wp_bnd by (rule wp_mono [OF wp_store_get]) (use 1 assms ob mem in \<open>auto simp: wp_ret\<close>)
    show ?thesis unfolding if_not_P [OF False] Let_def wp_bnd [of "store_stat _"]
      by (rule wp_mono [OF wp_store_stat]) (use 1 assms ob get in auto)
  qed (use 1 assms in \<open>simp add: wp_raise\<close>)
qed (use assms in simp)

definition ready_studio :: studio where
  "ready_studio = empty_studio\<lparr>
     st_rows := [queued_artifact\<lparr>ar_status := ''ready'', ar_key := Some (video_object_key 4), ar_size := Some 1024, ar_sha := Some []\<rparr>],
     st_objs := [video_object_key 4 \<mapsto> \<lparr>so_bytes = small_video, so_type = ''video/mp4'', so_modified = 0\<rparr>]\<rparr>"

theorem served_video_is_verified_witness:
  "wp (api_get_media 1 4 True)
     (\<lambda>r s'. case r of Inr _ \<Rightarrow> True
       | Inl m \<Rightarrow> (\<exists>a \<in> set (st_rows ready_studio). ar_id a = 4 \<and> ar_owner a = 1) \<and>
           ma_length m = length (ma_bytes m) \<and>
           (\<exists>info. validate_mp4 (\<lambda>_. []) ARTIFACT_MAX_VIDEO_BYTES (Some (ma_bytes m)) = Inr info))
     (\<lambda>_ s'. studio_ok (\<lambda>_. []) s') ready_studio"
proof (rule served_video_is_verified)
  have "validate_mp4 (\<lambda>_. []) ARTIFACT_MAX_VIDEO_BYTES (Some small_video) = Inr \<lparr>mi_size = 1024, mi_sha = []\<rparr>"
    by (rule small_video_valid) (simp add: ARTIFACT_MAX_VIDEO_BYTES_def)
  then show "studio_ok (\<lambda>_. []) ready_studio"
    by (simp add: studio_ok_def rows_ok_def ready_studio_def empty_studio_def queued_artifact_def within_bounds_def
        VALID_STATES_def ACTIVE_STATES_def TERMINAL_def ARTIFACT_MAX_AUTO_ATTEMPTS_def backed_def)
qed

end
