(* ===== verification/Export_Blocks.thy ===== *)
theory Export_Blocks
  imports Fingerprint
begin

text \<open>
  \<open>app/exports/blocks.py\<close>: the Mermaid and Manim fences of a message. The regular expression is anchored to lines at both
  ends and only its body spans lines, so a match is an opening line, the lines up to the first closing line, and that line;
  the scan works on the lines of the text. \<open>json.loads\<close> is a parameter (\<open>loads\<close>): it turns the text of numbers into
  floats and back, and escapes into code points beyond those of a \<open>char\<close>.
\<close>

record fenced =
  fb_kind :: string
  fb_body :: string
  fb_start :: nat
  fb_end :: nat

section \<open>Lines\<close>

definition spaces :: "string \<Rightarrow> nat" where
  "spaces l = length (takeWhile (\<lambda>c. c = CHR '' '') l)"

definition blank :: "char \<Rightarrow> bool" where
  "blank c = (c = CHR '' '' \<or> c = CHR 9)"

definition fence_char :: "char \<Rightarrow> bool" where
  "fence_char c = (c = CHR 0x60 \<or> c = CHR ''~'')"

text \<open>\<open>(?![A-Za-z0-9_-])\<close>.\<close>

definition word_goes_on :: "string \<Rightarrow> bool" where
  "word_goes_on s = (s \<noteq> [] \<and> (is_alnum_ascii (hd s) \<or> hd s = CHR ''_'' \<or> hd s = CHR ''-''))"

definition lang_of :: "string \<Rightarrow> (string \<times> string) option" where
  "lang_of s =
     (if starts_with ''mermaid'' (lower s) \<and> \<not> word_goes_on (drop 7 s) then Some (''mermaid'', drop 7 s)
      else if starts_with ''manim'' (lower s) \<and> \<not> word_goes_on (drop 5 s) then Some (''manim'', drop 5 s)
      else None)"

text \<open>The opening line: the kind and the fence; the rest of the line holds no backtick.\<close>

definition open_fence :: "string \<Rightarrow> (string \<times> string) option" where
  "open_fence l =
     (if 3 < spaces l then None
      else (let s = drop (spaces l) l in
        case s of [] \<Rightarrow> None
        | c # _ \<Rightarrow>
            let run = takeWhile (\<lambda>d. d = c) s in
            if \<not> fence_char c \<or> length run < 3 then None
            else (case lang_of (dropWhile blank (drop (length run) s)) of
               None \<Rightarrow> None
             | Some (kind, info) \<Rightarrow> if CHR 0x60 \<in> set info then None else Some (kind, run))))"

definition closes :: "string \<Rightarrow> string \<Rightarrow> bool" where
  "closes fence l =
     (spaces l \<le> 3 \<and> starts_with fence (drop (spaces l) l) \<and>
      list_all blank (dropWhile fence_char (drop (spaces l + length fence) l)))"

text \<open>The lines before the first one that satisfies \<open>P\<close>, that line, and the rest.\<close>

fun break_at :: "('a \<Rightarrow> bool) \<Rightarrow> 'a list \<Rightarrow> ('a list \<times> 'a \<times> 'a list) option" where
  "break_at P [] = None"
| "break_at P (x # xs) =
     (if P x then Some ([], x, xs)
      else case break_at P xs of None \<Rightarrow> None | Some (ys, y, zs) \<Rightarrow> Some (x # ys, y, zs))"

definition with_newlines :: "string list \<Rightarrow> string" where
  "with_newlines ls = concat (map (\<lambda>l. l @ [CHR 10]) ls)"

definition rstrip_newlines :: "string \<Rightarrow> string" where
  "rstrip_newlines s = rev (dropWhile (\<lambda>c. c = CHR 10) (rev s))"

lemma break_at_parts: "break_at P xs = Some (ys, y, zs) \<Longrightarrow> xs = ys @ y # zs \<and> P y \<and> (\<forall>x \<in> set ys. \<not> P x)"
  by (induction xs arbitrary: ys) (auto split: if_splits option.splits)

lemma break_at_None: "break_at P xs = None \<longleftrightarrow> (\<forall>x \<in> set xs. \<not> P x)"
  by (induction xs) (auto split: option.splits)

section \<open>The scan\<close>

function scan_lines :: "nat \<Rightarrow> string list \<Rightarrow> fenced list" where
  "scan_lines pos [] = []"
| "scan_lines pos (l # ls) =
     (case open_fence l of
        None \<Rightarrow> scan_lines (pos + length l + 1) ls
      | Some (kind, fence) \<Rightarrow>
          (case break_at (closes fence) ls of
             None \<Rightarrow> scan_lines (pos + length l + 1) ls
           | Some (body, close, rest) \<Rightarrow>
               (let stop = pos + length l + 1 + length (with_newlines body) + length close
                in \<lparr>fb_kind = kind, fb_body = rstrip_newlines (with_newlines body), fb_start = pos, fb_end = stop\<rparr>
                   # scan_lines (stop + 1) rest)))"
  by pat_completeness auto
termination
  by (relation "measure (\<lambda>(pos, ls). length ls)") (auto dest!: break_at_parts)

definition find_blocks :: "string \<Rightarrow> fenced list" where
  "find_blocks content = scan_lines 0 (split_on (CHR 10) content)"

definition manim_spec :: "(string \<Rightarrow> json option) \<Rightarrow> fenced \<Rightarrow> (string \<times> json) list option" where
  "manim_spec loads b =
     (if fb_kind b \<noteq> ''manim'' then None
      else case loads (fb_body b) of Some (JObj kvs) \<Rightarrow> Some kvs | _ \<Rightarrow> None)"

section \<open>Where the blocks lie\<close>

text \<open>Blocks in the text order, none reaching into the next.\<close>

fun in_order :: "nat \<Rightarrow> fenced list \<Rightarrow> bool" where
  "in_order n [] = True"
| "in_order n (b # bs) = (n \<le> fb_start b \<and> fb_start b < fb_end b \<and> in_order (fb_end b) bs)"

definition slice :: "nat \<Rightarrow> nat \<Rightarrow> string \<Rightarrow> string" where
  "slice i j s = take (j - i) (drop i s)"

text \<open>The text of a block: its opening line, its body lines, its closing line.\<close>

definition block_lines :: "fenced \<Rightarrow> string \<Rightarrow> bool" where
  "block_lines b text \<longleftrightarrow> (\<exists>first fence body close.
     text = first @ [CHR 10] @ with_newlines body @ close \<and> open_fence first = Some (fb_kind b, fence) \<and>
     closes fence close \<and> (\<forall>l \<in> set body. \<not> closes fence l) \<and> fb_body b = rstrip_newlines (with_newlines body))"

lemma in_order_mono: "in_order n bs \<Longrightarrow> m \<le> n \<Longrightarrow> in_order m bs"
  by (cases bs) auto

lemma join_lines: "ls \<noteq> [] \<Longrightarrow> join [CHR 10] (xs @ ls) = with_newlines xs @ join [CHR 10] ls"
proof (induction xs)
  case (Cons x xs)
  then show ?case by (cases "xs @ ls") (auto simp: with_newlines_def)
qed (simp add: with_newlines_def)

lemma join_split: "join [c] (split_on c s) = s"
proof (induction s)
  case (Cons x s)
  obtain w ws where w: "split_on c s = w # ws" by (metis split_on_not_Nil list.exhaust)
  then show ?case using Cons by (cases ws) auto
qed simp

text \<open>
  \<open>pre\<close> is the text before the lines still to scan; every block found lies in the text after it and has the text of a fenced
  block there.
\<close>

lemma scan_lines_sound:
  assumes "pos = length pre"
  shows "in_order pos (scan_lines pos ls) \<and> (\<forall>b \<in> set (scan_lines pos ls). fb_end b \<le> length (pre @ join [CHR 10] ls) \<and>
     block_lines b (slice (fb_start b) (fb_end b) (pre @ join [CHR 10] ls)))"
  using assms
proof (induction pos ls arbitrary: pre rule: scan_lines.induct)
  case (2 pos l ls)
  have skip: ?case if "scan_lines pos (l # ls) = scan_lines (pos + length l + 1) ls"
    and ih: "\<And>pre'. pos + length l + 1 = length pre' \<Longrightarrow>
      in_order (pos + length l + 1) (scan_lines (pos + length l + 1) ls) \<and>
      (\<forall>b \<in> set (scan_lines (pos + length l + 1) ls). fb_end b \<le> length (pre' @ join [CHR 10] ls) \<and>
         block_lines b (slice (fb_start b) (fb_end b) (pre' @ join [CHR 10] ls)))"
  proof (cases "ls = []")
    case False
    then have "pre @ join [CHR 10] (l # ls) = (pre @ l @ [CHR 10]) @ join [CHR 10] ls" by (cases ls) auto
    then show ?thesis using ih [of "pre @ l @ [CHR 10]"] that(1) "2.prems" by (auto intro: in_order_mono)
  qed (use that(1) in simp)
  show ?case
  proof (cases "open_fence l")
    case None
    then show ?thesis using 2(1) by (intro skip) simp_all
  next
    case (Some kf)
    then obtain kind fence where kf: "open_fence l = Some (kind, fence)" by (cases kf) auto
    show ?thesis
    proof (cases "break_at (closes fence) ls")
      case None
      then show ?thesis using 2(2) kf by (intro skip) simp_all
    next
      case (Some t)
      then obtain body close rest where br: "break_at (closes fence) ls = Some (body, close, rest)" by (cases t) auto
      let ?stop = "pos + length l + 1 + length (with_newlines body) + length close"
      let ?b = "\<lparr>fb_kind = kind, fb_body = rstrip_newlines (with_newlines body), fb_start = pos, fb_end = ?stop\<rparr>"
      let ?text = "l @ [CHR 10] @ with_newlines body @ close"
      have ls: "ls = body @ close # rest" "closes fence close" "\<forall>x \<in> set body. \<not> closes fence x"
        using break_at_parts [OF br] by auto
      have whole: "pre @ join [CHR 10] (l # ls) = pre @ ?text @ (if rest = [] then [] else CHR 10 # join [CHR 10] rest)"
        using join_lines [of "close # rest" "l # body"] ls(1) by (cases rest) (auto simp: with_newlines_def)
      have len: "length ?text = ?stop - pos" by simp
      have b: "slice pos ?stop (pre @ join [CHR 10] (l # ls)) = ?text" "?stop \<le> length (pre @ join [CHR 10] (l # ls))"
        unfolding whole using "2.prems" by (simp_all add: slice_def)
      have lines: "block_lines ?b ?text" using kf ls by (auto simp: block_lines_def)
      have tail: "in_order (?stop + 1) (scan_lines (?stop + 1) rest) \<and>
          (\<forall>b \<in> set (scan_lines (?stop + 1) rest). fb_end b \<le> length (pre @ join [CHR 10] (l # ls)) \<and>
             block_lines b (slice (fb_start b) (fb_end b) (pre @ join [CHR 10] (l # ls))))"
      proof (cases "rest = []")
        case False
        have "in_order (?stop + 1) (scan_lines (?stop + 1) rest) \<and>
          (\<forall>b \<in> set (scan_lines (?stop + 1) rest). fb_end b \<le> length ((pre @ ?text @ [CHR 10]) @ join [CHR 10] rest) \<and>
             block_lines b (slice (fb_start b) (fb_end b) ((pre @ ?text @ [CHR 10]) @ join [CHR 10] rest)))"
          by (rule 2(3)) (use kf br "2.prems" in auto)
        then show ?thesis using False unfolding whole by simp
      qed simp
      have scan: "scan_lines pos (l # ls) = ?b # scan_lines (?stop + 1) rest" using kf br by (simp add: Let_def)
      show ?thesis unfolding scan using b lines tail in_order_mono [of "?stop + 1" _ "?stop"] by auto
    qed
  qed
qed simp

end
