(* ===== verification/Export_Collect.thy ===== *)
theory Export_Collect
  imports Artifact_Api Export_Blocks
begin

text \<open>
  \<open>app/exports/collector.py\<close>: the source data of an export, read from the stores of both services. The state is the pair of
  the world and the studio; the reads the code gathers concurrently run in the order of the ids.
\<close>

type_synonym 'a export = "(world \<times> studio, 'a) prog"

definition PAGE :: nat where "PAGE = 100"

record export_conversation =
  xc_conv :: conversation
  xc_depth :: nat
  xc_messages :: "message list"
  xc_parent :: "uuid option"
  xc_missing :: "uuid option"
  xc_branch :: "uuid option"
  xc_children :: "uuid list"

record export_bundle =
  xb_selected :: uuid
  xb_root :: uuid
  xb_convs :: "export_conversation list"
  xb_artifacts :: "(string \<times> artifact) list"
  xb_generated :: int

definition MANIM_SPEC_LIMIT :: nat where "MANIM_SPEC_LIMIT = 20000"

definition artifact_for_spec :: "export_bundle \<Rightarrow> (string \<times> json) list \<Rightarrow> artifact option" where
  "artifact_for_spec b spec = (case canonical_manim_spec (JObj spec) MANIM_SPEC_LIMIT of
     Inl _ \<Rightarrow> None | Inr canonical \<Rightarrow> map_of (xb_artifacts b) canonical)"

section \<open>The snapshot\<close>

definition latest_marker :: "message list \<Rightarrow> string" where
  "latest_marker ms = (case ms of [] \<Rightarrow> [] | m # _ \<Rightarrow> uuid_str (m_id m) @ '':'' @ status_value (m_status m))"

primrec snapshot_of_ids :: "uuid list \<Rightarrow> (world, (string \<times> string) list) prog" where
  "snapshot_of_ids [] = ret []"
| "snapshot_of_ids (c # cs) =
     bnd (msg_history c 1 None) (\<lambda>latest.
     bnd (snapshot_of_ids cs) (\<lambda>rest. ret ((uuid_str c, latest_marker latest) # rest)))"

section \<open>Messages\<close>

function page_loop :: "nat \<Rightarrow> uuid \<Rightarrow> uuid option \<Rightarrow> message list \<Rightarrow> (world, message list) prog" where
  "page_loop max_messages cid cursor collected =
     (if length collected < max_messages
      then bnd (msg_history cid PAGE cursor) (\<lambda>page.
        if page = [] then ret collected
        else page_loop max_messages cid (Some (m_id (last page))) (collected @ page))
      else ret collected)"
  by pat_completeness auto
termination
  by (relation "measure (\<lambda>(n, cid, cursor, collected). n - length collected)") (auto intro!: diff_less_mono2 simp flip: length_greater_0_conv)

declare page_loop.simps [simp del]

text \<open>Up to and with the first message whose id is written \<open>limit\<close>; everything when there is none.\<close>

definition cut_after :: "string \<Rightarrow> message list \<Rightarrow> message list" where
  "cut_after limit ms =
     (if limit = [] \<or> limit \<notin> set (map (\<lambda>m. uuid_str (m_id m)) ms) then ms
      else takeWhile (\<lambda>m. uuid_str (m_id m) \<noteq> limit) ms @ [hd (dropWhile (\<lambda>m. uuid_str (m_id m) \<noteq> limit) ms)])"

definition has_content :: "message \<Rightarrow> bool" where
  "has_content m = (case m_content m of None \<Rightarrow> False | Some s \<Rightarrow> strip s \<noteq> [])"

fun keep_sent :: "uuid list \<Rightarrow> message list \<Rightarrow> message list" where
  "keep_sent seen [] = []"
| "keep_sent seen (m # ms) =
     (if m_status m \<noteq> SENT \<or> \<not> has_content m \<or> m_id m \<in> set seen then keep_sent seen ms
      else m # keep_sent (m_id m # seen) ms)"

definition limit_id :: "string \<Rightarrow> string" where
  "limit_id marker = (if marker = [] then [] else hd (split_on (CHR '':'') marker))"

definition export_messages :: "nat \<Rightarrow> uuid \<Rightarrow> string \<Rightarrow> (world, message list) prog" where
  "export_messages max_messages cid marker =
     bnd (page_loop max_messages cid None []) (\<lambda>collected.
     ret (keep_sent [] (cut_after (limit_id marker) (rev collected))))"

section \<open>Collection\<close>

definition specs_of :: "(string \<Rightarrow> json option) \<Rightarrow> message list \<Rightarrow> string list" where
  "specs_of loads ms = concat (map (\<lambda>m. concat (map (\<lambda>b. case manim_spec loads b of
       None \<Rightarrow> []
     | Some spec \<Rightarrow> (case canonical_manim_spec (JObj spec) MANIM_SPEC_LIMIT of Inl _ \<Rightarrow> [] | Inr t \<Rightarrow> [t]))
     (find_blocks (case m_content m of None \<Rightarrow> [] | Some s \<Rightarrow> s)))) ms)"

definition export_row ::
  "hierarchy \<Rightarrow> uuid list \<Rightarrow> uuid \<Rightarrow> conversation \<Rightarrow> conversation option \<Rightarrow> nat \<Rightarrow> message list \<Rightarrow> export_conversation" where
  "export_row h scope cid node full depth msgs =
     (let known = (\<lambda>p. p \<in> node_ids (h_nodes h)) in
      \<lparr>xc_conv = (case full of None \<Rightarrow> node | Some c \<Rightarrow> c), xc_depth = depth, xc_messages = msgs,
       xc_parent = (case cv_parent node of None \<Rightarrow> None | Some p \<Rightarrow> if known p then Some p else None),
       xc_missing = (case cv_parent node of None \<Rightarrow> None | Some p \<Rightarrow> if known p then None else Some p),
       xc_branch = (case full of None \<Rightarrow> None | Some c \<Rightarrow> cv_branch c),
       xc_children = filter (\<lambda>c. c \<in> set scope) (h_children h cid)\<rparr>)"

definition export_one ::
  "(nat \<Rightarrow> nat \<Rightarrow> unit export) \<Rightarrow> nat \<Rightarrow> uuid \<Rightarrow> hierarchy \<Rightarrow> uuid \<Rightarrow> uuid list \<Rightarrow> (string \<times> string) list \<Rightarrow> uuid
   \<Rightarrow> export_conversation list \<Rightarrow> export_conversation list export" where
  "export_one report max_messages owner h root scope snap cid convs =
     (case map_of (h_nodes h) cid of
        None \<Rightarrow> raise KeyError
      | Some node \<Rightarrow>
          bnd (on_world (conv_service_get cid)) (\<lambda>full.
          if (case full of None \<Rightarrow> False | Some c \<Rightarrow> cv_user c \<noteq> owner) then ret convs
          else
            bnd (on_world (export_messages max_messages cid
              (case map_of snap (uuid_str cid) of None \<Rightarrow> [] | Some m \<Rightarrow> m))) (\<lambda>msgs.
            bnd (report (length convs + 1) (length scope)) (\<lambda>_.
            bnd (lift_result (depth_of h cid root)) (\<lambda>depth.
            ret (convs @ [export_row h scope cid node full depth msgs]))))))"

primrec lookup_all ::
  "(string \<Rightarrow> string) \<Rightarrow> uuid \<Rightarrow> string \<Rightarrow> string \<Rightarrow> string list \<Rightarrow> (studio, (string \<times> artifact) list) prog" where
  "lookup_all sha256 owner version quality [] = ret []"
| "lookup_all sha256 owner version quality (t # ts) =
     bnd (artifact_lookup sha256 owner ''manim'' t version quality) (\<lambda>row.
     bnd (lookup_all sha256 owner version quality ts) (\<lambda>found.
     ret (case row of None \<Rightarrow> found | Some a \<Rightarrow> (t, a) # found)))"

definition collect ::
  "(string \<Rightarrow> json option) \<Rightarrow> (string \<Rightarrow> string) \<Rightarrow> (nat \<Rightarrow> nat \<Rightarrow> unit export) \<Rightarrow> nat \<Rightarrow> uuid \<Rightarrow> hierarchy \<Rightarrow> uuid
   \<Rightarrow> uuid list \<Rightarrow> (string \<times> string) list \<Rightarrow> string \<Rightarrow> string \<Rightarrow> export_bundle export" where
  "collect loads sha256 report max_messages owner h selected ids snap version quality =
     (if selected \<notin> node_ids (h_nodes h) then raise SourceMissing
      else case root_of h selected of
        Inl e \<Rightarrow> raise e
      | Inr (root, _) \<Rightarrow>
          (let scope = filter (\<lambda>c. c \<in> node_ids (h_nodes h)) ids in
           bnd (fold_prog (export_one report max_messages owner h root scope snap) scope []) (\<lambda>convs.
           let texts = sort (dedup [] (concat (map (\<lambda>xc. specs_of loads (xc_messages xc)) convs))) in
           bnd (on_other (lookup_all sha256 owner version quality texts)) (\<lambda>found.
           bnd (on_world (getting w_now)) (\<lambda>now.
           ret \<lparr>xb_selected = selected, xb_root = root, xb_convs = convs, xb_artifacts = found, xb_generated = now\<rparr>)))))"


section \<open>What the messages of an export are\<close>

lemma keep_sent_sound: "m \<in> set (keep_sent seen ms) \<Longrightarrow> m \<in> set ms \<and> m_status m = SENT \<and> has_content m \<and> m_id m \<notin> set seen"
  by (induction seen ms rule: keep_sent.induct) (auto split: if_splits)

lemma keep_sent_distinct: "distinct (map m_id (keep_sent seen ms))"
proof (induction seen ms rule: keep_sent.induct)
  case (2 seen m ms)
  then show ?case using keep_sent_sound [of _ "m_id m # seen" ms] by fastforce
qed simp

lemma keep_sent_sorted: "sorted_wrt R ms \<Longrightarrow> sorted_wrt R (keep_sent seen ms)"
proof (induction seen ms rule: keep_sent.induct)
  case (2 seen m ms)
  then show ?case using keep_sent_sound [of _ "m_id m # seen" ms] by auto
qed simp

lemma cut_after_prefix: "\<exists>rest. ms = cut_after l ms @ rest"
proof (cases "l = [] \<or> l \<notin> set (map (\<lambda>m. uuid_str (m_id m)) ms)")
  case False
  let ?d = "dropWhile (\<lambda>m. uuid_str (m_id m) \<noteq> l) ms"
  have "?d \<noteq> []" using False by (auto simp: dropWhile_eq_Nil_conv)
  then have "ms = (takeWhile (\<lambda>m. uuid_str (m_id m) \<noteq> l) ms @ [hd ?d]) @ tl ?d"
    using takeWhile_dropWhile_id [of "\<lambda>m. uuid_str (m_id m) \<noteq> l" ms] by (cases ?d) auto
  then show ?thesis using False by (metis cut_after_def)
qed (auto simp: cut_after_def)

section \<open>What the pages hold\<close>

text \<open>
  \<open>read_prefix n cid rows ms\<close>: \<open>ms\<close> are the messages of an initial part of the rows, and the part ends at the end, after
  \<open>n\<close> messages, or before a page of deleted rows.
\<close>

definition deleted :: "msg_row \<Rightarrow> bool" where
  "deleted r \<longleftrightarrow> mr_status r = Some ''deleted''"

definition read_prefix :: "nat \<Rightarrow> uuid \<Rightarrow> msg_row list \<Rightarrow> message list \<Rightarrow> bool" where
  "read_prefix n cid rows ms \<longleftrightarrow> (\<exists>before rest. rows = before @ rest \<and> history_rows cid before = Inr ms \<and>
     (n \<le> length ms \<or> list_all deleted (take PAGE rest)))"

lemma history_rows_append:
  "history_rows cid (xs @ ys) = (case history_rows cid xs of Inl e \<Rightarrow> Inl e
     | Inr ms \<Rightarrow> (case history_rows cid ys of Inl e \<Rightarrow> Inl e | Inr ns \<Rightarrow> Inr (ms @ ns)))"
  by (induction xs) (auto split: sum.splits option.splits)

lemma history_rows_Nil: "history_rows cid rs = Inr [] \<longleftrightarrow> list_all deleted rs"
  by (induction rs) (auto simp: deleted_def split: option.splits sum.splits)

text \<open>A page with messages ends, for the next cursor, at the row of its last message.\<close>

lemma last_message_row:
  assumes "history_rows cid rs = Inr ms" and "ms \<noteq> []"
  shows "\<exists>xs r ys. rs = xs @ r # ys \<and> mr_id r = m_id (last ms) \<and> history_rows cid (xs @ [r]) = Inr ms"
  using assms
proof (induction rs arbitrary: ms)
  case (Cons r rs)
  show ?case
  proof (cases "deleted r")
    case True
    then have "history_rows cid rs = Inr ms" using Cons.prems(1) by (simp add: deleted_def)
    then obtain xs r' ys where x: "rs = xs @ r' # ys" "mr_id r' = m_id (last ms)" "history_rows cid (xs @ [r']) = Inr ms"
      using Cons.IH Cons.prems(2) by blast
    then show ?thesis using True by (intro exI [of _ "r # xs"]) (simp add: deleted_def)
  next
    case False
    then obtain st ns where st: "status_of (mr_status r) = Some st" "history_rows cid rs = Inr ns"
      "ms = message_of_row cid r st # ns" using Cons.prems(1) by (auto simp: deleted_def split: option.splits sum.splits)
    show ?thesis
    proof (cases "ns = []")
      case True
      then show ?thesis using False st by (intro exI [of _ "[]"]) (simp add: deleted_def message_of_row_def)
    next
      case ne: False
      then obtain xs r' ys where x: "rs = xs @ r' # ys" "mr_id r' = m_id (last ns)" "history_rows cid (xs @ [r']) = Inr ns"
        using Cons.IH st(2) by blast
      then show ?thesis using False st ne by (intro exI [of _ "r # xs"]) (simp add: deleted_def)
    qed
  qed
qed simp

lemma rows_after:
  assumes "clustered msg_lt mr_id (xs @ r # ys)"
  shows "filter (\<lambda>x. ckey (mr_id x) < ckey (mr_id r)) (xs @ r # ys) = ys"
proof -
  have "\<forall>x \<in> set xs. \<not> ckey (mr_id x) < ckey (mr_id r)" "\<forall>y \<in> set ys. ckey (mr_id y) < ckey (mr_id r)"
    using assms by (auto simp: clustered_def sorted_wrt_append msg_lt_def)
  then show ?thesis by (simp add: filter_False filter_True)
qed

text \<open>The cursor stands at the last row read.\<close>

definition cursor_at :: "uuid option \<Rightarrow> msg_row list \<Rightarrow> bool" where
  "cursor_at cursor before \<longleftrightarrow> (case cursor of None \<Rightarrow> before = [] | Some c \<Rightarrow> before \<noteq> [] \<and> mr_id (last before) = c)"

lemma wp_history_rest:
  assumes "msgs_ok w" and "w_msgs w cid = before @ rest" and "cursor_at cursor before"
  shows "wp (msg_history cid n cursor) (\<lambda>page w'. w' = pop w \<and> history_rows cid (take n rest) = Inr page) (\<lambda>_ _. True) w"
proof (cases cursor)
  case None
  then show ?thesis using assms(2,3) by (auto simp: cursor_at_def msg_history_def wp_simps split: fault.split sum.split)
next
  case (Some c)
  then have "before = butlast before @ [last before]" "mr_id (last before) = c"
    using assms(3) by (auto simp: cursor_at_def)
  then obtain xs r where b: "before = xs @ [r]" "mr_id r = c" by blast
  then have "filter (\<lambda>x. ckey (mr_id x) < ckey c) (w_msgs w cid) = rest"
    using rows_after [of xs r rest] assms(1,2) by (simp add: msgs_ok_def) (metis append_Cons append_assoc self_append_conv2)
  then show ?thesis using Some by (auto simp: msg_history_def wp_simps split: fault.split sum.split)
qed


lemma wp_page_loop:
  assumes "msgs_ok w" and "w_msgs w cid = before @ rest" and "history_rows cid before = Inr collected"
    and "cursor_at cursor before"
  shows "wp (page_loop n cid cursor collected) (\<lambda>ms w'. read_prefix n cid (w_msgs w cid) ms \<and> only_cache w w') (\<lambda>_ w'. only_cache w w') w"
  using assms
proof (induction n cid cursor collected arbitrary: w before rest rule: page_loop.induct)
  case (1 n cid cursor collected)
  show ?case
  proof (cases "length collected < n")
    case True
    have step: "wp (if page = [] then ret collected else page_loop n cid (Some (m_id (last page))) (collected @ page))
       (\<lambda>ms w'. read_prefix n cid (w_msgs w cid) ms \<and> only_cache w w') (\<lambda>_ w'. only_cache w w') (pop w)"
      if page: "history_rows cid (take PAGE rest) = Inr page" for page
    proof (cases "page = []")
      case True
      then have "read_prefix n cid (w_msgs w cid) collected"
        using 1(3,4) page by (auto simp: read_prefix_def history_rows_Nil)
      then show ?thesis using True by (simp add: wp_ret)
    next
      case False
      obtain xs r ys where r: "take PAGE rest = xs @ r # ys" "mr_id r = m_id (last page)" "history_rows cid (xs @ [r]) = Inr page"
        using last_message_row [OF page False] by blast
      have split: "w_msgs w cid = (before @ xs @ [r]) @ (ys @ drop PAGE rest)"
        using 1(3) r(1) append_take_drop_id [of PAGE rest] by simp
      have "wp (page_loop n cid (Some (m_id (last page))) (collected @ page))
        (\<lambda>ms w'. read_prefix n cid (w_msgs (pop w) cid) ms \<and> only_cache (pop w) w') (\<lambda>_ w'. only_cache (pop w) w') (pop w)"
      proof (rule 1(1) [OF True False])
        show "w_msgs (pop w) cid = (before @ xs @ [r]) @ (ys @ drop PAGE rest)" using split by simp
        show "history_rows cid (before @ xs @ [r]) = Inr (collected @ page)"
          using 1(4) r(3) by (simp only: history_rows_append [of cid before] sum.case)
      qed (use 1(2) r(2) in \<open>simp_all add: cursor_at_def\<close>)
      then show ?thesis using False by (simp add: only_cache_def)
    qed
    show ?thesis unfolding page_loop.simps [of n cid cursor collected] if_P [OF True] wp_bnd
    proof (rule wp_mono [OF wp_conj [OF wp_history_rest [OF 1(2,3,5)] wp_msg_history]], goal_cases)
      case (1 page w')
      then show ?case using step [of page] by (simp only: conj_assoc)
    qed simp
  next
    case False
    then have "read_prefix n cid (w_msgs w cid) collected" using 1(3,4) by (auto simp: read_prefix_def)
    then show ?thesis using False by (simp add: page_loop.simps [of n cid cursor collected] wp_ret)
  qed
qed


section \<open>Properties of the messages\<close>

definition stored_message :: "world \<Rightarrow> uuid \<Rightarrow> message \<Rightarrow> bool" where
  "stored_message w cid m \<longleftrightarrow> (\<exists>r \<in> set (w_msgs w cid). m = message_of_row cid r (m_status m) \<and>
     status_of (mr_status r) = Some (m_status m))"

lemma history_rows_order:
  "clustered msg_lt mr_id rs \<Longrightarrow> history_rows cid rs = Inr ms \<Longrightarrow> sorted_wrt (\<lambda>a b. msg_lt (m_id a) (m_id b)) ms"
proof (induction rs arbitrary: ms)
  case (Cons r rs)
  have rest: "clustered msg_lt mr_id rs" and first: "\<forall>x \<in> set rs. msg_lt (mr_id r) (mr_id x)"
    using Cons.prems(1) by (auto simp: clustered_def)
  show ?case
  proof (cases "deleted r")
    case True
    then show ?thesis using Cons.IH [OF rest] Cons.prems(2) by (simp add: deleted_def)
  next
    case False
    then obtain st ns where st: "history_rows cid rs = Inr ns" "ms = message_of_row cid r st # ns"
      using Cons.prems(2) by (auto simp: deleted_def split: option.splits sum.splits)
    have "\<forall>n \<in> set ns. msg_lt (mr_id r) (m_id n)" using history_rows_not_deleted [OF st(1)] first by fastforce
    then show ?thesis using Cons.IH [OF rest st(1)] st(2) by (simp add: message_of_row_def)
  qed
qed simp

lemma read_prefix_messages:
  assumes "clustered msg_lt mr_id (w_msgs w cid)" and "read_prefix n cid (w_msgs w cid) ms"
  shows "sorted_wrt (\<lambda>a b. msg_lt (m_id a) (m_id b)) ms" and "m \<in> set ms \<Longrightarrow> stored_message w cid m"
proof -
  obtain before rest where b: "w_msgs w cid = before @ rest" "history_rows cid before = Inr ms"
    using assms(2) by (auto simp: read_prefix_def)
  show "sorted_wrt (\<lambda>a b. msg_lt (m_id a) (m_id b)) ms"
    by (rule history_rows_order [OF _ b(2)]) (use assms(1) b(1) in \<open>auto simp: clustered_def sorted_wrt_append\<close>)
  show "m \<in> set ms \<Longrightarrow> stored_message w cid m"
    using history_rows_not_deleted [OF b(2)] b(1) by (fastforce simp: stored_message_def message_of_row_def)
qed

lemma limit_of_marker: "limit_id (latest_marker (x # xs)) = uuid_str (m_id x)"
proof -
  have split: "CHR '':'' \<notin> set s \<Longrightarrow> hd (split_on (CHR '':'') (s @ CHR '':'' # t)) = s" for s t
    by (induction s) (auto split: list.split)
  have "CHR '':'' \<notin> set (uuid_str (m_id x))"
  proof
    assume "CHR '':'' \<in> set (uuid_str (m_id x))"
    then have "CHR '':'' \<in> set (uuid_hex (m_id x))" using uuid_str_subset [of "m_id x"] by auto
    then obtain d where "d < 16" "CHR '':'' = hex_digit d" using uuid_hex_char by blast
    then have "hex_value (CHR '':'') = Some d" by simp
    then show False by (simp add: hex_value_def)
  qed
  then show ?thesis using split [of "uuid_str (m_id x)"] by (simp add: limit_id_def latest_marker_def)
qed

lemma cut_after_bound:
  assumes "x \<in> set ms" and "sorted_wrt (\<lambda>a b. msg_lt (m_id b) (m_id a)) ms" and "m \<in> set (cut_after (uuid_str (m_id x)) ms)"
  shows "\<not> msg_lt (m_id m) (m_id x)"
proof -
  obtain as bs where ms: "ms = as @ x # bs" using assms(1) by (meson split_list)
  have before: "\<forall>a \<in> set as. msg_lt (m_id x) (m_id a)" using assms(2) ms by (auto simp: sorted_wrt_append)
  then have other: "\<forall>a \<in> set as. m_id a \<noteq> m_id x" by (auto simp: msg_lt_def)
  have "uuid_str (m_id x) \<noteq> []" by simp
  then have "cut_after (uuid_str (m_id x)) ms = as @ [x]"
    using other by (auto simp: cut_after_def ms uuid_str_inj takeWhile_append dropWhile_append)
  then show ?thesis using assms(3) before by (auto simp: msg_lt_def)
qed

text \<open>C25:
  The messages of an exported conversation, on any failing calls: they are stored messages of that conversation, all
  sent and with text, oldest first and without repetition; they are exactly the kept ones of what the pages delivered,
  and the pages stop only at the end, at the limit, or before a page of deleted rows; and when the newest message of the
  snapshot is among them, nothing newer than it is exported.
\<close>

theorem export_messages_spec:
  assumes "msgs_ok w"
  shows "wp (export_messages n cid marker)
     (\<lambda>ms w'. list_all (\<lambda>m. stored_message w cid m \<and> m_status m = SENT \<and> has_content m) ms \<and>
        distinct (map m_id ms) \<and> sorted_wrt (\<lambda>a b. msg_lt (m_id b) (m_id a)) ms \<and>
        (\<exists>read. read_prefix n cid (w_msgs w cid) read \<and> ms = keep_sent [] (cut_after (limit_id marker) (rev read)) \<and>
           (\<forall>x \<in> set read. marker = latest_marker [x] \<longrightarrow> list_all (\<lambda>m. \<not> msg_lt (m_id m) (m_id x)) ms)))
     (\<lambda>_ w'. only_cache w w') w"
  unfolding export_messages_def wp_bnd wp_ret
proof (rule wp_mono [OF wp_page_loop [OF assms, of cid "[]"]], goal_cases)
  case (4 read w')
  let ?old = "\<lambda>a b. msg_lt (m_id b) (m_id a)"
  let ?ms = "keep_sent [] (cut_after (limit_id marker) (rev read))"
  have cl: "clustered msg_lt mr_id (w_msgs w cid)" using assms by (simp add: msgs_ok_def)
  have read: "read_prefix n cid (w_msgs w cid) read" using 4 by blast
  have sorted: "sorted_wrt ?old (rev read)" using read_prefix_messages(1) [OF cl read] by (simp add: sorted_wrt_rev)
  obtain rest where cut: "rev read = cut_after (limit_id marker) (rev read) @ rest" using cut_after_prefix by blast
  then have kept: "sorted_wrt ?old (cut_after (limit_id marker) (rev read))"
    "set (cut_after (limit_id marker) (rev read)) \<subseteq> set read"
    using sorted by (metis sorted_wrt_append, metis Un_iff set_append set_rev subsetI)
  have "\<not> msg_lt (m_id m) (m_id x)" if "x \<in> set read" "marker = latest_marker [x]" "m \<in> set ?ms" for x m
    using cut_after_bound [OF _ sorted] that keep_sent_sound [OF that(3)] by (simp add: limit_of_marker)
  then show ?case using read kept read_prefix_messages(2) [OF cl read] keep_sent_sound [of _ "[]"] keep_sent_distinct
    keep_sent_sorted [OF kept(1)]
    unfolding list_all_iff by (intro conjI ballI exI [of _ read] impI) blast+
qed (simp_all add: cursor_at_def)


theorem export_messages_spec_witness:
  "wp (export_messages 3 5 [])
     (\<lambda>ms w'. list_all (\<lambda>m. stored_message branch_world 5 m \<and> m_status m = SENT \<and> has_content m) ms \<and>
        distinct (map m_id ms) \<and> sorted_wrt (\<lambda>a b. msg_lt (m_id b) (m_id a)) ms \<and>
        (\<exists>read. read_prefix 3 5 (w_msgs branch_world 5) read \<and> ms = keep_sent [] (cut_after (limit_id []) (rev read)) \<and>
           (\<forall>x \<in> set read. [] = latest_marker [x] \<longrightarrow> list_all (\<lambda>m. \<not> msg_lt (m_id m) (m_id x)) ms)))
     (\<lambda>_ w'. only_cache branch_world w') branch_world"
  by (rule export_messages_spec [OF regenerate_witness_world(1)])

text \<open>
  One page of deleted messages ends an export. When the newest hundred rows of a conversation are deleted ones, the export
  of that conversation has no messages, whatever older messages it still holds.
\<close>

theorem deleted_page_hides_older:
  assumes "calm w" and "list_all deleted (take PAGE (w_msgs w cid))"
  shows "result (export_messages n cid marker) w = Inr []"
proof -
  have "history_rows cid (take PAGE (w_msgs w cid)) = Inr []" using assms(2) by (simp add: history_rows_Nil)
  then have "wp (page_loop n cid None []) (\<lambda>ms _. ms = []) (\<lambda>_ _. False) w"
    using assms(1) by (subst page_loop.simps) (simp add: wp_bnd wp_ret msg_history_def wp_ext_calm wp_lift_result)
  then have "wp (export_messages n cid marker) (\<lambda>ms _. ms = []) (\<lambda>_ _. False) w"
    unfolding export_messages_def wp_bnd wp_ret
    by (rule wp_mono) (simp_all add: cut_after_def)
  then show ?thesis by (auto simp: wp_def result_def split: prod.splits sum.splits)
qed

definition weeded_world :: world where
  "weeded_world = (empty_world 0)\<lparr>w_msgs := (\<lambda>_.
     map (\<lambda>i. (blank_msg (word_of_nat (200 - i)))\<lparr>mr_status := Some ''deleted''\<rparr>) [0..<100] @
     [(blank_msg 7)\<lparr>mr_status := Some ''sent'', mr_content := Some ''kept''\<rparr>])\<rparr>"

theorem deleted_page_hides_older_witness:
  "result (export_messages 5000 5 []) weeded_world = Inr [] \<and>
   (\<exists>r \<in> set (w_msgs weeded_world 5). mr_status r = Some ''sent'' \<and> mr_content r = Some ''kept'')"
proof
  show "result (export_messages 5000 5 []) weeded_world = Inr []"
    by (rule deleted_page_hides_older)
       (simp_all add: weeded_world_def calm_def empty_world_def PAGE_def deleted_def list_all_iff del: upt_Suc)
qed (simp add: weeded_world_def del: upt_Suc)

text \<open>
  The marker of a snapshot names the newest message only: a change of an older one leaves the snapshot, and so the key
  of the export, as it was.
\<close>

lemma history_one_calm:
  "calm w \<Longrightarrow> msg_history c 1 None w = (history_rows c (take 1 (w_msgs w c)), w)"
  by (simp add: msg_history_def bnd_def ext_def lift_result_def ret_def raise_def split: sum.split)

lemma snapshot_calm: "calm w \<Longrightarrow> snapshot_of_ids cs w = (fst (snapshot_of_ids cs w), w)"
proof (induction cs)
  case (Cons c cs)
  obtain r where r: "snapshot_of_ids cs w = (r, w)" using Cons by (metis)
  then show ?case unfolding snapshot_of_ids.simps bnd_def history_one_calm [OF Cons.prems]
    by (auto simp: ret_def split: sum.split)
qed (simp add: ret_def)

lemma snapshot_sees_newest_only:
  assumes "calm w" and "calm w'" and "\<forall>c \<in> set cs. take 1 (w_msgs w' c) = take 1 (w_msgs w c)"
  shows "result (snapshot_of_ids cs) w' = result (snapshot_of_ids cs) w"
  using assms(3)
proof (induction cs)
  case (Cons c cs)
  obtain r where r: "snapshot_of_ids cs w = (r, w)" using snapshot_calm [OF assms(1)] by metis
  then have r': "snapshot_of_ids cs w' = (r, w')"
    using Cons snapshot_calm [OF assms(2), of cs] by (simp add: result_def)
  show ?case using Cons.prems r r'
    unfolding result_def snapshot_of_ids.simps bnd_def history_one_calm [OF assms(1)] history_one_calm [OF assms(2)]
    by (auto simp: ret_def split: sum.split)
qed (simp add: result_def ret_def)

section \<open>Ownership\<close>

text \<open>
  Whatever the cache holds and whatever the progress report does, only conversations of the owner enter an export; their
  ids are ids of the scope.
\<close>

definition own_conversations :: "uuid \<Rightarrow> export_conversation list \<Rightarrow> bool" where
  "own_conversations owner xcs \<longleftrightarrow> list_all (\<lambda>xc. cv_user (xc_conv xc) = owner \<and>
     list_all (\<lambda>m. m_status m = SENT \<and> has_content m) (xc_messages xc)) xcs"

definition own_nodes :: "uuid \<Rightarrow> hierarchy \<Rightarrow> bool" where
  "own_nodes owner h \<longleftrightarrow> (\<forall>x \<in> set (h_nodes h). cv_user (snd x) = owner)"

lemma wp_export_messages_sent:
  "wp (export_messages n cid marker) (\<lambda>ms _. list_all (\<lambda>m. m_status m = SENT \<and> has_content m) ms) (\<lambda>_ _. True) w"
  unfolding export_messages_def wp_bnd wp_ret
  by (rule wp_mono [OF wp_True]) (auto simp: list_all_iff dest: keep_sent_sound)

lemma wp_export_one:
  assumes "own_nodes owner h" and "own_conversations owner convs"
  shows "wp (export_one report n owner h root scope snap cid convs) (\<lambda>convs' _. own_conversations owner convs') (\<lambda>_ _. True) s"
proof (cases "map_of (h_nodes h) cid")
  case (Some node)
  obtain w st where s: "s = (w, st)" by (cases s)
  have node: "cv_user node = owner" using assms(1) map_of_SomeD [OF Some] by (force simp: own_nodes_def)
  have rest: "wp (bnd (on_world (export_messages n cid marker)) (\<lambda>msgs. bnd (report i j) (\<lambda>_.
        bnd (lift_result (depth_of h cid root)) (\<lambda>depth. ret (convs @ [export_row h scope cid node full depth msgs])))))
      (\<lambda>convs' _. own_conversations owner convs') (\<lambda>_ _. True) (w', st)"
    if "\<not> (case full of None \<Rightarrow> False | Some c \<Rightarrow> cv_user c \<noteq> owner)" for full i j w' marker
    unfolding wp_bnd wp_on_world wp_lift_result wp_ret
    by (rule wp_mono [OF wp_export_messages_sent], rule wp_mono [OF wp_True])
       (use assms(2) that node in \<open>auto simp: own_conversations_def export_row_def Let_def split: sum.split option.splits\<close>)
  show ?thesis unfolding export_one_def Some option.case s wp_bnd [of "on_world (conv_service_get cid)"] wp_on_world
  proof (rule wp_mono [OF wp_True], goal_cases)
    case (1 full w')
    show ?case
      by (cases "case full of None \<Rightarrow> False | Some c \<Rightarrow> cv_user c \<noteq> owner")
         (simp_all only: wp_ret assms(2) rest if_True if_False not_False_eq_True)
  qed simp
qed (simp add: export_one_def wp_raise)

lemma wp_lookup_all:
  "wp (lookup_all sha256 owner v q ts) (\<lambda>found _. list_all (\<lambda>(t, a). ar_owner a = owner \<and> ar_type a = ''manim'') found) (\<lambda>_ _. True) s"
proof (induction ts arbitrary: s)
  case (Cons t ts)
  have one: "wp (artifact_lookup sha256 owner ''manim'' t v q)
      (\<lambda>row _. case row of None \<Rightarrow> True | Some a \<Rightarrow> ar_owner a = owner \<and> ar_type a = ''manim'') (\<lambda>_ _. True) s" for s
    by (auto simp: artifact_lookup_def Let_def wp_def txn_def find_Some_iff split: fault.split option.split)
  show ?case unfolding lookup_all.simps wp_bnd wp_ret
    by (rule wp_mono [OF one], rule wp_mono [OF Cons.IH]) (auto split: option.splits)
qed (simp add: wp_ret)

text \<open>C24:
  An export contains only what its owner may see: with a hierarchy of the owner's conversations, on any failing calls and
  whatever the caches hold, every conversation collected belongs to the owner, every message in it is a sent one with
  text, and every animation it refers to is an artifact of the owner.
\<close>

theorem collect_only_own:
  assumes "own_nodes owner h"
  shows "wp (collect loads sha256 report n owner h selected ids snap version quality)
     (\<lambda>b _. own_conversations owner (xb_convs b) \<and>
        list_all (\<lambda>(t, a). ar_owner a = owner \<and> ar_type a = ''manim'') (xb_artifacts b)) (\<lambda>_ _. True) s"
proof -
  let ?Q = "\<lambda>b (_ :: world \<times> studio). own_conversations owner (xb_convs b) \<and>
        list_all (\<lambda>(t, a). ar_owner a = owner \<and> ar_type a = ''manim'') (xb_artifacts b)"
  have loop: "wp (fold_prog (export_one report n owner h root scope snap) scope [])
      (\<lambda>convs _. own_conversations owner convs) (\<lambda>_ _. True) s" for root scope
    by (rule wp_fold_acc [OF wp_export_one [OF assms]]) (simp_all add: own_conversations_def)
  have tail: "wp (bnd (on_other (lookup_all sha256 owner version quality ts)) (\<lambda>found. bnd (on_world (getting w_now)) (\<lambda>now.
       ret \<lparr>xb_selected = selected, xb_root = root, xb_convs = convs, xb_artifacts = found, xb_generated = now\<rparr>))) ?Q (\<lambda>_ _. True) s"
    if "own_conversations owner convs" for ts root convs s
    using that by (cases s) (auto simp: wp_bnd wp_on_other wp_on_world wp_getting wp_ret intro!: wp_mono [OF wp_lookup_all])
  show ?thesis
  proof (cases "root_of h selected")
    case (Inr rm)
    show ?thesis unfolding collect_def Inr sum.case
      by (cases rm) (auto simp: wp_if wp_raise Let_def wp_bnd [of "fold_prog _ _ _"] intro!: wp_mono [OF loop] tail)
  qed (simp add: collect_def wp_raise)
qed

theorem collect_only_own_witness:
  "wp (collect (\<lambda>_. None) (\<lambda>_. []) (\<lambda>_ _. ret ()) 10 3 (build_hierarchy tiny_tree) 4 [4] [] [] [])
     (\<lambda>b _. own_conversations 3 (xb_convs b) \<and>
        list_all (\<lambda>(t, a). ar_owner a = 3 \<and> ar_type a = ''manim'') (xb_artifacts b)) (\<lambda>_ _. True) (empty_world 0, empty_studio)"
  by (rule collect_only_own) (simp add: own_nodes_def build_hierarchy_def tiny_tree_def Let_def)

end
