(* ===== verification/Export_Names.thy ===== *)
theory Export_Names
  imports Py_Text Uuids
begin

text \<open>
  \<open>app/exports/naming.py\<close>: names of the files of an export. A title is user content; it reaches a path only through
  \<open>slug\<close>, and every archive member passes \<open>validate_archive_path\<close>.
\<close>

section \<open>NFKD, then ASCII\<close>

text \<open>
  \<open>unicodedata.normalize("NFKD", text).encode("ascii", "ignore")\<close> on the code points below U+0100: an accented letter loses its
  accent, a superscript or a fraction becomes its digits (the fraction slash is not ASCII), a spacing accent a space.
\<close>

definition between :: "nat \<Rightarrow> nat \<Rightarrow> nat \<Rightarrow> bool" where
  "between a b n = (a \<le> n \<and> n \<le> b)"

definition ascii_fold :: "char \<Rightarrow> string" where
  "ascii_fold c = (let n = (of_char c :: nat) in
     if n < 128 then [c]
     else if n \<in> {0xA0, 0xA8, 0xAF, 0xB4, 0xB8} then '' ''
     else if n = 0xAA then ''a'' else if n = 0xBA then ''o''
     else if n = 0xB2 then ''2'' else if n = 0xB3 then ''3'' else if n = 0xB9 then ''1''
     else if n = 0xBC then ''14'' else if n = 0xBD then ''12'' else if n = 0xBE then ''34''
     else if between 0xC0 0xC5 n then ''A'' else if n = 0xC7 then ''C'' else if between 0xC8 0xCB n then ''E''
     else if between 0xCC 0xCF n then ''I'' else if n = 0xD1 then ''N'' else if between 0xD2 0xD6 n then ''O''
     else if between 0xD9 0xDC n then ''U'' else if n = 0xDD then ''Y''
     else if between 0xE0 0xE5 n then ''a'' else if n = 0xE7 then ''c'' else if between 0xE8 0xEB n then ''e''
     else if between 0xEC 0xEF n then ''i'' else if n = 0xF1 then ''n'' else if between 0xF2 0xF6 n then ''o''
     else if between 0xF9 0xFC n then ''u'' else if n \<in> {0xFD, 0xFF} then ''y''
     else [])"

section \<open>Slugs\<close>

definition slug_char :: "char \<Rightarrow> bool" where
  "slug_char c = (is_digit c \<or> is_lower_az c \<or> c \<in> set ''._-'')"

definition slug_edge :: "char \<Rightarrow> bool" where
  "slug_edge c = (c \<in> set ''-._'')"

text \<open>\<open>_UNSAFE.sub("-", s)\<close>: each run of other characters becomes one dash.\<close>

fun dash_runs :: "bool \<Rightarrow> string \<Rightarrow> string" where
  "dash_runs inside [] = []"
| "dash_runs inside (c # s) =
     (if slug_char c then c # dash_runs False s
      else if inside then dash_runs True s
      else CHR ''-'' # dash_runs True s)"

definition strip_edges :: "string \<Rightarrow> string" where
  "strip_edges s = rev (dropWhile slug_edge (rev (dropWhile slug_edge s)))"

definition WINDOWS_RESERVED :: "string list" where
  "WINDOWS_RESERVED = [''con'', ''prn'', ''aux'', ''nul''] @
     map (\<lambda>i. ''com'' @ dec_of_nat i) [1..<10] @ map (\<lambda>i. ''lpt'' @ dec_of_nat i) [1..<10]"

definition slug :: "string \<Rightarrow> nat \<Rightarrow> string \<Rightarrow> string" where
  "slug title max_len fallback =
     (let folded = lower (concat (map ascii_fold title));
          cleaned = strip_edges (take max_len (strip_edges (dash_runs False folded)))
      in if cleaned = [] \<or> cleaned \<in> set WINDOWS_RESERVED then fallback else cleaned)"

definition SLUG_MAX :: nat where "SLUG_MAX = 40"

definition title_slug :: "string \<Rightarrow> string" where
  "title_slug title = slug title SLUG_MAX ''conversation''"

definition short_id :: "uuid \<Rightarrow> string" where
  "short_id u = take 8 (filter (\<lambda>c. c \<noteq> CHR ''-'') (uuid_str u))"

definition conversation_dir :: "string \<Rightarrow> uuid \<Rightarrow> string" where
  "conversation_dir title cid = title_slug title @ ''-'' @ short_id cid"

section \<open>Archive paths\<close>

definition bad_part :: "string \<Rightarrow> bool" where
  "bad_part p = (p \<in> {[], ''.'', ''..''} \<or> 120 < length p \<or> list_ex (\<lambda>c. (of_char c :: nat) < 32) p)"

definition validate_archive_path :: "string \<Rightarrow> exn + string" where
  "validate_archive_path path =
     (if path = [] \<or> starts_with ''/'' path \<or> char_of (92 :: nat) \<in> set path \<or> char_of (0 :: nat) \<in> set path \<or> CHR '':'' \<in> set path
      then Inl (UnsafeArchivePath (take 60 path))
      else if list_ex bad_part (split_on (CHR ''/'') path) then Inl (UnsafeArchivePath (take 60 path))
      else Inr path)"

section \<open>What a slug can hold\<close>

lemma char_code: "c = d \<longleftrightarrow> (of_char c :: nat) = of_char d"
  by simp

lemma slug_edge_code: "slug_edge c \<longleftrightarrow> (of_char c :: nat) \<in> {45, 46, 95}"
  by (simp add: slug_edge_def char_code [of c "CHR ''-''"] char_code [of c "CHR ''.''"] char_code [of c "CHR ''_''"] del: of_char_eq_iff)

lemma slug_char_code: "slug_char c \<longleftrightarrow> (let n = (of_char c :: nat) in between 48 57 n \<or> between 97 122 n \<or> n \<in> {45, 46, 95})"
proof -
  have "slug_char c \<longleftrightarrow> is_digit c \<or> is_lower_az c \<or> slug_edge c" by (auto simp: slug_char_def slug_edge_def)
  then show ?thesis by (simp add: slug_edge_code is_digit_def is_lower_az_def between_def Let_def)
qed

lemma slug_edge_char: "slug_edge c \<Longrightarrow> slug_char c"
  by (auto simp: slug_edge_def slug_char_def)

lemma dash_runs_chars: "c \<in> set (dash_runs i s) \<Longrightarrow> slug_char c"
  by (induction i s rule: dash_runs.induct) (auto split: if_splits simp: slug_char_def)

lemma strip_edges_subset: "set (strip_edges s) \<subseteq> set s"
  by (auto simp: strip_edges_def dest!: set_dropWhileD)

lemma length_strip_edges: "length (strip_edges s) \<le> length s"
  by (metis (no_types) length_dropWhile_le length_rev order_trans strip_edges_def)

lemma hd_drop_trailing: "rev (dropWhile P (rev t)) \<noteq> [] \<Longrightarrow> hd (rev (dropWhile P (rev t))) = hd t"
proof -
  have "t = rev (dropWhile P (rev t)) @ rev (takeWhile P (rev t))"
    by (metis rev_append rev_rev_ident takeWhile_dropWhile_id)
  then show "rev (dropWhile P (rev t)) \<noteq> [] \<Longrightarrow> hd (rev (dropWhile P (rev t))) = hd t" by (metis hd_append2)
qed

lemma strip_edges_hd: "strip_edges s \<noteq> [] \<Longrightarrow> \<not> slug_edge (hd (strip_edges s))"
proof -
  assume ne: "strip_edges s \<noteq> []"
  then have "dropWhile slug_edge s \<noteq> []" by (metis dropWhile.simps(1) rev.simps(1) strip_edges_def)
  then show ?thesis using ne unfolding strip_edges_def by (metis hd_drop_trailing hd_dropWhile)
qed

lemma strip_edges_last: "strip_edges s \<noteq> [] \<Longrightarrow> \<not> slug_edge (last (strip_edges s))"
  by (simp add: strip_edges_def last_rev hd_dropWhile)

text \<open>\<open>plain_name s\<close>: a name that is safe as one component of a path on every common file system.\<close>

definition plain_name :: "string \<Rightarrow> bool" where
  "plain_name s \<longleftrightarrow> s \<noteq> [] \<and> (\<forall>c \<in> set s. slug_char c) \<and> \<not> slug_edge (hd s) \<and> \<not> slug_edge (last s) \<and>
     s \<notin> set WINDOWS_RESERVED"

lemma slug_plain:
  assumes "plain_name fallback"
  shows "plain_name (slug title n fallback) \<and> length (slug title n fallback) \<le> max n (length fallback)"
proof -
  let ?inner = "strip_edges (dash_runs False (lower (concat (map ascii_fold title))))"
  let ?c = "strip_edges (take n ?inner)"
  show ?thesis
  proof (cases "?c = [] \<or> ?c \<in> set WINDOWS_RESERVED")
    case True
    then show ?thesis using assms by (simp add: slug_def Let_def)
  next
    case False
    have "set ?c \<subseteq> set (dash_runs False (lower (concat (map ascii_fold title))))"
      using strip_edges_subset set_take_subset by (metis subset_trans)
    then have "\<forall>c \<in> set ?c. slug_char c" using dash_runs_chars by blast
    moreover have "length ?c \<le> n" using length_strip_edges [of "take n ?inner"] by simp
    ultimately show ?thesis using False
      by (simp add: slug_def Let_def plain_name_def strip_edges_hd strip_edges_last)
  qed
qed


lemma plain_default: "plain_name ''conversation''"
  by (simp add: plain_name_def slug_char_def slug_edge_def is_lower_az_def WINDOWS_RESERVED_def upt_rec dec_of_nat.simps)

lemma title_slug_plain: "plain_name (title_slug title) \<and> length (title_slug title) \<le> 40"
  using slug_plain [OF plain_default, of title SLUG_MAX] by (simp add: title_slug_def SLUG_MAX_def)

section \<open>Short ids\<close>

lemma take_nibbles: "k \<le> n \<Longrightarrow> take k (nibbles n x) = nibbles k (x div 16 ^ (n - k))"
proof (induction n arbitrary: x)
  case (Suc n)
  then show ?case
    by (cases "k = Suc n") (simp_all add: Suc_diff_le div_mult2_eq)
qed simp

lemma short_id_nibbles: "short_id u = map hex_digit (nibbles 8 (unat u div 2 ^ 96))"
proof -
  have "take 8 (nibbles 32 (unat u)) = nibbles 8 (unat u div 16 ^ 24)" by (simp add: take_nibbles)
  moreover have "(16 :: nat) ^ 24 = 2 ^ 96" by simp
  ultimately show ?thesis by (simp only: short_id_def filter_uuid_str uuid_hex_def take_map)
qed

lemma length_short_id [simp]: "length (short_id u) = 8"
  by (simp add: short_id_nibbles)

lemma hex_digit_slug: "n < 16 \<Longrightarrow> slug_char (hex_digit n) \<and> \<not> slug_edge (hex_digit n)"
  by (cases "n < 10") (auto simp: hex_digit_def slug_char_code slug_edge_code between_def Let_def)

lemma short_id_chars: "c \<in> set (short_id u) \<Longrightarrow> slug_char c \<and> \<not> slug_edge c"
  by (auto simp: short_id_nibbles hex_digit_slug dest!: nibbles_bound)

lemma reserved_no_dash: "CHR ''-'' \<in> set s \<Longrightarrow> s \<notin> set WINDOWS_RESERVED"
proof
  have "\<forall>s \<in> set WINDOWS_RESERVED. CHR ''-'' \<notin> set s" by code_simp
  then show "CHR ''-'' \<in> set s \<Longrightarrow> s \<in> set WINDOWS_RESERVED \<Longrightarrow> False" by blast
qed

text \<open>A plain name that is not too long is a good component.\<close>

lemma plain_good_part:
  assumes "plain_name s" and "length s \<le> 120"
  shows "\<not> bad_part s" and "CHR ''/'' \<notin> set s" and "char_of (92 :: nat) \<notin> set s" and "char_of (0 :: nat) \<notin> set s"
    and "CHR '':'' \<notin> set s"
proof -
  have code: "of_char c \<notin> {0, 47, 58, 92 :: nat} \<and> 32 \<le> (of_char c :: nat)" if "c \<in> set s" for c
    using assms(1) that by (auto simp: plain_name_def slug_char_code between_def Let_def)
  show "CHR ''/'' \<notin> set s" "CHR '':'' \<notin> set s" "char_of (92 :: nat) \<notin> set s" "char_of (0 :: nat) \<notin> set s"
    using code [of "CHR ''/''"] code [of "CHR '':''"] code [of "char_of (92 :: nat)"] code [of "char_of (0 :: nat)"] by auto
  have "s \<noteq> ''.'' \<and> s \<noteq> ''..''" using assms(1) by (auto simp: plain_name_def slug_edge_def)
  then show "\<not> bad_part s" using assms code by (force simp: bad_part_def plain_name_def list_ex_iff)
qed

lemma valid_single:
  assumes "plain_name s" and "length s \<le> 120"
  shows "validate_archive_path s = Inr s"
proof -
  note good = plain_good_part [OF assms]
  have "s \<noteq> []" using assms(1) by (simp add: plain_name_def)
  moreover have "\<not> starts_with ''/'' s" using good(2) by (cases s) (auto simp: starts_with_def)
  ultimately show ?thesis using good by (simp add: validate_archive_path_def split_no_sep)
qed

lemma conversation_dir_name: "plain_name (conversation_dir title cid) \<and> length (conversation_dir title cid) \<le> 49"
proof -
  have id: "short_id cid \<noteq> []" "\<not> slug_edge (last (short_id cid))"
    by (metis length_short_id list.size(3) zero_neq_numeral)
      (metis last_in_set length_short_id list.size(3) short_id_chars zero_neq_numeral)
  have "title_slug title \<noteq> []" using title_slug_plain by (simp add: plain_name_def)
  moreover have "slug_char (CHR ''-'')" by (simp add: slug_char_def)
  ultimately show ?thesis using title_slug_plain [of title] id short_id_chars
    by (auto simp: conversation_dir_def plain_name_def reserved_no_dash)
qed

text \<open>
  A title never shapes a path. Whatever the title and the id are, the directory of a conversation is one harmless path
  component: lower-case letters, digits, dots, dashes and underscores only, starting and ending with a letter or digit,
  no device name, at most 49 characters, and accepted as it is by the check of archive members.
\<close>

theorem conversation_dir_plain:
  "plain_name (conversation_dir title cid) \<and> length (conversation_dir title cid) \<le> 49 \<and>
   validate_archive_path (conversation_dir title cid) = Inr (conversation_dir title cid)"
  using conversation_dir_name [of title cid] valid_single [of "conversation_dir title cid"] by simp

text \<open>
  The embedded id is its first 32 bits, which for a UUIDv7 is the creation time without its last 16 bits: two conversations
  with one title that are created within the same 65.536 seconds get the same name.
\<close>

lemma same_minute_same_dir:
  assumes "uuid_ms u div 2 ^ 16 = uuid_ms v div 2 ^ 16"
  shows "conversation_dir title u = conversation_dir title v"
proof -
  have "unat w div 2 ^ 96 = uuid_ms w div 2 ^ 16" for w :: uuid
    by (simp add: uuid_ms_def div_mult2_eq [symmetric])
  then show ?thesis using assms by (simp add: conversation_dir_def short_id_nibbles)
qed

end
