(* ===== verification/Export_Markdown.thy ===== *)
theory Export_Markdown
  imports Export_Collect Export_Names
begin

text \<open>
  \<open>app/exports/render_markdown.py\<close>: the Markdown of an exported conversation. Two characters of the code are written by
  their code points: the middle dot U+00B7 and the backtick U+0060.
\<close>

section \<open>Inline text\<close>

definition md_special :: "char \<Rightarrow> bool" where
  "md_special c = (c \<in> set [char_of (92 :: nat), CHR 0x60, CHR ''*'', CHR ''_'', CHR ''{'', CHR ''}'', CHR ''['', CHR '']'',
     CHR ''<'', CHR ''>'', CHR ''#'', CHR ''|''])"

definition md_escape :: "string \<Rightarrow> string" where
  "md_escape s = concat (map (\<lambda>c. if md_special c then [char_of (92 :: nat), c] else [c]) s)"

definition md_inline :: "string \<Rightarrow> nat \<Rightarrow> string" where
  "md_inline text limit = take limit (md_escape (squeeze text))"

definition MD_LIMIT :: nat where "MD_LIMIT = 160"

definition fmt_time :: "int option \<Rightarrow> string" where
  "fmt_time value = (case value of
     None \<Rightarrow> []
   | Some t \<Rightarrow> (let (y, m, d) = civil (t div 86400000000); us = t mod 86400000000 in
       padded 4 y @ ''-'' @ padded 2 m @ ''-'' @ padded 2 d @ '' '' @
       padded 2 (us div 3600000000) @ '':'' @ padded 2 (us div 60000000 mod 60) @ '' UTC''))"

section \<open>Animations\<close>

record asset_links =
  video_link :: "artifact \<Rightarrow> string option"
  thumbnail_link :: "artifact \<Rightarrow> string option"

definition no_links :: asset_links where
  "no_links = \<lparr>video_link = (\<lambda>_. None), thumbnail_link = (\<lambda>_. None)\<rparr>"

definition tick :: string where "tick = [CHR 0x60]"

definition nonempty :: "string option \<Rightarrow> string option" where
  "nonempty x = (if x = Some [] then None else x)"

definition manim_reference :: "string \<Rightarrow> artifact option \<Rightarrow> asset_links \<Rightarrow> string" where
  "manim_reference title art links =
     (let label = md_inline (if title = [] then ''Animation'' else title) MD_LIMIT;
          first = ''> **Animation: '' @ label @ ''**'';
          missing = (\<lambda>state. first @ [CHR 10] @ ''> This animation '' @ state @ ''; no video is available for it.'')
      in case art of
        None \<Rightarrow> missing ''was not rendered''
      | Some a \<Rightarrow>
          if ar_status a \<noteq> ''ready'' then missing (''is '' @ ar_status a)
          else join [CHR 10] ([first] @
            (case nonempty (thumbnail_link links a) of None \<Rightarrow> []
             | Some t \<Rightarrow> [''> ![Preview of '' @ label @ ''](''  @ t @ '')'']) @
            (case nonempty (video_link links a) of
               Some v \<Rightarrow> [''> Video: ['' @ label @ ''.mp4](''  @ v @ '') (artifact '' @ tick @ uuid_str (ar_id a) @ tick @ '')'']
             | None \<Rightarrow> [''> The video is not included in this export (artifact '' @ tick @ uuid_str (ar_id a) @ tick @
                 ''); open it in Granthan to play or download it.''])))"

text \<open>The title of the specification when it is text, else the one of the artifact.\<close>

definition reference_for :: "(string \<Rightarrow> json option) \<Rightarrow> export_bundle \<Rightarrow> asset_links \<Rightarrow> fenced \<Rightarrow> string" where
  "reference_for loads b links f =
     (let spec = (case manim_spec loads f of None \<Rightarrow> [] | Some kvs \<Rightarrow> kvs);
          art = artifact_for_spec b spec;
          title = (case jget spec ''title'' of JStr t \<Rightarrow> t
                   | _ \<Rightarrow> (case art of Some a \<Rightarrow> ar_title a | None \<Rightarrow> ''Animation''))
      in manim_reference title art links)"

section \<open>Messages\<close>

text \<open>The loop over the blocks: text up to the block, the reference in its place, and on from its end.\<close>

fun replace_blocks :: "(fenced \<Rightarrow> string) \<Rightarrow> string \<Rightarrow> nat \<Rightarrow> fenced list \<Rightarrow> string" where
  "replace_blocks ref content cursor [] = drop cursor content"
| "replace_blocks ref content cursor (b # bs) =
     (if fb_kind b \<noteq> ''manim'' then replace_blocks ref content cursor bs
      else slice cursor (fb_start b) content @ ref b @ replace_blocks ref content (fb_end b) bs)"

definition message_body :: "(string \<Rightarrow> json option) \<Rightarrow> export_bundle \<Rightarrow> asset_links \<Rightarrow> message \<Rightarrow> string" where
  "message_body loads b links m =
     (let content = (case m_content m of None \<Rightarrow> [] | Some s \<Rightarrow> s)
      in strip_newlines (replace_blocks (reference_for loads b links) content 0 (find_blocks content)))"

text \<open>
  \<open>str.title()\<close>: a cased character is raised after an uncased one and lowered after a cased one. The sharp s becomes two
  characters; the two code points whose upper case lies beyond U+00FF are left as they are.
\<close>

definition is_upper_letter :: "char \<Rightarrow> bool" where
  "is_upper_letter c = (let n = (of_char c :: nat) in between 65 90 n \<or> (between 192 222 n \<and> n \<noteq> 215))"

definition is_lower_letter :: "char \<Rightarrow> bool" where
  "is_lower_letter c = (let n = (of_char c :: nat) in between 97 122 n \<or> n \<in> {170, 181, 186} \<or> (between 223 255 n \<and> n \<noteq> 247))"

definition title_char :: "char \<Rightarrow> string" where
  "title_char c = (let n = (of_char c :: nat) in
     if n = 223 then ''Ss''
     else if between 97 122 n \<or> (between 224 254 n \<and> n \<noteq> 247) then [char_of (n - 32)] else [c])"

fun title_case :: "bool \<Rightarrow> string \<Rightarrow> string" where
  "title_case after_cased [] = []"
| "title_case after_cased (c # s) =
     (if after_cased then [lower_char c] else title_char c) @ title_case (is_upper_letter c \<or> is_lower_letter c) s"

definition role_label :: "string option \<Rightarrow> string" where
  "role_label sender =
     (let s = (case sender of None \<Rightarrow> [] | Some t \<Rightarrow> t) in
      if lower s = ''user'' then ''User'' else if lower s = ''assistant'' then ''Assistant''
      else title_case False (if s = [] then ''Message'' else s))"

section \<open>Conversations\<close>

definition meta_lines :: "export_conversation \<Rightarrow> string option \<Rightarrow> string list" where
  "meta_lines xc parent_title =
     (let conv = xc_conv xc; code = (\<lambda>u. tick @ uuid_str u @ tick) in
      [''- **Conversation ID:** '' @ code (cv_id conv), ''- **Created:** '' @ fmt_time (Some (cv_created conv)),
       ''- **Messages:** '' @ dec_of_nat (length (xc_messages xc))] @
      (case xc_parent xc of
         Some p \<Rightarrow>
           [''- **Branched from:** '' @ code p @
              (case nonempty parent_title of None \<Rightarrow> [] | Some t \<Rightarrow> '' ('' @ md_inline t MD_LIMIT @ '')'')] @
           (case xc_branch xc of None \<Rightarrow> [] | Some b \<Rightarrow> [''- **Branch point:** after message '' @ code b])
       | None \<Rightarrow>
           (case xc_missing xc of None \<Rightarrow> []
            | Some p \<Rightarrow> [''- **Branched from:** '' @ code p @ '' (not available: deleted or inaccessible)''])))"

definition message_lines ::
  "(string \<Rightarrow> json option) \<Rightarrow> export_bundle \<Rightarrow> asset_links \<Rightarrow> message \<Rightarrow> string list" where
  "message_lines loads b links m =
     (let stamp = fmt_time (m_created m) in
      [''## '' @ role_label (m_sender m) @ (if stamp = [] then [] else '' '' @ [CHR 0xB7] @ '' '' @ stamp), [],
       message_body loads b links m, []])"

definition render_conversation_markdown ::
  "(string \<Rightarrow> json option) \<Rightarrow> export_conversation \<Rightarrow> export_bundle \<Rightarrow> asset_links \<Rightarrow> string option \<Rightarrow> string" where
  "render_conversation_markdown loads xc b links parent_title =
     (let heading = md_inline (cv_title (xc_conv xc)) 200 in
      rstrip (join [CHR 10]
        ([''# '' @ (if heading = [] then ''Untitled conversation'' else heading), []] @
         meta_lines xc parent_title @ [[], ''---'', []] @
         (if xc_messages xc = [] then [''*This conversation has no messages.*'', []] else []) @
         concat (map (message_lines loads b links) (xc_messages xc)))) @ [CHR 10])"

section \<open>What a message keeps\<close>

text \<open>The stretches of the text between the animations, and the animations, in order.\<close>

fun between_blocks :: "string \<Rightarrow> nat \<Rightarrow> fenced list \<Rightarrow> string list" where
  "between_blocks content cursor [] = [drop cursor content]"
| "between_blocks content cursor (b # bs) = slice cursor (fb_start b) content # between_blocks content (fb_end b) bs"

fun weave :: "string list \<Rightarrow> string list \<Rightarrow> string" where
  "weave (t # ts) (b # bs) = t @ b @ weave ts bs"
| "weave ts bs = concat ts"

definition animations :: "string \<Rightarrow> fenced list" where
  "animations content = filter (\<lambda>b. fb_kind b = ''manim'') (find_blocks content)"

lemma replace_blocks_weave:
  "replace_blocks ref content cursor bs =
     weave (between_blocks content cursor (filter (\<lambda>b. fb_kind b = ''manim'') bs)) (map ref (filter (\<lambda>b. fb_kind b = ''manim'') bs))"
  by (induction ref content cursor bs rule: replace_blocks.induct) auto

lemma weave_identity:
  "in_order cursor bs \<Longrightarrow> weave (between_blocks content cursor bs) (map (\<lambda>b. slice (fb_start b) (fb_end b) content) bs) = drop cursor content"
proof (induction bs arbitrary: cursor)
  case (Cons b bs)
  have "slice i j content @ drop j content = drop i content" if "i \<le> j" for i j
    using that by (metis append_take_drop_id drop_drop le_add_diff_inverse2 slice_def)
  then show ?case using Cons by simp
qed simp

lemma in_order_filter: "in_order n bs \<Longrightarrow> in_order n (filter P bs)"
proof (induction bs arbitrary: n)
  case (Cons b bs)
  then show ?case using in_order_mono [of "fb_end b" "filter P bs" n] by auto
qed simp


lemma find_blocks_located:
  "in_order 0 (find_blocks content) \<and> (\<forall>b \<in> set (find_blocks content). fb_end b \<le> length content \<and>
     block_lines b (slice (fb_start b) (fb_end b) content))"
  using scan_lines_sound [of 0 "[]" "split_on (CHR 10) content"] by (simp add: find_blocks_def join_split)

section \<open>Properties\<close>

text \<open>C26:
  An export keeps what was written. A message's text is cut into its animations, each a complete fenced block of the text
  from its opening line to the first line that closes it, and the stretches between them; put together these are the text
  again, and the exported body is the same sequence with a reference in the place of each animation, only newlines at
  the two ends removed.
\<close>

theorem message_body_keeps_text:
  fixes m :: message
  defines "content \<equiv> (case m_content m of None \<Rightarrow> [] | Some s \<Rightarrow> s)"
  defines "bs \<equiv> animations content"
  shows "weave (between_blocks content 0 bs) (map (\<lambda>f. slice (fb_start f) (fb_end f) content) bs) = content \<and>
     list_all (\<lambda>f. fb_kind f = ''manim'' \<and> block_lines f (slice (fb_start f) (fb_end f) content)) bs \<and>
     message_body loads b links m = strip_newlines (weave (between_blocks content 0 bs) (map (reference_for loads b links) bs))"
proof (intro conjI)
  show "weave (between_blocks content 0 bs) (map (\<lambda>f. slice (fb_start f) (fb_end f) content) bs) = content"
    using weave_identity [OF in_order_filter] find_blocks_located unfolding bs_def animations_def by fastforce
  show "list_all (\<lambda>f. fb_kind f = ''manim'' \<and> block_lines f (slice (fb_start f) (fb_end f) content)) bs"
    using find_blocks_located unfolding bs_def animations_def list_all_iff by auto
  show "message_body loads b links m = strip_newlines (weave (between_blocks content 0 bs) (map (reference_for loads b links) bs))"
    by (simp add: message_body_def replace_blocks_weave bs_def animations_def content_def Let_def)
qed

lemma message_without_animations:
  "m_content m = Some s \<Longrightarrow> animations s = [] \<Longrightarrow> message_body loads b links m = strip_newlines s"
  by (simp add: message_body_def replace_blocks_weave animations_def)

text \<open>Escaping is undone by dropping each backslash before a character; the cut to a length can split an escape.\<close>

fun md_unescape :: "string \<Rightarrow> string" where
  "md_unescape (c # d # s) = (if c = char_of (92 :: nat) then d # md_unescape s else c # md_unescape (d # s))"
| "md_unescape s = s"

lemma md_special_backslash: "md_special (char_of (92 :: nat))"
  by (simp add: md_special_def)

lemma md_unescape_plain: "c \<noteq> char_of (92 :: nat) \<Longrightarrow> md_unescape (c # s) = c # md_unescape s"
  by (cases s) auto

text \<open>
  Titles are neutral in Markdown: the escaped text reads back as the title with its white space squeezed, and a title that
  fits is written in full, on one line.
\<close>

theorem md_escape_reads_back:
  "md_unescape (md_escape s) = s \<and>
   (if length (md_escape (squeeze s)) \<le> n then md_unescape (md_inline s n) = squeeze s else length (md_inline s n) = n)"
proof -
  have undo: "md_unescape (md_escape t) = t" for t
  proof (induction t)
    case (Cons c t)
    show ?case
    proof (cases "md_special c")
      case False
      then have "c \<noteq> char_of (92 :: nat)" using md_special_backslash by blast
      then show ?thesis using Cons False by (simp add: md_escape_def md_unescape_plain)
    qed (use Cons in \<open>simp add: md_escape_def\<close>)
  qed (simp add: md_escape_def)
  then show ?thesis by (simp add: md_inline_def)
qed


text \<open>A title can end in a bare backslash, which then escapes the character that follows it in the line.\<close>

lemma md_inline_splits_escape:
  assumes "squeeze s = replicate 159 (CHR ''a'') @ ''#''"
  shows "md_inline s MD_LIMIT = replicate 159 (CHR ''a'') @ [char_of (92 :: nat)]"
proof -
  have "\<not> md_special (CHR ''a'')" by code_simp
  then have "concat (map (\<lambda>c. if md_special c then [char_of (92 :: nat), c] else [c]) (replicate n (CHR ''a''))) = replicate n (CHR ''a'')" for n
    by (induction n) simp_all
  then show ?thesis by (simp add: md_inline_def md_escape_def assms MD_LIMIT_def md_special_def)
qed

end
