(* ===== verification/Export_Archive.thy ===== *)
theory Export_Archive
  imports Export_Markdown
begin

text \<open>
  \<open>app/exports/archive.py\<close>: the ZIP of a conversation tree. The place of every file is planned first; then the members are
  written in order: media, one Markdown file per conversation, the manifest, the README. A member is its path and its
  bytes; the container format is not modelled here (\<open>zipfile\<close>). A file read from disk is the bytes written to it before.
\<close>

section \<open>Paths\<close>

definition in_dir :: "string \<Rightarrow> string \<Rightarrow> string" where
  "in_dir base name = base @ ''/'' @ name"

text \<open>\<open>while path in used: name += "x"\<close>.\<close>

lemma longer_paths_fewer:
  assumes "in_dir base name \<in> set used"
  shows "card {p \<in> set used. length (in_dir base (name @ ''x'')) \<le> length p} < card {p \<in> set used. length (in_dir base name) \<le> length p}"
proof (rule psubset_card_mono)
  let ?p = "in_dir base name" and ?L = "length (in_dir base (name @ ''x''))"
  have "?p \<in> {p \<in> set used. length ?p \<le> length p}" "?p \<notin> {p \<in> set used. ?L \<le> length p}"
    using assms by (simp_all add: in_dir_def)
  moreover have "{p \<in> set used. ?L \<le> length p} \<subseteq> {p \<in> set used. length ?p \<le> length p}" by (auto simp: in_dir_def)
  ultimately show "{p \<in> set used. ?L \<le> length p} \<subset> {p \<in> set used. length ?p \<le> length p}" by blast
qed simp

function fresh_path :: "string list \<Rightarrow> string \<Rightarrow> string \<Rightarrow> string" where
  "fresh_path used base name =
     (if in_dir base name \<in> set used then fresh_path used base (name @ ''x'') else in_dir base name)"
  by pat_completeness auto
termination
  by (relation "measure (\<lambda>(used, base, name). card {p \<in> set used. length (in_dir base name) \<le> length p})")
     (simp_all add: longer_paths_fewer)

declare fresh_path.simps [simp del]

section \<open>The plan\<close>

definition xc_id :: "export_conversation \<Rightarrow> uuid" where
  "xc_id xc = cv_id (xc_conv xc)"

definition by_id :: "export_conversation list \<Rightarrow> uuid \<Rightarrow> export_conversation option" where
  "by_id convs = map_of (rev (map (\<lambda>xc. (xc_id xc, xc)) convs))"

text \<open>
  \<open>place\<close> with the calls still to make as a stack of (conversation, directory): the children of a conversation go before
  everything that waits. \<open>dirs\<close> is the plan so far, in the order of placing.
\<close>

lemma by_id_dom: "by_id convs c = Some xc \<Longrightarrow> c \<in> xc_id ` set convs"
  by (auto simp: by_id_def dest!: map_of_SomeD)

function place_all ::
  "export_conversation list \<Rightarrow> (uuid \<times> string) list \<Rightarrow> (uuid \<times> string) list \<Rightarrow> (uuid \<times> string) list" where
  "place_all convs dirs [] = dirs"
| "place_all convs dirs ((cid, base) # stack) =
     (if cid \<in> fst ` set dirs then place_all convs dirs stack
      else case by_id convs cid of
        None \<Rightarrow> place_all convs dirs stack
      | Some xc \<Rightarrow>
          (let path = fresh_path (map snd dirs) base (conversation_dir (cv_title (xc_conv xc)) cid)
           in place_all convs (dirs @ [(cid, path)]) (map (\<lambda>c. (c, in_dir path ''branches'')) (xc_children xc) @ stack)))"
  by pat_completeness auto
termination
proof (relation "measures [\<lambda>(convs, dirs, stack). card (xc_id ` set convs - fst ` set dirs), \<lambda>(convs, dirs, stack). length stack]")
  show "wf (measures [\<lambda>(convs, dirs, stack). card (xc_id ` set convs - fst ` set dirs), \<lambda>(convs, dirs, stack). length stack])"
    by simp
next
  fix convs :: "export_conversation list" and dirs cid base stack xc path
  assume "cid \<notin> fst ` set dirs" "by_id convs cid = Some xc"
    "path = fresh_path (map snd dirs) base (conversation_dir (cv_title (xc_conv xc)) cid)"
  moreover have "card (xc_id ` set convs - insert cid (fst ` set dirs)) < card (xc_id ` set convs - fst ` set dirs)"
    by (rule psubset_card_mono) (use calculation by_id_dom in auto)
  ultimately show "((convs, dirs @ [(cid, path)], map (\<lambda>c. (c, in_dir path ''branches'')) (xc_children xc) @ stack),
      convs, dirs, (cid, base) # stack) \<in> measures [\<lambda>(convs, dirs, stack). card (xc_id ` set convs - fst ` set dirs),
        \<lambda>(convs, dirs, stack). length stack]"
    by simp
qed auto

definition top_dir :: string where "top_dir = ''conversations''"

definition is_top :: "export_conversation list \<Rightarrow> export_conversation \<Rightarrow> bool" where
  "is_top convs xc = (case xc_parent xc of None \<Rightarrow> True | Some p \<Rightarrow> by_id convs p = None)"

text \<open>The roots first, then whatever is left.\<close>

definition plan_dirs :: "export_conversation list \<Rightarrow> (uuid \<times> string) list" where
  "plan_dirs convs = place_all convs [] (map (\<lambda>xc. (xc_id xc, top_dir)) (filter (is_top convs) convs @ convs))"

definition plan_paths :: "export_bundle \<Rightarrow> (uuid \<times> string) list" where
  "plan_paths b = map (\<lambda>(c, d). (c, in_dir d ''conversation.md'')) (plan_dirs (xb_convs b))"

section \<open>Correctness of the plan\<close>

lemma fresh_path_new: "fresh_path used base name \<notin> set used"
  by (induction used base name rule: fresh_path.induct) (subst fresh_path.simps, simp)

lemma fresh_path_new' [simp]: "fresh_path (map snd dirs) base name \<notin> snd ` set dirs"
  using fresh_path_new [of "map snd dirs"] by simp

lemma place_all_distinct:
  "distinct (map fst dirs) \<Longrightarrow> distinct (map snd dirs) \<Longrightarrow>
   distinct (map fst (place_all convs dirs stack)) \<and> distinct (map snd (place_all convs dirs stack))"
  by (induction convs dirs stack rule: place_all.induct) (auto simp: Let_def split: option.split)

lemma place_all_keeps: "fst ` set dirs \<subseteq> fst ` set (place_all convs dirs stack)"
proof (induction convs dirs stack rule: place_all.induct)
  case (2 convs dirs cid base stack)
  then show ?case by (auto simp: Let_def split: option.split)
qed simp

lemma place_all_complete:
  "(c, base) \<in> set stack \<Longrightarrow> by_id convs c \<noteq> None \<Longrightarrow> c \<in> fst ` set (place_all convs dirs stack)"
proof (induction convs dirs stack rule: place_all.induct)
  case (2 convs dirs cid base' stack)
  show ?case
  proof (cases "cid \<in> fst ` set dirs")
    case True
    then show ?thesis using 2(1) 2(4,5) place_all_keeps [of dirs convs stack] by auto
  next
    case False
    show ?thesis
    proof (cases "by_id convs cid")
      case None
      then show ?thesis using 2(2) [OF False] 2(4,5) False by auto
    next
      case (Some xc)
      let ?path = "fresh_path (map snd dirs) base' (conversation_dir (cv_title (xc_conv xc)) cid)"
      have eq: "place_all convs dirs ((cid, base') # stack) =
          place_all convs (dirs @ [(cid, ?path)]) (map (\<lambda>c. (c, in_dir ?path ''branches'')) (xc_children xc) @ stack)"
        using False Some by (simp add: Let_def)
      show ?thesis
      proof (cases "c = cid")
        case True
        then show ?thesis unfolding eq using place_all_keeps [of "dirs @ [(cid, ?path)]"] by force
      next
        case ne: False
        then show ?thesis unfolding eq by (intro 2(3) [OF False Some HOL.refl]) (use 2(4,5) in auto)
      qed
    qed
  qed
qed simp

lemma place_all_within:
  "fst ` set dirs \<subseteq> {c. by_id convs c \<noteq> None} \<Longrightarrow> fst ` set (place_all convs dirs stack) \<subseteq> {c. by_id convs c \<noteq> None}"
  by (induction convs dirs stack rule: place_all.induct) (auto simp: Let_def split: option.split)

lemma by_id_iff: "by_id convs c \<noteq> None \<longleftrightarrow> c \<in> xc_id ` set convs"
  by (force simp: by_id_def map_of_eq_None_iff)


text \<open>Each of the placed names is a plain one, lengthened by at most one character for each path there is.\<close>

lemma fresh_path_form: "\<exists>k \<le> card {p \<in> set used. length (in_dir base name) \<le> length p}.
    fresh_path used base name = in_dir base (name @ replicate k (CHR ''x''))"
proof (induction used base name rule: fresh_path.induct)
  case (1 used base name)
  show ?case
  proof (cases "in_dir base name \<in> set used")
    case True
    obtain k where k: "k \<le> card {p \<in> set used. length (in_dir base (name @ ''x'')) \<le> length p}"
      "fresh_path used base (name @ ''x'') = in_dir base ((name @ ''x'') @ replicate k (CHR ''x''))" using 1 [OF True] by blast
    have "fresh_path used base name = in_dir base (name @ replicate (Suc k) (CHR ''x''))"
      using True k(2) by (subst fresh_path.simps) simp
    moreover have "Suc k \<le> card {p \<in> set used. length (in_dir base name) \<le> length p}"
      using longer_paths_fewer [OF True] k(1) by simp
    ultimately show ?thesis by blast
  next
    case False
    then show ?thesis by (intro exI [of _ 0]) (subst fresh_path.simps, simp)
  qed
qed

lemma split_on_join2: "split_on c (a @ c # b) = split_on c a @ split_on c b"
proof (induction a)
  case (Cons x a)
  then show ?case by (auto split: list.split)
qed simp

definition good_path :: "string \<Rightarrow> bool" where
  "good_path p \<longleftrightarrow> validate_archive_path p = Inr p"

lemma good_path_in_dir:
  assumes "good_path base" and "plain_name name" and "length name \<le> 120"
  shows "good_path (in_dir base name)"
proof -
  note good = plain_good_part [OF assms(2,3)]
  have chars: "(of_char (CHR ''/'') :: nat) = 47" by simp
  have sep: "CHR ''/'' \<noteq> char_of (92 :: nat)" "CHR ''/'' \<noteq> char_of (0 :: nat)" by code_simp+
  have b: "base \<noteq> []" "\<not> starts_with ''/'' base" "char_of (92 :: nat) \<notin> set base" "char_of (0 :: nat) \<notin> set base" "CHR '':'' \<notin> set base"
    "\<not> list_ex bad_part (split_on (CHR ''/'') base)"
    using assms(1) by (auto simp: good_path_def validate_archive_path_def split: if_splits)
  have "\<not> starts_with ''/'' (in_dir base name)" using b(1,2) by (cases base) (auto simp: starts_with_def in_dir_def)
  then show ?thesis using b good sep [symmetric]
    by (simp add: good_path_def validate_archive_path_def in_dir_def split_on_join2 split_no_sep)
qed

lemma plain_extended: "plain_name (conversation_dir t c @ replicate k (CHR ''x''))"
proof -
  have x: "slug_char (CHR ''x'')" "\<not> slug_edge (CHR ''x'')" by code_simp+
  note d = conversation_dir_name [of t c]
  then have ne: "conversation_dir t c \<noteq> []" by (simp add: plain_name_def)
  have "CHR ''-'' \<in> set (conversation_dir t c @ replicate k (CHR ''x''))" by (simp add: conversation_dir_def)
  then have "conversation_dir t c @ replicate k (CHR ''x'') \<notin> set WINDOWS_RESERVED" by (rule reserved_no_dash)
  moreover have "\<not> slug_edge (last (conversation_dir t c @ replicate k (CHR ''x'')))"
    using d x by (cases k) (auto simp: plain_name_def last_append)
  ultimately show ?thesis using d ne x by (auto simp: plain_name_def)
qed

lemma place_all_good:
  assumes "distinct (map fst dirs)" and "fst ` set dirs \<subseteq> xc_id ` set convs" and "card (xc_id ` set convs) \<le> 72"
    and "\<forall>d \<in> set dirs. good_path (snd d)" and "\<forall>d \<in> set stack. good_path (snd d)"
  shows "\<forall>d \<in> set (place_all convs dirs stack). good_path (snd d)"
  using assms
proof (induction convs dirs stack rule: place_all.induct)
  case (2 convs dirs cid base stack)
  show ?case
  proof (cases "cid \<in> fst ` set dirs \<or> by_id convs cid = None")
    case True
    then show ?thesis using 2 by (auto split: option.split)
  next
    case False
    then obtain xc where xc: "by_id convs cid = Some xc" and new: "cid \<notin> fst ` set dirs" by auto
    let ?path = "fresh_path (map snd dirs) base (conversation_dir (cv_title (xc_conv xc)) cid)"
    have "length dirs = card (fst ` set dirs)" using 2(4) by (metis distinct_card length_map set_map)
    also have "\<dots> < card (xc_id ` set convs)"
      by (rule psubset_card_mono) (use 2(5) new by_id_dom [OF xc] in auto)
    finally have few: "length dirs \<le> 71" using 2(6) by simp
    obtain k where k: "k \<le> card {p \<in> set (map snd dirs). length (in_dir base (conversation_dir (cv_title (xc_conv xc)) cid)) \<le> length p}"
      "?path = in_dir base (conversation_dir (cv_title (xc_conv xc)) cid @ replicate k (CHR ''x''))"
      using fresh_path_form by blast
    have "k \<le> card (set (map snd dirs))" using k(1) card_mono [of "set (map snd dirs)"] by (rule order_trans) auto
    then have "k \<le> 71" using card_length [of "map snd dirs"] few by simp
    then have good: "good_path ?path" unfolding k(2)
      using 2(8) conversation_dir_name [of "cv_title (xc_conv xc)" cid] by (intro good_path_in_dir plain_extended) auto
    have "plain_name ''branches''" by code_simp
    then have branches: "good_path (in_dir ?path ''branches'')" by (intro good_path_in_dir good) simp_all
    have eq: "place_all convs dirs ((cid, base) # stack) =
        place_all convs (dirs @ [(cid, ?path)]) (map (\<lambda>c. (c, in_dir ?path ''branches'')) (xc_children xc) @ stack)"
      using new xc by (simp add: Let_def)
    show ?thesis unfolding eq
      by (rule 2(3) [OF new xc HOL.refl]) (use 2(4-8) new good branches by_id_dom [OF xc] in auto)
  qed
qed simp

section \<open>Property\<close>

text \<open>C27:
  The plan of an archive gives every conversation one file and no two of them the same file, however the parent links run
  and even when names collide; and with at most 72 conversations every planned path passes the check of archive
  members.
\<close>

theorem plan_paths_spec:
  "set (map fst (plan_paths b)) = xc_id ` set (xb_convs b) \<and> distinct (map fst (plan_paths b)) \<and>
   distinct (map snd (plan_paths b)) \<and>
   (if length (xb_convs b) \<le> 72 then list_all (\<lambda>(c, p). validate_archive_path p = Inr p) (plan_paths b) else True)"
proof -
  let ?convs = "xb_convs b" and ?ids = "xc_id ` set (xb_convs b)"
  have maps: "map fst (plan_paths b) = map fst (plan_dirs ?convs)"
    "map snd (plan_paths b) = map (\<lambda>d. in_dir d ''conversation.md'') (map snd (plan_dirs ?convs))"
    by (auto simp: plan_paths_def)
  have dist: "distinct (map fst (plan_dirs ?convs))" "distinct (map snd (plan_dirs ?convs))"
    unfolding plan_dirs_def by (simp_all add: place_all_distinct)
  have inj: "inj_on (\<lambda>d. in_dir d ''conversation.md'') A" for A by (simp add: inj_on_def in_dir_def)
  have within: "fst ` set (plan_dirs ?convs) \<subseteq> ?ids"
    using place_all_within [of "[]" ?convs] unfolding plan_dirs_def by_id_iff by simp
  have all: "?ids \<subseteq> fst ` set (plan_dirs ?convs)"
  proof
    fix c assume c: "c \<in> ?ids"
    then show "c \<in> fst ` set (plan_dirs ?convs)"
      using place_all_complete [of c top_dir] c unfolding plan_dirs_def by_id_iff by auto
  qed
  have good: "list_all (\<lambda>(c, p). validate_archive_path p = Inr p) (plan_paths b)" if few: "length ?convs \<le> 72"
  proof -
    have top: "good_path top_dir" unfolding good_path_def top_dir_def by (rule valid_single) code_simp+
    have "card ?ids \<le> 72" using few card_length [of "map xc_id ?convs"] by simp
    then have "\<forall>d \<in> set (plan_dirs ?convs). good_path (snd d)"
      unfolding plan_dirs_def by (intro place_all_good) (auto simp: top)
    moreover have "good_path (in_dir d ''conversation.md'')" if "good_path d" for d
      by (rule good_path_in_dir [OF that]) code_simp+
    ultimately show ?thesis by (auto simp: plan_paths_def list_all_iff good_path_def)
  qed
  have "distinct (map snd (plan_paths b))"
    unfolding maps(2) using dist(2) by (subst distinct_map) (blast intro: inj)
  moreover have "set (map fst (plan_paths b)) = ?ids" unfolding maps(1) using within all by auto
  moreover have "distinct (map fst (plan_paths b))" unfolding maps(1) by (rule dist(1))
  ultimately show ?thesis using good by simp
qed

end
