(* ===== verification/Export_Zip.thy ===== *)
theory Export_Zip
  imports Export_Archive
begin

text \<open>
  The second half of \<open>app/exports/archive.py\<close>: building the ZIP from the plan. \<open>zip_state\<close> holds the local variables of
  \<open>build_hierarchy_zip\<close> that the loops update. Text is written in UTF-8. Parameters: \<open>shaf\<close>, the SHA-256 of a file; \<open>stamp_of\<close>,
  the ISO text of a conversation's creation time (with or without zone, depending on the store it was read from); \<open>zip\<close>,
  the container \<open>zipfile\<close> makes of the members.
\<close>

section \<open>Bytes and JSON text\<close>

definition utf8 :: "string \<Rightarrow> byte list" where
  "utf8 s = concat (map (\<lambda>c. let n = (of_char c :: nat) in
     if n < 128 then [word_of_nat n] else [word_of_nat (192 + n div 64), word_of_nat (128 + n mod 64)]) s)"

definition em_dash :: "byte list" where
  "em_dash = [0xE2, 0x80, 0x94]"

text \<open>\<open>json.dumps(value, indent=2, ensure_ascii=False)\<close>: keys in insertion order.\<close>

definition pad :: "nat \<Rightarrow> string" where
  "pad n = CHR 10 # replicate (2 * n) (CHR '' '')"

primrec dumps_indent :: "json \<Rightarrow> nat \<Rightarrow> string" where
  "dumps_indent JNull = (\<lambda>n. ''null'')"
| "dumps_indent (JBool b) = (\<lambda>n. if b then ''true'' else ''false'')"
| "dumps_indent (JInt i) = (\<lambda>n. dec_of_int i)"
| "dumps_indent (JFloat s) = (\<lambda>n. s)"
| "dumps_indent (JStr s) = (\<lambda>n. dump_str s)"
| "dumps_indent (JList xs) = (\<lambda>n. if xs = [] then ''[]''
     else ''['' @ pad (n + 1) @ join ('','' @ pad (n + 1)) (map (\<lambda>f. f (n + 1)) (map dumps_indent xs)) @ pad n @ '']'')"
| "dumps_indent (JObj kvs) = (\<lambda>n. if kvs = [] then ''{}''
     else ''{'' @ pad (n + 1) @
       join ('','' @ pad (n + 1)) (map (\<lambda>(k, f). dump_str k @ '': '' @ f (n + 1)) (map (map_prod id dumps_indent) kvs)) @ pad n @ ''}'')"

section \<open>Relative links\<close>

text \<open>\<open>posixpath.dirname\<close> and \<open>posixpath.relpath\<close>, on relative paths without dot components.\<close>

definition path_parts :: "string \<Rightarrow> string list" where
  "path_parts p = filter (\<lambda>x. x \<noteq> []) (split_on (CHR ''/'') p)"

definition dirname :: "string \<Rightarrow> string" where
  "dirname p = join ''/'' (butlast (split_on (CHR ''/'') p))"

fun common :: "string list \<Rightarrow> string list \<Rightarrow> nat" where
  "common (x # xs) (y # ys) = (if x = y then Suc (common xs ys) else 0)"
| "common xs ys = 0"

definition rel_parts :: "string list \<Rightarrow> string list \<Rightarrow> string list" where
  "rel_parts target start =
     (let i = common start target; parts = replicate (length start - i) ''..'' @ drop i target
      in if parts = [] then [''.''] else parts)"

definition relpath :: "string \<Rightarrow> string \<Rightarrow> string" where
  "relpath target start = join ''/'' (rel_parts (path_parts target) (path_parts start))"

section \<open>The archive under construction\<close>

record zip_state =
  zs_total :: nat
  zs_members :: "(string \<times> byte list) list"
  zs_omitted :: "(string \<times> string) list"
  zs_video :: "(uuid \<times> string) list"
  zs_thumb :: "(uuid \<times> string) list"

definition empty_zip :: zip_state where
  "empty_zip = \<lparr>zs_total = 0, zs_members = [], zs_omitted = [], zs_video = [], zs_thumb = []\<rparr>"

definition omit :: "uuid \<Rightarrow> string \<Rightarrow> zip_state \<Rightarrow> zip_state" where
  "omit i reason z = z\<lparr>zs_omitted := zs_omitted z @ [(uuid_str i, reason)]\<rparr>"

text \<open>\<open>add_bytes\<close> and \<open>add_file\<close>.\<close>

definition add_member :: "string \<Rightarrow> byte list \<Rightarrow> zip_state \<Rightarrow> exn + zip_state" where
  "add_member path bytes z = (case validate_archive_path path of
     Inl e \<Rightarrow> Inl e
   | Inr p \<Rightarrow> Inr (z\<lparr>zs_total := zs_total z + length bytes, zs_members := zs_members z @ [(path, bytes)]\<rparr>))"

definition referenced :: "export_bundle \<Rightarrow> artifact list" where
  "referenced b = map (\<lambda>i. the (find (\<lambda>a. ar_id a = i) (map snd (xb_artifacts b)))) (dedup [] (map (\<lambda>x. ar_id (snd x)) (xb_artifacts b)))"

definition video_path :: "uuid \<Rightarrow> string" where
  "video_path i = ''assets/videos/'' @ uuid_str i @ ''.mp4''"

definition thumbnail_path :: "uuid \<Rightarrow> string" where
  "thumbnail_path i = ''assets/thumbnails/'' @ uuid_str i @ ''.png''"

text \<open>A thumbnail is optional: any exception leaves the archive without it.\<close>

definition bundle_thumb :: "artifact \<Rightarrow> zip_state \<Rightarrow> (studio, zip_state) prog" where
  "bundle_thumb a z = (case nonempty (ar_thumb a) of
     None \<Rightarrow> ret z
   | Some key \<Rightarrow>
       attempt
         (bnd (store_get key) (\<lambda>bytes.
          bnd (lift_result (add_member (thumbnail_path (ar_id a)) bytes z)) (\<lambda>z'.
          ret (z'\<lparr>zs_thumb := (ar_id a, thumbnail_path (ar_id a)) # zs_thumb z'\<rparr>))))
         (\<lambda>_. ret z))"

definition bundle_video ::
  "(byte list \<Rightarrow> string) \<Rightarrow> nat \<Rightarrow> nat \<Rightarrow> artifact \<Rightarrow> zip_state \<Rightarrow> (studio, zip_state) prog" where
  "bundle_video shaf max_bytes max_video a z =
     (if ar_status a \<noteq> ''ready'' \<or> nonempty (ar_key a) = None then ret (omit (ar_id a) (''not_ready:'' @ ar_status a) z)
      else if max_bytes < zs_total z + (case ar_size a of None \<Rightarrow> 0 | Some n \<Rightarrow> n) then ret (omit (ar_id a) ''archive_size_limit'' z)
      else
        bnd (attempt (bnd (store_get (the (ar_key a))) (\<lambda>bs. ret (Some bs))) (\<lambda>_. ret None)) (\<lambda>got. case got of
          None \<Rightarrow> ret (omit (ar_id a) ''object_unavailable'' z)
        | Some bytes \<Rightarrow>
            if max_video < length bytes \<or> Some (shaf bytes) \<noteq> ar_sha a then ret (omit (ar_id a) ''integrity_check_failed'' z)
            else
              bnd (lift_result (add_member (video_path (ar_id a)) bytes z)) (\<lambda>z'.
              bundle_thumb a (z'\<lparr>zs_video := (ar_id a, video_path (ar_id a)) # zs_video z'\<rparr>))))"

definition links_from :: "zip_state \<Rightarrow> string \<Rightarrow> asset_links" where
  "links_from z here =
     \<lparr>video_link = (\<lambda>a. map_option (\<lambda>t. relpath t here) (map_of (zs_video z) (ar_id a))),
      thumbnail_link = (\<lambda>a. map_option (\<lambda>t. relpath t here) (map_of (zs_thumb z) (ar_id a)))\<rparr>"

definition opt_json :: "('a \<Rightarrow> string) \<Rightarrow> 'a option \<Rightarrow> json" where
  "opt_json f x = (case x of None \<Rightarrow> JNull | Some v \<Rightarrow> JStr (f v))"

definition manifest_conv :: "(conversation \<Rightarrow> string) \<Rightarrow> string \<Rightarrow> export_conversation \<Rightarrow> json" where
  "manifest_conv stamp_of path xc = JObj
     [(''conversation_id'', JStr (uuid_str (xc_id xc))), (''title'', JStr (cv_title (xc_conv xc))), (''path'', JStr path),
      (''parent_conversation_id'', opt_json uuid_str (xc_parent xc)), (''branch_message_id'', opt_json uuid_str (xc_branch xc)),
      (''created_at'', JStr (stamp_of (xc_conv xc))), (''message_count'', JInt (int (length (xc_messages xc)))),
      (''depth'', JInt (int (xc_depth xc))), (''orphaned_from'', opt_json uuid_str (xc_missing xc)),
      (''status'', JStr (conv_status_value (cv_status (xc_conv xc))))]"

definition manifest_artifact :: "zip_state \<Rightarrow> artifact \<Rightarrow> json" where
  "manifest_artifact z a = JObj
     [(''artifact_id'', JStr (uuid_str (ar_id a))), (''type'', JStr (ar_type a)), (''title'', JStr (ar_title a)),
      (''status'', JStr (ar_status a)), (''video'', opt_json id (map_of (zs_video z) (ar_id a))),
      (''thumbnail'', opt_json id (map_of (zs_thumb z) (ar_id a)))]"

definition FORMAT_VERSION :: int where "FORMAT_VERSION = 1"

definition manifest ::
  "(conversation \<Rightarrow> string) \<Rightarrow> export_bundle \<Rightarrow> (string \<times> json) list \<Rightarrow> (string \<times> string) list \<Rightarrow> zip_state \<Rightarrow> json" where
  "manifest stamp_of b options snap z = JObj
     [(''format_version'', JInt FORMAT_VERSION), (''generated_at'', JStr (iso_utc (xb_generated b))),
      (''selected_conversation_id'', JStr (uuid_str (xb_selected b))), (''root_conversation_id'', JStr (uuid_str (xb_root b))),
      (''options'', JObj options), (''snapshot'', JObj (map (map_prod id JStr) snap)),
      (''conversations'', JList (map (\<lambda>xc. manifest_conv stamp_of (the (map_of (plan_paths b) (xc_id xc))) xc) (xb_convs b))),
      (''artifacts'', JList (map (manifest_artifact z) (referenced b))),
      (''omitted_media'', JList (map (\<lambda>(i, r). JObj [(''artifact_id'', JStr i), (''reason'', JStr r)]) (zs_omitted z)))]"

text \<open>One Markdown file per conversation, each written with the links as seen from its directory.\<close>

definition write_conv ::
  "(string \<Rightarrow> json option) \<Rightarrow> export_bundle \<Rightarrow> (uuid \<times> string) list \<Rightarrow> export_conversation \<Rightarrow> zip_state \<Rightarrow> exn + zip_state" where
  "write_conv loads b paths xc z = (case map_of paths (xc_id xc) of
     None \<Rightarrow> Inl KeyError
   | Some path \<Rightarrow>
       add_member path (utf8 (render_conversation_markdown loads xc b (links_from z (dirname path))
         (case xc_parent xc of None \<Rightarrow> None | Some p \<Rightarrow> map_option (\<lambda>x. cv_title (xc_conv x)) (by_id (xb_convs b) p)))) z)"

section \<open>The README\<close>

text \<open>Its lines are UTF-8 already: the long dash U+2014 is beyond a \<open>char\<close>.\<close>

definition readme_intro :: "export_bundle \<Rightarrow> byte list list" where
  "readme_intro b =
     [utf8 ''# Granthan conversation export'', [],
      utf8 (''Generated '' @ fmt_time (Some (xb_generated b)) @ ''. This archive contains the stored messages exactly as they were '' @
        ''saved; nothing was summarised or regenerated.''), [],
      utf8 ''## Layout'', [],
      utf8 (''- '' @ tick @ ''conversations/<title>-<id>/conversation.md'' @ tick @ '' '') @ em_dash @
        utf8 '' one Markdown file per conversation.'',
      utf8 (''- '' @ tick @ ''.../branches/<title>-<id>/conversation.md'' @ tick @ '' '') @ em_dash @
        utf8 '' branches live inside their parent'' @ [39] @ utf8 ''s directory.'',
      utf8 (''- '' @ tick @ ''assets/videos/'' @ tick @ '' and '' @ tick @ ''assets/thumbnails/'' @ tick @ '' '') @ em_dash @
        utf8 '' animation media, each file stored once and shared by every message that references it.'',
      utf8 (''- '' @ tick @ ''manifest.json'' @ tick @ '' '') @ em_dash @
        utf8 '' machine-readable index (ids, parents, branch points, message counts, media).'', []]"

definition readme_conv :: "(uuid \<times> string) list \<Rightarrow> export_conversation \<Rightarrow> byte list" where
  "readme_conv paths xc =
     (let title = cv_title (xc_conv xc) in
      utf8 (replicate (2 * xc_depth xc) (CHR '' '') @ ''- ['' @ (if title = [] then ''Untitled'' else title) @ '']('' @
        the (map_of paths (xc_id xc)) @ '') '') @ em_dash @
      utf8 ('' '' @ dec_of_nat (length (xc_messages xc)) @ '' messages''))"

definition readme_orphan :: "export_conversation \<Rightarrow> byte list list" where
  "readme_orphan xc = (case xc_missing xc of None \<Rightarrow> []
   | Some p \<Rightarrow> [utf8 (''- '' @ (if cv_title (xc_conv xc) = [] then ''Untitled'' else cv_title (xc_conv xc)) @ '' (parent '' @
       tick @ uuid_str p @ tick @ '' was deleted or is inaccessible)'')])"

fun join_lines_bytes :: "byte list list \<Rightarrow> byte list" where
  "join_lines_bytes [] = []"
| "join_lines_bytes [l] = l"
| "join_lines_bytes (l # l' # ls) = l @ [10] @ join_lines_bytes (l' # ls)"

definition render_readme :: "export_bundle \<Rightarrow> bool \<Rightarrow> (string \<times> string) list \<Rightarrow> byte list" where
  "render_readme b include_media omitted =
     (let orphans = concat (map readme_orphan (xb_convs b)) in
      join_lines_bytes
        (readme_intro b @ [utf8 (''## Contents ('' @ dec_of_nat (length (xb_convs b)) @ '' conversations)''), []] @
         map (readme_conv (plan_paths b)) (xb_convs b) @
         [[], utf8 ''## Notes'', [],
          utf8 (''- Mermaid diagrams are kept as '' @ tick @ tick @ tick @ ''mermaid source blocks.''),
          utf8 (''- Animations are videos; a text document cannot play them. They are linked from the message that '' @
            (if include_media then ''contained them.''
             else ''contained them only by reference (media was not included in this export).''))] @
         (if omitted = [] then [] else [[], utf8 ''## Media that could not be included'', []] @
            map (\<lambda>(i, r). utf8 (''- artifact '' @ tick @ i @ tick @ '': '' @ r)) omitted) @
         (if orphans = [] then [] else [[], utf8 ''## Branches whose parent is unavailable'', []] @ orphans)) @ [10])"

section \<open>Building\<close>

definition options_json :: "string \<Rightarrow> string \<Rightarrow> bool \<Rightarrow> (string \<times> json) list" where
  "options_json scope format include_media =
     [(''scope'', JStr scope), (''format'', JStr format), (''include_media'', JBool include_media)]"

primrec write_convs ::
  "(string \<Rightarrow> json option) \<Rightarrow> export_bundle \<Rightarrow> (uuid \<times> string) list \<Rightarrow> export_conversation list \<Rightarrow> zip_state \<Rightarrow> exn + zip_state" where
  "write_convs loads b paths [] z = Inr z"
| "write_convs loads b paths (xc # xcs) z =
     (case write_conv loads b paths xc z of Inl e \<Rightarrow> Inl e | Inr z' \<Rightarrow> write_convs loads b paths xcs z')"

definition archive_name :: "export_bundle \<Rightarrow> string" where
  "archive_name b =
     (let xc = (case find (\<lambda>xc. xc_id xc = xb_root b) (xb_convs b) of Some xc \<Rightarrow> xc | None \<Rightarrow> hd (xb_convs b))
      in ''granthan-export-'' @ title_slug (cv_title (xc_conv xc)) @ ''-'' @ short_id (xb_root b))"

text \<open>An export without conversations has no first one to name the archive after.\<close>

definition build_hierarchy_zip ::
  "(string \<Rightarrow> json option) \<Rightarrow> (byte list \<Rightarrow> string) \<Rightarrow> (conversation \<Rightarrow> string) \<Rightarrow> export_bundle \<Rightarrow> bool \<Rightarrow> nat
   \<Rightarrow> (string \<times> json) list \<Rightarrow> (string \<times> string) list \<Rightarrow> nat \<Rightarrow> (studio, string \<times> zip_state) prog" where
  "build_hierarchy_zip loads shaf stamp_of b include_media max_bytes options snap max_video =
     (if xb_convs b = [] then raise (LookupError ''list index out of range'')
      else
        bnd (if include_media then fold_prog (bundle_video shaf max_bytes max_video) (referenced b) empty_zip else ret empty_zip) (\<lambda>z.
        bnd (lift_result (write_convs loads b (plan_paths b) (xb_convs b) z)) (\<lambda>z1.
        bnd (lift_result (add_member ''manifest.json'' (utf8 (dumps_indent (manifest stamp_of b options snap z1) 0)) z1)) (\<lambda>z2.
        bnd (lift_result (add_member ''README.md'' (render_readme b (truthy (jget options ''include_media'')) (zs_omitted z2)) z2)) (\<lambda>z3.
        ret (archive_name b @ ''.zip'', z3))))))"

section \<open>Links lead back to the files\<close>

text \<open>The directory reached from \<open>here\<close> along the parts of a relative link.\<close>

fun follow :: "string list \<Rightarrow> string list \<Rightarrow> string list" where
  "follow here [] = here"
| "follow here (p # ps) =
     (if p = ''..'' then follow (butlast here) ps else if p = ''.'' then follow here ps else follow (here @ [p]) ps)"

lemma follow_append: "follow here (ps @ qs) = follow (follow here ps) qs"
  by (induction here ps rule: follow.induct) auto

lemma follow_up: "follow here (replicate n ''..'') = take (length here - n) here"
proof (induction n arbitrary: here)
  case (Suc n)
  then show ?case by (simp add: butlast_conv_take min_def)
qed simp

lemma follow_down: "\<forall>p \<in> set ps. p \<noteq> ''..'' \<and> p \<noteq> ''.'' \<Longrightarrow> follow here ps = here @ ps"
  by (induction here ps rule: follow.induct) auto

lemma common_take: "take (common xs ys) xs = take (common xs ys) ys"
  by (induction xs ys rule: common.induct) auto

lemma common_le: "common xs ys \<le> length xs"
  by (induction xs ys rule: common.induct) auto

lemma follow_rel_parts:
  assumes "\<forall>p \<in> set target. p \<noteq> ''..'' \<and> p \<noteq> ''.''"
  shows "follow start (rel_parts target start) = target"
proof -
  let ?i = "common start target"
  have down: "follow (take ?i start) (drop ?i target) = target"
    using assms common_take [of start target] by (subst follow_down) (auto dest: in_set_dropD)
  have up: "follow start (replicate (length start - ?i) ''..'' @ drop ?i target) = target"
    using down common_le [of start target] by (simp add: follow_append follow_up)
  show ?thesis
  proof (cases "replicate (length start - ?i) ''..'' @ drop ?i target = []")
    case True
    then show ?thesis using up unfolding rel_parts_def Let_def if_P [OF True] True by simp
  next
    case False
    then show ?thesis using up unfolding rel_parts_def Let_def if_not_P [OF False] by simp
  qed
qed

lemma split_join:
  "ps \<noteq> [] \<Longrightarrow> \<forall>p \<in> set ps. c \<notin> set p \<Longrightarrow> split_on c (join [c] ps) = ps"
proof (induction ps)
  case (Cons p ps)
  then show ?case by (cases ps) (simp_all add: split_no_sep split_on_join2)
qed simp

lemma path_parts_chars: "p \<in> set (path_parts s) \<Longrightarrow> p \<noteq> [] \<and> CHR ''/'' \<notin> set p"
  by (auto simp: path_parts_def dest: split_on_no_sep)

text \<open>
  Links inside an archive reach their file: from the directory of any conversation, the relative link written for a file
  with an accepted path leads exactly to that path.
\<close>

theorem links_reach_target:
  assumes "validate_archive_path target = Inr target"
  shows "follow (path_parts start) (path_parts (relpath target start)) = path_parts target"
proof -
  let ?t = "path_parts target" and ?s = "path_parts start"
  let ?r = "rel_parts ?t ?s"
  have plain: "\<forall>p \<in> set ?t. p \<noteq> ''..'' \<and> p \<noteq> ''.''"
    using assms by (auto simp: path_parts_def validate_archive_path_def list_ex_iff bad_part_def split: if_splits)
  have "\<forall>p \<in> set ?r. p \<noteq> [] \<and> CHR ''/'' \<notin> set p"
    using path_parts_chars [of _ target] by (auto simp: rel_parts_def Let_def dest: in_set_dropD)
  moreover have "?r \<noteq> []" by (auto simp: rel_parts_def Let_def)
  ultimately have "path_parts (relpath target start) = ?r"
    unfolding relpath_def path_parts_def [of "join _ _"] by (subst split_join) (auto simp: filter_id_conv)
  then show ?thesis using follow_rel_parts [OF plain] by simp
qed

theorem links_reach_target_witness:
  "follow (path_parts ''conversations/a-1'') (path_parts (relpath ''assets/videos/v.mp4'' ''conversations/a-1'')) =
     path_parts ''assets/videos/v.mp4''"
  by (rule links_reach_target) code_simp

section \<open>Media\<close>

text \<open>A loop in which each turn deals with its element for good.\<close>

lemma wp_fold_each:
  assumes "\<And>x b s. x \<in> set xs \<Longrightarrow> J b \<Longrightarrow> wp (f x b) (\<lambda>b' _. J b' \<and> P x b' \<and> (\<forall>y. P y b \<longrightarrow> P y b')) (\<lambda>_ _. True) s" and "J b"
  shows "wp (fold_prog f xs b) (\<lambda>b' _. J b' \<and> (\<forall>x \<in> set xs. P x b') \<and> (\<forall>y. P y b \<longrightarrow> P y b')) (\<lambda>_ _. True) s"
  using assms
proof (induction xs arbitrary: b s)
  case (Cons y ys b t)
  have one: "wp (f y b) (\<lambda>b' _. J b' \<and> P y b' \<and> (\<forall>z. P z b \<longrightarrow> P z b')) (\<lambda>_ _. True) t" using Cons.prems by simp
  have rest: "wp (fold_prog f ys b') (\<lambda>b2 _. J b2 \<and> (\<forall>x \<in> set ys. P x b2) \<and> (\<forall>z. P z b' \<longrightarrow> P z b2)) (\<lambda>_ _. True) t'"
    if "J b'" for b' t' by (rule Cons.IH [OF _ that]) (rule Cons.prems(1), simp)
  show ?case unfolding fold_prog.simps wp_bnd
    by (rule wp_mono [OF one]) (auto intro: wp_mono [OF rest])
qed (simp add: wp_ret)

text \<open>A bundled video is a member, has the recorded digest and an allowed size.\<close>

definition verified_video :: "(byte list \<Rightarrow> string) \<Rightarrow> nat \<Rightarrow> artifact list \<Rightarrow> zip_state \<Rightarrow> uuid \<times> string \<Rightarrow> bool" where
  "verified_video shaf max_video arts z v \<longleftrightarrow> (\<exists>a bytes. a \<in> set arts \<and> ar_id a = fst v \<and> snd v = video_path (fst v) \<and>
     (snd v, bytes) \<in> set (zs_members z) \<and> length bytes \<le> max_video \<and> ar_sha a = Some (shaf bytes))"

definition media_ok :: "(byte list \<Rightarrow> string) \<Rightarrow> nat \<Rightarrow> artifact list \<Rightarrow> zip_state \<Rightarrow> bool" where
  "media_ok shaf max_video arts z \<longleftrightarrow>
     list_all (verified_video shaf max_video arts z) (zs_video z) \<and>
     list_all (\<lambda>(p, bs). validate_archive_path p = Inr p) (zs_members z) \<and>
     zs_total z = sum_list (map (\<lambda>(p, bs). length bs) (zs_members z))"

definition accounted :: "artifact \<Rightarrow> zip_state \<Rightarrow> bool" where
  "accounted a z \<longleftrightarrow> ar_id a \<in> fst ` set (zs_video z) \<or> uuid_str (ar_id a) \<in> fst ` set (zs_omitted z)"

lemma verified_video_mono:
  "verified_video shaf n arts z v \<Longrightarrow> set (zs_members z) \<subseteq> set (zs_members z') \<Longrightarrow> verified_video shaf n arts z' v"
  unfolding verified_video_def by blast

lemma add_member_keeps:
  assumes "media_ok shaf n arts z" and "add_member p bs z = Inr z'"
  shows "media_ok shaf n arts z'" and "(p, bs) \<in> set (zs_members z')" and "set (zs_members z) \<subseteq> set (zs_members z')"
    and "zs_video z' = zs_video z" and "zs_omitted z' = zs_omitted z"
proof -
  have v: "validate_archive_path p = Inr p" and z': "z' = z\<lparr>zs_total := zs_total z + length bs, zs_members := zs_members z @ [(p, bs)]\<rparr>"
    using assms(2) by (auto simp: add_member_def validate_archive_path_def split: sum.splits if_splits)
  show "(p, bs) \<in> set (zs_members z')" "set (zs_members z) \<subseteq> set (zs_members z')" "zs_video z' = zs_video z" "zs_omitted z' = zs_omitted z"
    by (auto simp: z')
  have "set (zs_members z) \<subseteq> set (zs_members z')" by (auto simp: z')
  then have "list_all (verified_video shaf n arts z') (zs_video z)"
    using assms(1) verified_video_mono by (fastforce simp: media_ok_def list_all_iff)
  then show "media_ok shaf n arts z'" using assms(1) v by (simp add: media_ok_def z')
qed

lemma media_ok_omit: "media_ok shaf n arts z \<Longrightarrow> media_ok shaf n arts (omit i r z) \<and> zs_video (omit i r z) = zs_video z \<and>
    zs_omitted (omit i r z) = zs_omitted z @ [(uuid_str i, r)]"
proof -
  assume ok: "media_ok shaf n arts z"
  have "list_all (verified_video shaf n arts (omit i r z)) (zs_video z)"
    using ok verified_video_mono [of shaf n arts z _ "omit i r z"] by (auto simp: media_ok_def list_all_iff omit_def)
  then show ?thesis using ok by (simp add: media_ok_def omit_def)
qed

lemma media_ok_update:
  assumes "media_ok shaf n arts z"
  shows "media_ok shaf n arts (z\<lparr>zs_thumb := t\<rparr>)"
    and "verified_video shaf n arts z v \<Longrightarrow> media_ok shaf n arts (z\<lparr>zs_video := v # zs_video z\<rparr>)"
  using assms verified_video_mono [of shaf n arts z _ "z\<lparr>zs_thumb := t\<rparr>"]
    verified_video_mono [of shaf n arts z _ "z\<lparr>zs_video := v # zs_video z\<rparr>"]
  by (auto simp: media_ok_def list_all_iff)

text \<open>\<open>dealt a z z'\<close>: the archive is sound, \<open>a\<close> is in it or on the list of omissions, and so is whatever was before.\<close>

definition dealt :: "(byte list \<Rightarrow> string) \<Rightarrow> nat \<Rightarrow> artifact list \<Rightarrow> artifact \<Rightarrow> zip_state \<Rightarrow> zip_state \<Rightarrow> bool" where
  "dealt shaf n arts a z z' \<longleftrightarrow> media_ok shaf n arts z' \<and> accounted a z' \<and> (\<forall>y. accounted y z \<longrightarrow> accounted y z')"

lemma dealt_omit: "media_ok shaf n arts z \<Longrightarrow> dealt shaf n arts a z (omit (ar_id a) r z)"
  using media_ok_omit [of shaf n arts z "ar_id a" r] by (simp add: dealt_def accounted_def)

lemma wp_bundle_thumb:
  assumes "media_ok shaf n arts z"
  shows "wp (bundle_thumb a z) (\<lambda>z' _. media_ok shaf n arts z' \<and> zs_video z' = zs_video z \<and> zs_omitted z' = zs_omitted z) (\<lambda>_ _. False) s"
proof (cases "nonempty (ar_thumb a)")
  case (Some key)
  have keep: "media_ok shaf n arts (z'\<lparr>zs_thumb := t\<rparr>) \<and> zs_video z' = zs_video z \<and> zs_omitted z' = zs_omitted z"
    if "add_member p bs z = Inr z'" for p bs z' t
    using add_member_keeps [OF assms that] media_ok_update(1) by blast
  show ?thesis unfolding bundle_thumb_def Some option.case wp_attempt wp_bnd wp_ret wp_lift_result
    by (rule wp_mono [OF wp_True]) (auto simp: assms keep split: sum.split)
qed (simp add: bundle_thumb_def wp_ret assms)

lemma wp_bundle_video:
  assumes "media_ok shaf n arts z" and "a \<in> set arts"
  shows "wp (bundle_video shaf maxb n a z) (\<lambda>z' _. dealt shaf n arts a z z') (\<lambda>_ _. True) s"
proof -
  let ?p = "video_path (ar_id a)"
  have put: "wp (bnd (lift_result (add_member ?p bytes z)) (\<lambda>z'. bundle_thumb a (z'\<lparr>zs_video := (ar_id a, ?p) # zs_video z'\<rparr>)))
      (\<lambda>z' _. dealt shaf n arts a z z') (\<lambda>_ _. True) s'"
    if "length bytes \<le> n" "Some (shaf bytes) = ar_sha a" for bytes s'
  proof (cases "add_member ?p bytes z")
    case (Inr z1)
    note k = add_member_keeps [OF assms(1) Inr]
    let ?z2 = "z1\<lparr>zs_video := (ar_id a, ?p) # zs_video z1\<rparr>"
    have "verified_video shaf n arts z1 (ar_id a, ?p)" unfolding verified_video_def
      using k(2) assms(2) that by (intro exI [of _ a] exI [of _ bytes]) simp
    then have ok: "media_ok shaf n arts ?z2" by (rule media_ok_update(2) [OF k(1)])
    show ?thesis unfolding Inr wp_bnd wp_lift_result sum.case
      by (rule wp_mono [OF wp_bundle_thumb [OF ok]]) (auto simp: dealt_def accounted_def k)
  qed (simp add: wp_bnd wp_lift_result)
  note omitted = wp_ret dealt_omit [OF assms(1)] if_True if_False
  let ?fetch = "attempt (bnd (store_get (the (ar_key a))) (\<lambda>bs. ret (Some bs))) (\<lambda>_. ret None)"
  have fetched: "wp (case got of None \<Rightarrow> ret (omit (ar_id a) ''object_unavailable'' z)
        | Some bytes \<Rightarrow>
            if n < length bytes \<or> Some (shaf bytes) \<noteq> ar_sha a then ret (omit (ar_id a) ''integrity_check_failed'' z)
            else bnd (lift_result (add_member ?p bytes z)) (\<lambda>z'. bundle_thumb a (z'\<lparr>zs_video := (ar_id a, ?p) # zs_video z'\<rparr>)))
      (\<lambda>z' _. dealt shaf n arts a z z') (\<lambda>_ _. True) s'" for got s'
  proof (cases got)
    case (Some bytes)
    show ?thesis unfolding Some option.case
    proof (cases "n < length bytes \<or> Some (shaf bytes) \<noteq> ar_sha a")
      case bad: False
      show "wp (if n < length bytes \<or> Some (shaf bytes) \<noteq> ar_sha a then ret (omit (ar_id a) ''integrity_check_failed'' z)
            else bnd (lift_result (add_member ?p bytes z)) (\<lambda>z'. bundle_thumb a (z'\<lparr>zs_video := (ar_id a, ?p) # zs_video z'\<rparr>)))
          (\<lambda>z' _. dealt shaf n arts a z z') (\<lambda>_ _. True) s'"
        unfolding if_not_P [OF bad] by (rule put) (use bad in auto)
    qed (simp only: omitted)
  qed (simp add: omitted)
  show ?thesis
  proof (cases "ar_status a \<noteq> ''ready'' \<or> nonempty (ar_key a) = None")
    case False
    show ?thesis unfolding bundle_video_def if_not_P [OF False]
    proof (cases "maxb < zs_total z + (case ar_size a of None \<Rightarrow> 0 | Some n \<Rightarrow> n)")
      case fits: False
      have "wp (bnd ?fetch f) (\<lambda>z' _. dealt shaf n arts a z z') (\<lambda>_ _. True) s"
        if "\<And>got s'. wp (f got) (\<lambda>z' _. dealt shaf n arts a z z') (\<lambda>_ _. True) s'" for f
        unfolding wp_bnd [of ?fetch] by (rule wp_mono [OF wp_True]) (simp_all add: that)
      then show "wp (if maxb < zs_total z + (case ar_size a of None \<Rightarrow> 0 | Some n \<Rightarrow> n)
          then ret (omit (ar_id a) ''archive_size_limit'' z) else bnd ?fetch (\<lambda>got. case got of
            None \<Rightarrow> ret (omit (ar_id a) ''object_unavailable'' z)
          | Some bytes \<Rightarrow>
              if n < length bytes \<or> Some (shaf bytes) \<noteq> ar_sha a then ret (omit (ar_id a) ''integrity_check_failed'' z)
              else bnd (lift_result (add_member ?p bytes z)) (\<lambda>z'. bundle_thumb a (z'\<lparr>zs_video := (ar_id a, ?p) # zs_video z'\<rparr>))))
          (\<lambda>z' _. dealt shaf n arts a z z') (\<lambda>_ _. True) s"
        unfolding if_not_P [OF fits] using fetched by blast
    qed (simp only: omitted)
  qed (simp only: bundle_video_def omitted)
qed

lemma write_convs_keeps:
  assumes "media_ok shaf n arts z" and "write_convs loads b paths xcs z = Inr z'"
  shows "media_ok shaf n arts z' \<and> zs_video z' = zs_video z \<and> zs_omitted z' = zs_omitted z \<and>
    set (zs_members z) \<subseteq> set (zs_members z') \<and>
    (\<forall>xc \<in> set xcs. \<exists>path bytes. map_of paths (xc_id xc) = Some path \<and> (path, bytes) \<in> set (zs_members z'))"
  using assms
proof (induction xcs arbitrary: z)
  case (Cons xc xcs)
  then obtain z1 path bytes where z1: "map_of paths (xc_id xc) = Some path" "add_member path bytes z = Inr z1"
    "write_convs loads b paths xcs z1 = Inr z'"
    by (auto simp: write_conv_def split: sum.splits option.splits)
  note k = add_member_keeps [OF Cons.prems(1) z1(2)]
  show ?case using Cons.IH [OF k(1) z1(3)] k z1(1) by fastforce
qed simp

text \<open>C28:
  Building the archive of a tree, on any failing calls of the store: every member has an accepted path; every bundled
  video is a member with the recorded digest and at most the allowed size; with media asked for, each animation the
  messages refer to is bundled or listed as omitted with a reason; and every conversation has its Markdown file.
\<close>

theorem archive_media_verified:
  "wp (build_hierarchy_zip loads shaf stamp_of b include_media max_bytes options snap max_video)
     (\<lambda>(name, z) _. media_ok shaf max_video (referenced b) z \<and>
        (if include_media then list_all (\<lambda>a. accounted a z) (referenced b) else zs_video z = []) \<and>
        list_all (\<lambda>xc. \<exists>path bytes. map_of (plan_paths b) (xc_id xc) = Some path \<and> (path, bytes) \<in> set (zs_members z)) (xb_convs b))
     (\<lambda>_ _. True) s"
proof (cases "xb_convs b = []")
  case False
  let ?arts = "referenced b" and ?files = "\<lambda>z. list_all (\<lambda>xc. \<exists>path bytes. map_of (plan_paths b) (xc_id xc) = Some path \<and>
      (path, bytes) \<in> set (zs_members z)) (xb_convs b)"
  let ?media = "\<lambda>z. media_ok shaf max_video ?arts z \<and> (if include_media then list_all (\<lambda>a. accounted a z) ?arts else zs_video z = [])"
  have empty: "media_ok shaf max_video ?arts empty_zip" by (simp add: media_ok_def empty_zip_def)
  have loop: "wp (fold_prog (bundle_video shaf max_bytes max_video) ?arts empty_zip)
      (\<lambda>z _. media_ok shaf max_video ?arts z \<and> (\<forall>a \<in> set ?arts. accounted a z) \<and> (\<forall>y. accounted y empty_zip \<longrightarrow> accounted y z)) (\<lambda>_ _. True) s" for s
    by (rule wp_fold_each) (auto intro!: wp_mono [OF wp_bundle_video] simp: dealt_def empty)
  have first: "wp (if include_media then fold_prog (bundle_video shaf max_bytes max_video) ?arts empty_zip else ret empty_zip)
      (\<lambda>z _. ?media z) (\<lambda>_ _. True) s"
  proof (cases include_media)
    case True
    then show ?thesis by (simp only: if_True) (rule wp_mono [OF loop], auto simp: list_all_iff)
  next
    case False
    then show ?thesis using empty by (simp only: if_False wp_ret) (simp add: empty_zip_def)
  qed
  have same: "?media z'" if "?media z" "media_ok shaf max_video ?arts z'" "zs_video z' = zs_video z" "zs_omitted z' = zs_omitted z" for z z'
    using that by (simp add: accounted_def list_all_iff split: if_splits)
  have rest: "?media z3 \<and> ?files z3"
    if "?media z" "write_convs loads b (plan_paths b) (xb_convs b) z = Inr z1" "add_member p2 b2 z1 = Inr z2" "add_member p3 b3 z2 = Inr z3"
    for z z1 z2 z3 p2 b2 p3 b3
  proof -
    note w = write_convs_keeps [OF conjunct1 [OF that(1)] that(2)]
    note k2 = add_member_keeps [OF conjunct1 [OF w] that(3)]
    note k3 = add_member_keeps [OF k2(1) that(4)]
    have "?media z3" using that(1) by (rule same) (use w k2 k3 in simp_all)
    moreover have "?files z3" using w k2(3) k3(3) unfolding list_all_iff by blast
    ultimately show ?thesis by blast
  qed
  show ?thesis unfolding build_hierarchy_zip_def if_not_P [OF False] wp_bnd wp_lift_result wp_ret
  proof (rule wp_mono [OF first], goal_cases)
    case (1 z s')
    show ?case
    proof (cases "write_convs loads b (plan_paths b) (xb_convs b) z")
      case z1: (Inr z1)
      let ?m = "add_member ''manifest.json'' (utf8 (dumps_indent (manifest stamp_of b options snap z1) 0)) z1"
      show ?thesis
      proof (cases ?m)
        case z2: (Inr z2)
        let ?r = "add_member ''README.md'' (render_readme b (truthy (jget options ''include_media'')) (zs_omitted z2)) z2"
        show ?thesis
        proof (cases ?r)
          case (Inr z3)
          then show ?thesis using rest [OF 1 z1 z2 Inr] by (simp add: z1 z2)
        qed (simp add: z1 z2)
      qed (simp add: z1)
    qed simp
  qed simp
qed (simp add: build_hierarchy_zip_def wp_raise)

end

