(* ===== verification/Export_Pdf.thy ===== *)
theory Export_Pdf
  imports Export_Zip
begin

text \<open>
  \<open>app/exports/render_pdf.py\<close>: the HTML document of a PDF export. The document is its UTF-8 bytes. Two libraries are
  parameters: \<open>md\<close>, the Markdown renderer (\<open>markdown-it\<close>), which is given the rule for fenced blocks (from the info string
  and the content to the HTML, None for the rule of the library) and the text; and \<open>weasy\<close>, which makes the file from the
  document (Inl \<open>PdfUnavailable\<close> when the library is missing). A double quote of the code is written as a backtick in the
  literals under \<open>quoted\<close>.
\<close>

section \<open>Escaping\<close>

definition quoted :: "string \<Rightarrow> string" where
  "quoted s = map (\<lambda>c. if c = CHR 0x60 then CHR 0x22 else c) s"

text \<open>\<open>html.escape\<close>.\<close>

definition html_char :: "char \<Rightarrow> string" where
  "html_char c =
     (if c = CHR ''&'' then ''&amp;'' else if c = CHR ''<'' then ''&lt;'' else if c = CHR ''>'' then ''&gt;''
      else if c = CHR 0x22 then ''&quot;'' else if c = CHR 0x27 then ''&#x27;'' else [c])"

definition html_escape :: "string \<Rightarrow> string" where
  "html_escape s = concat (map html_char s)"

section \<open>Base 64\<close>

definition b64_digit :: "nat \<Rightarrow> char" where
  "b64_digit n = (if n < 26 then char_of (65 + n) else if n < 52 then char_of (71 + n)
     else if n < 62 then char_of (n - 4) else if n = 62 then CHR ''+'' else CHR ''/'')"

fun b64encode :: "byte list \<Rightarrow> string" where
  "b64encode [] = []"
| "b64encode [a] = (let n = unat a * 65536 in [b64_digit (n div 262144), b64_digit (n div 4096 mod 64)] @ ''=='')"
| "b64encode [a, b] = (let n = unat a * 65536 + unat b * 256 in
     [b64_digit (n div 262144), b64_digit (n div 4096 mod 64), b64_digit (n div 64 mod 64)] @ ''='')"
| "b64encode (a # b # c # rest) = (let n = unat a * 65536 + unat b * 256 + unat c in
     [b64_digit (n div 262144), b64_digit (n div 4096 mod 64), b64_digit (n div 64 mod 64), b64_digit (n mod 64)] @ b64encode rest)"

definition data_uri :: "byte list \<Rightarrow> string" where
  "data_uri png = ''data:image/png;base64,'' @ b64encode png"

text \<open>\<open>_deny_fetcher\<close>: the addresses the renderer may read.\<close>

definition fetch_allowed :: "string \<Rightarrow> bool" where
  "fetch_allowed url = starts_with ''data:image/png;base64,'' url"

section \<open>Animations and fences\<close>

definition manim_card :: "string \<Rightarrow> artifact option \<Rightarrow> byte list option \<Rightarrow> string" where
  "manim_card title art thumb =
     (let cap = html_escape (if title = [] then ''Animation'' else title);
          missing = (\<lambda>state. ''<figure><figcaption>Animation: '' @ cap @ ''</figcaption>'' @ quoted ''<div class=`note`>'' @
            ''This animation '' @ state @ ''; no video is available for it.</div></figure>'')
      in case art of
        None \<Rightarrow> missing ''was not rendered''
      | Some a \<Rightarrow>
          if ar_status a \<noteq> ''ready'' then missing (''is '' @ html_escape (ar_status a))
          else ''<figure><figcaption>Animation: '' @ cap @ ''</figcaption>'' @
            (case thumb of None \<Rightarrow> []
             | Some png \<Rightarrow> if png = [] then [] else quoted ''<img alt=`Preview of '' @ cap @ quoted ''` src=`'' @ data_uri png @ quoted ''`/>'') @
            quoted ''<div class=`note`>A PDF cannot play video. The animation is stored in Granthan '' @ ''(artifact '' @
            html_escape (uuid_str (ar_id a)) @ ''); open the conversation to play or download it.</div></figure>'')"

text \<open>The closure \<open>manim\<close> of \<open>message_html\<close>.\<close>

definition manim_html ::
  "(string \<Rightarrow> json option) \<Rightarrow> export_bundle \<Rightarrow> (uuid \<times> byte list) list \<Rightarrow> string \<Rightarrow> string" where
  "manim_html loads b thumbs content =
     (let spec = (case loads content of Some (JObj kvs) \<Rightarrow> kvs | _ \<Rightarrow> []);
          art = artifact_for_spec b spec;
          title = (case jget spec ''title'' of JStr t \<Rightarrow> t
                   | _ \<Rightarrow> (case art of Some a \<Rightarrow> ar_title a | None \<Rightarrow> ''Animation''))
      in manim_card title art (case art of None \<Rightarrow> None | Some a \<Rightarrow> map_of thumbs (ar_id a)))"

definition fence_lang :: "string \<Rightarrow> string" where
  "fence_lang info = lower (takeWhile (\<lambda>c. \<not> py_space c) (strip info))"

definition fence_rule :: "(string \<Rightarrow> string) \<Rightarrow> string \<Rightarrow> string \<Rightarrow> string option" where
  "fence_rule manim info content =
     (if fence_lang info = ''mermaid'' then
        Some (''<figure><figcaption>Mermaid diagram (source)</figcaption><pre><code>'' @ html_escape content @ ''</code></pre>'' @
          quoted ''<div class=`note`>The diagram is shown as its source; open the conversation in Granthan to see it rendered.'' @
          ''</div></figure>'')
      else if fence_lang info = ''manim'' then Some (manim content)
      else None)"

definition message_html ::
  "((string \<Rightarrow> string \<Rightarrow> string option) \<Rightarrow> string \<Rightarrow> string) \<Rightarrow> (string \<Rightarrow> json option) \<Rightarrow> export_bundle
   \<Rightarrow> (uuid \<times> byte list) list \<Rightarrow> message \<Rightarrow> string" where
  "message_html md loads b thumbs m =
     md (fence_rule (manim_html loads b thumbs)) (case m_content m of None \<Rightarrow> [] | Some s \<Rightarrow> s)"

section \<open>The document\<close>

definition CSS :: string where
  "CSS = quoted (concat (map (\<lambda>l. l @ [CHR 10])
     [[],
      ''@page { size: A4; margin: 22mm 18mm 20mm 18mm;'',
      ''  @top-center { content: string(doc-title); font: 9pt sans-serif; color: #666; }'',
      ''  @bottom-center { content: `Page ` counter(page) ` of ` counter(pages); font: 9pt sans-serif; color: #666; } }'',
      ''html { font: 10.5pt/1.5 `DejaVu Sans`, `Helvetica`, sans-serif; color: #1a1a1a; }'',
      ''h1.doc { string-set: doc-title content(); font-size: 22pt; margin: 0 0 4mm; }'',
      ''section.conversation { break-before: page; }'',
      ''section.conversation:first-of-type { break-before: auto; }'',
      ''section.conversation h1 { string-set: doc-title content(); font-size: 17pt; margin: 0 0 3mm; }'',
      ''.meta { color: #555; font-size: 9pt; margin: 0 0 6mm; padding-bottom: 3mm; border-bottom: 1px solid #ccc; }'',
      ''.meta div { margin: 0.5mm 0; }'',
      ''article.msg { margin: 0 0 5mm; padding: 2.5mm 3.5mm; border-left: 3px solid #999; background: #f6f6f6; }'',
      ''article.msg.user { border-left-color: #3b6fd4; background: #eef3fc; }'',
      ''article.msg h2 { font-size: 9.5pt; margin: 0 0 2mm; color: #333; break-after: avoid; }'',
      ''article.msg h2 span { font-weight: normal; color: #777; }'',
      ''pre { background: #f0f0f0; border: 1px solid #ddd; padding: 2mm; font: 8.5pt/1.35 `DejaVu Sans Mono`, monospace;'',
      ''  white-space: pre-wrap; overflow-wrap: anywhere; break-inside: avoid-page; }'',
      ''code { font: 9pt `DejaVu Sans Mono`, monospace; background: #eee; padding: 0 1mm; }'',
      ''pre code { background: none; padding: 0; }'',
      ''table { border-collapse: collapse; margin: 2mm 0; width: 100%; }'',
      ''th, td { border: 1px solid #bbb; padding: 1.2mm 2mm; font-size: 9.5pt; vertical-align: top; }'',
      ''th { background: #e8e8e8; }'',
      ''blockquote { margin: 2mm 0; padding-left: 3mm; border-left: 2px solid #bbb; color: #444; }'',
      ''figure { margin: 3mm 0; padding: 2.5mm; border: 1px solid #bbb; background: #fff; break-inside: avoid; }'',
      ''figcaption { font-size: 9pt; font-weight: bold; margin-bottom: 1.5mm; }'',
      ''figure img { max-width: 100%; }'',
      ''figure .note { font-size: 8.5pt; color: #666; }'',
      ''p { margin: 0 0 2.5mm; overflow-wrap: anywhere; }'',
      ''a { color: #1a4fa0; }'',
      ''.toc { margin: 4mm 0 8mm; } .toc li { margin: 1mm 0; }'']))"

text \<open>The escaped title of the document.\<close>

definition doc_title :: "export_bundle \<Rightarrow> byte list" where
  "doc_title b =
     (let first = (case xb_convs b of [] \<Rightarrow> ''Conversation'' | xc # _ \<Rightarrow> cv_title (xc_conv xc))
      in if length (xb_convs b) = 1 then utf8 (html_escape first)
         else utf8 (html_escape first @ '' '') @ em_dash @ utf8 '' conversation hierarchy'')"

definition toc_item :: "export_conversation \<Rightarrow> byte list" where
  "toc_item xc =
     utf8 (quoted ''<li style=`margin-left:'' @ dec_of_nat (xc_depth xc * 6) @ quoted ''mm`>'' @
       html_escape (if cv_title (xc_conv xc) = [] then ''Untitled'' else cv_title (xc_conv xc)) @ '' '') @ em_dash @
     utf8 ('' '' @ dec_of_nat (length (xc_messages xc)) @ '' messages</li>'')"

definition contents_html :: "export_bundle \<Rightarrow> byte list" where
  "contents_html b =
     utf8 (quoted ''<h1 class=`doc`>'') @ doc_title b @
     utf8 (quoted ''</h1><p class=`meta`>Generated '' @ html_escape (fmt_time (Some (xb_generated b))) @ '' '' @ [CHR 0xB7] @ '' '' @
       dec_of_nat (length (xb_convs b)) @ quoted '' conversations</p><ol class=`toc`>'') @
     concat (map toc_item (xb_convs b)) @ utf8 ''</ol>''"

definition meta_html :: "export_bundle \<Rightarrow> export_conversation \<Rightarrow> string" where
  "meta_html b xc =
     (let conv = xc_conv xc in
      ''<div>Conversation ID: '' @ html_escape (uuid_str (cv_id conv)) @ ''</div>'' @
      ''<div>Created: '' @ html_escape (fmt_time (Some (cv_created conv))) @ ''</div>'' @
      (case xc_parent xc of
         Some p \<Rightarrow>
           ''<div>Branched from: '' @
           html_escape (case by_id (xb_convs b) p of None \<Rightarrow> uuid_str p
             | Some x \<Rightarrow> if cv_title (xc_conv x) = [] then uuid_str p else cv_title (xc_conv x)) @
           (case xc_branch xc of None \<Rightarrow> [] | Some m \<Rightarrow> '' (after message '' @ html_escape (uuid_str m) @ '')'') @ ''</div>''
       | None \<Rightarrow>
           (case xc_missing xc of None \<Rightarrow> []
            | Some p \<Rightarrow> ''<div>Branched from a conversation that is no longer available ('' @ html_escape (uuid_str p) @ '')</div>'')))"

definition article_html ::
  "((string \<Rightarrow> string \<Rightarrow> string option) \<Rightarrow> string \<Rightarrow> string) \<Rightarrow> (string \<Rightarrow> json option) \<Rightarrow> export_bundle
   \<Rightarrow> (uuid \<times> byte list) list \<Rightarrow> message \<Rightarrow> string" where
  "article_html md loads b thumbs m =
     (let role = lower (case m_sender m of None \<Rightarrow> [] | Some s \<Rightarrow> s) in
      quoted ''<article class=`msg '' @ (if role = ''user'' then ''user'' else ''assistant'') @ quoted ''`>'' @
      ''<h2>'' @ html_escape (role_label (m_sender m)) @ '' <span>'' @ html_escape (fmt_time (m_created m)) @ ''</span></h2>'' @
      message_html md loads b thumbs m @ ''</article>'')"

definition section_html ::
  "((string \<Rightarrow> string \<Rightarrow> string option) \<Rightarrow> string \<Rightarrow> string) \<Rightarrow> (string \<Rightarrow> json option) \<Rightarrow> export_bundle
   \<Rightarrow> (uuid \<times> byte list) list \<Rightarrow> export_conversation \<Rightarrow> string" where
  "section_html md loads b thumbs xc =
     (let title = cv_title (xc_conv xc) in
      quoted ''<section class=`conversation`><h1>'' @ html_escape (if title = [] then ''Untitled conversation'' else title) @ ''</h1>'' @
      quoted ''<div class=`meta`>'' @ meta_html b xc @ ''</div>'' @
      (if xc_messages xc = [] then ''<p><em>This conversation has no messages.</em></p>'' else []) @
      concat (map (article_html md loads b thumbs) (xc_messages xc)) @ ''</section>'')"

definition build_html ::
  "((string \<Rightarrow> string \<Rightarrow> string option) \<Rightarrow> string \<Rightarrow> string) \<Rightarrow> (string \<Rightarrow> json option) \<Rightarrow> export_bundle
   \<Rightarrow> (uuid \<times> byte list) list \<Rightarrow> byte list" where
  "build_html md loads b thumbs =
     utf8 (quoted ''<!doctype html><html lang=`en`><head><meta charset=`utf-8`><title>'') @ doc_title b @
     utf8 (''</title><style>'' @ CSS @ ''</style></head><body>'') @
     (if 1 < length (xb_convs b) then contents_html b else []) @
     utf8 (concat (map (section_html md loads b thumbs) (xb_convs b)) @ ''</body></html>'')"

definition render_pdf ::
  "((string \<Rightarrow> string \<Rightarrow> string option) \<Rightarrow> string \<Rightarrow> string) \<Rightarrow> (byte list \<Rightarrow> exn + byte list) \<Rightarrow> (string \<Rightarrow> json option)
   \<Rightarrow> export_bundle \<Rightarrow> (uuid \<times> byte list) list \<Rightarrow> exn + byte list" where
  "render_pdf md weasy loads b thumbs = weasy (build_html md loads b thumbs)"

section \<open>What a user's text cannot do\<close>

text \<open>The names of the tags of a text, opening and closing.\<close>

fun tag_names :: "string \<Rightarrow> string list" where
  "tag_names [] = []"
| "tag_names (c # s) = (if c = CHR ''<'' then takeWhile (\<lambda>d. d \<noteq> CHR '' '' \<and> d \<noteq> CHR ''>'') s # tag_names s else tag_names s)"

lemma tag_names_plain: "CHR ''<'' \<notin> set s \<Longrightarrow> tag_names (s @ t) = tag_names t"
  by (induction s) auto

lemma html_char_safe: "list_all (\<lambda>d. d \<noteq> CHR ''<'' \<and> d \<noteq> CHR ''>'' \<and> d \<noteq> CHR 0x22 \<and> d \<noteq> CHR 0x27) (html_char c)"
  unfolding html_char_def by (simp del: One_nat_def)

lemma html_escape_safe: "list_all (\<lambda>d. d \<noteq> CHR ''<'' \<and> d \<noteq> CHR ''>'' \<and> d \<noteq> CHR 0x22 \<and> d \<noteq> CHR 0x27) (html_escape s)"
  using html_char_safe by (induction s) (simp_all add: html_escape_def)

lemma tag_names_escape [simp]: "tag_names (html_escape s @ t) = tag_names t"
  by (rule tag_names_plain) (use html_escape_safe [of s] in \<open>auto simp only: list_all_iff\<close>)

lemma b64_digit_plain: "n < 64 \<Longrightarrow> b64_digit n \<noteq> CHR ''<''"
proof -
  assume n: "n < 64"
  have "list_all (\<lambda>k. b64_digit k \<noteq> CHR ''<'') [0..<64]" by code_simp
  then show ?thesis using n by (auto simp: list_all_iff)
qed

lemma digits_plain:
  "n < 16777216 \<Longrightarrow> b64_digit (n div 262144) \<noteq> CHR ''<'' \<and> b64_digit (n div 4096 mod 64) \<noteq> CHR ''<'' \<and>
     b64_digit (n div 64 mod 64) \<noteq> CHR ''<'' \<and> b64_digit (n mod 64) \<noteq> CHR ''<''"
  by (auto intro!: b64_digit_plain)

lemma byte_bound: "unat (a :: byte) < 256"
  using unsigned_less [of a] by simp

lemma b64_plain: "CHR ''<'' \<notin> set (b64encode bs)"
proof (induction bs rule: b64encode.induct)
  case (2 a)
  show ?case using digits_plain [of "unat a * 65536"] byte_bound [of a] by (auto simp: Let_def dest!: HOL.sym [of "CHR ''<''"])
next
  case (3 a b)
  show ?case using digits_plain [of "unat a * 65536 + unat b * 256"] byte_bound [of a] byte_bound [of b]
    by (auto simp: Let_def dest!: HOL.sym [of "CHR ''<''"])
next
  case (4 a b c rest)
  show ?case using 4 digits_plain [of "unat a * 65536 + unat b * 256 + unat c"] byte_bound [of a] byte_bound [of b] byte_bound [of c]
    by (auto simp: Let_def dest!: HOL.sym [of "CHR ''<''"])
qed simp

lemma tag_names_uri [simp]: "tag_names (data_uri png @ t) = tag_names t"
  by (rule tag_names_plain) (simp add: data_uri_def b64_plain)

definition card_tags :: "bool \<Rightarrow> string list" where
  "card_tags preview = [''figure'', ''figcaption'', ''/figcaption''] @ (if preview then [''img''] else []) @ [''div'', ''/div'', ''/figure'']"

text \<open>
  The text of a user opens no tag in the card of an animation: whatever the title, the status and the picture, the tags of the
  card are those the service writes.
\<close>

theorem card_is_inert:
  "tag_names (manim_card title art thumb) =
     card_tags (case art of None \<Rightarrow> False | Some a \<Rightarrow> ar_status a = ''ready'' \<and> thumb \<noteq> None \<and> thumb \<noteq> Some [])"
proof (cases art)
  case (Some a)
  consider "ar_status a \<noteq> ''ready''" | "ar_status a = ''ready''" "thumb = None \<or> thumb = Some []"
    | png where "ar_status a = ''ready''" "thumb = Some png" "png \<noteq> []" by (cases thumb) auto
  then show ?thesis
    by cases (auto simp: manim_card_def card_tags_def quoted_def Let_def Some split del: if_split)
qed (simp add: manim_card_def Let_def card_tags_def quoted_def split del: if_split)

text \<open>The entities read back.\<close>

fun html_read :: "string \<Rightarrow> string" where
  "html_read [] = []"
| "html_read (c # s) =
     (if starts_with ''&amp;'' (c # s) then CHR ''&'' # html_read (drop 4 s)
      else if starts_with ''&lt;'' (c # s) then CHR ''<'' # html_read (drop 3 s)
      else if starts_with ''&gt;'' (c # s) then CHR ''>'' # html_read (drop 3 s)
      else if starts_with ''&quot;'' (c # s) then CHR 0x22 # html_read (drop 5 s)
      else if starts_with ''&#x27;'' (c # s) then CHR 0x27 # html_read (drop 5 s)
      else c # html_read s)"

lemma html_read_char: "html_read (html_char c @ t) = c # html_read t"
proof (cases "c \<in> {CHR ''&'', CHR ''<'', CHR ''>'', CHR 0x22, CHR 0x27}")
  case True
  then show ?thesis by (elim insertE emptyE) (simp_all add: html_char_def starts_with_def)
next
  case False
  then have "\<not> starts_with (CHR ''&'' # p) (c # t)" for p by (simp add: starts_with_def)
  with False show ?thesis by (simp add: html_char_def)
qed

theorem html_escape_reads_back: "html_read (html_escape s) = s"
  by (induction s) (simp_all add: html_escape_def html_read_char)

theorem only_inline_pictures: "fetch_allowed (data_uri png)"
  by (simp add: fetch_allowed_def data_uri_def starts_with_def)

end
