(* ===== verification/Export_Jobs.thy ===== *)
theory Export_Jobs
  imports Export_Pdf
begin

text \<open>
  \<open>app/exports/service.py\<close>: export jobs, from the request to the stored file. A job is a row of \<open>export_jobs\<close> (the field
  \<open>st_jobs\<close> of the studio, in the order of insertion), the file an object under \<open>exports/\<close>. The clock of the database and of
  the process is \<open>st_now\<close>. \<open>tools\<close> collects the parameters: the JSON reader, SHA-256 of a text and of a file, the stamp of a
  conversation, the ZIP container and the two libraries of the PDF. JSONB keeps the keys of the snapshot, all of the length of
  a UUID, in byte order.
\<close>

definition EXPORT_LEASE_SECONDS :: int where "EXPORT_LEASE_SECONDS = 300"
definition EXPORT_RETENTION_HOURS :: int where "EXPORT_RETENTION_HOURS = 24"
definition EXPORT_MAX_MESSAGES_PER_CONVERSATION :: nat where "EXPORT_MAX_MESSAGES_PER_CONVERSATION = 5000"
definition EXPORT_MAX_ARCHIVE_BYTES :: nat where "EXPORT_MAX_ARCHIVE_BYTES = 524288000"
definition EXPORT_MAX_ATTEMPTS :: nat where "EXPORT_MAX_ATTEMPTS = 3"
definition EXPORT_MAX_LIVE_PER_USER :: nat where "EXPORT_MAX_LIVE_PER_USER = 10"

definition LIVE :: "string list" where "LIVE = [''pending'', ''processing'', ''ready'']"
definition SCOPES :: "string list" where "SCOPES = [''conversation'', ''hierarchy'']"
definition FORMATS :: "string list" where "FORMATS = [''markdown'', ''pdf'']"
definition MAX_THUMB_BYTES :: nat where "MAX_THUMB_BYTES = 2097152"

record tools =
  tl_loads :: "string \<Rightarrow> json option"
  tl_sha :: "string \<Rightarrow> string"
  tl_shaf :: "byte list \<Rightarrow> string"
  tl_stamp :: "conversation \<Rightarrow> string"
  tl_zip :: "zip_state \<Rightarrow> byte list"
  tl_md :: "(string \<Rightarrow> string \<Rightarrow> string option) \<Rightarrow> string \<Rightarrow> string"
  tl_weasy :: "byte list \<Rightarrow> exn + byte list"

section \<open>The table\<close>

definition find_job :: "uuid \<Rightarrow> studio \<Rightarrow> export_job option" where
  "find_job i s = find (\<lambda>j. xj_id j = i) (st_jobs s)"

text \<open>A time of the row that is over; no time never is.\<close>

definition past :: "int \<Rightarrow> int option \<Rightarrow> bool" where
  "past now t = (case t of None \<Rightarrow> False | Some x \<Rightarrow> x < now)"

definition lease_free :: "int \<Rightarrow> export_job \<Rightarrow> bool" where
  "lease_free now j \<longleftrightarrow> xj_lease j = None \<or> past now (xj_lease j)"

definition live_job :: "export_job \<Rightarrow> bool" where
  "live_job j \<longleftrightarrow> xj_status j \<in> set LIVE"

definition busy_job :: "export_job \<Rightarrow> bool" where
  "busy_job j \<longleftrightarrow> xj_status j \<in> {''pending'', ''processing''}"

text \<open>The widths of the columns and the check constraints a row could break.\<close>

definition job_checks :: "export_job \<Rightarrow> bool" where
  "job_checks j \<longleftrightarrow> xj_scope j \<in> set SCOPES \<and> xj_format j \<in> set FORMATS \<and>
     xj_status j \<in> {''pending'', ''processing'', ''ready'', ''failed'', ''expired''} \<and> length (xj_request j) \<le> 64 \<and>
     fits 255 (xj_object j) \<and> fits 200 (xj_file j) \<and> fits 64 (xj_type j) \<and> fits 64 (xj_sha j) \<and> fits 48 (xj_failure j)"

section \<open>Creation\<close>

definition export_scope :: "uuid \<Rightarrow> uuid \<Rightarrow> string \<Rightarrow> (world, hierarchy \<times> uuid list) prog" where
  "export_scope owner cid scope =
     bnd (hierarchy_load owner (EXPORT_MAX_CONVERSATIONS * 4)) (\<lambda>h.
     if cid \<notin> node_ids (h_nodes h) then raise SourceMissing
     else
       bnd (lift_result (if scope = ''conversation'' then Inr [cid]
         else case root_of h cid of Inl e \<Rightarrow> Inl e | Inr (root, _) \<Rightarrow> Inr (subtree h root))) (\<lambda>ids.
       if EXPORT_MAX_CONVERSATIONS < length ids then raise ExportTooLarge else ret (h, ids)))"

text \<open>\<open>json.dumps(value, sort_keys=True)\<close> of the request: its texts are ASCII without control characters.\<close>

definition json_list :: "string list \<Rightarrow> string" where
  "json_list xs = ''['' @ join '', '' xs @ '']''"

definition request_text :: "uuid \<Rightarrow> uuid \<Rightarrow> string \<Rightarrow> string \<Rightarrow> bool \<Rightarrow> (string \<times> string) list \<Rightarrow> string" where
  "request_text owner cid scope fmt media snap =
     (let field = (\<lambda>k v. dump_str k @ '': '' @ v) in
      ''{'' @ join '', ''
        [field ''c'' (dump_str (uuid_str cid)), field ''f'' (dump_str fmt), field ''m'' (if media then ''true'' else ''false''),
         field ''o'' (dump_str (uuid_str owner)), field ''s'' (dump_str scope),
         field ''snap'' (json_list (map (\<lambda>(k, v). json_list [dump_str k, dump_str v]) (sort snap)))] @ ''}'')"

definition same_request :: "uuid \<Rightarrow> string \<Rightarrow> export_job \<Rightarrow> bool" where
  "same_request owner key j \<longleftrightarrow> xj_owner j = owner \<and> xj_request j = key"

definition expire_stale :: "uuid \<Rightarrow> string \<Rightarrow> int \<Rightarrow> export_job \<Rightarrow> export_job" where
  "expire_stale owner key now j =
     (if same_request owner key j \<and> xj_status j = ''ready'' \<and> past now (xj_expires j) then j\<lparr>xj_status := ''expired''\<rparr> else j)"

text \<open>
  The transaction of \<open>create\<close>. An exception rolls it back. A row with the same request cannot have come in between the
  statements; a taken id makes the insertion do nothing, and then there is no row to read back.
\<close>

definition create_txn :: "export_job \<Rightarrow> studio \<Rightarrow> (exn + export_job \<times> bool) \<times> studio" where
  "create_txn new s =
     (let jobs = map (expire_stale (xj_owner new) (xj_request new) (st_now s)) (st_jobs s);
          occupied = length (filter (\<lambda>j. xj_owner j = xj_owner new \<and> busy_job j) jobs)
      in case filter (\<lambda>j. same_request (xj_owner new) (xj_request new) j \<and> live_job j) jobs of
        [j] \<Rightarrow> (Inr (j, False), s\<lparr>st_jobs := jobs\<rparr>)
      | j # j' # _ \<Rightarrow> (Inl (LookupError ''Multiple rows were found when one or none was required''), s)
      | [] \<Rightarrow>
          if EXPORT_MAX_LIVE_PER_USER \<le> occupied then (Inl ExportLimitReached, s)
          else if st_checks s \<and> \<not> job_checks new then (Inl DbError, s)
          else if list_ex (\<lambda>j. xj_id j = xj_id new) jobs then (Inl (LookupError ''No row was found when one was required''), s)
          else (Inr (new, True), s\<lparr>st_jobs := jobs @ [new]\<rparr>))"

text \<open>The row of a new job, with the defaults of the table.\<close>

definition job_row ::
  "tools \<Rightarrow> uuid \<Rightarrow> uuid \<Rightarrow> uuid \<Rightarrow> string \<Rightarrow> string \<Rightarrow> bool \<Rightarrow> uuid list \<Rightarrow> (string \<times> string) list \<Rightarrow> int \<Rightarrow> export_job" where
  "job_row T job_id owner cid scope fmt media ids snap now =
     \<lparr>xj_id = job_id, xj_owner = owner, xj_conv = cid, xj_scope = scope, xj_format = fmt, xj_media = media,
      xj_request = tl_sha T (request_text owner cid scope fmt media snap), xj_snapshot = sort snap,
      xj_status = ''pending'', xj_done = 0, xj_total = length ids, xj_object = None, xj_file = None, xj_type = None,
      xj_size = None, xj_sha = None, xj_failure = None, xj_attempts = 0, xj_lease = None, xj_expires = None,
      xj_created = now, xj_updated = now\<rparr>"

definition job_create :: "tools \<Rightarrow> uuid \<Rightarrow> uuid \<Rightarrow> uuid \<Rightarrow> string \<Rightarrow> string \<Rightarrow> bool \<Rightarrow> (export_job \<times> bool) export" where
  "job_create T job_id owner cid scope fmt include_media =
     (let media = (include_media \<and> scope = ''hierarchy'' \<and> fmt = ''markdown'') in
      bnd (on_world (export_scope owner cid scope)) (\<lambda>(_, ids).
      bnd (on_world (snapshot_of_ids ids)) (\<lambda>snap.
      on_other (bnd (getting st_now) (\<lambda>now. txn (create_txn (job_row T job_id owner cid scope fmt media ids snap now)))))))"

definition job_get :: "uuid \<Rightarrow> uuid \<Rightarrow> (studio, export_job option) prog" where
  "job_get owner i = txn (\<lambda>s. (Inr (find (\<lambda>j. xj_id j = i \<and> xj_owner j = owner) (st_jobs s)), s))"

section \<open>Guarded updates\<close>

definition put_job :: "uuid \<Rightarrow> export_job \<Rightarrow> studio \<Rightarrow> studio" where
  "put_job i j' s = s\<lparr>st_jobs := map (\<lambda>j. if xj_id j = i then j' else j) (st_jobs s)\<rparr>"

definition claim_change :: "int \<Rightarrow> export_job \<Rightarrow> export_job" where
  "claim_change now j = j\<lparr>xj_status := ''processing'', xj_attempts := xj_attempts j + 1,
     xj_lease := Some (now + sec EXPORT_LEASE_SECONDS), xj_updated := now\<rparr>"

definition job_claim :: "uuid \<Rightarrow> (studio, export_job option) prog" where
  "job_claim i = txn (\<lambda>s. case find_job i s of
     None \<Rightarrow> (Inr None, s)
   | Some j \<Rightarrow>
       if busy_job j \<and> xj_attempts j < EXPORT_MAX_ATTEMPTS \<and> lease_free (st_now s) j then
         (Inr (Some (claim_change (st_now s) j)), put_job i (claim_change (st_now s) j) s)
       else (Inr None, s))"

definition job_set :: "uuid \<Rightarrow> string list \<Rightarrow> (int \<Rightarrow> export_job \<Rightarrow> export_job) \<Rightarrow> (studio, bool) prog" where
  "job_set i allowed f = txn (\<lambda>s. case find_job i s of
     None \<Rightarrow> (Inr False, s)
   | Some j \<Rightarrow>
       if xj_status j \<in> set allowed then
         (let j' = (f (st_now s) j)\<lparr>xj_updated := st_now s\<rparr>
          in if st_checks s \<longrightarrow> job_checks j' then (Inr True, put_job i j' s) else (Inl DbError, s))
       else (Inr False, s))"

definition failed_job :: "string \<Rightarrow> int \<Rightarrow> export_job \<Rightarrow> export_job" where
  "failed_job code now j = j\<lparr>xj_status := ''failed'', xj_failure := Some code, xj_lease := None\<rparr>"

definition job_fail :: "uuid \<Rightarrow> string \<Rightarrow> (studio, unit) prog" where
  "job_fail i code = bnd (job_set i [''pending'', ''processing''] (failed_job code)) (\<lambda>_. ret ())"

section \<open>Rendering\<close>

definition fetch_thumb :: "artifact \<Rightarrow> (uuid \<times> byte list) list \<Rightarrow> (studio, (uuid \<times> byte list) list) prog" where
  "fetch_thumb a thumbs = (case nonempty (ar_thumb a) of
     None \<Rightarrow> ret thumbs
   | Some key \<Rightarrow>
       attempt (bnd (store_get key) (\<lambda>png. ret (if length png \<le> MAX_THUMB_BYTES then (ar_id a, png) # thumbs else thumbs)))
         (\<lambda>_. ret thumbs))"

text \<open>The bytes of the file, its name and its content type.\<close>

definition render_job :: "tools \<Rightarrow> export_job \<Rightarrow> export_bundle \<Rightarrow> (studio, byte list \<times> string \<times> string) prog" where
  "render_job T job b =
     (let base = conversation_dir (case xb_convs b of [] \<Rightarrow> ''conversation'' | xc # _ \<Rightarrow> cv_title (xc_conv xc)) (xb_selected b) in
      if xj_format job = ''pdf'' then
        bnd (fold_prog (\<lambda>(_, a). fetch_thumb a) (xb_artifacts b) []) (\<lambda>thumbs.
        bnd (lift_result (render_pdf (tl_md T) (tl_weasy T) (tl_loads T) b thumbs)) (\<lambda>pdf.
        ret (pdf, base @ ''.pdf'', ''application/pdf'')))
      else if xj_scope job = ''conversation'' then
        (case xb_convs b of
           [] \<Rightarrow> raise (LookupError ''list index out of range'')
         | xc # _ \<Rightarrow> ret (utf8 (render_conversation_markdown (tl_loads T) xc b no_links None), base @ ''.md'',
             ''text/markdown; charset=utf-8''))
      else
        bnd (build_hierarchy_zip (tl_loads T) (tl_shaf T) (tl_stamp T) b (xj_media job) EXPORT_MAX_ARCHIVE_BYTES
          (options_json (xj_scope job) (xj_format job) (xj_media job)) (xj_snapshot job) ARTIFACT_MAX_VIDEO_BYTES) (\<lambda>(name, z).
        ret (tl_zip T z, name, ''application/zip'')))"

section \<open>Production\<close>

definition report_progress :: "uuid \<Rightarrow> nat \<Rightarrow> nat \<Rightarrow> unit export" where
  "report_progress i finished expected =
     on_other (bnd (job_set i [''processing''] (\<lambda>now j. j\<lparr>xj_done := finished, xj_total := expected\<rparr>)) (\<lambda>_. ret ()))"

definition export_key :: "uuid \<Rightarrow> string \<Rightarrow> string" where
  "export_key i filename = ''exports/'' @ uuid_str i @ ''/'' @ filename"

definition ready_job :: "string \<Rightarrow> string \<Rightarrow> string \<Rightarrow> nat \<Rightarrow> string \<Rightarrow> nat \<Rightarrow> int \<Rightarrow> export_job \<Rightarrow> export_job" where
  "ready_job key filename ctype n digest parts now j = j\<lparr>xj_status := ''ready'', xj_object := Some key, xj_file := Some filename,
     xj_type := Some ctype, xj_size := Some n, xj_sha := Some digest, xj_failure := None, xj_lease := None, xj_done := parts,
     xj_total := parts, xj_expires := Some (now + sec (EXPORT_RETENTION_HOURS * 3600))\<rparr>"

text \<open>The second half of \<open>_produce\<close>: the file is stored, looked up again and announced.\<close>

definition publish_job :: "tools \<Rightarrow> uuid \<Rightarrow> nat \<Rightarrow> byte list \<times> string \<times> string \<Rightarrow> (studio, unit) prog" where
  "publish_job T i parts = (\<lambda>(bytes, filename, ctype).
     if EXPORT_MAX_ARCHIVE_BYTES < length bytes then raise ExportTooLarge
     else
       (let key = export_key i filename in
        bnd (store_put key bytes ctype) (\<lambda>_.
        bnd (store_stat key) (\<lambda>stored.
        if stored \<noteq> Some (length bytes) then raise StorageError
        else
          bnd (job_set i [''processing''] (ready_job key filename ctype (length bytes) (tl_shaf T bytes) parts)) (\<lambda>updated.
          if updated then ret () else store_delete key)))))"

definition job_ids :: "hierarchy \<Rightarrow> export_job \<Rightarrow> exn + uuid list" where
  "job_ids h job =
     (if xj_scope job = ''conversation'' then Inr [xj_conv job]
      else case root_of h (xj_conv job) of
        Inl e \<Rightarrow> Inl e
      | Inr (root, _) \<Rightarrow> Inr (filter (\<lambda>c. uuid_str c \<in> fst ` set (xj_snapshot job)) (subtree h root)))"

definition produce :: "tools \<Rightarrow> export_job \<Rightarrow> unit export" where
  "produce T job =
     bnd (on_world (hierarchy_load (xj_owner job) (EXPORT_MAX_CONVERSATIONS * 4))) (\<lambda>h.
     if xj_conv job \<notin> node_ids (h_nodes h) then raise SourceMissing
     else
       bnd (lift_result (job_ids h job)) (\<lambda>ids.
       bnd (on_other (getting st_renderer)) (\<lambda>renderer.
       bnd (collect (tl_loads T) (tl_sha T) (report_progress (xj_id job)) EXPORT_MAX_MESSAGES_PER_CONVERSATION (xj_owner job) h
              (xj_conv job) ids (xj_snapshot job) renderer ARTIFACT_RENDER_QUALITY) (\<lambda>b.
       bnd (on_other (render_job T job b)) (\<lambda>file.
       on_other (publish_job T (xj_id job) (length (xb_convs b)) file))))))"

section \<open>Processing\<close>

definition pause_job :: "int \<Rightarrow> export_job \<Rightarrow> export_job" where
  "pause_job now j = j\<lparr>xj_status := ''pending'', xj_lease := Some (now + sec 10)\<rparr>"

definition after_failure :: "export_job \<Rightarrow> exn \<Rightarrow> (studio, unit) prog" where
  "after_failure job e = (case e of
     SourceMissing \<Rightarrow> job_fail (xj_id job) ''source_missing''
   | ExportTooLarge \<Rightarrow> job_fail (xj_id job) ''too_large''
   | PdfUnavailable \<Rightarrow> job_fail (xj_id job) ''pdf_unavailable''
   | _ \<Rightarrow>
       if EXPORT_MAX_ATTEMPTS \<le> xj_attempts job then job_fail (xj_id job) ''export_error''
       else bnd (job_set (xj_id job) [''processing''] pause_job) (\<lambda>_. ret ()))"

definition work_on :: "tools \<Rightarrow> export_job \<Rightarrow> unit export" where
  "work_on T job = attempt (produce T job) (\<lambda>e. on_other (after_failure job e))"

definition process_job :: "tools \<Rightarrow> uuid \<Rightarrow> unit export" where
  "process_job T i = bnd (on_other (job_claim i)) (\<lambda>claimed. case claimed of None \<Rightarrow> ret () | Some job \<Rightarrow> work_on T job)"

section \<open>The worker\<close>

definition waiting_jobs :: "(studio, uuid list) prog" where
  "waiting_jobs = txn (\<lambda>s. (Inr (take 10 (map xj_id (sort_key xj_created
     (filter (\<lambda>j. busy_job j \<and> lease_free (st_now s) j) (st_jobs s))))), s))"

definition fail_exhausted :: "(studio, unit) prog" where
  "fail_exhausted = txn (\<lambda>s. (Inr (), s\<lparr>st_jobs := map (\<lambda>j.
     if busy_job j \<and> EXPORT_MAX_ATTEMPTS \<le> xj_attempts j \<and> lease_free (st_now s) j
     then (failed_job ''export_error'' (st_now s) j)\<lparr>xj_updated := st_now s\<rparr> else j) (st_jobs s)\<rparr>))"

definition jobs_run_once :: "tools \<Rightarrow> nat export" where
  "jobs_run_once T =
     bnd (on_other waiting_jobs) (\<lambda>ids.
     bnd (fold_prog (\<lambda>i _. process_job T i) ids ()) (\<lambda>_.
     bnd (on_other fail_exhausted) (\<lambda>_. ret (length ids))))"

text \<open>Retention: \<open>keys\<close> are the names in the bucket, of which the store lists those under \<open>exports/\<close>.\<close>

definition due_jobs :: "(studio, (uuid \<times> string option) list) prog" where
  "due_jobs = txn (\<lambda>s. (Inr (take 100 (map (\<lambda>j. (xj_id j, xj_object j))
     (filter (\<lambda>j. xj_status j = ''ready'' \<and> past (st_now s) (xj_expires j)) (st_jobs s)))), s))"

definition expire_job :: "uuid \<times> string option \<Rightarrow> int \<Rightarrow> (studio, int) prog" where
  "expire_job = (\<lambda>(i, key) expired.
     bnd (case nonempty key of None \<Rightarrow> ret () | Some k \<Rightarrow> store_delete k) (\<lambda>_.
     bnd (job_set i [''ready''] (\<lambda>now j. j\<lparr>xj_status := ''expired'', xj_object := None\<rparr>)) (\<lambda>updated.
     ret (if updated then expired + 1 else expired))))"

definition prunable :: "int \<Rightarrow> export_job \<Rightarrow> bool" where
  "prunable now j \<longleftrightarrow> xj_status j \<in> {''failed'', ''expired''} \<and> xj_updated j < now - sec (EXPORT_RETENTION_HOURS * 3600 * 7)"

definition prune_jobs :: "(studio, int) prog" where
  "prune_jobs = txn (\<lambda>s. (Inr (int (length (filter (prunable (st_now s)) (st_jobs s)))),
     s\<lparr>st_jobs := filter (\<lambda>j. \<not> prunable (st_now s) j) (st_jobs s)\<rparr>))"

definition drop_orphan :: "string \<Rightarrow> int \<Rightarrow> (studio, int) prog" where
  "drop_orphan key orphans =
     bnd (getting (\<lambda>s. (st_objs s key, st_now s))) (\<lambda>(info, now). case info of
       None \<Rightarrow> ret orphans
     | Some ob \<Rightarrow>
         (let parts = split_on (CHR ''/'') key in
          if length parts < 3 \<or> now - sec 3600 < so_modified ob then ret orphans
          else case parse_uuid (parts ! 1) of
            None \<Rightarrow> ret orphans
          | Some i \<Rightarrow>
              bnd (txn (\<lambda>s. (Inr (map_option xj_status (find_job i s)), s))) (\<lambda>status.
              if status \<in> {Some ''ready'', Some ''processing''} then ret orphans
              else bnd (store_delete key) (\<lambda>_. ret (orphans + 1)))))"

definition jobs_cleanup :: "string list \<Rightarrow> (studio, int \<times> int \<times> int) prog" where
  "jobs_cleanup keys =
     bnd due_jobs (\<lambda>due.
     bnd (fold_prog expire_job due 0) (\<lambda>expired.
     bnd prune_jobs (\<lambda>pruned.
     bnd (fold_prog drop_orphan (filter (starts_with ''exports/'') keys) 0) (\<lambda>orphans.
     ret (expired, pruned, orphans)))))"

text \<open>
  One turn of \<open>ExportWorker.run\<close>: the answer is the time of the last clean-up (\<open>previous\<close> before the turn), set before it begins; an exception ends the turn.
\<close>

definition CLEANUP_EVERY :: int where "CLEANUP_EVERY = 300"

definition worker_turn :: "tools \<Rightarrow> string list \<Rightarrow> int \<Rightarrow> int export" where
  "worker_turn T keys previous =
     attempt
       (bnd (jobs_run_once T) (\<lambda>_.
        bnd (on_other (getting st_now)) (\<lambda>now.
        if sec CLEANUP_EVERY < now - previous
        then attempt (bnd (on_other (jobs_cleanup keys)) (\<lambda>_. ret now)) (\<lambda>_. ret now)
        else ret previous)))
       (\<lambda>_. ret previous)"

end
