(* ===== verification/Export_Job_Laws.thy ===== *)
theory Export_Job_Laws
  imports Export_Jobs
begin

text \<open>
  The invariant of the export jobs: unique ids, one live job per request, bounded numbers of jobs and attempts, and behind every
  export that is ready and not expired the stored file it announces. Every operation of \<open>Export_Jobs\<close> keeps it, whatever
  calls fail, and keeps the invariant of the animations.
\<close>

section \<open>The invariant\<close>

definition stored_export :: "(byte list \<Rightarrow> string) \<Rightarrow> (string \<Rightarrow> stored_object option) \<Rightarrow> export_job \<Rightarrow> bool" where
  "stored_export shaf objs j \<longleftrightarrow> (case xj_object j of None \<Rightarrow> False | Some key \<Rightarrow>
     (case objs key of None \<Rightarrow> False | Some ob \<Rightarrow>
        xj_size j = Some (length (so_bytes ob)) \<and> xj_sha j = Some (shaf (so_bytes ob)) \<and> xj_type j = Some (so_type ob)))"

definition own_file :: "export_job \<Rightarrow> bool" where
  "own_file j \<longleftrightarrow> (case xj_file j of None \<Rightarrow> False | Some f \<Rightarrow> xj_object j = Some (export_key (xj_id j) f)) \<and> xj_expires j \<noteq> None"

definition job_sound :: "(byte list \<Rightarrow> string) \<Rightarrow> int \<Rightarrow> (string \<Rightarrow> stored_object option) \<Rightarrow> export_job \<Rightarrow> bool" where
  "job_sound shaf now objs j \<longleftrightarrow> job_checks j \<and> xj_attempts j \<le> EXPORT_MAX_ATTEMPTS \<and>
     (xj_status j = ''ready'' \<longrightarrow> own_file j \<and> (past now (xj_expires j) \<or> stored_export shaf objs j))"

definition request_of :: "export_job \<Rightarrow> uuid \<times> string" where
  "request_of j = (xj_owner j, xj_request j)"

definition occupied :: "uuid \<Rightarrow> export_job list \<Rightarrow> nat" where
  "occupied u js = length (filter (\<lambda>j. xj_owner j = u \<and> busy_job j) js)"

definition jobs_ok :: "(byte list \<Rightarrow> string) \<Rightarrow> studio \<Rightarrow> bool" where
  "jobs_ok shaf s \<longleftrightarrow> distinct (map xj_id (st_jobs s)) \<and> distinct (map request_of (filter live_job (st_jobs s))) \<and>
     (\<forall>u. occupied u (st_jobs s) \<le> EXPORT_MAX_LIVE_PER_USER) \<and>
     (\<forall>j \<in> set (st_jobs s). job_sound shaf (st_now s) (st_objs s) j)"

definition exports_ok :: "(byte list \<Rightarrow> string) \<Rightarrow> studio \<Rightarrow> bool" where
  "exports_ok shaf s \<longleftrightarrow> jobs_ok shaf s \<and> studio_ok shaf s \<and> st_checks s"

text \<open>No row with the id is ready.\<close>

definition unfinished :: "uuid \<Rightarrow> studio \<Rightarrow> bool" where
  "unfinished i s \<longleftrightarrow> (\<forall>j \<in> set (st_jobs s). xj_id j = i \<longrightarrow> xj_status j \<noteq> ''ready'')"

lemma empty_exports_ok: "exports_ok shaf empty_studio"
  by (simp add: exports_ok_def jobs_ok_def studio_ok_def rows_ok_def empty_studio_def occupied_def)

section \<open>Programs that only read\<close>

definition reads :: "studio \<Rightarrow> studio \<Rightarrow> bool" where
  "reads s s' \<longleftrightarrow> (\<exists>n. s' = s\<lparr>st_sched := drop n (st_sched s)\<rparr>)"

lemma reads_refl [simp]: "reads s s"
  unfolding reads_def by (rule exI [of _ 0]) simp

lemma reads_trans: "reads s t \<Longrightarrow> reads t u \<Longrightarrow> reads s u"
  unfolding reads_def by (auto simp: add.commute)

lemma reads_pop [simp]: "reads s (st_pop s)"
  unfolding reads_def st_pop_def by (rule exI [of _ 1]) (simp add: drop_Suc)

lemma reads_fields:
  assumes "reads s s'"
  shows "st_jobs s' = st_jobs s" "st_objs s' = st_objs s" "st_rows s' = st_rows s" "st_now s' = st_now s" "st_checks s' = st_checks s" "find_job i s' = find_job i s"
    "jobs_ok shaf s' = jobs_ok shaf s" "studio_ok shaf s' = studio_ok shaf s" "exports_ok shaf s' = exports_ok shaf s"
    "unfinished i s' = unfinished i s"
  using assms by (auto simp: reads_def find_job_def jobs_ok_def studio_ok_def exports_ok_def unfinished_def)

definition reading :: "(studio, 'a) prog \<Rightarrow> bool" where
  "reading m \<longleftrightarrow> (\<forall>s. wp m (\<lambda>_ s'. reads s s') (\<lambda>_ s'. reads s s') s)"

lemma reading_ret [intro]: "reading (ret a)" "reading (raise e)" "reading (getting g)" "reading (lift_result r)"
  by (simp_all add: reading_def wp_simps split: sum.split)

lemma reading_bnd [intro]: "reading m \<Longrightarrow> (\<And>a. reading (f a)) \<Longrightarrow> reading (bnd m f)"
  unfolding reading_def wp_bnd by (intro allI, rule wp_mono, blast) (auto intro: wp_mono reads_trans)

lemma reading_attempt [intro]: "reading m \<Longrightarrow> (\<And>e. reading (h e)) \<Longrightarrow> reading (attempt m h)"
  unfolding reading_def wp_attempt by (intro allI, rule wp_mono, blast) (auto intro: wp_mono reads_trans)

lemma reading_fold [intro]: "(\<And>x b. reading (f x b)) \<Longrightarrow> reading (fold_prog f xs b)"
  by (induction xs arbitrary: b) auto

lemma reading_store_get [intro]: "reading (store_get key)" "reading (store_stat key)"
  unfolding reading_def by (auto intro!: wp_mono [OF wp_store_get] wp_mono [OF wp_store_stat])

lemma reading_txn [intro]: "reading (txn (\<lambda>s. (v s, s)))"
  by (simp add: reading_def wp_def txn_def split: fault.split sum.split)

lemma reading_lookup_all: "reading (lookup_all sha256 owner version quality ts)"
  by (induction ts) (auto simp: artifact_lookup_def Let_def intro!: reading_bnd reading_txn)

lemma reading_bundle_thumb: "reading (bundle_thumb a z)"
  by (cases "nonempty (ar_thumb a)") (auto simp: bundle_thumb_def)

lemma reading_bundle_video: "reading (bundle_video shaf maxb maxv a z)"
  by (auto simp: bundle_video_def intro!: reading_bnd reading_bundle_thumb split: option.split)

lemma reading_zip: "reading (build_hierarchy_zip loads shaf stamp_of b media maxb options snap maxv)"
  by (auto simp: build_hierarchy_zip_def intro!: reading_bnd reading_fold reading_bundle_video)

lemma reading_fetch_thumb: "reading (fetch_thumb a thumbs)"
  by (cases "nonempty (ar_thumb a)") (auto simp: fetch_thumb_def)

lemma reading_render: "reading (render_job T job b)"
  by (auto simp: render_job_def Let_def intro!: reading_bnd reading_fold reading_fetch_thumb reading_zip split: list.split prod.split)

section \<open>Programs on both sides that keep a fact of the studio\<close>

definition keeps :: "(studio \<Rightarrow> bool) \<Rightarrow> 'a export \<Rightarrow> bool" where
  "keeps I m \<longleftrightarrow> (\<forall>w s. I s \<longrightarrow> wp m (\<lambda>_ p. I (snd p)) (\<lambda>_ p. I (snd p)) (w, s))"

text \<open>A fact that reading does not touch.\<close>

definition stable :: "(studio \<Rightarrow> bool) \<Rightarrow> bool" where
  "stable I \<longleftrightarrow> (\<forall>s s'. I s \<longrightarrow> reads s s' \<longrightarrow> I s')"

lemma keepsD: "keeps I m \<Longrightarrow> I s \<Longrightarrow> wp m (\<lambda>_ p. I (snd p)) (\<lambda>_ p. I (snd p)) (w, s)"
  by (simp add: keeps_def)

lemma keeps_simple [intro]: "keeps I (ret a)" "keeps I (raise e)" "keeps I (lift_result r)" "keeps I (on_world m)"
  by (auto simp: keeps_def wp_simps intro: wp_mono [OF wp_True] split: sum.split)

lemma keeps_bnd: "keeps I m \<Longrightarrow> (\<And>a. keeps I (f a)) \<Longrightarrow> keeps I (bnd m f)"
  unfolding keeps_def wp_bnd by (intro allI impI, rule wp_mono, blast) (auto simp: split_paired_all)

lemma keeps_attempt: "keeps I m \<Longrightarrow> (\<And>e. keeps I (h e)) \<Longrightarrow> keeps I (attempt m h)"
  unfolding keeps_def wp_attempt by (intro allI impI, rule wp_mono, blast) (auto simp: split_paired_all)

lemma keeps_fold: "(\<And>x b. keeps I (f x b)) \<Longrightarrow> keeps I (fold_prog f xs b)"
  by (induction xs arbitrary: b) (auto intro: keeps_bnd)

lemma keeps_other: "(\<And>s. I s \<Longrightarrow> wp m (\<lambda>_. I) (\<lambda>_. I) s) \<Longrightarrow> keeps I (on_other m)"
  by (simp add: keeps_def wp_on_other)

lemma wp_reading: "reading m \<Longrightarrow> wp m (\<lambda>_. reads s) (\<lambda>_. reads s) s"
  by (simp add: reading_def)

lemma keeps_reading: "stable I \<Longrightarrow> reading m \<Longrightarrow> keeps I (on_other m)"
  by (rule keeps_other, rule wp_mono [OF wp_reading]) (auto simp: stable_def)

lemma keeps_collect:
  assumes "stable I" and "\<And>i n. keeps I (report i n)"
  shows "keeps I (collect loads sha256 report n owner h selected ids snap version quality)"
proof -
  have "keeps I (export_one report n owner h root scope snap cid convs)" for root scope cid convs
    by (auto simp: export_one_def intro!: keeps_bnd assms(2) split: option.split)
  then show ?thesis
    by (auto simp: collect_def Let_def intro!: keeps_bnd keeps_fold keeps_reading [OF assms(1)] reading_lookup_all
        split: sum.split prod.split)
qed

text \<open>Production, with a fact that the reports of progress and reading keep, ends in the publication.\<close>

lemma wp_produce:
  assumes "stable I" and "\<And>a b. keeps I (report_progress (xj_id job) a b)" and "I s"
    and pub: "\<And>n out s'. I s' \<Longrightarrow> wp (publish_job T (xj_id job) n out) (\<lambda>_. Q) (\<lambda>_. E) s'" and err: "\<And>s'. I s' \<Longrightarrow> E s'"
  shows "wp (produce T job) (\<lambda>_ p. Q (snd p)) (\<lambda>_ p. E (snd p)) (w, s)"
proof -
  let ?Q = "\<lambda>_ p. Q (snd p)" and ?E = "\<lambda>_ p. E (snd p)"
  have step: "wp (bnd m f) ?Q ?E (w', s')" if "keeps I m" "I s'" "\<And>a w2 s2. I s2 \<Longrightarrow> wp (f a) ?Q ?E (w2, s2)"
    for m :: "'a export" and f w' s'
    unfolding wp_bnd by (rule wp_mono [OF keepsD [OF that(1,2)]]) (auto intro: that(3) err)
  have announce: "wp (on_other (publish_job T (xj_id job) n out)) ?Q ?E (w', s')" if "I s'" for n out w' s'
    using pub [OF that] by (simp add: wp_on_other)
  show ?thesis unfolding produce_def
    by (rule step, blast, fact) (auto intro!: step keeps_collect keeps_reading reading_render assms announce simp: wp_raise intro: err)
qed

section \<open>Changes of the table\<close>

text \<open>A change of a row keeps its identity and does not bring it back to life or to work.\<close>

definition calmer :: "export_job \<Rightarrow> export_job \<Rightarrow> bool" where
  "calmer j j' \<longleftrightarrow> xj_id j' = xj_id j \<and> request_of j' = request_of j \<and> (live_job j' \<longrightarrow> live_job j) \<and> (busy_job j' \<longrightarrow> busy_job j)"

lemma calmer_owner: "calmer j j' \<Longrightarrow> xj_owner j' = xj_owner j"
  by (simp add: calmer_def request_of_def)

lemma calmer_maps:
  assumes "\<And>j. j \<in> set js \<Longrightarrow> calmer j (f j)"
  shows "map xj_id (map f js) = map xj_id js"
    and "distinct (map request_of (filter live_job js)) \<Longrightarrow> distinct (map request_of (filter live_job (map f js)))"
    and "occupied u (map f js) \<le> occupied u js"
proof -
  show "map xj_id (map f js) = map xj_id js" using assms by (simp add: calmer_def)
  have sub: "request_of ` set (filter live_job (map f js)) \<subseteq> request_of ` set (filter live_job js)"
    if "\<And>j. j \<in> set js \<Longrightarrow> calmer j (f j)" for js using that by (fastforce simp: calmer_def)
  show "distinct (map request_of (filter live_job (map f js)))" if "distinct (map request_of (filter live_job js))"
    using that assms
  proof (induction js)
    case (Cons j js)
    have "calmer j (f j)" using Cons.prems(2) by simp
    moreover have "request_of j \<notin> request_of ` set (filter live_job (map f js))" if "live_job j"
      using Cons.prems that sub [of js] by auto
    ultimately show ?case using Cons by (auto simp: calmer_def split: if_splits)
  qed simp
  show "occupied u (map f js) \<le> occupied u js" using assms
  proof (induction js)
    case (Cons j js)
    then have "calmer j (f j)" "occupied u (map f js) \<le> occupied u js" by simp_all
    then show ?case using calmer_owner [of j "f j"] by (auto simp: occupied_def calmer_def)
  qed (simp add: occupied_def)
qed

lemma jobs_map_ok:
  assumes "jobs_ok shaf s" and "\<And>j. j \<in> set (st_jobs s) \<Longrightarrow> calmer j (f j) \<and> job_sound shaf (st_now s) (st_objs s) (f j)"
  shows "jobs_ok shaf (s\<lparr>st_jobs := map f (st_jobs s)\<rparr>)"
proof -
  have c: "\<And>j. j \<in> set (st_jobs s) \<Longrightarrow> calmer j (f j)" using assms(2) by blast
  note maps = calmer_maps [of "st_jobs s" f, OF c]
  have "occupied u (map f (st_jobs s)) \<le> EXPORT_MAX_LIVE_PER_USER" for u
    using maps(3) [of u] assms(1) le_trans unfolding jobs_ok_def by blast
  then show ?thesis using assms maps(1,2) by (simp add: jobs_ok_def del: map_map)
qed

lemma find_job_mem: "find_job i s = Some j \<Longrightarrow> j \<in> set (st_jobs s) \<and> xj_id j = i"
  by (auto simp: find_job_def find_Some_iff)

lemma find_job_unique: "jobs_ok shaf s \<Longrightarrow> find_job i s = Some j \<Longrightarrow> x \<in> set (st_jobs s) \<Longrightarrow> xj_id x = i \<Longrightarrow> x = j"
  using find_job_mem [of i s j] by (auto simp: jobs_ok_def distinct_map inj_on_def)

lemma put_job_ok:
  assumes "jobs_ok shaf s" and "find_job i s = Some j" and "calmer j j'" and "job_sound shaf (st_now s) (st_objs s) j'"
  shows "jobs_ok shaf (put_job i j' s)"
  unfolding put_job_def
  by (rule jobs_map_ok [OF assms(1)])
     (use assms find_job_unique [OF assms(1,2)] in \<open>auto simp: jobs_ok_def calmer_def\<close>)

lemma put_job_frame [simp]:
  "st_objs (put_job i j s) = st_objs s" "st_now (put_job i j s) = st_now s" "st_sched (put_job i j s) = st_sched s"
  "st_checks (put_job i j s) = st_checks s"
  "studio_ok shaf (put_job i j s) = studio_ok shaf s"
  by (simp_all add: put_job_def studio_ok_def)

lemma find_map_upd:
  "find (\<lambda>j. xj_id j = i) js = Some j \<Longrightarrow> xj_id j' = i \<Longrightarrow>
     find (\<lambda>j. xj_id j = i) (map (\<lambda>j. if xj_id j = i then j' else j) js) = Some j'"
  by (induction js) (auto split: if_splits)

lemma find_put_job: "find_job i s = Some j \<Longrightarrow> xj_id j' = i \<Longrightarrow> find_job i (put_job i j' s) = Some j'"
  by (simp add: find_job_def put_job_def find_map_upd)

section \<open>Objects of exports\<close>

lemma split_export_key: "split_on (CHR ''/'') (export_key i f) = ''exports'' # uuid_str i # split_on (CHR ''/'') f"
  by (simp add: export_key_def split_on_first uuid_str_no_slash)

lemma export_key_inj [simp]: "export_key i f = export_key j g \<longleftrightarrow> i = j \<and> f = g"
proof
  assume eq: "export_key i f = export_key j g"
  then have "uuid_str i = uuid_str j" using split_export_key [of i f] split_export_key [of j g] by simp
  then have "i = j" by (metis option.inject parse_uuid_str)
  with eq show "i = j \<and> f = g" by (simp add: export_key_def)
qed simp

lemma export_key_not_video: "starts_with ''exports/'' key \<Longrightarrow> key \<noteq> video_object_key i"
  by (auto simp: starts_with_def video_object_key_def)

lemma wp_txn_read:
  "Q (v (st_pop s)) (st_pop s) \<Longrightarrow> E DbError (st_pop s) \<Longrightarrow> wp (txn (\<lambda>s. (Inr (v s), s))) Q E s"
  by (rule wp_txn) (simp_all add: wp_def)

lemma export_key_prefix [simp]: "starts_with ''exports/'' (export_key i f)"
  by (simp add: starts_with_def export_key_def)

text \<open>No ready job that is not over announces the key.\<close>

definition unannounced :: "string \<Rightarrow> studio \<Rightarrow> bool" where
  "unannounced key s \<longleftrightarrow> starts_with ''exports/'' key \<and>
     (\<forall>j \<in> set (st_jobs s). xj_status j = ''ready'' \<longrightarrow> past (st_now s) (xj_expires j) \<or> xj_object j \<noteq> Some key)"

lemma exports_object_change:
  assumes "exports_ok shaf s" and "unannounced key s"
  shows "exports_ok shaf (s\<lparr>st_objs := (st_objs s)(key := ob)\<rparr>)"
proof -
  have "studio_ok shaf (s\<lparr>st_objs := (st_objs s)(key := ob)\<rparr>)"
    by (rule object_change) (use assms export_key_not_video [of key] in \<open>auto simp: exports_ok_def unannounced_def dest: sym\<close>)
  moreover have "job_sound shaf (st_now s) ((st_objs s)(key := ob)) j" if "j \<in> set (st_jobs s)" for j
  proof -
    have "job_sound shaf (st_now s) (st_objs s) j" using that assms(1) by (simp add: exports_ok_def jobs_ok_def)
    then show ?thesis using assms(2) that
      by (auto simp: job_sound_def stored_export_def unannounced_def split: option.splits)
  qed
  ultimately show ?thesis using assms(1) by (simp add: exports_ok_def jobs_ok_def)
qed

lemma unfinished_unannounced:
  assumes "exports_ok shaf s" and "unfinished i s"
  shows "unannounced (export_key i f) s"
  unfolding unannounced_def
proof (intro conjI ballI impI)
  fix j assume j: "j \<in> set (st_jobs s)" "xj_status j = ''ready''"
  then have "own_file j" "xj_id j \<noteq> i" using assms by (auto simp: exports_ok_def jobs_ok_def job_sound_def unfinished_def)
  then show "past (st_now s) (xj_expires j) \<or> xj_object j \<noteq> Some (export_key i f)"
    by (auto simp: own_file_def split: option.splits)
qed simp

section \<open>Guarded updates\<close>

text \<open>What \<open>_set\<close> may do.\<close>

definition set_change :: "(int \<Rightarrow> export_job \<Rightarrow> export_job) \<Rightarrow> int \<Rightarrow> export_job \<Rightarrow> export_job" where
  "set_change f now j = (f now j)\<lparr>xj_updated := now\<rparr>"

definition set_step :: "uuid \<Rightarrow> string list \<Rightarrow> (int \<Rightarrow> export_job \<Rightarrow> export_job) \<Rightarrow> studio \<Rightarrow> studio \<Rightarrow> bool" where
  "set_step i allowed f s s' \<longleftrightarrow> (\<exists>j. find_job i s = Some j \<and> xj_status j \<in> set allowed \<and>
     (st_checks s \<longrightarrow> job_checks (set_change f (st_now s) j)) \<and> s' = put_job i (set_change f (st_now s) j) (st_pop s))"

lemma find_job_pop [simp]: "find_job i (st_pop s) = find_job i s"
  by (simp add: find_job_def)

lemma wp_job_set:
  "wp (job_set i allowed f) (\<lambda>updated s'. if updated then set_step i allowed f s s' else s' = st_pop s)
     (\<lambda>_ s'. s' = st_pop s \<or> set_step i allowed f s s') s"
  unfolding job_set_def
  by (rule wp_txn) (auto simp: wp_def set_step_def set_change_def Let_def split: option.split)

lemma set_step_ok:
  assumes "exports_ok shaf s" and "set_step i allowed f s s'"
    and good: "\<And>j. find_job i s = Some j \<Longrightarrow> job_sound shaf (st_now s) (st_objs s) j \<Longrightarrow> xj_status j \<in> set allowed \<Longrightarrow>
      job_checks (set_change f (st_now s) j) \<Longrightarrow>
      calmer j (set_change f (st_now s) j) \<and> job_sound shaf (st_now s) (st_objs s) (set_change f (st_now s) j)"
  shows "exports_ok shaf s'"
proof -
  obtain j where j: "find_job i s = Some j" "xj_status j \<in> set allowed" "job_checks (set_change f (st_now s) j)"
    "s' = put_job i (set_change f (st_now s) j) (st_pop s)" using assms(1,2) by (auto simp: set_step_def exports_ok_def)
  have "job_sound shaf (st_now s) (st_objs s) j"
    using find_job_mem [OF j(1)] assms(1) by (simp add: exports_ok_def jobs_ok_def)
  note new = good [OF j(1) this j(2,3)]
  have "jobs_ok shaf (st_pop s)" using assms(1) by (simp add: exports_ok_def jobs_ok_def)
  then have "jobs_ok shaf s'" unfolding j(4) by (rule put_job_ok [of _ _ _ j]) (use j(1) new in simp_all)
  then show ?thesis using assms(1) by (simp add: exports_ok_def j(4))
qed

lemma exports_ok_pop [simp]: "exports_ok shaf (st_pop s) = exports_ok shaf s"
  by (rule reads_fields) simp

lemma jobs_ok_pop [simp]: "jobs_ok shaf (st_pop s) = jobs_ok shaf s"
  by (rule reads_fields) simp

lemma unfinished_pop [simp]: "unfinished i (st_pop s) = unfinished i s"
  by (rule reads_fields) simp

text \<open>The updates of the service that do not announce a file.\<close>

lemmas job_changes = set_change_def calmer_def request_of_def live_job_def busy_job_def LIVE_def job_sound_def

lemma wp_job_set_plain:
  assumes "exports_ok shaf s"
    and "\<And>j. xj_status j \<in> set allowed \<Longrightarrow> job_sound shaf (st_now s) (st_objs s) j \<Longrightarrow> job_checks (set_change f (st_now s) j) \<Longrightarrow>
      calmer j (set_change f (st_now s) j) \<and> xj_attempts (f (st_now s) j) = xj_attempts j \<and> xj_status (f (st_now s) j) \<noteq> ''ready''"
  shows "wp (job_set i allowed f) (\<lambda>_ s'. exports_ok shaf s' \<and> (unfinished i s \<longrightarrow> unfinished i s'))
     (\<lambda>_ s'. exports_ok shaf s' \<and> (unfinished i s \<longrightarrow> unfinished i s')) s"
proof -
  have step: "exports_ok shaf s' \<and> unfinished i s'" if st: "set_step i allowed f s s'" for s'
  proof
    show "exports_ok shaf s'"
      by (rule set_step_ok [OF assms(1) st]) (use assms(2) in \<open>auto simp: job_sound_def set_change_def\<close>)
    obtain j where j: "find_job i s = Some j" "xj_status j \<in> set allowed" "job_checks (set_change f (st_now s) j)"
      "s' = put_job i (set_change f (st_now s) j) (st_pop s)" using st assms(1) by (auto simp: set_step_def exports_ok_def)
    have "job_sound shaf (st_now s) (st_objs s) j"
      using find_job_mem [OF j(1)] assms(1) by (simp add: exports_ok_def jobs_ok_def)
    then show "unfinished i s'" using assms(2) [OF j(2) _ j(3)] j(4) by (auto simp: unfinished_def put_job_def set_change_def)
  qed
  show ?thesis by (rule wp_mono [OF wp_job_set]) (use step assms(1) in \<open>auto split: if_splits\<close>)
qed

section \<open>Creation\<close>

text \<open>The row \<open>create\<close> inserts.\<close>

definition new_job :: "export_job \<Rightarrow> bool" where
  "new_job j \<longleftrightarrow> xj_status j = ''pending'' \<and> xj_attempts j = 0"

lemma expire_stale_id [simp]: "xj_id (expire_stale u k t j) = xj_id j"
  by (simp add: expire_stale_def)

lemma expire_stale_ok:
  assumes "jobs_ok shaf s"
  shows "jobs_ok shaf (s\<lparr>st_jobs := map (expire_stale u k (st_now s)) (st_jobs s)\<rparr>)"
proof (rule jobs_map_ok [OF assms])
  fix j assume "j \<in> set (st_jobs s)"
  then have "job_sound shaf (st_now s) (st_objs s) j" using assms by (simp add: jobs_ok_def)
  then show "calmer j (expire_stale u k (st_now s) j) \<and> job_sound shaf (st_now s) (st_objs s) (expire_stale u k (st_now s) j)"
    by (auto simp: expire_stale_def job_changes job_checks_def)
qed

lemma append_job_ok:
  assumes ok: "jobs_ok shaf s" and new: "new_job new" "job_checks new"
    and fresh: "\<not> list_ex (\<lambda>j. xj_id j = xj_id new) (st_jobs s)"
    and alone: "filter (\<lambda>j. same_request (xj_owner new) (xj_request new) j \<and> live_job j) (st_jobs s) = []"
    and room: "occupied (xj_owner new) (st_jobs s) < EXPORT_MAX_LIVE_PER_USER"
  shows "jobs_ok shaf (s\<lparr>st_jobs := st_jobs s @ [new]\<rparr>)"
proof -
  have "xj_id new \<notin> xj_id ` set (st_jobs s)" using fresh by (auto simp: list_ex_iff)
  moreover have "request_of new \<notin> request_of ` set (filter live_job (st_jobs s))"
    using alone by (auto simp: filter_empty_conv same_request_def request_of_def)
  moreover have "occupied u (st_jobs s @ [new]) \<le> EXPORT_MAX_LIVE_PER_USER" for u
    using room ok by (cases "u = xj_owner new") (auto simp: occupied_def jobs_ok_def)
  moreover have "job_sound shaf (st_now s) (st_objs s) new" using new by (simp add: new_job_def job_sound_def)
  ultimately show ?thesis using ok by (simp add: jobs_ok_def)
qed

lemma wp_create_txn:
  assumes ok: "exports_ok shaf s" and new: "new_job new"
  shows "wp (create_txn new) (\<lambda>(j, created) s'. exports_ok shaf s' \<and> j \<in> set (st_jobs s') \<and> live_job j \<and>
      same_request (xj_owner new) (xj_request new) j \<and> (if created then j = new else xj_id j \<in> xj_id ` set (st_jobs s)))
    (\<lambda>_ s'. s' = s) s"
proof -
  let ?js = "map (expire_stale (xj_owner new) (xj_request new) (st_now s)) (st_jobs s)" and ?s1 = "s\<lparr>st_jobs := map (expire_stale (xj_owner new) (xj_request new) (st_now s)) (st_jobs s)\<rparr>"
  have s1: "exports_ok shaf ?s1" using ok expire_stale_ok [of shaf s] by (simp add: exports_ok_def)
  let ?hits = "filter (\<lambda>j. same_request (xj_owner new) (xj_request new) j \<and> live_job j) ?js"
  have ids: "xj_id ` set ?js = xj_id ` set (st_jobs s)" by (simp add: image_image)
  show ?thesis
  proof (cases ?hits)
    case Nil
    have add: "exports_ok shaf (?s1\<lparr>st_jobs := ?js @ [new]\<rparr>)"
      if "\<not> EXPORT_MAX_LIVE_PER_USER \<le> length (filter (\<lambda>j. xj_owner j = xj_owner new \<and> busy_job j) ?js)" "job_checks new"
        "\<not> list_ex (\<lambda>j. xj_id j = xj_id new) ?js"
      using append_job_ok [of shaf ?s1 new] s1 that Nil new by (simp add: exports_ok_def occupied_def)
    moreover have "st_checks s" using ok by (simp add: exports_ok_def)
    ultimately show ?thesis using Nil new
      by (auto simp: create_txn_def Let_def wp_def new_job_def live_job_def LIVE_def same_request_def simp del: filter_map)
  next
    case (Cons j rest)
    then have "j \<in> set ?hits" by simp
    then have j: "j \<in> set ?js" "same_request (xj_owner new) (xj_request new) j" "live_job j" by auto
    then have "xj_id j \<in> xj_id ` set (st_jobs s)" using ids by blast
    then show ?thesis using Cons j s1 by (cases rest) (simp_all add: create_txn_def Let_def wp_def)
  qed
qed

section \<open>Claim and publication\<close>

lemma wp_job_claim:
  assumes "exports_ok shaf s"
  shows "wp (job_claim i) (\<lambda>claimed s'. exports_ok shaf s' \<and> (case claimed of None \<Rightarrow> True | Some j \<Rightarrow> xj_id j = i \<and> unfinished i s'))
    (\<lambda>_ s'. exports_ok shaf s') s"
  unfolding job_claim_def
proof (rule wp_txn_inv)
  show "exports_ok shaf (st_pop s)" using assms by simp
  have "exports_ok shaf (put_job i (claim_change t j) (st_pop s)) \<and> xj_id (claim_change t j) = i \<and> unfinished i (put_job i (claim_change t j) (st_pop s))"
    if j: "find_job i s = Some j" "busy_job j" "xj_attempts j < EXPORT_MAX_ATTEMPTS" for t j
  proof -
    have "job_sound shaf (st_now s) (st_objs s) j" using find_job_mem [OF j(1)] assms by (simp add: exports_ok_def jobs_ok_def)
    then have "job_sound shaf (st_now s) (st_objs s) (claim_change t j)" "calmer j (claim_change t j)"
      using j(2,3) by (auto simp: claim_change_def job_changes job_checks_def)
    then have "jobs_ok shaf (put_job i (claim_change t j) (st_pop s))"
      using put_job_ok [of shaf "st_pop s" i j] assms j(1) by (simp add: exports_ok_def)
    then show ?thesis using assms find_job_mem [OF j(1)]
      by (auto simp: exports_ok_def unfinished_def put_job_def claim_change_def)
  qed
  then show "wp (\<lambda>s. case find_job i s of None \<Rightarrow> (Inr None, s)
      | Some j \<Rightarrow> if busy_job j \<and> xj_attempts j < EXPORT_MAX_ATTEMPTS \<and> lease_free (st_now s) j
          then (Inr (Some (claim_change (st_now s) j)), put_job i (claim_change (st_now s) j) s) else (Inr None, s))
      (\<lambda>a s'. exports_ok shaf s' \<and> (case a of None \<Rightarrow> True | Some j \<Rightarrow> xj_id j = i \<and> unfinished i s')) (\<lambda>_. exports_ok shaf) (st_pop s)"
    using assms by (auto simp: wp_def split: option.split)
qed

text \<open>A file that is stored under the key of an unfinished job can be announced.\<close>

lemma announce_ok:
  assumes "exports_ok shaf s" and "st_objs s (export_key i f) = Some ob" and "so_type ob = ctype"
    and "set_step i [''processing''] (ready_job (export_key i f) f ctype (length (so_bytes ob)) (shaf (so_bytes ob)) n) s s'"
  shows "exports_ok shaf s'"
proof (rule set_step_ok [OF assms(1,4)])
  fix j assume j: "find_job i s = Some j" "job_sound shaf (st_now s) (st_objs s) j" "xj_status j \<in> set [''processing'']"
    "job_checks (set_change (ready_job (export_key i f) f ctype (length (so_bytes ob)) (shaf (so_bytes ob)) n) (st_now s) j)"
  have "xj_id j = i" using find_job_mem [OF j(1)] by simp
  then show "calmer j (set_change (ready_job (export_key i f) f ctype (length (so_bytes ob)) (shaf (so_bytes ob)) n) (st_now s) j) \<and>
      job_sound shaf (st_now s) (st_objs s) (set_change (ready_job (export_key i f) f ctype (length (so_bytes ob)) (shaf (so_bytes ob)) n) (st_now s) j)"
    using j(2,3,4) assms(2,3)
    by (auto simp: job_changes ready_job_def own_file_def stored_export_def)
qed

lemma wp_publish:
  assumes "exports_ok (tl_shaf T) s" and "unfinished i s"
  shows "wp (publish_job T i n file') (\<lambda>_ s'. exports_ok (tl_shaf T) s') (\<lambda>_ s'. exports_ok (tl_shaf T) s') s"
proof -
  obtain bytes f ctype where out: "file' = (bytes, f, ctype)" by (cases file') auto
  let ?key = "export_key i f" and ?ok = "exports_ok (tl_shaf T)"
  let ?s1 = "put_object ?key bytes ctype (st_pop s)"
  have put: "?ok ?s1" "unfinished i ?s1" "st_objs ?s1 ?key = Some \<lparr>so_bytes = bytes, so_type = ctype, so_modified = st_now s\<rparr>"
    using exports_object_change [of "tl_shaf T" "st_pop s" ?key] unfinished_unannounced [of "tl_shaf T" "st_pop s" i f] assms
    by (simp_all add: put_object_def unfinished_def)
  have unput: "?ok (t\<lparr>st_objs := (st_objs t)(?key := None)\<rparr>)" if "?ok t" "unfinished i t" for t
    using exports_object_change [OF that(1) unfinished_unannounced [OF that]] .
  have delete: "wp (store_delete ?key) (\<lambda>_ s'. ?ok s') (\<lambda>_ s'. ?ok s') t" if "?ok t" "unfinished i t" for t
    by (rule wp_mono [OF wp_store_delete]) (use that unput [of "st_pop t"] in auto)
  let ?set = "job_set i [''processing''] (ready_job ?key f ctype (length bytes) (tl_shaf T bytes) n)"
  have last: "wp (bnd ?set (\<lambda>updated. if updated then ret () else store_delete ?key)) (\<lambda>_ s'. ?ok s') (\<lambda>_ s'. ?ok s') t"
    if t: "?ok t" "unfinished i t" "st_objs t ?key = Some \<lparr>so_bytes = bytes, so_type = ctype, so_modified = m\<rparr>" for t m
    unfolding wp_bnd
  proof (rule wp_mono [OF wp_job_set], goal_cases)
    case (1 updated s')
    then show ?case using announce_ok [OF t(1,3)] delete [of "st_pop t"] t by (cases updated) (auto simp: wp_ret)
  next
    case (2 e s')
    then show ?case using announce_ok [OF t(1,3)] t by auto
  qed
  have stat: "wp (bnd (store_stat ?key) (\<lambda>stored. if stored \<noteq> Some (length bytes) then raise StorageError
      else bnd ?set (\<lambda>updated. if updated then ret () else store_delete ?key))) (\<lambda>_ s'. ?ok s') (\<lambda>_ s'. ?ok s')
      ?s1"
    unfolding wp_bnd [of "store_stat _"]
    by (rule wp_mono [OF wp_store_stat]) (use put in \<open>auto simp: wp_raise intro!: last\<close>)
  show ?thesis unfolding out publish_job_def prod.case Let_def
  proof (cases "EXPORT_MAX_ARCHIVE_BYTES < length bytes")
    case False
    then show "wp (if EXPORT_MAX_ARCHIVE_BYTES < length bytes then raise ExportTooLarge
        else bnd (store_put ?key bytes ctype) (\<lambda>_. bnd (store_stat ?key) (\<lambda>stored.
          if stored \<noteq> Some (length bytes) then raise StorageError
          else bnd ?set (\<lambda>updated. if updated then ret () else store_delete ?key)))) (\<lambda>_ s'. ?ok s') (\<lambda>_ s'. ?ok s') s"
      unfolding if_not_P [OF False] wp_bnd [of "store_put _ _ _"]
      by (intro wp_mono [OF wp_store_put]) (use stat put assms in auto)
  qed (simp add: wp_raise assms)
qed

section \<open>Processing\<close>

lemma wp_job_fail:
  assumes "exports_ok shaf s"
  shows "wp (job_fail i code) (\<lambda>_ s'. exports_ok shaf s') (\<lambda>_ s'. exports_ok shaf s') s"
  unfolding job_fail_def wp_bnd wp_ret
  by (rule wp_mono [OF wp_job_set_plain [OF assms]]) (auto simp: job_changes failed_job_def)

lemma wp_after_failure:
  assumes "exports_ok shaf s"
  shows "wp (after_failure job e) (\<lambda>_ s'. exports_ok shaf s') (\<lambda>_ s'. exports_ok shaf s') s"
proof -
  have pause: "wp (bnd (job_set (xj_id job) [''processing''] pause_job) (\<lambda>_. ret ())) (\<lambda>_ s'. exports_ok shaf s') (\<lambda>_ s'. exports_ok shaf s') s"
    unfolding wp_bnd wp_ret
    by (rule wp_mono [OF wp_job_set_plain [OF assms]]) (auto simp: job_changes pause_job_def)
  show ?thesis unfolding after_failure_def
    by (cases e) (use pause wp_job_fail [OF assms] in auto)
qed

lemma keeps_report: "keeps (\<lambda>s. exports_ok shaf s \<and> unfinished i s) (report_progress i a b)"
  unfolding report_progress_def
proof (rule keeps_other)
  fix s assume "exports_ok shaf s \<and> unfinished i s"
  then show "wp (bnd (job_set i [''processing''] (\<lambda>now j. j\<lparr>xj_done := a, xj_total := b\<rparr>)) (\<lambda>_. ret ()))
      (\<lambda>_ s. exports_ok shaf s \<and> unfinished i s) (\<lambda>_ s. exports_ok shaf s \<and> unfinished i s) s"
    unfolding wp_bnd wp_ret
    by (intro wp_mono [OF wp_job_set_plain]) (auto simp: job_changes)
qed

lemma wp_work_on:
  assumes "exports_ok (tl_shaf T) s" and "unfinished (xj_id job) s"
  shows "wp (work_on T job) (\<lambda>_ p. exports_ok (tl_shaf T) (snd p)) (\<lambda>_ p. exports_ok (tl_shaf T) (snd p)) (w, s)"
  unfolding work_on_def wp_attempt
proof (rule wp_mono)
  show "wp (produce T job) (\<lambda>_ p. exports_ok (tl_shaf T) (snd p)) (\<lambda>_ p. exports_ok (tl_shaf T) (snd p)) (w, s)"
  proof (rule wp_produce [where I = "\<lambda>s. exports_ok (tl_shaf T) s \<and> unfinished (xj_id job) s"])
    show "stable (\<lambda>s. exports_ok (tl_shaf T) s \<and> unfinished (xj_id job) s)" by (auto simp: stable_def dest: reads_fields)
  qed (use assms in \<open>auto intro: keeps_report wp_publish\<close>)
qed (auto simp: split_paired_all wp_on_other intro: wp_after_failure)

lemma keeps_process: "keeps (exports_ok (tl_shaf T)) (process_job T i)"
  unfolding keeps_def process_job_def
proof (intro allI impI)
  fix w s assume ok: "exports_ok (tl_shaf T) s"
  show "wp (bnd (on_other (job_claim i)) (\<lambda>claimed. case claimed of None \<Rightarrow> ret () | Some job \<Rightarrow> work_on T job))
      (\<lambda>_ p. exports_ok (tl_shaf T) (snd p)) (\<lambda>_ p. exports_ok (tl_shaf T) (snd p)) (w, s)"
    unfolding wp_bnd wp_on_other
    by (rule wp_mono [OF wp_job_claim [OF ok]]) (auto simp: wp_ret intro: wp_work_on split: option.split)
qed

lemma stable_exports: "stable (exports_ok shaf)"
  by (auto simp: stable_def dest: reads_fields)

lemma wp_fail_exhausted: "exports_ok shaf s \<Longrightarrow> wp fail_exhausted (\<lambda>_. exports_ok shaf) (\<lambda>_. exports_ok shaf) s"
  unfolding fail_exhausted_def
proof (rule wp_txn_step)
  assume ok: "exports_ok shaf s"
  let ?f = "\<lambda>t j. if busy_job j \<and> EXPORT_MAX_ATTEMPTS \<le> xj_attempts j \<and> lease_free t j
     then (failed_job ''export_error'' t j)\<lparr>xj_updated := t\<rparr> else j"
  have "jobs_ok shaf (st_pop s\<lparr>st_jobs := map (?f (st_now (st_pop s))) (st_jobs (st_pop s))\<rparr>)"
  proof (rule jobs_map_ok)
    fix j assume "j \<in> set (st_jobs (st_pop s))"
    then have "job_sound shaf (st_now s) (st_objs s) j" using ok by (simp add: exports_ok_def jobs_ok_def)
    then show "calmer j (?f (st_now (st_pop s)) j) \<and> job_sound shaf (st_now (st_pop s)) (st_objs (st_pop s)) (?f (st_now (st_pop s)) j)"
      by (auto simp: job_changes failed_job_def job_checks_def fits_def)
  qed (use ok in \<open>simp add: exports_ok_def\<close>)
  then show "exports_ok shaf (st_pop s\<lparr>st_jobs := map (?f (st_now (st_pop s))) (st_jobs (st_pop s))\<rparr>)"
    using ok by (simp add: exports_ok_def)
qed simp

lemma keeps_fail_exhausted: "keeps (exports_ok shaf) (on_other fail_exhausted)"
  by (rule keeps_other, rule wp_fail_exhausted)

lemma keeps_waiting: "keeps (exports_ok shaf) (on_other waiting_jobs)"
  unfolding waiting_jobs_def by (intro keeps_reading stable_exports reading_txn)

lemma keeps_run_once: "keeps (exports_ok (tl_shaf T)) (jobs_run_once T)"
  unfolding jobs_run_once_def
  by (intro keeps_bnd keeps_fold keeps_process keeps_simple keeps_waiting keeps_fail_exhausted)

section \<open>Retention\<close>

lemma due_unannounced:
  assumes "exports_ok shaf s" and "j \<in> set (st_jobs s)" and "xj_status j = ''ready''" and "past (st_now s) (xj_expires j)"
    and "xj_object j = Some k"
  shows "unannounced k s"
proof -
  have own: "own_file x" if "x \<in> set (st_jobs s)" "xj_status x = ''ready''" for x
    using that assms(1) by (auto simp: exports_ok_def jobs_ok_def job_sound_def)
  obtain f where k: "k = export_key (xj_id j) f" using own [OF assms(2,3)] assms(5) by (auto simp: own_file_def split: option.splits)
  have "x = j" if "x \<in> set (st_jobs s)" "xj_status x = ''ready''" "xj_object x = Some k" for x
  proof -
    have "xj_id x = xj_id j" using own [OF that(1,2)] that(3) k by (auto simp: own_file_def split: option.splits)
    then show ?thesis using assms(1,2) that(1) by (auto simp: exports_ok_def jobs_ok_def distinct_map inj_on_def)
  qed
  then show ?thesis using assms(4) k by (auto simp: unannounced_def)
qed

definition sweeping :: "(byte list \<Rightarrow> string) \<Rightarrow> (uuid \<times> string option) list \<Rightarrow> studio \<Rightarrow> bool" where
  "sweeping shaf due s \<longleftrightarrow> exports_ok shaf s \<and> list_all (\<lambda>(i, key). case nonempty key of None \<Rightarrow> True | Some k \<Rightarrow> unannounced k s) due"

lemma unannounced_pop [simp]: "unannounced k (st_pop s) = unannounced k s"
  by (simp add: unannounced_def)

lemma sweeping_pop [simp]: "sweeping shaf due (st_pop s) = sweeping shaf due s"
  by (simp only: sweeping_def exports_ok_pop unannounced_pop)

lemma sweeping_step:
  assumes "sweeping shaf due s" and "exports_ok shaf s'" and "\<And>k. unannounced k s \<Longrightarrow> unannounced k s'"
  shows "sweeping shaf due s'"
  using assms by (auto simp: sweeping_def list_all_iff split: option.splits)

lemma expire_step:
  assumes "sweeping shaf due s" and "set_step i [''ready''] (\<lambda>now j. j\<lparr>xj_status := ''expired'', xj_object := None\<rparr>) s s'"
  shows "sweeping shaf due s'"
proof (rule sweeping_step [OF assms(1)])
  show "exports_ok shaf s'"
    by (rule set_step_ok [OF _ assms(2)]) (use assms(1) in \<open>auto simp: job_changes sweeping_def\<close>)
  show "unannounced k s'" if "unannounced k s" for k
    using that assms(2) by (auto simp: set_step_def unannounced_def put_job_def set_change_def)
qed

lemma wp_expire_job:
  assumes "sweeping shaf due s" and "x \<in> set due"
  shows "wp (expire_job x n) (\<lambda>_. sweeping shaf due) (\<lambda>_. sweeping shaf due) s"
proof -
  obtain i key where x: "x = (i, key)" by (cases x)
  let ?I = "sweeping shaf due"
  have set: "wp (bnd (job_set i [''ready''] (\<lambda>now j. j\<lparr>xj_status := ''expired'', xj_object := None\<rparr>)) (\<lambda>updated.
      ret (if updated then n + 1 else n))) (\<lambda>_. ?I) (\<lambda>_. ?I) t" if "?I t" for t
    unfolding wp_bnd wp_ret
    by (rule wp_mono [OF wp_job_set]) (use that expire_step [OF that] in \<open>auto split: if_splits\<close>)
  show ?thesis
  proof (cases "nonempty key")
    case None
    then show ?thesis using set [OF assms(1)] by (simp add: x expire_job_def wp_bnd wp_ret)
  next
    case (Some k)
    then have "unannounced k (st_pop s)" using assms by (auto simp: x sweeping_def list_all_iff)
    then have "exports_ok shaf (st_pop s\<lparr>st_objs := (st_objs (st_pop s))(k := None)\<rparr>)"
      by (intro exports_object_change) (use assms(1) in \<open>auto simp: sweeping_def\<close>)
    then have "?I (st_pop s\<lparr>st_objs := (st_objs s)(k := None)\<rparr>)"
      by (intro sweeping_step [OF assms(1)]) (auto simp: unannounced_def)
    then show ?thesis using assms(1) unfolding x expire_job_def prod.case Some option.case wp_bnd [of "store_delete _"]
      by (intro wp_mono [OF wp_store_delete]) (auto intro: set)
  qed
qed

lemma occupied_filter: "occupied u (filter P js) \<le> occupied u js"
  by (induction js) (auto simp: occupied_def)

lemma prune_ok:
  assumes "jobs_ok shaf s"
  shows "jobs_ok shaf (s\<lparr>st_jobs := filter P (st_jobs s)\<rparr>)"
proof -
  have "occupied u (filter P (st_jobs s)) \<le> EXPORT_MAX_LIVE_PER_USER" for u
    using occupied_filter [of u P "st_jobs s"] assms le_trans unfolding jobs_ok_def by blast
  moreover have "filter live_job (filter P (st_jobs s)) = filter P (filter live_job (st_jobs s))" by (simp add: conj_commute)
  ultimately show ?thesis using assms by (auto simp: jobs_ok_def distinct_map_filter intro: le_trans simp del: filter_filter)
qed

lemma orphan_unannounced:
  assumes "exports_ok shaf s" and "starts_with ''exports/'' key" and "parse_uuid (split_on (CHR ''/'') key ! 1) = Some i"
    and "map_option xj_status (find_job i s) \<notin> {Some ''ready'', Some ''processing''}"
  shows "unannounced key s"
  unfolding unannounced_def
proof (intro conjI ballI impI disjI2 notI)
  fix j assume j: "j \<in> set (st_jobs s)" "xj_status j = ''ready''" "xj_object j = Some key"
  then have "own_file j" using assms(1) by (auto simp: exports_ok_def jobs_ok_def job_sound_def)
  then obtain f where "key = export_key (xj_id j) f" using j(3) by (auto simp: own_file_def split: option.splits)
  then have "xj_id j = i" using assms(3) by (simp add: split_export_key parse_uuid_str)
  then obtain x where x: "find_job i s = Some x" using j(1) by (cases "find_job i s") (auto simp: find_job_def find_None_iff)
  then have "j = x" using assms(1) j(1) \<open>xj_id j = i\<close> by (auto simp: exports_ok_def intro: find_job_unique)
  then show False using assms(4) x j(2) by simp
qed (rule assms(2))

lemma wp_drop_orphan:
  assumes "exports_ok shaf s" and "starts_with ''exports/'' key"
  shows "wp (drop_orphan key n) (\<lambda>_. exports_ok shaf) (\<lambda>_. exports_ok shaf) s"
proof -
  have delete: "wp (bnd (txn (\<lambda>s. (Inr (map_option xj_status (find_job i s)), s))) (\<lambda>status.
      if status \<in> {Some ''ready'', Some ''processing''} then ret n else bnd (store_delete key) (\<lambda>_. ret (n + 1))))
      (\<lambda>_. exports_ok shaf) (\<lambda>_. exports_ok shaf) s" if i: "parse_uuid (split_on (CHR ''/'') key ! 1) = Some i" for i
  proof -
    have gone: "exports_ok shaf (st_pop t\<lparr>st_objs := (st_objs t)(key := None)\<rparr>)"
      if "exports_ok shaf t" "map_option xj_status (find_job i t) \<notin> {Some ''ready'', Some ''processing''}" for t
      using exports_object_change [of shaf "st_pop t" key None] orphan_unannounced [of shaf "st_pop t" key i] that assms(2) i by simp
    have del: "wp (if map_option xj_status (find_job i t) \<in> {Some ''ready'', Some ''processing''} then ret n
        else bnd (store_delete key) (\<lambda>_. ret (n + 1))) (\<lambda>_. exports_ok shaf) (\<lambda>_. exports_ok shaf) t" if t: "exports_ok shaf t" for t
    proof (cases "map_option xj_status (find_job i t) \<in> {Some ''ready'', Some ''processing''}")
      case False
      show ?thesis unfolding if_not_P [OF False] wp_bnd wp_ret
        by (rule wp_mono [OF wp_store_delete]) (use t gone [OF t False] in auto)
    qed (simp add: wp_ret t)
    show ?thesis unfolding wp_bnd [of "txn _"] by (rule wp_txn_read) (use del [of "st_pop s"] assms(1) in simp_all)
  qed
  show ?thesis unfolding drop_orphan_def
    by (auto simp: wp_bnd [of "getting _"] wp_getting wp_ret Let_def assms(1) intro: delete [simplified] split: option.split)
qed

lemma wp_jobs_cleanup:
  assumes "exports_ok shaf s"
  shows "wp (jobs_cleanup keys) (\<lambda>_. exports_ok shaf) (\<lambda>_. exports_ok shaf) s"
proof -
  have orphans: "wp (fold_prog drop_orphan (filter (starts_with ''exports/'') keys) 0) (\<lambda>_. exports_ok shaf) (\<lambda>_. exports_ok shaf) t"
    if "exports_ok shaf t" for t
    by (rule wp_fold_prog_inv) (use that wp_drop_orphan in auto)
  have prune: "wp prune_jobs (\<lambda>_. exports_ok shaf) (\<lambda>_. exports_ok shaf) t" if "exports_ok shaf t" for t
    unfolding prune_jobs_def
    by (rule wp_txn_step) (use that prune_ok [of shaf "st_pop t"] in \<open>auto simp: exports_ok_def\<close>)
  have rest: "wp (bnd (fold_prog expire_job due 0) (\<lambda>expired. bnd prune_jobs (\<lambda>pruned.
      bnd (fold_prog drop_orphan (filter (starts_with ''exports/'') keys) 0) (\<lambda>orphans. ret (expired, pruned, orphans)))))
      (\<lambda>_. exports_ok shaf) (\<lambda>_. exports_ok shaf) t" if t: "sweeping shaf due t" for due t
  proof -
    have "wp (fold_prog expire_job due 0) (\<lambda>_. sweeping shaf due) (\<lambda>_. sweeping shaf due) t"
      by (rule wp_fold_prog_inv) (use t wp_expire_job in auto)
    then show ?thesis unfolding wp_bnd wp_ret
      by (rule wp_mono) (auto intro!: wp_mono [OF prune] wp_mono [OF orphans] simp: sweeping_def)
  qed
  have due: "sweeping shaf (take 100 (map (\<lambda>j. (xj_id j, xj_object j))
     (filter (\<lambda>j. xj_status j = ''ready'' \<and> past (st_now s) (xj_expires j)) (st_jobs s)))) (st_pop s)"
    using assms due_unannounced [of shaf s] by (auto simp: sweeping_def list_all_iff nonempty_def dest!: set_takeD split: option.split if_splits)
  show ?thesis unfolding jobs_cleanup_def due_jobs_def wp_bnd [of "txn _"]
    by (rule wp_txn_read) (use rest [OF due] assms in simp_all)
qed

end
