(* ===== verification/Export_Api.thy ===== *)
theory Export_Api
  imports Export_Job_Laws
begin

text \<open>
  \<open>app/api/v1/exports.py\<close>: the export routes. The body of a request arrives with its types checked; the two closed sets of
  texts are checked here. A route answers, beside its view, the job it wakes in the background (\<open>process_job\<close>).
\<close>

record export_view =
  ev_id :: uuid
  ev_status :: string
  ev_conv :: uuid
  ev_scope :: string
  ev_format :: string
  ev_media :: bool
  ev_done :: nat
  ev_total :: nat
  ev_file :: "string option"
  ev_type :: "string option"
  ev_size :: "nat option"
  ev_expires :: "int option"
  ev_failure :: "string option"
  ev_message :: "string option"
  ev_created :: int
  ev_updated :: int
  ev_download :: bool

definition EXPORT_FAILURES :: "(string \<times> string) list" where
  "EXPORT_FAILURES =
     [(''source_missing'', ''The conversation no longer exists.''),
      (''too_large'', ''This export is too large. Try exporting a smaller part of the hierarchy.''),
      (''pdf_unavailable'', ''PDF export is not available on this server.''),
      (''export_error'', ''The export could not be completed. Please try again.'')]"

definition export_message :: "export_job \<Rightarrow> string option" where
  "export_message j =
     (if xj_status j = ''failed'' then
        Some (case map_of EXPORT_FAILURES (case xj_failure j of None \<Rightarrow> [] | Some c \<Rightarrow> c) of
          None \<Rightarrow> ''The export failed.'' | Some t \<Rightarrow> t)
      else if xj_status j = ''expired'' then Some ''This export has expired; create it again.'' else None)"

definition export_view_of :: "export_job \<Rightarrow> export_view" where
  "export_view_of j =
     (let ready = (xj_status j = ''ready'') in
      \<lparr>ev_id = xj_id j, ev_status = xj_status j, ev_conv = xj_conv j, ev_scope = xj_scope j, ev_format = xj_format j,
       ev_media = xj_media j, ev_done = xj_done j, ev_total = xj_total j, ev_file = (if ready then xj_file j else None),
       ev_type = (if ready then xj_type j else None), ev_size = (if ready then xj_size j else None), ev_expires = xj_expires j,
       ev_failure = (if xj_status j = ''failed'' then xj_failure j else None), ev_message = export_message j,
       ev_created = xj_created j, ev_updated = xj_updated j, ev_download = ready\<rparr>)"

section \<open>Routes\<close>

definition export_create_error :: "exn \<Rightarrow> exn" where
  "export_create_error e = (case e of
     SourceMissing \<Rightarrow> HTTPException 404 ''Conversation not found''
   | ExportTooLarge \<Rightarrow> HTTPException 422 ''too_large''
   | ExportLimitReached \<Rightarrow> HTTPException 429 ''too_many_exports''
   | _ \<Rightarrow> e)"

text \<open>The answer: the view, whether the job is new (202 or 200), the job to wake.\<close>

definition api_create_export ::
  "tools \<Rightarrow> uuid \<Rightarrow> uuid \<Rightarrow> uuid \<Rightarrow> string \<Rightarrow> string \<Rightarrow> bool \<Rightarrow> (export_view \<times> bool \<times> uuid option) export" where
  "api_create_export T job_id user cid scope fmt media =
     (if scope \<notin> set SCOPES \<or> fmt \<notin> set FORMATS then raise (HTTPException 422 ''Unprocessable Entity'')
      else
        bnd (on_world (owned_conversation user cid)) (\<lambda>_.
        bnd (attempt (job_create T job_id user cid scope fmt media) (\<lambda>e. raise (export_create_error e))) (\<lambda>(job, created).
        if created \<and> scope = ''conversation'' \<and> fmt = ''markdown'' then
          bnd (process_job T (xj_id job)) (\<lambda>_.
          bnd (on_other (job_get user (xj_id job))) (\<lambda>again.
          ret (export_view_of (case again of None \<Rightarrow> job | Some j \<Rightarrow> j), created, None)))
        else ret (export_view_of job, created, if busy_job job then Some (xj_id job) else None))))"

definition owned_export :: "uuid \<Rightarrow> uuid \<Rightarrow> (studio, export_job) prog" where
  "owned_export user i =
     bnd (job_get user i) (\<lambda>row. case row of
       None \<Rightarrow> raise (HTTPException 404 ''Export not found'') | Some j \<Rightarrow> ret j)"

text \<open>An export that is over, but not yet swept, is shown as expired.\<close>

definition api_get_export :: "uuid \<Rightarrow> uuid \<Rightarrow> (studio, export_view) prog" where
  "api_get_export user i =
     bnd (owned_export user i) (\<lambda>j.
     bnd (getting st_now) (\<lambda>now.
     ret (export_view_of (if xj_status j = ''ready'' \<and> past now (xj_expires j) then j\<lparr>xj_status := ''expired''\<rparr> else j))))"

record export_answer =
  ea_bytes :: "byte list"
  ea_length :: nat
  ea_file :: string
  ea_type :: string

definition or_text :: "string option \<Rightarrow> string \<Rightarrow> string" where
  "or_text t other = (case nonempty t of None \<Rightarrow> other | Some s \<Rightarrow> s)"

definition api_download_export :: "uuid \<Rightarrow> uuid \<Rightarrow> (studio, export_answer) prog" where
  "api_download_export user i =
     bnd (owned_export user i) (\<lambda>j.
     bnd (getting st_now) (\<lambda>now.
     if xj_status j \<noteq> ''ready'' \<or> nonempty (xj_object j) = None \<or> past now (xj_expires j)
     then raise (HTTPException 404 ''Export not available'')
     else
       (let key = the (xj_object j) in
        bnd (store_stat key) (\<lambda>info. case info of
          None \<Rightarrow> raise (HTTPException 404 ''Export not available'')
        | Some n \<Rightarrow>
            bnd (store_get key) (\<lambda>bytes.
            ret \<lparr>ea_bytes = bytes, ea_length = n, ea_file = or_text (xj_file j) ''export'',
              ea_type = or_text (xj_type j) ''application/octet-stream''\<rparr>)))))"

section \<open>Downloads\<close>

text \<open>The stored file of a job of the user that is ready and not expired, with the size and digest on record.\<close>

definition recorded_file :: "(byte list \<Rightarrow> string) \<Rightarrow> uuid \<Rightarrow> uuid \<Rightarrow> studio \<Rightarrow> export_answer \<Rightarrow> bool" where
  "recorded_file shaf user i s a \<longleftrightarrow> (\<exists>j \<in> set (st_jobs s). xj_id j = i \<and> xj_owner j = user \<and> xj_status j = ''ready'' \<and>
     \<not> past (st_now s) (xj_expires j) \<and> xj_size j = Some (length (ea_bytes a)) \<and> ea_length a = length (ea_bytes a) \<and>
     xj_sha j = Some (shaf (ea_bytes a)))"

lemma wp_owned_export:
  "wp (owned_export user i) (\<lambda>j s'. reads s s' \<and> j \<in> set (st_jobs s) \<and> xj_id j = i \<and> xj_owner j = user) (\<lambda>_ s'. reads s s') s"
  unfolding owned_export_def job_get_def wp_bnd
  by (rule wp_txn_read) (auto simp: wp_ret wp_raise find_Some_iff split: option.split)

text \<open>
  What a download hands out: the bytes of a job of the user that is ready and not expired, with the size and the digest on
  record. Any other request fails, and a download changes nothing.
\<close>

theorem download_serves_recorded:
  assumes "exports_ok shaf s"
  shows "wp (api_download_export user i) (\<lambda>a s'. recorded_file shaf user i s a \<and> reads s s') (\<lambda>_ s'. reads s s') s"
  unfolding api_download_export_def wp_bnd wp_getting
proof (rule wp_mono [OF wp_owned_export], goal_cases)
  case (1 j t)
  then have r: "reads s t" and j: "j \<in> set (st_jobs s)" "xj_id j = i" "xj_owner j = user" by auto
  note f = reads_fields [OF r]
  show ?case
  proof (cases "xj_status j \<noteq> ''ready'' \<or> nonempty (xj_object j) = None \<or> past (st_now t) (xj_expires j)")
    case False
    have "job_sound shaf (st_now s) (st_objs s) j" using j(1) assms by (simp add: exports_ok_def jobs_ok_def)
    then have "stored_export shaf (st_objs s) j" using False f(4) by (auto simp: job_sound_def)
    then obtain key ob where ob: "xj_object j = Some key" "st_objs s key = Some ob" "xj_size j = Some (length (so_bytes ob))"
      "xj_sha j = Some (shaf (so_bytes ob))" by (auto simp: stored_export_def split: option.splits)
    have "recorded_file shaf user i s \<lparr>ea_bytes = so_bytes ob, ea_length = length (so_bytes ob), ea_file = n, ea_type = t'\<rparr>" for n t'
      using False j ob f(4) by (auto simp: recorded_file_def)
    moreover have "reads s (st_pop t)" "reads s (st_pop (st_pop t))" using r reads_trans reads_pop by blast+
    ultimately show ?thesis using ob f(2)
      unfolding if_not_P [OF False] Let_def wp_bnd [of "store_stat _"]
      by (intro wp_mono [OF wp_store_stat]) (auto simp: wp_bnd wp_ret wp_raise intro!: wp_mono [OF wp_store_get])
  qed (use r in \<open>simp add: wp_raise\<close>)
qed

theorem download_serves_recorded_witness:
  "wp (api_download_export 2 1) (\<lambda>a s'. recorded_file (\<lambda>_. ''digest'') 2 1 empty_studio a \<and> reads empty_studio s')
     (\<lambda>_ s'. reads empty_studio s') empty_studio"
  by (rule download_serves_recorded) (rule empty_exports_ok)

end
