(* ===== verification/Export_Progress.thy ===== *)
theory Export_Progress
  imports Export_Api
begin

text \<open>
  Export jobs over time: attempts come to an end, a request over an unchanged source finds its job again, and a worker whose
  lease ran out removes the file of the worker that finished.
\<close>

section \<open>Attempts come to an end\<close>

definition lease_within :: "int \<Rightarrow> export_job \<Rightarrow> bool" where
  "lease_within now j \<longleftrightarrow> (case xj_lease j of None \<Rightarrow> True | Some t \<Rightarrow> t \<le> now + sec EXPORT_LEASE_SECONDS)"

text \<open>The row of the job: finished, or tried at least \<open>k\<close> times and free again after the lease. No call fails.\<close>

definition tracked :: "uuid \<Rightarrow> nat \<Rightarrow> int \<Rightarrow> studio \<Rightarrow> bool" where
  "tracked i k now s \<longleftrightarrow> st_sched s = [] \<and> st_now s = now \<and>
     (case find_job i s of None \<Rightarrow> False | Some j \<Rightarrow> busy_job j \<longrightarrow> k \<le> xj_attempts j \<and> lease_within now j)"

lemma tracked_pop: "tracked i k now s \<Longrightarrow> tracked i k now (st_pop s)"
  by (simp add: tracked_def st_pop_def find_job_def)

lemma stable_tracked: "stable (tracked i k now)"
  by (auto simp: stable_def tracked_def reads_def find_job_def)

lemma tracked_objs: "tracked i k now s \<Longrightarrow> tracked i k now (s\<lparr>st_objs := obs\<rparr>)"
  by (simp add: tracked_def find_job_def)

text \<open>An update that does not reopen a job and gives it a lease of at most the usual length keeps track.\<close>

lemma tracked_set:
  assumes "tracked i k now s" and "set_step i allowed f s s'"
    and f: "\<And>j. xj_status j \<in> set allowed \<Longrightarrow> xj_id (f now j) = xj_id j \<and> xj_attempts (f now j) = xj_attempts j \<and>
      (busy_job (f now j) \<longrightarrow> busy_job j \<and> (lease_within now j \<longrightarrow> lease_within now (f now j)))"
  shows "tracked i k now s'"
proof -
  have now: "st_now s = now" using assms(1) by (simp add: tracked_def)
  obtain j where j: "find_job i s = Some j" "xj_status j \<in> set allowed" "s' = put_job i (set_change f now j) (st_pop s)"
    using assms(2) now by (auto simp: set_step_def)
  have "xj_id (set_change f now j) = i" using f [OF j(2)] find_job_mem [OF j(1)] by (simp add: set_change_def)
  then have "find_job i s' = Some (set_change f now j)" using j(1,3) find_put_job [of i "st_pop s" j] by simp
  then show ?thesis using assms(1) f [OF j(2)] j
    by (auto simp: tracked_def set_change_def busy_job_def lease_within_def st_pop_def)
qed

lemma wp_tracked_set:
  assumes "tracked i k now s"
    and "\<And>j. xj_status j \<in> set allowed \<Longrightarrow> xj_id (f now j) = xj_id j \<and> xj_attempts (f now j) = xj_attempts j \<and>
      (busy_job (f now j) \<longrightarrow> busy_job j \<and> (lease_within now j \<longrightarrow> lease_within now (f now j)))"
  shows "wp (job_set i allowed f) (\<lambda>_. tracked i k now) (\<lambda>_. tracked i k now) s"
proof -
  have "tracked i k now s'" if "set_step i allowed f s s'" for s'
    by (rule tracked_set [OF assms(1) that]) (rule assms(2))
  then show ?thesis
    by (intro wp_mono [OF wp_job_set]) (use tracked_pop [OF assms(1)] in \<open>auto split: if_splits\<close>)
qed

lemma wp_tracked_publish:
  assumes "tracked i k now s"
  shows "wp (publish_job T i n out) (\<lambda>_. tracked i k now) (\<lambda>_. tracked i k now) s"
proof -
  obtain bytes f ctype where out: "out = (bytes, f, ctype)" by (cases out) auto
  let ?I = "tracked i k now"
  have set: "wp (bnd (job_set i [''processing''] (ready_job key f ctype m digest n)) (\<lambda>updated. if updated then ret () else store_delete key))
      (\<lambda>_. ?I) (\<lambda>_. ?I) t" if "?I t" for key m digest t
  proof -
    have "wp (if updated then ret () else store_delete key) (\<lambda>_. ?I) (\<lambda>_. ?I) t'" if "?I t'" for updated t'
      using that tracked_pop [OF that] by (cases updated) (auto simp: wp_ret intro!: wp_mono [OF wp_store_delete] tracked_objs)
    then show ?thesis unfolding wp_bnd
      by (intro wp_mono [OF wp_tracked_set [OF that]]) (auto simp: ready_job_def busy_job_def)
  qed
  have stat: "wp (bnd (store_stat key) (\<lambda>stored. if stored \<noteq> Some m then raise StorageError
      else bnd (job_set i [''processing''] (ready_job key f ctype m digest n)) (\<lambda>updated. if updated then ret () else store_delete key)))
      (\<lambda>_. ?I) (\<lambda>_. ?I) t" if "?I t" for key m digest t
    unfolding wp_bnd [of "store_stat _"]
    by (rule wp_mono [OF wp_store_stat]) (use tracked_pop [OF that] in \<open>auto simp: wp_raise intro!: set\<close>)
  have put: "wp (bnd (store_put key bytes ctype) (\<lambda>_. bnd (store_stat key) (\<lambda>stored. if stored \<noteq> Some m then raise StorageError
      else bnd (job_set i [''processing''] (ready_job key f ctype m digest n)) (\<lambda>updated. if updated then ret () else store_delete key))))
      (\<lambda>_. ?I) (\<lambda>_. ?I) s" for key m digest
    unfolding wp_bnd [of "store_put _ _ _"]
    by (rule wp_mono [OF wp_store_put]) (use tracked_pop [OF assms] in \<open>auto simp: put_object_def intro!: stat tracked_objs\<close>)
  show ?thesis unfolding out publish_job_def prod.case Let_def
    by (cases "EXPORT_MAX_ARCHIVE_BYTES < length bytes") (simp_all only: if_True if_False not_False_eq_True wp_raise put assms)
qed

lemma wp_tracked_failure:
  assumes "tracked (xj_id job) k now s"
  shows "wp (after_failure job e) (\<lambda>_. tracked (xj_id job) k now) (\<lambda>_. tracked (xj_id job) k now) s"
proof -
  let ?I = "tracked (xj_id job) k now"
  have failed: "wp (job_fail (xj_id job) code) (\<lambda>_. ?I) (\<lambda>_. ?I) s" for code
    unfolding job_fail_def wp_bnd wp_ret
    by (rule wp_mono [OF wp_tracked_set [OF assms]]) (auto simp: failed_job_def busy_job_def)
  have paused: "wp (bnd (job_set (xj_id job) [''processing''] pause_job) (\<lambda>_. ret ())) (\<lambda>_. ?I) (\<lambda>_. ?I) s"
    unfolding wp_bnd wp_ret
    by (rule wp_mono [OF wp_tracked_set [OF assms]])
       (auto simp: pause_job_def busy_job_def lease_within_def sec_def EXPORT_LEASE_SECONDS_def)
  show ?thesis unfolding after_failure_def by (cases e) (use failed paused in auto)
qed

lemma wp_tracked_work:
  assumes "tracked (xj_id job) k now s"
  shows "wp (work_on T job) (\<lambda>_ p. tracked (xj_id job) k now (snd p)) (\<lambda>_ p. tracked (xj_id job) k now (snd p)) (w, s)"
  unfolding work_on_def wp_attempt
proof (rule wp_mono)
  show "wp (produce T job) (\<lambda>_ p. tracked (xj_id job) k now (snd p)) (\<lambda>_ p. tracked (xj_id job) k now (snd p)) (w, s)"
  proof (rule wp_produce [where I = "tracked (xj_id job) k now"])
    show "keeps (tracked (xj_id job) k now) (report_progress (xj_id job) a b)" for a b
      unfolding report_progress_def
    proof (rule keeps_other)
      fix s assume t: "tracked (xj_id job) k now s"
      show "wp (bnd (job_set (xj_id job) [''processing''] (\<lambda>now j. j\<lparr>xj_done := a, xj_total := b\<rparr>)) (\<lambda>_. ret ()))
          (\<lambda>_. tracked (xj_id job) k now) (\<lambda>_. tracked (xj_id job) k now) s"
        unfolding wp_bnd wp_ret
        by (rule wp_mono [OF wp_tracked_set [OF t]]) (auto simp: busy_job_def lease_within_def)
    qed
  qed (auto intro: stable_tracked wp_tracked_publish assms)
qed (auto simp: split_paired_all wp_on_other intro: wp_tracked_failure)

lemma find_map_id: "(\<And>j. xj_id (f j) = xj_id j) \<Longrightarrow> find (\<lambda>j. xj_id j = i) (map f js) = map_option f (find (\<lambda>j. xj_id j = i) js)"
  by (induction js) auto

text \<open>One round: the lease is over, and the job is processed.\<close>

lemma wp_tracked_process:
  assumes "tracked i k now s" and "\<And>j. find_job i s = Some j \<Longrightarrow> busy_job j \<Longrightarrow> lease_free now j"
  shows "wp (process_job T i) (\<lambda>_ p. tracked i (min (Suc k) EXPORT_MAX_ATTEMPTS) now (snd p))
    (\<lambda>_ p. tracked i (min (Suc k) EXPORT_MAX_ATTEMPTS) now (snd p)) (w, s)"
proof -
  let ?I = "tracked i (min (Suc k) EXPORT_MAX_ATTEMPTS) now"
  obtain j where j: "find_job i s = Some j" and now: "st_now s = now" and calm: "st_sched s = []"
    using assms(1) by (auto simp: tracked_def split: option.splits)
  have pop: "st_pop s = s" using calm by (simp add: st_pop_def)
  have claim: "job_claim i s = (if busy_job j \<and> xj_attempts j < EXPORT_MAX_ATTEMPTS \<and> lease_free now j
      then (Inr (Some (claim_change now j)), put_job i (claim_change now j) s) else (Inr None, s))"
    by (simp add: job_claim_def txn_def st_fault_def calm pop j now)
  show ?thesis
  proof (cases "busy_job j \<and> xj_attempts j < EXPORT_MAX_ATTEMPTS \<and> lease_free now j")
    case True
    have i: "xj_id (claim_change now j) = i" using find_job_mem [OF j] by (simp add: claim_change_def)
    have "?I (put_job i (claim_change now j) s)"
      using assms(1) True find_put_job [OF j i] j
      by (auto simp: tracked_def claim_change_def lease_within_def)
    then show ?thesis using wp_tracked_work [of "claim_change now j"] i True
      unfolding process_job_def by (simp add: wp_def bnd_def on_other_def claim)
  next
    case False
    then have "?I s" using assms j by (auto simp: tracked_def)
    then show ?thesis unfolding process_job_def wp_def bnd_def on_other_def prod.case claim if_not_P [OF False]
      by (simp add: ret_def)
  qed
qed

text \<open>Rounds of processing, each after the lease is over and with the conversation side in any state; then the sweep.\<close>

fun retry_rounds :: "tools \<Rightarrow> uuid \<Rightarrow> world list \<Rightarrow> studio \<Rightarrow> studio" where
  "retry_rounds T i [] s = s"
| "retry_rounds T i (w # ws) s =
     retry_rounds T i ws (snd (after (process_job T i) (w, s\<lparr>st_now := st_now s + sec (EXPORT_LEASE_SECONDS + 1)\<rparr>)))"

definition sweep_exhausted :: "studio \<Rightarrow> studio" where
  "sweep_exhausted s = after fail_exhausted (s\<lparr>st_now := st_now s + sec (EXPORT_LEASE_SECONDS + 1)\<rparr>)"

lemma tracked_later:
  assumes "tracked i k now s" and "s' = s\<lparr>st_now := st_now s + sec (EXPORT_LEASE_SECONDS + 1)\<rparr>"
  shows "tracked i k (st_now s') s'" and "find_job i s' = Some j \<Longrightarrow> busy_job j \<Longrightarrow> lease_free (st_now s') j"
  using assms by (auto simp: tracked_def find_job_def lease_within_def lease_free_def past_def sec_def EXPORT_LEASE_SECONDS_def
      split: option.splits)

lemma tracked_rounds:
  "tracked i k (st_now s) s \<Longrightarrow> k \<le> EXPORT_MAX_ATTEMPTS \<Longrightarrow>
     tracked i (min (k + length ws) EXPORT_MAX_ATTEMPTS) (st_now (retry_rounds T i ws s)) (retry_rounds T i ws s)"
proof (induction ws arbitrary: k s)
  case (Cons w ws)
  let ?s = "s\<lparr>st_now := st_now s + sec (EXPORT_LEASE_SECONDS + 1)\<rparr>"
  let ?t = "snd (after (process_job T i) (w, ?s))"
  have "tracked i (min (Suc k) EXPORT_MAX_ATTEMPTS) (st_now ?s) ?t"
    using wp_tracked_process [of i k "st_now ?s" ?s] tracked_later [OF Cons.prems(1) HOL.refl] by (simp add: wp_after)
  moreover from this have "st_now ?t = st_now ?s" by (simp add: tracked_def)
  ultimately show ?case using Cons.IH [of "min (Suc k) EXPORT_MAX_ATTEMPTS" ?t] by (simp add: min_def split: if_splits)
qed simp

text \<open>C29:
  A job comes to an end: as long as the database and the store answer, after as many rounds of processing as a job may have
  attempts, each after the lease is over and with the conversation side in any state and failing at will, and one sweep of the
  exhausted jobs, the job is no longer pending or processing; it is never lost.
\<close>

theorem attempts_end:
  assumes "st_sched s = []" and "find_job i s = Some j" and "lease_within (st_now s) j" and "EXPORT_MAX_ATTEMPTS \<le> length ws"
  shows "case find_job i (sweep_exhausted (retry_rounds T i ws s)) of None \<Rightarrow> False | Some j' \<Rightarrow> \<not> busy_job j'"
proof -
  let ?t = "retry_rounds T i ws s" and ?later = "\<lambda>t. t\<lparr>st_now := st_now t + sec (EXPORT_LEASE_SECONDS + 1)\<rparr>"
  have "tracked i 0 (st_now s) s" using assms by (simp add: tracked_def)
  then have t: "tracked i EXPORT_MAX_ATTEMPTS (st_now ?t) ?t" using tracked_rounds [of i 0 s ws T] assms(4) by (simp add: min_absorb2)
  let ?u = "?later ?t"
  note u = tracked_later [OF t HOL.refl]
  obtain j' where j': "find_job i ?u = Some j'" "st_sched ?u = []" using u(1) by (auto simp: tracked_def split: option.splits)
  then have exhausted: "busy_job j' \<Longrightarrow> EXPORT_MAX_ATTEMPTS \<le> xj_attempts j' \<and> lease_free (st_now ?u) j'"
    using u by (auto simp: tracked_def)
  let ?f = "\<lambda>j. if busy_job j \<and> EXPORT_MAX_ATTEMPTS \<le> xj_attempts j \<and> lease_free (st_now ?u) j
     then (failed_job ''export_error'' (st_now ?u) j)\<lparr>xj_updated := st_now ?u\<rparr> else j"
  have "find_job i (sweep_exhausted ?t) = map_option ?f (find_job i ?u)"
  proof -
    have "st_pop ?u = ?u" using j'(2) by (simp add: st_pop_def)
    then have "sweep_exhausted ?t = ?u\<lparr>st_jobs := map ?f (st_jobs ?u)\<rparr>"
      using j'(2) unfolding sweep_exhausted_def fail_exhausted_def after_def txn_def st_fault_def by simp
    then show ?thesis unfolding find_job_def by simp (rule find_map_id, simp add: failed_job_def)
  qed
  then show ?thesis using exhausted j'(1) by (auto simp: failed_job_def busy_job_def)
qed

text \<open>A pending job, and tools that answer anything.\<close>

definition sample_job :: export_job where
  "sample_job = \<lparr>xj_id = 1, xj_owner = 2, xj_conv = 3, xj_scope = ''conversation'', xj_format = ''markdown'', xj_media = False,
     xj_request = ''key'', xj_snapshot = [], xj_status = ''pending'', xj_done = 0, xj_total = 1, xj_object = None, xj_file = None,
     xj_type = None, xj_size = None, xj_sha = None, xj_failure = None, xj_attempts = 0, xj_lease = None, xj_expires = None,
     xj_created = 0, xj_updated = 0\<rparr>"

definition sample_tools :: tools where
  "sample_tools = \<lparr>tl_loads = (\<lambda>_. None), tl_sha = (\<lambda>_. ''key''), tl_shaf = (\<lambda>_. ''digest''), tl_stamp = (\<lambda>_. []),
     tl_zip = (\<lambda>_. []), tl_md = (\<lambda>_ s. s), tl_weasy = Inr\<rparr>"

theorem attempts_end_witness:
  "case find_job 1 (sweep_exhausted (retry_rounds sample_tools 1 [empty_world 0, empty_world 0, empty_world 0]
     (empty_studio\<lparr>st_jobs := [sample_job]\<rparr>))) of None \<Rightarrow> False | Some j \<Rightarrow> \<not> busy_job j"
  by (rule attempts_end [where j = sample_job])
     (simp_all add: empty_studio_def find_job_def sample_job_def lease_within_def EXPORT_MAX_ATTEMPTS_def)

section \<open>The same request again\<close>

lemma hierarchy_calm: "calm w \<Longrightarrow> hierarchy_load u n w = (fst (hierarchy_load u n w), w)"
  by (simp add: hierarchy_load_def conv_service_list_def conv_list_def bnd_def ext_def lift_result_def ret_def raise_def
      split: sum.split)

lemma scope_calm: "calm w \<Longrightarrow> export_scope u c sc w = (fst (export_scope u c sc w), w)"
  unfolding export_scope_def bnd_def using hierarchy_calm [of w u "EXPORT_MAX_CONVERSATIONS * 4"]
  by (auto simp: lift_result_def ret_def raise_def split: sum.split prod.split)

text \<open>What a request reads of its source: the ids of its scope and their snapshot.\<close>

definition source_of :: "uuid \<Rightarrow> uuid \<Rightarrow> string \<Rightarrow> world \<Rightarrow> exn + uuid list \<times> (string \<times> string) list" where
  "source_of u c sc w = result (bnd (export_scope u c sc) (\<lambda>(_, ids). bnd (snapshot_of_ids ids) (\<lambda>snap. ret (ids, snap)))) w"

definition media_of :: "string \<Rightarrow> string \<Rightarrow> bool \<Rightarrow> bool" where
  "media_of sc fmt media \<longleftrightarrow> media \<and> sc = ''hierarchy'' \<and> fmt = ''markdown''"

lemma create_calm:
  assumes "calm w"
  shows "job_create T i u c sc fmt media (w, s) = (case source_of u c sc w of
      Inl e \<Rightarrow> (Inl e, (w, s))
    | Inr (ids, snap) \<Rightarrow> apsnd (Pair w) (txn (create_txn (job_row T i u c sc fmt (media_of sc fmt media) ids snap (st_now s))) s))"
proof -
  obtain r where r: "export_scope u c sc w = (r, w)" using scope_calm [OF assms] by metis
  show ?thesis
  proof (cases r)
    case (Inr hi)
    obtain h ids where hi: "hi = (h, ids)" by (cases hi)
    obtain r2 where r2: "snapshot_of_ids ids w = (r2, w)" using snapshot_calm [OF assms] by metis
    show ?thesis
      by (cases r2) (auto simp: job_create_def source_of_def result_def bnd_def on_world_def on_other_def getting_def ret_def Let_def
        r Inr hi r2 media_of_def split: prod.split)
  qed (simp add: job_create_def source_of_def result_def bnd_def on_world_def Let_def r)
qed

lemma one_element: "distinct xs \<Longrightarrow> j \<in> set xs \<Longrightarrow> \<forall>x \<in> set xs. x = j \<Longrightarrow> xs = [j]"
  by (cases xs; cases "tl xs") auto

lemma only_hit:
  assumes "jobs_ok shaf s" and "j \<in> set (st_jobs s)" and "live_job j" and "same_request u k j"
  shows "filter (\<lambda>x. same_request u k x \<and> live_job x) (st_jobs s) = [j]"
proof (rule one_element)
  show "distinct (filter (\<lambda>x. same_request u k x \<and> live_job x) (st_jobs s))" using assms(1) by (simp add: jobs_ok_def distinct_map)
  have "x = j" if "x \<in> set (st_jobs s)" "live_job x" "same_request u k x" for x
  proof -
    have "inj_on request_of (set (filter live_job (st_jobs s)))" using assms(1) by (simp add: jobs_ok_def distinct_map)
    moreover have "request_of x = request_of j" using that assms(4) by (simp add: same_request_def request_of_def)
    ultimately show ?thesis using that assms(2,3) by (simp add: inj_on_def)
  qed
  then show "\<forall>x \<in> set (filter (\<lambda>x. same_request u k x \<and> live_job x) (st_jobs s)). x = j" by simp
qed (use assms in simp)

lemma create_finds:
  assumes "jobs_ok shaf s" and "j \<in> set (st_jobs s)" and "live_job j" and "same_request (xj_owner new) (xj_request new) j"
    and "\<not> past (st_now s) (xj_expires j)"
  shows "fst (create_txn new s) = Inr (j, False)"
proof -
  let ?f = "expire_stale (xj_owner new) (xj_request new) (st_now s)"
  have "?f j = j" using assms(5) by (simp add: expire_stale_def)
  then have "j \<in> set (map ?f (st_jobs s))" using assms(2) by (metis image_eqI list.set_map)
  then have "filter (\<lambda>x. same_request (xj_owner new) (xj_request new) x \<and> live_job x) (map ?f (st_jobs s)) = [j]"
    using only_hit [OF expire_stale_ok [OF assms(1), of "xj_owner new" "xj_request new"], of j] assms(3,4) by simp
  then show ?thesis by (simp add: create_txn_def Let_def)
qed

text \<open>
  Asking again: once a request was answered, the same request over the same source, at any later state of the tables, is
  answered with the live job of that request that is not over, and no new one is made.
\<close>

theorem create_again_reuses:
  assumes "calm w" and "exports_ok shaf s" and "job_create T i u c sc fmt media (w, s) = (Inr (j, created), (w', s'))"
    and "exports_ok shaf t" and "st_sched t = []" and "k \<in> set (st_jobs t)" and "request_of k = request_of j" and "live_job k"
    and "\<not> past (st_now t) (xj_expires k)"
  shows "fst (job_create T i' u c sc fmt media (w', t)) = Inr (k, False)"
proof -
  obtain ids snap where src: "source_of u c sc w = Inr (ids, snap)"
    using assms(3) unfolding create_calm [OF assms(1)] by (auto split: sum.splits)
  let ?row = "\<lambda>i now. job_row T i u c sc fmt (media_of sc fmt media) ids snap now"
  have first: "apsnd (Pair w) (txn (create_txn (?row i (st_now s))) s) = (Inr (j, created), (w', s'))"
    using assms(3) src unfolding create_calm [OF assms(1)] by simp
  then have w: "w' = w" and made: "fst (create_txn (?row i (st_now s)) (st_pop s)) = Inr (j, created)"
    by (auto simp: txn_def apsnd_def map_prod_def split: fault.splits prod.splits)
  have "new_job (?row i (st_now s))" by (simp add: new_job_def job_row_def)
  from wp_create_txn [of shaf "st_pop s", OF _ this] made assms(2)
  have "same_request (xj_owner (?row i 0)) (xj_request (?row i 0)) j"
    by (auto simp: wp_def job_row_def split: prod.splits)
  then have "same_request (xj_owner (?row i' (st_now t))) (xj_request (?row i' (st_now t))) k"
    using assms(7) by (simp add: same_request_def request_of_def job_row_def)
  then have "fst (create_txn (?row i' (st_now t)) t) = Inr (k, False)"
    using create_finds [of shaf t k] assms by (simp add: exports_ok_def)
  moreover have "st_pop t = t" using assms(5) by (simp add: st_pop_def)
  ultimately show ?thesis using src assms(5) unfolding w create_calm [OF assms(1)]
    by (simp add: txn_def st_fault_def)
qed

definition source_world :: world where
  "source_world = (empty_world 0)\<lparr>w_catalog := (\<lambda>_. [\<lparr>ct_updated = 1, ct_conv = 3, ct_title = ''t'', ct_created = 1,
     ct_status = ''active'', ct_parent = None\<rparr>])\<rparr>"

definition made_job :: export_job where
  "made_job = job_row sample_tools 7 2 3 ''conversation'' ''markdown'' False [3] [(uuid_str 3, [])] 0"

definition made_studio :: studio where
  "made_studio = empty_studio\<lparr>st_jobs := [made_job]\<rparr>"

lemma source_made: "source_of 2 3 ''conversation'' source_world = Inr ([3], [(uuid_str 3, [])])"
proof -
  define conv where "conv = \<lparr>cv_id = 3, cv_user = 2, cv_title = ''t'', cv_created = 1, cv_updated = 1, cv_status = ACTIVE,
    cv_parent = None, cv_branch = None\<rparr>"
  have calm: "calm source_world" by (simp add: source_world_def empty_world_def calm_def)
  have rows: "list_rows 2 (take (EXPORT_MAX_CONVERSATIONS * 4) (w_catalog source_world 2)) = Inr [conv]"
    by (simp add: source_world_def EXPORT_MAX_CONVERSATIONS_def conv_status_of_def conv_def)
  have "hierarchy_load 2 (EXPORT_MAX_CONVERSATIONS * 4) source_world = (Inr (build_hierarchy [conv]), source_world)"
    using calm rows by (simp add: hierarchy_load_def conv_service_list_def conv_list_def bnd_def ext_def lift_result_def ret_def conv_def)
  moreover have "node_ids (h_nodes (build_hierarchy [conv])) = {3}" by (simp add: build_hierarchy_def Let_def node_ids_def conv_def)
  ultimately have "export_scope 2 3 ''conversation'' source_world = (Inr (build_hierarchy [conv], [3]), source_world)"
    by (simp add: export_scope_def bnd_def lift_result_def ret_def EXPORT_MAX_CONVERSATIONS_def)
  moreover have "msg_history 3 1 None source_world = (Inr [], source_world)"
    unfolding history_one_calm [OF calm] by (simp add: source_world_def empty_world_def)
  ultimately show ?thesis using calm
    by (simp add: source_of_def result_def bnd_def ret_def latest_marker_def)
qed

lemma made_facts: "new_job made_job" "job_checks made_job" "xj_owner made_job = 2" "xj_request made_job = ''key''"
  by (simp_all add: made_job_def job_row_def new_job_def job_checks_def sample_tools_def SCOPES_def FORMATS_def fits_def)

lemma made_ok: "exports_ok shaf made_studio"
proof -
  have "jobs_ok shaf (empty_studio\<lparr>st_jobs := st_jobs empty_studio @ [made_job]\<rparr>)"
    by (rule append_job_ok)
       (use empty_exports_ok [of shaf] made_facts in \<open>simp_all add: exports_ok_def empty_studio_def occupied_def EXPORT_MAX_LIVE_PER_USER_def\<close>)
  then show ?thesis using empty_exports_ok [of shaf] by (simp add: exports_ok_def made_studio_def empty_studio_def studio_ok_def)
qed

lemma made_by_request: "job_create sample_tools 7 2 3 ''conversation'' ''markdown'' False (source_world, empty_studio) =
    (Inr (made_job, True), (source_world, made_studio))"
proof -
  have "calm source_world" by (simp add: source_world_def empty_world_def calm_def)
  moreover have "create_txn made_job empty_studio = (Inr (made_job, True), made_studio)"
    using made_facts by (simp add: create_txn_def Let_def empty_studio_def made_studio_def EXPORT_MAX_LIVE_PER_USER_def)
  ultimately show ?thesis
    by (simp add: create_calm source_made media_of_def made_job_def [symmetric] empty_studio_def txn_def st_fault_def st_pop_def)
qed

theorem create_again_reuses_witness:
  "fst (job_create sample_tools 8 2 3 ''conversation'' ''markdown'' False (source_world, made_studio)) = Inr (made_job, False)"
  by (rule create_again_reuses [OF _ empty_exports_ok made_by_request made_ok])
     (simp_all add: source_world_def empty_world_def calm_def made_studio_def empty_studio_def made_job_def job_row_def live_job_def LIVE_def past_def)

text \<open>
  The key sees of each conversation its newest message only: a change of older messages leaves the request the same, so that a
  file made before the change is handed out after it.
\<close>

theorem older_changes_reuse_export:
  assumes "calm w" and "\<forall>c. take 1 (m c) = take 1 (w_msgs w c)"
  shows "fst (job_create T i u c sc fmt media (w\<lparr>w_msgs := m\<rparr>, s)) = fst (job_create T i u c sc fmt media (w, s))"
proof -
  let ?w = "w\<lparr>w_msgs := m\<rparr>"
  have calm': "calm ?w" using assms(1) by simp
  obtain r where r: "hierarchy_load u (EXPORT_MAX_CONVERSATIONS * 4) w = (r, w)" using hierarchy_calm [OF assms(1)] by metis
  have "fst (hierarchy_load u n ?w) = fst (hierarchy_load u n w)" for n
    using assms(1) calm' by (simp add: hierarchy_load_def conv_service_list_def conv_list_def bnd_def ext_def lift_result_def ret_def raise_def
      split: sum.split)
  then have r': "hierarchy_load u (EXPORT_MAX_CONVERSATIONS * 4) ?w = (r, ?w)" using hierarchy_calm [OF calm'] r by (metis fst_conv)
  obtain x where x: "export_scope u c sc w = (x, w)" using scope_calm [OF assms(1)] by metis
  have "fst (export_scope u c sc ?w) = fst (export_scope u c sc w)"
    by (cases r) (simp_all add: export_scope_def bnd_def r r' lift_result_def ret_def raise_def split: sum.split)
  then have x': "export_scope u c sc ?w = (x, ?w)" using scope_calm [OF calm'] x by (metis fst_conv)
  have snap: "fst (snapshot_of_ids ids ?w) = fst (snapshot_of_ids ids w)" for ids
    using snapshot_sees_newest_only [OF assms(1) calm', of ids] assms(2) by (simp add: result_def)
  have "source_of u c sc ?w = source_of u c sc w"
  proof (cases x)
    case (Inr hi)
    obtain h ids where hi: "hi = (h, ids)" by (cases hi)
    obtain y where y: "snapshot_of_ids ids w = (y, w)" using snapshot_calm [OF assms(1)] by metis
    then have "snapshot_of_ids ids ?w = (y, ?w)" using snap [of ids] snapshot_calm [OF calm', of ids] by (metis fst_conv)
    then show ?thesis using x x' y by (cases y) (simp_all add: source_of_def result_def bnd_def ret_def Inr hi)
  qed (use x x' in \<open>simp add: source_of_def result_def bnd_def\<close>)
  then show ?thesis unfolding create_calm [OF assms(1)] create_calm [OF calm'] by (simp split: sum.split)
qed

section \<open>A worker that comes too late\<close>

lemma calm_calls: "st_sched s = [] \<Longrightarrow> txn body s = body s" "st_sched s = [] \<Longrightarrow> store_call body' s = body' s"
proof -
  show "txn body s = body s" if "st_sched s = []"
  proof -
    have "st_pop s = s" using that by (simp add: st_pop_def)
    then show ?thesis by (simp add: txn_def st_fault_def that)
  qed
  show "store_call body' s = body' s" if "st_sched s = []"
  proof -
    have "st_pop s = s" using that by (simp add: st_pop_def)
    then show ?thesis by (simp add: store_call_def st_fault_def that)
  qed
qed

lemma claim_now:
  assumes "st_sched s = []" and "find_job i s = Some j"
  shows "job_claim i s = (if busy_job j \<and> xj_attempts j < EXPORT_MAX_ATTEMPTS \<and> lease_free (st_now s) j
    then (Inr (Some (claim_change (st_now s) j)), put_job i (claim_change (st_now s) j) s) else (Inr None, s))"
  using assms by (simp add: job_claim_def calm_calls)

lemma fits_None [simp]: "fits n None"
  by (simp add: fits_def)

lemma publish_on_time:
  assumes "st_sched s = []" and "find_job i s = Some j" and "xj_status j = ''processing''" and "length bytes \<le> EXPORT_MAX_ARCHIVE_BYTES"
    and "job_checks (set_change (ready_job (export_key i f) f ctype (length bytes) (tl_shaf T bytes) n) (st_now s) j)"
  shows "publish_job T i n (bytes, f, ctype) s = (Inr (),
    put_job i (set_change (ready_job (export_key i f) f ctype (length bytes) (tl_shaf T bytes) n) (st_now s) j)
      (put_object (export_key i f) bytes ctype s))"
  using assms by (simp add: publish_job_def Let_def bnd_def store_put_def store_stat_def job_set_def calm_calls put_object_def
    set_change_def ret_def find_job_def)

lemma publish_late:
  assumes "st_sched s = []" and "find_job i s = Some j" and "xj_status j \<noteq> ''processing''" and "length bytes \<le> EXPORT_MAX_ARCHIVE_BYTES"
  shows "publish_job T i n (bytes, f, ctype) s = (Inr (), s\<lparr>st_objs := (st_objs s)(export_key i f := None)\<rparr>)"
  using assms by (simp add: publish_job_def Let_def bnd_def store_put_def store_stat_def store_delete_def job_set_def calm_calls ret_def
    find_job_def)

text \<open>
  Two workers on one job: the second claims it when the lease of the first is over, and finishes; then the first finishes too.
  Both have rendered a file of the same name.
\<close>

definition two_workers ::
  "tools \<Rightarrow> uuid \<Rightarrow> nat \<Rightarrow> byte list \<times> string \<times> string \<Rightarrow> byte list \<times> string \<times> string \<Rightarrow> (studio, bool \<times> bool) prog" where
  "two_workers T i n first second =
     bnd (job_claim i) (\<lambda>a.
     bnd (let_pass (sec (EXPORT_LEASE_SECONDS + 1))) (\<lambda>_.
     bnd (job_claim i) (\<lambda>b.
     bnd (publish_job T i n second) (\<lambda>_.
     bnd (publish_job T i n first) (\<lambda>_.
     ret (a \<noteq> None, b \<noteq> None))))))"

text \<open>A download of a job that is on record as ready, without its object.\<close>

lemma download_of_lost_file:
  assumes "st_sched s = []" and "find_job i s = Some j" and "xj_object j = Some key" and "st_objs s key = None"
  shows "result (api_download_export (xj_owner j) i) s = Inl (HTTPException 404 ''Export not available'')"
proof -
  have "find (\<lambda>x. xj_id x = i \<and> xj_owner x = xj_owner j) js = Some j" if "find (\<lambda>x. xj_id x = i) js = Some j" for js
    using that by (induction js) (auto split: if_splits)
  then have "find (\<lambda>x. xj_id x = i \<and> xj_owner x = xj_owner j) (st_jobs s) = Some j" using assms(2) by (simp add: find_job_def)
  then show ?thesis using assms
    by (simp add: result_def api_download_export_def owned_export_def job_get_def bnd_def calm_calls getting_def ret_def
      raise_def store_stat_def Let_def)
qed

text \<open>C30:
  The service takes a late announcement for one of a cancelled job and deletes the object under the key of the job, which is the
  file of the worker that finished: when the lease of a worker runs out, another one finishes the job and the first finishes
  after it, the job stays ready, is what a repeated request is answered with until it expires, and cannot be downloaded.
\<close>

theorem late_worker_deletes_export:
  assumes calm: "st_sched s = []" and j: "find_job i s = Some j"
    and fresh: "xj_status j = ''pending'' \<and> xj_attempts j = 0 \<and> xj_lease j = None \<and> job_checks j"
    and small: "length (fst first) \<le> EXPORT_MAX_ARCHIVE_BYTES \<and> length (fst second) \<le> EXPORT_MAX_ARCHIVE_BYTES"
    and names: "snd first = (f, ctype) \<and> snd second = (f, ctype)"
    and widths: "fits 255 (Some (export_key i f)) \<and> fits 200 (Some f) \<and> fits 64 (Some ctype) \<and> fits 64 (Some (tl_shaf T (fst second)))"
  shows "let (answer, s') = two_workers T i n first second s in
    answer = Inr (True, True) \<and> (case find_job i s' of None \<Rightarrow> False | Some k \<Rightarrow> live_job k \<and> xj_status k = ''ready'' \<and>
      \<not> past (st_now s') (xj_expires k) \<and> request_of k = request_of j \<and>
      result (api_download_export (xj_owner j) i) s' = Inl (HTTPException 404 ''Export not available''))"
proof -
  obtain b1 b2 where files: "first = (b1, f, ctype)" "second = (b2, f, ctype)" using names by (cases first; cases second) auto
  let ?t1 = "st_now s" and ?t2 = "st_now s + sec (EXPORT_LEASE_SECONDS + 1)" and ?key = "export_key i f"
  let ?j1 = "claim_change ?t1 j"
  let ?s1 = "(put_job i ?j1 s)\<lparr>st_now := ?t2\<rparr>"
  have id: "xj_id j = i" using find_job_mem [OF j] by simp
  have c1: "job_claim i s = (Inr (Some ?j1), put_job i ?j1 s)"
    using claim_now [OF calm j] fresh by (simp add: busy_job_def lease_free_def EXPORT_MAX_ATTEMPTS_def)
  have f1: "find_job i ?s1 = Some ?j1" using find_put_job [OF j, of ?j1] id by (simp add: find_job_def claim_change_def)
  let ?j2 = "claim_change ?t2 ?j1"
  let ?s2 = "put_job i ?j2 ?s1"
  have c2: "job_claim i ?s1 = (Inr (Some ?j2), ?s2)"
    using claim_now [OF _ f1] calm fresh
    by (simp add: busy_job_def lease_free_def past_def EXPORT_MAX_ATTEMPTS_def claim_change_def EXPORT_LEASE_SECONDS_def sec_def)
  have f2: "find_job i ?s2 = Some ?j2" by (rule find_put_job [OF f1]) (simp add: claim_change_def id)
  let ?j3 = "set_change (ready_job ?key f ctype (length b2) (tl_shaf T b2) n) ?t2 ?j2"
  let ?s3 = "put_job i ?j3 (put_object ?key b2 ctype ?s2)"
  have p2: "publish_job T i n second ?s2 = (Inr (), ?s3)"
    unfolding files using publish_on_time [of ?s2 i ?j2 b2 f ctype T n] calm f2 small fresh widths
    by (simp add: files claim_change_def set_change_def ready_job_def job_checks_def)
  have "find_job i (put_object ?key b2 ctype ?s2) = Some ?j2" using f2 by (simp add: find_job_def put_object_def)
  then have f3: "find_job i ?s3 = Some ?j3" by (rule find_put_job) (simp add: set_change_def ready_job_def claim_change_def id)
  let ?s4 = "?s3\<lparr>st_objs := (st_objs ?s3)(?key := None)\<rparr>"
  have p1: "publish_job T i n first ?s3 = (Inr (), ?s4)"
    unfolding files using publish_late [OF _ f3] calm small by (simp add: files set_change_def ready_job_def put_object_def)
  have f4: "find_job i ?s4 = Some ?j3" using f3 by (simp add: find_job_def)
  have run: "two_workers T i n first second s = (Inr (True, True), ?s4)"
    by (simp add: two_workers_def bnd_def let_pass_def ret_def c1 c2 p1 p2)
  have owner: "xj_owner ?j3 = xj_owner j" by (simp add: set_change_def ready_job_def claim_change_def)
  have lost: "result (api_download_export (xj_owner ?j3) i) ?s4 = Inl (HTTPException 404 ''Export not available'')"
    by (rule download_of_lost_file [where key = ?key, OF _ f4]) (simp_all add: set_change_def ready_job_def calm put_object_def)
  have row: "live_job ?j3" "xj_status ?j3 = ''ready''" "request_of ?j3 = request_of j"
    by (simp_all add: set_change_def ready_job_def claim_change_def live_job_def LIVE_def request_of_def)
  have time: "\<not> past (st_now ?s4) (xj_expires ?j3)"
    by (simp add: set_change_def ready_job_def past_def put_object_def EXPORT_RETENTION_HOURS_def sec_def)
  show ?thesis unfolding run Let_def prod.case f4 option.case
    by (intro conjI HOL.refl row time lost [unfolded owner])
qed

theorem late_worker_deletes_export_witness:
  "let (answer, s') = two_workers sample_tools 1 1 ([1], ''a.md'', ''text/markdown'') ([2], ''a.md'', ''text/markdown'')
       (empty_studio\<lparr>st_jobs := [sample_job]\<rparr>) in
    answer = Inr (True, True) \<and> (case find_job 1 s' of None \<Rightarrow> False | Some k \<Rightarrow> live_job k \<and> xj_status k = ''ready'' \<and>
      \<not> past (st_now s') (xj_expires k) \<and> request_of k = request_of sample_job \<and>
      result (api_download_export (xj_owner sample_job) 1) s' = Inl (HTTPException 404 ''Export not available''))"
proof (rule late_worker_deletes_export)
  show "fits 255 (Some (export_key 1 ''a.md'')) \<and> fits 200 (Some ''a.md'') \<and> fits 64 (Some ''text/markdown'') \<and>
      fits 64 (Some (tl_shaf sample_tools (fst ([2], ''a.md'', ''text/markdown''))))" by code_simp
  show "find_job 1 (empty_studio\<lparr>st_jobs := [sample_job]\<rparr>) = Some sample_job" by (simp add: find_job_def sample_job_def)
  show "xj_status sample_job = ''pending'' \<and> xj_attempts sample_job = 0 \<and> xj_lease sample_job = None \<and> job_checks sample_job"
    by code_simp
qed (simp_all add: empty_studio_def EXPORT_MAX_ARCHIVE_BYTES_def)

end
