(* ===== verification/Group_Workers.thy ===== *)
theory Group_Workers
  imports Consumers Documents
begin

text \<open>
  \<open>app/workers/cleanup_worker.py\<close> and \<open>app/workers/summary_worker.py\<close>: the consumers of their own groups, one that
  purges deleted conversations, one that stores generated summaries. The state is the world and the offset the group
  has committed for the partition; the records of the partition are numbered from the position read first. The sleep
  after a failure is not modelled.
\<close>

type_synonym group_state = "world \<times> nat"

text \<open>\<open>consumer.commit()\<close> after reading record \<open>pos\<close> stores the next position.\<close>

definition commit :: "nat \<Rightarrow> (group_state, unit) prog" where
  "commit pos = (\<lambda>(w, c). case next_fault w of
     Okay \<Rightarrow> (Inr (), (pop w, Suc pos))
   | Refused \<Rightarrow> (Inl KafkaError, (pop w, c))
   | Lost \<Rightarrow> (Inl KafkaError, (pop w, Suc pos)))"

section \<open>Clean-up\<close>

definition purge :: "uuid \<Rightarrow> (world, unit) prog" where
  "purge cid =
     bnd (cache_delete_conversation cid) (\<lambda>_.
     bnd (cache_delete_last_50 cid) (\<lambda>_.
     bnd (msg_delete_all cid) (\<lambda>_.
     bnd (conv_hard_delete cid) (\<lambda>_. ret ()))))"

definition cleanup_event :: "json option \<Rightarrow> (world, unit) prog" where
  "cleanup_event body = (case body of
     None \<Rightarrow> raise (ValueError ''json'')
   | Some (JObj ev) \<Rightarrow>
       (case jget_or ev ''payload'' (JObj []) of
          JObj inner \<Rightarrow>
            (let c = jget inner ''conversation_id'' in
             if \<not> truthy c then ret () else bnd (uuid_arg c) purge)
        | _ \<Rightarrow> raise TypeError)
   | Some _ \<Rightarrow> raise TypeError)"

text \<open>Whatever happened to the record, its offset is committed; only a commit that fails there ends the loop.\<close>

definition cleanup_record :: "nat \<Rightarrow> json option \<Rightarrow> (group_state, unit) prog" where
  "cleanup_record pos body =
     attempt (bnd (on_world (cleanup_event body)) (\<lambda>_. commit pos)) (\<lambda>_. commit pos)"

primrec cleanup_loop :: "json option list \<Rightarrow> nat \<Rightarrow> (group_state, unit) prog" where
  "cleanup_loop [] pos = ret ()"
| "cleanup_loop (r # rs) pos = bnd (cleanup_record pos r) (\<lambda>_. cleanup_loop rs (Suc pos))"

definition start_cleanup_worker :: "nat \<Rightarrow> json option list \<Rightarrow> (group_state, unit) prog" where
  "start_cleanup_worker pos rs = attempt (cleanup_loop rs pos) (\<lambda>_. ret ())"

section \<open>Summaries\<close>

text \<open>\<open>sid\<close> is the \<open>uuid4\<close> drawn for the summary message.\<close>

definition summary_event :: "uuid \<Rightarrow> json option \<Rightarrow> (world, unit) prog" where
  "summary_event sid body = (case body of
     None \<Rightarrow> raise (ValueError ''json'')
   | Some (JObj ev) \<Rightarrow>
       (let raw = jget ev ''event_id''; payload = jget_or ev ''payload'' (JObj []) in
        if \<not> truthy raw then ret ()
        else bnd (uuid_arg raw) (\<lambda>event_id.
             bnd (inbox_exists (EventId event_id)) (\<lambda>dup.
             if dup then ret ()
             else (case payload of
               JObj inner \<Rightarrow>
                 (let c = jget inner ''conversation_id''; summary = jget inner ''summary'' in
                  if \<not> truthy c \<or> \<not> truthy summary then ret ()
                  else bnd (uuid_arg c) (\<lambda>cid.
                       bnd (attach_summary sid cid (py_str summary)) (\<lambda>_.
                       inbox_save (EventId event_id))))
             | _ \<Rightarrow> raise TypeError))))
   | Some _ \<Rightarrow> raise TypeError)"

definition summary_record :: "nat \<Rightarrow> uuid \<times> json option \<Rightarrow> (group_state, unit) prog" where
  "summary_record pos r =
     attempt (bnd (on_world (summary_event (fst r) (snd r))) (\<lambda>_. commit pos)) (\<lambda>_. ret ())"

primrec start_summary_worker :: "nat \<Rightarrow> (uuid \<times> json option) list \<Rightarrow> (group_state, unit) prog" where
  "start_summary_worker pos [] = ret ()"
| "start_summary_worker pos (r # rs) = bnd (summary_record pos r) (\<lambda>_. start_summary_worker (Suc pos) rs)"

section \<open>Lemmas\<close>

text \<open>The row of a summary.\<close>

definition holds_summary :: "world \<Rightarrow> uuid \<Rightarrow> uuid \<Rightarrow> string \<Rightarrow> bool" where
  "holds_summary w cid sid summary \<longleftrightarrow> (case msg_of w cid sid of
     None \<Rightarrow> False
   | Some r \<Rightarrow> mr_sender r = Some ''system'' \<and> mr_content r = Some (''Summary: '' @ summary) \<and> mr_status r = Some ''sent'')"

lemma wp_commit [wp_simps]:
  "wp (commit pos) Q E (w, c) = (case next_fault w of
     Okay \<Rightarrow> Q () (pop w, Suc pos) | Refused \<Rightarrow> E KafkaError (pop w, c) | Lost \<Rightarrow> E KafkaError (pop w, Suc pos))"
  by (simp add: wp_def commit_def split: fault.split)

definition deletion_event :: "uuid \<Rightarrow> json option" where
  "deletion_event cid = Some (JObj [(''payload'', JObj [(''conversation_id'', JStr (uuid_str cid))])])"

lemma uuid_str_truthy [simp]: "uuid_str u \<noteq> []"
  using parse_uuid_str [of u] by (metis option.distinct(1) parse_uuid_Nil)

lemma bnd_uuid_arg_str [simp]: "bnd (uuid_arg (JStr (uuid_str u))) f = f u"
  by (simp add: uuid_arg_def parse_uuid_str bnd_def ret_def)

lemma wp_uuid_arg_str [simp]: "wp (uuid_arg (JStr (uuid_str u))) Q E w = Q u w"
  by (simp add: uuid_arg_def parse_uuid_str wp_simps)

lemma wp_cleanup_deletion [simp]: "wp (cleanup_event (deletion_event cid)) Q E w = wp (purge cid) Q E w"
  by (simp add: cleanup_event_def deletion_event_def jget_or_def wp_simps)

text \<open>What the purge leaves when no call fails.\<close>

definition purged :: "uuid \<Rightarrow> world \<Rightarrow> bool" where
  "purged cid w \<longleftrightarrow> w_msgs w cid = [] \<and> w_conv w cid = None \<and> (\<forall>u. \<forall>x \<in> set (w_catalog w u). ct_conv x \<noteq> cid) \<and>
     (w_redis_on w \<longrightarrow> w_rconv w cid = None \<and> w_rmsgs w cid = None)"

text \<open>The tables of every other conversation.\<close>

definition others_kept :: "uuid \<Rightarrow> world \<Rightarrow> world \<Rightarrow> bool" where
  "others_kept cid w w' \<longleftrightarrow> (\<forall>c. c \<noteq> cid \<longrightarrow> w_msgs w' c = w_msgs w c \<and> w_conv w' c = w_conv w c \<and>
     w_rconv w' c = w_rconv w c \<and> w_rmsgs w' c = w_rmsgs w c) \<and>
   (\<forall>u x. ct_conv x \<noteq> cid \<longrightarrow> (x \<in> set (w_catalog w' u) \<longleftrightarrow> x \<in> set (w_catalog w u))) \<and>
   w_outbox w' = w_outbox w \<and> w_inbox w' = w_inbox w"


lemma catalog_conv: "catalog_ok w \<Longrightarrow> x \<in> set (w_catalog w u) \<Longrightarrow> ct_conv x = cid \<Longrightarrow>
    \<exists>r. w_conv w cid = Some r \<and> cr_user r = u \<and> x = cat_of cid r"
  by (auto simp: catalog_okD(2))

lemma conversation_of_fields:
  "conversation_of cid r = Inr c \<Longrightarrow> cv_user c = cr_user r \<and> cv_updated c = cr_updated r"
  by (auto simp: conversation_of_def split: option.splits)

text \<open>Each of the four calls of the purge keeps the tables of the others.\<close>

lemma others_kept_refl [simp]: "others_kept cid w w"
  by (simp add: others_kept_def)

lemma others_kept_steps [simp]:
  "others_kept cid w0 (pop w) = others_kept cid w0 w"
  "others_kept cid w0 (pop w\<lparr>w_rconv := (w_rconv w)(cid := None)\<rparr>) = others_kept cid w0 w"
  "others_kept cid w0 (del_msgs cid w) = others_kept cid w0 w"
  "others_kept cid w0 (pop w\<lparr>w_msgs := (w_msgs w)(cid := [])\<rparr>) = others_kept cid w0 w"
  "others_kept cid w0 (put_conv cid x (drop_cat u (t, cid) w)) = others_kept cid w0 w"
  by (auto simp: others_kept_def del_msgs_def put_conv_def drop_cat_def cat_key_def)

lemma cache_deletes_keep:
  assumes "others_kept cid w0 w"
  shows "wp (cache_delete_conversation cid) (\<lambda>_. others_kept cid w0) (\<lambda>_. others_kept cid w0) w"
    and "wp (cache_delete_last_50 cid) (\<lambda>_. others_kept cid w0) (\<lambda>_. others_kept cid w0) w"
  using assms by (simp_all add: cache_delete_conversation_def cache_delete_last_50_def wp_simps split: fault.split)

lemma msg_delete_all_keeps:
  assumes "others_kept cid w0 w"
  shows "wp (msg_delete_all cid) (\<lambda>_. others_kept cid w0) (\<lambda>_. others_kept cid w0) w"
  using assms by (simp add: msg_delete_all_def wp_simps split: fault.split)

lemma conv_hard_delete_keeps:
  assumes "others_kept cid w0 w"
  shows "wp (conv_hard_delete cid) (\<lambda>_. others_kept cid w0) (\<lambda>_. others_kept cid w0) w"
proof -
  have "wp (conv_get cid) (\<lambda>_. others_kept cid w0) (\<lambda>_. others_kept cid w0) w"
    using assms by (simp add: conv_get_def wp_simps split: fault.split option.split sum.split)
  then show ?thesis unfolding conv_hard_delete_def wp_bnd
    by (rule wp_mono) (auto simp: wp_simps split: option.split fault.split)
qed

lemma purge_keeps_others: "wp (purge cid) (\<lambda>_. others_kept cid w) (\<lambda>_. others_kept cid w) w"
  unfolding purge_def wp_bnd wp_ret
  by (rule wp_mono [OF cache_deletes_keep(1) [OF others_kept_refl]], rule wp_mono [OF cache_deletes_keep(2)], assumption,
      rule wp_mono [OF msg_delete_all_keeps], assumption, rule wp_mono [OF conv_hard_delete_keeps])

definition cleared :: "uuid \<Rightarrow> world \<Rightarrow> world" where
  "cleared cid w = (if w_redis_on w then del_msgs cid (w\<lparr>w_rconv := (w_rconv w)(cid := None)\<rparr>) else w)\<lparr>w_msgs := (w_msgs w)(cid := [])\<rparr>"

lemma cleared_simps [simp]:
  "w_conv (cleared cid w) = w_conv w" "w_catalog (cleared cid w) = w_catalog w" "calm (cleared cid w) = calm w"
  "w_msgs (cleared cid w) cid = []" "w_redis_on (cleared cid w) = w_redis_on w" "catalog_ok (cleared cid w) = catalog_ok w"
  "w_redis_on w \<Longrightarrow> w_rconv (cleared cid w) cid = None" "w_redis_on w \<Longrightarrow> w_rmsgs (cleared cid w) cid = None"
  by (simp_all add: cleared_def del_msgs_def calm_def catalog_ok_def)

lemma wp_purge_calm:
  assumes "calm w"
  shows "wp (purge cid) Q E w = wp (conv_hard_delete cid) (\<lambda>_. Q ()) E (cleared cid w)"
proof -
  have "calm (w\<lparr>w_rconv := m\<rparr>)" "calm (del_msgs cid (w\<lparr>w_rconv := m\<rparr>))" for m
    using assms by (simp_all add: calm_def del_msgs_def)
  moreover have "w_msgs (del_msgs cid w') = w_msgs w'" for w' by (simp add: del_msgs_def)
  ultimately show ?thesis using assms
    by (cases "w_redis_on w") (simp_all add: purge_def cache_delete_conversation_def cache_delete_last_50_def msg_delete_all_def
        wp_bnd wp_ret wp_when_redis wp_attempt wp_ext_calm cleared_def)
qed

lemma wp_hard_delete_calm:
  assumes "calm w"
  shows "w_conv w cid = None \<Longrightarrow> wp (conv_hard_delete cid) Q E w = Q False w"
    and "w_conv w cid = Some r \<Longrightarrow> conversation_of cid r = Inr c \<Longrightarrow>
      wp (conv_hard_delete cid) Q E w = Q True (put_conv cid None (drop_cat (cr_user r) (cr_updated r, cid) w))"
  using assms by (simp_all add: conv_hard_delete_def conv_get_def wp_bnd wp_ret wp_ext_calm conversation_of_fields)

lemma purge_calm:
  assumes "calm w" and "catalog_ok w" and "\<forall>r. w_conv w cid = Some r \<longrightarrow> conv_status_of (cr_status r) \<noteq> None"
  shows "wp (purge cid) (\<lambda>_ w'. calm w' \<and> purged cid w' \<and> catalog_ok w') (\<lambda>_ _. False) w"
proof -
  have gone: "\<forall>u. \<forall>x \<in> set (w_catalog w' u). ct_conv x \<noteq> cid"
    if "catalog_ok w'" "w_conv w' cid = None" for w' using that by (fastforce dest: catalog_conv)
  show ?thesis
  proof (cases "w_conv w cid")
    case None
    then show ?thesis using assms(1,2) gone [of "cleared cid w"]
      by (simp add: wp_purge_calm wp_hard_delete_calm(1) purged_def)
  next
    case (Some r)
    then obtain c where c: "conversation_of cid r = Inr c"
      using assms(3) by (fastforce simp: conversation_of_def)
    let ?w = "put_conv cid None (drop_cat (cr_user r) (cr_updated r, cid) (cleared cid w))"
    have ok: "catalog_ok ?w" by (rule catalog_ok_remove) (simp_all add: assms(2) Some)
    have "purged cid ?w" using gone [OF ok] by (simp add: purged_def put_conv_def drop_cat_def)
    moreover have "calm ?w" using assms(1) by (simp add: calm_def put_conv_def drop_cat_def cleared_def del_msgs_def)
    ultimately show ?thesis using assms(1) Some c ok by (simp add: wp_purge_calm wp_hard_delete_calm(2))
  qed
qed

section \<open>Properties\<close>

text \<open>
  The deletion event of a conversation, handled while no call fails, removes the conversation for good: its messages,
  its row, every catalog row and both cached copies are gone, the two tables still mirror each other, nothing of any
  other conversation changes, and the record is committed.
\<close>

theorem cleanup_purges_conversation:
  assumes "calm w" and "catalog_ok w" and "\<forall>r. w_conv w cid = Some r \<longrightarrow> conv_status_of (cr_status r) \<noteq> None"
  shows "wp (cleanup_record pos (deletion_event cid))
     (\<lambda>_ (w', c'). purged cid w' \<and> catalog_ok w' \<and> others_kept cid w w' \<and> c' = Suc pos) (\<lambda>_ _. False) (w, c)"
  unfolding cleanup_record_def wp_attempt wp_bnd wp_on_world wp_cleanup_deletion
  by (rule wp_mono [OF wp_conj [OF purge_calm [OF assms] purge_keeps_others]]) (auto simp: wp_simps)

theorem cleanup_purges_conversation_witness:
  "wp (cleanup_record 3 (deletion_event 5))
     (\<lambda>_ (w', c'). purged 5 w' \<and> catalog_ok w' \<and> others_kept 5 (empty_world 0) w' \<and> c' = Suc 3) (\<lambda>_ _. False) (empty_world 0, 0)"
  by (rule cleanup_purges_conversation) (simp_all add: calm_def catalog_ok_def empty_world_def clustered_def)

text \<open>
  A clean-up that fails is not tried again. Whenever a record is done with, its offset has been committed, whatever the
  record was and whatever failed; in particular, when the deletion of the messages is refused, the record is committed
  and the conversation, its catalog row and its messages all stay.
\<close>

theorem failed_purge_is_committed:
  assumes "w_redis_on w" and "w_sched w = [Okay, Okay, Refused]"
  shows "wp (cleanup_record pos body) (\<lambda>_ (w', c'). c' = Suc pos) (\<lambda>_ _. True) (v, c) \<and>
     wp (cleanup_record pos (deletion_event cid))
       (\<lambda>_ (w', c'). c' = Suc pos \<and> w_msgs w' = w_msgs w \<and> w_conv w' = w_conv w \<and> w_catalog w' = w_catalog w)
       (\<lambda>_ _. False) (w, c)"
proof
  show "wp (cleanup_record pos body) (\<lambda>_ (w', c'). c' = Suc pos) (\<lambda>_ _. True) (v, c)"
    unfolding cleanup_record_def wp_attempt wp_bnd wp_on_world
    by (rule wp_mono [OF wp_True]) (simp_all add: wp_commit split: fault.split)
  have "wp (purge cid) (\<lambda>_ _. False)
      (\<lambda>e w'. next_fault w' = Okay \<and> w_msgs w' = w_msgs w \<and> w_conv w' = w_conv w \<and> w_catalog w' = w_catalog w) w"
    using assms by (simp add: purge_def cache_delete_conversation_def cache_delete_last_50_def msg_delete_all_def
        wp_bnd wp_ret wp_when_redis wp_attempt wp_ext next_fault_def del_msgs_def)
  then show "wp (cleanup_record pos (deletion_event cid))
       (\<lambda>_ (w', c'). c' = Suc pos \<and> w_msgs w' = w_msgs w \<and> w_conv w' = w_conv w \<and> w_catalog w' = w_catalog w)
       (\<lambda>_ _. False) (w, c)"
    unfolding cleanup_record_def wp_attempt wp_bnd wp_on_world wp_cleanup_deletion
    by (rule wp_mono) (simp_all add: wp_commit)
qed

theorem failed_purge_is_committed_witness:
  "wp (cleanup_record 3 None) (\<lambda>_ (w', c'). c' = Suc 3) (\<lambda>_ _. True) (empty_world 0, 0) \<and>
     wp (cleanup_record 3 (deletion_event 5))
       (\<lambda>_ (w', c'). c' = Suc 3 \<and> w_msgs w' = w_msgs ((empty_world 0)\<lparr>w_sched := [Okay, Okay, Refused]\<rparr>) \<and>
          w_conv w' = w_conv ((empty_world 0)\<lparr>w_sched := [Okay, Okay, Refused]\<rparr>) \<and>
          w_catalog w' = w_catalog ((empty_world 0)\<lparr>w_sched := [Okay, Okay, Refused]\<rparr>))
       (\<lambda>_ _. False) ((empty_world 0)\<lparr>w_sched := [Okay, Okay, Refused]\<rparr>, 0)"
  by (rule failed_purge_is_committed) (simp_all add: empty_world_def)

section \<open>Summaries\<close>

definition summary_payload :: "uuid \<Rightarrow> uuid \<Rightarrow> string \<Rightarrow> json option" where
  "summary_payload event_id cid summary = Some (JObj [(''event_id'', JStr (uuid_str event_id)),
     (''payload'', JObj [(''conversation_id'', JStr (uuid_str cid)), (''summary'', JStr summary)])])"

lemma wp_summary_event:
  assumes "summary \<noteq> []"
  shows "wp (summary_event sid (summary_payload event_id cid summary)) Q E w =
     wp (bnd (inbox_exists (EventId event_id)) (\<lambda>dup. if dup then ret ()
        else bnd (attach_summary sid cid summary) (\<lambda>_. inbox_save (EventId event_id)))) Q E w"
  using assms by (simp add: summary_event_def summary_payload_def jget_or_def wp_bnd wp_if wp_ret wp_ext inbox_exists_def
      py_str_def cong: if_cong)

lemma del_msgs_simps [simp]:
  "w_msgs (del_msgs cid w) = w_msgs w" "w_inbox (del_msgs cid w) = w_inbox w" "w_now (del_msgs cid w) = w_now w"
  "calm (del_msgs cid w) = calm w" "calm (put_msg cid mid f w) = calm w"
  by (simp_all add: del_msgs_def calm_def)

text \<open>An event the inbox knows changes no row and no cached copy, under any schedule.\<close>

lemma summary_known_event:
  assumes "inbox_has w (EventId event_id)" and "summary \<noteq> []"
  shows "wp (summary_record pos (sid, summary_payload event_id cid summary))
     (\<lambda>_ (w', c'). w_msgs w' = w_msgs w \<and> w_rmsgs w' = w_rmsgs w \<and> w_inbox w' = w_inbox w) (\<lambda>_ _. False) (w, c)"
  unfolding summary_record_def wp_attempt wp_bnd wp_on_world fst_conv snd_conv wp_summary_event [OF assms(2)] inbox_exists_def
  using assms(1) by (simp add: wp_ext wp_ret wp_commit split: fault.split)

text \<open>
  A generated summary is stored once. When no call fails, its event leaves the summary as a sent message of the system
  under the drawn id, no other message of any conversation changes, and the record is committed; when the same event
  comes again, whatever fails then, nothing more is written.
\<close>

theorem summary_stored_once:
  assumes "calm w" and "msgs_ok w" and "summary \<noteq> []" and "\<not> inbox_has w (EventId event_id)"
  shows "wp (summary_record pos (sid, summary_payload event_id cid summary))
     (\<lambda>_ (w', c'). c' = Suc pos \<and> holds_summary w' cid sid summary \<and>
        (\<forall>c m. (c, m) \<noteq> (cid, sid) \<longrightarrow> msg_of w' c m = msg_of w c m) \<and>
        wp (summary_record pos2 (sid2, summary_payload event_id cid summary))
          (\<lambda>_ (w2, c2). w_msgs w2 = w_msgs w') (\<lambda>_ _. False) (w'\<lparr>w_sched := faults\<rparr>, c'))
     (\<lambda>_ _. False) (w, c)"
proof -
  let ?row = "\<lambda>r. r\<lparr>mr_sender := Some ''system'', mr_content := Some (''Summary: '' @ summary),
     mr_created := Some (db_time (w_now w)), mr_status := Some ''sent''\<rparr>"
  let ?put = "put_msg cid sid ?row w"
  let ?key = "EventId event_id"
  have calm: "calm ?put" using assms(1) by (simp add: calm_def)
  have row: "msg_of ?put cid sid = Some (?row (case msg_of w cid sid of None \<Rightarrow> blank_msg sid | Some r \<Rightarrow> r))"
    and other: "(c, m) \<noteq> (cid, sid) \<Longrightarrow> msg_of ?put c m = msg_of w c m" for c m
    using assms(2) by (auto simp: msg_of_put keeps_id_def)
  have event: "wp (summary_event sid (summary_payload event_id cid summary))
     (\<lambda>_ w'. calm w' \<and> inbox_has w' ?key \<and> w_msgs w' = w_msgs ?put) (\<lambda>_ _. False) w"
    using assms calm unfolding wp_summary_event [OF assms(3)]
    by (simp add: wp_bnd wp_ret wp_ext inbox_exists_def attach_summary_def msg_create_direct_def wp_getting wp_Let
        status_of_def invalidate_cache_def cache_delete_last_50_def wp_when_redis wp_attempt inbox_save_def)
      (simp add: inbox_has_def sec_def)
  show ?thesis
    unfolding summary_record_def [of pos] wp_attempt wp_bnd [of _ "\<lambda>_. commit pos"] wp_on_world fst_conv snd_conv
  proof (rule wp_mono [OF event], goal_cases)
    case (1 u w')
    have known: "inbox_has (w'\<lparr>w_sched := faults\<rparr>) ?key" using 1 by (simp add: inbox_has_def split: option.splits)
    have again: "wp (summary_record pos2 (sid2, summary_payload event_id cid summary))
          (\<lambda>_ (w2, c2). w_msgs w2 = w_msgs w') (\<lambda>_ _. False) (w'\<lparr>w_sched := faults\<rparr>, Suc pos)"
      by (rule wp_mono [OF summary_known_event [OF known assms(3)]]) auto
    have "msg_of w' = msg_of ?put" using 1 by (simp add: msg_of_def fun_eq_iff)
    then show ?case using 1 row other again by (simp add: wp_commit holds_summary_def)
  qed simp
qed

theorem summary_stored_once_witness:
  "wp (summary_record 0 (7, summary_payload 9 5 ''s''))
     (\<lambda>_ (w', c'). c' = Suc 0 \<and> holds_summary w' 5 7 ''s'' \<and>
        (\<forall>c m. (c, m) \<noteq> (5, 7) \<longrightarrow> msg_of w' c m = msg_of (empty_world 0) c m) \<and>
        wp (summary_record 0 (8, summary_payload 9 5 ''s''))
          (\<lambda>_ (w2, c2). w_msgs w2 = w_msgs w') (\<lambda>_ _. False) (w'\<lparr>w_sched := [Refused]\<rparr>, c'))
     (\<lambda>_ _. False) (empty_world 0, 0)"
  by (rule summary_stored_once)
     (simp_all add: calm_def empty_world_def msgs_ok_def clustered_def inbox_has_def)

text \<open>
  The id of a summary is a \<open>uuid4\<close>, the ids of the other messages are \<open>uuidv7\<close>: the clustering order compares the
  version first, so a summary stands behind every message of the conversation, however old.
\<close>

lemma summary_stands_last: "uuid_version sid = 4 \<Longrightarrow> uuid_version m = 7 \<Longrightarrow> msg_lt m sid"
  by (simp add: msg_lt_def ckey_def)

lemma take_before:
  assumes "clustered msg_lt mr_id rs" and "\<forall>r \<in> set rs. mr_id r = sid \<or> msg_lt (mr_id r) sid" and "n < length rs"
  shows "sid \<notin> mr_id ` set (take n rs)"
  using assms
proof (induction rs arbitrary: n)
  case (Cons r rs)
  show ?case
  proof (cases n)
    case (Suc k)
    have "mr_id r \<noteq> sid"
    proof
      assume r: "mr_id r = sid"
      obtain x where x: "x \<in> set rs" using Cons.prems(3) Suc by (cases rs) auto
      then have "msg_lt sid (mr_id x)" using Cons.prems(1) r by (auto simp: clustered_def)
      moreover have "mr_id x = sid \<or> msg_lt (mr_id x) sid" using Cons.prems(2) x by simp
      ultimately show False by (auto simp: msg_lt_def)
    qed
    moreover have "sid \<notin> mr_id ` set (take k rs)"
      by (rule Cons.IH) (use Cons.prems Suc in \<open>auto simp: clustered_def\<close>)
    ultimately show ?thesis using Suc by auto
  qed simp
qed simp

text \<open>
  A summary never shows up among the newest messages: in a conversation whose other messages carry UUIDv7 ids, the page of
  the newest messages a read fetches does not hold the summary unless it holds the whole conversation.
\<close>

theorem summary_outside_newest_page:
  assumes "msgs_ok w" and "uuid_version sid = 4"
    and "\<forall>r \<in> set (w_msgs w cid). mr_id r = sid \<or> uuid_version (mr_id r) = 7" and "n < length (w_msgs w cid)"
  shows "wp (msg_history cid n None) (\<lambda>ms w'. sid \<notin> m_id ` set ms) (\<lambda>_ _. True) w"
proof -
  have "sid \<notin> mr_id ` set (take n (w_msgs w cid))"
    by (rule take_before) (use assms summary_stands_last in \<open>auto simp: msgs_ok_def\<close>)
  moreover have "m_id ` set ms \<subseteq> mr_id ` set rs" if "history_rows cid rs = Inr ms" for rs ms
    using that by (induction rs arbitrary: ms) (fastforce simp: message_of_row_def split: if_splits option.splits sum.splits)+
  ultimately have "sid \<notin> m_id ` set ms" if "history_rows cid (take n (w_msgs w cid)) = Inr ms" for ms
    using that by blast
  then show ?thesis by (simp add: msg_history_def wp_bnd wp_ext wp_lift_result split: fault.split sum.split)
qed

text \<open>A conversation with one answer and its summary.\<close>

definition summarised_world :: world where
  "summarised_world = (empty_world 0)\<lparr>w_msgs := (\<lambda>_. []) (5 :=
     map (\<lambda>i. (blank_msg i)\<lparr>mr_status := Some ''sent''\<rparr>) [0x7000800000000000000F, 0x4000800000000000000A])\<rparr>"

theorem summary_outside_newest_page_witness:
  "wp (msg_history 5 1 None) (\<lambda>ms w'. 0x4000800000000000000A \<notin> m_id ` set ms) (\<lambda>_ _. True) summarised_world"
  by (rule summary_outside_newest_page)
     (simp_all add: summarised_world_def empty_world_def msgs_ok_def clustered_def msg_lt_def ckey_def uuid_version_def)


end
