(* ===== verification/Migration.thy ===== *)
theory Migration
  imports Preferences
begin

text \<open>
  \<open>app/migration/preferences_to_postgres.py\<close>: the copy of the legacy preference rows into PostgreSQL. A legacy row is the dict
  Cassandra answers with, a missing or null entry being None; its \<open>user_id\<close> is given as text. The row written is a
  \<open>pref_row\<close>; the process reads its clock where a row has no time of its own (\<open>now\<close>). The rate limit only waits.
\<close>

record legacy_row =
  lr_user :: "string option"
  lr_mode :: "string option"
  lr_tools :: "string list option"
  lr_length :: "string option"
  lr_tone :: "string option"
  lr_language :: "string option"
  lr_instr :: "string option"
  lr_cites :: "string option"
  lr_doc :: "string option"
  lr_version :: "int option"
  lr_updated :: "int option"

record migration_report =
  mg_examined :: nat
  mg_inserted :: nat
  mg_refreshed :: nat
  mg_skipped :: nat
  mg_rejected :: nat
  mg_normalized :: nat
  mg_rejects :: "(string option \<times> string) list"
  mg_verified :: nat
  mg_mismatches :: "(uuid \<times> string list) list"

definition empty_report :: migration_report where
  "empty_report = \<lparr>mg_examined = 0, mg_inserted = 0, mg_refreshed = 0, mg_skipped = 0, mg_rejected = 0, mg_normalized = 0,
     mg_rejects = [], mg_verified = 0, mg_mismatches = []\<rparr>"

section \<open>One row\<close>

text \<open>\<open>UserPreferences.from_row\<close> of the dict: a missing field has its default.\<close>

definition legacy_prefs :: "legacy_row \<Rightarrow> preferences" where
  "legacy_prefs r = from_row (Some
     \<lparr>pr_mode = lr_mode r, pr_custom = None, pr_tools = or_default (lr_tools r) [],
      pr_length = or_default (lr_length r) (length_value BALANCED), pr_tone = or_default (lr_tone r) (tone_value PROFESSIONAL),
      pr_language = or_default (lr_language r) ''auto'', pr_instr = or_default (lr_instr r) [],
      pr_cites = or_default (lr_cites r) (cites_value SHOW), pr_doc = or_default (lr_doc r) (doc_value CONVERSATION),
      pr_version = 0, pr_updated = 0\<rparr>)"

definition changed :: "'a option \<Rightarrow> 'a \<Rightarrow> nat" where
  "changed old new = (case old of None \<Rightarrow> 0 | Some x \<Rightarrow> if x = new then 0 else 1)"

text \<open>The row for PostgreSQL, the number of fields replaced by their defaults, or the reason of a rejection.\<close>

definition transform :: "int \<Rightarrow> legacy_row \<Rightarrow> (string, (uuid \<times> pref_row) \<times> nat) sum" where
  "transform now r = (case (case lr_user r of None \<Rightarrow> None | Some t \<Rightarrow> parse_uuid t) of
     None \<Rightarrow> Inl ''invalid_user_id''
   | Some user \<Rightarrow>
       (let p = legacy_prefs r;
            n = changed (lr_tools r) (pf_tools p) + changed (lr_length r) (length_value (pf_length p)) +
                changed (lr_tone r) (tone_value (pf_tone p)) + changed (lr_language r) (pf_language p) +
                changed (lr_instr r) (pf_instr p) + changed (lr_cites r) (cites_value (pf_cites p)) +
                changed (lr_doc r) (doc_value (pf_doc p));
            n1 = (if lr_mode r \<noteq> None \<and> lr_mode r \<noteq> Some [] \<and> pf_mode p = None then n + 1 else n);
            custom = (pf_mode p \<noteq> None \<and> parse_custom_ref (pf_mode p) \<noteq> None)
        in Inr ((user,
             \<lparr>pr_mode = (if custom then None else pf_mode p), pr_custom = None, pr_tools = pf_tools p,
              pr_length = length_value (pf_length p), pr_tone = tone_value (pf_tone p), pr_language = pf_language p,
              pr_instr = pf_instr p, pr_cites = cites_value (pf_cites p), pr_doc = doc_value (pf_doc p),
              pr_version = max (or_default (lr_version r) 0) 1, pr_updated = or_default (lr_updated r) now\<rparr>),
            if custom then n1 + 1 else n1)))"

section \<open>Writing\<close>

datatype upserted = Put_new | Put_newer | Left_alone

text \<open>The condition of the upsert: the legacy row is newer in version and in time.\<close>

definition newer :: "pref_row \<Rightarrow> pref_row \<Rightarrow> bool" where
  "newer new old \<longleftrightarrow> pr_version old < pr_version new \<and> pr_updated old < pr_updated new"

definition upsert_pref :: "uuid \<times> pref_row \<Rightarrow> pg \<Rightarrow> (exn + upserted) \<times> pg" where
  "upsert_pref = (\<lambda>(user, new) s. case pg_prefs s user of
     None \<Rightarrow> (Inr Put_new, s\<lparr>pg_prefs := (pg_prefs s)(user \<mapsto> new)\<rparr>)
   | Some old \<Rightarrow>
       if newer new old then (Inr Put_newer, s\<lparr>pg_prefs := (pg_prefs s)(user \<mapsto> new)\<rparr>) else (Inr Left_alone, s))"

fun count_upsert :: "upserted \<Rightarrow> migration_report \<Rightarrow> migration_report" where
  "count_upsert Put_new m = m\<lparr>mg_inserted := mg_inserted m + 1\<rparr>"
| "count_upsert Put_newer m = m\<lparr>mg_refreshed := mg_refreshed m + 1\<rparr>"
| "count_upsert Left_alone m = m\<lparr>mg_skipped := mg_skipped m + 1\<rparr>"

definition preview :: "(uuid \<Rightarrow> pref_row option) \<Rightarrow> uuid \<times> pref_row \<Rightarrow> upserted" where
  "preview existing = (\<lambda>(user, new). case existing user of
     None \<Rightarrow> Put_new | Some old \<Rightarrow> if newer new old then Put_newer else Left_alone)"

text \<open>\<open>flush\<close>: one transaction per batch; a dry run reads the rows and only counts.\<close>

definition write_one :: "uuid \<times> pref_row \<Rightarrow> migration_report \<Rightarrow> (pg, migration_report) prog" where
  "write_one x m = bnd (sql (upsert_pref x)) (\<lambda>u. ret (count_upsert u m))"

definition flush_batch :: "bool \<Rightarrow> (uuid \<times> pref_row) list \<Rightarrow> migration_report \<Rightarrow> (pg, migration_report) prog" where
  "flush_batch dry batch m =
     (if batch = [] then ret m
      else if dry then bnd (select pg_prefs) (\<lambda>existing. ret (fold (\<lambda>x. count_upsert (preview existing x)) batch m))
      else transact (fold_prog write_one batch m))"

definition rejected :: "legacy_row \<Rightarrow> string \<Rightarrow> migration_report \<Rightarrow> migration_report" where
  "rejected r reason m = m\<lparr>mg_rejected := mg_rejected m + 1, mg_rejects := mg_rejects m @ [(lr_user r, reason)]\<rparr>"

fun migrate_rows ::
  "bool \<Rightarrow> nat \<Rightarrow> legacy_row list \<Rightarrow> (uuid \<times> pref_row) list \<Rightarrow> migration_report \<Rightarrow> (pg, migration_report) prog" where
  "migrate_rows dry bound [] batch m = flush_batch dry batch m"
| "migrate_rows dry bound (r # rs) batch m =
     bnd (getting pg_now) (\<lambda>now.
     (let m' = m\<lparr>mg_examined := mg_examined m + 1\<rparr> in
      case transform now r of
        Inl reason \<Rightarrow> migrate_rows dry bound rs batch (rejected r reason m')
      | Inr (x, n) \<Rightarrow>
          (let m2 = m'\<lparr>mg_normalized := mg_normalized m' + n\<rparr>; batch' = batch @ [x] in
           if bound \<le> length batch' then bnd (flush_batch dry batch' m2) (migrate_rows dry bound rs [])
           else migrate_rows dry bound rs batch' m2)))"

definition migrate :: "bool \<Rightarrow> nat \<Rightarrow> legacy_row list \<Rightarrow> (pg, migration_report) prog" where
  "migrate dry bound rows = migrate_rows dry bound rows [] empty_report"

section \<open>Verification\<close>

text \<open>The names of the fields that differ.\<close>

definition diff_fields :: "pref_row \<Rightarrow> pref_row \<Rightarrow> string list" where
  "diff_fields a b = map fst (filter snd
     [(''default_mode'', pr_mode a \<noteq> pr_mode b), (''default_tools'', pr_tools a \<noteq> pr_tools b), (''answer_length'', pr_length a \<noteq> pr_length b),
      (''tone'', pr_tone a \<noteq> pr_tone b), (''language'', pr_language a \<noteq> pr_language b),
      (''personal_instructions'', pr_instr a \<noteq> pr_instr b), (''citations'', pr_cites a \<noteq> pr_cites b),
      (''document_context'', pr_doc a \<noteq> pr_doc b)])"

definition verify_row :: "legacy_row \<Rightarrow> migration_report \<Rightarrow> (pg, migration_report) prog" where
  "verify_row r m =
     bnd (getting pg_now) (\<lambda>now. case transform now r of
       Inl _ \<Rightarrow> ret m
     | Inr ((user, new), _) \<Rightarrow>
         bnd (select (\<lambda>s. pg_prefs s user)) (\<lambda>stored. ret (case stored of
           None \<Rightarrow> m\<lparr>mg_mismatches := mg_mismatches m @ [(user, [''<missing row>''])]\<rparr>
         | Some old \<Rightarrow>
             if pr_version new < pr_version old then m
             else if diff_fields old new = [] then m\<lparr>mg_verified := mg_verified m + 1\<rparr>
             else m\<lparr>mg_mismatches := mg_mismatches m @ [(user, diff_fields old new)]\<rparr>)))"

definition verify :: "legacy_row list \<Rightarrow> migration_report \<Rightarrow> (pg, migration_report) prog" where
  "verify rows = fold_prog verify_row rows"

section \<open>What a migration may change\<close>

text \<open>The table \<open>t\<close> comes from the table \<open>s\<close> by adding rows of users without one and by strictly newer rows.\<close>

definition advanced :: "pg \<Rightarrow> pg \<Rightarrow> bool" where
  "advanced s t \<longleftrightarrow> pg_modes t = pg_modes s \<and> pg_notes t = pg_notes s \<and> pg_edits t = pg_edits s \<and> pg_now t = pg_now s \<and>
     (\<forall>u old. pg_prefs s u = Some old \<longrightarrow> pg_prefs t u = Some old \<or> (\<exists>new. pg_prefs t u = Some new \<and> newer new old))"

lemma newer_trans: "newer c b \<Longrightarrow> newer b a \<Longrightarrow> newer c a"
  by (simp add: newer_def)

lemma advanced_refl [simp]: "advanced s s" "advanced s (pg_pop s)" "advanced s (s\<lparr>pg_down := d\<rparr>)"
  by (simp_all add: advanced_def)

lemma advanced_pop: "advanced s t \<Longrightarrow> advanced s (pg_pop t)"
  by (simp add: advanced_def)

lemma advanced_trans: "advanced s t \<Longrightarrow> advanced t v \<Longrightarrow> advanced s v"
proof -
  assume st: "advanced s t" and tv: "advanced t v"
  have "pg_prefs v u = Some old \<or> (\<exists>new. pg_prefs v u = Some new \<and> newer new old)" if "pg_prefs s u = Some old" for u old
  proof -
    obtain mid where mid: "pg_prefs t u = Some mid" "mid = old \<or> newer mid old"
      using st \<open>pg_prefs s u = Some old\<close> by (auto simp: advanced_def)
    then show ?thesis using tv by (auto simp: advanced_def intro: newer_trans)
  qed
  then show "advanced s v" using st tv by (simp add: advanced_def)
qed

lemma upsert_total: "\<exists>u t'. upsert_pref x t = (Inr u, t') \<and> advanced t t'"
  by (cases x) (auto simp: upsert_pref_def advanced_def split: option.split)

lemma wp_write_one: "wp (write_one x m) (\<lambda>_ t. advanced s t) (\<lambda>_ t. advanced s t) t" if "advanced s t"
proof -
  obtain u t' where up: "upsert_pref x (pg_pop t) = (Inr u, t')" "advanced (pg_pop t) t'" using upsert_total by blast
  have pop: "advanced s (pg_pop t)" using that by (rule advanced_trans) simp
  have "advanced s t'" by (rule advanced_trans [OF pop up(2)])
  then show ?thesis using pop up(1) by (simp add: write_one_def wp_bnd wp_sql wp_ret wp_def [of "upsert_pref x"])
qed

lemma wp_flush: "wp (flush_batch dry batch m) (\<lambda>_ t. advanced s t) (\<lambda>_ t. advanced s t) s"
proof -
  have "wp (fold_prog write_one batch m) (\<lambda>_ t. advanced s t) (\<lambda>_ t. advanced s t) s"
    by (rule wp_fold_prog_inv [where I = "advanced s"]) (auto intro: wp_write_one)
  then have "wp (transact (fold_prog write_one batch m)) (\<lambda>_ t. advanced s t) (\<lambda>_ t. advanced s t) s"
    unfolding wp_transact by (rule wp_mono) (auto intro: advanced_pop)
  then show ?thesis by (simp add: flush_batch_def wp_simps)
qed

lemma wp_migrate_rows: "wp (migrate_rows dry bound rs batch m) (\<lambda>_ t. advanced s t) (\<lambda>_ t. advanced s t) t" if "advanced s t"
  using that
proof (induction rs arbitrary: batch m t)
  case Nil
  show ?case unfolding migrate_rows.simps by (rule wp_mono [OF wp_flush]) (use Nil advanced_trans in blast)+
next
  case (Cons r rs)
  have flush: "wp (bnd (flush_batch dry b m') (migrate_rows dry bound rs [])) (\<lambda>_ t. advanced s t) (\<lambda>_ t. advanced s t) t" for b m'
    unfolding wp_bnd by (rule wp_mono [OF wp_flush]) (use Cons advanced_trans in blast)+
  show ?case unfolding migrate_rows.simps wp_bnd [of "getting _"] wp_getting Let_def
    by (auto simp: Cons.IH [OF Cons.prems] flush split: sum.split)
qed

text \<open>C31:
  The migration never overwrites newer data: whatever statements fail, and whether it runs to its end or not, every row of
  PostgreSQL is afterwards what it was, or was replaced by one that is newer in version and in time; no other table changes.
\<close>

theorem migrate_keeps_newer:
  "wp (migrate dry bound rows) (\<lambda>_ t. advanced s t) (\<lambda>_ t. advanced s t) s"
  unfolding migrate_def by (rule wp_migrate_rows) simp

section \<open>The migration as one pass\<close>

text \<open>The reference: the rows one after the other, without batches, over the table alone; a dry run leaves the table.\<close>

definition land :: "bool \<Rightarrow> uuid \<times> pref_row \<Rightarrow> (uuid \<Rightarrow> pref_row option) \<Rightarrow> uuid \<Rightarrow> pref_row option" where
  "land dry x t = (if dry \<or> preview t x = Left_alone then t else t(fst x \<mapsto> snd x))"

fun copy_one :: "bool \<Rightarrow> uuid \<times> pref_row \<Rightarrow> migration_report \<times> (uuid \<Rightarrow> pref_row option) \<Rightarrow>
    migration_report \<times> (uuid \<Rightarrow> pref_row option)" where
  "copy_one dry x (m, t) = (count_upsert (preview t x) m, land dry x t)"

definition examined :: "migration_report \<Rightarrow> migration_report" where
  "examined m = m\<lparr>mg_examined := mg_examined m + 1\<rparr>"

definition normalized :: "nat \<Rightarrow> migration_report \<Rightarrow> migration_report" where
  "normalized n m = m\<lparr>mg_normalized := mg_normalized m + n\<rparr>"

definition copy_row :: "bool \<Rightarrow> int \<Rightarrow> legacy_row \<Rightarrow> migration_report \<times> (uuid \<Rightarrow> pref_row option) \<Rightarrow>
    migration_report \<times> (uuid \<Rightarrow> pref_row option)" where
  "copy_row dry now r = (\<lambda>(m, t). case transform now r of
     Inl reason \<Rightarrow> (rejected r reason (examined m), t)
   | Inr (x, n) \<Rightarrow> copy_one dry x (normalized n (examined m), t))"

definition landed :: "pg \<Rightarrow> migration_report \<times> (uuid \<Rightarrow> pref_row option) \<Rightarrow> (exn + migration_report) \<times> pg" where
  "landed s = (\<lambda>(m, t). (Inr m, s\<lparr>pg_prefs := t\<rparr>))"

lemma upsert_lands: "upsert_pref x s = (Inr (preview (pg_prefs s) x), s\<lparr>pg_prefs := land False x (pg_prefs s)\<rparr>)"
  by (cases x) (auto simp: upsert_pref_def preview_def land_def split: option.split)

lemma write_one_lands: "pg_calm s \<Longrightarrow> write_one x m s = landed s (copy_one False x (m, pg_prefs s))"
  by (simp add: write_one_def bnd_def sql_def ret_def upsert_lands landed_def)

lemma pg_calm_prefs [simp]: "pg_calm (s\<lparr>pg_prefs := t\<rparr>) = pg_calm s"
  by (simp add: pg_calm_def)

lemma landed_bnd: "pg_calm s \<Longrightarrow> m s = landed s c \<Longrightarrow> bnd m f s = f (fst c) (s\<lparr>pg_prefs := snd c\<rparr>)"
  by (cases c) (simp add: bnd_def landed_def)

lemma landed_again [simp]: "landed (s\<lparr>pg_prefs := t\<rparr>) c = landed s c"
  by (simp add: landed_def)

lemma writes_land: "pg_calm s \<Longrightarrow> fold_prog write_one batch m s = landed s (fold (copy_one False) batch (m, pg_prefs s))"
proof (induction batch arbitrary: m s)
  case Nil
  then show ?case by (simp add: landed_def ret_def)
next
  case (Cons x batch)
  show ?case using Cons.IH [of "s\<lparr>pg_prefs := snd (copy_one False x (m, pg_prefs s))\<rparr>"] Cons.prems
    by (simp add: landed_bnd [where m = "write_one x m", OF Cons.prems write_one_lands [OF Cons.prems]])
qed

lemma dry_counts: "fold (copy_one True) batch (m, t) = (fold (\<lambda>x. count_upsert (preview t x)) batch m, t)"
  by (induction batch arbitrary: m) (simp_all add: land_def)

lemma flush_lands: "pg_calm s \<Longrightarrow> flush_batch dry batch m s = landed s (fold (copy_one dry) batch (m, pg_prefs s))"
  by (auto simp: flush_batch_def transact_def writes_land dry_counts bnd_def sql_def ret_def landed_def split: prod.split)

text \<open>What a batch postpones commutes with what is counted meanwhile.\<close>

lemma counts_commute [simp]:
  "count_upsert u (examined m) = examined (count_upsert u m)"
  "count_upsert u (normalized n m) = normalized n (count_upsert u m)"
  "count_upsert u (rejected r reason m) = rejected r reason (count_upsert u m)"
  by (cases u; simp add: examined_def normalized_def rejected_def)+

lemma postponed:
  assumes "\<And>u m. count_upsert u (g m) = g (count_upsert u m)"
  shows "fold (copy_one dry) batch (g m, t) = map_prod g id (fold (copy_one dry) batch (m, t))"
  by (induction batch arbitrary: m t) (simp_all add: assms)

lemma migrate_rows_land:
  "pg_calm s \<Longrightarrow> migrate_rows dry bound rs batch m s =
     landed s (fold (copy_row dry (pg_now s)) rs (fold (copy_one dry) batch (m, pg_prefs s)))"
proof (induction rs arbitrary: batch m s)
  case Nil
  then show ?case by (simp add: flush_lands)
next
  case (Cons r rs)
  let ?c = "fold (copy_one dry) batch (m, pg_prefs s)"
  show ?case
  proof (cases "transform (pg_now s) r")
    case (Inl reason)
    have "migrate_rows dry bound (r # rs) batch m s = migrate_rows dry bound rs batch (rejected r reason (examined m)) s"
      by (simp add: bnd_def getting_def Inl examined_def)
    moreover have "fold (copy_one dry) batch (rejected r reason (examined m), pg_prefs s) = copy_row dry (pg_now s) r ?c"
      using postponed [of "\<lambda>m. rejected r reason (examined m)" dry batch m "pg_prefs s"]
      by (simp add: copy_row_def Inl split: prod.split)
    ultimately show ?thesis using Cons.IH [OF Cons.prems] by simp
  next
    case (Inr y)
    obtain x n where y: "y = (x, n)" by (cases y)
    let ?m = "normalized n (examined m)"
    have run: "migrate_rows dry bound (r # rs) batch m s =
        (if bound \<le> length (batch @ [x]) then bnd (flush_batch dry (batch @ [x]) ?m) (migrate_rows dry bound rs []) s
         else migrate_rows dry bound rs (batch @ [x]) ?m s)"
      by (simp add: bnd_def getting_def Inr y examined_def normalized_def Let_def)
    have now: "fold (copy_one dry) (batch @ [x]) (?m, pg_prefs s) = copy_row dry (pg_now s) r ?c"
      using postponed [of "\<lambda>m. normalized n (examined m)" dry batch m "pg_prefs s"]
      by (simp add: copy_row_def Inr y split: prod.split)
    have flushed: "bnd (flush_batch dry (batch @ [x]) ?m) (migrate_rows dry bound rs []) s =
        landed s (fold (copy_row dry (pg_now s)) rs (copy_row dry (pg_now s) r ?c))"
      using Cons.IH [of "s\<lparr>pg_prefs := snd (copy_row dry (pg_now s) r ?c)\<rparr>" "[]"] Cons.prems
      by (simp add: landed_bnd [where m = "flush_batch dry (batch @ [x]) ?m", OF Cons.prems flush_lands [OF Cons.prems]] now del: fold_append)
    show ?thesis using Cons.IH [OF Cons.prems, of "batch @ [x]" ?m] unfolding run now flushed by simp
  qed
qed

text \<open>
  The batches are only an optimisation: when no statement fails, the migration returns, and its report and the table it leaves
  are those of a single pass that writes each row by itself, whatever the batch size.
\<close>

theorem migrate_is_one_pass:
  "pg_calm s \<Longrightarrow> migrate dry bound rows s = landed s (fold (copy_row dry (pg_now s)) rows (empty_report, pg_prefs s))"
  by (simp add: migrate_def migrate_rows_land)

section \<open>A second run, and a dry run\<close>

text \<open>A migrated row is row_settled when the table holds a row of its user that the upsert leaves alone.\<close>

definition row_settled :: "(uuid \<Rightarrow> pref_row option) \<Rightarrow> uuid \<times> pref_row \<Rightarrow> bool" where
  "row_settled t x \<longleftrightarrow> preview t x = Left_alone"

lemma land_settles: "row_settled (land False x t) x"
  by (cases x) (auto simp: row_settled_def land_def preview_def newer_def)

lemma land_keeps_settled: "row_settled t y \<Longrightarrow> row_settled (land dry x t) y"
  by (cases x; cases y) (auto simp: row_settled_def land_def preview_def newer_def split: option.splits if_splits)

lemma copy_row_keeps_settled: "row_settled (snd c) y \<Longrightarrow> row_settled (snd (copy_row dry now r c)) y"
  by (cases c) (auto simp: copy_row_def land_keeps_settled split: sum.split)

lemma copy_rows_keep_settled: "row_settled (snd c) y \<Longrightarrow> row_settled (snd (fold (copy_row dry now) rs c)) y"
  by (induction rs arbitrary: c) (auto simp: copy_row_keeps_settled)

lemma copied_rows_settled:
  "r \<in> set rs \<Longrightarrow> transform now r = Inr (x, n) \<Longrightarrow> row_settled (snd (fold (copy_row False now) rs c)) x"
proof (induction rs arbitrary: c)
  case (Cons r' rs)
  show ?case
  proof (cases "r = r'")
    case True
    have "row_settled (snd (copy_row False now r c)) x"
      using Cons.prems(2) by (cases c) (simp add: copy_row_def land_settles)
    then show ?thesis using True by (simp add: copy_rows_keep_settled)
  next
    case False
    then show ?thesis using Cons by simp
  qed
qed simp

lemma settled_row_left: "row_settled t x \<Longrightarrow> transform now r = Inr (x, n) \<Longrightarrow>
    copy_row dry now r (m, t) = (count_upsert Left_alone (normalized n (examined m)), t)"
  by (simp add: copy_row_def row_settled_def land_def)

lemma settled_rows_left:
  assumes "\<And>r x n. r \<in> set rs \<Longrightarrow> transform now r = Inr (x, n) \<Longrightarrow> row_settled t x"
    and "mg_inserted m = 0" "mg_refreshed m = 0"
  shows "\<exists>m'. fold (copy_row dry now) rs (m, t) = (m', t) \<and> mg_inserted m' = 0 \<and> mg_refreshed m' = 0"
  using assms
proof (induction rs arbitrary: m)
  case (Cons r rs)
  have "\<exists>m'. copy_row dry now r (m, t) = (m', t) \<and> mg_inserted m' = 0 \<and> mg_refreshed m' = 0"
  proof (cases "transform now r")
    case (Inl reason)
    then show ?thesis using Cons.prems(2,3) by (simp add: copy_row_def rejected_def examined_def)
  next
    case (Inr y)
    then obtain x n where y: "transform now r = Inr (x, n)" by (cases y) auto
    have "row_settled t x" by (rule Cons.prems(1) [OF _ y]) simp
    then show ?thesis using Cons.prems(2,3) y by (simp add: settled_row_left examined_def normalized_def)
  qed
  then show ?case using Cons.IH Cons.prems(1) by force
qed simp

lemma transform_timed: "lr_updated r = Some z \<Longrightarrow> transform now r = transform now' r"
  by (simp add: transform_def or_default_def Let_def split: option.split)

text \<open>
  The migration is repeatable: when every legacy row carries its time, a second run over the same rows, at any later moment
  and with any batch size, finds nothing to do: it leaves the table as the first run left it and counts no row as inserted
  or refreshed.
\<close>

theorem second_run_changes_nothing:
  assumes "pg_calm s" "list_all (\<lambda>r. lr_updated r \<noteq> None) rows"
  shows "\<exists>m t. migrate False bound rows s = (Inr m, t) \<and>
    (\<exists>m'. migrate dry bound' rows (t\<lparr>pg_now := later\<rparr>) = (Inr m', t\<lparr>pg_now := later\<rparr>) \<and> mg_inserted m' = 0 \<and> mg_refreshed m' = 0)"
proof -
  let ?c = "fold (copy_row False (pg_now s)) rows (empty_report, pg_prefs s)"
  let ?t = "s\<lparr>pg_prefs := snd ?c\<rparr>"
  have "row_settled (snd ?c) x" if "r \<in> set rows" "transform later r = Inr (x, n)" for r x n
  proof -
    obtain z where "lr_updated r = Some z" using assms(2) \<open>r \<in> set rows\<close> by (auto simp: list_all_iff)
    then have "transform (pg_now s) r = Inr (x, n)" using transform_timed that(2) by metis
    then show ?thesis using that(1) by (rule copied_rows_settled [rotated])
  qed
  then obtain m' where "fold (copy_row dry later) rows (empty_report, snd ?c) = (m', snd ?c)" "mg_inserted m' = 0" "mg_refreshed m' = 0"
    using settled_rows_left [of rows later "snd ?c" empty_report dry] by (auto simp: empty_report_def)
  moreover have "pg_calm (?t\<lparr>pg_now := later\<rparr>)" using assms(1) by (simp add: pg_calm_def)
  ultimately have "migrate dry bound' rows (?t\<lparr>pg_now := later\<rparr>) = (Inr m', ?t\<lparr>pg_now := later\<rparr>)"
    by (simp add: migrate_def migrate_rows_land landed_def)
  moreover have "migrate False bound rows s = (Inr (fst ?c), ?t)"
    using assms(1) by (simp add: migrate_def migrate_rows_land landed_def split: prod.split)
  ultimately show ?thesis using \<open>mg_inserted m' = 0\<close> \<open>mg_refreshed m' = 0\<close> by blast
qed

definition row_user :: "legacy_row \<Rightarrow> uuid option" where
  "row_user r = (case lr_user r of None \<Rightarrow> None | Some t \<Rightarrow> parse_uuid t)"

lemma transform_user: "transform now r = Inr ((u, new), n) \<Longrightarrow> row_user r = Some u"
  by (auto simp: transform_def row_user_def Let_def split: option.splits if_splits)

lemma copy_row_reject: "transform now r = Inl reason \<Longrightarrow> copy_row dry now r (m, t) = (rejected r reason (examined m), t)"
  by (simp add: copy_row_def)

lemma copy_row_accept: "transform now r = Inr (x, n) \<Longrightarrow> copy_row dry now r (m, t) =
    (count_upsert (preview t x) (normalized n (examined m)), land dry x t)"
  by (simp add: copy_row_def)

lemma copies_agree:
  assumes "distinct (map row_user (filter (\<lambda>r. row_user r \<noteq> None) rs))"
    and "\<And>r u. r \<in> set rs \<Longrightarrow> row_user r = Some u \<Longrightarrow> t u = t' u"
  shows "fst (fold (copy_row True now) rs (m, t)) = fst (fold (copy_row False now) rs (m, t'))"
  using assms
proof (induction rs arbitrary: m t t')
  case (Cons r rs)
  have rest: "distinct (map row_user (filter (\<lambda>r. row_user r \<noteq> None) rs))" using Cons.prems(1) by (simp split: if_splits)
  show ?case
  proof (cases "transform now r")
    case (Inl reason)
    have "t u = t' u" if "q \<in> set rs" "row_user q = Some u" for q u
      using Cons.prems(2) [of q u] that by simp
    then show ?thesis using Cons.IH [OF rest] by (simp add: copy_row_reject [OF Inl])
  next
    case (Inr y)
    obtain u new n where y: "transform now r = Inr ((u, new), n)" using Inr by (cases y) auto
    note user = transform_user [OF y]
    have same: "preview t (u, new) = preview t' (u, new)" using Cons.prems(2) [of r u] user by (simp add: preview_def)
    have "t v = land False (u, new) t' v" if "q \<in> set rs" "row_user q = Some v" for q v
    proof -
      have "v \<noteq> u" using Cons.prems(1) user that by force
      then show ?thesis using Cons.prems(2) [of q v] that by (simp add: land_def)
    qed
    then show ?thesis using Cons.IH [OF rest, of t "land False (u, new) t'"]
      by (simp add: copy_row_accept [OF y] same) (simp add: land_def)
  qed
qed simp

lemma dry_rows_leave: "snd (fold (copy_row True now) rs (m, t)) = t"
proof (induction rs arbitrary: m)
  case (Cons r rs)
  have "snd (copy_row True now r (m, t)) = t" by (simp add: copy_row_def land_def split: sum.split prod.split)
  then show ?case using Cons.IH by (cases "copy_row True now r (m, t)") simp
qed simp

text \<open>
  A dry run tells the truth: when no two legacy rows are of the same user, it changes nothing and reports exactly what the
  real run counts, rejections and their reasons included.
\<close>

theorem dry_run_predicts:
  assumes "pg_calm s" "distinct (map row_user (filter (\<lambda>r. row_user r \<noteq> None) rows))"
  shows "migrate True bound rows s = (fst (migrate False bound' rows s), s)"
proof -
  let ?real = "fold (copy_row False (pg_now s)) rows (empty_report, pg_prefs s)"
  let ?dry = "fold (copy_row True (pg_now s)) rows (empty_report, pg_prefs s)"
  have "fst ?dry = fst ?real" using assms(2) by (intro copies_agree) auto
  moreover have "snd ?dry = pg_prefs s" by (rule dry_rows_leave)
  ultimately show ?thesis using assms(1)
    by (cases ?real; cases ?dry) (simp add: migrate_def migrate_rows_land landed_def)
qed

definition sample_rows :: "legacy_row list" where
  "sample_rows = [\<lparr>lr_user = Some (uuid_str 7), lr_mode = None, lr_tools = None, lr_length = None, lr_tone = None, lr_language = None,
     lr_instr = None, lr_cites = None, lr_doc = None, lr_version = Some 5, lr_updated = Some 50\<rparr>,
     \<lparr>lr_user = None, lr_mode = None, lr_tools = None, lr_length = None, lr_tone = None, lr_language = None,
     lr_instr = None, lr_cites = None, lr_doc = None, lr_version = None, lr_updated = Some 0\<rparr>]"

theorem migrate_is_one_pass_witness:
  "migrate False 1 sample_rows empty_pg =
     landed empty_pg (fold (copy_row False (pg_now empty_pg)) sample_rows (empty_report, pg_prefs empty_pg))"
  by (rule migrate_is_one_pass) (simp add: empty_pg_def pg_calm_def)

theorem second_run_changes_nothing_witness:
  "\<exists>m t. migrate False 1 sample_rows empty_pg = (Inr m, t) \<and>
    (\<exists>m'. migrate False 2 sample_rows (t\<lparr>pg_now := 9\<rparr>) = (Inr m', t\<lparr>pg_now := 9\<rparr>) \<and> mg_inserted m' = 0 \<and> mg_refreshed m' = 0)"
  by (rule second_run_changes_nothing) (simp_all add: empty_pg_def pg_calm_def sample_rows_def)

theorem dry_run_predicts_witness:
  "migrate True 1 sample_rows empty_pg = (fst (migrate False 2 sample_rows empty_pg), empty_pg)"
  by (rule dry_run_predicts) (simp_all add: empty_pg_def pg_calm_def sample_rows_def row_user_def)

text \<open>
  The hypothesis on the times is needed for the rule that rows edited through the application are never touched: a legacy row
  without a time counts as edited at the moment of the migration, and overwrites a row of lower version edited after it.
\<close>

theorem untimed_row_overwrites:
  assumes "pg_calm s" "lr_updated r = None" "row_user r = Some u" "pg_prefs s u = Some old"
    and "pr_version old < or_default (lr_version r) 0" "pr_updated old < pg_now s"
  shows "\<exists>m t new. migrate False bound [r] s = (Inr m, t) \<and> pg_prefs t u = Some new \<and> pr_version new = max (or_default (lr_version r) 0) 1 \<and>
    mg_refreshed m = 1"
proof -
  obtain new n where new: "transform (pg_now s) r = Inr ((u, new), n)" "pr_version new = max (or_default (lr_version r) 0) 1"
      "pr_updated new = pg_now s"
    using assms(2,3) by (auto simp: transform_def row_user_def Let_def or_default_def split: option.splits)
  then have "newer new old" using assms(5,6) by (simp add: newer_def)
  then show ?thesis using new assms(1,4)
    by (simp add: migrate_def migrate_rows_land landed_def copy_row_accept preview_def land_def empty_report_def normalized_def
        examined_def del: migrate_rows.simps)
qed

end
