(* ===== verification/Schema.thy ===== *)
theory Schema
  imports Documents Api Migration
begin

text \<open>
  The constraints of the relational schema (\<open>app/db/migrations/versions\<close>) on the tables of the settings, the notes and the
  source edits, and the proof that no request can violate one: what the validators accept fits the columns, so the rows are the
  same whether the database has the constraints or not. The routes are those of \<open>Api\<close> and \<open>Documents\<close> behind the validation of
  their bodies.
\<close>

section \<open>The schema\<close>

text \<open>The tables satisfy every check and the foreign key of the default mode.\<close>

definition mode_ids :: "pg \<Rightarrow> uuid set" where
  "mode_ids s = mo_id ` set (pg_modes s)"

definition pref_fits :: "uuid set \<Rightarrow> pref_row \<Rightarrow> bool" where
  "pref_fits modes r \<longleftrightarrow> pref_checks r \<and> (case pr_custom r of None \<Rightarrow> True | Some c \<Rightarrow> c \<in> modes)"

definition tables_fit :: "pg \<Rightarrow> bool" where
  "tables_fit s \<longleftrightarrow> list_all mode_checks (pg_modes s) \<and> (\<forall>r \<in> ran (pg_prefs s). pref_fits (mode_ids s) r) \<and>
     (\<forall>r \<in> ran (pg_notes s). note_checks r) \<and> list_all edit_checks (pg_edits s)"

section \<open>Requests\<close>

datatype table_request =
    Create_mode uuid uuid mode_create
  | Update_mode uuid uuid mode_update
  | Archive_mode uuid uuid
  | Patch_prefs "catalog option" uuid "string option option" preferences_update
  | Reset_prefs uuid
  | Put_notes uuid uuid notes_update
  | Put_edit uuid uuid uuid string edit_update
  | Delete_edit uuid uuid uuid string int
  | Migrate_rows bool nat "legacy_row list"

definition valid_path_block :: "string \<Rightarrow> exn + unit" where
  "valid_path_block block = (if valid_block block then Inr () else Inl (ValueError ''block_id''))"

fun table_prog ::
  "(string \<Rightarrow> string) \<Rightarrow> (string \<Rightarrow> string) \<Rightarrow> table_request \<Rightarrow> (world \<times> pg, unit) prog" where
  "table_prog nf cf (Create_mode i user body) = on_other (bnd (lift_result (validate_create body)) (\<lambda>b.
     bnd (api_create_custom_mode nf cf i user b) (\<lambda>_. ret ())))"
| "table_prog nf cf (Update_mode user mode body) = on_other (bnd (lift_result (validate_update body)) (\<lambda>b.
     bnd (api_update_custom_mode nf cf user mode b) (\<lambda>_. ret ())))"
| "table_prog nf cf (Archive_mode user mode) = on_other (bnd (api_archive_custom_mode user mode) (\<lambda>_. ret ()))"
| "table_prog nf cf (Patch_prefs cat user sent_mode u) = on_other (bnd (lift_result (validate_patch sent_mode u)) (\<lambda>p.
     bnd (api_update_preferences (\<lambda>_ s. s) cat user p) (\<lambda>_. ret ())))"
| "table_prog nf cf (Reset_prefs user) = on_other (bnd (api_reset_preferences user) (\<lambda>_. ret ()))"
| "table_prog nf cf (Put_notes user cid body) = bnd (lift_result (validate_notes body)) (\<lambda>b. bnd (api_put_notes user cid b) (\<lambda>_. ret ()))"
| "table_prog nf cf (Put_edit user cid mid block body) = bnd (lift_result (valid_path_block block)) (\<lambda>_.
     bnd (lift_result (validate_edit body)) (\<lambda>b. bnd (api_put_edit user cid mid block b) (\<lambda>_. ret ())))"
| "table_prog nf cf (Delete_edit user cid mid block v) = bnd (api_delete_edit user cid mid block v) (\<lambda>_. ret ())"
| "table_prog nf cf (Migrate_rows dry bound rows) = on_other (bnd (migrate dry bound rows) (\<lambda>_. ret ()))"

text \<open>A sequence of requests, each with its time, its failing statements and what else happens in the catalog before it.\<close>

fun run_tables ::
  "(string \<Rightarrow> string) \<Rightarrow> (string \<Rightarrow> string) \<Rightarrow> (world \<times> int \<times> bool list \<times> table_request) list \<Rightarrow> pg \<Rightarrow> pg" where
  "run_tables nf cf [] s = s"
| "run_tables nf cf ((w, t, down, req) # reqs) s =
     run_tables nf cf reqs (snd (after (table_prog nf cf req) (w, s\<lparr>pg_now := t, pg_down := down\<rparr>)))"

section \<open>Programs that keep an invariant\<close>

definition upholds :: "('s \<Rightarrow> bool) \<Rightarrow> ('s, 'a) prog \<Rightarrow> bool" where
  "upholds I m \<longleftrightarrow> (\<forall>s. I s \<longrightarrow> wp m (\<lambda>_. I) (\<lambda>_. I) s)"

named_theorems uph

lemma upholdsD: "upholds I m \<Longrightarrow> I s \<Longrightarrow> wp m (\<lambda>_. I) (\<lambda>_. I) s"
  by (simp add: upholds_def)

lemma uph_ret [uph]: "upholds I (ret a)" and uph_raise [uph]: "upholds I (raise e)" and uph_get [uph]: "upholds I (getting f)"
  by (simp_all add: upholds_def wp_simps)

lemma uph_bnd [uph]: "upholds I m \<Longrightarrow> (\<And>a. upholds I (f a)) \<Longrightarrow> upholds I (bnd m f)"
  unfolding upholds_def wp_bnd by (blast intro: wp_mono)

lemma uph_attempt [uph]: "upholds I m \<Longrightarrow> (\<And>e. upholds I (h e)) \<Longrightarrow> upholds I (attempt m h)"
  unfolding upholds_def wp_attempt by (blast intro: wp_mono)

lemma uph_lift [uph]: "(\<And>a. r = Inr a \<Longrightarrow> upholds I (f a)) \<Longrightarrow> upholds I (bnd (lift_result r) f)"
  by (cases r) (auto simp: upholds_def wp_simps)

lemma uph_option [uph]: "upholds I m \<Longrightarrow> (\<And>a. x = Some a \<Longrightarrow> upholds I (f a)) \<Longrightarrow> upholds I (case x of None \<Rightarrow> m | Some a \<Rightarrow> f a)"
  by (cases x) auto

lemma uph_prod [uph]: "(\<And>a b. x = (a, b) \<Longrightarrow> upholds I (f a b)) \<Longrightarrow> upholds I (case x of (a, b) \<Rightarrow> f a b)"
  by (cases x) auto

lemma uph_if [uph]: "(b \<Longrightarrow> upholds I m) \<Longrightarrow> (\<not> b \<Longrightarrow> upholds I n) \<Longrightarrow> upholds I (if b then m else n)"
  by simp

lemma uph_on_other [uph]: "upholds I m \<Longrightarrow> upholds (\<lambda>p. I (snd p)) (on_other m)"
  by (auto simp: upholds_def wp_simps)

lemma uph_on_world [uph]: "upholds (\<lambda>p. I (snd p)) (on_world m)"
  by (auto simp: upholds_def on_world_def wp_def split: prod.split sum.split)

text \<open>For the tables: the clock and the failures do not matter, so a statement has to be looked at only when it runs.\<close>

lemma tables_fit_outer [simp]: "tables_fit (s\<lparr>pg_down := d\<rparr>) = tables_fit s" "tables_fit (s\<lparr>pg_now := t\<rparr>) = tables_fit s"
  "tables_fit (pg_pop s) = tables_fit s"
  by (simp_all add: tables_fit_def mode_ids_def)

abbreviation fitting :: "(pg, 'a) prog \<Rightarrow> bool" where
  "fitting \<equiv> upholds tables_fit"

lemma uph_transact [uph]: "fitting m \<Longrightarrow> fitting (transact m)"
  unfolding upholds_def wp_transact by (auto intro: wp_mono)

lemma uph_sql: "(\<And>s. tables_fit s \<Longrightarrow> wp stmt (\<lambda>_. tables_fit) (\<lambda>_. tables_fit) s) \<Longrightarrow> fitting (sql stmt)"
  by (simp add: upholds_def wp_sql)

lemma uph_select [uph]: "fitting (select v)"
  by (rule uph_sql) (simp add: wp_simps)

lemma uph_stmt [uph]: "fitting (sql (\<lambda>s. (Inr x, s)))"
  by (rule uph_sql) (simp add: wp_simps)

section \<open>What the validators accept\<close>

lemma dropWhile_keeps: "c \<in> set s \<Longrightarrow> \<not> P c \<Longrightarrow> c \<in> set (dropWhile P s)"
  by (induction s) auto

lemma btrim_nonblank: "c \<in> set s \<Longrightarrow> \<not> py_space c \<Longrightarrow> btrim s \<noteq> []"
proof -
  assume "c \<in> set s" "\<not> py_space c"
  moreover have "py_space CHR '' ''" by code_simp
  ultimately have "c \<in> set (btrim s)" unfolding btrim_def Let_def set_rev by (intro dropWhile_keeps) (auto intro!: dropWhile_keeps)
  then show ?thesis by auto
qed

lemma rstrip_nonblank: "rstrip t \<noteq> [] \<Longrightarrow> \<exists>c \<in> set (rstrip t). \<not> py_space c"
  unfolding rstrip_def set_rev by (metis hd_dropWhile list.set_sel(1) rev.simps(1))

lemma words_nonblank: "w \<in> set (words s) \<Longrightarrow> \<exists>c \<in> set w. \<not> py_space c"
proof (induction s rule: words.induct)
  case (1 s)
  let ?t = "lstrip s"
  show ?case
  proof (cases "?t = []")
    case True
    then show ?thesis using 1(2) by (simp add: words.simps [of s])
  next
    case False
    have h: "\<not> py_space (hd ?t)" using False by (simp add: lstrip_def hd_dropWhile)
    then have "hd ?t \<in> set (takeWhile (\<lambda>c. \<not> py_space c) ?t)" using False by (cases ?t) auto
    then have first: "\<exists>c \<in> set (takeWhile (\<lambda>c. \<not> py_space c) ?t). \<not> py_space c" using h by blast
    have "w = takeWhile (\<lambda>c. \<not> py_space c) ?t \<or> w \<in> set (words (dropWhile (\<lambda>c. \<not> py_space c) ?t))"
      using 1(2) False by (simp add: words.simps [of s] Let_def)
    then show ?thesis using 1(1) False first by blast
  qed
qed

lemma squeeze_nonblank: "squeeze s \<noteq> [] \<Longrightarrow> \<exists>c \<in> set (squeeze s). \<not> py_space c"
proof -
  assume "squeeze s \<noteq> []"
  then have "words s \<noteq> []" by (auto simp: squeeze_def)
  then obtain w ws where w: "words s = w # ws" by (cases "words s") auto
  then obtain c where "c \<in> set w" "\<not> py_space c" using words_nonblank [of w s] by auto
  moreover have "set w \<subseteq> set (squeeze s)" by (cases ws) (auto simp: squeeze_def w)
  ultimately show ?thesis by blast
qed

definition name_fits :: "string \<Rightarrow> bool" where
  "name_fits n \<longleftrightarrow> length n \<le> 60 \<and> btrim n \<noteq> []"

lemma mode_name_fits: "mode_name v = Inr n \<Longrightarrow> name_fits n"
  using squeeze_nonblank btrim_nonblank
  by (fastforce simp: mode_name_def name_fits_def CUSTOM_MODE_NAME_MAX_CHARS_def Let_def split: if_splits)

lemma mode_instructions_fit: "mode_instructions v = Inr i \<Longrightarrow> btrim i \<noteq> []"
  using rstrip_nonblank btrim_nonblank
  by (fastforce simp: mode_instructions_def clean_mode_text_def strip_def Let_def split: if_splits)

text \<open>The key of a name is wider than the name by what the Unicode transforms add.\<close>

definition keys_fit :: "(string \<Rightarrow> string) \<Rightarrow> (string \<Rightarrow> string) \<Rightarrow> bool" where
  "keys_fit nf cf \<longleftrightarrow> (\<forall>n. length n \<le> 60 \<longrightarrow> length (normalize_name nf cf n) \<le> 120)"

lemma style_value_cases: "style_value x \<in> {''direct'', ''smart''}" "length (style_value x) \<le> 16"
  by (cases x; simp)+

lemma tool_fits: "TOOL_ID_match t \<Longrightarrow> length t \<le> 64"
  by (cases t) (simp_all add: TOOL_ID_match_def)

lemma clean_tools_loop_fit:
  "clean_tools_loop raws cleaned = Inr ts \<Longrightarrow> list_all (\<lambda>t. length t \<le> 64) cleaned \<Longrightarrow> list_all (\<lambda>t. length t \<le> 64) ts"
  by (induction raws arbitrary: cleaned) (auto simp: Let_def tool_fits split: if_splits)

lemma clean_tools_fit: "clean_tools v = Inr (Some ts) \<Longrightarrow> list_all (\<lambda>t. length t \<le> 64) ts"
  using clean_tools_loop_fit by (fastforce simp: clean_tools_def split: option.splits sum.splits if_splits)

lemma clean_instructions_fit: "clean_instructions v = Inr (Some t) \<Longrightarrow> length t \<le> 1000"
  by (auto simp: clean_instructions_def PERSONAL_INSTRUCTIONS_MAX_def Let_def split: option.splits if_splits)

lemma clean_mode_fit: "clean_mode v = Inr (Some m) \<Longrightarrow> parse_custom_ref (Some m) \<noteq> None \<or> length m \<le> 40"
  by (auto simp: clean_mode_def MODE_ID_match_def Let_def split: option.splits if_splits)

lemma supported_fits: "supported l \<Longrightarrow> length l \<le> 16"
  by (auto simp: supported_def SUPPORTED_LANGUAGES_def split: if_splits)

text \<open>A preference document the service may write.\<close>

definition prefs_fit :: "preferences \<Rightarrow> bool" where
  "prefs_fit p \<longleftrightarrow> (case pf_mode p of None \<Rightarrow> True | Some m \<Rightarrow> parse_custom_ref (Some m) \<noteq> None \<or> length m \<le> 40) \<and>
     list_all (\<lambda>t. length t \<le> 64) (pf_tools p) \<and> supported (pf_language p) \<and> length (pf_instr p) \<le> 1000"

lemma merge_patch_fits: "merge_patch p u = Inr q \<Longrightarrow> prefs_fit q"
  unfolding merge_patch_def Let_def prefs_fit_def or_default_def
  by (auto split: sum.splits option.splits if_splits dest: clean_mode_fit clean_tools_fit clean_instructions_fit)

lemma from_row_fits: "prefs_fit (from_row row)"
proof -
  have "supported ''auto''" by code_simp
  then show ?thesis
    by (auto simp: from_row_def default_preferences_def prefs_fit_def split: option.splits sum.splits
        dest: clean_mode_fit clean_tools_fit clean_instructions_fit)
qed

lemma doc_row_fits:
  assumes "prefs_fit p" "1 \<le> v" "custom = parse_custom_ref (pf_mode p)"
  shows "pref_checks (doc_row p custom v t)"
proof -
  have "length_value l \<in> {''concise'', ''balanced'', ''detailed''}" for l by (cases l) simp_all
  moreover have "tone_value l \<in> {''professional'', ''friendly'', ''simple''}" for l by (cases l) simp_all
  moreover have "cites_value l \<in> {''show'', ''hide''}" for l by (cases l) simp_all
  moreover have "doc_value l \<in> {''conversation'', ''attached_only''}" for l by (cases l) simp_all
  ultimately show ?thesis using assms supported_fits [of "pf_language p"]
    by (auto simp: pref_checks_def pref_widths_def pref_rules_def doc_row_def prefs_fit_def split: option.splits)
qed

section \<open>The statements\<close>

lemma ran_upd_cases: "r \<in> ran (m(k \<mapsto> v)) \<Longrightarrow> r = v \<or> r \<in> ran m"
  by (auto simp: ran_def split: if_splits)

lemma fit_modes: "tables_fit s \<Longrightarrow> list_all mode_checks rows \<Longrightarrow> mode_ids s \<subseteq> mo_id ` set rows \<Longrightarrow> tables_fit (s\<lparr>pg_modes := rows\<rparr>)"
  by (fastforce simp: tables_fit_def mode_ids_def pref_fits_def split: option.splits)

lemma fit_prefs: "tables_fit s \<Longrightarrow> pref_fits (mode_ids s) r \<Longrightarrow> tables_fit (s\<lparr>pg_prefs := (pg_prefs s)(u \<mapsto> r)\<rparr>)"
  by (auto simp: tables_fit_def mode_ids_def dest!: ran_upd_cases)

lemma fit_notes: "tables_fit s \<Longrightarrow> note_checks r \<Longrightarrow> tables_fit (s\<lparr>pg_notes := (pg_notes s)(k \<mapsto> r)\<rparr>)"
  by (auto simp: tables_fit_def mode_ids_def dest!: ran_upd_cases)

lemma fit_edits: "tables_fit s \<Longrightarrow> list_all edit_checks rows \<Longrightarrow> tables_fit (s\<lparr>pg_edits := rows\<rparr>)"
  by (simp add: tables_fit_def mode_ids_def)

lemma fitting_insert_mode:
  assumes "\<And>now. mode_checks (f now)"
  shows "fitting (sql (insert_mode f))"
proof (rule uph_sql)
  fix s assume fit: "tables_fit s"
  have "tables_fit (s\<lparr>pg_modes := f (pg_now s) # pg_modes s\<rparr>)"
    by (rule fit_modes [OF fit]) (use fit assms in \<open>auto simp: tables_fit_def mode_ids_def\<close>)
  then show "wp (insert_mode f) (\<lambda>_. tables_fit) (\<lambda>_. tables_fit) s"
    using fit by (simp add: wp_def insert_mode_def Let_def)
qed

lemma fitting_update_mode:
  assumes "\<And>now r. mode_checks r \<Longrightarrow> mode_checks (f now r) \<and> mo_id (f now r) = mo_id r"
  shows "fitting (sql (update_mode sel f))"
proof (rule uph_sql)
  fix s assume fit: "tables_fit s"
  let ?rows = "map (\<lambda>x. if sel x then f (pg_now s) x else x) (pg_modes s)"
  have checks: "mode_checks r" if "r \<in> set (pg_modes s)" for r using fit that by (simp add: tables_fit_def list_all_iff)
  then have "list_all mode_checks ?rows" using assms by (auto simp: list_all_iff)
  moreover have "map mo_id ?rows = map mo_id (pg_modes s)" using assms checks by simp
  then have "mode_ids s \<subseteq> mo_id ` set ?rows" by (metis mode_ids_def set_map subset_refl)
  ultimately have "tables_fit (s\<lparr>pg_modes := ?rows\<rparr>)" by (rule fit_modes [OF fit])
  then show "wp (update_mode sel f) (\<lambda>_. tables_fit) (\<lambda>_. tables_fit) s"
    using fit by (simp add: wp_def update_mode_def Let_def split: option.split)
qed

lemma pref_version:
  assumes "tables_fit s" and "pg_prefs s u = Some r"
  shows "1 \<le> pr_version r"
proof -
  have "r \<in> ran (pg_prefs s)" using assms(2) by (rule ranI)
  then have "pref_fits (mode_ids s) r" using assms(1) by (simp add: tables_fit_def)
  then show ?thesis by (simp add: pref_fits_def pref_checks_def pref_rules_def)
qed

lemma wp_save_fits:
  assumes fit: "tables_fit s" and known: "custom_known custom s" and "prefs_fit p" and "custom = parse_custom_ref (pf_mode p)"
  shows "wp (save_stmt user p custom expected) (\<lambda>_. tables_fit) (\<lambda>_. tables_fit) s"
proof -
  have "tables_fit (s\<lparr>pg_prefs := (pg_prefs s)(user \<mapsto> doc_row p custom (expected + 1) (pg_now s))\<rparr>)"
    if "save_hits expected (pg_prefs s user)"
  proof (rule fit_prefs [OF fit])
    have "1 \<le> pr_version r" if "pg_prefs s user = Some r" for r using pref_version [OF fit that] .
    then have "1 \<le> expected + 1" using that by (cases "pg_prefs s user") (auto simp: save_hits_def)
    then have "pref_checks (doc_row p custom (expected + 1) (pg_now s))" using assms(3,4) by (intro doc_row_fits)
    then show "pref_fits (mode_ids s) (doc_row p custom (expected + 1) (pg_now s))"
      using known by (auto simp: pref_fits_def custom_known_def mode_ids_def doc_row_def split: option.splits)
  qed
  then show ?thesis using fit by (simp add: wp_def save_stmt_def Let_def)
qed

lemma fitting_delete_prefs: "fitting (prefs_delete user)"
  unfolding prefs_delete_def by (rule uph_sql) (auto simp: wp_def tables_fit_def mode_ids_def ran_def)

lemma note_version: "tables_fit s \<Longrightarrow> pg_notes s k = Some r \<Longrightarrow> 1 \<le> nt_version r"
  unfolding tables_fit_def note_checks_def by (blast intro: ranI)

lemma fitting_insert_note: "length content \<le> 200000 \<Longrightarrow> fitting (sql (insert_note k content))"
  by (rule uph_sql) (auto simp: wp_def insert_note_def note_checks_def Let_def intro!: fit_notes split: option.split)

lemma fitting_update_note: "length content \<le> 200000 \<Longrightarrow> fitting (sql (update_note k content expected))"
  by (rule uph_sql) (auto simp: wp_def update_note_def note_checks_def Let_def intro!: fit_notes split: option.split dest: note_version)

lemma edit_fits: "tables_fit s \<Longrightarrow> r \<in> set (pg_edits s) \<Longrightarrow> edit_checks r"
  by (simp add: tables_fit_def list_all_iff)

lemma fitting_insert_edit:
  assumes "length block \<le> 80" "length language \<le> 32" "length sha \<le> 64" "format \<in> {''code'', ''text'', ''markdown''}"
    and "length content \<le> 200000"
  shows "fitting (sql (insert_edit (owner, cid, mid, block) content language format sha cap))"
proof (rule uph_sql)
  fix s assume fit: "tables_fit s"
  let ?r = "\<lparr>ed_owner = owner, ed_conv = cid, ed_msg = mid, ed_block = block, ed_language = language,
     ed_format = format, ed_sha = sha, ed_content = content, ed_version = 1, ed_created = pg_now s, ed_updated = pg_now s\<rparr>"
  have "tables_fit (s\<lparr>pg_edits := pg_edits s @ [?r]\<rparr>)"
    by (rule fit_edits [OF fit]) (use fit assms in \<open>simp add: tables_fit_def edit_checks_def\<close>)
  then show "wp (insert_edit (owner, cid, mid, block) content language format sha cap) (\<lambda>_. tables_fit) (\<lambda>_. tables_fit) s"
    using fit by (auto simp: wp_def insert_edit_def Let_def)
qed

lemma fitting_update_edit:
  assumes "length content \<le> 200000"
  shows "fitting (sql (update_edit k content expected))"
proof (rule uph_sql)
  fix s assume fit: "tables_fit s"
  let ?new = "\<lambda>r. r\<lparr>ed_content := content, ed_version := ed_version r + 1, ed_updated := pg_now s\<rparr>"
  let ?rows = "map (\<lambda>r. if edit_key r = k then ?new r else r) (pg_edits s)"
  have "edit_checks (?new r)" if "edit_checks r" for r using that assms by (simp add: edit_checks_def)
  then have "list_all edit_checks ?rows" using edit_fits [OF fit] by (auto simp: list_all_iff)
  then have "tables_fit (s\<lparr>pg_edits := ?rows\<rparr>)" by (rule fit_edits [OF fit])
  then show "wp (update_edit k content expected) (\<lambda>_. tables_fit) (\<lambda>_. tables_fit) s"
    using fit by (auto simp: wp_def update_edit_def Let_def split: option.split)
qed

lemma fitting_delete_edit: "fitting (sql (delete_edit k expected))"
  by (rule uph_sql) (auto simp: wp_def delete_edit_def list_all_iff edit_fits intro!: fit_edits split: option.split)

section \<open>The requests\<close>

lemma fitting_get [uph]: "fitting (modes_get owner mode b)" "fitting (prefs_get user)" "fitting (notes_get user cid)" "fitting (edits_get k)"
  by (simp_all add: modes_get_def prefs_get_def notes_get_def edits_get_def uph_select)

lemma fitting_create:
  assumes "keys_fit nf cf" "validate_create body = Inr b"
  shows "fitting (mode_service_create nf cf i user b)"
proof -
  have "name_fits (mc_name b)" "btrim (mc_instr b) \<noteq> []"
    using assms(2) by (auto simp: validate_create_def mode_name_fits mode_instructions_fit split: sum.splits)
  then have "mode_checks \<lparr>mo_id = i, mo_owner = user, mo_name = mc_name b, mo_key = normalize_name nf cf (mc_name b),
      mo_desc = mc_desc b, mo_instr = mc_instr b, mo_style = style_value (mc_style b), mo_status = ''active'', mo_version = 1,
      mo_created = now, mo_updated = now, mo_archived = None\<rparr>" for now
    using assms(1) style_value_cases [of "mc_style b"] by (auto simp: mode_checks_def mode_widths_def mode_rules_def name_fits_def keys_fit_def)
  then show ?thesis unfolding mode_service_create_def modes_create_def
    by (intro uph fitting_insert_mode uph_stmt)
qed

lemma changes_fit:
  assumes "keys_fit nf cf" "validate_update body = Inr b" "mode_checks r"
  shows "mode_checks (bump now (apply_changes nf cf b r)) \<and> mo_id (bump now (apply_changes nf cf b r)) = mo_id r"
proof -
  have "case mu_name b of None \<Rightarrow> True | Some n \<Rightarrow> name_fits n" "case mu_instr b of None \<Rightarrow> True | Some i \<Rightarrow> btrim i \<noteq> []"
    using assms(2) by (auto simp: validate_update_def opt_field_def mode_name_fits mode_instructions_fit split: sum.splits option.splits if_splits)
  then show ?thesis using assms(1,3) style_value_cases
    by (auto simp: bump_def apply_changes_def mode_checks_def mode_widths_def mode_rules_def name_fits_def keys_fit_def split: option.splits)
qed

lemma fitting_update:
  assumes "keys_fit nf cf" "validate_update body = Inr b"
  shows "fitting (mode_service_update nf cf user mode b)"
  unfolding mode_service_update_def mode_service_get_def modes_update_def
  by (intro uph fitting_update_mode changes_fit [OF assms])

lemma fitting_archive: "fitting (mode_service_archive user mode)"
  unfolding mode_service_archive_def modes_archive_def
  by (intro uph fitting_update_mode) (simp_all add: mode_checks_def mode_widths_def mode_rules_def bump_def)

lemma fitting_prefs_load [uph]: "fitting (prefs_load user)"
  unfolding prefs_load_def by (intro uph)

lemma fitting_prefs_service_get [uph]: "fitting (prefs_service_get user)"
  unfolding prefs_service_get_def default_mode_available_def by (intro uph)

text \<open>What the update knows after its check of the default mode: the mode it writes exists.\<close>

definition known_fit :: "uuid option \<Rightarrow> pg \<Rightarrow> bool" where
  "known_fit custom s \<longleftrightarrow> tables_fit s \<and> custom_known custom s"

lemma known_fit_pop [simp]: "known_fit custom (pg_pop s) = known_fit custom s"
  by (simp add: known_fit_def custom_known_def split: option.split)

lemma wp_prefs_save_fits:
  assumes "prefs_fit p" "custom = parse_custom_ref (pf_mode p)" "known_fit custom s"
  shows "wp (prefs_save user p custom expected) (\<lambda>_. tables_fit) (\<lambda>_. tables_fit) s"
proof -
  have "wp (save_stmt user p custom expected) (\<lambda>_. tables_fit) (\<lambda>_. tables_fit) (pg_pop s)"
    using assms by (intro wp_save_fits) (simp_all add: known_fit_def custom_known_def split: option.splits)
  then have "wp (save_stmt user p custom expected)
      (\<lambda>v. wp (case v of Some n \<Rightarrow> ret n | None \<Rightarrow> bnd (select (\<lambda>s. pg_prefs s user)) (\<lambda>cur. raise (PreferencesConflictError
         (case cur of None \<Rightarrow> 0 | Some r \<Rightarrow> nat (pr_version r))))) (\<lambda>_. tables_fit) (\<lambda>_. tables_fit)) (\<lambda>_. tables_fit) (pg_pop s)"
    by (rule wp_mono) (auto simp: wp_simps split: option.split)
  then show ?thesis using assms(3) by (simp add: prefs_save_def wp_bnd wp_sql known_fit_def)
qed

lemma find_mode_known: "find_mode user m b s \<noteq> None \<Longrightarrow> custom_known (Some m) s"
  by (auto simp: find_mode_def custom_known_def dest!: find_iff)

lemma fitting_checked:
  assumes "\<And>custom s. custom = parse_custom_ref (pf_mode p) \<Longrightarrow> known_fit custom s \<Longrightarrow> wp (f custom) (\<lambda>_. tables_fit) (\<lambda>_. tables_fit) s"
  shows "fitting (bnd (check_default_mode user p) f)"
proof -
  have none: "known_fit None s" if "tables_fit s" for s using that by (simp add: known_fit_def custom_known_def)
  have some: "known_fit (Some m) s" if "tables_fit s" "find_mode user m False s = Some r" for m s r
    using that find_mode_known [of user m False s] by (simp add: known_fit_def)
  show ?thesis unfolding upholds_def wp_bnd check_default_mode_def modes_get_def
    using assms none some [of "pg_pop _"] by (auto simp: wp_simps simp del: known_fit_pop split: option.split)
qed

lemma fitting_update_loop: "fitting (update_loop (\<lambda>_ s. s) cat user u n)"
proof (induction n)
  case 0
  then show ?case by (simp add: uph)
next
  case (Suc k)
  let ?h = "\<lambda>e. case e of PreferencesConflictError n \<Rightarrow> if k = 0 then raise e else update_loop (\<lambda>_ s. s) cat user u k | _ \<Rightarrow> raise e"
  have handler: "wp (?h e) (\<lambda>_. tables_fit) (\<lambda>_. tables_fit) s" if "tables_fit s" for e s
    using that Suc by (cases e) (auto simp: upholds_def wp_simps)
  have save: "wp (bnd (interfere (\<lambda>s. s)) (\<lambda>_. attempt (bnd (prefs_save user p custom stored) (\<lambda>_. prefs_service_get user)) ?h))
      (\<lambda>_. tables_fit) (\<lambda>_. tables_fit) s"
    if "prefs_fit p" "custom = parse_custom_ref (pf_mode p)" "known_fit custom s" for p custom stored s
    unfolding wp_bnd wp_attempt wp_interfere
    by (rule wp_mono [OF wp_prefs_save_fits [OF that]])
       (rule wp_mono [OF upholdsD [OF fitting_prefs_service_get]], assumption+, rule handler, assumption, rule handler, assumption)
  show ?case unfolding update_loop.simps
    by (intro uph_bnd uph_prod uph_if uph_lift fitting_checked save fitting_prefs_load uph_raise) (auto simp: merge_patch_fits)
qed

lemma fitting_route [uph]: "fitting m \<Longrightarrow> fitting (pg_route err m)"
  unfolding pg_route_def by (intro uph)

lemma fitting_notes_save: "length content \<le> 200000 \<Longrightarrow> fitting (notes_save user cid content expected)"
  unfolding notes_save_def
  by (cases "expected = 0"; simp only: simp_thms if_True if_False; intro uph fitting_insert_note fitting_update_note)

lemma validate_notes_fit: "validate_notes body = Inr b \<Longrightarrow> length (nu_content b) \<le> 200000"
  by (auto simp: validate_notes_def NOTES_MAX_CHARS_def split: if_splits)

lemma fitting_edits_save:
  assumes "valid_block block" "validate_edit body = Inr b"
  shows "fitting (edits_save (user, cid, mid, block) (eu_content b) (eu_version b) (eu_language b) (eu_format b) (eu_sha b) cap)"
proof -
  have size: "length (eu_content b) \<le> 200000"
    using assms(2) by (auto simp: validate_edit_def SOURCE_EDIT_MAX_CHARS_def split: if_splits)
  have "fitting (sql (insert_edit (user, cid, mid, block) (eu_content b) (eu_language b) (eu_format b) (eu_sha b) cap))"
    by (rule fitting_insert_edit) (use assms size in \<open>auto simp: valid_block_def validate_edit_def split: if_splits\<close>)
  then show ?thesis unfolding edits_save_def
    by (cases "eu_version b = 0"; simp only: simp_thms if_True if_False; intro uph fitting_update_edit size)
qed

lemma fitting_edits_delete: "fitting (edits_delete k expected)"
  unfolding edits_delete_def by (intro uph fitting_delete_edit)

text \<open>The rows of the migration.\<close>

definition legacy_fits :: "uuid \<times> pref_row \<Rightarrow> bool" where
  "legacy_fits x \<longleftrightarrow> pref_checks (snd x) \<and> pr_custom (snd x) = None"

definition legacy_document :: "legacy_row \<Rightarrow> preferences" where
  "legacy_document r = (let p = legacy_prefs r in
     p\<lparr>pf_mode := if pf_mode p \<noteq> None \<and> parse_custom_ref (pf_mode p) \<noteq> None then None else pf_mode p\<rparr>)"

lemma transform_row:
  "transform now r = Inr (x, n) \<Longrightarrow>
     snd x = doc_row (legacy_document r) None (max (or_default (lr_version r) 0) 1) (or_default (lr_updated r) now)"
  by (auto simp: transform_def doc_row_def legacy_document_def Let_def split: option.splits)

lemma legacy_document_fits: "prefs_fit (legacy_document r)" "parse_custom_ref (pf_mode (legacy_document r)) = None"
proof -
  have "prefs_fit (legacy_prefs r)" unfolding legacy_prefs_def by (rule from_row_fits)
  moreover have "parse_custom_ref None = None" by (simp add: parse_custom_ref_def opt_text_def strip_def lstrip_def rstrip_def starts_with_def)
  ultimately show "prefs_fit (legacy_document r)" "parse_custom_ref (pf_mode (legacy_document r)) = None"
    by (auto simp: legacy_document_def prefs_fit_def Let_def)
qed

lemma transform_fits: "transform now r = Inr (x, n) \<Longrightarrow> legacy_fits x"
  using doc_row_fits [OF legacy_document_fits(1)] legacy_document_fits(2)
  by (simp add: legacy_fits_def transform_row) (simp add: doc_row_def)

lemma fitting_upsert: "legacy_fits x \<Longrightarrow> fitting (sql (upsert_pref x))"
  by (rule uph_sql) (auto simp: wp_def upsert_pref_def legacy_fits_def pref_fits_def intro!: fit_prefs split: option.split prod.split)

lemma fitting_flush: "list_all legacy_fits batch \<Longrightarrow> fitting (flush_batch dry batch m)"
proof -
  assume "list_all legacy_fits batch"
  then have "fitting (write_one x m')" if "x \<in> set batch" for x m'
    unfolding write_one_def using that by (intro uph fitting_upsert) (simp add: list_all_iff)
  then have "fitting (fold_prog write_one batch m)"
    unfolding upholds_def by (auto intro!: wp_fold_prog_inv)
  then show ?thesis unfolding flush_batch_def by (intro uph)
qed

lemma fitting_migrate: "list_all legacy_fits batch \<Longrightarrow> fitting (migrate_rows dry bound rows batch m)"
proof (induction rows arbitrary: batch m)
  case Nil
  then show ?case by (simp add: fitting_flush)
next
  case (Cons r rows)
  have "fitting (case transform now r of Inl reason \<Rightarrow> migrate_rows dry bound rows batch (rejected r reason m')
      | Inr (x, n) \<Rightarrow> (let m2 = m'\<lparr>mg_normalized := mg_normalized m' + n\<rparr>; batch' = batch @ [x] in
           if bound \<le> length batch' then bnd (flush_batch dry batch' m2) (migrate_rows dry bound rows [])
           else migrate_rows dry bound rows batch' m2))" for now m'
  proof (cases "transform now r")
    case (Inl reason)
    then show ?thesis using Cons by simp
  next
    case (Inr y)
    then obtain x n where y: "y = (x, n)" "legacy_fits x" using transform_fits by (cases y) blast
    then have "list_all legacy_fits (batch @ [x])" using Cons.prems by simp
    then show ?thesis using Cons.IH [of "[]"] Cons.IH [of "batch @ [x]"]
      by (simp add: Inr y(1) Let_def fitting_flush uph)
  qed
  then show ?case by (simp add: Let_def uph)
qed

section \<open>No request can violate the schema\<close>

lemma fitting_put_edit:
  assumes "valid_block block" "validate_edit body = Inr b"
  shows "upholds (\<lambda>p. tables_fit (snd p)) (api_put_edit user cid mid block b)"
  unfolding api_put_edit_def by (intro uph fitting_edits_save [OF assms])

lemma valid_path: "valid_path_block block = Inr u \<Longrightarrow> valid_block block"
  by (simp add: valid_path_block_def split: if_splits)

lemma fitting_put_notes: "validate_notes body = Inr b \<Longrightarrow> upholds (\<lambda>p. tables_fit (snd p)) (api_put_notes user cid b)"
  unfolding api_put_notes_def by (intro uph fitting_notes_save validate_notes_fit)

lemma fitting_delete_edit_route: "upholds (\<lambda>p. tables_fit (snd p)) (api_delete_edit user cid mid block v)"
  unfolding api_delete_edit_def by (intro uph fitting_edits_delete)

lemma fitting_patch: "fitting (api_update_preferences (\<lambda>_ s. s) cat user p)"
  unfolding api_update_preferences_def prefs_service_update_def by (intro uph fitting_update_loop)

lemma fitting_reset: "fitting (api_reset_preferences user)"
  unfolding api_reset_preferences_def prefs_service_reset_def by (intro uph fitting_delete_prefs)

lemma fitting_migration: "fitting (migrate dry bound rows)"
  unfolding migrate_def by (rule fitting_migrate) simp

lemma table_prog_fits: "keys_fit nf cf \<Longrightarrow> upholds (\<lambda>p. tables_fit (snd p)) (table_prog nf cf req)"
proof (cases req)
  case (Put_edit user cid mid block body)
  show ?thesis unfolding Put_edit table_prog.simps
    by (rule uph_lift, rule uph_lift, rule uph_bnd, rule fitting_put_edit, erule valid_path, assumption, rule uph_ret)
next
  case (Create_mode i user body)
  assume keys: "keys_fit nf cf"
  show ?thesis unfolding Create_mode table_prog.simps api_create_custom_mode_def
    by (intro uph fitting_create [OF keys])
next
  case (Update_mode user mode body)
  assume keys: "keys_fit nf cf"
  show ?thesis unfolding Update_mode table_prog.simps api_update_custom_mode_def
    by (intro uph fitting_update [OF keys])
next
  case (Archive_mode user mode)
  show ?thesis unfolding Archive_mode table_prog.simps api_archive_custom_mode_def by (intro uph fitting_archive)
next
  case (Put_notes user cid body)
  show ?thesis unfolding Put_notes table_prog.simps
    by (rule uph_lift, rule uph_bnd, rule fitting_put_notes, assumption, rule uph_ret)
next
  case (Delete_edit user cid mid block v)
  show ?thesis unfolding Delete_edit table_prog.simps by (intro uph fitting_delete_edit_route)
next
  case (Patch_prefs cat user sent_mode u)
  show ?thesis unfolding Patch_prefs table_prog.simps by (intro uph fitting_patch)
next
  case (Reset_prefs user)
  show ?thesis unfolding Reset_prefs table_prog.simps by (intro uph fitting_reset)
next
  case (Migrate_rows dry bound rows)
  show ?thesis unfolding Migrate_rows table_prog.simps by (intro uph fitting_migration)
qed

lemma run_tables_fit: "keys_fit nf cf \<Longrightarrow> tables_fit s \<Longrightarrow> tables_fit (run_tables nf cf reqs s)"
proof (induction reqs arbitrary: s)
  case (Cons r reqs)
  obtain w t d req where r: "r = (w, t, d, req)" by (cases r) auto
  have "tables_fit (snd (after (table_prog nf cf req) (w, s\<lparr>pg_now := t, pg_down := d\<rparr>)))"
    using upholdsD [OF table_prog_fits [OF Cons.prems(1), of req], of "(w, s\<lparr>pg_now := t, pg_down := d\<rparr>)"] Cons.prems(2)
    by (simp add: wp_after)
  then show ?case using Cons by (simp add: r)
qed simp


text \<open>The ASCII transforms satisfy the assumption.\<close>

lemma squeeze_length: "length (squeeze s) \<le> length (lstrip s)"
  unfolding squeeze_def
proof (induction s rule: words.induct)
  case (1 s)
  let ?t = "lstrip s" and ?w = "takeWhile (\<lambda>c. \<not> py_space c) (lstrip s)" and ?d = "dropWhile (\<lambda>c. \<not> py_space c) (lstrip s)"
  show ?case
  proof (cases "?t = []")
    case True
    then show ?thesis by (simp add: words.simps [of s])
  next
    case False
    have ih: "length (join '' '' (words ?d)) \<le> length (lstrip ?d)" using 1 False by blast
    have len: "length ?t = length ?w + length ?d" by (metis length_append takeWhile_dropWhile_id)
    have ws: "words s = ?w # words ?d" using False by (simp add: words.simps [of s] Let_def)
    show ?thesis
    proof (cases "words ?d")
      case Nil
      then show ?thesis using len by (simp add: ws)
    next
      case (Cons v vs)
      moreover have "words [] = []" by (simp add: words.simps [of "[]"] lstrip_def)
      ultimately have "?d \<noteq> []" by (metis list.distinct(1))
      then have "py_space (hd ?d)" using hd_dropWhile [of "\<lambda>c. \<not> py_space c" ?t] by simp
      then have "length (lstrip ?d) < length ?d" using \<open>?d \<noteq> []\<close>
        by (cases ?d) (auto simp: lstrip_def le_imp_less_Suc length_dropWhile_le)
      then show ?thesis using ih len Cons by (simp add: ws)
    qed
  qed
qed

lemma ascii_keys_fit: "keys_fit (\<lambda>s. s) lower"
  unfolding keys_fit_def normalize_name_def length_lower
proof (intro allI impI)
  fix n :: string
  assume "length n \<le> 60"
  moreover have "length (lstrip n) \<le> length n" by (simp add: lstrip_def length_dropWhile_le)
  ultimately show "length (squeeze n) \<le> 120" using squeeze_length [of n] by linarith
qed

definition sample_requests :: "(world \<times> int \<times> bool list \<times> table_request) list" where
  "sample_requests = [(empty_world 0, 5, [], Create_mode 1 2 \<lparr>mc_name = '' My  mode'', mc_desc = [], mc_instr = ''be brief'', mc_style = SMART\<rparr>),
     (empty_world 0, 6, [], Patch_prefs None 2 (Some (Some (custom_ref 1)))
       \<lparr>pu_version = None, pu_mode = None, pu_tools = None, pu_length = None, pu_tone = None, pu_language = None, pu_instr = None,
        pu_cites = None, pu_doc = None\<rparr>)]"


text \<open>
  The assumption is needed. NFKC writes the character U+00BC as three (the slash here stands for U+2044), so a name of sixty of
  them is accepted and its key has 180 characters, which the column of 120 refuses.
\<close>

definition nfkc_quarter :: "char \<Rightarrow> string" where
  "nfkc_quarter c = (if c = CHR 0xBC then ''1/4'' else [c])"

lemma squeeze_one_word: "s \<noteq> [] \<Longrightarrow> \<forall>c \<in> set s. \<not> py_space c \<Longrightarrow> squeeze s = s"
proof -
  assume s: "s \<noteq> []" "\<forall>c \<in> set s. \<not> py_space c"
  have "words [] = []" by (simp add: words.simps [of "[]"] lstrip_def)
  moreover have "lstrip s = s" using s by (simp add: lstrip_def dropWhile_none)
  then have "words s = takeWhile (\<lambda>c. \<not> py_space c) s # words (dropWhile (\<lambda>c. \<not> py_space c) s)"
    using s(1) by (simp add: words.simps [of s])
  moreover have "takeWhile (\<lambda>c. \<not> py_space c) s = s" "dropWhile (\<lambda>c. \<not> py_space c) s = []" using s by simp_all
  ultimately have "words s = [s]" by metis
  then show ?thesis by (simp add: squeeze_def)
qed

theorem accepted_name_key_too_wide:
  "mode_name (replicate 60 CHR 0xBC) = Inr (replicate 60 CHR 0xBC)"
  "length (normalize_name (\<lambda>s. concat (map nfkc_quarter s)) lower (replicate 60 CHR 0xBC)) = 180"
proof -
  have c: "\<not> py_space CHR 0xBC" "is_printable CHR 0xBC" "\<not> py_space CHR ''1''" "\<not> py_space CHR ''/''" "\<not> py_space CHR ''4''"
    by code_simp+
  then have clean: "clean_mode_text False (replicate 60 CHR 0xBC) = replicate 60 CHR 0xBC"
    by (simp add: clean_mode_text_def strip_nonspace_id)
  have word: "squeeze (replicate 60 CHR 0xBC) = replicate 60 CHR 0xBC" using c by (intro squeeze_one_word) auto
  show "mode_name (replicate 60 CHR 0xBC) = Inr (replicate 60 CHR 0xBC)"
    using clean word by (simp add: mode_name_def CUSTOM_MODE_NAME_MAX_CHARS_def)
  let ?key = "concat (map nfkc_quarter (replicate 60 CHR 0xBC))"
  have len: "length ?key = 180" by (simp add: nfkc_quarter_def length_concat sum_list_replicate)
  have "squeeze ?key = ?key"
  proof (rule squeeze_one_word)
    show "?key \<noteq> []" using len by auto
    show "\<forall>c \<in> set ?key. \<not> py_space c" using c by (simp add: nfkc_quarter_def)
  qed
  then show "length (normalize_name (\<lambda>s. concat (map nfkc_quarter s)) lower (replicate 60 CHR 0xBC)) = 180"
    using len by (simp add: normalize_name_def)
qed

end
