(* ===== verification/Studio_Schema.thy ===== *)
theory Studio_Schema
  imports Studio_System Schema
begin

text \<open>
  The constraints of the tables of the studio (\<open>app/db/migrations/versions/0002_artifacts_and_exports.py\<close>) over all calls of the
  animations and the exports: what the services write fits by itself, without a database that would refuse it, and a value from
  outside that only the database refuses.
\<close>

section \<open>The schema\<close>

definition ref_key :: "artifact_ref \<Rightarrow> uuid \<times> uuid \<times> uuid \<times> string" where
  "ref_key f = (af_id f, af_conv f, af_msg f, af_block f)"

text \<open>The widths and checks of the three tables, and the primary and the foreign key of the references.\<close>

definition refs_table :: "uuid set \<Rightarrow> artifact_ref list \<Rightarrow> bool" where
  "refs_table ids refs \<longleftrightarrow> list_all (\<lambda>f. length (af_block f) \<le> 64 \<and> af_id f \<in> ids) refs \<and> distinct (map ref_key refs)"

definition studio_tables :: "studio \<Rightarrow> bool" where
  "studio_tables s \<longleftrightarrow> list_all row_checks (st_rows s) \<and> refs_table (ar_id ` set (st_rows s)) (st_refs s) \<and> list_all job_checks (st_jobs s)"

text \<open>
  What the values from outside have to be: a render job has an id of at most 64 characters, the version of the renderer at most
  62 (the row holds the version, a colon and the quality), and SHA-256 in hexadecimal is 64 characters.
\<close>

definition short_job :: "reply \<Rightarrow> bool" where
  "short_job r \<longleftrightarrow> (case r of JobIs job _ _ \<Rightarrow> length job \<le> 64 | _ \<Rightarrow> True)"

definition outside_fits :: "reply list \<Rightarrow> string \<Rightarrow> bool" where
  "outside_fits rs v \<longleftrightarrow> list_all short_job rs \<and> length v \<le> 62"

definition hex_digests :: "tools \<Rightarrow> bool" where
  "hex_digests T \<longleftrightarrow> (\<forall>t. length (tl_sha T t) = 64) \<and> (\<forall>bs. length (tl_shaf T bs) = 64)"

definition studio_fits :: "studio \<Rightarrow> bool" where
  "studio_fits s \<longleftrightarrow> studio_tables s \<and> outside_fits (st_replies s) (st_renderer s)"

section \<open>Programs that keep it\<close>

abbreviation holding :: "(studio, 'a) prog \<Rightarrow> bool" where
  "holding \<equiv> upholds studio_fits"

text \<open>A program whose answer, if it has one, satisfies \<open>P\<close>.\<close>

definition yields :: "('s \<Rightarrow> bool) \<Rightarrow> ('a \<Rightarrow> bool) \<Rightarrow> ('s, 'a) prog \<Rightarrow> bool" where
  "yields I P m \<longleftrightarrow> (\<forall>s. I s \<longrightarrow> wp m (\<lambda>a s'. I s' \<and> P a) (\<lambda>_. I) s)"

lemma uph_yields: "yields I P m \<Longrightarrow> (\<And>a. P a \<Longrightarrow> upholds I (f a)) \<Longrightarrow> upholds I (bnd m f)"
  unfolding yields_def upholds_def wp_bnd by (blast intro: wp_mono)

lemma yields_ret: "P a \<Longrightarrow> yields I P (ret a)" and yields_raise: "yields I P (raise e)"
  by (simp_all add: yields_def wp_simps)

lemma yields_bnd: "yields I Q m \<Longrightarrow> (\<And>a. Q a \<Longrightarrow> yields I P (f a)) \<Longrightarrow> yields I P (bnd m f)"
  unfolding yields_def wp_bnd by (blast intro: wp_mono)

lemma yields_any: "upholds I m \<Longrightarrow> yields I (\<lambda>_. True) m"
  by (simp add: yields_def upholds_def)

lemma yields_attempt: "yields I P m \<Longrightarrow> (\<And>e. yields I P (h e)) \<Longrightarrow> yields I P (attempt m h)"
  unfolding yields_def wp_attempt by (blast intro: wp_mono)

lemmas yields_after = yields_bnd [OF yields_any]

lemma keeps_yields: "yields I P m \<Longrightarrow> (\<And>a. P a \<Longrightarrow> keeps I (f a)) \<Longrightarrow> keeps I (bnd (on_other m) f)"
  unfolding yields_def keeps_def wp_bnd wp_on_other by (auto intro: wp_mono)

lemma studio_fits_frame [simp]:
  "studio_fits (st_pop s) = studio_fits s" "studio_fits (s\<lparr>st_objs := os\<rparr>) = studio_fits s"
  "studio_fits (put_object k b t s) = studio_fits s"
  by (simp_all add: studio_fits_def studio_tables_def put_object_def st_pop_def)

lemma hold_txn: "(\<And>s. studio_fits s \<Longrightarrow> studio_fits (snd (body s))) \<Longrightarrow> holding (txn body)"
proof -
  assume "\<And>s. studio_fits s \<Longrightarrow> studio_fits (snd (body s))"
  then have "wp body (\<lambda>_. studio_fits) (\<lambda>_. studio_fits) (st_pop s)" "studio_fits (snd (body (st_pop s)))" if "studio_fits s" for s
    using that by (auto simp: wp_after after_def)
  then show "holding (txn body)" by (auto simp: upholds_def intro!: wp_txn)
qed

lemma fits_answered: "studio_fits s \<Longrightarrow> studio_fits (s\<lparr>st_replies := tl (st_replies s)\<rparr>)"
  by (cases "st_replies s") (auto simp: studio_fits_def studio_tables_def outside_fits_def)

lemma hold_outer [uph]: "holding (ask_backend f)" "holding (store_stat key)" "holding (store_get key)" "holding (store_put key bs t)"
  "holding (store_delete key)" "holding (lift_result r)"
  unfolding upholds_def
  by (auto simp: wp_simps fits_answered split: sum.split
      intro!: wp_mono [OF wp_store_stat] wp_mono [OF wp_store_get] wp_mono [OF wp_store_put] wp_mono [OF wp_store_delete])

lemma uph_sum [uph]: "(\<And>a. x = Inl a \<Longrightarrow> upholds I (f a)) \<Longrightarrow> (\<And>b. x = Inr b \<Longrightarrow> upholds I (g b)) \<Longrightarrow> upholds I (case x of Inl a \<Rightarrow> f a | Inr b \<Rightarrow> g b)"
  by (cases x) auto

lemma uph_fold [uph]: "(\<And>x b. x \<in> set xs \<Longrightarrow> upholds I (f x b)) \<Longrightarrow> upholds I (fold_prog f xs b)"
  by (induction xs arbitrary: b) (auto intro!: uph)

section \<open>The rows of the animations\<close>

lemma set_row_ids: "(\<And>r. ar_id r = i \<Longrightarrow> ar_id (f r) = i) \<Longrightarrow> ar_id ` set (st_rows (set_row i f s)) = ar_id ` set (st_rows s)"
proof -
  assume "\<And>r. ar_id r = i \<Longrightarrow> ar_id (f r) = i"
  then have "map ar_id (st_rows (set_row i f s)) = map ar_id (st_rows s)" by (simp add: set_row_def)
  then show ?thesis by (metis set_map)
qed

lemma fits_set_row:
  assumes "studio_fits s" "\<And>r. r \<in> set (st_rows s) \<Longrightarrow> ar_id r = i \<Longrightarrow> row_checks r \<Longrightarrow> row_checks (f r)" "\<And>r. ar_id r = i \<Longrightarrow> ar_id (f r) = i"
  shows "studio_fits (set_row i f s)"
proof -
  have "st_refs (set_row i f s) = st_refs s" "st_jobs (set_row i f s) = st_jobs s" "st_replies (set_row i f s) = st_replies s"
    "st_renderer (set_row i f s) = st_renderer s" by (simp_all add: set_row_def)
  moreover have "list_all row_checks (st_rows (set_row i f s))"
    using assms(1,2) by (auto simp: studio_fits_def studio_tables_def list_all_iff set_row_def)
  ultimately show ?thesis using assms(1) set_row_ids [OF assms(3)] by (simp add: studio_fits_def studio_tables_def)
qed

lemma found_row: "find_artifact i s = Some r \<Longrightarrow> ar_id r = i \<and> r \<in> set (st_rows s)"
  by (auto simp: find_artifact_def dest: find_iff)

lemma found_row_fits: "studio_fits s \<Longrightarrow> find_artifact i s = Some r \<Longrightarrow> row_checks r"
  using found_row [of i s r] by (auto simp: studio_fits_def studio_tables_def list_all_iff)

lemma frame_checks [simp]: "row_checks (r\<lparr>ar_lease := l\<rparr>) = row_checks r" "row_checks (r\<lparr>ar_updated := t\<rparr>) = row_checks r"
  by (simp_all add: row_checks_def)

text \<open>A change of the rows in the states \<open>from\<close> that writes only what the columns take.\<close>

definition fit_change :: "string list \<Rightarrow> (artifact \<Rightarrow> artifact) \<Rightarrow> bool" where
  "fit_change from f \<longleftrightarrow> (\<forall>r. ar_id (f r) = ar_id r \<and> (ar_status r \<in> set from \<longrightarrow> row_checks r \<longrightarrow> row_checks (f r)))"

lemma hold_cas:
  assumes "fit_change from f"
  shows "holding (artifact_cas i from f)"
  unfolding artifact_cas_def
proof (rule hold_txn, goal_cases)
  case (1 s)
  have "studio_fits (set_row i (\<lambda>_. (f r)\<lparr>ar_updated := t\<rparr>) s)" if "find_artifact i s = Some r" "ar_status r \<in> set from" for r t
    using assms found_row [OF that(1)] found_row_fits [OF 1 that(1)] that(2) by (intro fits_set_row 1) (auto simp: fit_change_def)
  then show ?case using 1 by (auto simp: Let_def split: option.split)
qed

lemma hold_leases [uph]: "holding (artifact_release i)" "holding (artifact_backoff i)" "holding (artifact_claim i)" "holding (active_ids n)"
  "holding (artifact_get u i)"
  unfolding artifact_release_def artifact_backoff_def artifact_claim_def active_ids_def artifact_get_def
proof -
  have claim: "studio_fits (set_row i (\<lambda>_. r\<lparr>ar_lease := l\<rparr>) s)" if "studio_fits s" "find_artifact i s = Some r" for r l s
    using that found_row [OF that(2)] found_row_fits [OF that] by (intro fits_set_row) auto
  show "holding (txn (\<lambda>s. case find_artifact i s of None \<Rightarrow> (Inr None, s)
     | Some r \<Rightarrow> if ar_status r \<in> set ACTIVE_STATES \<and> (case ar_lease r of None \<Rightarrow> True | Some t \<Rightarrow> t < st_now s)
         then let r' = r\<lparr>ar_lease := Some (st_now s + sec ARTIFACT_LEASE_SECONDS)\<rparr> in (Inr (Some r'), set_row i (\<lambda>_. r') s)
         else (Inr None, s)))"
    by (rule hold_txn) (auto simp: Let_def claim split: option.split)
qed (auto intro!: hold_txn fits_set_row)

text \<open>The changes of the lifecycle: no code is longer than 48 characters, no key longer than 255, and a ready video has a size.\<close>

lemma length_uuid_str [simp]: "length (uuid_str u) = 36"
  by (simp add: uuid_str_def uuid_hex_def Let_def)

lemma length_keys [simp]: "length (video_object_key i) = 56" "length (thumbnail_object_key i) = 56"
  by (simp_all add: video_object_key_def thumbnail_object_key_def)

lemmas fit_defs = fit_change_def row_checks_def fits_def ACTIVE_STATES_def TERMINAL_def

lemma fit_changes:
  "fit_change from (\<lambda>r. r\<lparr>ar_status := ''failed'', ar_failure := Some (take 48 code), ar_lease := l\<rparr>)"
  "fit_change from (\<lambda>r. r\<lparr>ar_status := ''pending'', ar_job := None\<rparr>)"
  "fit_change from (\<lambda>r. r\<lparr>ar_status := ''uploading''\<rparr>)"
  "goal \<in> {''queued'', ''rendering''} \<Longrightarrow> fit_change from (\<lambda>r. r\<lparr>ar_status := goal\<rparr>)"
  "length job \<le> 64 \<Longrightarrow> fit_change from (\<lambda>r. r\<lparr>ar_status := ''queued'', ar_job := Some job, ar_attempts := n, ar_failure := None\<rparr>)"
  "fit_change from (\<lambda>r. r\<lparr>ar_status := ''pending'', ar_failure := None, ar_attempts := 0, ar_retries := n, ar_job := None, ar_lease := l\<rparr>)"
  "fit_change from (\<lambda>r. r\<lparr>ar_status := ''pending'', ar_key := None, ar_sha := None, ar_size := None, ar_mime := None, ar_job := None,
     ar_attempts := 0, ar_failure := None, ar_lease := l\<rparr>)"
  by (auto simp: fit_defs)

lemma valid_video: "validate_mp4 sha n (Some bytes) = Inr info \<Longrightarrow> mi_sha info = sha bytes \<and> 0 < mi_size info"
  by (auto simp: validate_mp4_def MIN_MP4_BYTES_def split: if_splits sum.splits)

lemma fit_ready:
  assumes "validate_mp4 sha n (Some bytes) = Inr info" "\<And>bs. length (sha bs) = 64" "thumb \<in> {None, Some (thumbnail_object_key i)}"
  shows "fit_change from (ready_row (video_object_key i) thumb info)"
  using valid_video [OF assms(1)] assms(2,3) by (auto simp: fit_defs ready_row_def)

lemma hold_fail [uph]: "holding (artifact_fail i code)"
  unfolding artifact_fail_def by (intro uph hold_cas fit_changes)

lemma hold_retry [uph]: "holding (artifact_retry u i)"
  unfolding artifact_retry_def by (intro uph hold_cas fit_changes)

lemma hold_missing [uph]: "holding (mark_object_missing i)"
  unfolding mark_object_missing_def by (intro uph hold_cas fit_changes)

abbreviation hex_file :: "(byte list \<Rightarrow> string) \<Rightarrow> bool" where
  "hex_file sha \<equiv> \<forall>bs. length (sha bs) = 64"

lemma hold_adopt [uph]: "hex_file sha \<Longrightarrow> holding (adopt_existing_object sha row)"
  unfolding adopt_existing_object_def Let_def by (intro uph hold_cas) (rule fit_ready, assumption, auto)

lemma hold_backend [uph]: "holding backend_submit" "holding backend_status" "holding backend_download" "holding backend_thumbnail"
  unfolding backend_submit_def backend_status_def backend_download_def backend_thumbnail_def by (rule uph)+

text \<open>The id of a submitted job is the one of the answer.\<close>

lemma submit_yields: "yields studio_fits (\<lambda>job. length job \<le> 64) backend_submit"
proof -
  have "short_job r" if "studio_fits s" "st_replies s = r # rs" for s r rs
    using that by (simp add: studio_fits_def outside_fits_def)
  then show ?thesis
    unfolding yields_def backend_submit_def wp_ask_backend
    using fits_answered by (fastforce simp: short_job_def split: list.split reply.split)
qed

lemma hold_dispatch [uph]: "hex_file sha \<Longrightarrow> holding (artifact_dispatch sha row)"
proof -
  assume hex: "hex_file sha"
  have "yields studio_fits (\<lambda>res. case res of Inl _ \<Rightarrow> True | Inr job \<Rightarrow> length job \<le> 64)
      (attempt (bnd backend_submit (\<lambda>job. ret (Inr job))) (\<lambda>e. case e of RenderRejected code \<Rightarrow> ret (Inl code) | _ \<Rightarrow> raise e))"
    by (intro yields_attempt yields_bnd [OF submit_yields]) (auto split: exn.split intro!: yields_ret yields_raise)
  note submitted = uph_yields [OF this]
  show ?thesis unfolding artifact_dispatch_def
    by (rule uph_bnd [OF hold_adopt [OF hex]], rule uph_option, rule uph_if, intro uph, rule submitted)
       (auto split: sum.split intro!: uph hold_cas fit_changes)
qed

lemma hold_poll [uph]: "holding (artifact_poll row)"
  unfolding artifact_poll_def Let_def by (intro uph hold_cas fit_changes) auto

lemma hold_download [uph]: "holding download_file"
  unfolding download_file_def by (auto split: exn.split intro!: uph)

text \<open>The key of a thumbnail is the one of the animation.\<close>

lemma thumb_yields: "yields studio_fits (\<lambda>t. t \<in> {None, Some (thumbnail_object_key (ar_id row))}) (store_thumbnail row)"
  unfolding store_thumbnail_def Let_def
  by (auto intro!: yields_attempt yields_after yields_ret uph split: option.split)

lemma hold_upload [uph]: "hex_file sha \<Longrightarrow> holding (artifact_upload sha row)"
proof -
  assume hex: "hex_file sha"
  have finish: "holding (bnd (store_thumbnail row) (\<lambda>thumb. artifact_cas (ar_id row) states (ready_row (video_object_key (ar_id row)) thumb info)))"
    if "validate_mp4 sha n (Some bytes) = Inr info" for states n bytes info
    by (rule uph_yields [OF thumb_yields], rule hold_cas, rule fit_ready [OF that]) (use hex in auto)
  show ?thesis unfolding artifact_upload_def Let_def
    by (intro uph hex) (auto split: download.split sum.split intro!: uph hold_cas fit_changes finish)
qed

lemma hold_step [uph]: "hex_file sha \<Longrightarrow> holding (artifact_step sha row)"
  unfolding artifact_step_def by (intro uph)

lemma hold_loop [uph]: "hex_file sha \<Longrightarrow> holding (advance_loop sha n row)"
  by (induction n arbitrary: row) (auto intro!: uph)

lemma hold_advance [uph]: "hex_file sha \<Longrightarrow> holding (artifact_advance sha i)"
  unfolding artifact_advance_def by (intro uph)

text \<open>The row \<open>register\<close> inserts: the texts are cut or were refused before, the fingerprint is a digest.\<close>

lemma title_for_fits: "length (title_for type canonical spec_title supplied) \<le> 200"
  by (simp add: title_for_def Let_def split: option.split)

lemma canonical_fits: "canonical_content type content = Inr text \<Longrightarrow> type \<in> {''mermaid'', ''manim''} \<and> length text \<le> 20000"
  by (auto simp: canonical_content_def canonical_mermaid_source_def canonical_manim_spec_def Let_def ARTIFACT_MAX_MERMAID_CHARS_def
      ARTIFACT_MAX_MANIM_SPEC_CHARS_def split: if_splits json.splits sum.splits)

lemma fits_register:
  assumes "studio_fits s" "row_checks a" "length (af_block ref) \<le> 64" "af_id ref = ar_id a"
  shows "studio_fits (snd (register_txn a ref s))"
proof -
  let ?rows = "if list_ex (taken_by a) (st_rows s) then st_rows s else st_rows s @ [a]"
  let ?refs = "if list_ex (same_ref ref) (st_refs s) then st_refs s else st_refs s @ [ref]"
  have new: "studio_fits (s\<lparr>st_rows := ?rows, st_refs := ?refs\<rparr>)" if ok: "find (\<lambda>r. ar_id r = ar_id a) ?rows = Some row" for row
  proof -
    have "row \<in> set ?rows \<and> ar_id row = ar_id a" using find_iff [OF ok] by blast
    then have fk: "ar_id a \<in> ar_id ` set ?rows" by (metis image_eqI)
    have sub: "ar_id ` set (st_rows s) \<subseteq> ar_id ` set ?rows" by auto
    have old: "refs_table (ar_id ` set ?rows) (st_refs s)"
      using assms(1) sub by (auto simp: studio_fits_def studio_tables_def refs_table_def list_all_iff)
    have key: "list_ex (same_ref ref) (st_refs s) \<longleftrightarrow> ref_key ref \<in> ref_key ` set (st_refs s)"
      by (auto simp: list_ex_iff same_ref_def ref_key_def)
    have "refs_table (ar_id ` set ?rows) ?refs"
      using old fk assms(3,4) key by (simp add: refs_table_def)
    moreover have "list_all row_checks ?rows" using assms(1,2) by (simp add: studio_fits_def studio_tables_def)
    ultimately show ?thesis using assms(1) by (simp add: studio_fits_def studio_tables_def)
  qed
  show ?thesis
  proof (cases "find (\<lambda>r. ar_id r = ar_id a) ?rows")
    case (Some row)
    show ?thesis unfolding register_txn_def Let_def Some option.case
      by (simp only: assms(2) new [OF Some] not_True_eq_False simp_thms if_False snd_conv)
  next
    case None
    show ?thesis unfolding register_txn_def Let_def None option.case
      by (simp only: assms(1,2) not_True_eq_False simp_thms if_False snd_conv)
  qed
qed

lemma version_yields: "yields studio_fits (\<lambda>v. length v \<le> 62) (getting st_renderer)"
  by (simp add: yields_def wp_simps studio_fits_def outside_fits_def)

lemma hold_register [uph]:
  assumes "\<And>t. length (sha256 t) = 64"
  shows "holding (register sha256 uuid5 owner cid mid type content block title)"
  unfolding register_def Let_def
proof (rule uph_lift, rule uph_yields [OF version_yields], rule uph_bnd [OF uph_get], rule hold_txn, rule fits_register, goal_cases)
  case (2 canonical v now s)
  then show ?case using assms canonical_fits [OF 2(1)] title_for_fits
    by (auto simp: row_checks_def fits_def compute_fingerprint_def ACTIVE_STATES_def TERMINAL_def ARTIFACT_RENDER_QUALITY_def split: prod.split)
qed simp_all

lemma hold_orphan [uph]: "holding (delete_orphan cutoff key n)"
  unfolding delete_orphan_def
  by (intro uph) (auto intro!: uph hold_txn split: list.split)

lemma hold_serve: "hex_file sha \<Longrightarrow> (\<And>t. length (sha256 t) = 64) \<Longrightarrow> holding (serve sha sha256 uuid5 q)"
  by (cases q) (auto simp: run_once_def delete_orphan_objects_def intro!: uph)

section \<open>The rows of the exports\<close>

lemma fits_jobs:
  assumes "studio_fits s" "\<And>j. j \<in> set (st_jobs s) \<Longrightarrow> job_checks j \<Longrightarrow> job_checks (f j)"
  shows "studio_fits (s\<lparr>st_jobs := map f (st_jobs s)\<rparr>)"
  using assms by (auto simp: studio_fits_def studio_tables_def list_all_iff)

lemma found_job_fits: "studio_fits s \<Longrightarrow> find_job i s = Some j \<Longrightarrow> job_checks j"
  using find_job_mem [of i s j] by (auto simp: studio_fits_def studio_tables_def list_all_iff)

lemma job_frame [simp]: "job_checks (j\<lparr>xj_updated := t\<rparr>) = job_checks j"
  by (simp add: job_checks_def)

definition fit_job :: "(int \<Rightarrow> export_job \<Rightarrow> export_job) \<Rightarrow> bool" where
  "fit_job f \<longleftrightarrow> (\<forall>now j. job_checks j \<longrightarrow> job_checks (f now j))"

lemma fits_put_job: "studio_fits s \<Longrightarrow> job_checks j \<Longrightarrow> studio_fits (put_job i j s)"
  unfolding put_job_def by (rule fits_jobs) auto

lemma hold_job_set: "fit_job f \<Longrightarrow> holding (job_set i allowed f)"
  unfolding job_set_def
  by (rule hold_txn) (auto simp: Let_def fit_job_def dest: found_job_fits intro!: fits_put_job split: option.split)

lemma fit_job_changes:
  "length code \<le> 48 \<Longrightarrow> fit_job (failed_job code)" "fit_job pause_job"
  "fit_job (\<lambda>now j. j\<lparr>xj_done := n, xj_total := m\<rparr>)" "fit_job (\<lambda>now j. j\<lparr>xj_status := ''expired'', xj_object := None\<rparr>)"
  by (simp_all add: fit_job_def job_checks_def fits_def failed_job_def pause_job_def)

lemma fit_ready_job: "length name \<le> 200 \<and> length ctype \<le> 64 \<Longrightarrow> length digest = 64 \<Longrightarrow> fit_job (ready_job (export_key i name) name ctype n digest parts)"
  by (simp add: fit_job_def job_checks_def fits_def ready_job_def export_key_def)

lemma hold_jobs [uph]: "holding (job_claim i)" "holding waiting_jobs" "holding fail_exhausted" "holding due_jobs" "holding prune_jobs"
    "holding (job_get u i)"
  unfolding job_claim_def waiting_jobs_def fail_exhausted_def due_jobs_def prune_jobs_def job_get_def
proof -
  have claim: "job_checks (claim_change t j)" if "studio_fits s" "find_job i s = Some j" for s t j
    using found_job_fits [OF that] by (simp add: job_checks_def claim_change_def)
  show "holding (txn (\<lambda>s. case find_job i s of None \<Rightarrow> (Inr None, s)
     | Some j \<Rightarrow> if busy_job j \<and> xj_attempts j < EXPORT_MAX_ATTEMPTS \<and> lease_free (st_now s) j
         then (Inr (Some (claim_change (st_now s) j)), put_job i (claim_change (st_now s) j) s) else (Inr None, s)))"
    by (rule hold_txn) (auto intro!: fits_put_job claim split: option.split)
  show "holding (txn (\<lambda>s. (Inr (), s\<lparr>st_jobs := map (\<lambda>j.
     if busy_job j \<and> EXPORT_MAX_ATTEMPTS \<le> xj_attempts j \<and> lease_free (st_now s) j
     then (failed_job ''export_error'' (st_now s) j)\<lparr>xj_updated := st_now s\<rparr> else j) (st_jobs s)\<rparr>)))"
    using fit_job_changes(1) [of "''export_error''"] by (intro hold_txn) (auto intro!: fits_jobs simp: fit_job_def)
qed (auto intro!: hold_txn simp: studio_fits_def studio_tables_def list_all_iff)

lemma hold_create:
  assumes "job_checks new"
  shows "holding (txn (create_txn new))"
proof (rule hold_txn)
  fix s assume s: "studio_fits s"
  let ?js = "map (expire_stale (xj_owner new) (xj_request new) (st_now s)) (st_jobs s)"
  have old: "studio_fits (s\<lparr>st_jobs := ?js\<rparr>)"
    by (rule fits_jobs [OF s]) (simp add: expire_stale_def job_checks_def)
  moreover have "studio_fits (s\<lparr>st_jobs := ?js @ [new]\<rparr>)"
    using old assms by (simp add: studio_fits_def studio_tables_def)
  ultimately show "studio_fits (snd (create_txn new s))"
    using s by (simp add: create_txn_def Let_def split: list.split)
qed

lemma job_row_fits:
  "scope \<in> set SCOPES \<Longrightarrow> fmt \<in> set FORMATS \<Longrightarrow> hex_digests T \<Longrightarrow> job_checks (job_row T i owner cid scope fmt media ids snap now)"
  by (simp add: job_row_def job_checks_def fits_def hex_digests_def)

text \<open>The name of the file: a slug of at most 40 characters, a short id and an extension.\<close>

lemma conversation_dir_fits: "length (conversation_dir title cid) \<le> 49"
  using title_slug_plain [of title] by (simp add: conversation_dir_def)

lemma archive_name_fits: "length (archive_name b) \<le> 65"
proof -
  have "length (title_slug t) \<le> 40" for t using title_slug_plain by blast
  then show ?thesis by (simp add: archive_name_def Let_def)
qed

definition file_fits :: "byte list \<times> string \<times> string \<Rightarrow> bool" where
  "file_fits = (\<lambda>(_, name, ctype). length name \<le> 200 \<and> length ctype \<le> 64)"

lemma stable_fits: "stable studio_fits"
  by (auto simp: stable_def reads_def studio_fits_def studio_tables_def)

lemma hold_reading: "reading m \<Longrightarrow> holding m"
  unfolding upholds_def
  by (intro allI impI, rule wp_mono [OF wp_reading], assumption) (use stable_fits in \<open>auto simp: stable_def\<close>)

lemma zip_yields: "yields studio_fits (\<lambda>(name, _). length name \<le> 200)
    (build_hierarchy_zip loads shaf stamp_of b media maxb options snap maxv)"
proof -
  have "length (archive_name b @ ''.zip'') \<le> 200" using archive_name_fits [of b] by simp
  then show ?thesis unfolding build_hierarchy_zip_def
    by (auto intro!: yields_raise yields_after yields_ret uph hold_reading reading_fold reading_bundle_video)
qed

lemma render_yields: "yields studio_fits file_fits (render_job T job b)"
proof -
  have short: "length (conversation_dir t i @ ''.pdf'') \<le> 200" "length (conversation_dir t i @ ''.md'') \<le> 200" for t i
    using conversation_dir_fits [of t i] by simp_all
  have fetch: "holding (fold_prog (\<lambda>(_, a). fetch_thumb a) arts [])" for arts :: "(string \<times> artifact) list"
    by (rule hold_reading) (auto intro!: reading_fold reading_fetch_thumb split: prod.split)
  show ?thesis unfolding render_job_def Let_def
    using short
    by (auto simp: file_fits_def split: list.split prod.split
        intro!: yields_raise yields_ret yields_after yields_bnd [OF zip_yields] uph fetch)
qed

lemma hold_publish: "hex_digests T \<Longrightarrow> file_fits out \<Longrightarrow> holding (publish_job T i n out)"
  unfolding publish_job_def Let_def
  by (cases out) (auto simp: file_fits_def hex_digests_def intro!: uph hold_job_set fit_ready_job)

lemma hold_more [uph]: "length code \<le> 48 \<Longrightarrow> holding (job_fail i code)" "holding (expire_job d m)"
  unfolding job_fail_def expire_job_def
  by (auto intro!: uph hold_job_set fit_job_changes split: prod.split)

lemma hold_after_failure [uph]: "holding (after_failure job e)"
  unfolding after_failure_def by (auto intro!: uph hold_job_set fit_job_changes split: exn.split)

lemma hold_drop [uph]: "holding (drop_orphan key n)"
  unfolding drop_orphan_def Let_def by (intro uph) (auto intro!: uph hold_txn)

lemma hold_cleanup [uph]: "holding (jobs_cleanup keys)"
  unfolding jobs_cleanup_def by (intro uph)

section \<open>Every call keeps it\<close>

lemma keeps_upheld: "upholds I m \<Longrightarrow> keeps I (on_other m)"
  by (rule keeps_other) (rule upholdsD)

lemma keeps_fits_report: "keeps studio_fits (report_progress i a b)"
  unfolding report_progress_def by (intro keeps_upheld uph hold_job_set fit_job_changes)

lemma keeps_fits_produce: "hex_digests T \<Longrightarrow> keeps studio_fits (produce T job)"
proof -
  assume hex: "hex_digests T"
  have publish: "keeps studio_fits (bnd (on_other (render_job T job b)) (\<lambda>out. on_other (publish_job T (xj_id job) n out)))" for b n
    by (rule keeps_yields [OF render_yields], rule keeps_upheld, rule hold_publish [OF hex])
  have renderer: "keeps studio_fits (on_other (getting st_renderer))" by (intro keeps_upheld uph)
  show ?thesis unfolding produce_def
    by (auto intro!: keeps_bnd [OF keeps_simple(4)] keeps_bnd [OF keeps_simple(3)] keeps_bnd [OF renderer]
        keeps_bnd [OF keeps_collect [OF stable_fits keeps_fits_report]] publish keeps_simple)
qed

lemma keeps_fits_process: "hex_digests T \<Longrightarrow> keeps studio_fits (process_job T i)"
  unfolding process_job_def work_on_def
  by (auto intro!: keeps_bnd keeps_attempt keeps_simple keeps_upheld keeps_fits_produce uph split: option.split)

lemma keeps_fits_create: "hex_digests T \<Longrightarrow> keeps studio_fits (api_create_export T i user cid scope fmt media)"
proof (cases "scope \<in> set SCOPES \<and> fmt \<in> set FORMATS")
  case True
  assume hex: "hex_digests T"
  have insert: "holding (bnd (getting st_now) (\<lambda>now. txn (create_txn (job_row T i user cid scope fmt m ids snap now))))" for m ids snap
    using True by (intro uph hold_create job_row_fits hex) auto
  have "keeps studio_fits (job_create T i user cid scope fmt media)"
    unfolding job_create_def Let_def
    by (auto intro!: keeps_bnd keeps_simple keeps_upheld insert split: prod.split)
  then show ?thesis unfolding api_create_export_def
    by (auto intro!: keeps_bnd keeps_attempt keeps_simple keeps_upheld keeps_fits_process [OF hex] uph split: prod.split)
qed (auto simp: api_create_export_def intro: keeps_simple)

lemma keeps_fits_turn: "hex_digests T \<Longrightarrow> keeps studio_fits (worker_turn T keys previous)"
  unfolding worker_turn_def jobs_run_once_def
  by (auto intro!: keeps_attempt keeps_bnd keeps_fold keeps_fits_process keeps_simple keeps_upheld uph)

lemma keeps_fits_call: "hex_digests T \<Longrightarrow> keeps studio_fits (serve_call T uuid5 q)"
proof (cases q)
  case (Animation r)
  assume "hex_digests T"
  then show ?thesis unfolding Animation serve_call.simps
    by (intro keeps_upheld hold_serve) (simp_all add: hex_digests_def)
next
  case (Animation_turn keys previous)
  assume "hex_digests T"
  then have "hex_file (tl_shaf T)" by (simp add: hex_digests_def)
  then have "holding (run_once (tl_shaf T))" "holding (delete_orphan_objects keys grace)" for grace
    unfolding run_once_def delete_orphan_objects_def by (intro uph; assumption)+
  then show ?thesis unfolding Animation_turn serve_call.simps artifact_turn_def by (intro keeps_upheld uph)
qed (auto intro!: keeps_bnd keeps_simple keeps_fits_create keeps_fits_process keeps_fits_turn)

definition call_fits :: "nat \<times> world \<times> fault list \<times> reply list \<times> string \<times> studio_call \<Rightarrow> bool" where
  "call_fits = (\<lambda>(_, _, _, rs, v, _). outside_fits rs v)"

lemma run_calls_fits:
  "hex_digests T \<Longrightarrow> list_all call_fits qs \<Longrightarrow> studio_fits s \<Longrightarrow> studio_fits (run_calls T uuid5 qs s)"
proof (induction qs arbitrary: s)
  case (Cons x qs)
  obtain gap w fs rs v q where x: "x = (gap, w, fs, rs, v, q)" by (cases x)
  let ?s = "s\<lparr>st_now := st_now s + int gap, st_sched := fs, st_replies := rs, st_renderer := v\<rparr>"
  have "studio_fits ?s" using Cons.prems(2,3) by (simp add: x call_fits_def studio_fits_def studio_tables_def)
  then have "studio_fits (snd (after (serve_call T uuid5 q) (w, ?s)))"
    using keepsD [OF keeps_fits_call [OF Cons.prems(1)]] by (simp add: wp_after)
  then show ?case using Cons.prems(1,2) by (simp add: x Cons.IH)
qed simp

text \<open>C40:
  The services write only what the tables of the studio take, also into a database without its widths and checks. When the digests have 64 characters, the ids of render jobs at most 64 and the version of the
  renderer at most 62, then after any sequence of calls of both services with any failures: every animation, and every export
  job, fits its columns and satisfies every CHECK of its table, and every reference of a message to an animation fits, is there
  once and names an animation that exists.
\<close>

theorem studio_tables_fit:
  assumes "hex_digests T" and "list_all call_fits qs"
  shows "studio_tables (run_calls T uuid5 qs (empty_studio\<lparr>st_checks := constrained\<rparr>))"
proof -
  have "studio_fits (empty_studio\<lparr>st_checks := constrained\<rparr>)"
    by (simp add: studio_fits_def studio_tables_def refs_table_def outside_fits_def empty_studio_def)
  then show ?thesis using run_calls_fits [OF assms] by (simp add: studio_fits_def)
qed

text \<open>A diagram is registered and the worker runs, with no constraint in the database.\<close>

definition hex_tools :: tools where
  "hex_tools = \<lparr>tl_loads = (\<lambda>_. None), tl_sha = (\<lambda>_. replicate 64 CHR ''a''), tl_shaf = (\<lambda>_. replicate 64 CHR ''b''), tl_stamp = (\<lambda>_. []),
     tl_zip = (\<lambda>_. []), tl_md = (\<lambda>_ s. s), tl_weasy = Inr\<rparr>"

definition sample_calls :: "(nat \<times> world \<times> fault list \<times> reply list \<times> string \<times> studio_call) list" where
  "sample_calls =
     [(1, empty_world 0, [], [], ''v1'', Animation (Register 2 3 4 ''mermaid'' (JStr ''graph TD'') ''b1'' None)),
      (1, empty_world 0, [Lost], [JobIs ''job'' ''pending'' None], ''v1'', Animation_turn [] 0)]"

theorem studio_tables_fit_witness:
  "let s = run_calls hex_tools (\<lambda>_. 9) sample_calls (empty_studio\<lparr>st_checks := False\<rparr>) in
   studio_tables s \<and> map ar_status (st_rows s) = [''ready'']"
  unfolding Let_def
proof (rule conjI)
  show "studio_tables (run_calls hex_tools (\<lambda>_. 9) sample_calls (empty_studio\<lparr>st_checks := False\<rparr>))"
    by (rule studio_tables_fit)
       (simp_all add: hex_digests_def hex_tools_def sample_calls_def call_fits_def outside_fits_def short_job_def)
qed code_simp

section \<open>A value the schema refuses\<close>

text \<open>
  The width of \<open>render_job_id\<close> is checked by the database only: a job id of more than 64 characters is submitted, refused on
  the way into the row, and the attempt is not counted, so the animation is submitted again after every pause.
\<close>

theorem wide_job_id_is_resubmitted:
  assumes "st_sched s = []" "find_artifact (ar_id row) s = Some row" "ar_status row = ''pending''"
    "st_objs s (video_object_key (ar_id row)) = None" "ar_attempts row < ARTIFACT_MAX_AUTO_ATTEMPTS"
    "st_replies s = JobIs job state failure # rs" "64 < length job" "st_checks s"
  shows "artifact_dispatch sha row s = (Inl DbError, s\<lparr>st_replies := rs\<rparr>)"
proof -
  have pop: "st_pop (t\<lparr>st_replies := rs\<rparr>) = t\<lparr>st_replies := rs\<rparr>" "st_pop t = t" if "st_sched t = []" for t
    using that by (simp_all add: st_pop_def)
  have "find_artifact (ar_id row) (s\<lparr>st_replies := rs\<rparr>) = Some row" using assms(2) by (simp add: find_artifact_def)
  then show ?thesis using assms
    by (simp add: artifact_dispatch_def adopt_existing_object_def store_stat_def store_call_def artifact_cas_def txn_def st_fault_def pop
        backend_submit_def ask_backend_def attempt_def bnd_def ret_def Let_def row_checks_def fits_def)
qed

end
