(* ===== verification/Reply_Race.thy ===== *)
theory Reply_Race
  imports Timeout_Worker
begin

text \<open>
  Several replicas of the service writing the answer of one turn: \<open>finalize_assistant_message\<close> and \<open>fail_assistant_message\<close> of
  \<open>app/services/message_service.py\<close> and the entry of \<open>app/workers/pending_timeout_worker.py\<close>, each cut where the code has
  read the row and has not written it yet. Elsewhere a handler runs to its end before the next one starts; here the
  two halves of any number of handlers interleave. The write of Cassandra has no condition, so what was read may be
  out of date when it happens.
\<close>

section \<open>The handlers in two halves\<close>

text \<open>Some answer when the handler ends without a write.\<close>

definition fail_read :: "uuid \<Rightarrow> uuid \<Rightarrow> (world, message option option) prog" where
  "fail_read cid mid =
     bnd (is_writable_assistant_row cid mid) (\<lambda>ok.
     if \<not> ok then ret (Some None)
     else bnd (msg_get cid mid) (\<lambda>existing. ret (if already_answered existing then Some existing else None)))"

definition reply_write :: "uuid \<Rightarrow> uuid \<Rightarrow> string \<Rightarrow> string \<Rightarrow> citation list \<Rightarrow> (world, message option) prog" where
  "reply_write cid mid content status cites =
     bnd (msg_create_direct cid mid ''assistant'' content status cites) (\<lambda>msg.
     bnd (invalidate_cache cid) (\<lambda>_. ret (Some msg)))"

text \<open>The conversation of an entry that is to be failed.\<close>

definition timeout_read :: "uuid \<Rightarrow> (world, uuid option) prog" where
  "timeout_read mid =
     bnd (redis_query (\<lambda>w. live (w_now w) (w_pending w mid))) (\<lambda>conv. case conv of
        None \<Rightarrow> bnd (redis_exec (zrem mid)) (\<lambda>_. ret None)
      | Some cid \<Rightarrow> bnd (msg_get cid mid) (\<lambda>existing.
          if is_completed existing then bnd (drop_marker mid) (\<lambda>_. ret None) else ret (Some cid)))"

definition timeout_write :: "nat \<Rightarrow> uuid \<Rightarrow> uuid \<Rightarrow> (world, bool) prog" where
  "timeout_write slack cid mid =
     bnd (msg_create_direct cid mid ''assistant'' TIMEOUT_MESSAGE ''failed'' []) (\<lambda>_.
     bnd (cache_delete_last_50 cid) (\<lambda>_.
     bnd (publish_token slack cid (timeout_event cid mid)) (\<lambda>_.
     bnd (drop_marker mid) (\<lambda>_. ret True))))"

text \<open>One half after the other is the handler.\<close>

lemma bnd_bnd: "bnd (bnd m f) g = bnd m (\<lambda>a. bnd (f a) g)"
  by (auto simp: bnd_def fun_eq_iff split: prod.split sum.split)

lemma bnd_ret_left: "bnd (ret a) f = f a"
  by (simp add: bnd_def ret_def fun_eq_iff)

lemma bnd_branch: "bnd (if b then m else n) f = (if b then bnd m f else bnd n f)"
  by simp

theorem fail_in_halves:
  "fail_assistant_message cid mid msg =
     bnd (fail_read cid mid) (\<lambda>d. case d of Some r \<Rightarrow> ret r | None \<Rightarrow> reply_write cid mid msg ''failed'' [])"
  unfolding fail_assistant_message_def fail_read_def reply_write_def bnd_bnd bnd_branch bnd_ret_left
  by (intro arg_cong [where f = "bnd _"] ext) (simp add: if_distrib if_distribR cong: if_cong)

theorem finalize_in_halves:
  "finalize_assistant_message cid mid content cites =
     bnd (is_writable_assistant_row cid mid) (\<lambda>ok. if \<not> ok then ret None else reply_write cid mid content ''sent'' cites)"
  unfolding finalize_assistant_message_def reply_write_def by (rule refl)

theorem timeout_in_halves:
  "process_entry slack mid =
     attempt (bnd (timeout_read mid) (\<lambda>d. case d of None \<Rightarrow> ret False | Some cid \<Rightarrow> timeout_write slack cid mid)) (\<lambda>_. ret False)"
proof -
  have "bnd (case conv of None \<Rightarrow> m | Some cid \<Rightarrow> n cid) f = (case conv of None \<Rightarrow> bnd m f | Some cid \<Rightarrow> bnd (n cid) f)"
    for conv :: "uuid option" and m n and f :: "uuid option \<Rightarrow> (world, bool) prog"
    by (simp split: option.split)
  then show ?thesis
    unfolding process_entry_def timeout_read_def timeout_write_def by (simp only: bnd_bnd bnd_ret_left bnd_branch option.case)
qed

section \<open>Interleavings\<close>

text \<open>A handler that has decided to write. Every replica may hold any number of them.\<close>

datatype late_write =
    Finish uuid uuid string "citation list"
  | Fail uuid uuid string
  | Time_out nat uuid uuid

fun written_row :: "late_write \<Rightarrow> uuid \<times> uuid" where
  "written_row (Finish cid mid _ _) = (cid, mid)"
| "written_row (Fail cid mid _) = (cid, mid)"
| "written_row (Time_out _ cid mid) = (cid, mid)"

fun write_half :: "late_write \<Rightarrow> (world, unit) prog" where
  "write_half (Finish cid mid content cites) = bnd (reply_write cid mid content ''sent'' cites) (\<lambda>_. ret ())"
| "write_half (Fail cid mid msg) = bnd (reply_write cid mid msg ''failed'' []) (\<lambda>_. ret ())"
| "write_half (Time_out slack cid mid) = bnd (timeout_write slack cid mid) (\<lambda>_. ret ())"

fun written_text :: "late_write \<Rightarrow> string \<times> string" where
  "written_text (Finish _ _ content _) = (content, ''sent'')"
| "written_text (Fail _ _ msg) = (msg, ''failed'')"
| "written_text (Time_out _ _ _) = (TIMEOUT_MESSAGE, ''failed'')"

text \<open>
  One step: the reading half of a handler, which adds its write when it goes on; the writing half of one of the handlers
  under way; the crash of one; and the passing of time, with new failures ahead.
\<close>

type_synonym replicas = "world \<times> late_write list"

inductive race :: "replicas \<Rightarrow> replicas \<Rightarrow> bool" where
  race_finish: "is_writable_assistant_row cid mid w = (r, w') \<Longrightarrow>
     race (w, fl) (w', if r = Inr True then Finish cid mid content cites # fl else fl)"
| race_fail: "fail_read cid mid w = (r, w') \<Longrightarrow>
     race (w, fl) (w', if r = Inr None then Fail cid mid msg # fl else fl)"
| race_timeout: "timeout_read mid w = (r, w') \<Longrightarrow>
     race (w, fl) (w', case r of Inr (Some cid) \<Rightarrow> Time_out slack cid mid # fl | _ \<Rightarrow> fl)"
| race_write: "race (w, xs @ x # ys) (after (write_half x) w, xs @ ys)"
| race_crash: "race (w, xs @ x # ys) (w, xs @ ys)"
| race_time: "race (w, fl) (w\<lparr>w_now := now, w_sched := faults\<rparr>, fl)"

inductive_cases raceE: "race (w, fl) s"

abbreviation races :: "replicas \<Rightarrow> replicas \<Rightarrow> bool" where
  "races \<equiv> race\<^sup>*\<^sup>*"

section \<open>What a half does to the rows\<close>

definition answered :: "world \<Rightarrow> uuid \<Rightarrow> uuid \<Rightarrow> bool" where
  "answered w cid mid \<longleftrightarrow> (case msg_of w cid mid of None \<Rightarrow> False | Some r \<Rightarrow> answered_row r)"

text \<open>The markers only go.\<close>

definition fewer :: "world \<Rightarrow> world \<Rightarrow> bool" where
  "fewer w w' \<longleftrightarrow> (\<forall>m. w_pending w' m = w_pending w m \<or> w_pending w' m = None)"

definition still :: "world \<Rightarrow> world \<Rightarrow> bool" where
  "still w w' \<longleftrightarrow> w_msgs w' = w_msgs w \<and> fewer w w'"

text \<open>\<open>replaced k t w w'\<close>: the row \<open>k\<close> holds the text and status \<open>t\<close> of the assistant, and the others are as before.\<close>

definition replaced :: "uuid \<times> uuid \<Rightarrow> string \<times> string \<Rightarrow> world \<Rightarrow> world \<Rightarrow> bool" where
  "replaced k t w w' \<longleftrightarrow> msgs_ok w' \<and> holds_reply w' (fst k) (snd k) (fst t) (snd t) \<and>
     (\<forall>c m. (c, m) \<noteq> k \<longrightarrow> msg_of w' c m = msg_of w c m) \<and> fewer w w'"

lemma still_rows: "still w w' \<Longrightarrow> msg_of w' = msg_of w \<and> msgs_ok w' = msgs_ok w"
  by (simp add: still_def msg_of_def msgs_ok_def fun_eq_iff)

lemma fewer_steps [simp]: "fewer w w" "fewer w (pop w') = fewer w w'" "fewer w (zrem m w') = fewer w w'" "fewer w (put_msg c m f w') = fewer w w'"
    "fewer w w' \<Longrightarrow> fewer w (del_pending m w')"
  by (simp_all add: fewer_def zrem_def del_pending_def)

lemma still_steps [simp]: "still w w" "still w (pop w') = still w w'" "still w (zrem m w') = still w w'" "still w w' \<Longrightarrow> still w (del_pending m w')"
  by (simp_all add: still_def)

lemma replaced_still: "replaced k t w w1 \<Longrightarrow> w_msgs w2 = w_msgs w1 \<Longrightarrow> fewer w1 w2 \<Longrightarrow> replaced k t w w2"
  by (simp add: replaced_def holds_reply_def msgs_ok_def msg_of_def fewer_def) metis

lemma replaced_steps [simp]: "replaced k t w w' \<Longrightarrow> replaced k t w (pop w')" "replaced k t w w' \<Longrightarrow> replaced k t w (zrem m w')"
    "replaced k t w w' \<Longrightarrow> replaced k t w (del_pending m w')"
  by (erule replaced_still, simp_all add: zrem_def del_pending_def fewer_def)+

lemma replaced_cache: "replaced k t w w1 \<Longrightarrow> only_cache w1 w2 \<Longrightarrow> replaced k t w w2"
  and replaced_stream: "replaced k t w w1 \<Longrightarrow> only_stream w1 w2 \<Longrightarrow> replaced k t w w2"
  by (erule replaced_still, simp_all add: only_cacheD only_streamD fewer_def)+

lemma wp_fail_read:
  "wp (fail_read cid mid) (\<lambda>d w'. still w w' \<and> (d = None \<longrightarrow> \<not> foreign_row (msg_of w cid mid) \<and> \<not> answered w cid mid))
     (\<lambda>_ w'. still w w') w"
  unfolding fail_read_def wp_bnd [of "is_writable_assistant_row cid mid"]
  by (rule wp_mono [OF wp_writable])
     (auto simp: wp_bnd wp_msg_get wp_ret already_answered_row answered_def split: fault.split option.splits)

lemma wp_timeout_read:
  "wp (timeout_read mid) (\<lambda>d w'. still w w' \<and>
       (case d of None \<Rightarrow> True | Some cid \<Rightarrow> live (w_now w) (w_pending w mid) = Some cid \<and> \<not> completed_row (msg_of w cid mid)))
     (\<lambda>_ w'. still w w') w"
  unfolding timeout_read_def
  by (auto simp: wp_simps wp_msg_get is_completed_row drop_marker_def split: fault.split option.split)

lemma replaced_put:
  "msgs_ok w \<Longrightarrow> replaced (cid, mid) (content, st) w (put_msg cid mid (reply_update ''assistant'' content now st cites) (pop w))"
  by (auto simp: replaced_def holds_reply_put msg_of_put_other)

lemma wp_reply_write:
  assumes "msgs_ok w" and "status_of (Some st) = Some x"
  shows "wp (reply_write cid mid content st cites) (\<lambda>_ w'. replaced (cid, mid) (content, st) w w')
     (\<lambda>_ w'. still w w' \<or> replaced (cid, mid) (content, st) w w') w"
proof -
  have inv: "wp (invalidate_cache cid) (\<lambda>_. wp (ret (Some msg)) (\<lambda>_. replaced k t w) E) E w1" if "replaced k t w w1" for msg k t w1 E
    unfolding invalidate_cache_def
    by (rule wp_cache_delete_last_50) (use that in \<open>auto simp: wp_ret intro: replaced_cache\<close>)
  show ?thesis unfolding reply_write_def wp_bnd wp_create_direct [OF assms(2)]
    using assms(1) by (auto split: fault.split intro!: inv replaced_put)
qed


lemma wp_timeout_write:
  assumes "msgs_ok w"
  shows "wp (timeout_write slack cid mid) (\<lambda>_ w'. replaced (cid, mid) (TIMEOUT_MESSAGE, ''failed'') w w')
     (\<lambda>_ w'. still w w' \<or> replaced (cid, mid) (TIMEOUT_MESSAGE, ''failed'') w w') w"
proof -
  let ?R = "replaced (cid, mid) (TIMEOUT_MESSAGE, ''failed'') w"
  have st: "status_of (Some ''failed'') = Some FAILED" by (simp add: status_of_def)
  have drop: "wp (drop_marker mid) (\<lambda>_ w'. wp (ret True) (\<lambda>_. ?R) E w') (\<lambda>_ w'. still w w' \<or> ?R w') w1" if "?R w1" for w1 E
    using that by (simp add: drop_marker_def wp_simps split: fault.split)
  have announce: "wp (cache_delete_last_50 cid) (\<lambda>_. wp (publish_token slack cid (timeout_event cid mid))
      (\<lambda>_. wp (drop_marker mid) (\<lambda>_ w'. wp (ret True) (\<lambda>_. ?R) E w') (\<lambda>_ w'. still w w' \<or> ?R w')) E') E' w1" if "?R w1" for w1 E E'
    by (rule wp_cache_delete_last_50, rule wp_publish_token, rule drop)
       (use that in \<open>auto intro: replaced_cache replaced_stream\<close>)
  show ?thesis unfolding timeout_write_def wp_bnd wp_create_direct [OF st]
    using assms by (auto split: fault.split intro!: announce replaced_put)
qed

lemma write_half_effect:
  assumes "msgs_ok w"
  shows "still w (after (write_half x) w) \<or> replaced (written_row x) (written_text x) w (after (write_half x) w)"
proof -
  have st: "status_of (Some ''failed'') = Some FAILED" "status_of (Some ''sent'') = Some SENT" by (simp_all add: status_of_def)
  have "wp (write_half x) (\<lambda>_ w'. still w w' \<or> replaced (written_row x) (written_text x) w w')
      (\<lambda>_ w'. still w w' \<or> replaced (written_row x) (written_text x) w w') w"
    by (cases x) (auto simp: wp_bnd wp_ret intro!: wp_mono [OF wp_reply_write [OF assms st(1)]] wp_mono [OF wp_reply_write [OF assms st(2)]]
        wp_mono [OF wp_timeout_write [OF assms]])
  then show ?thesis by (simp only: wp_after)
qed

section \<open>What no interleaving breaks\<close>

text \<open>
  What a row may become: an assistant's, if it is one, and nothing if it is not. No marker and no handler under way names
  the row of someone else.
\<close>

definition kept :: "msg_row option \<Rightarrow> msg_row option \<Rightarrow> bool" where
  "kept r0 r \<longleftrightarrow> (if foreign_row r0 then r = r0 else \<not> foreign_row r)"

definition markers_own :: "world \<Rightarrow> world \<Rightarrow> bool" where
  "markers_own w0 w \<longleftrightarrow> (\<forall>now m c. live now (w_pending w m) = Some c \<longrightarrow> \<not> foreign_row (msg_of w0 c m))"

definition aims_own :: "world \<Rightarrow> late_write \<Rightarrow> bool" where
  "aims_own w0 x \<longleftrightarrow> \<not> foreign_row (msg_of w0 (fst (written_row x)) (snd (written_row x)))"

definition own_rows :: "world \<Rightarrow> replicas \<Rightarrow> bool" where
  "own_rows w0 s \<longleftrightarrow> msgs_ok (fst s) \<and> markers_own w0 (fst s) \<and> list_all (aims_own w0) (snd s) \<and>
     (\<forall>c m. kept (msg_of w0 c m) (msg_of (fst s) c m))"

lemma kept_foreign: "kept r0 r \<Longrightarrow> foreign_row r = foreign_row r0"
  by (auto simp: kept_def split: if_splits)

lemma markers_fewer: "markers_own w0 w \<Longrightarrow> fewer w w' \<Longrightarrow> markers_own w0 w'"
  unfolding markers_own_def fewer_def by (metis live_simps(1) option.distinct(1))

lemma own_rows_still: "own_rows w0 (w, fl) \<Longrightarrow> still w w' \<Longrightarrow> own_rows w0 (w', fl)"
  using still_rows [of w w'] by (auto simp: own_rows_def still_def intro: markers_fewer)

lemma own_rows_add: "own_rows w0 (w, fl) \<Longrightarrow> aims_own w0 x \<Longrightarrow> own_rows w0 (w, x # fl)"
  by (simp add: own_rows_def)

lemma own_rows_drop: "own_rows w0 (w, xs @ x # ys) \<Longrightarrow> own_rows w0 (w, xs @ ys)"
  by (simp add: own_rows_def)

lemma holds_reply_own: "holds_reply w c m t st \<Longrightarrow> \<not> foreign_row (msg_of w c m)"
  by (simp add: holds_reply_def foreign_row_def split: option.splits)

lemma own_rows_replaced:
  assumes "own_rows w0 (w, xs @ x # ys)" "replaced (written_row x) t w w'"
  shows "own_rows w0 (w', xs @ ys)"
proof -
  obtain c m where k: "written_row x = (c, m)" by (cases "written_row x")
  have "\<not> foreign_row (msg_of w0 c m)" using assms(1) by (simp add: own_rows_def aims_own_def k)
  moreover have "\<not> foreign_row (msg_of w' c m)" using assms(2) holds_reply_own by (simp add: replaced_def k) metis
  ultimately have "kept (msg_of w0 c m) (msg_of w' c m)" by (simp add: kept_def)
  then have "kept (msg_of w0 c' m') (msg_of w' c' m')" for c' m'
    using assms by (cases "(c', m') = (c, m)") (simp_all add: own_rows_def replaced_def k)
  then show ?thesis using assms by (auto simp: own_rows_def replaced_def intro: markers_fewer)
qed

lemma own_rows_step:
  assumes "race s s'" "own_rows w0 s"
  shows "own_rows w0 s'"
  using assms
proof (induction rule: race.induct)
  case (race_finish cid mid w r w' fl content cites)
  have "wp (is_writable_assistant_row cid mid) (\<lambda>ok v. still w v \<and> ok = (\<not> foreign_row (msg_of w cid mid))) (\<lambda>_ v. still w v) w"
    by (rule wp_mono [OF wp_writable]) auto
  then have "still w w'" "r = Inr True \<Longrightarrow> \<not> foreign_row (msg_of w cid mid)"
    using race_finish(1) by (auto simp: wp_def split: sum.splits)
  moreover have "foreign_row (msg_of w cid mid) = foreign_row (msg_of w0 cid mid)"
    using race_finish(2) by (auto simp: own_rows_def dest: kept_foreign)
  ultimately show ?case using race_finish(2) by (auto simp: aims_own_def intro: own_rows_still own_rows_add)
next
  case (race_fail cid mid w r w' fl msg)
  then have "still w w'" "r = Inr None \<Longrightarrow> \<not> foreign_row (msg_of w cid mid)"
    using wp_fail_read [of cid mid w] by (auto simp: wp_def split: sum.splits)
  moreover have "foreign_row (msg_of w cid mid) = foreign_row (msg_of w0 cid mid)"
    using race_fail(2) by (auto simp: own_rows_def dest: kept_foreign)
  ultimately show ?case using race_fail(2) by (auto simp: aims_own_def intro: own_rows_still own_rows_add)
next
  case (race_timeout mid w r w' fl slack)
  then have s: "still w w'" "\<And>cid. r = Inr (Some cid) \<Longrightarrow> live (w_now w) (w_pending w mid) = Some cid"
    using wp_timeout_read [of mid w] by (auto simp: wp_def split: sum.splits)
  have "aims_own w0 (Time_out slack cid mid)" if "r = Inr (Some cid)" for cid
    using s(2) [OF that] race_timeout(2) by (auto simp: aims_own_def own_rows_def markers_own_def)
  then show ?case using race_timeout(2) s(1) by (auto split: sum.split option.split intro: own_rows_still own_rows_add)
next
  case (race_write w xs x ys)
  then have "msgs_ok w" by (simp add: own_rows_def)
  from write_half_effect [OF this, of x] show ?case
    using race_write own_rows_still own_rows_drop own_rows_replaced by metis
next
  case (race_time w fl now faults)
  then show ?case by (simp add: own_rows_def msgs_ok_def msg_of_def markers_own_def)
next
  case (race_crash w xs x ys)
  then show ?case by (rule own_rows_drop)
qed

text \<open>C35:
  However the replicas interleave, which calls fail and which replicas crash: when no marker of a pending response names the
  row of a user or of the system, no such row is ever changed, although every handler reads the row first and writes it
  later without a condition.
\<close>

theorem race_spares_other_rows:
  assumes "races (w, []) (w', fl)" "msgs_ok w" "markers_own w w" "foreign_row (msg_of w cid mid)"
  shows "msg_of w' cid mid = msg_of w cid mid"
proof -
  have "own_rows w (w, [])" using assms(2,3) by (simp add: own_rows_def kept_def)
  with assms(1) have "own_rows w (w', fl)"
    by (induction rule: rtranclp_induct) (auto intro: own_rows_step)
  then show ?thesis using assms(4) by (simp add: own_rows_def kept_def)
qed

section \<open>The window\<close>

text \<open>No empty answer is about to be stored.\<close>

definition speaks :: "replicas \<Rightarrow> bool" where
  "speaks s \<longleftrightarrow> list_all (\<lambda>x. snd (written_text x) = ''sent'' \<longrightarrow> fst (written_text x) \<noteq> []) (snd s)"

definition no_failure_for :: "uuid \<Rightarrow> uuid \<Rightarrow> late_write list \<Rightarrow> bool" where
  "no_failure_for cid mid fl \<longleftrightarrow> list_all (\<lambda>x. written_row x = (cid, mid) \<longrightarrow> snd (written_text x) = ''sent'') fl"

definition answer_safe :: "uuid \<Rightarrow> uuid \<Rightarrow> replicas \<Rightarrow> bool" where
  "answer_safe cid mid s \<longleftrightarrow> msgs_ok (fst s) \<and> answered (fst s) cid mid \<and> no_failure_for cid mid (snd s)"

lemma holds_reply_answered: "holds_reply w cid mid text ''sent'' \<Longrightarrow> text \<noteq> [] \<Longrightarrow> answered w cid mid"
  by (auto simp: holds_reply_def answered_def answered_row_def truthy_str_def split: option.splits)

lemma answered_completed: "answered w cid mid \<Longrightarrow> completed_row (msg_of w cid mid)"
  by (auto simp: answered_def completed_row_def answered_row_def split: option.splits)

lemma answer_safe_still: "answer_safe cid mid (w, fl) \<Longrightarrow> still w w' \<Longrightarrow> answer_safe cid mid (w', fl)"
  using still_rows [of w w'] by (simp add: answer_safe_def answered_def)

lemma answer_safe_add: "answer_safe cid mid (w, fl) \<Longrightarrow> (written_row x = (cid, mid) \<Longrightarrow> snd (written_text x) = ''sent'') \<Longrightarrow> answer_safe cid mid (w, x # fl)"
  by (simp add: answer_safe_def no_failure_for_def)

lemma answer_safe_replaced:
  assumes "answer_safe cid mid (w, xs @ x # ys)" "speaks (w, xs @ x # ys)" "replaced (written_row x) (written_text x) w w'"
  shows "answer_safe cid mid (w', xs @ ys)"
proof -
  have "answered w' cid mid"
  proof (cases "written_row x = (cid, mid)")
    case True
    then have "snd (written_text x) = ''sent''" "fst (written_text x) \<noteq> []"
      using assms(1,2) by (simp_all add: answer_safe_def no_failure_for_def speaks_def)
    then show ?thesis using assms(3) True by (auto simp: replaced_def intro: holds_reply_answered)
  next
    case False
    then have "msg_of w' cid mid = msg_of w cid mid" using assms(3) by (metis replaced_def)
    then show ?thesis using assms(1) by (simp add: answer_safe_def answered_def)
  qed
  then show ?thesis using assms(1,3) by (simp add: answer_safe_def no_failure_for_def replaced_def)
qed

lemma answer_safe_step:
  assumes "race s s'" "answer_safe cid mid s" "speaks s"
  shows "answer_safe cid mid s'"
  using assms
proof (induction rule: race.induct)
  case (race_finish c m w r w' fl content cites)
  have "wp (is_writable_assistant_row c m) (\<lambda>_ v. still w v) (\<lambda>_ v. still w v) w"
    by (rule wp_mono [OF wp_writable]) auto
  then have "still w w'" using race_finish(1) by (auto simp: wp_def split: sum.splits)
  then show ?case using race_finish(2) by (auto intro: answer_safe_still answer_safe_add)
next
  case (race_fail c m w r w' fl msg)
  then have "still w w'" "r = Inr None \<Longrightarrow> \<not> answered w c m"
    using wp_fail_read [of c m w] by (auto simp: wp_def split: sum.splits)
  moreover have "answered w cid mid" using race_fail(2) by (simp add: answer_safe_def)
  ultimately have "answer_safe cid mid (w', fl)" "r = Inr None \<Longrightarrow> (c, m) \<noteq> (cid, mid)"
    using race_fail(2) by (auto intro: answer_safe_still)
  then show ?case by (auto intro: answer_safe_add)
next
  case (race_timeout m w r w' fl slack)
  then have "still w w'" "\<And>c. r = Inr (Some c) \<Longrightarrow> \<not> answered w c m"
    using wp_timeout_read [of m w] answered_completed by (auto simp: wp_def split: sum.splits)
  moreover have "answered w cid mid" using race_timeout(2) by (simp add: answer_safe_def)
  ultimately have "answer_safe cid mid (w', fl)" "\<And>c. r = Inr (Some c) \<Longrightarrow> (c, m) \<noteq> (cid, mid)"
    using race_timeout(2) by (auto intro: answer_safe_still)
  then show ?case by (auto intro: answer_safe_add split: sum.split option.split)
next
  case (race_write w xs x ys)
  then have "msgs_ok w" by (simp add: answer_safe_def)
  from write_half_effect [OF this, of x] show ?case
  proof
    assume "still w (after (write_half x) w)"
    then show ?thesis using race_write(1) answer_safe_still [of cid mid w "xs @ ys"] by (simp add: answer_safe_def no_failure_for_def)
  next
    assume "replaced (written_row x) (written_text x) w (after (write_half x) w)"
    then show ?thesis by (rule answer_safe_replaced [OF race_write])
  qed
next
  case (race_crash w xs x ys)
  then show ?case by (simp add: answer_safe_def no_failure_for_def)
next
  case (race_time w fl now faults)
  then show ?case by (simp add: answer_safe_def answered_def msgs_ok_def msg_of_def)
qed

text \<open>C36:
  An answer is only lost through the window between the two halves of a failure: once a reply is stored while no handler is
  about to write a failure into its row, it stays an answer in every continuation, whatever the replicas do, crash and
  however their calls fail, as long as no empty answer is about to replace it.
\<close>

theorem answer_stays_outside_window:
  assumes "(\<lambda>s s'. race s s' \<and> speaks s')\<^sup>*\<^sup>* (w, fl) (w', fl')" "speaks (w, fl)" "msgs_ok w" "answered w cid mid" "no_failure_for cid mid fl"
  shows "answered w' cid mid"
proof -
  have "answer_safe cid mid (w', fl') \<and> speaks (w', fl')"
    using assms(1)
  proof (induction rule: rtranclp_induct2)
    case refl
    then show ?case using assms(2-) by (simp add: answer_safe_def)
  next
    case (step a b c d)
    then show ?case using answer_safe_step by blast
  qed
  then show ?thesis by (simp add: answer_safe_def)
qed

section \<open>Inside the window the answer is lost\<close>

lemma reply_write_calm:
  assumes "calm w" "msgs_ok w" "status_of (Some st) = Some x"
  shows "wp (reply_write cid mid content st cites) (\<lambda>_ w'. calm w' \<and> replaced (cid, mid) (content, st) w w') (\<lambda>_ _. False) w"
  unfolding reply_write_def wp_bnd wp_create_direct [OF assms(3)] invalidate_cache_def
  using assms(1) replaced_put [OF assms(2), of cid mid content st "w_now w" cites]
  by (auto intro!: wp_frame [OF cache_drop_calm] simp: wp_ret elim: replaced_cache)

lemma replaced_announced:
  "replaced k t w w1 \<Longrightarrow> only_cache w1 w2 \<Longrightarrow> only_stream w2 w3 \<Longrightarrow> replaced k t w (zrem m (del_pending m w3))"
  using replaced_cache [of k t w w1 w2] replaced_stream [of k t w w2 w3] by simp

lemma timeout_write_calm:
  assumes "calm w" "msgs_ok w"
  shows "wp (timeout_write slack cid mid) (\<lambda>_ w'. replaced (cid, mid) (TIMEOUT_MESSAGE, ''failed'') w w') (\<lambda>_ _. False) w"
proof -
  have st: "status_of (Some ''failed'') = Some FAILED" by (simp add: status_of_def)
  let ?R = "replaced (cid, mid) (TIMEOUT_MESSAGE, ''failed'') w"
  have announce: "wp (cache_delete_last_50 cid) (\<lambda>_. wp (publish_token slack cid (timeout_event cid mid))
      (\<lambda>_. wp (drop_marker mid) (\<lambda>_. wp (ret True) (\<lambda>_. ?R) E) E) E) E w1" if "calm w1" "?R w1" for w1 E
    by (rule wp_frame [OF cache_drop_calm [OF that(1)]], elim conjE, rule wp_frame [OF publish_calm], assumption)
       (use replaced_announced [OF that(2)] in \<open>auto simp: drop_marker_calm wp_ret\<close>)
  show ?thesis unfolding timeout_write_def wp_bnd wp_create_direct [OF st]
    using assms replaced_put [OF assms(2), of cid mid TIMEOUT_MESSAGE "''failed''" "w_now w" "[]"] by (auto intro!: announce)
qed

lemma wp_ends: "wp m Q (\<lambda>_ _. False) w \<Longrightarrow> \<exists>a w'. m w = (Inr a, w') \<and> Q a w'"
  by (auto simp: wp_def split: prod.splits sum.splits)

text \<open>C37:
  Inside the window the answer is lost, whatever the service was told: with no failures at all, when the timeout worker of one
  replica has read a pending response and the answer is stored by another before the worker writes, the answer is first
  there and then replaced by the message of the timeout.
\<close>

theorem timeout_overwrites_answer:
  assumes "calm w" "msgs_ok w" "mid \<in> set (expired_ids now w)" "live (w_now w) (w_pending w mid) = Some cid"
    "\<not> foreign_row (msg_of w cid mid)" "\<not> completed_row (msg_of w cid mid)" "content \<noteq> []"
  shows "\<exists>w1 w2. races (w, []) (w1, [Time_out slack cid mid]) \<and> holds_reply w1 cid mid content ''sent'' \<and> answered w1 cid mid \<and>
     race (w1, [Time_out slack cid mid]) (w2, []) \<and> holds_reply w2 cid mid TIMEOUT_MESSAGE ''failed''"
proof -
  let ?t = "Time_out slack cid mid" and ?f = "Finish cid mid content []"
  have st: "status_of (Some ''sent'') = Some SENT" by (simp add: status_of_def)
  have "timeout_read mid w = (Inr (Some cid), w)"
  proof -
    have "wp (timeout_read mid) (\<lambda>d w'. d = Some cid \<and> w' = w) (\<lambda>_ _. False) w"
      using assms(1,4,6) by (simp add: timeout_read_def wp_simps wp_ext_calm wp_msg_get is_completed_row)
    then show ?thesis using wp_ends by fastforce
  qed
  from race_timeout [OF this, of "[]" slack] have a: "race (w, []) (w, [?t])" by simp
  have "is_writable_assistant_row cid mid w = (Inr True, w)"
  proof -
    have "wp (is_writable_assistant_row cid mid) (\<lambda>ok w'. ok \<and> w' = w) (\<lambda>_ _. False) w"
      using assms(1,5) by (auto simp: is_writable_assistant_row_def wp_bnd wp_ret wp_msg_get foreign_row_def message_of_row_def split: option.splits)
    then show ?thesis using wp_ends by fastforce
  qed
  from race_finish [OF this, of "[?t]" content "[]"] have b: "race (w, [?t]) (w, [?f, ?t])" by simp
  define w1 where "w1 = after (write_half ?f) w"
  have c: "race (w, [?f, ?t]) (w1, [?t])" using race_write [of w "[]" ?f "[?t]"] by (simp add: w1_def)
  have "wp (write_half ?f) (\<lambda>_ v. calm v \<and> replaced (cid, mid) (content, ''sent'') w v) (\<lambda>_ v. calm v \<and> replaced (cid, mid) (content, ''sent'') w v) w"
    unfolding write_half.simps wp_bnd by (rule wp_mono [OF reply_write_calm [OF assms(1,2) st]]) (simp_all add: wp_ret)
  then have w1: "calm w1" "replaced (cid, mid) (content, ''sent'') w w1" by (simp_all add: wp_after w1_def)
  define w2 where "w2 = after (write_half ?t) w1"
  have d: "race (w1, [?t]) (w2, [])" using race_write [of w1 "[]" ?t "[]"] by (simp add: w2_def)
  have "wp (write_half ?t) (\<lambda>_ v. replaced (cid, mid) (TIMEOUT_MESSAGE, ''failed'') w1 v) (\<lambda>_ v. replaced (cid, mid) (TIMEOUT_MESSAGE, ''failed'') w1 v) w1"
    unfolding write_half.simps wp_bnd
    by (rule wp_mono [OF timeout_write_calm [OF w1(1)]]) (use w1(2) in \<open>simp_all add: wp_ret replaced_def\<close>)
  then have w2: "holds_reply w2 cid mid TIMEOUT_MESSAGE ''failed''" by (simp add: wp_after w2_def replaced_def)
  have "races (w, []) (w1, [?t])" using a b c by (metis rtranclp.simps)
  moreover have "holds_reply w1 cid mid content ''sent''" using w1(2) by (simp add: replaced_def)
  ultimately show ?thesis using d w2 assms(7) holds_reply_answered by blast
qed

section \<open>A conversation with a question, an open and an answered response\<close>

definition race_start :: world where
  "race_start = (empty_world 100)\<lparr>w_pending := (\<lambda>_. None)(70 := Some (5, None)), w_zset := [(70, 50)]\<rparr>"

definition race_world :: world where
  "race_world = put_msg 5 60 (plain_update ''user'' ''hi'' 0 ''sent'') (put_msg 5 70 (plain_update ''assistant'' [] 0 ''pending'')
     (put_msg 5 80 (plain_update ''assistant'' ''ok'' 0 ''sent'') race_start))"

lemma race_start_ok: "msgs_ok race_start" "calm race_start"
  by (simp_all add: race_start_def msgs_ok_def empty_world_def clustered_def calm_def)

lemma race_world_ok: "msgs_ok race_world" "calm race_world"
  using race_start_ok by (simp_all add: race_world_def)

lemma race_world_rows:
  "foreign_row (msg_of race_world 5 60)" "\<not> foreign_row (msg_of race_world 5 70)" "\<not> completed_row (msg_of race_world 5 70)"
  "answered race_world 5 80" "markers_own race_world race_world"
proof -
  show rows: "foreign_row (msg_of race_world 5 60)" "\<not> foreign_row (msg_of race_world 5 70)" "\<not> completed_row (msg_of race_world 5 70)"
    "answered race_world 5 80"
    using race_start_ok by (simp_all add: race_world_def msg_of_put foreign_row_def completed_row_def answered_def
        answered_row_def truthy_str_def split: option.split)
  have "w_pending race_world = (\<lambda>_. None)(70 := Some (5, None))" by (simp add: race_world_def) (simp add: race_start_def)
  then show "markers_own race_world race_world" using rows(2)
    by (auto simp: markers_own_def live_def)
qed

theorem race_spares_other_rows_witness:
  "msg_of (snd (fail_read 5 60 race_world)) 5 60 = msg_of race_world 5 60"
proof -
  obtain r w' where r: "fail_read 5 60 race_world = (r, w')" by (cases "fail_read 5 60 race_world")
  have "races (race_world, []) (w', if r = Inr None then [Fail 5 60 ''x''] else [])"
    using race_fail [OF r, of "[]" "''x''"] by (auto split: if_splits)
  from race_spares_other_rows [OF this race_world_ok(1) race_world_rows(5,1)] show ?thesis by (simp add: r)
qed

theorem answer_stays_outside_window_witness:
  "answered (snd (fail_read 5 80 race_world)) 5 80"
proof -
  obtain r w' where r: "fail_read 5 80 race_world = (r, w')" by (cases "fail_read 5 80 race_world")
  let ?fl = "if r = Inr None then [Fail 5 80 ''x''] else []"
  have "race (race_world, []) (w', ?fl)" "speaks (w', ?fl)"
    using race_fail [OF r, of "[]" "''x''"] by (auto simp: speaks_def split: if_splits)
  then have "(\<lambda>s s'. race s s' \<and> speaks s')\<^sup>*\<^sup>* (race_world, []) (w', ?fl)" by blast
  from answer_stays_outside_window [OF this _ race_world_ok(1) race_world_rows(4)]
  show ?thesis by (simp add: r speaks_def no_failure_for_def)
qed

theorem timeout_overwrites_answer_witness:
  "\<exists>w1 w2. races (race_world, []) (w1, [Time_out 0 5 70]) \<and> holds_reply w1 5 70 ''hello'' ''sent'' \<and> answered w1 5 70 \<and>
     race (w1, [Time_out 0 5 70]) (w2, []) \<and> holds_reply w2 5 70 TIMEOUT_MESSAGE ''failed''"
proof (rule timeout_overwrites_answer [OF race_world_ok(2,1) _ _ race_world_rows(2,3)])
  have z: "w_zset race_world = [(70, 50)]" "w_pending race_world = (\<lambda>_. None)(70 := Some (5, None))"
    by (simp add: race_world_def, simp add: race_start_def)+
  show "70 \<in> set (expired_ids 60 race_world)" by (simp add: expired_ids_def z(1))
  show "live (w_now race_world) (w_pending race_world 70) = Some 5" by (simp add: z(2) live_def)
qed simp

end
