(* ===== verification/Settings.thy ===== *)
theory Settings
  imports Py_Text
begin

text \<open>
  \<open>app/db/keyspace.py\<close> and the start-up validation of \<open>app/core/config.py\<close>: the settings the validators read, each check in
  its order, and the statement that creates the keyspace. A validator that raises gives the text of its \<open>ValueError\<close>;
  reading the environment and the conversion of its text to typed fields belong to pydantic-settings.
\<close>

record settings =
  se_environment :: string
  se_debug :: bool
  se_strategy :: string
  se_rf :: "int option"
  se_keyspace :: string
  se_dc :: string
  se_read :: string
  se_write :: string
  se_serial :: string
  se_secret :: string
  se_issuer :: "string option"
  se_notes :: int
  se_edits :: int

text \<open>The defaults of the class.\<close>

definition default_settings :: settings where
  "default_settings = \<lparr>se_environment = ''development'', se_debug = True, se_strategy = ''NetworkTopologyStrategy'', se_rf = None,
     se_keyspace = ''graphgpt_conversations'', se_dc = ''datacenter1'', se_read = ''LOCAL_QUORUM'', se_write = ''LOCAL_QUORUM'',
     se_serial = ''LOCAL_SERIAL'', se_secret = ''supersecretjwtkeyforauthservicelocaldvelopment12345'', se_issuer = None,
     se_notes = 100000, se_edits = 100000\<rparr>"

section \<open>Keyspace helpers\<close>

definition PRODUCTION_ENVIRONMENTS :: "string list" where
  "PRODUCTION_ENVIRONMENTS = [''production'', ''prod'']"

definition STRATEGIES :: "string list" where
  "STRATEGIES = [''NetworkTopologyStrategy'', ''SimpleStrategy'']"

definition CONSISTENCY_LEVELS :: "string list" where
  "CONSISTENCY_LEVELS = [''ANY'', ''ONE'', ''TWO'', ''THREE'', ''QUORUM'', ''ALL'', ''LOCAL_QUORUM'', ''EACH_QUORUM'', ''LOCAL_ONE'']"

definition SERIAL_LEVELS :: "string list" where
  "SERIAL_LEVELS = [''SERIAL'', ''LOCAL_SERIAL'']"

definition PRODUCTION_MIN_RF :: int where
  "PRODUCTION_MIN_RF = 3"

abbreviation newline :: char where "newline \<equiv> CHR 0x0A"
abbreviation apostrophe :: char where "apostrophe \<equiv> CHR 0x27"

text \<open>\<open>_IDENTIFIER.match\<close>: \<open>$\<close> also stands before one newline that ends the string.\<close>

definition ident_start :: "char \<Rightarrow> bool" where
  "ident_start c \<longleftrightarrow> is_lower_az c \<or> is_upper_az c \<or> c = CHR ''_''"

definition ident_char :: "char \<Rightarrow> bool" where
  "ident_char c \<longleftrightarrow> is_alnum_ascii c \<or> c = CHR ''_''"

definition plain_identifier :: "string \<Rightarrow> bool" where
  "plain_identifier s \<longleftrightarrow> (case s of [] \<Rightarrow> False | c # cs \<Rightarrow> ident_start c \<and> list_all ident_char cs)"

definition identifier_match :: "string \<Rightarrow> bool" where
  "identifier_match s \<longleftrightarrow> plain_identifier (if s \<noteq> [] \<and> last s = newline then butlast s else s)"

definition production :: "string \<Rightarrow> bool" where
  "production environment \<longleftrightarrow> lower (strip environment) \<in> set PRODUCTION_ENVIRONMENTS"

definition effective_replication_factor :: "int option \<Rightarrow> string \<Rightarrow> int" where
  "effective_replication_factor rf environment = (case rf of
     Some n \<Rightarrow> n
   | None \<Rightarrow> if production environment then PRODUCTION_MIN_RF else 1)"

definition problem :: "bool \<Rightarrow> string \<Rightarrow> string list" where
  "problem b t = (if b then [t] else [])"

definition level_problem :: "string \<Rightarrow> string \<Rightarrow> string list \<Rightarrow> string list" where
  "level_problem name value allowed = problem (value \<notin> set allowed) (name @ '' must be one of '' @ join '', '' allowed)"

definition validate_cassandra_settings :: "settings \<Rightarrow> string list" where
  "validate_cassandra_settings c =
     problem (se_strategy c \<notin> set STRATEGIES) (''CASSANDRA_REPLICATION_STRATEGY must be one of '' @ join '', '' STRATEGIES) @
     problem (\<not> identifier_match (se_keyspace c))
       ''CASSANDRA_KEYSPACE must be a plain identifier (letters, digits, underscore)'' @
     problem (se_strategy c = ''NetworkTopologyStrategy'' \<and> strip (se_dc c) = [])
       ''CASSANDRA_LOCAL_DC must name the datacenter for NetworkTopologyStrategy'' @
     problem (case se_rf c of None \<Rightarrow> False | Some n \<Rightarrow> n < 1) ''CASSANDRA_REPLICATION_FACTOR must be >= 1'' @
     level_problem ''CASSANDRA_CONSISTENCY_READ'' (se_read c) CONSISTENCY_LEVELS @
     level_problem ''CASSANDRA_CONSISTENCY_WRITE'' (se_write c) CONSISTENCY_LEVELS @
     level_problem ''CASSANDRA_SERIAL_CONSISTENCY'' (se_serial c) SERIAL_LEVELS @
     (if production (se_environment c)
      then let eff = effective_replication_factor (se_rf c) (se_environment c) in
        problem (se_strategy c \<noteq> ''NetworkTopologyStrategy'' \<or> eff < PRODUCTION_MIN_RF)
          (''production requires CASSANDRA_REPLICATION_STRATEGY=NetworkTopologyStrategy and CASSANDRA_REPLICATION_FACTOR>='' @
           dec_of_int PRODUCTION_MIN_RF @ '' (got '' @ se_strategy c @ '', RF='' @ dec_of_int eff @
           ''). Single-node environments must set ENVIRONMENT=staging or development instead'')
      else [])"

text \<open>\<open>local_dc.replace("'", "''")\<close>, and the statement.\<close>

definition double_quotes :: "string \<Rightarrow> string" where
  "double_quotes s = concat (map (\<lambda>c. if c = apostrophe then [apostrophe, apostrophe] else [c]) s)"

definition cql_quoted :: "string \<Rightarrow> string" where
  "cql_quoted s = apostrophe # s @ [apostrophe]"

definition create_statement :: "string \<Rightarrow> string \<Rightarrow> bool \<Rightarrow> string" where
  "create_statement keyspace replication durable = ''CREATE KEYSPACE IF NOT EXISTS '' @ keyspace @ [newline] @
     ''WITH replication = '' @ replication @ [newline] @ ''AND durable_writes = '' @ (if durable then ''true'' else ''false'') @ '';''"

definition keyspace_cql :: "string \<Rightarrow> string \<Rightarrow> string \<Rightarrow> int \<Rightarrow> bool \<Rightarrow> exn + string" where
  "keyspace_cql keyspace strategy dc rf durable =
     (if \<not> identifier_match keyspace then Inl (ValueError ''invalid keyspace name'')
      else if strategy = ''NetworkTopologyStrategy'' then Inr (create_statement keyspace
        (''{'' @ cql_quoted ''class'' @ '': '' @ cql_quoted ''NetworkTopologyStrategy'' @ '', '' @ cql_quoted (double_quotes dc) @ '': '' @ dec_of_int rf @ ''}'')
        durable)
      else if strategy = ''SimpleStrategy'' then Inr (create_statement keyspace
        (''{'' @ cql_quoted ''class'' @ '': '' @ cql_quoted ''SimpleStrategy'' @ '', '' @ cql_quoted ''replication_factor'' @ '': '' @ dec_of_int rf @ ''}'')
        durable)
      else Inl (ValueError (''unknown replication strategy: '' @ strategy)))"

text \<open>\<open>str.upper\<close> on the letters the prefix needs: the micro sign, the sharp s and y with diaeresis have no effect on it.\<close>

definition upper_az :: "char \<Rightarrow> char" where
  "upper_az c = (if is_lower_az c then char_of ((of_char c :: nat) - 32) else c)"

definition is_read_query :: "string \<Rightarrow> bool" where
  "is_read_query query = starts_with ''SELECT'' (map upper_az (lstrip query))"

text \<open>What \<open>make schema\<close> prints for the settings.\<close>

definition schema_statement :: "settings \<Rightarrow> exn + string" where
  "schema_statement c = keyspace_cql (se_keyspace c) (se_strategy c) (se_dc c)
     (effective_replication_factor (se_rf c) (se_environment c)) True"

section \<open>Start-up validation\<close>

definition validate_notes_limits :: "settings \<Rightarrow> exn + settings" where
  "validate_notes_limits c =
     (if \<not> (1 \<le> se_notes c \<and> se_notes c \<le> 200000)
      then Inl (ValueError ''NOTES_MAX_CHARS must be between 1 and 200000 (the database constraint)'')
      else if \<not> (1 \<le> se_edits c \<and> se_edits c \<le> 200000)
      then Inl (ValueError ''SOURCE_EDIT_MAX_CHARS must be between 1 and 200000 (the database constraint)'')
      else Inr c)"

definition validate_cassandra_config :: "settings \<Rightarrow> exn + settings" where
  "validate_cassandra_config c = (let problems = validate_cassandra_settings c in
     if problems \<noteq> [] then Inl (ValueError (''Invalid Cassandra configuration: '' @ join ''; '' problems)) else Inr c)"

definition dev_values :: "string list" where
  "dev_values = [''supersecretjwtkeyforauthservicelocaldvelopment12345'', ''graphgpt-jwt-secret'', ''graphgpt-memory-secret'',
     ''changeme'', ''secret'']"

definition production_problems :: "settings \<Rightarrow> string list" where
  "production_problems c =
     problem (se_secret c = [] \<or> se_secret c \<in> set dev_values \<or> length (se_secret c) < 32)
       ''JWT_SECRET_KEY must be set to a unique secret of at least 32 characters'' @
     problem (se_issuer c = None \<or> se_issuer c = Some []) ''JWT_ISSUER must be set so token issuers are verified'' @
     problem (se_debug c) ''DEBUG must be false''"

definition fail_fast :: "settings \<Rightarrow> exn + settings" where
  "fail_fast c =
     (if \<not> production (se_environment c) then Inr c
      else if production_problems c \<noteq> [] then Inl (ValueError (''Unsafe production configuration: '' @ join ''; '' (production_problems c)))
      else Inr c)"

text \<open>\<open>Settings()\<close>: the validators run in the order of the class, the first error stops.\<close>

definition startup :: "settings \<Rightarrow> exn + settings" where
  "startup c = (case validate_notes_limits c of Inl e \<Rightarrow> Inl e | Inr c1 \<Rightarrow>
     (case validate_cassandra_config c1 of Inl e \<Rightarrow> Inl e | Inr c2 \<Rightarrow> fail_fast c2))"

section \<open>What is accepted\<close>

lemma problem_none [simp]: "problem b t = [] \<longleftrightarrow> \<not> b"
  by (simp add: problem_def)

lemma level_problem_none [simp]: "level_problem name value allowed = [] \<longleftrightarrow> value \<in> set allowed"
  by (simp add: level_problem_def)

definition levels_known :: "settings \<Rightarrow> bool" where
  "levels_known c \<longleftrightarrow> se_read c \<in> set CONSISTENCY_LEVELS \<and> se_write c \<in> set CONSISTENCY_LEVELS \<and> se_serial c \<in> set SERIAL_LEVELS"

definition limits_fit :: "settings \<Rightarrow> bool" where
  "limits_fit c \<longleftrightarrow> 1 \<le> se_notes c \<and> se_notes c \<le> 200000 \<and> 1 \<le> se_edits c \<and> se_edits c \<le> 200000"

lemma cassandra_accepted:
  "validate_cassandra_settings c = [] \<longleftrightarrow> se_strategy c \<in> set STRATEGIES \<and> identifier_match (se_keyspace c) \<and>
     \<not> (se_strategy c = ''NetworkTopologyStrategy'' \<and> strip (se_dc c) = []) \<and>
     \<not> (case se_rf c of None \<Rightarrow> False | Some n \<Rightarrow> n < 1) \<and> levels_known c \<and>
     \<not> (production (se_environment c) \<and> (se_strategy c \<noteq> ''NetworkTopologyStrategy'' \<or>
        effective_replication_factor (se_rf c) (se_environment c) < PRODUCTION_MIN_RF))"
  by (auto simp: validate_cassandra_settings_def levels_known_def Let_def)

lemma startup_accepts:
  "startup c = Inr c' \<longleftrightarrow> c' = c \<and> limits_fit c \<and> validate_cassandra_settings c = [] \<and>
     \<not> (production (se_environment c) \<and> production_problems c \<noteq> [])"
  by (auto simp: startup_def validate_notes_limits_def validate_cassandra_config_def fail_fast_def limits_fit_def Let_def)

text \<open>C33:
  In production the service starts exactly with a safe configuration: a replicated keyspace with a plain name and a named
  datacenter (NetworkTopologyStrategy, replication factor three or more, three when it is not set), known consistency levels,
  limits the database can hold, a signing secret of at least 32 characters that is none of the development values, an issuer,
  and no debug mode.
\<close>

theorem production_starts_iff_safe:
  "production (se_environment c) \<Longrightarrow>
   startup c = Inr c \<longleftrightarrow>
     limits_fit c \<and> levels_known c \<and> identifier_match (se_keyspace c) \<and>
     se_strategy c = ''NetworkTopologyStrategy'' \<and> strip (se_dc c) \<noteq> [] \<and> (se_rf c = None \<or> 3 \<le> the (se_rf c)) \<and>
     32 \<le> length (se_secret c) \<and> se_secret c \<notin> set dev_values \<and> se_issuer c \<notin> {None, Some []} \<and> \<not> se_debug c"
  unfolding startup_accepts cassandra_accepted production_problems_def
  by (auto simp: STRATEGIES_def PRODUCTION_MIN_RF_def effective_replication_factor_def split: option.splits)

definition safe_settings :: settings where
  "safe_settings = default_settings\<lparr>se_environment := '' Production'', se_debug := False,
     se_secret := ''0123456789abcdef0123456789abcdef'', se_issuer := Some ''auth''\<rparr>"

theorem production_starts_iff_safe_witness:
  "production (se_environment safe_settings) \<and> startup safe_settings = Inr safe_settings"
proof
  show p: "production (se_environment safe_settings)" by code_simp
  have "limits_fit safe_settings \<and> levels_known safe_settings \<and> identifier_match (se_keyspace safe_settings) \<and>
     se_strategy safe_settings = ''NetworkTopologyStrategy'' \<and> strip (se_dc safe_settings) \<noteq> [] \<and>
     (se_rf safe_settings = None \<or> 3 \<le> the (se_rf safe_settings)) \<and>
     32 \<le> length (se_secret safe_settings) \<and> se_secret safe_settings \<notin> set dev_values \<and>
     se_issuer safe_settings \<notin> {None, Some []} \<and> \<not> se_debug safe_settings" by code_simp
  then show "startup safe_settings = Inr safe_settings" by (rule iffD2 [OF production_starts_iff_safe [OF p]])
qed

section \<open>The statement\<close>

text \<open>How CQL reads a string literal after its opening quote: a doubled quote is a quote, a single one ends the literal.\<close>

fun read_literal :: "string \<Rightarrow> (string \<times> string) option" where
  "read_literal [] = None"
| "read_literal (c # cs) =
     (if c \<noteq> apostrophe then map_option (map_prod ((#) c) id) (read_literal cs)
      else case cs of
        d # ds \<Rightarrow> if d = apostrophe then map_option (map_prod ((#) apostrophe) id) (read_literal ds) else Some ([], cs)
      | [] \<Rightarrow> Some ([], []))"

lemma read_literal_quoted:
  "rest = [] \<or> hd rest \<noteq> apostrophe \<Longrightarrow> read_literal (double_quotes s @ apostrophe # rest) = Some (s, rest)"
  by (induction s) (auto simp: double_quotes_def split: list.splits)

text \<open>
  The name of the datacenter cannot break out of its literal: whatever characters it holds, the statement for a
  NetworkTopologyStrategy is the text up to the literal, the literal, and the text after it, and CQL reads the literal back as
  exactly that name with the replication factor behind it.
\<close>

theorem keyspace_literal_reads_back:
  "identifier_match keyspace \<Longrightarrow>
   \<exists>before after body. keyspace_cql keyspace ''NetworkTopologyStrategy'' dc rf durable = Inr (before @ apostrophe # body) \<and>
     read_literal body = Some (dc, after) \<and>
     after = '': '' @ dec_of_int rf @ ''}'' @ newline # ''AND durable_writes = '' @ (if durable then ''true'' else ''false'') @ '';''"
proof -
  assume "identifier_match keyspace"
  let ?after = "'': '' @ dec_of_int rf @ ''}'' @ newline # ''AND durable_writes = '' @ (if durable then ''true'' else ''false'') @ '';''"
  let ?before = "''CREATE KEYSPACE IF NOT EXISTS '' @ keyspace @ [newline] @ ''WITH replication = '' @ ''{'' @ cql_quoted ''class'' @ '': '' @
    cql_quoted ''NetworkTopologyStrategy'' @ '', ''"
  have "keyspace_cql keyspace ''NetworkTopologyStrategy'' dc rf durable = Inr (?before @ apostrophe # double_quotes dc @ apostrophe # ?after)"
    using \<open>identifier_match keyspace\<close> by (simp add: keyspace_cql_def create_statement_def cql_quoted_def)
  moreover have "read_literal (double_quotes dc @ apostrophe # ?after) = Some (dc, ?after)" by (rule read_literal_quoted) simp
  ultimately show ?thesis by blast
qed

theorem keyspace_literal_reads_back_witness:
  "\<exists>before after body. keyspace_cql ''k1'' ''NetworkTopologyStrategy'' [CHR ''d'', apostrophe] 3 True = Inr (before @ apostrophe # body) \<and>
     read_literal body = Some ([CHR ''d'', apostrophe], after) \<and>
     after = '': '' @ dec_of_int 3 @ ''}'' @ newline # ''AND durable_writes = '' @ (if True then ''true'' else ''false'') @ '';''"
  by (rule keyspace_literal_reads_back) code_simp

text \<open>
  Settings that are accepted always have a schema statement, and its replication factor is at least one, in production at
  least three.
\<close>

theorem accepted_settings_have_schema:
  assumes "startup c = Inr c'"
  shows "\<exists>cql. schema_statement c' = Inr cql" "1 \<le> effective_replication_factor (se_rf c') (se_environment c')"
    "production (se_environment c') \<Longrightarrow> 3 \<le> effective_replication_factor (se_rf c') (se_environment c')"
  using assms unfolding startup_accepts cassandra_accepted
  by (auto simp: schema_statement_def keyspace_cql_def STRATEGIES_def PRODUCTION_MIN_RF_def effective_replication_factor_def
      split: option.splits)

text \<open>The pattern accepts a name that ends in a newline, which is no plain identifier.\<close>

theorem newline_keyspace_accepted:
  "plain_identifier s \<Longrightarrow> identifier_match (s @ [newline]) \<and> \<not> plain_identifier (s @ [newline])"
proof -
  assume "plain_identifier s"
  moreover have "\<not> ident_char newline" by code_simp
  ultimately show ?thesis by (cases s) (simp_all add: identifier_match_def plain_identifier_def)
qed

section \<open>The consistency of statements\<close>

text \<open>
  \<open>ConsistencySession\<close> of \<open>app/db/cassandra.py\<close>. A query is a text, or a statement of the driver with its own level, its
  \<open>query_string\<close> and the text of its prepared statement (each may be missing), or something else that has no level.
\<close>

datatype query =
    Query_text string
  | Query_statement "nat option" "string option" "string option"
  | Query_other

definition query_text :: "query \<Rightarrow> string" where
  "query_text q = (case q of
     Query_text t \<Rightarrow> t
   | Query_statement _ own prepared \<Rightarrow> (case own of Some t \<Rightarrow> t | None \<Rightarrow> (case prepared of Some t \<Rightarrow> t | None \<Rightarrow> []))
   | Query_other \<Rightarrow> [])"

definition apply_level :: "nat \<Rightarrow> query \<Rightarrow> query" where
  "apply_level read_level q = (case q of
     Query_text t \<Rightarrow> if is_read_query t then Query_statement (Some read_level) (Some t) None else q
   | Query_statement level own prepared \<Rightarrow>
       if level = None \<and> is_read_query (query_text q) then Query_statement (Some read_level) own prepared else q
   | Query_other \<Rightarrow> q)"

text \<open>\<open>prepare\<close> sets the level of a prepared SELECT, whatever the driver gave it.\<close>

definition prepare_level :: "nat \<Rightarrow> query \<Rightarrow> query" where
  "prepare_level read_level q = (case q of
     Query_statement level own prepared \<Rightarrow> if is_read_query (query_text q) then Query_statement (Some read_level) own prepared else q
   | _ \<Rightarrow> q)"

definition level_of :: "nat \<Rightarrow> query \<Rightarrow> nat" where
  "level_of profile q = (case q of Query_statement (Some l) _ _ \<Rightarrow> l | _ \<Rightarrow> profile)"

text \<open>
  Every SELECT without a level of its own runs at the read level, everything else at its own level or at that of the profile,
  the text that runs is the one given, and applying the session twice is applying it once.
\<close>

theorem session_levels:
  "level_of profile (apply_level r q) = (case q of
     Query_statement (Some l) _ _ \<Rightarrow> l
   | Query_other \<Rightarrow> profile
   | _ \<Rightarrow> if is_read_query (query_text q) then r else profile)"
  "query_text (apply_level r q) = query_text q" "apply_level r (apply_level r q) = apply_level r q"
  by (auto simp: apply_level_def level_of_def query_text_def split: query.splits option.splits)

theorem prepared_select_level: "is_read_query (query_text q) \<Longrightarrow> q = Query_statement l a b \<Longrightarrow>
    level_of profile (apply_level r (prepare_level r q)) = r"
  by (simp add: prepare_level_def apply_level_def level_of_def)

end
