(* ===== verification/Auth.thy ===== *)
theory Auth
  imports Api Settings
begin

text \<open>
  \<open>app/security\<close>: the token of a request, its verification and the user it names. The PyJWT library is the parameter
  \<open>decode\<close>: from the options and the token to the verified claims or one of its two kinds of error.
\<close>

datatype jwt_error = Expired_signature | Jwt_error

record jwt_options =
  jo_key :: string
  jo_algorithms :: "string list"
  jo_issuer :: "string option"
  jo_audience :: "string option"
  jo_verify_signature :: bool
  jo_verify_exp :: bool
  jo_verify_iss :: bool
  jo_verify_aud :: bool

type_synonym decoder = "jwt_options \<Rightarrow> string \<Rightarrow> (jwt_error, event) sum"

definition set_text :: "string option \<Rightarrow> bool" where
  "set_text t \<longleftrightarrow> t \<noteq> None \<and> t \<noteq> Some []"

text \<open>\<open>verify_jwt_token\<close>; the algorithm and the audience are settings too.\<close>

definition verify_options :: "settings \<Rightarrow> string \<Rightarrow> string option \<Rightarrow> jwt_options" where
  "verify_options c algorithm audience =
     \<lparr>jo_key = se_secret c, jo_algorithms = [algorithm], jo_issuer = se_issuer c, jo_audience = audience,
      jo_verify_signature = True, jo_verify_exp = True, jo_verify_iss = set_text (se_issuer c),
      jo_verify_aud = set_text audience\<rparr>"

definition verify_jwt_token :: "decoder \<Rightarrow> settings \<Rightarrow> string \<Rightarrow> string option \<Rightarrow> string \<Rightarrow> exn + event" where
  "verify_jwt_token decode c algorithm audience token =
     (case decode (verify_options c algorithm audience) token of
        Inr claims \<Rightarrow> Inr claims
      | Inl Expired_signature \<Rightarrow> Inl (HTTPException 401 ''Authentication token has expired'')
      | Inl Jwt_error \<Rightarrow> Inl (HTTPException 401 ''Invalid authentication token''))"

record current_user =
  cu_id :: uuid
  cu_email :: "string option"
  cu_roles :: "string list"
  cu_scopes :: "string list"

text \<open>
  The claims as the fields of the model: \<open>list(x)\<close> of a value that is no text, and the conversion to strings, which
  pydantic refuses for anything else (\<open>ValueError\<close>).
\<close>

definition or_empty :: "json \<Rightarrow> json" where
  "or_empty j = (if truthy j then j else JList [])"

definition text_items :: "json list \<Rightarrow> exn + string list" where
  "text_items xs = (if list_all (\<lambda>x. case x of JStr _ \<Rightarrow> True | _ \<Rightarrow> False) xs
     then Inr (map (\<lambda>x. case x of JStr s \<Rightarrow> s | _ \<Rightarrow> []) xs) else Inl (ValueError ''roles''))"

definition listed :: "json \<Rightarrow> (exn, json list) sum" where
  "listed j = (case j of JList xs \<Rightarrow> Inr xs | JObj kvs \<Rightarrow> Inr (map (JStr \<circ> fst) kvs) | _ \<Rightarrow> Inl TypeError)"

definition role_items :: "json \<Rightarrow> exn + json list" where
  "role_items j = (case or_empty j of JStr s \<Rightarrow> Inr [JStr s] | v \<Rightarrow> listed v)"

definition scope_items :: "json \<Rightarrow> exn + json list" where
  "scope_items j = (case or_empty j of JStr s \<Rightarrow> Inr (map JStr (words s)) | v \<Rightarrow> listed v)"

definition email_claim :: "json \<Rightarrow> exn + string option" where
  "email_claim j = (case j of JNull \<Rightarrow> Inr None | JStr s \<Rightarrow> Inr (Some s) | _ \<Rightarrow> Inl (ValueError ''email''))"

definition user_claim :: "event \<Rightarrow> json" where
  "user_claim claims = or_json (jget claims ''sub'') (jget claims ''user_id'')"

definition from_jwt_payload :: "event \<Rightarrow> exn + current_user" where
  "from_jwt_payload claims =
     (if \<not> truthy (user_claim claims) then Inl (HTTPException 401 ''Invalid user identity in token claims'')
      else case parse_uuid (py_str (user_claim claims)) of
        None \<Rightarrow> Inl (HTTPException 401 ''Malformed user UUID in token claims'')
      | Some u \<Rightarrow>
          (case role_items (jget claims ''roles'') of Inl e \<Rightarrow> Inl e | Inr rs \<Rightarrow>
           (case scope_items (jget claims ''scopes'') of Inl e \<Rightarrow> Inl e | Inr ss \<Rightarrow>
            (case (email_claim (jget claims ''email''), text_items rs, text_items ss) of
               (Inr email, Inr roles, Inr scopes) \<Rightarrow> Inr \<lparr>cu_id = u, cu_email = email, cu_roles = roles, cu_scopes = scopes\<rparr>
             | _ \<Rightarrow> Inl (ValueError ''claims'')))))"

text \<open>\<open>get_current_user\<close>: the bearer token, else the query parameter (SSE streams).\<close>

definition resolved_token :: "string option \<Rightarrow> string option \<Rightarrow> string" where
  "resolved_token bearer q = (case bearer of Some t \<Rightarrow> t | None \<Rightarrow> (case q of Some t \<Rightarrow> t | None \<Rightarrow> []))"

definition get_current_user :: "decoder \<Rightarrow> settings \<Rightarrow> string \<Rightarrow> string option \<Rightarrow> string option \<Rightarrow> string option \<Rightarrow> exn + current_user" where
  "get_current_user decode c algorithm audience bearer q =
     (if resolved_token bearer q = [] then Inl (HTTPException 401 ''Not authenticated'')
      else case verify_jwt_token decode c algorithm audience (resolved_token bearer q) of
        Inl e \<Rightarrow> Inl e | Inr claims \<Rightarrow> from_jwt_payload claims)"

text \<open>A route that depends on the authenticated user, and the route on a conversation of that user.\<close>

definition authenticated ::
  "decoder \<Rightarrow> settings \<Rightarrow> string \<Rightarrow> string option \<Rightarrow> string option \<Rightarrow> string option \<Rightarrow> (current_user \<Rightarrow> ('s, 'a) prog) \<Rightarrow> ('s, 'a) prog" where
  "authenticated decode c algorithm audience bearer q act =
     bnd (lift_result (get_current_user decode c algorithm audience bearer q)) act"

definition require_conversation_owner ::
  "decoder \<Rightarrow> settings \<Rightarrow> string \<Rightarrow> string option \<Rightarrow> string option \<Rightarrow> string option \<Rightarrow> uuid \<Rightarrow> (world, conversation) prog" where
  "require_conversation_owner decode c algorithm audience bearer q cid =
     authenticated decode c algorithm audience bearer q (\<lambda>u. require_owner (cu_id u) cid)"

section \<open>Who a request acts for\<close>

definition names_user :: "event \<Rightarrow> uuid \<Rightarrow> bool" where
  "names_user claims u \<longleftrightarrow> truthy (user_claim claims) \<and> parse_uuid (py_str (user_claim claims)) = Some u"

lemma payload_names_user: "from_jwt_payload claims = Inr u \<Longrightarrow> names_user claims (cu_id u)"
  by (auto simp: from_jwt_payload_def names_user_def split: if_splits option.splits sum.splits)

text \<open>What PyJWT has to be told before its answer may be believed.\<close>

definition strict_options :: "settings \<Rightarrow> string \<Rightarrow> string option \<Rightarrow> jwt_options \<Rightarrow> bool" where
  "strict_options c algorithm audience opts \<longleftrightarrow> jo_verify_signature opts \<and> jo_verify_exp opts \<and> jo_key opts = se_secret c \<and>
     jo_algorithms opts = [algorithm] \<and>
     (case se_issuer c of None \<Rightarrow> True | Some i \<Rightarrow> i = [] \<or> jo_verify_iss opts \<and> jo_issuer opts = Some i) \<and>
     (case audience of None \<Rightarrow> True | Some a \<Rightarrow> a = [] \<or> jo_verify_aud opts \<and> jo_audience opts = Some a)"

lemma verify_options_strict: "strict_options c algorithm audience (verify_options c algorithm audience)"
  by (simp add: strict_options_def verify_options_def set_text_def split: option.split)

lemma current_user_verified:
  assumes "get_current_user decode c algorithm audience bearer q = Inr u"
  obtains claims where "decode (verify_options c algorithm audience) (resolved_token bearer q) = Inr claims"
    "names_user claims (cu_id u)" "resolved_token bearer q \<noteq> []"
  using assms by (auto simp: get_current_user_def verify_jwt_token_def split: if_splits sum.splits jwt_error.splits
      dest: payload_names_user)

text \<open>The token of a user acts for that user, and the owner's token does open the conversation.\<close>

theorem own_token_accepted:
  assumes "decode (verify_options c algorithm audience) t = Inr [(''sub'', JStr (uuid_str u))]" and "t \<noteq> []"
  shows "get_current_user decode c algorithm audience (Some t) q = Inr \<lparr>cu_id = u, cu_email = None, cu_roles = [], cu_scopes = []\<rparr>"
proof -
  have "uuid_str u \<noteq> []" by (metis parse_uuid_Nil parse_uuid_str option.distinct(1))
  then show ?thesis using assms
    by (simp add: get_current_user_def resolved_token_def verify_jwt_token_def from_jwt_payload_def user_claim_def jget_or_def
        or_json_def py_str_def parse_uuid_str role_items_def scope_items_def or_empty_def listed_def email_claim_def text_items_def)
qed

theorem owner_opens_conversation:
  assumes "calm w" and "all_fresh w" and "conv_at w cid = Some conv"
    and "decode (verify_options c algorithm audience) t = Inr [(''sub'', JStr (uuid_str (cv_user conv)))]" and "t \<noteq> []"
  shows "wp (require_conversation_owner decode c algorithm audience (Some t) q cid) (\<lambda>r _. r = conv) (\<lambda>_ _. False) w"
proof -
  have "get_current_user decode c algorithm audience (Some t) q =
      Inr \<lparr>cu_id = cv_user conv, cu_email = None, cu_roles = [], cu_scopes = []\<rparr>"
    by (rule own_token_accepted) (fact assms(4,5))+
  moreover have "wp (require_owner (cv_user conv) cid) (\<lambda>r _. r = conv) (\<lambda>_ _. False) w"
    by (rule wp_mono [OF require_owner_calm [OF assms(1-3)]]) auto
  ultimately show ?thesis by (simp add: require_conversation_owner_def authenticated_def wp_bnd wp_lift_result)
qed

definition own_decoder :: "decoder" where
  "own_decoder o' t = (if jo_verify_signature o' \<and> t = ''token'' then Inr [(''sub'', JStr (uuid_str 3))] else Inl Jwt_error)"

text \<open>
  A request without a token, with a token PyJWT refuses, or with an identity that is missing or no UUID is answered 401. A
  verified token whose roles, scopes or e-mail have another type ends in an exception that no handler turns into 401.
\<close>

theorem identity_errors_are_401:
  "resolved_token bearer q = [] \<Longrightarrow> get_current_user decode c algorithm audience bearer q = Inl (HTTPException 401 ''Not authenticated'')"
  "resolved_token bearer q \<noteq> [] \<Longrightarrow> decode (verify_options c algorithm audience) (resolved_token bearer q) = Inl e \<Longrightarrow>
     \<exists>detail. get_current_user decode c algorithm audience bearer q = Inl (HTTPException 401 detail)"
  "\<not> truthy (user_claim claims) \<or> parse_uuid (py_str (user_claim claims)) = None \<Longrightarrow>
     \<exists>detail. from_jwt_payload claims = Inl (HTTPException 401 detail)"
  by (auto simp: get_current_user_def verify_jwt_token_def from_jwt_payload_def split: jwt_error.split)

theorem numeric_email_is_no_401:
  "from_jwt_payload [(''sub'', JStr (uuid_str u)), (''email'', JInt 5)] = Inl (ValueError ''claims'')"
proof -
  have "uuid_str u \<noteq> []" by (metis parse_uuid_Nil parse_uuid_str option.distinct(1))
  then show ?thesis
    by (simp add: from_jwt_payload_def user_claim_def jget_or_def or_json_def py_str_def parse_uuid_str role_items_def
        scope_items_def or_empty_def listed_def email_claim_def)
qed

end
