(* ===== verification/Cache_Race.thy ===== *)
theory Cache_Race
  imports Auth
begin

text \<open>
  The read-through cache of the conversations under concurrency (\<open>ConversationService\<close> of
  \<open>app/services/conversation_service.py\<close> with \<open>app/services/cache_service.py\<close>). Every handler of the service is a call of the
  repository and then one of the cache, with an await between; here these calls interleave as they like, over any number
  of requests and replicas. What a cached copy can be wrong about is the title, the status and the branch point, never the
  owner or the parent.
\<close>

section \<open>The halves of the handlers\<close>

text \<open>\<open>get\<close> after a miss: the row is read, and what was found is put into the cache.\<close>

definition get_missed :: "uuid \<Rightarrow> (world, conversation option) prog" where
  "get_missed cid = bnd (conv_get cid) (\<lambda>found. case found of
     None \<Rightarrow> ret None
   | Some c \<Rightarrow> bnd (cache_set_conversation c) (\<lambda>_. ret (Some c)))"

lemma get_in_halves:
  "conv_service_get cid = bnd (cache_get_conversation cid) (\<lambda>hit. case hit of Some c \<Rightarrow> ret (Some c) | None \<Rightarrow> get_missed cid)"
  unfolding conv_service_get_def get_missed_def by (rule refl)

text \<open>
  The writing half of \<open>create\<close>, \<open>rename\<close>, \<open>archive\<close>, \<open>delete\<close> and \<open>set_title\<close>, and the purge of the clean-up worker; a created
  or updated conversation is then put into the cache, after the others its copy is dropped.
\<close>

datatype row_write =
    Create uuid uuid string uuid string json "uuid option" "uuid option"
  | Update uuid string string uuid string json
  | Soft_delete uuid uuid string json
  | Set_title uuid string
  | Purge uuid

fun row_half :: "row_write \<Rightarrow> (world, conversation option) prog" where
  "row_half (Create cid user title event_id type payload parent branch) =
     bnd (conv_create_with_outbox cid user title ''active'' event_id type payload parent branch) (\<lambda>c. ret (Some c))"
| "row_half (Update cid title status event_id type payload) = conv_update_with_outbox cid title status event_id type payload"
| "row_half (Soft_delete cid event_id type payload) = bnd (conv_delete_with_outbox cid event_id type payload) (\<lambda>_. ret None)"
| "row_half (Set_title cid title) = bnd (conv_update_title cid title) (\<lambda>_. ret None)"
| "row_half (Purge cid) = bnd (conv_hard_delete cid) (\<lambda>_. ret None)"

text \<open>The id of a new conversation is fresh (\<open>uuidv7\<close>).\<close>

fun fresh_write :: "row_write \<Rightarrow> world \<Rightarrow> conversation list \<Rightarrow> bool" where
  "fresh_write (Create cid _ _ _ _ _ _ _) w fills \<longleftrightarrow> w_rconv w cid = None \<and> cid \<notin> cv_id ` set fills"
| "fresh_write _ w fills \<longleftrightarrow> True"

text \<open>A state is the world with the conversations that some handler is about to put into the cache.\<close>

type_synonym caching = "world \<times> conversation list"

definition with_fill :: "exn + conversation option \<Rightarrow> conversation list \<Rightarrow> conversation list" where
  "with_fill r fills = (case r of Inr (Some c) \<Rightarrow> c # fills | _ \<Rightarrow> fills)"

inductive conv_race :: "caching \<Rightarrow> caching \<Rightarrow> bool" where
  conv_race_read: "conv_get cid w = (r, w') \<Longrightarrow> conv_race (w, fills) (w', with_fill r fills)"
| conv_race_write: "row_half x w = (r, w') \<Longrightarrow> fresh_write x w fills \<Longrightarrow> conv_race (w, fills) (w', with_fill r fills)"
| conv_race_fill: "conv_race (w, xs @ c # ys) (after (cache_set_conversation c) w, xs @ ys)"
| conv_race_evict: "conv_race (w, fills) (after (cache_delete_conversation cid) w, fills)"
| conv_race_crash: "conv_race (w, xs @ c # ys) (w, xs @ ys)"
| conv_race_time: "conv_race (w, fills) (w\<lparr>w_now := now, w_redis_on := on, w_sched := faults\<rparr>, fills)"

section \<open>What a copy is always right about\<close>

definition same_origin :: "conversation \<Rightarrow> conv_row \<Rightarrow> bool" where
  "same_origin c r \<longleftrightarrow> cv_user c = cr_user r \<and> cv_parent c = cr_parent r"

definition origin_ok :: "world \<Rightarrow> conversation \<Rightarrow> bool" where
  "origin_ok w c \<longleftrightarrow> (case w_conv w (cv_id c) of None \<Rightarrow> True | Some r \<Rightarrow> same_origin c r)"

text \<open>Every cached copy, expired or not, lies under its own id and has the owner and the parent of the row, if there is one.\<close>

definition cache_ok :: "world \<Rightarrow> bool" where
  "cache_ok w \<longleftrightarrow> (\<forall>cid c t. w_rconv w cid = Some (c, t) \<longrightarrow> cv_id c = cid \<and> origin_ok w c)"

definition truthful :: "caching \<Rightarrow> bool" where
  "truthful s \<longleftrightarrow> cache_ok (fst s) \<and> list_all (origin_ok (fst s)) (snd s)"

lemma conversation_of_origin: "conversation_of cid r = Inr c \<Longrightarrow> cv_id c = cid \<and> same_origin c r"
  by (auto simp: conversation_of_def same_origin_def split: option.splits)

text \<open>The rows of the world may change as \<open>evolves\<close> says: a row keeps its owner and parent, or goes; a new one is under \<open>new\<close>.\<close>

definition evolves :: "uuid option \<Rightarrow> world \<Rightarrow> world \<Rightarrow> bool" where
  "evolves new w w' \<longleftrightarrow> w_rconv w' = w_rconv w \<and>
     (\<forall>cid r'. w_conv w' cid = Some r' \<and> new \<noteq> Some cid \<longrightarrow>
        (\<exists>r. w_conv w cid = Some r \<and> cr_user r' = cr_user r \<and> cr_parent r' = cr_parent r))"

lemma evolves_same: "w_conv w' = w_conv w \<Longrightarrow> w_rconv w' = w_rconv w \<Longrightarrow> evolves new w w'"
  by (simp add: evolves_def)

lemma evolves_refl [simp]: "evolves new w w"
  by (rule evolves_same) simp_all

lemma evolves_pop [simp]: "evolves new w (pop w') = evolves new w w'" "evolves new (pop w) w' = evolves new w w'"
  by (simp_all add: evolves_def)

lemma evolves_put:
  assumes "w_rconv w' = w_rconv w" and "w_conv w' = (w_conv w)(cid := r')"
    and "\<And>x. r' = Some x \<Longrightarrow> new = Some cid \<or> (\<exists>r. w_conv w cid = Some r \<and> cr_user x = cr_user r \<and> cr_parent x = cr_parent r)"
  shows "evolves new w w'"
  using assms by (auto simp: evolves_def)

lemma origin_okI: "(\<And>r. w_conv w (cv_id c) = Some r \<Longrightarrow> same_origin c r) \<Longrightarrow> origin_ok w c"
  by (simp add: origin_ok_def split: option.split)

lemma origin_okD: "origin_ok w c \<Longrightarrow> w_conv w (cv_id c) = Some r \<Longrightarrow> same_origin c r"
  by (simp add: origin_ok_def)

lemma evolves_origin:
  assumes "evolves new w w'" and "new \<noteq> Some (cv_id c)" and "origin_ok w c"
  shows "origin_ok w' c"
proof (rule origin_okI)
  fix r' assume "w_conv w' (cv_id c) = Some r'"
  with assms(1,2) obtain r where "w_conv w (cv_id c) = Some r" "cr_user r' = cr_user r" "cr_parent r' = cr_parent r"
    unfolding evolves_def by blast
  with origin_okD [OF assms(3)] show "same_origin c r'" by (simp add: same_origin_def)
qed

lemma evolves_truthful:
  assumes ev: "evolves new w w'" and ok: "truthful (w, fills)"
    and fresh: "\<And>cid. new = Some cid \<Longrightarrow> w_rconv w cid = None \<and> cid \<notin> cv_id ` set fills"
  shows "truthful (w', fills)"
proof -
  have "origin_ok w' c" if "c \<in> set fills" for c
    by (rule evolves_origin [OF ev]) (use that ok fresh in \<open>auto simp: truthful_def list_all_iff\<close>)
  moreover have "cv_id c = cid \<and> origin_ok w' c" if "w_rconv w' cid = Some (c, t)" for cid c t
  proof -
    have hit: "w_rconv w cid = Some (c, t)" using that ev by (simp add: evolves_def)
    then have "cv_id c = cid" "origin_ok w c" using ok by (auto simp: truthful_def cache_ok_def)
    moreover have "new \<noteq> Some cid" using fresh [of cid] hit by auto
    ultimately show ?thesis using evolves_origin [OF ev] by auto
  qed
  ultimately show ?thesis by (simp add: truthful_def cache_ok_def list_all_iff)
qed

lemma truthful_with_fill:
  "truthful (w', fills) \<Longrightarrow> (\<And>c. r = Inr (Some c) \<Longrightarrow> origin_ok w' c) \<Longrightarrow> truthful (w', with_fill r fills)"
  by (auto simp: truthful_def with_fill_def split: sum.split option.split)

text \<open>The calls of the repository.\<close>

definition moves :: "uuid option \<Rightarrow> world \<Rightarrow> conversation option \<Rightarrow> world \<Rightarrow> bool" where
  "moves new w c w' \<longleftrightarrow> evolves new w w' \<and> (\<forall>x. c = Some x \<longrightarrow> origin_ok w' x)"

lemma moves_None [simp]: "moves new w None w' = evolves new w w'"
  by (simp add: moves_def)

lemma origin_ok_row: "conversation_of cid r = Inr c \<Longrightarrow> w_conv w cid = Some r \<Longrightarrow> origin_ok w c"
  using conversation_of_origin [of cid r c] by (simp add: origin_ok_def)

lemma wp_get_moves: "wp (conv_get cid) (moves None w) (\<lambda>_. evolves None w) w"
  by (simp add: wp_conv_get moves_def origin_ok_row split: option.split sum.split)

lemmas row_writes = move_conv_def put_conv_def put_cat_def drop_cat_def put_outbox_def

lemma evolves_move [simp]:
  assumes "evolves None w w'"
  shows "evolves None w (move_conv cid c title st now w')" and "evolves None w (put_outbox b x (move_conv cid c title st now w'))"
  using assms by (auto simp: evolves_def row_writes)

lemma origin_ok_pop [simp]: "origin_ok (pop w) c = origin_ok w c"
  by (simp add: origin_ok_def)

lemma origin_ok_moved:
  assumes "conversation_of cid r = Inr c" and "w_conv w cid = Some r"
  shows "origin_ok (put_outbox b x (move_conv cid c title st now (pop (pop w))))
    \<lparr>cv_id = cid, cv_user = cv_user c, cv_title = title', cv_created = t, cv_updated = u, cv_status = s, cv_parent = cv_parent c, cv_branch = None\<rparr>"
  using assms conversation_of_origin [OF assms(1)] by (simp add: origin_ok_def same_origin_def row_writes)

lemma wp_update_moves: "wp (conv_update_with_outbox cid title st e ty p) (moves None w) (\<lambda>_. evolves None w) w"
  by (auto simp: conv_update_with_outbox_def wp_simps moves_def origin_ok_moved split: fault.split option.split sum.split)

lemma moves_evolves: "moves new w c w' \<Longrightarrow> evolves new w w'"
  by (simp add: moves_def)

lemma wp_delete_moves: "wp (conv_delete_with_outbox cid e ty p) (\<lambda>_. evolves None w) (\<lambda>_. evolves None w) w"
  by (auto simp: conv_delete_with_outbox_def wp_simps dest!: moves_evolves split: option.split sum.split
      intro!: wp_mono [OF wp_update_moves])

lemma wp_title_moves: "wp (conv_update_title cid title) (\<lambda>_. evolves None w) (\<lambda>_. evolves None w) w"
  by (auto simp: conv_update_title_def wp_simps retitle_conv_eq_move split: fault.split option.split sum.split)

lemma wp_purge_moves: "wp (conv_hard_delete cid) (\<lambda>_. evolves None w) (\<lambda>_. evolves None w) w"
  by (auto simp: conv_hard_delete_def wp_simps row_writes intro!: evolves_put [of _ _ cid] split: fault.split option.split sum.split)

lemma wp_create_moves:
  "wp (conv_create_with_outbox cid user title st e ty p parent branch) (\<lambda>c. moves (Some cid) w (Some c)) (\<lambda>_. evolves (Some cid) w) w"
  by (auto simp: conv_create_with_outbox_def wp_simps moves_def row_writes origin_ok_def same_origin_def
      intro!: evolves_put [of _ _ cid] split: fault.split option.split)

lemma row_half_moves:
  obtains new where "wp (row_half x) (moves new w) (\<lambda>_. evolves new w) w"
    and "\<And>cid fills. new = Some cid \<Longrightarrow> fresh_write x w fills \<Longrightarrow> w_rconv w cid = None \<and> cid \<notin> cv_id ` set fills"
proof (cases x)
  case (Create cid user title e ty p parent branch)
  then show ?thesis
    by (intro that [of "Some cid"]) (auto simp: wp_simps intro!: wp_mono [OF wp_create_moves])
next
  case (Update cid title st e ty p)
  then show ?thesis by (intro that [of None]) (auto intro!: wp_update_moves)
next
  case (Soft_delete cid e ty p)
  then show ?thesis by (intro that [of None]) (auto simp: wp_simps intro!: wp_mono [OF wp_delete_moves])
next
  case (Set_title cid title)
  then show ?thesis by (intro that [of None]) (auto simp: wp_simps intro!: wp_mono [OF wp_title_moves])
next
  case (Purge cid)
  then show ?thesis by (intro that [of None]) (auto simp: wp_simps intro!: wp_mono [OF wp_purge_moves])
qed

text \<open>The calls of the cache.\<close>

definition filled :: "uuid \<Rightarrow> conversation \<Rightarrow> world \<Rightarrow> world \<Rightarrow> bool" where
  "filled cid c w w' \<longleftrightarrow> w_conv w' = w_conv w \<and>
     (\<forall>k d t. w_rconv w' k = Some (d, t) \<longrightarrow> k = cid \<and> d = c \<or> (\<exists>t. w_rconv w k = Some (d, t)))"

lemma live_value: "live now (Some (c, t)) = Some d \<Longrightarrow> d = c"
  by (cases t) (auto split: if_splits)

lemma wp_set_filled: "wp (cache_set_conversation c) (\<lambda>_. filled (cv_id c) c w) (\<lambda>_. filled (cv_id c) c w) w"
  by (auto simp: cache_set_conversation_def wp_simps filled_def hset_conv_def expire_conv_def expire_at_def dest!: live_value
      split: fault.split option.split if_splits)

lemma origin_ok_rows: "w_conv w' = w_conv w \<Longrightarrow> origin_ok w' = origin_ok w"
  by (simp add: origin_ok_def fun_eq_iff)

lemma filled_cache_ok:
  assumes "cache_ok w" and "origin_ok w c" and "filled (cv_id c) c w w'"
  shows "cache_ok w'"
proof -
  have same: "w_conv w' = w_conv w" using assms(3) by (simp add: filled_def)
  have "cv_id d = k \<and> origin_ok w d" if "w_rconv w' k = Some (d, t)" for k d t
    using that assms unfolding filled_def cache_ok_def by blast
  then show ?thesis unfolding cache_ok_def origin_ok_rows [OF same] by blast
qed

lemma evicted_cache_ok: "cache_ok w \<Longrightarrow> cache_ok (after (cache_delete_conversation cid) w)"
  and evicted_rows: "w_conv (after (cache_delete_conversation cid) w) = w_conv w"
proof -
  have "wp (cache_delete_conversation cid) (\<lambda>_ w'. w_conv w' = w_conv w \<and> (\<forall>k e. w_rconv w' k = Some e \<longrightarrow> w_rconv w k = Some e))
      (\<lambda>_ w'. w_conv w' = w_conv w \<and> (\<forall>k e. w_rconv w' k = Some e \<longrightarrow> w_rconv w k = Some e)) w"
    by (auto simp: cache_delete_conversation_def wp_simps split: fault.split if_splits)
  then have w': "w_conv (after (cache_delete_conversation cid) w) = w_conv w"
      "\<And>k e. w_rconv (after (cache_delete_conversation cid) w) k = Some e \<Longrightarrow> w_rconv w k = Some e"
    by (simp_all only: wp_after)
  then show "w_conv (after (cache_delete_conversation cid) w) = w_conv w" by simp
  show "cache_ok (after (cache_delete_conversation cid) w)" if "cache_ok w"
    using that w'(2) unfolding cache_ok_def origin_ok_rows [OF w'(1)] by blast
qed

section \<open>No interleaving gives a conversation another owner\<close>

lemma moves_truthful:
  assumes "wp m (moves new w) (\<lambda>_. evolves new w) w" and "m w = (r, w')" and "truthful (w, fills)"
    and "\<And>cid. new = Some cid \<Longrightarrow> w_rconv w cid = None \<and> cid \<notin> cv_id ` set fills"
  shows "truthful (w', with_fill r fills)"
proof (rule truthful_with_fill)
  have "evolves new w w' \<and> (\<forall>c. r = Inr (Some c) \<longrightarrow> origin_ok w' c)"
    using assms(1,2) by (auto simp: wp_def moves_def split: sum.splits)
  then show "truthful (w', fills)" "\<And>c. r = Inr (Some c) \<Longrightarrow> origin_ok w' c"
    using evolves_truthful [OF _ assms(3,4)] by auto
qed

lemma truthful_step: "conv_race s s' \<Longrightarrow> truthful s \<Longrightarrow> truthful s'"
proof (induction rule: conv_race.induct)
  case (conv_race_read cid w r w' fills)
  then show ?case by (intro moves_truthful [OF wp_get_moves]) auto
next
  case (conv_race_write x w r w' fills)
  obtain new where "wp (row_half x) (moves new w) (\<lambda>_. evolves new w) w"
    and "\<And>cid fills. new = Some cid \<Longrightarrow> fresh_write x w fills \<Longrightarrow> w_rconv w cid = None \<and> cid \<notin> cv_id ` set fills"
    using row_half_moves [of x w] by blast
  with conv_race_write show ?case by (intro moves_truthful [of "row_half x" new w]) auto
next
  case (conv_race_fill w xs c ys)
  let ?w = "after (cache_set_conversation c) w"
  have f: "filled (cv_id c) c w ?w" using wp_set_filled [of c w] by (simp only: wp_after)
  then have "cache_ok ?w" using conv_race_fill by (intro filled_cache_ok [OF _ _ f]) (auto simp: truthful_def)
  moreover have "origin_ok ?w = origin_ok w" using f by (intro origin_ok_rows) (simp add: filled_def)
  ultimately show ?case using conv_race_fill by (simp add: truthful_def)
next
  case (conv_race_evict w fills cid)
  then show ?case by (simp add: truthful_def evicted_cache_ok origin_ok_rows [OF evicted_rows])
next
  case (conv_race_crash w xs c ys)
  then show ?case by (simp add: truthful_def)
next
  case (conv_race_time w fills faults on now)
  have "origin_ok (w\<lparr>w_now := now, w_redis_on := on, w_sched := faults\<rparr>) = origin_ok w" by (rule origin_ok_rows) simp
  with conv_race_time show ?case by (simp add: truthful_def cache_ok_def)
qed

lemma race_truthful: "conv_race\<^sup>*\<^sup>* s s' \<Longrightarrow> truthful s \<Longrightarrow> truthful s'"
  by (induction rule: rtranclp_induct) (auto intro: truthful_step)

lemma truthful_stranger:
  assumes "truthful (w, fills)" and "w_conv w cid = Some r" and "cr_user r \<noteq> user"
  shows "stranger user cid w"
proof -
  have "cv_user c \<noteq> user" if hit: "live (w_now w) (w_rconv w cid) = Some c" for c
  proof -
    obtain t where "w_rconv w cid = Some (c, t)" using hit by (cases "w_rconv w cid") (auto dest: live_value)
    then have "cv_id c = cid" "origin_ok w c" using assms(1) by (auto simp: truthful_def cache_ok_def)
    then show ?thesis using assms(2,3) origin_okD [of w c r] by (simp add: same_origin_def)
  qed
  then show ?thesis using assms(2,3) by (simp add: stranger_def split: option.split)
qed

text \<open>C38:
  However reads, writes, cache fills and evictions of the conversations interleave over the replicas, which calls fail and
  which handlers crash: starting from a cold cache, a user who is not the stored owner of a conversation is refused by the
  ownership check of every route, although the check trusts the cached copy and the copy may be stale.
\<close>

theorem stale_copy_never_admits_stranger:
  assumes "conv_race\<^sup>*\<^sup>* (w, []) (w', fills)" and "w_rconv w = (\<lambda>_. None)"
    and "w_conv w' cid = Some r" and "cr_user r \<noteq> user"
  shows "wp (require_owner user cid) (\<lambda>_ _. False) (\<lambda>_ w''. only_cache w' w'') w'"
proof -
  have "truthful (w, [])" using assms(2) by (simp add: truthful_def cache_ok_def)
  with assms(1) have "truthful (w', fills)" by (rule race_truthful)
  then have "stranger user cid w'" using assms(3,4) by (rule truthful_stranger)
  from stranger_refused [OF this, of ret] show ?thesis by (simp add: wp_bnd wp_ret)
qed

text \<open>What a read answers in such a state: a conversation under the id that was asked for, with the owner of its row.\<close>

lemma truthful_read:
  assumes "truthful (w, fills)"
  shows "wp (require_owner user cid)
     (\<lambda>conv w'. only_cache w w' \<and> cv_id conv = cid \<and> cv_user conv = user \<and> map_option cr_user (w_conv w cid) \<in> {None, Some (cv_user conv)})
     (\<lambda>_ w'. only_cache w w') w"
proof -
  have good: "cv_id c = cid \<and> map_option cr_user (w_conv w cid) \<in> {None, Some (cv_user c)}"
    if "live (w_now w) (w_rconv w cid) = Some c \<or> (\<exists>r. w_conv w cid = Some r \<and> conversation_of cid r = Inr c)" for c
    using that
  proof
    assume hit: "live (w_now w) (w_rconv w cid) = Some c"
    then obtain t where "w_rconv w cid = Some (c, t)" by (cases "w_rconv w cid") (auto dest: live_value)
    then have "cv_id c = cid" "origin_ok w c" using assms by (auto simp: truthful_def cache_ok_def)
    then show ?thesis by (cases "w_conv w cid") (auto simp: origin_ok_def same_origin_def)
  next
    assume "\<exists>r. w_conv w cid = Some r \<and> conversation_of cid r = Inr c"
    then show ?thesis by (auto dest!: conversation_of_origin simp: same_origin_def)
  qed
  show ?thesis unfolding require_owner_def wp_bnd
    by (rule wp_mono [OF conv_service_get_frame]) (auto simp: wp_simps dest!: good split: option.splits)
qed

text \<open>C32:
  Only the owner's token opens a conversation: whatever reads, writes, fills and evictions of the conversations interleave from
  a cold cache on, and although the cached copy may be stale, the dependency of every route on a conversation returns one only
  under the id that was asked for, when PyJWT accepted the token of the request, told to check its signature against the secret
  under the one algorithm, its expiry, and the issuer and the audience once they are set, and when the verified claims name the
  owner, who is the stored owner as long as there is a row. Every other request ends in an error, and no request changes more
  than caches.
\<close>

theorem token_opens_own_conversation:
  assumes "conv_race\<^sup>*\<^sup>* (w0, []) (w, fills)" and "w_rconv w0 = (\<lambda>_. None)"
  shows "wp (require_conversation_owner decode c algorithm audience bearer q cid)
     (\<lambda>conv w'. only_cache w w' \<and> cv_id conv = cid \<and> map_option cr_user (w_conv w cid) \<in> {None, Some (cv_user conv)} \<and>
        (\<exists>opts claims. strict_options c algorithm audience opts \<and> decode opts (resolved_token bearer q) = Inr claims \<and>
           names_user claims (cv_user conv)))
     (\<lambda>_ w'. only_cache w w') w"
proof (cases "get_current_user decode c algorithm audience bearer q")
  case (Inl e)
  then show ?thesis by (simp add: require_conversation_owner_def authenticated_def wp_simps)
next
  case (Inr u)
  obtain claims where claims: "decode (verify_options c algorithm audience) (resolved_token bearer q) = Inr claims"
      "names_user claims (cu_id u)"
    using Inr by (rule current_user_verified)
  have "truthful (w0, [])" using assms(2) by (simp add: truthful_def cache_ok_def)
  with assms(1) have ok: "truthful (w, fills)" by (rule race_truthful)
  show ?thesis unfolding require_conversation_owner_def authenticated_def Inr wp_bnd wp_lift_result sum.case
    by (rule wp_mono [OF truthful_read [OF ok, of "cu_id u" cid]]) (use claims verify_options_strict in auto)
qed

section \<open>The window\<close>

text \<open>The schedule of the window: a deletion is stored, it evicts the copy, and a reader that found \<open>c\<close> before now caches it.\<close>

definition late_fill :: "row_write \<Rightarrow> conversation \<Rightarrow> world \<Rightarrow> world" where
  "late_fill x c w = after (cache_set_conversation c) (after (cache_delete_conversation (cv_id c)) (after (row_half x) w))"

lemma wp_afterD: "wp m (\<lambda>_. P) (\<lambda>_ _. False) w \<Longrightarrow> P (after m w)"
  using wp_mono [of m "\<lambda>_. P" "\<lambda>_ _. False" w "\<lambda>_. P" "\<lambda>_. P"] by (simp add: wp_after)

definition deleted_at :: "uuid \<Rightarrow> world \<Rightarrow> world \<Rightarrow> bool" where
  "deleted_at cid w w' \<longleftrightarrow> calm w' \<and> w_now w' = w_now w \<and> w_redis_on w' \<and> map_option cr_status (w_conv w' cid) = Some ''deleted''"

lemma soft_delete_stored:
  assumes "calm w" and "w_redis_on w" and "w_conv w cid = Some r" and "conversation_of cid r = Inr c"
  shows "deleted_at cid w (after (row_half (Soft_delete cid event_id type payload)) w)"
proof (rule wp_afterD)
  have "calm (put_outbox b x (move_conv cid c title st now w))" for b x title st now
    using assms(1) by (simp add: calm_def row_writes)
  then show "wp (row_half (Soft_delete cid event_id type payload)) (\<lambda>_. deleted_at cid w) (\<lambda>_ _. False) w"
    using assms by (simp add: conv_delete_with_outbox_def conv_update_with_outbox_def wp_simps deleted_at_def conv_status_of_def)
      (simp add: row_writes)
qed

lemma evict_deleted:
  assumes "deleted_at cid w w'"
  shows "deleted_at cid w (after (cache_delete_conversation k) w')"
  by (rule wp_afterD) (use assms in \<open>simp add: cache_delete_conversation_def wp_simps deleted_at_def\<close>)

lemma fill_deleted:
  assumes "deleted_at cid w w'" and "cv_id c = cid"
  shows "deleted_at cid w (after (cache_set_conversation c) w') \<and>
    live t (w_rconv (after (cache_set_conversation c) w') cid) = (if t < w_now w + sec CACHE_TTL_SECONDS then Some c else None)"
proof (rule wp_afterD)
  have w': "calm w'" "w_redis_on w'" using assms(1) by (simp_all add: deleted_at_def)
  show "wp (cache_set_conversation c) (\<lambda>_ w''. deleted_at cid w w'' \<and>
      live t (w_rconv w'' cid) = (if t < w_now w + sec CACHE_TTL_SECONDS then Some c else None)) (\<lambda>_ _. False) w'"
    by (rule wp_mono [OF cache_conversation_roundtrip [OF w', of c t]]) (use assms in \<open>auto simp: deleted_at_def only_cacheD\<close>)
qed

lemma conv_get_calm:
  assumes "calm w" and "w_conv w cid = Some r" and "conversation_of cid r = Inr c"
  shows "conv_get cid w = (Inr (Some c), w)"
  using assms wp_conv_get [of cid "\<lambda>a s. a = Some c \<and> s = w" "\<lambda>_ _. False" w] by (auto simp: wp_def split: prod.splits sum.splits)

lemma late_fill_reachable:
  assumes "calm w" and "w_conv w cid = Some r" and "conversation_of cid r = Inr c"
  shows "conv_race\<^sup>*\<^sup>* (w, []) (late_fill (Soft_delete cid event_id type payload) c w, [])"
proof -
  let ?x = "Soft_delete cid event_id type payload"
  have "conv_get cid w = (Inr (Some c), w)" by (rule conv_get_calm [OF assms])
  from conv_race_read [OF this, of "[]"] have "conv_race (w, []) (w, [c])" by (simp add: with_fill_def)
  moreover obtain r' w1 where w1: "row_half ?x w = (r', w1)" by (cases "row_half ?x w")
  from conv_race_write [OF w1, of "[c]"] have "conv_race (w, [c]) (w1, with_fill r' [c])" by simp
  moreover have "with_fill r' [c] = [c]"
  proof -
    have "wp (row_half ?x) (\<lambda>a _. a = None) (\<lambda>_ _. True) w" by (simp add: wp_simps) (simp add: wp_def split: prod.split sum.split)
    then show ?thesis using w1 by (auto simp: wp_def with_fill_def split: sum.splits)
  qed
  moreover have "conv_race (w1, [c]) (after (cache_delete_conversation (cv_id c)) w1, [c])" by (rule conv_race_evict)
  moreover have "conv_race (w2, [c]) (after (cache_set_conversation c) w2, [])" for w2
    using conv_race_fill [of w2 "[]" c "[]"] by simp
  moreover have "after (row_half ?x) w = w1" unfolding after_def w1 by simp
  ultimately show ?thesis unfolding late_fill_def by (metis (no_types) r_into_rtranclp rtranclp.rtrancl_into_rtrancl)
qed

text \<open>C39:
  A read that missed the cache puts what it found there later and without a condition: when a deletion is stored and evicts the
  copy in between, the deleted conversation is back in the cache, and reads answer with it as it was before, for an hour unless it is evicted again.
\<close>

theorem late_fill_revives_deleted:
  assumes "calm w" and "w_redis_on w" and "w_conv w cid = Some r" and "conversation_of cid r = Inr c"
    and "t < w_now w + sec CACHE_TTL_SECONDS"
  shows "conv_race\<^sup>*\<^sup>* (w, []) (late_fill (Soft_delete cid event_id type payload) c w, []) \<and>
    map_option cr_status (w_conv (late_fill (Soft_delete cid event_id type payload) c w) cid) = Some ''deleted'' \<and>
    wp (conv_service_get cid) (\<lambda>found _. found = Some c) (\<lambda>_ _. False)
      ((late_fill (Soft_delete cid event_id type payload) c w)\<lparr>w_now := t\<rparr>)"
proof -
  let ?w = "late_fill (Soft_delete cid event_id type payload) c w"
  have "cv_id c = cid" using conversation_of_origin [OF assms(4)] by simp
  then have "deleted_at cid w ?w" "live t (w_rconv ?w cid) = Some c"
    using fill_deleted [where c = c and t = t, OF evict_deleted [OF soft_delete_stored [OF assms(1-4)]]] assms(5)
    by (simp_all add: late_fill_def)
  moreover from this have "wp (conv_service_get cid) (\<lambda>found _. found = Some c) (\<lambda>_ _. False) (?w\<lparr>w_now := t\<rparr>)"
    by (simp add: conv_service_get_def cache_get_conversation_def wp_simps deleted_at_def)
  ultimately show ?thesis using late_fill_reachable [OF assms(1,3,4)] by (simp add: deleted_at_def)
qed

section \<open>At a concrete start\<close>

definition cold_world :: world where
  "cold_world = (empty_world 5)\<lparr>w_conv := [2 \<mapsto> \<lparr>cr_user = 3, cr_title = ''t'', cr_created = 0, cr_updated = 0,
     cr_status = ''active'', cr_parent = None, cr_branch = None\<rparr>]\<rparr>"

definition cold_conv :: conversation where
  "cold_conv = \<lparr>cv_id = 2, cv_user = 3, cv_title = ''t'', cv_created = 0, cv_updated = 0, cv_status = ACTIVE, cv_parent = None, cv_branch = None\<rparr>"

lemma cold_world_ok: "calm cold_world" "w_redis_on cold_world" "w_rconv cold_world = (\<lambda>_. None)" "w_now cold_world = 5"
  by (simp_all add: cold_world_def empty_world_def calm_def)

lemma cold_row:
  obtains r where "w_conv cold_world 2 = Some r" "conversation_of 2 r = Inr cold_conv"
  by (rule that [of "the (w_conv cold_world 2)"]) (simp_all add: cold_world_def cold_conv_def conversation_of_def conv_status_of_def)

theorem late_fill_revives_deleted_witness:
  "wp (conv_service_get 2) (\<lambda>found _. found = Some cold_conv) (\<lambda>_ _. False)
     ((late_fill (Soft_delete 2 9 ''t'' JNull) cold_conv cold_world)\<lparr>w_now := 6\<rparr>)"
  by (rule cold_row) (use late_fill_revives_deleted [OF cold_world_ok(1,2), of 2 _ cold_conv 6 9 "''t''" JNull]
    in \<open>simp add: cold_world_ok CACHE_TTL_SECONDS_def sec_def\<close>)

theorem stale_copy_never_admits_stranger_witness:
  "wp (require_owner 8 2) (\<lambda>_ _. False) (\<lambda>_ w. only_cache (after (cache_set_conversation cold_conv) cold_world) w)
     (after (cache_set_conversation cold_conv) cold_world)"
proof -
  let ?w = "after (cache_set_conversation cold_conv) cold_world"
  have "conv_get 2 cold_world = (Inr (Some cold_conv), cold_world)"
    by (rule cold_row) (rule conv_get_calm [OF cold_world_ok(1)])
  from conv_race_read [OF this, of "[]"] have "conv_race (cold_world, []) (cold_world, [cold_conv])" by (simp add: with_fill_def)
  moreover have "conv_race (cold_world, [cold_conv]) (?w, [])" using conv_race_fill [of cold_world "[]" cold_conv "[]"] by simp
  ultimately have "conv_race\<^sup>*\<^sup>* (cold_world, []) (?w, [])" by (meson r_into_rtranclp rtranclp.rtrancl_into_rtrancl)
  moreover have "w_conv ?w = w_conv cold_world" using wp_set_filled [of cold_conv cold_world] by (simp add: wp_after filled_def)
  ultimately show ?thesis
    using stale_copy_never_admits_stranger [of cold_world ?w "[]" 2 _ 8] by (simp add: cold_world_ok(3)) (simp add: cold_world_def)
qed

theorem token_opens_own_conversation_witness:
  "wp (require_conversation_owner own_decoder default_settings ''HS256'' None (Some ''token'') None 2)
     (\<lambda>conv w'. only_cache cold_world w' \<and> cv_id conv = 2 \<and> map_option cr_user (w_conv cold_world 2) \<in> {None, Some (cv_user conv)} \<and>
        (\<exists>opts claims. strict_options default_settings ''HS256'' None opts \<and> own_decoder opts (resolved_token (Some ''token'') None) = Inr claims \<and>
           names_user claims (cv_user conv)))
     (\<lambda>_ w'. only_cache cold_world w') cold_world"
  by (rule token_opens_own_conversation [OF rtranclp.rtrancl_refl cold_world_ok(3)])

end
