(* ===== verification/Cursors.thy ===== *)
theory Cursors
  imports Api Export_Pdf
begin

text \<open>
  \<open>app/utils/pagination.py\<close>: the text form of a cursor, URL-safe base 64 of the JSON text, read the way Python's decoder
  reads it (it skips foreign characters and stops at complete padding), and the paged routes over texts. \<open>json.loads\<close> of the
  decoded bytes is the parameter \<open>loads\<close>: None when they are no UTF-8 or no JSON.
\<close>

section \<open>JSON text\<close>

text \<open>\<open>json.dumps\<close> with its defaults: everything outside the printable ASCII characters is escaped, keys in insertion order.\<close>

definition esc_ascii :: "char \<Rightarrow> string" where
  "esc_ascii c = (let n = (of_char c :: nat) in
     if n < 127 then esc_char c
     else [CHR 0x5C, CHR ''u'', CHR ''0'', CHR ''0'', hex_digit (n div 16), hex_digit (n mod 16)])"

definition dump_ascii :: "string \<Rightarrow> string" where
  "dump_ascii s = [CHR 0x22] @ concat (map esc_ascii s) @ [CHR 0x22]"

primrec json_dumps :: "json \<Rightarrow> string" where
  "json_dumps JNull = ''null''"
| "json_dumps (JBool b) = (if b then ''true'' else ''false'')"
| "json_dumps (JInt i) = dec_of_int i"
| "json_dumps (JFloat s) = s"
| "json_dumps (JStr s) = dump_ascii s"
| "json_dumps (JList xs) = ''['' @ join '', '' (map json_dumps xs) @ '']''"
| "json_dumps (JObj kvs) =
     ''{'' @ join '', '' (map (\<lambda>(k, t). dump_ascii k @ '': '' @ t) (map (map_prod id json_dumps) kvs)) @ ''}''"

definition ascii_bytes :: "string \<Rightarrow> byte list" where
  "ascii_bytes s = map (\<lambda>c. word_of_nat (of_char c)) s"

section \<open>Base 64\<close>

definition to_url :: "char \<Rightarrow> char" where
  "to_url c = (if c = CHR ''+'' then CHR ''-'' else if c = CHR ''/'' then CHR ''_'' else c)"

definition from_url :: "char \<Rightarrow> char" where
  "from_url c = (if c = CHR ''-'' then CHR ''+'' else if c = CHR ''_'' then CHR ''/'' else c)"

definition urlsafe_b64encode :: "byte list \<Rightarrow> string" where
  "urlsafe_b64encode bs = map to_url (b64encode bs)"

definition b64_value :: "char \<Rightarrow> nat option" where
  "b64_value c = (let n = (of_char c :: nat) in
     if 65 \<le> n \<and> n \<le> 90 then Some (n - 65) else if 97 \<le> n \<and> n \<le> 122 then Some (n - 71)
     else if 48 \<le> n \<and> n \<le> 57 then Some (n + 4) else if c = CHR ''+'' then Some 62 else if c = CHR ''/'' then Some 63 else None)"

definition byte_of :: "nat \<Rightarrow> byte" where
  "byte_of n = word_of_nat n"

text \<open>
  \<open>binascii.a2b_base64\<close>: \<open>q\<close> digits of the current group read, \<open>l\<close> their bits not yet written, \<open>p\<close> padding signs in a row.
  None is \<open>binascii.Error\<close>.
\<close>

fun a2b :: "nat \<Rightarrow> nat \<Rightarrow> nat \<Rightarrow> string \<Rightarrow> byte list option" where
  "a2b q l p [] = (if q = 0 then Some [] else None)"
| "a2b q l p (c # cs) =
     (if c = CHR ''='' then
        (if 2 \<le> q \<and> 4 \<le> q + p + 1 then Some [] else a2b q l (if 2 \<le> q then p + 1 else p) cs)
      else case b64_value c of
        None \<Rightarrow> a2b q l p cs
      | Some v \<Rightarrow>
          if q = 0 then a2b 1 v 0 cs
          else if q = 1 then map_option ((#) (byte_of (l * 4 + v div 16))) (a2b 2 (v mod 16) 0 cs)
          else if q = 2 then map_option ((#) (byte_of (l * 16 + v div 4))) (a2b 3 (v mod 4) 0 cs)
          else map_option ((#) (byte_of (l * 64 + v))) (a2b 0 0 0 cs))"

definition urlsafe_b64decode :: "string \<Rightarrow> byte list option" where
  "urlsafe_b64decode s = a2b 0 0 0 (map from_url s)"

section \<open>Cursors\<close>

definition encode_cursor :: "event \<Rightarrow> string" where
  "encode_cursor payload = urlsafe_b64encode (ascii_bytes (json_dumps (JObj payload)))"

definition decode_cursor :: "(byte list \<Rightarrow> json option) \<Rightarrow> string \<Rightarrow> exn + event" where
  "decode_cursor loads text = (case Option.bind (urlsafe_b64decode text) loads of
     Some (JObj payload) \<Rightarrow> Inr payload
   | _ \<Rightarrow> Inl (HTTPException 400 ''Invalid pagination cursor format''))"

text \<open>The query parameter of the paged routes: absent and empty are the first page.\<close>

definition cursor_param :: "(byte list \<Rightarrow> json option) \<Rightarrow> string option \<Rightarrow> event option option" where
  "cursor_param loads q = (case q of
     None \<Rightarrow> None
   | Some t \<Rightarrow> if t = [] then None else Some (case decode_cursor loads t of Inl _ \<Rightarrow> None | Inr payload \<Rightarrow> Some payload))"

definition history_page ::
  "(byte list \<Rightarrow> json option) \<Rightarrow> uuid \<Rightarrow> uuid \<Rightarrow> nat \<Rightarrow> string option \<Rightarrow> (world, message list \<times> string option \<times> bool) prog" where
  "history_page loads user cid limit q =
     bnd (api_history user cid limit (cursor_param loads q)) (\<lambda>(items, next_cursor, more).
     ret (items, map_option encode_cursor next_cursor, more))"

section \<open>Round trip\<close>

lemma char_of_is: "char_of n = c \<longleftrightarrow> n mod 256 = (of_char c :: nat)"
  by (simp add: char_of_eq_iff take_bit_eq_mod)

lemma b64_digit_facts:
  assumes "n < 64"
  shows "b64_value (from_url (to_url (b64_digit n))) = Some n" "from_url (to_url (b64_digit n)) \<noteq> CHR ''=''"
proof -
  consider "n < 26" | "26 \<le> n" "n < 52" | "52 \<le> n" "n < 62" | "n = 62" | "n = 63" using assms by linarith
  then have "b64_value (from_url (to_url (b64_digit n))) = Some n \<and> from_url (to_url (b64_digit n)) \<noteq> CHR ''=''"
    by cases (auto simp: b64_digit_def to_url_def from_url_def b64_value_def char_of_is Let_def)
  then show "b64_value (from_url (to_url (b64_digit n))) = Some n" "from_url (to_url (b64_digit n)) \<noteq> CHR ''=''" by simp_all
qed

definition url_digit :: "nat \<Rightarrow> char" where
  "url_digit n = from_url (to_url (b64_digit n))"

lemma a2b_digit [simp]: "n < 64 \<Longrightarrow> a2b q l p (url_digit n # cs) =
    (if q = 0 then a2b 1 n 0 cs
     else if q = 1 then map_option ((#) (byte_of (l * 4 + n div 16))) (a2b 2 (n mod 16) 0 cs)
     else if q = 2 then map_option ((#) (byte_of (l * 16 + n div 4))) (a2b 3 (n mod 4) 0 cs)
     else map_option ((#) (byte_of (l * 64 + n))) (a2b 0 0 0 cs))"
  by (simp add: url_digit_def b64_digit_facts)

lemma a2b_pad [simp]: "a2b q l p (CHR ''='' # cs) = (if 2 \<le> q \<and> 4 \<le> q + p + 1 then Some [] else a2b q l (if 2 \<le> q then p + 1 else p) cs)"
  by simp

declare a2b.simps(2) [simp del]

lemma url_pad [simp]: "from_url (to_url CHR ''='') = CHR ''=''"
  by (simp add: to_url_def from_url_def)

text \<open>The digits of a group of three bytes, and the bytes they give back.\<close>

lemma group_digits:
  fixes a b c :: nat
  assumes "b < 256" "c < 256"
  defines "n \<equiv> a * 65536 + b * 256 + c"
  shows "n div 262144 = a div 4" "n div 4096 mod 64 = (a mod 4) * 16 + b div 16" "n div 64 mod 64 = (b mod 16) * 4 + c div 64"
    "n mod 64 = c mod 64"
proof -
  have "n div 65536 = a" using assms by simp
  moreover have "n div 262144 = n div 65536 div 4" by (simp add: div_mult2_eq)
  ultimately show "n div 262144 = a div 4" by simp
  have "n div 256 = a * 256 + b" using assms by simp
  then have "n div 4096 = a * 16 + b div 16" using div_mult2_eq [of n 256 16] by simp
  moreover have "x < 16 \<Longrightarrow> (a * 16 + x) mod 64 = a mod 4 * 16 + x" for x :: nat
    using mod_mult2_eq [of "a * 16 + x" 16 4] by simp
  ultimately show "n div 4096 mod 64 = (a mod 4) * 16 + b div 16" using assms(1) by simp
  have "n div 64 = a * 1024 + b * 4 + c div 64" by (simp add: n_def)
  moreover have "(a * 1024 + b * 4 + x) mod 64 = (b * 4 + x) mod 64" for x
    using mod_mult_self3 [of "a * 16" 64 "b * 4 + x"] by (simp add: algebra_simps)
  moreover have "x < 4 \<Longrightarrow> (b * 4 + x) mod 64 = b mod 16 * 4 + x" for x :: nat
    using mod_mult2_eq [of "b * 4 + x" 4 16] by simp
  ultimately show "n div 64 mod 64 = (b mod 16) * 4 + c div 64" using assms(2) by simp
  show "n mod 64 = c mod 64" by (simp add: n_def mod_add_eq [symmetric])
qed

lemma byte_parts: "unat (a :: byte) div 4 < 64" "unat a div 16 < 16" "unat a div 64 < 4"
  using byte_bound [of a] by simp_all

lemma digit_bounds:
  "unat (a :: byte) mod 4 * 16 + unat (b :: byte) div 16 < 64" "unat a mod 4 * 16 < 64"
  "unat b mod 16 * 4 + unat (c :: byte) div 64 < 64" "unat b mod 16 * 4 < 64" "unat c mod 64 < 64"
proof -
  have "unat a mod 4 < 4" "unat b mod 16 < 16" by simp_all
  then show "unat a mod 4 * 16 + unat b div 16 < 64" "unat a mod 4 * 16 < 64"
    "unat b mod 16 * 4 + unat c div 64 < 64" "unat b mod 16 * 4 < 64"
    using byte_parts(2) [of b] byte_parts(3) [of c] by linarith+
qed simp

lemma digit_parts:
  "(unat (a :: byte) mod 4 * 16 + unat (b :: byte) div 16) div 16 = unat a mod 4"
  "(unat a mod 4 * 16 + unat b div 16) mod 16 = unat b div 16"
  "(unat b mod 16 * 4 + unat (c :: byte) div 64) div 4 = unat b mod 16"
  "(unat b mod 16 * 4 + unat c div 64) mod 4 = unat c div 64"
  using byte_parts(2) [of b] byte_parts(3) [of c] by simp_all

lemma byte_of_unat: "byte_of (unat a div 4 * 4 + unat a mod 4) = a" "byte_of (unat a div 16 * 16 + unat a mod 16) = a"
  "byte_of (unat a div 64 * 64 + unat a mod 64) = a"
  "byte_of (unat a) = a"
  by (simp_all add: byte_of_def)

lemma b64_round: "a2b 0 0 0 (map from_url (map to_url (b64encode bs))) = Some bs"
proof (induction bs rule: b64encode.induct)
  case 1
  then show ?case by simp
next
  case (2 a)
  note d = group_digits [of 0 0 "unat a"]
  show ?case using d by (simp add: Let_def byte_bound byte_parts digit_bounds digit_parts byte_of_unat flip: url_digit_def)
next
  case (3 a b)
  note d = group_digits [of "unat b" 0 "unat a"]
  show ?case using d by (simp add: Let_def byte_bound byte_parts digit_bounds digit_parts byte_of_unat flip: url_digit_def)
next
  case (4 a b c rest)
  note d = group_digits [of "unat b" "unat c" "unat a"]
  show ?case using 4 d by (simp add: Let_def byte_bound byte_parts digit_bounds digit_parts byte_of_unat flip: url_digit_def)
qed

text \<open>
  The coding loses nothing, whatever the bytes are, and its text has only letters, digits, minus, underscore and the padding
  sign, so that it needs no escaping in a query string.
\<close>

theorem b64_reads_back: "urlsafe_b64decode (urlsafe_b64encode bs) = Some bs"
  unfolding urlsafe_b64decode_def urlsafe_b64encode_def by (rule b64_round)

text \<open>C34:
  A cursor is opaque but exact: the payload a page hands out is the payload the next request decodes, whenever json.loads
  reads back the text json.dumps wrote; and the request made with the text runs as one made with the payload itself.
\<close>

theorem cursor_round_trip:
  assumes "loads (ascii_bytes (json_dumps (JObj payload))) = Some (JObj payload)"
  shows "decode_cursor loads (encode_cursor payload) = Inr payload \<and>
    api_history user cid limit (cursor_param loads (Some (encode_cursor payload))) = api_history user cid limit (Some (Some payload))"
proof
  show d: "decode_cursor loads (encode_cursor payload) = Inr payload"
    using assms by (simp add: decode_cursor_def encode_cursor_def b64_reads_back)
  have "encode_cursor payload \<noteq> []"
  proof
    assume "encode_cursor payload = []"
    then have "ascii_bytes (json_dumps (JObj payload)) = []"
      using b64_reads_back [of "ascii_bytes (json_dumps (JObj payload))"] by (simp add: encode_cursor_def urlsafe_b64decode_def)
    then show False by (simp add: ascii_bytes_def)
  qed
  then show "api_history user cid limit (cursor_param loads (Some (encode_cursor payload))) = api_history user cid limit (Some (Some payload))"
    using d by (simp add: cursor_param_def)
qed

definition sample_cursor :: event where
  "sample_cursor = [(''message_id'', JStr (uuid_str 7))]"

definition sample_loads :: "byte list \<Rightarrow> json option" where
  "sample_loads bs = (if take 15 bs = ascii_bytes ([CHR 0x7B, CHR 0x22] @ ''message_id'' @ [CHR 0x22] @ '': '')
     then Some (JObj [(''message_id'', JStr (map (\<lambda>b. char_of (unat b)) (take 36 (drop 16 bs))))]) else None)"

theorem cursor_round_trip_witness:
  "decode_cursor sample_loads (encode_cursor sample_cursor) = Inr sample_cursor \<and>
    api_history 1 2 50 (cursor_param sample_loads (Some (encode_cursor sample_cursor))) = api_history 1 2 50 (Some (Some sample_cursor))"
  by (rule cursor_round_trip) code_simp

text \<open>
  Errors: a text that is no base 64, no JSON or no object is answered 400 and never reaches the message store; the decoder is
  lenient, so a text may also be accepted with characters that belong to no alphabet.
\<close>

theorem bad_cursor_refused:
  assumes "decode_cursor loads t = Inl e" and "t \<noteq> []"
  shows "e = HTTPException 400 ''Invalid pagination cursor format''"
    and "wp (history_page loads user cid limit (Some t)) (\<lambda>_ _. False) (\<lambda>_ _. True) w"
  using assms by (auto simp: decode_cursor_def cursor_param_def history_page_def api_history_def wp_simps wp_def
      split: option.splits json.splits prod.splits sum.splits)

lemma a2b_skip: "c \<noteq> CHR ''='' \<Longrightarrow> b64_value c = None \<Longrightarrow> a2b q l p (s @ c # t) = a2b q l p (s @ t)"
proof (induction s arbitrary: q l p)
  case Nil
  then show ?case by (simp add: a2b.simps)
next
  case (Cons d s)
  then show ?case by (simp add: a2b.simps split: option.split)
qed

theorem foreign_character_skipped:
  assumes "c \<noteq> CHR ''=''" "b64_value (from_url c) = None"
  shows "decode_cursor loads (s @ c # t) = decode_cursor loads (s @ t)"
proof -
  have "from_url c \<noteq> CHR ''=''" using assms by (auto simp: from_url_def split: if_splits)
  then show ?thesis using assms by (simp add: decode_cursor_def urlsafe_b64decode_def a2b_skip)
qed

end
