(* ===== verification/Render_Backend.thy ===== *)
theory Render_Backend
  imports Artifact_Lifecycle
begin

text \<open>
  \<open>app/artifacts/render_backend.py\<close>: what the client of the render service makes of each HTTP answer, and that the answers
  \<open>reply\<close> of the studio are exactly this. An answer is a status with its body parsed as JSON (None when it is no JSON), or a
  transport error of the HTTP library; the answer to a download is a status, the chunks that arrive and whether the
  connection breaks after them.
\<close>

datatype http = Transport_error | Answer nat "json option"

datatype http_stream = Stream_error | Stream nat "byte list list" bool

type_synonym render_job = "string \<times> string \<times> string option"

definition ARTIFACT_RENDERER_VERSION :: string where "ARTIFACT_RENDERER_VERSION = ''manim-templates-1''"

section \<open>The calls\<close>

text \<open>\<open>RenderJob(d["id"], d["state"], d.get("failure"))\<close>; a body that is no object cannot be indexed.\<close>

definition job_of_body :: "json option \<Rightarrow> exn + render_job" where
  "job_of_body body = (case body of
     None \<Rightarrow> Inl (ValueError ''json'')
   | Some (JObj d) \<Rightarrow>
       (case (map_of d ''id'', map_of d ''state'') of
          (Some i, Some st) \<Rightarrow> Inr (py_str i, py_str st, (case jget d ''failure'' of JNull \<Rightarrow> None | f \<Rightarrow> Some (py_str f)))
        | _ \<Rightarrow> Inl KeyError)
   | Some _ \<Rightarrow> Inl TypeError)"

definition rejection_code :: "json \<Rightarrow> string" where
  "rejection_code detail = take 48 (py_str (or_json (case detail of JObj d \<Rightarrow> jget d ''failure'' | _ \<Rightarrow> JNull) (JStr ''rejected'')))"

text \<open>A body that is JSON but no object has no \<open>get\<close>; that exception is one of the client's bugs, written TypeError like the other.\<close>

definition http_submit :: "http \<Rightarrow> exn + render_job" where
  "http_submit h = (case h of
     Transport_error \<Rightarrow> Inl RenderUnavailable
   | Answer st body \<Rightarrow>
       if st = 200 \<or> st = 202 then job_of_body body
       else if st = 429 \<or> 500 \<le> st then Inl RenderUnavailable
       else (case body of
          None \<Rightarrow> Inl (RenderRejected ''rejected'')
        | Some (JObj d) \<Rightarrow> Inl (RenderRejected (rejection_code (jget d ''detail'')))
        | Some _ \<Rightarrow> Inl TypeError))"

definition http_status :: "http \<Rightarrow> exn + render_job option" where
  "http_status h = (case h of
     Transport_error \<Rightarrow> Inl RenderUnavailable
   | Answer st body \<Rightarrow>
       if st = 404 then Inr None
       else if 400 \<le> st then Inl RenderUnavailable
       else (case job_of_body body of Inl e \<Rightarrow> Inl e | Inr j \<Rightarrow> Inr (Some j)))"

text \<open>Writing the chunks to the file: Inl with what was written when the limit is passed.\<close>

fun write_chunks :: "nat \<Rightarrow> byte list \<Rightarrow> byte list list \<Rightarrow> (byte list, byte list) sum" where
  "write_chunks bound written [] = Inr written"
| "write_chunks bound written (c # cs) =
     (if bound < length written + length c then Inl written else write_chunks bound (written @ c) cs)"

definition http_download :: "nat \<Rightarrow> http_stream \<Rightarrow> exn + byte list" where
  "http_download bound h = (case h of
     Stream_error \<Rightarrow> Inl RenderUnavailable
   | Stream st chunks broken \<Rightarrow>
       if st = 404 then Inl FileNotFoundError
       else if 400 \<le> st then Inl RenderUnavailable
       else (case write_chunks bound [] chunks of
          Inl _ \<Rightarrow> Inl (RenderRejected ''resource_limit'')
        | Inr bytes \<Rightarrow> if broken then Inl RenderUnavailable else Inr bytes))"

text \<open>The answer and what the file holds afterwards.\<close>

definition http_thumbnail :: "http_stream \<Rightarrow> bool \<times> byte list" where
  "http_thumbnail h = (case h of
     Stream_error \<Rightarrow> (False, [])
   | Stream st chunks broken \<Rightarrow>
       if st \<noteq> 200 then (False, [])
       else (case write_chunks MAX_THUMBNAIL_BYTES [] chunks of Inl part \<Rightarrow> (False, part) | Inr bytes \<Rightarrow> (\<not> broken, bytes)))"

text \<open>
  \<open>renderer_version\<close>: the cached version with the time it was read (in microseconds of the monotonic clock), the answer of
  \<open>/config\<close>, and the version returned with the new cache. Every exception inside is caught.
\<close>

definition version_of_config :: "(string \<times> json) list \<Rightarrow> string" where
  "version_of_config d =
     (let base = py_str (or_json (jget d ''renderer_version'') (JStr ARTIFACT_RENDERER_VERSION)) in
      if truthy (jget d ''quality'') then base @ ''/q'' @ py_str (jget d ''quality'') else base)"

definition renderer_version :: "int \<Rightarrow> http \<Rightarrow> string option \<times> int \<Rightarrow> string \<times> (string option \<times> int)" where
  "renderer_version now h cache = (case cache of (cached, at) \<Rightarrow>
     let known = (case cached of None \<Rightarrow> [] | Some v \<Rightarrow> v) in
     if known \<noteq> [] \<and> now - at < 60 * 1000000 then (known, cache)
     else (case h of
       Answer st (Some (JObj d)) \<Rightarrow>
         if 200 \<le> st \<and> st < 300 then (version_of_config d, (Some (version_of_config d), now))
         else (if known \<noteq> [] then known else ARTIFACT_RENDERER_VERSION, cache)
     | _ \<Rightarrow> (if known \<noteq> [] then known else ARTIFACT_RENDERER_VERSION, cache)))"

section \<open>The answers of the studio\<close>

text \<open>
  The answers of the job API as llm-service documents them, and what each means to the studio. This is the specification: it
  reads the status and the fields of the answer itself and knows nothing of the client. A job is an object with the texts
  \<open>id\<close> and \<open>state\<close> and perhaps a text \<open>failure\<close>; a refusal has an object for its body, or none, and may give its reason as the
  text \<open>failure\<close> of the object \<open>detail\<close>.
\<close>

definition text_field :: "(string \<times> json) list \<Rightarrow> string \<Rightarrow> string option" where
  "text_field d k = (case map_of d k of Some (JStr t) \<Rightarrow> Some t | _ \<Rightarrow> None)"

definition text_or_null :: "(string \<times> json) list \<Rightarrow> string \<Rightarrow> bool" where
  "text_or_null d k = (case map_of d k of None \<Rightarrow> True | Some JNull \<Rightarrow> True | Some (JStr _) \<Rightarrow> True | _ \<Rightarrow> False)"

definition job_body :: "json option \<Rightarrow> bool" where
  "job_body body = (case body of
     Some (JObj d) \<Rightarrow> text_field d ''id'' \<noteq> None \<and> text_field d ''state'' \<noteq> None \<and> text_or_null d ''failure'' | _ \<Rightarrow> False)"

definition refusal_body :: "json option \<Rightarrow> bool" where
  "refusal_body body = (case body of
     None \<Rightarrow> True
   | Some (JObj d) \<Rightarrow> (case map_of d ''detail'' of Some (JObj e) \<Rightarrow> text_or_null e ''failure'' | _ \<Rightarrow> True)
   | _ \<Rightarrow> False)"

text \<open>Too many requests and the errors of the server pass; every other refusal is for good.\<close>

definition passing :: "nat \<Rightarrow> bool" where
  "passing st \<longleftrightarrow> st = 429 \<or> 500 \<le> st"

definition documented_submit :: "http \<Rightarrow> bool" where
  "documented_submit h = (case h of
     Transport_error \<Rightarrow> True
   | Answer st body \<Rightarrow> if st \<in> {200, 202} then job_body body else passing st \<or> refusal_body body)"

definition documented_status :: "http \<Rightarrow> bool" where
  "documented_status h = (case h of Transport_error \<Rightarrow> True | Answer st body \<Rightarrow> 400 \<le> st \<or> job_body body)"

definition job_reply :: "json option \<Rightarrow> reply" where
  "job_reply body = (case body of
     Some (JObj d) \<Rightarrow> JobIs (the (text_field d ''id'')) (the (text_field d ''state'')) (text_field d ''failure'') | _ \<Rightarrow> Unavailable)"

definition refusal_reason :: "json option \<Rightarrow> string" where
  "refusal_reason body = (case body of
     Some (JObj d) \<Rightarrow> (case map_of d ''detail'' of
        Some (JObj e) \<Rightarrow> (case text_field e ''failure'' of Some (c # cs) \<Rightarrow> c # cs | _ \<Rightarrow> ''rejected'') | _ \<Rightarrow> ''rejected'')
   | _ \<Rightarrow> ''rejected'')"

definition submit_reply :: "http \<Rightarrow> reply" where
  "submit_reply h = (case h of
     Transport_error \<Rightarrow> Unavailable
   | Answer st body \<Rightarrow>
       if st \<in> {200, 202} then job_reply body
       else if passing st then Unavailable
       else Rejected (take 48 (refusal_reason body)))"

definition status_reply :: "http \<Rightarrow> reply" where
  "status_reply h = (case h of
     Transport_error \<Rightarrow> Unavailable
   | Answer st body \<Rightarrow> if st = 404 then NoJob else if 400 \<le> st then Unavailable else job_reply body)"

definition download_reply :: "http_stream \<Rightarrow> reply" where
  "download_reply h = (case h of
     Stream_error \<Rightarrow> Unavailable
   | Stream st chunks broken \<Rightarrow>
       if st = 404 then NoFile
       else if 400 \<le> st \<or> (broken \<and> length (concat chunks) \<le> ARTIFACT_MAX_VIDEO_BYTES) then Unavailable
       else Bytes (concat chunks))"

definition thumbnail_reply :: "http_stream \<Rightarrow> reply" where
  "thumbnail_reply h = (case h of
     Stream_error \<Rightarrow> Unavailable
   | Stream st chunks broken \<Rightarrow> if st \<noteq> 200 \<or> broken then Unavailable else Bytes (concat chunks))"

abbreviation answering :: "reply \<Rightarrow> studio \<Rightarrow> studio" where
  "answering r s \<equiv> s\<lparr>st_replies := r # st_replies s\<rparr>"

lemma ask_answering: "ask_backend f (answering r s) = (f r, s)"
  by (simp add: ask_backend_def)

text \<open>What the client reads of a documented body.\<close>

lemma job_of_body_documented:
  assumes "job_body body"
  obtains i st f where "job_of_body body = Inr (i, st, f)" "job_reply body = JobIs i st f"
proof -
  obtain d where d: "body = Some (JObj d)" using assms by (auto simp: job_body_def split: option.splits json.splits)
  obtain i st where f: "map_of d ''id'' = Some (JStr i)" "map_of d ''state'' = Some (JStr st)"
    using assms by (auto simp: d job_body_def text_field_def split: option.splits json.splits)
  have "(case jget d ''failure'' of JNull \<Rightarrow> None | f \<Rightarrow> Some (py_str f)) = text_field d ''failure''"
    using assms by (auto simp: d job_body_def text_or_null_def text_field_def jget_or_def py_str_def split: option.splits json.splits)
  then show ?thesis using that by (simp add: d f job_of_body_def job_reply_def text_field_def [of d "''id''"] text_field_def [of d "''state''"] py_str_def)
qed

lemma text_or_null_cases:
  assumes "text_or_null d k"
  obtains "jget d k = JNull" "text_field d k = None" | t where "jget d k = JStr t" "text_field d k = Some t"
  using assms by (cases "map_of d k") (auto simp: text_or_null_def text_field_def jget_or_def split: json.splits)

lemma rejection_of_object: "text_or_null e ''failure'' \<Longrightarrow>
    rejection_code (JObj e) = take 48 (case text_field e ''failure'' of Some (c # cs) \<Rightarrow> c # cs | _ \<Rightarrow> ''rejected'')"
  by (erule text_or_null_cases) (auto simp: rejection_code_def or_json_def py_str_def split: list.split)

lemma rejection_otherwise: "(\<And>e. detail \<noteq> JObj e) \<Longrightarrow> rejection_code detail = take 48 ''rejected''"
  by (cases detail) (auto simp: rejection_code_def or_json_def py_str_def)

lemma refusal_documented:
  assumes "refusal_body body"
  shows "(case body of None \<Rightarrow> Inl (RenderRejected ''rejected'')
     | Some (JObj d) \<Rightarrow> Inl (RenderRejected (rejection_code (jget d ''detail'')))
     | Some _ \<Rightarrow> Inl TypeError) = Inl (RenderRejected (take 48 (refusal_reason body)))"
proof (cases body)
  case (Some j)
  then obtain d where d: "body = Some (JObj d)" using assms by (cases j) (auto simp: refusal_body_def)
  show ?thesis
  proof (cases "\<exists>e. jget d ''detail'' = JObj e")
    case True
    then obtain e where "map_of d ''detail'' = Some (JObj e)" by (auto simp: jget_or_def split: option.splits)
    then show ?thesis using assms rejection_of_object [of e]
      by (simp add: d refusal_body_def refusal_reason_def jget_or_def)
  next
    case False
    then have "refusal_reason body = ''rejected''"
      by (auto simp: d refusal_reason_def jget_or_def split: option.split json.split)
    then show ?thesis using False rejection_otherwise [of "jget d ''detail''"] by (simp add: d)
  qed
qed (simp add: refusal_reason_def)

lemma submit_sees:
  assumes "documented_submit h"
  shows "backend_submit (answering (submit_reply h) s) = (map_sum id fst (http_submit h), s)"
proof (cases h)
  case Transport_error
  then show ?thesis unfolding backend_submit_def ask_answering by (simp add: submit_reply_def http_submit_def)
next
  case (Answer st body)
  show ?thesis
  proof (cases "st \<in> {200, 202}")
    case True
    then have "job_body body" using assms by (simp add: Answer documented_submit_def)
    then obtain i x f where "job_of_body body = Inr (i, x, f)" "job_reply body = JobIs i x f" by (rule job_of_body_documented)
    then show ?thesis using True unfolding backend_submit_def ask_answering by (auto simp: Answer submit_reply_def http_submit_def)
  next
    case False
    show ?thesis
    proof (cases "passing st")
      case True
      then show ?thesis using False unfolding backend_submit_def ask_answering
        by (simp add: Answer submit_reply_def http_submit_def passing_def)
    next
      case pass: False
      then have "refusal_body body" using assms False by (simp add: Answer documented_submit_def)
      then have "http_submit h = Inl (RenderRejected (take 48 (refusal_reason body)))"
        using refusal_documented False pass by (simp add: Answer http_submit_def passing_def)
      then show ?thesis using False pass unfolding backend_submit_def ask_answering by (simp add: Answer submit_reply_def)
    qed
  qed
qed

lemma status_sees:
  assumes "documented_status h"
  shows "backend_status (answering (status_reply h) s) = (map_sum id (map_option snd) (http_status h), s)"
proof (cases h)
  case Transport_error
  then show ?thesis unfolding backend_status_def ask_answering by (simp add: status_reply_def http_status_def)
next
  case (Answer st body)
  show ?thesis
  proof (cases "400 \<le> st")
    case True
    then show ?thesis unfolding backend_status_def ask_answering by (simp add: Answer status_reply_def http_status_def)
  next
    case False
    then have "job_body body" using assms by (simp add: Answer documented_status_def)
    then obtain i x f where "job_of_body body = Inr (i, x, f)" "job_reply body = JobIs i x f" by (rule job_of_body_documented)
    then show ?thesis using False unfolding backend_status_def ask_answering by (auto simp: Answer status_reply_def http_status_def)
  qed
qed

text \<open>The chunks are written while they fit: all of them, or the download is given up.\<close>

lemma write_chunks_all:
  "length written + length (concat chunks) \<le> bound \<Longrightarrow> write_chunks bound written chunks = Inr (written @ concat chunks)"
  "length written \<le> bound \<Longrightarrow> (\<exists>part. write_chunks bound written chunks = Inl part) \<longleftrightarrow> bound < length written + length (concat chunks)"
  by (induction bound written chunks rule: write_chunks.induct) auto

lemma write_chunks_cases:
  obtains "length (concat chunks) \<le> bound" "write_chunks bound [] chunks = Inr (concat chunks)"
  | part where "bound < length (concat chunks)" "write_chunks bound [] chunks = Inl part"
  using write_chunks_all [where written = "[]" and bound = bound and chunks = chunks] by (cases "length (concat chunks) \<le> bound") (auto simp: not_le)

lemma download_sees: "backend_download (answering (download_reply h) s) = (http_download ARTIFACT_MAX_VIDEO_BYTES h, s)"
proof (cases h)
  case Stream_error
  then show ?thesis unfolding backend_download_def ask_answering by (simp add: download_reply_def http_download_def)
next
  case (Stream st chunks broken)
  show ?thesis unfolding backend_download_def ask_answering
    by (rule write_chunks_cases [of chunks ARTIFACT_MAX_VIDEO_BYTES]) (auto simp: Stream download_reply_def http_download_def)
qed

lemma thumbnail_sees: "backend_thumbnail (answering (thumbnail_reply h) s) =
    (Inr (case http_thumbnail h of (ok, bytes) \<Rightarrow> if ok then Some bytes else None), s)"
proof (cases h)
  case Stream_error
  then show ?thesis unfolding backend_thumbnail_def ask_answering by (simp add: thumbnail_reply_def http_thumbnail_def)
next
  case (Stream st chunks broken)
  show ?thesis unfolding backend_thumbnail_def ask_answering
    by (rule write_chunks_cases [of chunks MAX_THUMBNAIL_BYTES]) (auto simp: Stream thumbnail_reply_def http_thumbnail_def)
qed

text \<open>C23:
  The studio sees the render service as its API documents it, through the HTTP client: the specification gives every HTTP
  answer its meaning from the status and the body alone (a job; 429, a server error or a broken connection is transient; any
  other refusal of a submission is permanent, with its reason cut to 48 characters; an unknown job is 404), and for every
  documented answer each call of the client ends exactly with that meaning: the same job, the same bytes, the same error. For
  downloads this holds whatever the status, the chunks and the point where the connection breaks.
\<close>

theorem studio_refines_http:
  assumes "documented_submit h" "documented_status h'"
  shows "backend_submit (answering (submit_reply h) s) = (map_sum id fst (http_submit h), s) \<and>
    backend_status (answering (status_reply h') s) = (map_sum id (map_option snd) (http_status h'), s) \<and>
    backend_download (answering (download_reply d) s) = (http_download ARTIFACT_MAX_VIDEO_BYTES d, s) \<and>
    backend_thumbnail (answering (thumbnail_reply d) s) =
      (Inr (case http_thumbnail d of (ok, bytes) \<Rightarrow> if ok then Some bytes else None), s)"
  using assms by (simp add: submit_sees status_sees download_sees thumbnail_sees)

section \<open>Errors\<close>

text \<open>
  Whether an error is transient or permanent depends on the status alone, and the code of a refusal fits its column of 48
  characters, whatever the body holds.
\<close>

theorem submit_errors_classified:
  "http_submit Transport_error = Inl RenderUnavailable"
  "st = 429 \<or> 500 \<le> st \<Longrightarrow> http_submit (Answer st body) = Inl RenderUnavailable"
  "st \<notin> {200, 202, 429} \<Longrightarrow> st < 500 \<Longrightarrow> http_submit (Answer st body) = Inl TypeError \<or>
     (\<exists>code. http_submit (Answer st body) = Inl (RenderRejected code) \<and> length code \<le> 48)"
  by (auto simp: http_submit_def rejection_code_def split: option.splits json.splits)

text \<open>An answer 400 whose body is a JSON text or list is no rejection: the exception leaves the client.\<close>

theorem refusal_with_text_body_escapes:
  "http_submit (Answer 400 (Some (JStr ''bad request''))) = Inl TypeError"
  by (simp add: http_submit_def)

text \<open>A failure never loses a version that is known, and a version is asked for at most once a minute while it is known.\<close>

theorem renderer_version_total:
  assumes "renderer_version now h (cached, at) = (v, cache')"
  shows "cached = Some old \<Longrightarrow> old \<noteq> [] \<Longrightarrow> now - at < 60000000 \<Longrightarrow> v = old \<and> cache' = (cached, at)"
    and "h = Transport_error \<Longrightarrow> cache' = (cached, at) \<and> v = (case cached of Some old \<Rightarrow> if old = [] then ARTIFACT_RENDERER_VERSION else old | None \<Rightarrow> ARTIFACT_RENDERER_VERSION)"
  using assms by (auto simp: renderer_version_def Let_def split: if_splits option.splits)

definition job_answer :: http where
  "job_answer = Answer 202 (Some (JObj [(''id'', JStr ''j1''), (''state'', JStr ''pending'')]))"

theorem studio_refines_http_witness:
  "backend_submit (answering (submit_reply job_answer) empty_studio) = (map_sum id fst (http_submit job_answer), empty_studio) \<and>
    backend_status (answering (status_reply Transport_error) empty_studio) = (map_sum id (map_option snd) (http_status Transport_error), empty_studio) \<and>
    backend_download (answering (download_reply (Stream 404 [] False)) empty_studio) =
      (http_download ARTIFACT_MAX_VIDEO_BYTES (Stream 404 [] False), empty_studio) \<and>
    backend_thumbnail (answering (thumbnail_reply (Stream 404 [] False)) empty_studio) =
      (Inr (case http_thumbnail (Stream 404 [] False) of (ok, bytes) \<Rightarrow> if ok then Some bytes else None), empty_studio)"
  by (rule studio_refines_http)
     (simp_all add: documented_submit_def documented_status_def job_answer_def job_body_def text_field_def text_or_null_def)

end
