(* ===== verification/Object_Store.thy ===== *)
theory Object_Store
  imports Artifact_Lifecycle "HOL-Library.AList" "HOL-Library.List_Lexorder" "HOL-Library.Char_ord"
begin

text \<open>
  \<open>app/artifacts/storage.py\<close>: the in-process store, what the S3 store makes of the answers of its client, the streams of both,
  and the digest of a file. Both stores keep the contract \<open>object_store\<close>, as does the store of the studio, and two stores that
  keep it cannot be told apart: the theorems on the studio hold for the store of the code.
\<close>

section \<open>Chunks\<close>

definition CHUNK :: nat where "CHUNK = 256 * 1024"

text \<open>\<open>data[i:i + n] for i in range(0, len(data), n)\<close>; also what a file read \<open>n\<close> bytes at a time gives.\<close>

function chunks :: "nat \<Rightarrow> 'a list \<Rightarrow> 'a list list" where
  "chunks n xs = (if n = 0 \<or> xs = [] then [] else take n xs # chunks n (drop n xs))"
  by auto
termination by (relation "measure (\<lambda>(n, xs). length xs)") auto

declare chunks.simps [simp del]

lemma concat_chunks: "0 < n \<Longrightarrow> concat (chunks n xs) = xs"
proof (induction n xs rule: chunks.induct)
  case (1 n xs)
  then show ?case by (cases "xs = []") (simp_all add: chunks.simps [of n xs] chunks.simps [of n "[]"])
qed

lemma chunks_small: "c \<in> set (chunks n xs) \<Longrightarrow> c \<noteq> [] \<and> length c \<le> n"
proof (induction n xs rule: chunks.induct)
  case (1 n xs)
  then show ?case by (cases "n = 0 \<or> xs = []") (auto simp: chunks.simps [of n xs])
qed

section \<open>The store in the process\<close>

record memory_object =
  mo_bytes :: "byte list"
  mo_type :: string
  mo_meta :: "(string \<times> string) list"
  mo_time :: int

record memory_store =
  me_objects :: "(string \<times> memory_object) list"
  me_puts :: nat
  me_put_keys :: "string list"

record object_info =
  oi_key :: string
  oi_size :: nat
  oi_type :: string
  oi_meta :: "(string \<times> string) list"
  oi_modified :: int

definition empty_memory :: memory_store where
  "empty_memory = \<lparr>me_objects = [], me_puts = 0, me_put_keys = []\<rparr>"

text \<open>\<open>self.objects[key] = ...\<close>.\<close>

definition mem_put :: "string \<Rightarrow> memory_object \<Rightarrow> memory_store \<Rightarrow> memory_store" where
  "mem_put key ob s = s\<lparr>me_objects := AList.update key ob (me_objects s)\<rparr>"

definition mem_put_bytes :: "string \<Rightarrow> byte list \<Rightarrow> string \<Rightarrow> (string \<times> string) list option \<Rightarrow> int \<Rightarrow> memory_store \<Rightarrow> memory_store" where
  "mem_put_bytes key bytes type meta now =
     mem_put key \<lparr>mo_bytes = bytes, mo_type = type, mo_meta = (case meta of None \<Rightarrow> [] | Some m \<Rightarrow> m), mo_time = now\<rparr>"

definition mem_put_file :: "string \<Rightarrow> byte list \<Rightarrow> string \<Rightarrow> (string \<times> string) list option \<Rightarrow> int \<Rightarrow> memory_store \<Rightarrow> memory_store" where
  "mem_put_file key bytes type meta now s =
     mem_put key \<lparr>mo_bytes = bytes, mo_type = type, mo_meta = (case meta of None \<Rightarrow> [] | Some m \<Rightarrow> m), mo_time = now\<rparr>
       (s\<lparr>me_puts := me_puts s + 1, me_put_keys := me_put_keys s @ [key]\<rparr>)"

definition mem_puts_ending :: "string \<Rightarrow> memory_store \<Rightarrow> nat" where
  "mem_puts_ending ending s = length (filter (\<lambda>k. starts_with (rev ending) (rev k)) (me_put_keys s))"

definition info_of :: "string \<Rightarrow> memory_object \<Rightarrow> object_info" where
  "info_of key ob = \<lparr>oi_key = key, oi_size = length (mo_bytes ob), oi_type = mo_type ob, oi_meta = mo_meta ob, oi_modified = mo_time ob\<rparr>"

definition mem_get :: "string \<Rightarrow> memory_store \<Rightarrow> memory_object option" where
  "mem_get key s = map_of (me_objects s) key"

definition mem_stat :: "string \<Rightarrow> memory_store \<Rightarrow> object_info option" where
  "mem_stat key s = map_option (info_of key) (mem_get key s)"

definition mem_get_to_file :: "string \<Rightarrow> memory_store \<Rightarrow> exn + byte list" where
  "mem_get_to_file key s = (case mem_get key s of None \<Rightarrow> Inl FileNotFoundError | Some ob \<Rightarrow> Inr (mo_bytes ob))"

definition mem_stream :: "string \<Rightarrow> memory_store \<Rightarrow> exn + byte list list" where
  "mem_stream key s = (case mem_get key s of None \<Rightarrow> Inl FileNotFoundError | Some ob \<Rightarrow> Inr (chunks CHUNK (mo_bytes ob)))"

definition mem_delete :: "string \<Rightarrow> memory_store \<Rightarrow> memory_store" where
  "mem_delete key s = s\<lparr>me_objects := AList.delete key (me_objects s)\<rparr>"

definition mem_list :: "string \<Rightarrow> memory_store \<Rightarrow> object_info list" where
  "mem_list start s = map (\<lambda>(k, ob). info_of k ob) (filter (\<lambda>(k, _). starts_with start k) (sort_key fst (me_objects s)))"

text \<open>\<open>x or d\<close> for an optional value.\<close>

definition given :: "'a \<Rightarrow> 'a option \<Rightarrow> 'a" where
  "given d x = (case x of None \<Rightarrow> d | Some v \<Rightarrow> v)"

section \<open>The S3 store\<close>

text \<open>An answer of the client: the value, an \<open>S3Error\<close> with its code, or another exception.\<close>

datatype 'a s3_answer = S3_value 'a | S3_error string | S3_failure

record s3_stat =
  s3_size :: "nat option"
  s3_type :: "string option"
  s3_meta :: "(string \<times> string) list option"
  s3_modified :: "int option"

definition META_PREFIX :: string where "META_PREFIX = ''x-amz-meta-''"

text \<open>The dict comprehension: a later header of the same name wins.\<close>

definition user_metadata :: "(string \<times> string) list option \<Rightarrow> (string \<times> string) list" where
  "user_metadata headers =
     fold (\<lambda>(k, v). AList.update (lower (drop (length META_PREFIX) k)) v)
       (filter (\<lambda>(k, _). starts_with META_PREFIX (lower k)) (given [] headers)) []"

definition minio_stat :: "string \<Rightarrow> s3_stat s3_answer \<Rightarrow> exn + object_info option" where
  "minio_stat key answer = (case answer of
     S3_value st \<Rightarrow> Inr (Some \<lparr>oi_key = key, oi_size = given 0 (s3_size st), oi_type = given [] (s3_type st),
       oi_meta = user_metadata (s3_meta st), oi_modified = given 0 (s3_modified st)\<rparr>)
   | S3_error code \<Rightarrow> if code \<in> {''NoSuchKey'', ''NoSuchObject'', ''NotFound''} then Inr None else Inl StorageError
   | S3_failure \<Rightarrow> Inl StorageError)"

text \<open>\<open>stream\<close>: the reads of the body, up to the first empty one.\<close>

fun minio_stream :: "byte list list \<Rightarrow> byte list list" where
  "minio_stream [] = []"
| "minio_stream (chunk # reads) = (if chunk = [] then [] else chunk # minio_stream reads)"

definition minio_list :: "(string \<times> nat option \<times> int option) list \<Rightarrow> object_info list" where
  "minio_list = map (\<lambda>(k, n, t). \<lparr>oi_key = k, oi_size = given 0 n, oi_type = [], oi_meta = [], oi_modified = given 0 t\<rparr>)"

section \<open>The digest of a file\<close>

text \<open>\<open>hashlib\<close> is given by the start of a digest, its \<open>update\<close> and its \<open>hexdigest\<close>.\<close>

definition sha256_file :: "'h \<Rightarrow> ('h \<Rightarrow> byte list \<Rightarrow> 'h) \<Rightarrow> ('h \<Rightarrow> string) \<Rightarrow> byte list \<Rightarrow> string" where
  "sha256_file start update hexdigest bytes = hexdigest (fold (\<lambda>chunk h. update h chunk) (chunks (1024 * 1024) bytes) start)"

section \<open>The contract of a store\<close>

text \<open>What a store shows under a key: the last object that was put there since it was last deleted.\<close>

datatype 'o store_op = Put string 'o | Delete string

locale object_store =
  fixes put :: "string \<Rightarrow> 'o \<Rightarrow> 's \<Rightarrow> 's"
    and delete :: "string \<Rightarrow> 's \<Rightarrow> 's"
    and look :: "'s \<Rightarrow> string \<Rightarrow> 'o option"
  assumes look_put: "look (put k ob s) k' = (if k' = k then Some ob else look s k')"
    and look_delete: "look (delete k s) k' = (if k' = k then None else look s k')"

fun run_store :: "(string \<Rightarrow> 'o \<Rightarrow> 's \<Rightarrow> 's) \<Rightarrow> (string \<Rightarrow> 's \<Rightarrow> 's) \<Rightarrow> 'o store_op list \<Rightarrow> 's \<Rightarrow> 's" where
  "run_store put delete [] s = s"
| "run_store put delete (Put k ob # ops) s = run_store put delete ops (put k ob s)"
| "run_store put delete (Delete k # ops) s = run_store put delete ops (delete k s)"

fun last_word :: "'o store_op list \<Rightarrow> string \<Rightarrow> 'o option \<Rightarrow> 'o option" where
  "last_word [] k before = before"
| "last_word (Put k' ob # ops) k before = last_word ops k (if k = k' then Some ob else before)"
| "last_word (Delete k' # ops) k before = last_word ops k (if k = k' then None else before)"

context object_store
begin

lemma look_run: "look (run_store put delete ops s) k = last_word ops k (look s k)"
proof (induction ops arbitrary: s)
  case (Cons op ops)
  then show ?case by (cases op) (simp_all add: look_put look_delete)
qed simp

lemma put_then_delete: "look (delete k (put k ob s)) = (look s)(k := None)"
  by (simp add: look_put look_delete fun_eq_iff)

end

definition studio_put :: "string \<Rightarrow> stored_object \<Rightarrow> studio \<Rightarrow> studio" where
  "studio_put key ob s = s\<lparr>st_objs := (st_objs s)(key \<mapsto> ob)\<rparr>"

definition studio_delete :: "string \<Rightarrow> studio \<Rightarrow> studio" where
  "studio_delete key s = s\<lparr>st_objs := (st_objs s)(key := None)\<rparr>"

definition as_stored :: "memory_object \<Rightarrow> stored_object" where
  "as_stored ob = \<lparr>so_bytes = mo_bytes ob, so_type = mo_type ob, so_modified = mo_time ob\<rparr>"

interpretation memory: object_store mem_put mem_delete "\<lambda>s k. mem_get k s"
  by unfold_locales (simp_all add: mem_get_def mem_put_def mem_delete_def update_conv' delete_conv')

interpretation stored: object_store studio_put studio_delete st_objs
  by unfold_locales (simp_all add: studio_put_def studio_delete_def)

text \<open>The calls of the studio are the operations of this contract, with failures around them.\<close>

lemma studio_calls:
  "store_put key bytes type = store_call (\<lambda>s. (Inr (), studio_put key (as_stored
     \<lparr>mo_bytes = bytes, mo_type = type, mo_meta = [], mo_time = st_now s\<rparr>) s))"
  "store_delete key = store_call (\<lambda>s. (Inr (), studio_delete key s))"
  by (simp_all add: store_put_def store_delete_def studio_put_def studio_delete_def as_stored_def fun_eq_iff)

text \<open>A file is put as its bytes are, beside what only the tests read.\<close>

lemma put_file_is_put:
  "me_objects (mem_put_file key bytes type meta now s) = me_objects (mem_put_bytes key bytes type meta now s)"
  by (simp add: mem_put_file_def mem_put_bytes_def mem_put_def)

fun op_as_stored :: "memory_object store_op \<Rightarrow> stored_object store_op" where
  "op_as_stored (Put k ob) = Put k (as_stored ob)"
| "op_as_stored (Delete k) = Delete k"

lemma last_word_mapped: "last_word (map op_as_stored ops) k (map_option as_stored b) = map_option as_stored (last_word ops k b)"
  by (induction ops k b rule: last_word.induct) (auto simp: if_distrib cong: if_cong)

text \<open>
  The store of the studio implements the store of the code: after any sequence of uploads and deletions, under every key the
  studio holds exactly the bytes, the content type and the time the in-process store holds there, so \<open>stat\<close> and the download
  answer the same in both.
\<close>

theorem studio_store_refines_memory:
  assumes "\<forall>k. st_objs s k = map_option as_stored (mem_get k m)"
  shows "st_objs (run_store studio_put studio_delete (map op_as_stored ops) s) k =
      map_option as_stored (mem_get k (run_store mem_put mem_delete ops m))"
    and "map_option oi_size (mem_stat k (run_store mem_put mem_delete ops m)) =
      map_option (\<lambda>ob. length (so_bytes ob)) (st_objs (run_store studio_put studio_delete (map op_as_stored ops) s) k)"
proof -
  show same: "st_objs (run_store studio_put studio_delete (map op_as_stored ops) s) k =
      map_option as_stored (mem_get k (run_store mem_put mem_delete ops m))"
    unfolding stored.look_run memory.look_run assms [rule_format] by (rule last_word_mapped)
  show "map_option oi_size (mem_stat k (run_store mem_put mem_delete ops m)) =
      map_option (\<lambda>ob. length (so_bytes ob)) (st_objs (run_store studio_put studio_delete (map op_as_stored ops) s) k)"
    unfolding same by (simp add: mem_stat_def info_of_def as_stored_def option.map_comp comp_def)
qed

section \<open>Streams, metadata, digests\<close>

text \<open>A download is the object, in pieces of at most 256 KiB, none of them empty.\<close>

theorem stream_is_object:
  "mem_stream k s = Inr cs \<Longrightarrow> \<exists>ob. mem_get k s = Some ob \<and> concat cs = mo_bytes ob \<and> (\<forall>c \<in> set cs. c \<noteq> [] \<and> length c \<le> CHUNK)"
  by (auto simp: mem_stream_def CHUNK_def concat_chunks dest: chunks_small split: option.splits)

text \<open>However the body arrives: a read is empty only at its end.\<close>

theorem minio_stream_is_body:
  "\<forall>c \<in> set reads. c \<noteq> [] \<Longrightarrow> minio_stream (reads @ [] # rest) = reads"
  by (induction reads) simp_all

text \<open>Only a missing object is answered None; every other error is raised.\<close>

theorem minio_stat_missing:
  "minio_stat k a = Inr None \<longleftrightarrow> (\<exists>c. a = S3_error c \<and> c \<in> {''NoSuchKey'', ''NoSuchObject'', ''NotFound''})"
  by (auto simp: minio_stat_def split: s3_answer.split)

text \<open>
  Metadata comes back as it was given, whatever case the headers are returned in and whatever other headers there are: the
  names are lower case and distinct.
\<close>

lemma user_metadata_fold:
  "list_all2 (\<lambda>(h, v) (k, v'). lower h = META_PREFIX @ k \<and> v = v') headers m \<Longrightarrow>
   map_of (fold (\<lambda>(k, v). AList.update (lower (drop (length META_PREFIX) k)) v) headers base) = map_of base ++ map_of (rev m)"
proof (induction headers m arbitrary: base rule: list_all2_induct)
  case (Cons h headers km m)
  obtain n v k where p: "h = (n, v)" "km = (k, v)" "lower n = META_PREFIX @ k" using Cons(1) by (cases h, cases km) auto
  then have "lower (drop (length META_PREFIX) n) = k"
    by (metis append_eq_conv_conj drop_map lower_def)
  then show ?case using Cons(3) by (simp add: p update_conv' map_add_def fun_eq_iff split: option.split)
qed simp

theorem metadata_round_trip:
  assumes "list_all2 (\<lambda>(h, v) (k, v'). lower h = META_PREFIX @ k \<and> v = v') headers m" "distinct (map fst m)"
  shows "map_of (user_metadata (Some headers)) k = map_of m k"
proof -
  have "filter (\<lambda>(k, _). starts_with META_PREFIX (lower k)) headers = headers"
    using assms(1) by (induction headers m rule: list_all2_induct) (auto simp: starts_with_def)
  moreover have "map_of (rev m) k = map_of m k" for k
  proof (cases "map_of m k")
    case None
    then show ?thesis by (metis map_of_eq_None_iff set_rev)
  next
    case (Some v)
    then show ?thesis using assms(2) by (simp add: map_of_eq_Some_iff rev_map [symmetric])
  qed
  ultimately show ?thesis
    using user_metadata_fold [OF assms(1), of "[]"] by (simp add: user_metadata_def given_def map_add_def)
qed

text \<open>The digest does not depend on how the file is read, as long as \<open>update\<close> is additive, which hashlib documents.\<close>

lemma fold_additive:
  "(\<And>h a b. update (update h a) b = update h (a @ b)) \<Longrightarrow> (\<And>h. update h [] = h) \<Longrightarrow>
   fold (\<lambda>c h. update h c) cs h = update h (concat cs)"
  by (induction cs arbitrary: h) simp_all

theorem sha256_file_whole:
  assumes "\<And>h a b. update (update h a) b = update h (a @ b)" "\<And>h. update h [] = h"
  shows "sha256_file start update hexdigest bytes = hexdigest (update start bytes)"
  unfolding sha256_file_def fold_additive [where update = update, OF assms] by (simp add: concat_chunks)

section \<open>Witnesses\<close>

theorem studio_store_refines_memory_witness:
  "st_objs (run_store studio_put studio_delete (map op_as_stored
       [Put ''a'' \<lparr>mo_bytes = [1], mo_type = ''t'', mo_meta = [], mo_time = 3\<rparr>, Delete ''b'']) empty_studio) ''a'' =
     map_option as_stored (mem_get ''a'' (run_store mem_put mem_delete
       [Put ''a'' \<lparr>mo_bytes = [1], mo_type = ''t'', mo_meta = [], mo_time = 3\<rparr>, Delete ''b''] empty_memory))"
  by (rule studio_store_refines_memory(1)) (simp add: empty_studio_def empty_memory_def mem_get_def)

end
