(* ===== verification/Health.thy ===== *)
theory Health
  imports Prelude
begin

text \<open>
  The connection managers (\<open>app/db/cassandra.py\<close>, \<open>redis.py\<close>, \<open>kafka.py\<close>, \<open>postgres.py\<close>), their start and shutdown in the
  lifespan of \<open>app/main.py\<close>, and the readiness probes of \<open>app/main.py\<close> and \<open>app/api/v1/health.py\<close>. A manager is whether it
  holds its client; every call of a driver takes the next entry of \<open>cn_calls\<close>, which says whether it succeeds.
\<close>

record connections =
  cn_cassandra :: bool
  cn_redis :: bool
  cn_producer :: bool
  cn_consumer :: bool
  cn_engine :: bool
  cn_calls :: "bool list"

definition dial :: "(connections, bool) prog" where
  "dial = (\<lambda>s. (Inr (case cn_calls s of [] \<Rightarrow> True | b # _ \<Rightarrow> b), s\<lparr>cn_calls := tl (cn_calls s)\<rparr>))"

definition setting :: "(connections \<Rightarrow> connections) \<Rightarrow> (connections, unit) prog" where
  "setting f = (\<lambda>s. (Inr (), f s))"

section \<open>The managers\<close>

definition cassandra_initialize :: "(connections, unit) prog" where
  "cassandra_initialize = bnd dial (\<lambda>ok. setting (\<lambda>s. s\<lparr>cn_cassandra := ok\<rparr>))"

definition cassandra_health :: "(connections, bool) prog" where
  "cassandra_health =
     bnd (getting cn_cassandra) (\<lambda>session.
     bnd (if session then ret () else cassandra_initialize) (\<lambda>_.
     bnd (getting cn_cassandra) (\<lambda>session'. if \<not> session' then ret False else dial)))"

definition redis_initialize :: "(connections, unit) prog" where
  "redis_initialize = bnd dial (\<lambda>ok. setting (\<lambda>s. s\<lparr>cn_redis := ok\<rparr>))"

definition redis_health :: "(connections, bool) prog" where
  "redis_health = bnd (getting cn_redis) (\<lambda>client. if \<not> client then ret False else dial)"

text \<open>A producer or consumer that does not start is dropped, and the exception is raised again.\<close>

definition kafka_initialize :: "(connections, unit) prog" where
  "kafka_initialize =
     bnd (getting cn_producer) (\<lambda>producer.
     bnd (if producer then ret () else bnd dial (\<lambda>ok.
            bnd (setting (\<lambda>s. s\<lparr>cn_producer := ok\<rparr>)) (\<lambda>_. if ok then ret () else raise KafkaError))) (\<lambda>_.
     bnd (getting cn_consumer) (\<lambda>consumer.
     if consumer then ret () else bnd dial (\<lambda>ok.
       bnd (setting (\<lambda>s. s\<lparr>cn_consumer := ok\<rparr>)) (\<lambda>_. if ok then ret () else raise KafkaError)))))"

definition both_started :: "connections \<Rightarrow> bool" where
  "both_started s \<longleftrightarrow> cn_producer s \<and> cn_consumer s"

definition kafka_health :: "(connections, bool) prog" where
  "kafka_health =
     bnd (getting both_started) (\<lambda>started.
     bnd (if started then ret True else attempt (bnd kafka_initialize (\<lambda>_. ret True)) (\<lambda>_. ret False)) (\<lambda>tried.
     if \<not> tried then ret False
     else bnd (getting both_started) (\<lambda>started'.
     if \<not> started' then ret False
     else bnd dial (\<lambda>p. if \<not> p then ret False else dial))))"

text \<open>An error while stopping is only logged.\<close>

definition kafka_close :: "(connections, unit) prog" where
  "kafka_close =
     bnd (getting cn_producer) (\<lambda>producer.
     bnd (if producer then bnd dial (\<lambda>_. setting (\<lambda>s. s\<lparr>cn_producer := False\<rparr>)) else ret ()) (\<lambda>_.
     bnd (getting cn_consumer) (\<lambda>consumer.
     if consumer then bnd dial (\<lambda>_. setting (\<lambda>s. s\<lparr>cn_consumer := False\<rparr>)) else ret ())))"

definition check_database :: "(connections, bool) prog" where
  "check_database = bnd (setting (\<lambda>s. s\<lparr>cn_engine := True\<rparr>)) (\<lambda>_. dial)"

definition dispose_engine :: "(connections, unit) prog" where
  "dispose_engine = setting (\<lambda>s. s\<lparr>cn_engine := False\<rparr>)"

section \<open>Start and probes\<close>

definition start_connections :: "(connections, unit) prog" where
  "start_connections = bnd cassandra_initialize (\<lambda>_. bnd redis_initialize (\<lambda>_. kafka_initialize))"

text \<open>The probe's status and its details: postgres, cassandra, redis, kafka; the probe under \<open>/v1\<close> has no postgres.\<close>

definition up :: "bool \<Rightarrow> string" where
  "up ok = (if ok then ''UP'' else ''DOWN'')"

definition root_readiness :: "(connections, nat \<times> (string \<times> string) list) prog" where
  "root_readiness =
     bnd cassandra_health (\<lambda>c. bnd redis_health (\<lambda>r. bnd kafka_health (\<lambda>k. bnd check_database (\<lambda>p.
     ret (if c \<and> r \<and> k \<and> p then 200 else 503,
          [(''postgres'', up p), (''cassandra'', up c), (''redis'', up r), (''kafka'', up k)])))))"

definition v1_readiness :: "(connections, nat \<times> (string \<times> string) list) prog" where
  "v1_readiness =
     bnd cassandra_health (\<lambda>c. bnd redis_health (\<lambda>r. bnd kafka_health (\<lambda>k.
     ret (if c \<and> r \<and> k then 200 else 503, [(''cassandra'', up c), (''redis'', up r), (''kafka'', up k)]))))"

section \<open>What a probe tells\<close>

lemma wp_dial [wp_simps]: "wp dial Q E s = Q (case cn_calls s of [] \<Rightarrow> True | b # _ \<Rightarrow> b) (s\<lparr>cn_calls := tl (cn_calls s)\<rparr>)"
  by (simp add: wp_def dial_def)

lemma wp_setting [wp_simps]: "wp (setting f) Q E s = Q () (f s)"
  by (simp add: wp_def setting_def)

text \<open>The consumer is only started after the producer.\<close>

definition ordered :: "connections \<Rightarrow> bool" where
  "ordered s \<longleftrightarrow> (cn_consumer s \<longrightarrow> cn_producer s)"

lemma wp_kafka_initialize:
  "ordered s \<Longrightarrow> wp kafka_initialize
     (\<lambda>_ t. both_started t \<and> cn_cassandra t = cn_cassandra s \<and> cn_redis t = cn_redis s)
     (\<lambda>_ t. ordered t \<and> \<not> both_started t \<and> cn_cassandra t = cn_cassandra s \<and> cn_redis t = cn_redis s) s"
  by (auto simp: kafka_initialize_def wp_simps both_started_def ordered_def)

lemma wp_cassandra_health:
  "wp cassandra_health (\<lambda>ok t. (ok \<longrightarrow> cn_cassandra t) \<and> cn_redis t = cn_redis s \<and> cn_producer t = cn_producer s \<and>
     cn_consumer t = cn_consumer s) (\<lambda>_ _. False) s"
  by (simp add: cassandra_health_def cassandra_initialize_def wp_simps)

lemma wp_redis_health:
  "wp redis_health (\<lambda>ok t. (ok \<longrightarrow> cn_redis t) \<and> cn_redis t = cn_redis s \<and> cn_cassandra t = cn_cassandra s \<and>
     cn_producer t = cn_producer s \<and> cn_consumer t = cn_consumer s) (\<lambda>_ _. False) s"
  by (simp add: redis_health_def wp_simps)

lemma wp_kafka_health:
  assumes "ordered s"
  shows "wp kafka_health (\<lambda>ok t. (ok \<longrightarrow> both_started t) \<and> ordered t \<and> cn_cassandra t = cn_cassandra s \<and> cn_redis t = cn_redis s)
     (\<lambda>_ _. False) s"
proof (cases "both_started s")
  case True
  then show ?thesis using assms by (simp add: kafka_health_def wp_simps both_started_def ordered_def)
next
  case False
  then show ?thesis unfolding kafka_health_def wp_bnd wp_getting wp_if wp_attempt
    by (simp, intro wp_mono [OF wp_kafka_initialize [OF assms]]) (auto simp: wp_simps both_started_def ordered_def)
qed

text \<open>
  A probe never raises, whatever calls fail, and an answer 200 means that every manager holds a client that has just
  answered: a half-started Kafka client is never reported as ready.
\<close>

theorem ready_means_connected:
  assumes "ordered s"
  shows "wp root_readiness (\<lambda>(code, details) t. ordered t \<and> (code = 200 \<longrightarrow>
       cn_cassandra t \<and> cn_redis t \<and> both_started t \<and> details = map (\<lambda>n. (n, ''UP'')) [''postgres'', ''cassandra'', ''redis'', ''kafka'']))
     (\<lambda>_ _. False) s"
  unfolding root_readiness_def wp_bnd [of cassandra_health]
proof (rule wp_mono [OF wp_cassandra_health], goal_cases)
  case (1 c t)
  note outer = 1
  then have "ordered t" using assms by (simp add: ordered_def)
  then have kafka: "wp kafka_health (\<lambda>ok v. (ok \<longrightarrow> both_started v) \<and> ordered v \<and> cn_cassandra v = cn_cassandra t \<and> cn_redis v = cn_redis t)
      (\<lambda>_ _. False) t'" if "cn_producer t' = cn_producer t" "cn_consumer t' = cn_consumer t" "cn_cassandra t' = cn_cassandra t"
      "cn_redis t' = cn_redis t" for t'
    using wp_kafka_health [of t'] that by (simp add: ordered_def)
  show ?case unfolding wp_bnd [of redis_health]
  proof (rule wp_mono [OF wp_redis_health], goal_cases)
    case (1 r t')
    then show ?case unfolding wp_bnd [of kafka_health]
      by (intro wp_mono [OF kafka]) (use outer in \<open>auto simp: check_database_def wp_simps up_def ordered_def both_started_def\<close>)
  qed simp
qed simp

text \<open>After a start that returns, both Kafka clients run; a Kafka failure is the only one that stops the start.\<close>

theorem start_needs_kafka_only:
  assumes "\<not> cn_producer s" "\<not> cn_consumer s"
  shows "wp start_connections (\<lambda>_ t. both_started t) (\<lambda>e t. e = KafkaError \<and> \<not> both_started t) s"
  using assms by (auto simp: start_connections_def cassandra_initialize_def redis_initialize_def kafka_initialize_def wp_simps both_started_def)

theorem closed_kafka: "wp kafka_close (\<lambda>_ t. \<not> cn_producer t \<and> \<not> cn_consumer t) (\<lambda>_ _. False) s"
  by (simp add: kafka_close_def wp_simps)

text \<open>The two probes disagree when only PostgreSQL is down: the one under \<open>/v1\<close> never asks for it.\<close>

theorem v1_probe_misses_postgres:
  "s = \<lparr>cn_cassandra = True, cn_redis = True, cn_producer = True, cn_consumer = True, cn_engine = True,
        cn_calls = [True, True, True, True, False]\<rparr> \<Longrightarrow>
   wp v1_readiness (\<lambda>(code, _) _. code = 200) (\<lambda>_ _. False) s \<and> wp root_readiness (\<lambda>(code, _) _. code = 503) (\<lambda>_ _. False) s"
  by (simp add: v1_readiness_def root_readiness_def cassandra_health_def redis_health_def kafka_health_def check_database_def
      both_started_def wp_simps)

end
