(* ===== verification/Lifespan.thy ===== *)
theory Lifespan
  imports Health Py_Text
begin

text \<open>
  The life of the process (\<open>lifespan\<close> of \<open>app/main.py\<close>): which background tasks run, from the first connection to the last; the
  singletons every request shares (\<open>app/db/postgres.py\<close>, \<open>app/db/session.py\<close>, \<open>app/artifacts/runtime.py\<close>); and the correlation id
  around a request (\<open>app/middleware/correlation.py\<close>). A task is what \<open>asyncio.create_task\<close> was given; that it does its work is the
  subject of the worker's theory.
\<close>

section \<open>The background tasks\<close>

datatype task =
    Kafka_consumer | Outbox_worker | Cleanup_worker | Retry_worker | Summary_worker | Pending_timeout_worker
  | Artifact_worker | Export_worker

text \<open>The connections of the managers, and the tasks under way in the order they were created.\<close>

type_synonym process = "connections \<times> task list"

definition on_connections :: "(connections, 'a) prog \<Rightarrow> (process, 'a) prog" where
  "on_connections m = (\<lambda>(c, ts). case m c of (r, c') \<Rightarrow> (r, (c', ts)))"

definition create_task :: "task \<Rightarrow> (process, unit) prog" where
  "create_task t = (\<lambda>(c, ts). (Inr (), (c, ts @ [t])))"

text \<open>\<open>task.cancel()\<close> with the \<open>gather\<close> of all tasks, which waits until they have ended and swallows how.\<close>

definition cancel_tasks :: "(process, unit) prog" where
  "cancel_tasks = (\<lambda>(c, ts). (Inr (), (c, [])))"

definition CORE_TASKS :: "task list" where
  "CORE_TASKS = [Kafka_consumer, Outbox_worker, Cleanup_worker, Retry_worker, Summary_worker, Pending_timeout_worker]"

text \<open>The bucket of the object store; an outage is logged.\<close>

definition ensure_store :: "(process, unit) prog" where
  "ensure_store = attempt (bnd (on_connections dial) (\<lambda>ok. if ok then ret () else raise StorageError)) (\<lambda>_. ret ())"

definition lifespan_start :: "bool \<Rightarrow> bool \<Rightarrow> (process, unit) prog" where
  "lifespan_start artifact_enabled export_enabled =
     bnd (on_connections start_connections) (\<lambda>_.
     bnd (fold_prog (\<lambda>t _. create_task t) CORE_TASKS ()) (\<lambda>_.
     bnd ensure_store (\<lambda>_.
     bnd (if artifact_enabled then create_task Artifact_worker else ret ()) (\<lambda>_.
     if export_enabled then create_task Export_worker else ret ()))))"

text \<open>The clients are closed if there are any; an error of a close is logged and the client kept.\<close>

definition cassandra_close :: "(connections, unit) prog" where
  "cassandra_close = bnd (getting cn_cassandra) (\<lambda>cluster. if cluster then bnd dial (\<lambda>_. ret ()) else ret ())"

definition redis_close :: "(connections, unit) prog" where
  "redis_close = bnd (getting cn_redis) (\<lambda>client. if client then bnd dial (\<lambda>_. ret ()) else ret ())"

definition lifespan_stop :: "(process, unit) prog" where
  "lifespan_stop =
     bnd cancel_tasks (\<lambda>_.
     bnd (on_connections cassandra_close) (\<lambda>_.
     bnd (on_connections dispose_engine) (\<lambda>_.
     bnd (on_connections redis_close) (\<lambda>_. on_connections kafka_close))))"

section \<open>What runs when\<close>

lemma wp_on_connections [wp_simps]: "wp (on_connections m) Q E p = wp m (\<lambda>a c. Q a (c, snd p)) (\<lambda>e c. E e (c, snd p)) (fst p)"
  by (simp add: wp_def on_connections_def split: prod.split sum.split)

lemma wp_create_task [wp_simps]: "wp (create_task t) Q E p = Q () (fst p, snd p @ [t])"
  by (simp add: wp_def create_task_def split: prod.split)

lemma wp_cancel_tasks [wp_simps]: "wp cancel_tasks Q E p = Q () (fst p, [])"
  by (simp add: wp_def cancel_tasks_def split: prod.split)

definition running :: "bool \<Rightarrow> bool \<Rightarrow> task list" where
  "running artifact_enabled export_enabled =
     CORE_TASKS @ (if artifact_enabled then [Artifact_worker] else []) @ (if export_enabled then [Export_worker] else [])"

lemma wp_start_connections:
  assumes "\<not> cn_producer s" "\<not> cn_consumer s"
  shows "wp start_connections (\<lambda>_ t. both_started t) (\<lambda>e t. e = KafkaError \<and> \<not> both_started t) s"
  using assms by (auto simp: start_connections_def cassandra_initialize_def redis_initialize_def kafka_initialize_def wp_simps both_started_def)

lemma wp_tasks:
  "both_started c \<Longrightarrow> wp (bnd (fold_prog (\<lambda>t _. create_task t) CORE_TASKS ()) (\<lambda>_.
     bnd ensure_store (\<lambda>_.
     bnd (if a then create_task Artifact_worker else ret ()) (\<lambda>_. if x then create_task Export_worker else ret ()))))
     (\<lambda>_ p. both_started (fst p) \<and> snd p = running a x) E (c, [])"
  by (simp add: CORE_TASKS_def ensure_store_def running_def wp_simps both_started_def)

text \<open>
  The tasks live exactly between a start that returns and the stop. However the connections fail: when the start returns,
  both Kafka clients run and each enabled task was started once; when it raises, that was Kafka and no task runs; and the stop
  always returns, with no task left, no Kafka client and no database engine.
\<close>

theorem lifespan_tasks:
  assumes "\<not> cn_producer c" "\<not> cn_consumer c"
  shows "wp (lifespan_start a x)
      (\<lambda>_ p. both_started (fst p) \<and> snd p = running a x \<and> distinct (snd p) \<and>
         wp lifespan_stop (\<lambda>_ (c', ts). ts = [] \<and> \<not> cn_producer c' \<and> \<not> cn_consumer c' \<and> \<not> cn_engine c') (\<lambda>_ _. False) p)
      (\<lambda>e p. e = KafkaError \<and> snd p = []) (c, [])"
proof -
  have stop: "wp lifespan_stop (\<lambda>_ (c', ts). ts = [] \<and> \<not> cn_producer c' \<and> \<not> cn_consumer c' \<and> \<not> cn_engine c') (\<lambda>_ _. False) p" for p
    by (simp add: lifespan_stop_def cassandra_close_def dispose_engine_def redis_close_def kafka_close_def wp_simps)
  have once: "distinct (running a x)" by (simp add: running_def CORE_TASKS_def)
  show ?thesis unfolding lifespan_start_def wp_bnd [of "on_connections start_connections"] wp_on_connections
  proof (rule wp_mono [OF wp_start_connections], goal_cases)
    case (3 u c')
    then have "both_started c'" by simp
    then show ?case unfolding prod.sel
      by (rule wp_mono [OF wp_tasks]) (use once stop in auto)
  qed (use assms in simp_all)
qed

theorem lifespan_tasks_witness:
  "wp (lifespan_start True False)
      (\<lambda>_ p. both_started (fst p) \<and> snd p = running True False \<and> distinct (snd p) \<and>
         wp lifespan_stop (\<lambda>_ (c', ts). ts = [] \<and> \<not> cn_producer c' \<and> \<not> cn_consumer c' \<and> \<not> cn_engine c') (\<lambda>_ _. False) p)
      (\<lambda>e p. e = KafkaError \<and> snd p = [])
      (\<lparr>cn_cassandra = False, cn_redis = False, cn_producer = False, cn_consumer = False, cn_engine = False, cn_calls = [False, True]\<rparr>, [])"
  by (rule lifespan_tasks) simp_all

text \<open>A start that fails at the consumer leaves the producer connected, and nothing closes it: the stop only runs after a start.\<close>

theorem failed_start_keeps_producer:
  "s = \<lparr>cn_cassandra = False, cn_redis = False, cn_producer = False, cn_consumer = False, cn_engine = False, cn_calls = [True, True, True, False]\<rparr> \<Longrightarrow>
   wp (lifespan_start a x) (\<lambda>_ _. False) (\<lambda>e p. e = KafkaError \<and> cn_producer (fst p)) (s, [])"
  by (simp add: lifespan_start_def start_connections_def cassandra_initialize_def redis_initialize_def kafka_initialize_def wp_simps)

section \<open>Singletons\<close>

text \<open>
  \<open>global x; if x is None: x = build(); return x\<close>: the engine, the session factory, the object store and the artifact service.
  What \<open>build\<close> gives may be a new object every time; here it is the next of a supply.
\<close>

definition singleton :: "('g \<Rightarrow> 'o option) \<Rightarrow> ('o \<Rightarrow> 'g \<Rightarrow> 'g) \<Rightarrow> ('g, 'o) prog \<Rightarrow> ('g, 'o) prog" where
  "singleton held hold build =
     bnd (getting held) (\<lambda>x. case x of Some ob \<Rightarrow> ret ob
     | None \<Rightarrow> bnd build (\<lambda>ob. bnd (\<lambda>g. (Inr (), hold ob g)) (\<lambda>_. ret ob)))"

record globals =
  gl_fresh :: nat
  gl_engine :: "nat option"
  gl_sessions :: "(nat \<times> nat) option"
  gl_store :: "nat option"
  gl_artifacts :: "(nat \<times> (nat \<times> nat) \<times> nat) option"

definition new_object :: "(globals, nat) prog" where
  "new_object = (\<lambda>g. (Inr (gl_fresh g), g\<lparr>gl_fresh := gl_fresh g + 1\<rparr>))"

definition get_engine :: "(globals, nat) prog" where
  "get_engine = singleton gl_engine (\<lambda>ob g. g\<lparr>gl_engine := Some ob\<rparr>) new_object"

text \<open>A factory with the engine it is bound to; a service with its factory and its store.\<close>

definition get_session_factory :: "(globals, nat \<times> nat) prog" where
  "get_session_factory = singleton gl_sessions (\<lambda>ob g. g\<lparr>gl_sessions := Some ob\<rparr>)
     (bnd get_engine (\<lambda>engine. bnd new_object (\<lambda>ob. ret (ob, engine))))"

definition get_object_store :: "(globals, nat) prog" where
  "get_object_store = singleton gl_store (\<lambda>ob g. g\<lparr>gl_store := Some ob\<rparr>) new_object"

definition get_artifact_service :: "(globals, nat \<times> (nat \<times> nat) \<times> nat) prog" where
  "get_artifact_service = singleton gl_artifacts (\<lambda>ob g. g\<lparr>gl_artifacts := Some ob\<rparr>)
     (bnd get_session_factory (\<lambda>sessions. bnd get_object_store (\<lambda>store. bnd new_object (\<lambda>ob. ret (ob, sessions, store)))))"

text \<open>\<open>dispose_engine\<close> forgets the engine, not the factories bound to it.\<close>

definition forget_engine :: "(globals, unit) prog" where
  "forget_engine = (\<lambda>g. (Inr (), g\<lparr>gl_engine := None\<rparr>))"

lemmas singleton_defs = singleton_def get_engine_def get_session_factory_def get_object_store_def get_artifact_service_def new_object_def

lemma wp_pure [wp_simps]: "wp (\<lambda>g. (Inr (v g), f g)) Q E g = Q (v g) (f g)"
  by (simp add: wp_def)

text \<open>Every part of the process works on one engine, one factory and one store.\<close>

theorem shared_singletons:
  "wp (bnd get_artifact_service (\<lambda>a. bnd get_session_factory (\<lambda>s. bnd get_object_store (\<lambda>st. bnd get_artifact_service (\<lambda>b.
     ret (a, s, st, b)))))) (\<lambda>(a, s, st, b) _. a = b \<and> (gl_artifacts g = None \<longrightarrow> fst (snd a) = s \<and> snd (snd a) = st)) (\<lambda>_ _. False) g"
  by (auto simp: singleton_defs wp_simps split: option.split)

text \<open>After the engine was disposed of, the factory of the process still hands out sessions of the old one.\<close>

theorem factory_outlives_engine:
  "gl_engine g = None \<Longrightarrow> gl_sessions g = None \<Longrightarrow>
   wp (bnd get_session_factory (\<lambda>s. bnd forget_engine (\<lambda>_. bnd get_engine (\<lambda>e. bnd get_session_factory (\<lambda>s'. ret (s, e, s'))))))
     (\<lambda>(s, e, s') _. s' = s \<and> snd s' \<noteq> e) (\<lambda>_ _. False) g"
  by (simp add: singleton_defs forget_engine_def wp_simps)

section \<open>The correlation id\<close>

text \<open>
  The context variable of a task with the rest of its state; \<open>token\<close> is the value before. The response gets the id as its
  header; an exception passes, the variable reset.
\<close>

definition get_correlation_id :: "(string \<times> 's, string) prog" where
  "get_correlation_id = getting fst"

definition dispatch_correlated ::
  "string option \<Rightarrow> string \<Rightarrow> (string \<times> 's, (string \<times> string) list) prog \<Rightarrow> (string \<times> 's, (string \<times> string) list) prog" where
  "dispatch_correlated header fresh call_next =
     (let cid = (case header of None \<Rightarrow> fresh | Some h \<Rightarrow> if h = [] then fresh else h) in
      bnd (getting fst) (\<lambda>token.
      bnd (\<lambda>(_, s). (Inr (), (cid, s))) (\<lambda>_.
      bnd (attempt call_next (\<lambda>e. bnd (\<lambda>(_, s). (Inr (), (token, s))) (\<lambda>_. raise e))) (\<lambda>response.
      bnd (\<lambda>(_, s). (Inr (), (token, s))) (\<lambda>_.
      ret ((''X-Correlation-ID'', cid) # filter (\<lambda>(k, _). lower k \<noteq> lower ''X-Correlation-ID'') response))))))"

text \<open>
  Whatever the handler does to the variable, and whether it answers or raises, the variable is afterwards what it was before
  the request; the handler starts with the id of the client, or with a fresh one when that is missing or empty; and the answer
  carries this id exactly once.
\<close>

theorem correlation_is_scoped:
  assumes "cid = (case header of None \<Rightarrow> fresh | Some h \<Rightarrow> if h = [] then fresh else h)"
  shows "wp (dispatch_correlated header fresh call_next)
      (\<lambda>response (var, _). var = outer \<and> filter (\<lambda>(k, _). lower k = lower ''X-Correlation-ID'') response = [(''X-Correlation-ID'', cid)])
      (\<lambda>_ (var, _). var = outer) (outer, s)"
    and "snd (snd (dispatch_correlated header fresh (bnd get_correlation_id (\<lambda>seen. \<lambda>(v, _). (Inr [], (v, seen)))) (outer, s0))) = cid"
proof -
  show "wp (dispatch_correlated header fresh call_next)
      (\<lambda>response (var, _). var = outer \<and> filter (\<lambda>(k, _). lower k = lower ''X-Correlation-ID'') response = [(''X-Correlation-ID'', cid)])
      (\<lambda>_ (var, _). var = outer) (outer, s)"
    using assms
    by (cases "call_next (cid, s)")
       (auto simp: dispatch_correlated_def wp_def bnd_def attempt_def getting_def raise_def ret_def Let_def filter_filter case_prod_unfold
         split: sum.split)
  show "snd (snd (dispatch_correlated header fresh (bnd get_correlation_id (\<lambda>seen. \<lambda>(v, _). (Inr [], (v, seen)))) (outer, s0))) = cid"
    using assms by (simp add: dispatch_correlated_def get_correlation_id_def bnd_def attempt_def getting_def ret_def Let_def)
qed

end
