(* ===== verification/Spec2Isabelle.thy ===== *)
theory Spec2Isabelle
  imports Api Export_Progress Group_Workers Studio_Schema Reply_Race Cache_Race Auth Cursors Render_Backend Object_Store Lifespan
begin

text \<open>
  Conversation service: verification development.

  The program.  src/app is an asynchronous Python service that stores conversations and their
  messages in Cassandra, announces every change through an outbox table that a worker publishes to
  Kafka, receives the answers of a language-model service from Kafka, and streams them to browsers
  through Redis.  Users, preferences, custom modes, notes, diagram source edits and rendered
  animations are kept in Postgres.  A request goes through a route (api/v1), a service (services),
  a repository (repositories) and the drivers; the workers (workers, events/consumers.py) run
  beside the routes on the same tables.

  The state of the model.  One record, world of Store, is everything the processes share: the
  Cassandra tables as maps from primary keys to rows, the Redis keys, streams and pending markers
  with their expiry, the messages given to Kafka, and the schedule of driver failures.  A Cassandra
  batch or a Redis command is one effect on it.  The next entry of w_sched says what becomes of the
  next command: Okay (applied and answered), Refused (not applied, an exception is raised) or Lost
  (applied, but the answer is lost and an exception is raised).  An operation is a function from
  worlds to an answer and a world, its answer being Inl of the exception or Inr of the value, and
  is composed with ret, bnd, raise and handlers that mirror try/except of the code.  The Postgres
  tables are the record pg of Postgres with its own list of failures, of statements and of commits;
  the animation studio (the tables of artifacts and export jobs, the render backend and the object
  storage) is the record of Artifacts, and an export runs on the pair of world and studio.
  The fields pg_enforced and st_checks say whether the database has the widths and CHECKs of the
  migrations; without them it takes any value, so that what the services see to by themselves can
  be stated apart from what the database refuses.  Keys, unique indexes and ON CONFLICT hold always.
  An exception of the code is a constructor of exn in Prelude.

  Theories and the code they model.
    Prelude, Py_Text        exceptions, rows of the tables, results; Python string operations
                            (split, strip, slices, len, truthiness) and JSON values.
    Uuids                   utils/helpers.py: UUIDv7 ids, their generation and their order.
    Citations               services/citations.py.
    Store, Event_Repos      the shared world; repositories/outbox_repository.py and
                            inbox_repository.py, models/outbox.py, models/inbox.py.
    Message_Repo,
    Conversation_Repo       repositories/message_repository.py, conversation_repository.py.
    Cache                   services/cache_service.py.
    Conversation_Service    services/conversation_service.py, events/producers.py.
    Branch_Context          services/branch_context_service.py.
    Hierarchy               services/hierarchy_service.py.
    Postgres                the tables, their constraints and the transactions of db/session.py.
    Custom_Modes            services/custom_mode_service.py, models/custom_modes.py and its
                            repository in repositories/pg_repositories.py.
    Preferences             services/preferences_service.py, models/preferences.py,
                            services/mode_catalog.py and its repository.
    Message_Service         services/message_service.py.
    Stream_Service          services/stream_service.py and the frames of api/v1/stream.py.
    Consumers               events/consumers.py.
    Timeout_Worker          workers/pending_timeout_worker.py.
    Outbox_Worker           workers/outbox_worker.py, workers/retry_worker.py,
                            clients/kafka_producer.py.
    Api                     api/v1/messages.py, conversations.py, preferences.py,
                            custom_modes.py, services/idempotency_service.py and the schemas.
    Documents               repositories/notes_repository.py, source_edit_repository.py and
                            their routes.
    Fingerprint, Media      artifacts/fingerprint.py, artifacts/media.py.
    Artifacts,
    Artifact_Lifecycle      artifacts/service.py; its invariant over every operation.
    Artifact_Api            api/v1/artifacts.py.
    Group_Workers           workers/cleanup_worker.py, workers/summary_worker.py.
    Export_Names            exports/naming.py.
    Export_Blocks           exports/blocks.py.
    Export_Collect          exports/collector.py.
    Export_Markdown         exports/render_markdown.py.
    Export_Archive,
    Export_Zip              exports/archive.py: the plan of the paths, and the archive.
    Export_Pdf              exports/render_pdf.py.
    Export_Jobs,
    Export_Job_Laws         exports/service.py; the invariant of the jobs.
    Export_Api              api/v1/exports.py.
    Export_Progress         jobs over time: attempts, repeated requests, two workers.
    Studio_System           all calls on the studio, animations and exports, in any order, and the
                            loop of the artifact worker.
    Migration               migration/preferences_to_postgres.py.
    Schema                  db/migrations/versions: what the services write, against the
                            constraints of the tables and without them.
    Settings                db/keyspace.py, the validators of core/config.py and the consistency
                            levels of db/cassandra.py.
    Auth                    security/jwt.py, models.py, dependencies.py.
    Cursors                 utils/pagination.py and its use in api/v1/messages.py.
    Render_Backend          artifacts/render_backend.py: the HTTP client of the render service.
    Health                  the connection managers of db, the start-up and the readiness probes.
    Lifespan                the background tasks of main.py from start to stop, the shared objects of
                            artifacts/runtime.py and db, middleware/correlation.py.
    Object_Store            artifacts/storage.py: the stores behind the objects of the studio.
    Studio_Schema           the tables of migration 0002 over all calls on the studio.
    Reply_Race              several replicas writing the answer of one turn, their handlers cut
                            between the read and the write.
    Cache_Race              several replicas on one conversation: the read-through cache with the
                            handlers cut between the database and Redis.

  How the parts interact.  A route checks the owner (require_owner) and calls a service.
  ms_send stages the user message, the outbox event and, with conv_service_create, the catalog
  row; the outbox worker publishes the event; a consumer record comes back through handle_envelope
  and reaches finalize_assistant_message or fail_assistant_message; the time-out worker fails the
  rows whose answer never came; publish_token and subscribe carry the stream of one answer; each
  of these is the modelled operation of its own theory, called as the code calls it.  An export
  is a job: api_create_export stores it, process_job claims it under a lease, reads the
  conversations with collect, renders them and publishes the file, and jobs_cleanup removes what
  is over; its rows and files share the studio with the animations it bundles.

  What the lemmas show.  Each theory states what each of its operations does on every branch and
  then the property the component is there for.  Conversation_Repo: the two tables that hold a
  conversation agree after every operation.  Conversation_Service and Message_Service: a handler
  stages all of its effect or none, on any schedule of failures.  Branch_Context and Hierarchy:
  what a branch inherits never leaves the user's own ancestors, and the walks end on cyclic data
  and reach exactly the descendants.  Custom_Modes, Preferences and Documents: optimistic
  concurrency, stated in Documents as the locale cas_documents of a compare-and-set register and
  interpreted on the notes and on the source edits; the keys of the custom modes are the ones of
  their current names, and a saved patch was applied to the very document it replaced.  Stream_Service: a reader that reconnects sees
  each event once.  Consumers, Timeout_Worker and Outbox_Worker: what a failed step leaves behind,
  and that the next pass settles it.  Artifact_Lifecycle: an invariant of the studio, kept by
  every operation, from which a finished animation is a checked one.  Export_Collect to Export_Pdf:
  an export holds the owner's own messages, cut at the snapshot, text for text; its paths are
  plain and distinct, its links lead to its files, its media are verified, and no text of a user
  opens a tag.  Export_Job_Laws and Studio_System: one live job per request, bounded numbers of
  jobs and attempts, and behind every ready export its file, over all calls of both services
  (programs that only read, and programs that keep a fact, are small calculi over wp).
  Export_Progress: attempts end, repeated requests find their job, and a worker whose lease ran
  out deletes the file of the one that finished.  Group_Workers: what one record of the clean-up
  and summary topics leaves in the tables and in the committed offset.  Migration: a row of
  the new table is never replaced by an older one, and a second run changes nothing.  Schema: the
  services write only rows that fit, also into tables that check nothing.  Settings: production starts exactly
  with safe settings, and the keyspace statement reads back.  Auth: the user of a
  request is named by claims the decoder verified under strict options.  Cursors: a cursor is decoded to the pair it was made
  of.  Render_Backend: the answers the studio model takes from a list are the ones of the HTTP
  client, whose classification of the answers is written down apart from the code (a refinement).  Health: a probe answers 200 exactly when all connections answer, and
  what the managers keep.  Lifespan: tasks run between a start that returned and the stop only.
  Object_Store: the contract of a store as the locale object_store, interpreted on the in-process
  store of the code and on the store of the studio, which therefore agree on every sequence of
  uploads and deletions.  Studio_Schema: no call writes a row the schema forbids, also where nothing
  checks it.  Reply_Race: the
  relation race interleaves the halves of any number of handlers; rows of users are safe in every
  interleaving, a stored answer is safe once no failure is under way, and in that window it is lost.
  Cache_Race: the relation conv_race interleaves reads, writes, fills and evictions; a cached copy
  can be stale but never names another owner, and a late fill brings a deleted conversation back; a token opens the conversations of its own
  subject only, whatever the cache holds.

  Bounds and fuel.  The bounds are the ones of the code: the depth limit of a lineage, three tries
  of the preferences update, the five steps of an advance, fifty cached messages, the limits of
  the custom modes and of the stream log.  Loops without a bound in the code recurse on a list
  or on the finite set still unseen, so they are total functions; walk_boxes moves at least eight
  bytes forward in each step.

  Conventions.  What the code draws from outside is an argument: clock readings, random bits,
  generated ids, the trimming slack of XADD, the replies of the render backend.  Times are
  microseconds, and a stored Cassandra timestamp is cut to milliseconds (db_time).  Strings are
  code points below U+0100.  JSON documents are the datatype json, with an object as its list of
  members.  SHA-256, uuid5, NFKC normalisation, the catalog of the llm-service, json.loads, the ZIP
  container, the Markdown and PDF libraries and the stamp of a creation time are parameters; those
  of the exports are the record tools.  U+2014 and U+00B7 of the code are written as their bytes.
  A handler runs to its end before the next one starts, except in Reply_Race and Cache_Race; another
  property that needs an interleaving states the operations of both parties in that order.

  Not modelled.  The dependency injection of api/deps.py and the objects it builds; logging;
  that a cancelled task stops at its next await; reading the environment and .env into the
  settings; the Alembic environment and the downgrades; the drivers, the HTTP, S3 and JWT libraries,
  of which only the answers and failures the code reacts to are arguments; and interleavings inside
  a handler other than those of Reply_Race and Cache_Race and those a property spells out.
\<close>

end
